(* ===== verification/Prelude.thy ===== *)
theory Prelude
  imports Main "HOL-Library.AList"
begin

text \<open>
  Shared notions of the development: the state-and-exception programs the stateful
  components are written in, rules for invariants of such programs, and Python
  dictionaries as insertion-ordered association lists.

  A Python function with effects is a function from the world to a result and the world
  it leaves: \<open>Inl e\<close> when it raises \<open>e\<close>, \<open>Inr x\<close> when it returns \<open>x\<close>. An exception
  does not roll the world back.
\<close>

named_theorems keeps_intro "rules that an effectful program keeps an invariant"
named_theorems prog_simps "unfolding of the program combinators"

section \<open>Effectful programs\<close>

type_synonym ('w, 'e, 'a) prog = "'w \<Rightarrow> ('e + 'a) \<times> 'w"

definition ret :: "'a \<Rightarrow> ('w, 'e, 'a) prog" where
  "ret x w = (Inr x, w)"

definition raise :: "'e \<Rightarrow> ('w, 'e, 'a) prog" where
  "raise e w = (Inl e, w)"

definition bind :: "('w, 'e, 'a) prog \<Rightarrow> ('a \<Rightarrow> ('w, 'e, 'b) prog) \<Rightarrow> ('w, 'e, 'b) prog" where
  "bind m f w = (case m w of (Inl e, w') \<Rightarrow> (Inl e, w') | (Inr x, w') \<Rightarrow> f x w')"

text \<open>\<open>attempt m\<close> runs \<open>m\<close> and hands its outcome, exception or value, to what follows;
  \<open>try_except m h k\<close> is \<open>try: x = m  except e: h e  else: k x\<close>.\<close>

definition attempt :: "('w, 'e, 'a) prog \<Rightarrow> ('w, 'e, 'e + 'a) prog" where
  "attempt m w = (case m w of (r, w') \<Rightarrow> (Inr r, w'))"

definition try_except ::
  "('w, 'e, 'a) prog \<Rightarrow> ('e \<Rightarrow> ('w, 'e, 'b) prog) \<Rightarrow> ('a \<Rightarrow> ('w, 'e, 'b) prog) \<Rightarrow> ('w, 'e, 'b) prog"
where
  "try_except m h k = bind (attempt m) (\<lambda>r. case r of Inl e \<Rightarrow> h e | Inr x \<Rightarrow> k x)"

definition lift :: "'e + 'a \<Rightarrow> ('w, 'e, 'a) prog" where
  "lift r w = (r, w)"

definition modify :: "('w \<Rightarrow> 'w) \<Rightarrow> ('w, 'e, unit) prog" where
  "modify f w = (Inr (), f w)"

definition asks :: "('w \<Rightarrow> 'a) \<Rightarrow> ('w, 'e, 'a) prog" where
  "asks f w = (Inr (f w), w)"

text \<open>\<open>then_do m k\<close> sequences statements whose first has no result of interest.\<close>

definition then_do :: "('w, 'e, unit) prog \<Rightarrow> ('w, 'e, 'b) prog \<Rightarrow> ('w, 'e, 'b) prog" where
  "then_do m k = bind m (\<lambda>_. k)"

text \<open>\<open>when_do b m\<close> is an \<open>if\<close> statement without an \<open>else\<close>.\<close>

definition when_do :: "bool \<Rightarrow> ('w, 'e, unit) prog \<Rightarrow> ('w, 'e, unit) prog" where
  "when_do b m = (if b then m else ret ())"

text \<open>\<open>finally_do m f\<close> is \<open>try: m  finally: f\<close> for a clean-up \<open>f\<close> that does not raise.\<close>

definition finally_do :: "('w, 'e, 'a) prog \<Rightarrow> ('w \<Rightarrow> 'w) \<Rightarrow> ('w, 'e, 'a) prog" where
  "finally_do m f w = (case m w of (r, w') \<Rightarrow> (r, f w'))"

lemmas [prog_simps] = ret_def raise_def bind_def attempt_def try_except_def lift_def
  modify_def asks_def then_do_def when_do_def finally_do_def

lemma bind_simps [simp]:
  "bind (ret x) f = f x"
  "bind (raise e) f = raise e"
  "bind m ret = m"
  by (auto simp: bind_def ret_def raise_def fun_eq_iff split: prod.splits sum.splits)

lemma bind_assoc: "bind (bind m f) g = bind m (\<lambda>x. bind (f x) g)"
  by (auto simp: bind_def fun_eq_iff split: prod.splits sum.splits)

lemma bind_eq_Inr:
  "bind m f w = (Inr y, w2) \<longleftrightarrow> (\<exists>x w1. m w = (Inr x, w1) \<and> f x w1 = (Inr y, w2))"
  by (auto simp: bind_def split: prod.splits sum.splits)

section \<open>Sequencing results without state\<close>

definition and_then :: "'e + 'a \<Rightarrow> ('a \<Rightarrow> 'e + 'b) \<Rightarrow> 'e + 'b" where
  "and_then r f = (case r of Inl e \<Rightarrow> Inl e | Inr x \<Rightarrow> f x)"

lemma and_then_simps [simp]:
  "and_then (Inl e) f = Inl e"
  "and_then (Inr x) f = f x"
  by (simp_all add: and_then_def)

lemma and_then_Inr: "and_then r f = Inr y \<longleftrightarrow> (\<exists>x. r = Inr x \<and> f x = Inr y)"
  by (cases r) auto

text \<open>A comprehension whose body may raise: it stops at the first exception.\<close>

fun traverse :: "('a \<Rightarrow> 'e + 'b) \<Rightarrow> 'a list \<Rightarrow> 'e + 'b list" where
  "traverse f [] = Inr []"
| "traverse f (x # xs) = and_then (f x) (\<lambda>y. and_then (traverse f xs) (\<lambda>ys. Inr (y # ys)))"

lemma traverse_Inr_iff:
  "traverse f xs = Inr ys \<longleftrightarrow> list_all2 (\<lambda>x y. f x = Inr y) xs ys"
  by (induction xs arbitrary: ys) (auto simp: and_then_Inr list_all2_Cons1)

section \<open>Invariants of programs\<close>

text \<open>
  \<open>keeps I m\<close>: from a world that satisfies \<open>I\<close> the program leaves one that does, whether
  it returns or raises. \<open>yields P m Q\<close> adds what holds of the result when it returns;
  the world it leaves on an exception still satisfies the error postcondition.
\<close>

definition keeps :: "('w \<Rightarrow> bool) \<Rightarrow> ('w, 'e, 'a) prog \<Rightarrow> bool" where
  "keeps I m \<longleftrightarrow> (\<forall>w. I w \<longrightarrow> I (snd (m w)))"

definition yields ::
  "('w \<Rightarrow> bool) \<Rightarrow> ('w, 'e, 'a) prog \<Rightarrow> ('a \<Rightarrow> 'w \<Rightarrow> bool) \<Rightarrow> ('e \<Rightarrow> 'w \<Rightarrow> bool) \<Rightarrow> bool"
where
  "yields P m Q E \<longleftrightarrow>
     (\<forall>w. P w \<longrightarrow> (case m w of (Inl e, w') \<Rightarrow> E e w' | (Inr x, w') \<Rightarrow> Q x w'))"

lemma keepsI: "(\<And>w r w'. I w \<Longrightarrow> m w = (r, w') \<Longrightarrow> I w') \<Longrightarrow> keeps I m"
  unfolding keeps_def by (metis prod.collapse)

lemma keepsD: "keeps I m \<Longrightarrow> I w \<Longrightarrow> m w = (r, w') \<Longrightarrow> I w'"
  by (auto simp: keeps_def dest!: spec [of _ w])

lemma yieldsI:
  "(\<And>w x w'. P w \<Longrightarrow> m w = (Inr x, w') \<Longrightarrow> Q x w') \<Longrightarrow>
   (\<And>w e w'. P w \<Longrightarrow> m w = (Inl e, w') \<Longrightarrow> E e w') \<Longrightarrow> yields P m Q E"
  by (auto simp: yields_def split: prod.splits sum.splits)

lemma yieldsD_Inr: "yields P m Q E \<Longrightarrow> P w \<Longrightarrow> m w = (Inr x, w') \<Longrightarrow> Q x w'"
  by (fastforce simp: yields_def)

lemma yieldsD_Inl: "yields P m Q E \<Longrightarrow> P w \<Longrightarrow> m w = (Inl e, w') \<Longrightarrow> E e w'"
  by (fastforce simp: yields_def)

lemma keeps_iff_yields: "keeps I m \<longleftrightarrow> yields I m (\<lambda>_. I) (\<lambda>_. I)"
  by (simp add: keeps_def yields_def case_prod_unfold split: sum.splits)

lemma yields_keepsI: "yields I m (\<lambda>_. I) (\<lambda>_. I) \<Longrightarrow> keeps I m"
  by (simp add: keeps_iff_yields)

lemma keeps_ret [keeps_intro]: "keeps I (ret x)"
  by (simp add: keeps_def ret_def)

lemma keeps_raise [keeps_intro]: "keeps I (raise e)"
  by (simp add: keeps_def raise_def)

lemma keeps_lift [keeps_intro]: "keeps I (lift r)"
  by (simp add: keeps_def lift_def)

lemma keeps_asks [keeps_intro]: "keeps I (asks f)"
  by (simp add: keeps_def asks_def)

lemma keeps_bind [keeps_intro]:
  "keeps I m \<Longrightarrow> (\<And>x. keeps I (f x)) \<Longrightarrow> keeps I (bind m f)"
  by (fastforce simp: keeps_def bind_def split: prod.splits sum.splits)

lemma keeps_attempt [keeps_intro]: "keeps I m \<Longrightarrow> keeps I (attempt m)"
  by (simp add: keeps_def attempt_def case_prod_unfold)

lemma keeps_try [keeps_intro]:
  "keeps I m \<Longrightarrow> (\<And>e. keeps I (h e)) \<Longrightarrow> (\<And>x. keeps I (k x)) \<Longrightarrow> keeps I (try_except m h k)"
  unfolding try_except_def
  by (intro keeps_bind keeps_attempt) (auto split: sum.splits)

lemma keeps_then [keeps_intro]: "keeps I m \<Longrightarrow> keeps I k \<Longrightarrow> keeps I (then_do m k)"
  by (auto simp: then_do_def intro: keeps_bind)

lemma keeps_when [keeps_intro]: "keeps I m \<Longrightarrow> keeps I (when_do b m)"
  by (auto simp: when_do_def intro: keeps_ret)

lemma keeps_modify [keeps_intro]: "(\<And>w. I w \<Longrightarrow> I (f w)) \<Longrightarrow> keeps I (modify f)"
  by (simp add: keeps_def modify_def)

lemma keeps_finally [keeps_intro]:
  "keeps I m \<Longrightarrow> (\<And>w. I w \<Longrightarrow> I (f w)) \<Longrightarrow> keeps I (finally_do m f)"
  by (simp add: keeps_def finally_do_def case_prod_unfold)

lemma keeps_if [keeps_intro]:
  "(b \<Longrightarrow> keeps I m) \<Longrightarrow> (\<not> b \<Longrightarrow> keeps I m') \<Longrightarrow> keeps I (if b then m else m')"
  by simp

lemma yields_bind:
  "yields P m R E \<Longrightarrow> (\<And>x. yields (R x) (f x) Q E) \<Longrightarrow> yields P (bind m f) Q E"
  by (fastforce simp: yields_def bind_def split: prod.splits sum.splits)

lemma yields_ret: "(\<And>w. P w \<Longrightarrow> Q x w) \<Longrightarrow> yields P (ret x) Q E"
  by (simp add: yields_def ret_def)

lemma yields_weaken:
  "yields P m Q E \<Longrightarrow> (\<And>w. P' w \<Longrightarrow> P w) \<Longrightarrow> (\<And>x w. Q x w \<Longrightarrow> Q' x w) \<Longrightarrow>
   (\<And>e w. E e w \<Longrightarrow> E' e w) \<Longrightarrow> yields P' m Q' E'"
  by (fastforce simp: yields_def split: prod.splits sum.splits)

lemma yields_try:
  "yields P m R F \<Longrightarrow> (\<And>e. yields (F e) (h e) Q E) \<Longrightarrow> (\<And>x. yields (R x) (k x) Q E) \<Longrightarrow>
   yields P (try_except m h k) Q E"
  by (fastforce simp: yields_def try_except_def attempt_def bind_def split: prod.splits sum.splits)

section \<open>Dictionaries\<close>

text \<open>
  A Python \<open>dict\<close> keeps its keys in insertion order, and assigning to a present key keeps
  its place: an association list with \<open>AList.update\<close>, read by \<open>map_of\<close>.
\<close>

type_synonym ('k, 'v) dict = "('k \<times> 'v) list"

definition dict_get :: "('k, 'v) dict \<Rightarrow> 'k \<Rightarrow> 'v option" where
  "dict_get d k = map_of d k"

definition dict_set :: "'k \<Rightarrow> 'v \<Rightarrow> ('k, 'v) dict \<Rightarrow> ('k, 'v) dict" where
  "dict_set k v d = AList.update k v d"

lemma dict_get_Nil [simp]: "dict_get [] k = None"
  by (simp add: dict_get_def)

lemma dict_get_set [simp]: "dict_get (dict_set k v d) k' = (if k' = k then Some v else dict_get d k')"
  by (simp add: dict_get_def dict_set_def update_conv')

lemma distinct_dict_set: "distinct (map fst d) \<Longrightarrow> distinct (map fst (dict_set k v d))"
  by (simp add: dict_set_def distinct_update)

lemma dict_values: "distinct (map fst d) \<Longrightarrow> v \<in> snd ` set d \<longleftrightarrow> (\<exists>k. dict_get d k = Some v)"
  by (force simp: dict_get_def image_iff dest: map_of_SomeD)

section \<open>Options\<close>

lemma ex_option_iff: "(\<exists>x. o1 = Some x) \<longleftrightarrow> o1 \<noteq> None"
  by auto

definition or_else :: "'a option \<Rightarrow> ('w, 'e, 'a) prog \<Rightarrow> ('w, 'e, 'a) prog" where
  \<comment> \<open>Python's \<open>x or f()\<close> where \<open>x\<close> is None or a truthy object\<close>
  "or_else x m = (case x of Some v \<Rightarrow> ret v | None \<Rightarrow> m)"

lemma keeps_case_option [keeps_intro]:
  "keeps I m \<Longrightarrow> (\<And>x. keeps I (f x)) \<Longrightarrow> keeps I (case y of None \<Rightarrow> m | Some x \<Rightarrow> f x)"
  by (cases y) simp_all

lemma keeps_or_else [keeps_intro]: "keeps I m \<Longrightarrow> keeps I (or_else x m)"
  by (cases x) (auto simp: or_else_def intro: keeps_ret)

end
