(* ===== verification/Pystr.thy ===== *)
theory Pystr
  imports Prelude "HOL-Library.Word" "HOL-Library.Char_ord"
begin

text \<open>
  Python text and bytes. A \<open>str\<close> is a list of code points (\<open>len\<close> counts them), a \<open>bytes\<close>
  object a list of 8-bit words. \<open>S ''abc''\<close> is the text of an ASCII literal. Here are the
  operations of the standard library that the source uses on them: \<open>strip\<close>, \<open>isascii\<close>,
  \<open>lower\<close> on ASCII text, decimal and hexadecimal printing, \<open>str(UUID)\<close> and UTF-8 encoding
  (which raises on a lone surrogate).
\<close>

type_synonym ustring = "nat list"
type_synonym byte = "8 word"
type_synonym bytes = "byte list"
type_synonym uuid = "128 word"

named_theorems text_simps "evaluation of text operations on literals"

section \<open>Literals\<close>

definition S :: "string \<Rightarrow> ustring" where
  "S s = map of_char s"

lemma length_S [simp]: "length (S s) = length s"
  by (simp add: S_def)

lemma S_eq_iff [simp]: "S s = S t \<longleftrightarrow> s = t"
  by (auto simp: S_def dest!: map_injective intro: injI)

lemma S_eq_Nil [simp]: "S s = [] \<longleftrightarrow> s = []" "[] = S s \<longleftrightarrow> s = []"
  by (auto simp: S_def)

section \<open>White space and blank text\<close>

text \<open>The code points with \<open>str.isspace\<close>, which \<open>strip\<close> removes at both ends.\<close>

definition is_space :: "nat \<Rightarrow> bool" where
  "is_space c \<longleftrightarrow> 9 \<le> c \<and> c \<le> 13 \<or> 28 \<le> c \<and> c \<le> 32 \<or> c = 133 \<or> c = 160 \<or> c = 5760
     \<or> 8192 \<le> c \<and> c \<le> 8202 \<or> c = 8232 \<or> c = 8233 \<or> c = 8239 \<or> c = 8287 \<or> c = 12288"

definition strip :: "ustring \<Rightarrow> ustring" where
  "strip s = rev (dropWhile is_space (rev (dropWhile is_space s)))"

definition nonblank :: "ustring \<Rightarrow> bool" where
  "nonblank s \<longleftrightarrow> strip s \<noteq> []"

definition opt_nonblank :: "ustring option \<Rightarrow> bool" where
  "opt_nonblank s \<longleftrightarrow> (case s of None \<Rightarrow> True | Some t \<Rightarrow> nonblank t)"

lemma nonblank_iff: "nonblank s \<longleftrightarrow> (\<exists>c \<in> set s. \<not> is_space c)"
proof -
  have "strip s = [] \<longleftrightarrow> (\<forall>c \<in> set s. is_space c)"
    by (auto simp: strip_def dropWhile_eq_Nil_conv dest: set_dropWhileD)
       (metis dropWhile_eq_Nil_conv hd_dropWhile hd_in_set rev_is_Nil_conv set_rev)
  then show ?thesis by (auto simp: nonblank_def)
qed

lemma nonblank_not_Nil: "nonblank s \<Longrightarrow> s \<noteq> []"
  by (auto simp: nonblank_iff)

lemma nonblank_Cons [simp]: "nonblank (c # s) \<longleftrightarrow> \<not> is_space c \<or> nonblank s"
  by (auto simp: nonblank_iff)

lemma nonblank_Nil [simp]: "\<not> nonblank []"
  by (auto simp: nonblank_iff)

lemma nonblank_append [simp]: "nonblank (s @ t) \<longleftrightarrow> nonblank s \<or> nonblank t"
  by (auto simp: nonblank_iff)

lemma nonblank_S: "nonblank (S (c # s)) \<longleftrightarrow> \<not> is_space (of_char c) \<or> nonblank (S s)"
  by (simp add: S_def)

lemma opt_nonblank_simps [simp]:
  "opt_nonblank None" "opt_nonblank (Some s) = nonblank s"
  by (simp_all add: opt_nonblank_def)

section \<open>ASCII text\<close>

definition is_ascii :: "ustring \<Rightarrow> bool" where
  "is_ascii s \<longleftrightarrow> list_all (\<lambda>c. c < 128) s"

text \<open>\<open>str.lower\<close> on a code point below 128.\<close>

definition lower_cp :: "nat \<Rightarrow> nat" where
  "lower_cp c = (if 65 \<le> c \<and> c \<le> 90 then c + 32 else c)"

definition lower :: "ustring \<Rightarrow> ustring" where
  "lower s = map lower_cp s"

lemma lower_idem [simp]: "lower (lower s) = lower s"
  by (simp add: lower_def lower_cp_def)

definition is_digit :: "nat \<Rightarrow> bool" where
  "is_digit c \<longleftrightarrow> 48 \<le> c \<and> c \<le> 57"

definition visible_ascii :: "nat \<Rightarrow> bool" where
  "visible_ascii c \<longleftrightarrow> 33 \<le> c \<and> c \<le> 126"

section \<open>Printing numbers\<close>

text \<open>The \<open>w\<close> digits of \<open>n\<close> to the base \<open>b\<close>, most significant first.\<close>

fun fix_digits :: "nat \<Rightarrow> nat \<Rightarrow> nat \<Rightarrow> nat list" where
  "fix_digits b 0 n = []"
| "fix_digits b (Suc w) n = fix_digits b w (n div b) @ [n mod b]"

lemma length_fix_digits [simp]: "length (fix_digits b w n) = w"
  by (induction w arbitrary: n) auto

lemma fix_digits_less: "0 < b \<Longrightarrow> d \<in> set (fix_digits b w n) \<Longrightarrow> d < b"
  by (induction w arbitrary: n) auto

lemma fix_digits_inj:
  "n < b ^ w \<Longrightarrow> m < b ^ w \<Longrightarrow> fix_digits b w n = fix_digits b w m \<Longrightarrow> n = m"
proof (induction w arbitrary: n m)
  case (Suc w)
  from Suc.prems have "n div b = m div b"
    by (intro Suc.IH) (auto simp: less_mult_imp_div_less mult.commute)
  moreover from Suc.prems have "n mod b = m mod b" by simp
  ultimately show ?case by (metis div_mult_mod_eq)
qed simp

definition hex_char :: "nat \<Rightarrow> nat" where
  "hex_char d = (if d < 10 then 48 + d else 87 + d)"

lemma hex_char_inj: "hex_char a = hex_char b \<Longrightarrow> a < 16 \<Longrightarrow> b < 16 \<Longrightarrow> a = b"
  by (auto simp: hex_char_def split: if_splits)

definition hex_fix :: "nat \<Rightarrow> nat \<Rightarrow> ustring" where
  "hex_fix w n = map hex_char (fix_digits 16 w n)"

definition dec_fix :: "nat \<Rightarrow> nat \<Rightarrow> ustring" where
  "dec_fix w n = map (\<lambda>d. 48 + d) (fix_digits 10 w n)"

lemma length_hex_fix [simp]: "length (hex_fix w n) = w"
  by (simp add: hex_fix_def)

lemma length_dec_fix [simp]: "length (dec_fix w n) = w"
  by (simp add: dec_fix_def)

lemma dec_fix_inj: "n < 10 ^ w \<Longrightarrow> m < 10 ^ w \<Longrightarrow> dec_fix w n = dec_fix w m \<longleftrightarrow> n = m"
  by (auto simp: dec_fix_def inj_map_eq_map inj_def dest: fix_digits_inj)

lemma hex_fix_inj: "n < 16 ^ w \<Longrightarrow> m < 16 ^ w \<Longrightarrow> hex_fix w n = hex_fix w m \<Longrightarrow> n = m"
proof -
  assume n: "n < 16 ^ w" and m: "m < 16 ^ w" and eq: "hex_fix w n = hex_fix w m"
  have "inj_on hex_char {d. d < 16}"
    by (auto intro!: inj_onI hex_char_inj)
  moreover have "set (fix_digits 16 w n) \<union> set (fix_digits 16 w m) \<subseteq> {d. d < 16}"
    by (auto dest: fix_digits_less [rotated])
  ultimately have "fix_digits 16 w n = fix_digits 16 w m"
    using eq by (auto simp: hex_fix_def dest!: map_inj_on intro: inj_on_subset)
  with n m show "n = m" by (rule fix_digits_inj)
qed

text \<open>\<open>str(n)\<close> for an integer.\<close>

fun dec_nat :: "nat \<Rightarrow> ustring" where
  "dec_nat n = (if n < 10 then [48 + n] else dec_nat (n div 10) @ [48 + n mod 10])"

declare dec_nat.simps [simp del]

definition dec_int :: "int \<Rightarrow> ustring" where
  "dec_int i = (if i < 0 then 45 # dec_nat (nat (- i)) else dec_nat (nat i))"

lemma dec_nat_digits: "c \<in> set (dec_nat n) \<Longrightarrow> is_digit c"
proof (induction n rule: dec_nat.induct)
  case (1 n)
  then show ?case
    by (cases "n < 10") (auto simp: dec_nat.simps [of n] is_digit_def)
qed

lemma dec_nat_not_Nil [simp]: "dec_nat n \<noteq> []" "[] \<noteq> dec_nat n"
  by (subst dec_nat.simps, simp)+

lemma dec_nat_inj: "dec_nat n = dec_nat m \<Longrightarrow> n = m"
proof (induction n arbitrary: m rule: dec_nat.induct)
  case (1 n)
  show ?case
  proof (cases "n < 10 \<or> m < 10")
    case True
    with "1.prems" show ?thesis
      by (auto simp: dec_nat.simps [of n] dec_nat.simps [of m] split: if_splits)
  next
    case False
    with "1.prems" have "dec_nat (n div 10) = dec_nat (m div 10)" "n mod 10 = m mod 10"
      by (auto simp: dec_nat.simps [of n] dec_nat.simps [of m])
    with "1.IH" False have "n div 10 = m div 10" by simp
    with \<open>n mod 10 = m mod 10\<close> show ?thesis by (metis div_mult_mod_eq)
  qed
qed

section \<open>UUID text\<close>

text \<open>\<open>str(u)\<close>: 32 lower-case hexadecimal digits in groups of 8, 4, 4, 4 and 12.\<close>

definition uuid_str :: "uuid \<Rightarrow> ustring" where
  "uuid_str u =
     (let h = hex_fix 32 (unat u)
      in take 8 h @ [45] @ take 4 (drop 8 h) @ [45] @ take 4 (drop 12 h) @ [45]
         @ take 4 (drop 16 h) @ [45] @ drop 20 h)"

lemma length_uuid_str [simp]: "length (uuid_str u) = 36"
  by (simp add: uuid_str_def Let_def)

lemma uuid_str_inj: "uuid_str u = uuid_str v \<longleftrightarrow> u = v"
proof
  assume eq: "uuid_str u = uuid_str v"
  have rebuild: "s = take 8 s @ take 4 (drop 8 s) @ take 4 (drop 12 s) @ take 4 (drop 16 s) @ drop 20 s"
    for s :: "nat list"
  proof -
    have step: "take m (drop n s) @ drop (m + n) s = drop n s" for m n
      using append_take_drop_id [of m "drop n s"] by simp
    show ?thesis
      using step [of 8 0] step [of 4 8] step [of 4 12] step [of 4 16] by simp
  qed
  have "hex_fix 32 (unat u) = hex_fix 32 (unat v)"
    using eq rebuild [of "hex_fix 32 (unat u)"] rebuild [of "hex_fix 32 (unat v)"]
    by (simp add: uuid_str_def Let_def)
  moreover have "unat x < 16 ^ 32" for x :: uuid
    using unsigned_less [of x] by simp
  ultimately have "unat u = unat v" by (intro hex_fix_inj)
  then show "u = v" by (rule unsigned_word_eqI)
qed simp

end
