(* ===== verification/Vocabulary.thy ===== *)
theory Vocabulary
  imports Pystr
begin

text \<open>
  The enumerations of the program with their string values, and the exceptions it raises
  or handles. Messages are dropped from the exceptions; the attributes that handlers read
  are kept.
\<close>

section \<open>Enumerations\<close>

datatype severity = LOW | MEDIUM | HIGH | CRITICAL

fun severity_value :: "severity \<Rightarrow> ustring" where
  "severity_value LOW = S ''low''"
| "severity_value MEDIUM = S ''medium''"
| "severity_value HIGH = S ''high''"
| "severity_value CRITICAL = S ''critical''"

datatype decision_outcome = INVESTIGATE | NO_ACTION

fun decision_outcome_value :: "decision_outcome \<Rightarrow> ustring" where
  "decision_outcome_value INVESTIGATE = S ''investigate''"
| "decision_outcome_value NO_ACTION = S ''no_action''"

datatype operation_state = NONTERMINAL | SUCCEEDED | OP_FAILED

fun operation_state_value :: "operation_state \<Rightarrow> ustring" where
  "operation_state_value NONTERMINAL = S ''nonterminal''"
| "operation_state_value SUCCEEDED = S ''succeeded''"
| "operation_state_value OP_FAILED = S ''failed''"

datatype processing_state =
  ACCEPTED | PLANNED | SUBMITTING | SUBMITTED | COMPLETED | FAILED | RECOVERY_REQUIRED

fun processing_state_value :: "processing_state \<Rightarrow> ustring" where
  "processing_state_value ACCEPTED = S ''accepted''"
| "processing_state_value PLANNED = S ''planned''"
| "processing_state_value SUBMITTING = S ''submitting''"
| "processing_state_value SUBMITTED = S ''submitted''"
| "processing_state_value COMPLETED = S ''completed''"
| "processing_state_value FAILED = S ''failed''"
| "processing_state_value RECOVERY_REQUIRED = S ''recovery_required''"

text \<open>\<open>ExecutionAttemptState\<close>: the same names, prefixed here.\<close>

datatype attempt_state =
  A_PLANNED | A_SUBMITTING | A_SUBMITTED | A_COMPLETED | A_FAILED | A_RECOVERY_REQUIRED

fun attempt_state_value :: "attempt_state \<Rightarrow> ustring" where
  "attempt_state_value A_PLANNED = S ''planned''"
| "attempt_state_value A_SUBMITTING = S ''submitting''"
| "attempt_state_value A_SUBMITTED = S ''submitted''"
| "attempt_state_value A_COMPLETED = S ''completed''"
| "attempt_state_value A_FAILED = S ''failed''"
| "attempt_state_value A_RECOVERY_REQUIRED = S ''recovery_required''"

lemma severity_value_inj [simp]: "severity_value a = severity_value b \<longleftrightarrow> a = b"
  by (cases a; cases b) simp_all

lemma processing_state_value_inj [simp]: "processing_state_value a = processing_state_value b \<longleftrightarrow> a = b"
  by (cases a; cases b) simp_all

lemma attempt_state_value_inj [simp]: "attempt_state_value a = attempt_state_value b \<longleftrightarrow> a = b"
  by (cases a; cases b) simp_all

lemma decision_outcome_value_inj [simp]: "decision_outcome_value a = decision_outcome_value b \<longleftrightarrow> a = b"
  by (cases a; cases b) simp_all

section \<open>Exceptions\<close>

text \<open>
  Subclasses of \<open>Exception\<close> only: an interrupt or an interpreter exit is not modelled. The two
  routing errors carry the processing identifier and state that the processor sets on them.
  The \<open>Psycopg\<close> constructors are the database driver's errors, \<open>OtherError\<close> any other.
\<close>

datatype exn =
    ValueError
  | TypeError
  | KeyError
  | RuntimeError
  | AttributeError
  | OverflowError
  | UnicodeEncodeError
  | TimeoutError
  | UnsupportedCapabilitiesError "ustring list" "(uuid \<times> processing_state) option"
  | AmbiguousBackendError "ustring list" "ustring list" "(uuid \<times> processing_state) option"
  | BackendSubmissionRejectedError
  | BackendSubmissionUnknownError
  | BackendExecutionError
  | BackendProtocolError
  | VelociraptorConfigurationError
  | VelociraptorTargetError
  | VelociraptorSubmissionUnknownError
  | VelociraptorCollectionError ustring
  | IdempotencyConflictError uuid
  | PersistenceUnavailableError
  | PsycopgUniqueViolation
  | PsycopgQueryCanceled
  | PsycopgOperationalError
  | PsycopgInterfaceError
  | OtherError

text \<open>\<open>isinstance\<close> along the class hierarchy.\<close>

fun is_submission_rejected :: "exn \<Rightarrow> bool" where
  "is_submission_rejected BackendSubmissionRejectedError = True"
| "is_submission_rejected VelociraptorTargetError = True"
| "is_submission_rejected _ = False"

fun is_submission_unknown :: "exn \<Rightarrow> bool" where
  "is_submission_unknown BackendSubmissionUnknownError = True"
| "is_submission_unknown VelociraptorSubmissionUnknownError = True"
| "is_submission_unknown _ = False"

fun is_value_error :: "exn \<Rightarrow> bool" where
  "is_value_error ValueError = True"
| "is_value_error UnicodeEncodeError = True"
| "is_value_error VelociraptorConfigurationError = True"
| "is_value_error _ = False"

fun is_operational_or_interface :: "exn \<Rightarrow> bool" where
  \<comment> \<open>QueryCanceled is a subclass of OperationalError\<close>
  "is_operational_or_interface PsycopgOperationalError = True"
| "is_operational_or_interface PsycopgInterfaceError = True"
| "is_operational_or_interface PsycopgQueryCanceled = True"
| "is_operational_or_interface _ = False"

fun is_unsupported_capabilities :: "exn \<Rightarrow> bool" where
  "is_unsupported_capabilities (UnsupportedCapabilitiesError _ _) = True"
| "is_unsupported_capabilities _ = False"

fun is_ambiguous_backend :: "exn \<Rightarrow> bool" where
  "is_ambiguous_backend (AmbiguousBackendError _ _ _) = True"
| "is_ambiguous_backend _ = False"

text \<open>The argument of a VelociraptorCollectionError.\<close>

fun collection_message :: "exn \<Rightarrow> ustring option" where
  "collection_message (VelociraptorCollectionError m) = Some m"
| "collection_message _ = None"

end
