(* ===== verification/Pytime.thy ===== *)
theory Pytime
  imports Pystr
begin

text \<open>
  Python \<open>datetime\<close> values, as far as the source uses them: a local wall-clock reading in
  microseconds since 0001-01-01T00:00 and, for an aware value, its UTC offset. Aware values
  are compared by instant; \<open>astimezone(timezone.utc)\<close> raises OverflowError when the instant
  lies outside the years 1 to 9999; \<open>isoformat\<close> prints the proleptic Gregorian date. The
  UTC text determines the instant (\<open>isoformat_utc_inj\<close>).
\<close>

record datetime =
  dt_local :: int
  dt_offset :: "int option"

definition us_per_day :: int where "us_per_day = 86400000000"

definition max_us :: int where "max_us = 3652059 * us_per_day"

text \<open>What the constructor guarantees: year 1 to 9999, an offset of less than a day.\<close>

definition dt_ok :: "datetime \<Rightarrow> bool" where
  "dt_ok d \<longleftrightarrow> 0 \<le> dt_local d \<and> dt_local d < max_us \<and>
     (case dt_offset d of None \<Rightarrow> True | Some z \<Rightarrow> - us_per_day < z \<and> z < us_per_day)"

definition aware :: "datetime \<Rightarrow> bool" where
  "aware d \<longleftrightarrow> dt_offset d \<noteq> None"

definition instant :: "datetime \<Rightarrow> int" where
  "instant d = dt_local d - (case dt_offset d of None \<Rightarrow> 0 | Some z \<Rightarrow> z)"

definition dt_eq :: "datetime \<Rightarrow> datetime \<Rightarrow> bool" where
  "dt_eq a b \<longleftrightarrow> instant a = instant b \<and> (aware a \<longleftrightarrow> aware b)"

definition dt_less :: "datetime \<Rightarrow> datetime \<Rightarrow> bool" where
  "dt_less a b \<longleftrightarrow> instant a < instant b"

lemma dt_eq_refl [simp]: "dt_eq d d"
  by (simp add: dt_eq_def)

lemma dt_eq_sym: "dt_eq a b \<Longrightarrow> dt_eq b a"
  by (auto simp: dt_eq_def)

lemma dt_eq_trans: "dt_eq a b \<Longrightarrow> dt_eq b c \<Longrightarrow> dt_eq a c"
  by (auto simp: dt_eq_def)

definition utc :: "int \<Rightarrow> datetime" where
  "utc t = \<lparr>dt_local = t, dt_offset = Some 0\<rparr>"

lemma utc_simps [simp]: "instant (utc t) = t" "aware (utc t)"
  by (simp_all add: utc_def instant_def aware_def)

definition astimezone_utc :: "'e \<Rightarrow> datetime \<Rightarrow> 'e + datetime" where
  "astimezone_utc overflow d =
     (if 0 \<le> instant d \<and> instant d < max_us then Inr (utc (instant d)) else Inl overflow)"

section \<open>The calendar\<close>

text \<open>Day numbers count from 0 for 0001-01-01; the algorithm of \<open>datetime._ord2ymd\<close>.\<close>

definition days_before_month :: "nat \<Rightarrow> nat" where
  "days_before_month m = [0, 0, 31, 59, 90, 120, 151, 181, 212, 243, 273, 304, 334] ! m"

definition days_in_month :: "nat \<Rightarrow> nat" where
  "days_in_month m = [0, 31, 28, 31, 30, 31, 30, 31, 31, 30, 31, 30, 31] ! m"

definition month_day :: "bool \<Rightarrow> nat \<Rightarrow> nat \<times> nat" where
  "month_day leap n =
     (let m = (n + 50) div 32;
          start = days_before_month m + (if 2 < m \<and> leap then 1 else 0)
      in if n < start
         then (m - 1, n - (start - (days_in_month (m - 1) + (if m - 1 = 2 \<and> leap then 1 else 0))) + 1)
         else (m, n - start + 1))"

definition ymd :: "nat \<Rightarrow> nat \<times> nat \<times> nat" where
  "ymd n =
     (let n400 = n div 146097; r400 = n mod 146097;
          n100 = r400 div 36524; r100 = r400 mod 36524;
          n4 = r100 div 1461; r4 = r100 mod 1461;
          n1 = r4 div 365; r1 = r4 mod 365;
          year = n400 * 400 + 1 + n100 * 100 + n4 * 4 + n1
      in if n1 = 4 \<or> n100 = 4 then (year - 1, 12, 31)
         else (year, month_day (n1 = 3 \<and> (n4 \<noteq> 24 \<or> n100 = 3)) r1))"

definition is_leap :: "nat \<Rightarrow> bool" where
  "is_leap y \<longleftrightarrow> 4 dvd y \<and> (\<not> 100 dvd y \<or> 400 dvd y)"

definition days_before_year :: "nat \<Rightarrow> nat" where
  "days_before_year y = (y - 1) * 365 + (y - 1) div 4 - (y - 1) div 100 + (y - 1) div 400"

definition day_number :: "nat \<Rightarrow> nat \<Rightarrow> nat \<Rightarrow> nat" where
  "day_number y m d =
     days_before_year y + (days_before_month m + (if 2 < m \<and> is_leap y then 1 else 0)) + d - 1"

definition month_day_back :: "bool \<Rightarrow> nat \<times> nat \<Rightarrow> nat" where
  "month_day_back leap md = days_before_month (fst md) + (if 2 < fst md \<and> leap then 1 else 0) + snd md - 1"

definition month_day_good :: "bool \<Rightarrow> nat \<Rightarrow> bool" where
  "month_day_good leap n \<longleftrightarrow>
     (case month_day leap n of (m, d) \<Rightarrow>
        month_day_back leap (m, d) = n \<and> 1 \<le> m \<and> m \<le> 12 \<and> 1 \<le> d \<and> d \<le> 31)"

lemma month_day_good:
  assumes n: "n < (if leap then 366 else 365)"
  shows "month_day_good leap n"
proof -
  define m where "m = (n + 50) div 32"
  have r: "m * 32 \<le> n + 50" "n + 50 < m * 32 + 32" by (simp_all add: m_def)
  have "n < 366" using n by (cases leap) simp_all
  with r have "1 \<le> m" "m \<le> 12" by linarith+
  then have "m = 1 \<or> m = 2 \<or> m = 3 \<or> m = 4 \<or> m = 5 \<or> m = 6
    \<or> m = 7 \<or> m = 8 \<or> m = 9 \<or> m = 10 \<or> m = 11 \<or> m = 12" by presburger
  then show ?thesis
    using n r unfolding month_day_good_def month_day_def m_def [symmetric]
    by (elim disjE; cases leap; simp add: days_before_month_def days_in_month_def month_day_back_def;
        (intro conjI impI; linarith)?)
qed

lemma dvd_top: "0 < r \<Longrightarrow> r \<le> k \<Longrightarrow> k dvd k * q + r \<longleftrightarrow> r = k" for k q r :: nat
  by (auto simp: dvd_add_right_iff dest: dvd_imp_le)

text \<open>The year part: \<open>a\<close>, \<open>b\<close>, \<open>c\<close>, \<open>d\<close> are the numbers of whole 400-, 100-, 4- and
  1-year cycles.\<close>

lemma year_parts:
  fixes a b c d :: nat
  assumes "b < 4" "c < 25" "d < 4"
  shows "days_before_year (a * 400 + 1 + b * 100 + c * 4 + d) = a * 146097 + b * 36524 + c * 1461 + d * 365"
    and "is_leap (a * 400 + 1 + b * 100 + c * 4 + d) \<longleftrightarrow> d = 3 \<and> (c \<noteq> 24 \<or> b = 3)"
proof -
  let ?y = "a * 400 + b * 100 + c * 4 + d"
  have q: "?y div 4 = a * 100 + b * 25 + c" "?y div 100 = a * 4 + b" "?y div 400 = a"
    using assms by linarith+
  then show "days_before_year (a * 400 + 1 + b * 100 + c * 4 + d) = a * 146097 + b * 36524 + c * 1461 + d * 365"
    by (simp add: days_before_year_def)
  have s: "Suc ?y = 4 * (a * 100 + b * 25 + c) + (d + 1)" "Suc ?y = 100 * (a * 4 + b) + (c * 4 + d + 1)"
    "Suc ?y = 400 * a + (b * 100 + c * 4 + d + 1)" by simp_all
  have m: "4 dvd Suc ?y \<longleftrightarrow> d = 3" "100 dvd Suc ?y \<longleftrightarrow> c * 4 + d = 99" "400 dvd Suc ?y \<longleftrightarrow> b * 100 + c * 4 + d = 399"
    using assms dvd_top [of "d + 1" 4 "a * 100 + b * 25 + c"] dvd_top [of "c * 4 + d + 1" 100 "a * 4 + b"]
      dvd_top [of "b * 100 + c * 4 + d + 1" 400 a]
    unfolding s(1) [symmetric] s(2) [symmetric] s(3) [symmetric] by simp_all
  then show "is_leap (a * 400 + 1 + b * 100 + c * 4 + d) \<longleftrightarrow> d = 3 \<and> (c \<noteq> 24 \<or> b = 3)"
    using assms by (auto simp: is_leap_def)
qed

lemma day_number_ymd:
  assumes "ymd n = (y, m, d)"
  shows "day_number y m d = n \<and> 1 \<le> y \<and> 1 \<le> m \<and> m \<le> 12 \<and> 1 \<le> d \<and> d \<le> 31"
proof -
  define n400 where "n400 = n div 146097"
  define r400 where "r400 = n mod 146097"
  define n100 where "n100 = r400 div 36524"
  define r100 where "r100 = r400 mod 36524"
  define n4 where "n4 = r100 div 1461"
  define r4 where "r4 = r100 mod 1461"
  define n1 where "n1 = r4 div 365"
  define r1 where "r1 = r4 mod 365"
  have n: "n = n400 * 146097 + r400" "r400 < 146097" by (simp_all add: n400_def r400_def)
  have r400: "r400 = n100 * 36524 + r100" "r100 < 36524" by (simp_all add: n100_def r100_def)
  have r100: "r100 = n4 * 1461 + r4" "r4 < 1461" by (simp_all add: n4_def r4_def)
  have r4: "r4 = n1 * 365 + r1" "r1 < 365" by (simp_all add: n1_def r1_def)
  have b: "n100 \<le> 4" "n4 \<le> 24" "n1 \<le> 4" using n r400 r100 r4 by linarith+
  have eq: "ymd n =
     (if n1 = 4 \<or> n100 = 4 then (n400 * 400 + 1 + n100 * 100 + n4 * 4 + n1 - 1, 12, 31)
      else (n400 * 400 + 1 + n100 * 100 + n4 * 4 + n1, month_day (n1 = 3 \<and> (n4 \<noteq> 24 \<or> n100 = 3)) r1))"
    unfolding ymd_def Let_def n400_def r400_def n100_def r100_def n4_def r4_def n1_def r1_def
    by (rule refl)
  consider "n100 = 4" | "n1 = 4" "n100 < 4" | "n1 < 4" "n100 < 4" using b by linarith
  then show ?thesis
  proof cases
    case 1
    then have z: "n4 = 0" "n1 = 0" "r1 = 0" using n r400 r100 r4 by linarith+
    have "ymd n = (n400 * 400 + 1 + 3 * 100 + 24 * 4 + 3, 12, 31)" using eq 1 z by simp
    with assms have yd: "y = n400 * 400 + 1 + 3 * 100 + 24 * 4 + 3" "m = 12" "d = 31" by simp_all
    show ?thesis
      using year_parts [of 3 24 3 n400] n r400 r100 r4 1 z
      by (simp add: yd day_number_def days_before_month_def)
  next
    case 2
    then have z: "r1 = 0" "n4 \<noteq> 24" using r100 r4 r400 by linarith+
    have "ymd n = (n400 * 400 + 1 + n100 * 100 + n4 * 4 + 3, 12, 31)" using eq 2 by simp
    with assms have yd: "y = n400 * 400 + 1 + n100 * 100 + n4 * 4 + 3" "m = 12" "d = 31" by simp_all
    show ?thesis
      unfolding yd using year_parts [of n100 n4 3 n400] n r400 r100 r4 2 z b
      by (simp add: day_number_def days_before_month_def)
  next
    case 3
    let ?leap = "n1 = 3 \<and> (n4 \<noteq> 24 \<or> n100 = 3)"
    from 3 eq assms have yd: "y = n400 * 400 + 1 + n100 * 100 + n4 * 4 + n1" and md: "month_day ?leap r1 = (m, d)"
      by simp_all
    have "month_day_good ?leap r1" using r4 by (intro month_day_good) auto
    then have g: "month_day_back ?leap (m, d) = r1" "1 \<le> m" "m \<le> 12" "1 \<le> d" "d \<le> 31"
      unfolding month_day_good_def md by simp_all
    have l: "is_leap y \<longleftrightarrow> ?leap"
      and y: "days_before_year y = n400 * 146097 + n100 * 36524 + n4 * 1461 + n1 * 365"
      unfolding yd using year_parts [of n100 n4 n1 n400] 3 b by simp_all
    have "day_number y m d = days_before_year y + r1"
      using g l by (simp add: day_number_def month_day_back_def)
    also have "\<dots> = n" using y n r400 r100 r4 by simp
    finally show ?thesis using g yd by simp
  qed
qed

lemma ymd_inj: "ymd n = ymd n' \<Longrightarrow> n = n'"
  by (metis day_number_ymd prod_cases3)

section \<open>Printing\<close>

definition pad :: "nat \<Rightarrow> nat \<Rightarrow> ustring" where
  "pad w n = dec_fix w n"

text \<open>\<open>isoformat(timespec="microseconds")\<close>: the reading and the offset, \<open>+HH:MM\<close> with
  seconds and microseconds only when they are not zero.\<close>

definition iso_offset :: "int option \<Rightarrow> ustring" where
  "iso_offset z =
     (case z of None \<Rightarrow> []
      | Some z \<Rightarrow>
          let a = nat \<bar>z\<bar>; us = a mod 1000000; s = a div 1000000
          in (if z < 0 then 45 else 43) # pad 2 (s div 3600) @ [58] @ pad 2 (s div 60 mod 60)
             @ (if s mod 60 = 0 \<and> us = 0 then [] else [58] @ pad 2 (s mod 60)
                @ (if us = 0 then [] else [46] @ pad 6 us)))"

definition iso_reading :: "nat \<Rightarrow> ustring" where
  "iso_reading t =
     (let us = t mod 1000000; s = t div 1000000 in
      case ymd (s div 86400) of (y, m, d) \<Rightarrow>
        pad 4 y @ [45] @ pad 2 m @ [45] @ pad 2 d @ [84]
        @ pad 2 (s mod 86400 div 3600) @ [58] @ pad 2 (s mod 3600 div 60) @ [58] @ pad 2 (s mod 60)
        @ [46] @ pad 6 us)"

definition isoformat :: "datetime \<Rightarrow> ustring" where
  "isoformat d = iso_reading (nat (dt_local d)) @ iso_offset (dt_offset d)"

text \<open>\<open>str.replace(old, new)\<close> for a non-empty \<open>old\<close>.\<close>

fun replace_text :: "ustring \<Rightarrow> ustring \<Rightarrow> ustring \<Rightarrow> ustring" where
  "replace_text old new [] = []"
| "replace_text old new (c # s) =
     (if old \<noteq> [] \<and> take (length old) (c # s) = old
      then new @ replace_text old new (drop (length old) (c # s))
      else c # replace_text old new s)"

definition utc_text :: "datetime \<Rightarrow> ustring" where
  "utc_text d = replace_text (S ''+00:00'') (S ''Z'') (isoformat d)"

lemma replace_text_skip:
  "\<forall>c \<in> set s. c \<noteq> hd old \<Longrightarrow> old \<noteq> [] \<Longrightarrow> replace_text old new (s @ t) = s @ replace_text old new t"
  by (induction s) (auto simp: neq_Nil_conv)

lemma pad_digits: "c \<in> set (pad w n) \<Longrightarrow> 48 \<le> c \<and> c \<le> 57"
  by (auto simp: pad_def dec_fix_def dest: fix_digits_less [rotated])

lemma iso_reading_chars: "c \<in> set (iso_reading t) \<Longrightarrow> c \<noteq> 43"
  by (auto simp: iso_reading_def Let_def split: prod.splits dest: pad_digits)

lemma iso_offset_zero: "iso_offset (Some 0) = S ''+00:00''"
  by (simp add: iso_offset_def pad_def S_def dec_fix_def numeral_2_eq_2)

lemma utc_text_utc: "utc_text (utc t) = iso_reading (nat t) @ S ''Z''"
proof -
  have "replace_text (S ''+00:00'') (S ''Z'') (iso_reading (nat t) @ S ''+00:00'')
    = iso_reading (nat t) @ replace_text (S ''+00:00'') (S ''Z'') (S ''+00:00'')"
    by (rule replace_text_skip) (auto simp: S_def dest: iso_reading_chars)
  then show ?thesis
    by (simp add: utc_text_def isoformat_def utc_def iso_offset_zero) (simp add: S_def)
qed

lemma year_bound:
  assumes "ymd n = (y, m, d)" "n < 3652059"
  shows "y < 10000"
proof (rule ccontr)
  assume "\<not> y < 10000"
  then have "9999 * 365 \<le> (y - 1) * 365" "9999 \<le> y - 1" by simp_all
  define x where "x = y - 1"
  have x: "9999 \<le> x" using \<open>9999 \<le> y - 1\<close> by (simp add: x_def)
  have "3652059 \<le> x * 365 + x div 4 - x div 100 + x div 400"
  proof -
    have "9999 div 400 \<le> x div 400" using x by (rule div_le_mono)
    moreover have "(x div 4) div 25 = x div 100" by (simp add: div_mult2_eq [symmetric])
    then have "x div 100 * 24 \<le> x div 4 - x div 100" "x div 100 \<le> x div 4" by linarith+
    ultimately show ?thesis using x by linarith
  qed
  then have "3652059 \<le> days_before_year y" unfolding days_before_year_def x_def [symmetric] .
  moreover have "day_number y m d = n" "1 \<le> d" using day_number_ymd [OF assms(1)] by simp_all
  ultimately show False using assms(2) unfolding day_number_def by linarith
qed

lemma pad_inj: "n < 10 ^ w \<Longrightarrow> m < 10 ^ w \<Longrightarrow> pad w n = pad w m \<longleftrightarrow> n = m"
  by (simp add: pad_def dec_fix_inj)

lemma length_pad [simp]: "length (pad w n) = w"
  by (simp add: pad_def)

lemma append_pad_eq [simp]: "pad w n @ s = pad w m @ t \<longleftrightarrow> pad w n = pad w m \<and> s = t"
  by simp

lemma iso_reading_inj:
  assumes "t < nat max_us" "t' < nat max_us" "iso_reading t = iso_reading t'"
  shows "t = t'"
proof -
  define s where "s = t div 1000000"
  define s' where "s' = t' div 1000000"
  obtain y m d where y: "ymd (s div 86400) = (y, m, d)" by (rule prod_cases3)
  obtain y' m' d' where y': "ymd (s' div 86400) = (y', m', d')" by (rule prod_cases3)
  have bs: "s div 86400 < 3652059" "s' div 86400 < 3652059"
    using assms(1,2) by (simp_all add: s_def s'_def max_us_def us_per_day_def)
  have yb: "y < 10000" "y' < 10000" using year_bound [OF y bs(1)] year_bound [OF y' bs(2)] by auto
  have b: "m < 100" "m' < 100" "d < 100" "d' < 100"
    using day_number_ymd [OF y] day_number_ymd [OF y'] by linarith+
  have p: "pad 4 y = pad 4 y'" "pad 2 m = pad 2 m'" "pad 2 d = pad 2 d'"
    "pad 2 (s mod 86400 div 3600) = pad 2 (s' mod 86400 div 3600)"
    "pad 2 (s mod 3600 div 60) = pad 2 (s' mod 3600 div 60)" "pad 2 (s mod 60) = pad 2 (s' mod 60)"
    "pad 6 (t mod 1000000) = pad 6 (t' mod 1000000)"
    using assms(3) y y' by (simp_all add: iso_reading_def s_def s'_def Let_def)
  have h: "x mod 86400 div 3600 < 100" "x mod 3600 div 60 < 100" "x mod 60 < 100" for x :: nat
    by (simp_all add: less_mult_imp_div_less)
  note inj = pad_inj [THEN iffD1]
  have e: "y = y'" "m = m'" "d = d'"
    "s mod 86400 div 3600 = s' mod 86400 div 3600" "s mod 3600 div 60 = s' mod 3600 div 60"
    "s mod 60 = s' mod 60" "t mod 1000000 = t' mod 1000000"
    by (rule inj [OF _ _ p(1)] inj [OF _ _ p(2)] inj [OF _ _ p(3)] inj [OF _ _ p(4)] inj [OF _ _ p(5)]
        inj [OF _ _ p(6)] inj [OF _ _ p(7)]; use yb b h in simp)+
  have "s div 86400 = s' div 86400" using y y' e by (metis ymd_inj)
  moreover have "s mod 86400 = s' mod 86400"
  proof -
    have split: "x mod 86400 = x mod 86400 div 3600 * 3600 + x mod 3600 div 60 * 60 + x mod 60" for x :: nat
    proof -
      have "x mod 86400 mod 3600 = x mod 3600" "x mod 3600 mod 60 = x mod 60"
        by (rule mod_mod_cancel; simp)+
      then show ?thesis
        using div_mult_mod_eq [of "x mod 86400" 3600] div_mult_mod_eq [of "x mod 3600" 60] by linarith
    qed
    show ?thesis using split [of s] split [of s'] e by simp
  qed
  ultimately have "s = s'" by (metis div_mult_mod_eq)
  with e show ?thesis unfolding s_def s'_def by (metis div_mult_mod_eq)
qed

lemma isoformat_utc_inj:
  assumes "astimezone_utc e a = Inr ua" "astimezone_utc e b = Inr ub"
  shows "utc_text ua = utc_text ub \<longleftrightarrow> instant a = instant b"
  using assms iso_reading_inj [of "nat (instant a)" "nat (instant b)"]
  by (auto simp: astimezone_utc_def utc_text_utc nat_eq_iff split: if_splits)

lemma astimezone_utc_cong: "instant a = instant b \<Longrightarrow> astimezone_utc e a = astimezone_utc e b"
  by (simp add: astimezone_utc_def)

end
