(* ===== verification/Domain.thy ===== *)
theory Domain
  imports Vocabulary Pytime
begin

text \<open>
  The domain of \<open>core/models.py\<close> and \<open>core/workflow.py\<close>: alerts, decisions, incidents and
  investigation requests, as records, each with a constructor \<open>mk_*\<close> that makes the checks
  of its \<open>__post_init__\<close> in their order. Python's \<open>==\<close> on these dataclasses compares field
  by field, and the detection time by instant: \<open>alert_eq\<close>, \<open>incident_eq\<close>, \<open>request_eq\<close>.
\<close>

section \<open>Alerts (\<open>core/models.py\<close>)\<close>

definition require_non_empty :: "ustring \<Rightarrow> exn + unit" where
  "require_non_empty s = (if strip s = [] then Inl ValueError else Inr ())"

definition require_optional_non_empty :: "ustring option \<Rightarrow> exn + unit" where
  "require_optional_non_empty s = (case s of None \<Rightarrow> Inr () | Some t \<Rightarrow> require_non_empty t)"

lemma require_non_empty_Inr [simp]: "require_non_empty s = Inr u \<longleftrightarrow> nonblank s"
  by (simp add: require_non_empty_def nonblank_def)

lemma require_optional_non_empty_Inr [simp]: "require_optional_non_empty s = Inr u \<longleftrightarrow> opt_nonblank s"
  by (simp add: require_optional_non_empty_def split: option.splits)

lemma require_non_empty_Inl: "require_non_empty s = Inl e \<Longrightarrow> e = ValueError"
  by (simp add: require_non_empty_def split: if_splits)

record detection_identity =
  di_identifier :: ustring
  di_name :: "ustring option"

record source_provenance =
  sp_source :: ustring
  sp_source_alert_id :: "ustring option"

record entity =
  en_kind :: ustring
  en_value :: ustring

record evidence_reference =
  er_reference :: ustring
  er_kind :: "ustring option"

record canonical_alert =
  al_detection :: detection_identity
  al_detected_at :: datetime
  al_source :: source_provenance
  al_entities :: "entity list"
  al_severity :: severity
  al_evidence :: "evidence_reference list"

definition mk_detection_identity :: "ustring \<Rightarrow> ustring option \<Rightarrow> exn + detection_identity" where
  "mk_detection_identity identifier name =
     and_then (require_non_empty identifier) (\<lambda>_.
     and_then (require_optional_non_empty name) (\<lambda>_.
     Inr \<lparr>di_identifier = identifier, di_name = name\<rparr>))"

definition mk_source_provenance :: "ustring \<Rightarrow> ustring option \<Rightarrow> exn + source_provenance" where
  "mk_source_provenance source source_alert_id =
     and_then (require_non_empty source) (\<lambda>_.
     and_then (require_optional_non_empty source_alert_id) (\<lambda>_.
     Inr \<lparr>sp_source = source, sp_source_alert_id = source_alert_id\<rparr>))"

definition mk_entity :: "ustring \<Rightarrow> ustring \<Rightarrow> exn + entity" where
  "mk_entity kind v =
     and_then (require_non_empty kind) (\<lambda>_.
     and_then (require_non_empty v) (\<lambda>_.
     Inr \<lparr>en_kind = kind, en_value = v\<rparr>))"

definition mk_evidence_reference :: "ustring \<Rightarrow> ustring option \<Rightarrow> exn + evidence_reference" where
  "mk_evidence_reference reference kind =
     and_then (require_non_empty reference) (\<lambda>_.
     and_then (require_optional_non_empty kind) (\<lambda>_.
     Inr \<lparr>er_reference = reference, er_kind = kind\<rparr>))"

definition mk_canonical_alert ::
  "detection_identity \<Rightarrow> datetime \<Rightarrow> source_provenance \<Rightarrow> entity list \<Rightarrow> severity \<Rightarrow>
   evidence_reference list \<Rightarrow> exn + canonical_alert"
where
  "mk_canonical_alert detection detected_at source entities sev evidence =
     (if \<not> aware detected_at then Inl ValueError
      else Inr \<lparr>al_detection = detection, al_detected_at = detected_at, al_source = source,
                al_entities = entities, al_severity = sev, al_evidence = evidence\<rparr>)"

text \<open>What the constructors guarantee of every value of these classes.\<close>

definition detection_ok :: "detection_identity \<Rightarrow> bool" where
  "detection_ok d \<longleftrightarrow> nonblank (di_identifier d) \<and> opt_nonblank (di_name d)"

definition source_ok :: "source_provenance \<Rightarrow> bool" where
  "source_ok s \<longleftrightarrow> nonblank (sp_source s) \<and> opt_nonblank (sp_source_alert_id s)"

definition entity_ok :: "entity \<Rightarrow> bool" where
  "entity_ok e \<longleftrightarrow> nonblank (en_kind e) \<and> nonblank (en_value e)"

definition evidence_ok :: "evidence_reference \<Rightarrow> bool" where
  "evidence_ok e \<longleftrightarrow> nonblank (er_reference e) \<and> opt_nonblank (er_kind e)"

definition alert_ok :: "canonical_alert \<Rightarrow> bool" where
  "alert_ok a \<longleftrightarrow> detection_ok (al_detection a) \<and> dt_ok (al_detected_at a) \<and> aware (al_detected_at a)
     \<and> source_ok (al_source a) \<and> list_all entity_ok (al_entities a) \<and> list_all evidence_ok (al_evidence a)"

lemma mk_detection_identity_Inr:
  "mk_detection_identity i n = Inr d \<longleftrightarrow> detection_ok d \<and> d = \<lparr>di_identifier = i, di_name = n\<rparr>"
  by (auto simp: mk_detection_identity_def and_then_Inr detection_ok_def)

lemma mk_source_provenance_Inr:
  "mk_source_provenance i n = Inr d \<longleftrightarrow> source_ok d \<and> d = \<lparr>sp_source = i, sp_source_alert_id = n\<rparr>"
  by (auto simp: mk_source_provenance_def and_then_Inr source_ok_def)

lemma mk_entity_Inr: "mk_entity k v = Inr e \<longleftrightarrow> entity_ok e \<and> e = \<lparr>en_kind = k, en_value = v\<rparr>"
  by (auto simp: mk_entity_def and_then_Inr entity_ok_def)

lemma mk_evidence_reference_Inr:
  "mk_evidence_reference r k = Inr e \<longleftrightarrow> evidence_ok e \<and> e = \<lparr>er_reference = r, er_kind = k\<rparr>"
  by (auto simp: mk_evidence_reference_def and_then_Inr evidence_ok_def)

lemma mk_canonical_alert_Inr:
  "mk_canonical_alert d t s en sev ev = Inr a \<longleftrightarrow>
   aware t \<and> a = \<lparr>al_detection = d, al_detected_at = t, al_source = s,
     al_entities = en, al_severity = sev, al_evidence = ev\<rparr>"
  by (auto simp: mk_canonical_alert_def)

text \<open>\<open>==\<close> of two alerts.\<close>

definition alert_eq :: "canonical_alert \<Rightarrow> canonical_alert \<Rightarrow> bool" where
  "alert_eq a b \<longleftrightarrow> al_detection a = al_detection b \<and> dt_eq (al_detected_at a) (al_detected_at b)
     \<and> al_source a = al_source b \<and> al_entities a = al_entities b \<and> al_severity a = al_severity b
     \<and> al_evidence a = al_evidence b"

lemma alert_eq_refl [simp]: "alert_eq a a"
  by (simp add: alert_eq_def)

lemma alert_eq_sym: "alert_eq a b \<Longrightarrow> alert_eq b a"
  by (auto simp: alert_eq_def dt_eq_sym)

lemma alert_eq_trans: "alert_eq a b \<Longrightarrow> alert_eq b c \<Longrightarrow> alert_eq a c"
  by (auto simp: alert_eq_def intro: dt_eq_trans)

section \<open>Workflow (\<open>core/workflow.py\<close>)\<close>

record decision =
  de_outcome :: decision_outcome
  de_policy_id :: ustring
  de_reasons :: "ustring list"
  de_source :: source_provenance

record incident =
  in_alert :: canonical_alert
  in_decision :: decision

record investigation_request =
  ir_incident :: incident
  ir_desired_outcome :: ustring
  ir_required_capabilities :: "ustring list"
  ir_targets :: "entity list"

fun require_all_non_empty :: "ustring list \<Rightarrow> exn + unit" where
  "require_all_non_empty [] = Inr ()"
| "require_all_non_empty (s # ss) = and_then (require_non_empty s) (\<lambda>_. require_all_non_empty ss)"

lemma require_all_non_empty_Inr [simp]: "require_all_non_empty ss = Inr u \<longleftrightarrow> list_all nonblank ss"
  by (induction ss) (auto simp: and_then_Inr)

definition mk_decision ::
  "decision_outcome \<Rightarrow> ustring \<Rightarrow> ustring list \<Rightarrow> source_provenance \<Rightarrow> exn + decision"
where
  "mk_decision outcome policy_id reasons source =
     and_then (require_non_empty policy_id) (\<lambda>_.
     if reasons = [] then Inl ValueError
     else and_then (require_all_non_empty reasons) (\<lambda>_.
     Inr \<lparr>de_outcome = outcome, de_policy_id = policy_id, de_reasons = reasons, de_source = source\<rparr>))"

definition mk_incident :: "canonical_alert \<Rightarrow> decision \<Rightarrow> exn + incident" where
  "mk_incident al d =
     (if de_outcome d \<noteq> INVESTIGATE then Inl ValueError
      else if de_source d \<noteq> al_source al then Inl ValueError
      else Inr \<lparr>in_alert = al, in_decision = d\<rparr>)"

definition mk_investigation_request ::
  "incident \<Rightarrow> ustring \<Rightarrow> ustring list \<Rightarrow> entity list \<Rightarrow> exn + investigation_request"
where
  "mk_investigation_request inc desired_outcome required_capabilities targets =
     and_then (require_non_empty desired_outcome) (\<lambda>_.
     if required_capabilities = [] then Inl ValueError
     else and_then (require_all_non_empty required_capabilities) (\<lambda>_.
     Inr \<lparr>ir_incident = inc, ir_desired_outcome = desired_outcome,
          ir_required_capabilities = required_capabilities, ir_targets = targets\<rparr>))"

definition decision_ok :: "decision \<Rightarrow> bool" where
  "decision_ok d \<longleftrightarrow> nonblank (de_policy_id d) \<and> de_reasons d \<noteq> [] \<and> list_all nonblank (de_reasons d)"

definition incident_ok :: "incident \<Rightarrow> bool" where
  "incident_ok i \<longleftrightarrow> de_outcome (in_decision i) = INVESTIGATE \<and> de_source (in_decision i) = al_source (in_alert i)"

definition request_ok :: "investigation_request \<Rightarrow> bool" where
  "request_ok r \<longleftrightarrow> nonblank (ir_desired_outcome r) \<and> ir_required_capabilities r \<noteq> []
     \<and> list_all nonblank (ir_required_capabilities r)"

lemma mk_decision_Inr:
  "mk_decision oc p rs s = Inr d \<longleftrightarrow>
   decision_ok d \<and> d = \<lparr>de_outcome = oc, de_policy_id = p, de_reasons = rs, de_source = s\<rparr>"
  by (auto simp: mk_decision_def and_then_Inr decision_ok_def split: if_splits)

lemma mk_incident_Inr: "mk_incident a d = Inr i \<longleftrightarrow> incident_ok i \<and> i = \<lparr>in_alert = a, in_decision = d\<rparr>"
  by (auto simp: mk_incident_def incident_ok_def)

lemma mk_investigation_request_Inr:
  "mk_investigation_request i oc cs ts = Inr r \<longleftrightarrow>
   request_ok r \<and> r = \<lparr>ir_incident = i, ir_desired_outcome = oc, ir_required_capabilities = cs, ir_targets = ts\<rparr>"
  by (auto simp: mk_investigation_request_def and_then_Inr request_ok_def split: if_splits)

definition incident_eq :: "incident \<Rightarrow> incident \<Rightarrow> bool" where
  "incident_eq i j \<longleftrightarrow> alert_eq (in_alert i) (in_alert j) \<and> in_decision i = in_decision j"

definition request_eq :: "investigation_request \<Rightarrow> investigation_request \<Rightarrow> bool" where
  "request_eq p q \<longleftrightarrow> incident_eq (ir_incident p) (ir_incident q)
     \<and> ir_desired_outcome p = ir_desired_outcome q
     \<and> ir_required_capabilities p = ir_required_capabilities q \<and> ir_targets p = ir_targets q"

lemma incident_eq_refl [simp]: "incident_eq i i"
  by (simp add: incident_eq_def)

lemma request_eq_refl [simp]: "request_eq r r"
  by (simp add: request_eq_def)

section \<open>The baseline policy\<close>

definition baseline_policy_id :: ustring where
  "baseline_policy_id = S ''baseline-severity-v1''"

fun baseline_outcome :: "severity \<Rightarrow> decision_outcome" where
  "baseline_outcome LOW = NO_ACTION"
| "baseline_outcome MEDIUM = NO_ACTION"
| "baseline_outcome HIGH = INVESTIGATE"
| "baseline_outcome CRITICAL = INVESTIGATE"

definition baseline_decide :: "canonical_alert \<Rightarrow> exn + decision" where
  "baseline_decide al =
     (let outcome = baseline_outcome (al_severity al);
          reason = (if outcome = INVESTIGATE
                    then S ''normalized severity '' @ [39] @ severity_value (al_severity al) @ [39]
                         @ S '' requires investigation''
                    else S ''normalized severity '' @ [39] @ severity_value (al_severity al) @ [39]
                         @ S '' does not require investigation'')
      in mk_decision outcome baseline_policy_id [reason] (al_source al))"

lemma baseline_decide_Inr:
  "\<exists>d. baseline_decide al = Inr d \<and> de_outcome d = baseline_outcome (al_severity al) \<and> de_source d = al_source al
     \<and> de_policy_id d = baseline_policy_id \<and> decision_ok d"
proof -
  have "nonblank baseline_policy_id"
    by (simp add: baseline_policy_id_def S_def is_space_def)
  then show ?thesis
    by (simp add: baseline_decide_def Let_def mk_decision_Inr decision_ok_def is_space_def)
qed

end
