(* ===== verification/Backends.thy ===== *)
theory Backends
  imports Domain Complex_Main
begin

text \<open>
  \<open>backends/base.py\<close>, \<open>backends/router.py\<close> and \<open>backends/mock.py\<close>: the values that backends
  exchange, the backend interface, capability routing and the deterministic mock.

  A backend is code behind an interface: a record of its name, its capabilities and its three
  operations, each a function of the time step of the call (so that it may answer differently
  every time) and of the call's arguments. Python does not check the annotated result types;
  an answer that is not a SubmittedOperation or an OperationStatus is \<open>None\<close> here, a status
  whose \<open>state\<close> is not a member of the enumeration has \<open>os_state = None\<close>.
\<close>

record submitted_operation =
  so_external_operation_id :: ustring

record operation_status =
  os_state :: "operation_state option"
  os_remote_state :: ustring

record investigation_result =
  rs_backend :: ustring
  rs_completed_capabilities :: "ustring list"
  rs_evidence :: "evidence_reference list"

definition mk_submitted_operation :: "ustring \<Rightarrow> exn + submitted_operation" where
  "mk_submitted_operation x =
     and_then (require_non_empty x) (\<lambda>_.
     if 512 < length x then Inl ValueError else Inr \<lparr>so_external_operation_id = x\<rparr>)"

definition mk_operation_status :: "operation_state option \<Rightarrow> ustring \<Rightarrow> exn + operation_status" where
  "mk_operation_status st remote =
     and_then (require_non_empty remote) (\<lambda>_.
     if 256 < length remote then Inl ValueError else Inr \<lparr>os_state = st, os_remote_state = remote\<rparr>)"

definition mk_investigation_result ::
  "ustring \<Rightarrow> ustring list \<Rightarrow> evidence_reference list \<Rightarrow> exn + investigation_result"
where
  "mk_investigation_result backend capabilities evidence =
     and_then (require_non_empty backend) (\<lambda>_.
     and_then (require_all_non_empty capabilities) (\<lambda>_.
     Inr \<lparr>rs_backend = backend, rs_completed_capabilities = capabilities, rs_evidence = evidence\<rparr>))"

definition submitted_ok :: "submitted_operation \<Rightarrow> bool" where
  "submitted_ok s \<longleftrightarrow> nonblank (so_external_operation_id s) \<and> length (so_external_operation_id s) \<le> 512"

definition status_ok :: "operation_status \<Rightarrow> bool" where
  "status_ok s \<longleftrightarrow> nonblank (os_remote_state s) \<and> length (os_remote_state s) \<le> 256"

lemma mk_submitted_operation_Inr:
  "mk_submitted_operation x = Inr s \<longleftrightarrow> submitted_ok s \<and> s = \<lparr>so_external_operation_id = x\<rparr>"
  by (auto simp: mk_submitted_operation_def and_then_Inr submitted_ok_def split: if_splits)

lemma mk_operation_status_Inr:
  "mk_operation_status st r = Inr s \<longleftrightarrow> status_ok s \<and> s = \<lparr>os_state = st, os_remote_state = r\<rparr>"
  by (auto simp: mk_operation_status_def and_then_Inr status_ok_def split: if_splits)

text \<open>A call passes \<open>timeout_seconds\<close> or leaves it to its default None.\<close>

record backend =
  bk_name :: ustring
  bk_capabilities :: "ustring set"
  bk_submit :: "nat \<Rightarrow> investigation_request \<Rightarrow> uuid \<Rightarrow> rat option \<Rightarrow> exn + submitted_operation option"
  bk_poll :: "nat \<Rightarrow> investigation_request \<Rightarrow> ustring \<Rightarrow> rat option \<Rightarrow> exn + operation_status option"
  bk_collect :: "nat \<Rightarrow> investigation_request \<Rightarrow> ustring \<Rightarrow> exn + investigation_result"

section \<open>Routing (\<open>backends/router.py\<close>)\<close>

definition supports :: "backend \<Rightarrow> investigation_request \<Rightarrow> bool" where
  "supports b r \<longleftrightarrow> set (ir_required_capabilities r) \<subseteq> bk_capabilities b"

definition router_select :: "backend list \<Rightarrow> investigation_request \<Rightarrow> exn + backend" where
  "router_select backends r =
     (let eligible = filter (\<lambda>b. supports b r) backends in
      if eligible = [] then Inl (UnsupportedCapabilitiesError (ir_required_capabilities r) None)
      else if 1 < length eligible
        then Inl (AmbiguousBackendError (ir_required_capabilities r) (map bk_name eligible) None)
      else Inr (hd eligible))"

definition router_get :: "backend list \<Rightarrow> ustring \<Rightarrow> backend option" where
  "router_get backends name =
     (let matches = filter (\<lambda>b. bk_name b = name) backends in
      if length matches = 1 then Some (hd matches) else None)"

lemma router_select_Inr: "router_select bs r = Inr b \<longleftrightarrow> filter (\<lambda>b. supports b r) bs = [b]"
  by (cases "filter (\<lambda>b. supports b r) bs" rule: remdups_adj.cases) (auto simp: router_select_def Let_def)

lemma router_get_Some: "router_get bs n = Some b \<longleftrightarrow> filter (\<lambda>b. bk_name b = n) bs = [b]"
  by (cases "filter (\<lambda>b. bk_name b = n) bs" rule: remdups_adj.cases) (auto simp: router_get_def Let_def)

lemma filter_singleton_iff:
  "filter P xs = [x] \<longleftrightarrow> (\<exists>i < length xs. xs ! i = x \<and> P x \<and> (\<forall>j < length xs. j \<noteq> i \<longrightarrow> \<not> P (xs ! j)))"
proof
  assume "filter P xs = [x]"
  then obtain us vs where xs: "xs = us @ x # vs" "P x" and us: "\<forall>u \<in> set us. \<not> P u" and vs: "filter P vs = []"
    by (auto simp: filter_eq_Cons_iff)
  have "\<forall>j < length xs. j \<noteq> length us \<longrightarrow> \<not> P (xs ! j)"
  proof (intro allI impI)
    fix j assume j: "j < length xs" "j \<noteq> length us"
    show "\<not> P (xs ! j)"
    proof (cases "j < length us")
      case True
      with us xs show ?thesis by (simp add: nth_append)
    next
      case False
      with j obtain k where k: "j = Suc (length us + k)" by (metis less_imp_Suc_add linorder_neqE_nat)
      with j xs have "k < length vs" by simp
      with vs have "\<not> P (vs ! k)" by (simp add: filter_empty_conv)
      with k xs show ?thesis by (simp add: nth_append)
    qed
  qed
  then show "\<exists>i < length xs. xs ! i = x \<and> P x \<and> (\<forall>j < length xs. j \<noteq> i \<longrightarrow> \<not> P (xs ! j))"
    using xs by (intro exI [of _ "length us"]) auto
next
  assume "\<exists>i < length xs. xs ! i = x \<and> P x \<and> (\<forall>j < length xs. j \<noteq> i \<longrightarrow> \<not> P (xs ! j))"
  then obtain i where i: "i < length xs" "xs ! i = x" "P x" and o: "\<forall>j < length xs. j \<noteq> i \<longrightarrow> \<not> P (xs ! j)"
    by blast
  have "xs = take i xs @ x # drop (Suc i) xs" using i id_take_nth_drop by metis
  moreover have "filter P (take i xs) = []"
    using o i by (auto simp: filter_empty_conv in_set_conv_nth)
  moreover have "filter P (drop (Suc i) xs) = []"
    using o i by (auto simp: filter_empty_conv in_set_conv_nth)
  ultimately show "filter P xs = [x]" using i by (metis append_Nil filter.simps(2) filter_append)
qed

section \<open>The mock backend (\<open>backends/mock.py\<close>)\<close>

definition mock_require_supported :: "ustring set \<Rightarrow> investigation_request \<Rightarrow> exn + unit" where
  "mock_require_supported capabilities r =
     (if \<not> set (ir_required_capabilities r) \<subseteq> capabilities
      then Inl (UnsupportedCapabilitiesError (ir_required_capabilities r) None) else Inr ())"

definition mock_submit :: "ustring set \<Rightarrow> investigation_request \<Rightarrow> uuid \<Rightarrow> exn + submitted_operation option" where
  "mock_submit capabilities r key =
     and_then (mock_require_supported capabilities r) (\<lambda>_.
     and_then (mk_submitted_operation (S ''mock:'' @ uuid_str key)) (\<lambda>s. Inr (Some s)))"

definition mock_poll :: "ustring set \<Rightarrow> investigation_request \<Rightarrow> ustring \<Rightarrow> exn + operation_status option" where
  "mock_poll capabilities r x =
     and_then (mock_require_supported capabilities r) (\<lambda>_.
     and_then (require_non_empty x) (\<lambda>_.
     and_then (mk_operation_status (Some SUCCEEDED) (S ''completed'')) (\<lambda>s. Inr (Some s))))"

definition mock_collect_result ::
  "ustring \<Rightarrow> ustring set \<Rightarrow> investigation_request \<Rightarrow> ustring \<Rightarrow> exn + investigation_result"
where
  "mock_collect_result name capabilities r x =
     and_then (mock_require_supported capabilities r) (\<lambda>_.
     and_then (require_non_empty x) (\<lambda>_.
     and_then (traverse (\<lambda>c. mk_evidence_reference (S ''mock:'' @ c) (Some (S ''mock-result'')))
       (ir_required_capabilities r)) (\<lambda>evidence.
     mk_investigation_result name (ir_required_capabilities r) evidence)))"

definition mk_mock_backend :: "ustring \<Rightarrow> ustring list \<Rightarrow> exn + backend" where
  "mk_mock_backend name capabilities =
     and_then (require_non_empty name) (\<lambda>_.
     and_then (require_all_non_empty capabilities) (\<lambda>_.
     Inr \<lparr>bk_name = name, bk_capabilities = set capabilities,
          bk_submit = (\<lambda>_ r key _. mock_submit (set capabilities) r key),
          bk_poll = (\<lambda>_ r x _. mock_poll (set capabilities) r x),
          bk_collect = (\<lambda>_ r x. mock_collect_result name (set capabilities) r x)\<rparr>))"

text \<open>\<open>investigate\<close>, the legacy helper outside the durable path.\<close>

definition mock_investigate :: "ustring \<Rightarrow> ustring set \<Rightarrow> investigation_request \<Rightarrow> exn + investigation_result" where
  "mock_investigate name capabilities r = mock_collect_result name capabilities r (S ''mock:legacy'')"

section \<open>What a client may rely on\<close>

text \<open>
  The lifecycle contract of a backend that answers: for a request it is able to serve, submission
  names an operation that it knows, polling that operation reports success, and the result names
  the backend. A budget, when a call has one, is positive.
\<close>

definition usable_timeout :: "rat option \<Rightarrow> bool" where
  "usable_timeout timeout \<longleftrightarrow> (case timeout of None \<Rightarrow> True | Some t \<Rightarrow> 0 < t)"

locale reliable_backend =
  fixes b :: backend
    and able :: "investigation_request \<Rightarrow> bool"
    and known :: "ustring \<Rightarrow> bool"
  assumes name_nonblank: "nonblank (bk_name b)"
    and submits: "able r \<Longrightarrow> request_ok r \<Longrightarrow> usable_timeout timeout \<Longrightarrow>
      \<exists>s. bk_submit b t r key timeout = Inr (Some s) \<and> submitted_ok s \<and> known (so_external_operation_id s)"
    and polls: "able r \<Longrightarrow> request_ok r \<Longrightarrow> known x \<Longrightarrow> usable_timeout timeout \<Longrightarrow>
      \<exists>s. bk_poll b t r x timeout = Inr (Some s) \<and> status_ok s \<and> os_state s = Some SUCCEEDED"
    and collects: "able r \<Longrightarrow> request_ok r \<Longrightarrow> known x \<Longrightarrow>
      \<exists>res. bk_collect b t r x = Inr res \<and> rs_backend res = bk_name b"
begin

lemma full_run:
  assumes "able r" "request_ok r" "usable_timeout to1" "usable_timeout to2"
  shows "\<exists>s st res. bk_submit b t1 r key to1 = Inr (Some s)
    \<and> bk_poll b t2 r (so_external_operation_id s) to2 = Inr (Some st) \<and> os_state st = Some SUCCEEDED
    \<and> bk_collect b t3 r (so_external_operation_id s) = Inr res \<and> rs_backend res = bk_name b"
  using submits [OF assms(1-3), of t1 key] polls [OF assms(1,2) _ assms(4), of _ t2] collects [OF assms(1,2), of _ t3] by blast

end

definition mock_name :: ustring where "mock_name = S ''mock''"

definition process_list :: ustring where "process_list = S ''process.list''"

text \<open>The backend that \<open>main.py\<close> configures by default.\<close>

definition default_mock_backend :: backend where
  "default_mock_backend =
     \<lparr>bk_name = mock_name, bk_capabilities = set [process_list],
      bk_submit = (\<lambda>_ r key _. mock_submit (set [process_list]) r key),
      bk_poll = (\<lambda>_ r x _. mock_poll (set [process_list]) r x),
      bk_collect = (\<lambda>_ r x. mock_collect_result mock_name (set [process_list]) r x)\<rparr>"

lemma mock_name_nonblank [simp]: "nonblank mock_name"
  by (simp add: mock_name_def S_def is_space_def)

lemma default_mock_backend_mk: "mk_mock_backend mock_name [process_list] = Inr default_mock_backend"
proof -
  have "nonblank process_list" by (simp add: process_list_def S_def is_space_def)
  then show ?thesis by (simp add: mk_mock_backend_def default_mock_backend_def and_then_Inr)
qed

lemma mock_evidence_ok:
  "list_all nonblank cs \<Longrightarrow>
   \<exists>es. traverse (\<lambda>c. mk_evidence_reference (S ''mock:'' @ c) (Some (S ''mock-result''))) cs = Inr es"
  by (induction cs) (auto simp: mk_evidence_reference_Inr evidence_ok_def S_def is_space_def and_then_Inr)

interpretation default_mock: reliable_backend default_mock_backend "supports default_mock_backend" nonblank
proof
  fix r :: investigation_request and t key and timeout :: "rat option"
  assume r: "supports default_mock_backend r" "request_ok r"
  then have req: "mock_require_supported (set [process_list]) r = Inr ()"
    by (simp add: supports_def default_mock_backend_def mock_require_supported_def)
  have sub: "mk_submitted_operation (S ''mock:'' @ uuid_str key) = Inr \<lparr>so_external_operation_id = S ''mock:'' @ uuid_str key\<rparr>"
    by (simp add: mk_submitted_operation_Inr submitted_ok_def S_def is_space_def)
  with req show "\<exists>s. bk_submit default_mock_backend t r key timeout = Inr (Some s) \<and> submitted_ok s
      \<and> nonblank (so_external_operation_id s)"
    by (simp add: default_mock_backend_def mock_submit_def sub)
       (simp add: submitted_ok_def S_def is_space_def)
  fix x :: ustring assume x: "nonblank x"
  have "mk_operation_status (Some SUCCEEDED) (S ''completed'')
    = Inr \<lparr>os_state = Some SUCCEEDED, os_remote_state = S ''completed''\<rparr>"
    by (simp add: mk_operation_status_Inr status_ok_def) (simp add: S_def is_space_def)
  with req x show "\<exists>s. bk_poll default_mock_backend t r x timeout = Inr (Some s) \<and> status_ok s \<and> os_state s = Some SUCCEEDED"
    by (auto simp: default_mock_backend_def mock_poll_def mk_operation_status_Inr and_then_Inr)
  obtain es where "traverse (\<lambda>c. mk_evidence_reference (S ''mock:'' @ c) (Some (S ''mock-result'')))
    (ir_required_capabilities r) = Inr es"
    using r mock_evidence_ok unfolding request_ok_def by blast
  with req x r show "\<exists>res. bk_collect default_mock_backend t r x = Inr res \<and> rs_backend res = bk_name default_mock_backend"
    by (auto simp: default_mock_backend_def mock_collect_result_def mk_investigation_result_def and_then_Inr request_ok_def)
qed (simp add: default_mock_backend_def)

end
