(* ===== verification/Orchestrator.thy ===== *)
theory Orchestrator
  imports Backends
begin

text \<open>
  \<open>application/orchestrator.py\<close>: the terminal result and the plan with their checks, and
  \<open>AlertOrchestrator.plan\<close>, which decides, opens an incident, builds the request and selects
  one backend without calling it. The policy and the request factory are arguments of the
  orchestrator; \<open>main.py\<close> passes the baseline policy and the process-inventory factory.
\<close>

record orchestration_result =
  or_decision :: decision
  or_incident :: "incident option"
  or_investigation_request :: "investigation_request option"
  or_investigation_result :: "investigation_result option"

record planning_result =
  pl_decision :: decision
  pl_incident :: "incident option"
  pl_investigation_request :: "investigation_request option"
  pl_backend :: "backend option"

record orchestrator =
  oc_policy :: "canonical_alert \<Rightarrow> exn + decision"
  oc_router :: "backend list"
  oc_request_factory :: "incident \<Rightarrow> exn + investigation_request"

text \<open>Python's \<open>!=\<close> between an optional and an incident.\<close>

definition opt_incident_eq :: "incident option \<Rightarrow> incident option \<Rightarrow> bool" where
  "opt_incident_eq i j \<longleftrightarrow>
     (case (i, j) of (None, None) \<Rightarrow> True | (Some a, Some b) \<Rightarrow> incident_eq a b | _ \<Rightarrow> False)"

definition mk_orchestration_result ::
  "decision \<Rightarrow> incident option \<Rightarrow> investigation_request option \<Rightarrow> investigation_result option \<Rightarrow>
   exn + orchestration_result"
where
  "mk_orchestration_result d i q res =
     (let made = Inr \<lparr>or_decision = d, or_incident = i, or_investigation_request = q,
                      or_investigation_result = res\<rparr>
      in case de_outcome d of
        NO_ACTION \<Rightarrow> (if i \<noteq> None \<or> q \<noteq> None \<or> res \<noteq> None then Inl ValueError else made)
      | INVESTIGATE \<Rightarrow>
         (if i = None \<or> q = None \<or> res = None then Inl ValueError
          else if (case i of Some x \<Rightarrow> in_decision x \<noteq> d | None \<Rightarrow> False) then Inl ValueError
          else if (case q of Some y \<Rightarrow> \<not> opt_incident_eq (Some (ir_incident y)) i | None \<Rightarrow> False)
            then Inl ValueError
          else made))"

definition mk_planning_result ::
  "decision \<Rightarrow> incident option \<Rightarrow> investigation_request option \<Rightarrow> backend option \<Rightarrow> exn + planning_result"
where
  "mk_planning_result d i q b =
     (let made = Inr \<lparr>pl_decision = d, pl_incident = i, pl_investigation_request = q, pl_backend = b\<rparr>
      in case de_outcome d of
        NO_ACTION \<Rightarrow> (if i \<noteq> None \<or> q \<noteq> None \<or> \<not> Option.is_none b then Inl ValueError else made)
      | INVESTIGATE \<Rightarrow>
         (if i = None \<or> q = None \<or> Option.is_none b then Inl ValueError
          else if (case i of Some x \<Rightarrow> in_decision x \<noteq> d | None \<Rightarrow> False) then Inl ValueError
          else if (case q of Some y \<Rightarrow> \<not> opt_incident_eq (Some (ir_incident y)) i | None \<Rightarrow> False)
            then Inl ValueError
          else made))"

definition result_ok :: "orchestration_result \<Rightarrow> bool" where
  "result_ok x \<longleftrightarrow>
     (case de_outcome (or_decision x) of
        NO_ACTION \<Rightarrow> or_incident x = None \<and> or_investigation_request x = None \<and> or_investigation_result x = None
      | INVESTIGATE \<Rightarrow>
         (\<exists>i q res. or_incident x = Some i \<and> or_investigation_request x = Some q
            \<and> or_investigation_result x = Some res \<and> in_decision i = or_decision x
            \<and> incident_eq (ir_incident q) i))"

lemma mk_orchestration_result_Inr:
  "mk_orchestration_result d i q res = Inr x \<longleftrightarrow>
   result_ok x \<and> x = \<lparr>or_decision = d, or_incident = i, or_investigation_request = q, or_investigation_result = res\<rparr>"
  by (cases "de_outcome d"; cases i; cases q; cases res)
     (auto simp: mk_orchestration_result_def result_ok_def opt_incident_eq_def Let_def)

definition plan :: "orchestrator \<Rightarrow> canonical_alert \<Rightarrow> exn + planning_result" where
  "plan orch al =
     and_then (oc_policy orch al) (\<lambda>d.
     if de_source d \<noteq> al_source al then Inl ValueError
     else case de_outcome d of
       NO_ACTION \<Rightarrow> mk_planning_result d None None None
     | INVESTIGATE \<Rightarrow>
         and_then (mk_incident al d) (\<lambda>inc.
         and_then (oc_request_factory orch inc) (\<lambda>request.
         if \<not> incident_eq (ir_incident request) inc then Inl ValueError
         else and_then (router_select (oc_router orch) request) (\<lambda>b.
         mk_planning_result d (Some inc) (Some request) (Some b)))))"

definition backend_for_name :: "orchestrator \<Rightarrow> ustring \<Rightarrow> backend option" where
  "backend_for_name orch name = router_get (oc_router orch) name"

text \<open>The request factory of \<open>main.py\<close>.\<close>

definition make_process_inventory_request :: "incident \<Rightarrow> exn + investigation_request" where
  "make_process_inventory_request inc =
     mk_investigation_request inc (S ''collect process inventory'') [process_list] (al_entities (in_alert inc))"

text \<open>The orchestrator of \<open>main.py\<close> with its default setting.\<close>

definition default_orchestrator :: orchestrator where
  "default_orchestrator =
     \<lparr>oc_policy = baseline_decide, oc_router = [default_mock_backend],
      oc_request_factory = make_process_inventory_request\<rparr>"

section \<open>What a plan is\<close>

lemma plan_no_action:
  "oc_policy orch al = Inr d \<Longrightarrow> de_source d = al_source al \<Longrightarrow> de_outcome d = NO_ACTION \<Longrightarrow>
   plan orch al = Inr \<lparr>pl_decision = d, pl_incident = None, pl_investigation_request = None, pl_backend = None\<rparr>"
  by (simp add: plan_def mk_planning_result_def)

lemma plan_investigate:
  assumes "oc_policy orch al = Inr d" "de_source d = al_source al" "de_outcome d = INVESTIGATE"
    and "oc_request_factory orch \<lparr>in_alert = al, in_decision = d\<rparr> = Inr q"
    and "incident_eq (ir_incident q) \<lparr>in_alert = al, in_decision = d\<rparr>"
    and "router_select (oc_router orch) q = Inr b"
  shows "plan orch al = Inr \<lparr>pl_decision = d, pl_incident = Some \<lparr>in_alert = al, in_decision = d\<rparr>,
    pl_investigation_request = Some q, pl_backend = Some b\<rparr>"
  using assms by (simp add: plan_def mk_incident_def mk_planning_result_def opt_incident_eq_def)

lemma plan_Inr_cases:
  assumes "plan orch al = Inr p"
  obtains (no_action) "de_outcome (pl_decision p) = NO_ACTION" "pl_incident p = None"
      "pl_investigation_request p = None" "pl_backend p = None" "de_source (pl_decision p) = al_source al"
  | (investigate) inc q b where "de_outcome (pl_decision p) = INVESTIGATE" "pl_incident p = Some inc"
      "pl_investigation_request p = Some q" "pl_backend p = Some b"
      "inc = \<lparr>in_alert = al, in_decision = pl_decision p\<rparr>" "incident_eq (ir_incident q) inc"
      "de_source (pl_decision p) = al_source al"
      "oc_request_factory orch inc = Inr q"
      "router_select (oc_router orch) q = Inr b"
proof -
  from assms obtain d where d: "oc_policy orch al = Inr d" "de_source d = al_source al"
    by (auto simp: plan_def and_then_Inr split: if_splits)
  show ?thesis
  proof (cases "de_outcome d")
    case NO_ACTION
    with plan_no_action [of orch al d] d assms show ?thesis by (intro no_action) auto
  next
    case INVESTIGATE
    define inc where "inc = \<lparr>in_alert = al, in_decision = d\<rparr>"
    from INVESTIGATE d assms obtain q where q: "oc_request_factory orch inc = Inr q"
      by (auto simp: plan_def and_then_Inr mk_incident_def inc_def)
    from INVESTIGATE d assms q have e: "incident_eq (ir_incident q) inc"
      by (auto simp: plan_def mk_incident_def inc_def split: if_splits)
    from INVESTIGATE d assms q e obtain b where b: "router_select (oc_router orch) q = Inr b"
      by (auto simp: plan_def and_then_Inr mk_incident_def inc_def)
    from plan_investigate [OF d INVESTIGATE q [unfolded inc_def] e [unfolded inc_def] b] assms
    have p: "p = \<lparr>pl_decision = d, pl_incident = Some inc, pl_investigation_request = Some q, pl_backend = Some b\<rparr>"
      by (simp add: inc_def)
    show ?thesis
      by (rule investigate [of inc q b]) (use p d q e b INVESTIGATE in \<open>simp_all add: inc_def\<close>)
  qed
qed

end
