(* ===== verification/Lifecycle.thy ===== *)
theory Lifecycle
  imports Orchestrator
begin

text \<open>
  \<open>application/persistence.py\<close>: the lifecycle states and the table of allowed transitions,
  the durable records with the checks of their \<open>__post_init__\<close>, and the repository interface
  as a record of operations on a store \<open>'s\<close>. Every operation takes the reading \<open>now\<close> of the
  repository's clock and gives back the store it leaves, on an exception too.

  The laws that the application relies on are the assumptions of the locale
  \<open>processing_repository\<close>; \<open>MemoryRepo\<close> interprets it.
\<close>

section \<open>States and transitions\<close>

definition terminal_processing_states :: "processing_state set" where
  "terminal_processing_states = {COMPLETED, FAILED}"

definition active_attempt_states :: "attempt_state set" where
  "active_attempt_states = {A_PLANNED, A_SUBMITTING, A_SUBMITTED, A_RECOVERY_REQUIRED}"

fun allowed_processing_transitions :: "processing_state \<Rightarrow> processing_state set" where
  "allowed_processing_transitions ACCEPTED = {PLANNED, COMPLETED, FAILED}"
| "allowed_processing_transitions PLANNED = {SUBMITTING, FAILED}"
| "allowed_processing_transitions SUBMITTING = {SUBMITTED, FAILED, RECOVERY_REQUIRED}"
| "allowed_processing_transitions SUBMITTED = {SUBMITTED, COMPLETED, FAILED, RECOVERY_REQUIRED}"
| "allowed_processing_transitions COMPLETED = {}"
| "allowed_processing_transitions FAILED = {}"
| "allowed_processing_transitions RECOVERY_REQUIRED = {SUBMITTED, FAILED}"

definition processing_transition_allowed :: "processing_state \<Rightarrow> processing_state \<Rightarrow> bool" where
  "processing_transition_allowed from_state to_state \<longleftrightarrow> to_state \<in> allowed_processing_transitions from_state"

lemma allowed_from_terminal [simp]:
  "\<not> processing_transition_allowed COMPLETED st" "\<not> processing_transition_allowed FAILED st"
  by (simp_all add: processing_transition_allowed_def)

section \<open>Durable records\<close>

record processing_record =
  pr_processing_id :: uuid
  pr_created_at :: datetime
  pr_updated_at :: datetime
  pr_alert :: canonical_alert
  pr_state :: processing_state
  pr_idempotency_scope :: "ustring option"
  pr_idempotency_key :: "ustring option"
  pr_fingerprint_version :: "int option"
  pr_request_fingerprint :: "bytes option"
  pr_planned_decision :: "decision option"
  pr_planned_incident :: "incident option"
  pr_planned_request :: "investigation_request option"
  pr_selected_backend :: "ustring option"
  pr_completed_result :: "orchestration_result option"
  pr_completed_at :: "datetime option"
  pr_failed_at :: "datetime option"
  pr_error_category :: "ustring option"
  pr_error_detail :: "ustring option"

record execution_attempt =
  at_attempt_id :: uuid
  at_processing_id :: uuid
  at_attempt_number :: int
  at_operation_key :: uuid
  at_backend :: ustring
  at_state :: attempt_state
  at_created_at :: datetime
  at_started_at :: "datetime option"
  at_submitted_at :: "datetime option"
  at_last_polled_at :: "datetime option"
  at_completed_at :: "datetime option"
  at_failed_at :: "datetime option"
  at_external_operation_id :: "ustring option"
  at_last_remote_state :: "ustring option"
  at_error_category :: "ustring option"
  at_error_detail :: "ustring option"

text \<open>\<open>_require_aware\<close> and \<open>_require_bounded_error\<close>.\<close>

definition aware_opt :: "datetime option \<Rightarrow> bool" where
  "aware_opt d \<longleftrightarrow> (case d of None \<Rightarrow> True | Some t \<Rightarrow> aware t)"

definition bounded_error :: "ustring option \<Rightarrow> bool" where
  "bounded_error s \<longleftrightarrow> (case s of None \<Rightarrow> True | Some t \<Rightarrow> t \<noteq> [] \<and> length t \<le> 256)"

lemma aware_opt_simps [simp]: "aware_opt None" "aware_opt (Some t) = aware t"
  by (simp_all add: aware_opt_def)

lemma bounded_error_simps [simp]:
  "bounded_error None" "bounded_error (Some t) \<longleftrightarrow> t \<noteq> [] \<and> length t \<le> 256"
  by (simp_all add: bounded_error_def)

text \<open>\<open>ProcessingRecord.__post_init__\<close>; every check that fails raises ValueError.\<close>

definition record_common :: "processing_record \<Rightarrow> bool" where
  "record_common r \<longleftrightarrow>
     aware (pr_created_at r) \<and> aware (pr_updated_at r) \<and> aware_opt (pr_completed_at r) \<and> aware_opt (pr_failed_at r)
     \<and> \<not> dt_less (pr_updated_at r) (pr_created_at r)
     \<and> (pr_idempotency_scope r = None \<longleftrightarrow> pr_idempotency_key r = None)
     \<and> (pr_fingerprint_version r = None \<longleftrightarrow> pr_request_fingerprint r = None)
     \<and> (if pr_idempotency_key r = None then pr_request_fingerprint r = None else pr_request_fingerprint r \<noteq> None)
     \<and> (case pr_request_fingerprint r of None \<Rightarrow> True | Some d \<Rightarrow> length d = 32)
     \<and> (case pr_fingerprint_version r of None \<Rightarrow> True | Some v \<Rightarrow> v = 1)
     \<and> bounded_error (pr_error_category r) \<and> bounded_error (pr_error_detail r)
     \<and> (pr_error_category r = None \<longleftrightarrow> pr_error_detail r = None)"

definition no_plan :: "processing_record \<Rightarrow> bool" where
  "no_plan r \<longleftrightarrow> pr_planned_decision r = None \<and> pr_planned_incident r = None
     \<and> pr_planned_request r = None \<and> pr_selected_backend r = None"

definition full_plan :: "processing_record \<Rightarrow> bool" where
  "full_plan r \<longleftrightarrow> pr_planned_decision r \<noteq> None \<and> pr_planned_incident r \<noteq> None
     \<and> pr_planned_request r \<noteq> None \<and> pr_selected_backend r \<noteq> None"

definition record_state_check :: "processing_record \<Rightarrow> bool" where
  "record_state_check r \<longleftrightarrow>
     (case pr_state r of
        ACCEPTED \<Rightarrow> no_plan r \<and> pr_completed_result r = None
      | COMPLETED \<Rightarrow> pr_completed_result r \<noteq> None \<and> pr_completed_at r \<noteq> None \<and> pr_failed_at r = None
      | FAILED \<Rightarrow> pr_failed_at r \<noteq> None \<and> pr_error_category r \<noteq> None
          \<and> pr_completed_result r = None \<and> pr_completed_at r = None
      | _ \<Rightarrow> full_plan r \<and> pr_completed_result r = None)"

definition record_graph_check :: "processing_record \<Rightarrow> bool" where
  "record_graph_check r \<longleftrightarrow>
     (case pr_planned_decision r of None \<Rightarrow> True
      | Some d \<Rightarrow> de_source d = al_source (pr_alert r)
          \<and> (case pr_planned_incident r of None \<Rightarrow> True | Some i \<Rightarrow> alert_eq (in_alert i) (pr_alert r)))
     \<and> (case pr_completed_result r of None \<Rightarrow> True
      | Some x \<Rightarrow> de_source (or_decision x) = al_source (pr_alert r)
          \<and> (case or_incident x of None \<Rightarrow> True | Some i \<Rightarrow> alert_eq (in_alert i) (pr_alert r)))"

definition record_valid :: "processing_record \<Rightarrow> bool" where
  "record_valid r \<longleftrightarrow> record_common r \<and> record_state_check r \<and> record_graph_check r"

definition mk_record :: "processing_record \<Rightarrow> exn + processing_record" where
  "mk_record r = (if record_valid r then Inr r else Inl ValueError)"

lemma mk_record_Inr [simp]: "mk_record r = Inr x \<longleftrightarrow> record_valid r \<and> x = r"
  by (auto simp: mk_record_def)

text \<open>The properties \<open>decision\<close>, \<open>incident\<close> and \<open>investigation_request\<close>.\<close>

definition pr_decision :: "processing_record \<Rightarrow> decision option" where
  "pr_decision r = (case pr_completed_result r of Some x \<Rightarrow> Some (or_decision x) | None \<Rightarrow> pr_planned_decision r)"

definition pr_incident :: "processing_record \<Rightarrow> incident option" where
  "pr_incident r = (case pr_completed_result r of Some x \<Rightarrow> or_incident x | None \<Rightarrow> pr_planned_incident r)"

definition pr_investigation_request :: "processing_record \<Rightarrow> investigation_request option" where
  "pr_investigation_request r =
     (case pr_completed_result r of Some x \<Rightarrow> or_investigation_request x | None \<Rightarrow> pr_planned_request r)"

text \<open>\<open>ExecutionAttempt.__post_init__\<close>.\<close>

definition attempt_state_check :: "execution_attempt \<Rightarrow> bool" where
  "attempt_state_check a \<longleftrightarrow>
     (case at_state a of
        A_PLANNED \<Rightarrow> at_started_at a = None \<and> at_submitted_at a = None \<and> at_external_operation_id a = None
          \<and> at_completed_at a = None \<and> at_failed_at a = None
      | A_SUBMITTING \<Rightarrow> at_started_at a \<noteq> None \<and> at_external_operation_id a = None
      | A_SUBMITTED \<Rightarrow> at_started_at a \<noteq> None \<and> at_submitted_at a \<noteq> None \<and> at_external_operation_id a \<noteq> None
          \<and> at_completed_at a = None \<and> at_failed_at a = None
      | A_COMPLETED \<Rightarrow> at_started_at a \<noteq> None \<and> at_submitted_at a \<noteq> None \<and> at_external_operation_id a \<noteq> None
          \<and> at_completed_at a \<noteq> None \<and> at_failed_at a = None
      | A_FAILED \<Rightarrow> at_failed_at a \<noteq> None \<and> at_error_category a \<noteq> None \<and> at_completed_at a = None
      | A_RECOVERY_REQUIRED \<Rightarrow> at_started_at a \<noteq> None \<and> at_error_category a \<noteq> None
          \<and> at_completed_at a = None \<and> at_failed_at a = None)"

definition attempt_valid :: "execution_attempt \<Rightarrow> bool" where
  "attempt_valid a \<longleftrightarrow>
     1 \<le> at_attempt_number a \<and> nonblank (at_backend a)
     \<and> aware (at_created_at a) \<and> aware_opt (at_started_at a) \<and> aware_opt (at_submitted_at a)
     \<and> aware_opt (at_last_polled_at a) \<and> aware_opt (at_completed_at a) \<and> aware_opt (at_failed_at a)
     \<and> bounded_error (at_last_remote_state a) \<and> bounded_error (at_error_category a)
     \<and> bounded_error (at_error_detail a)
     \<and> (at_error_category a = None \<longleftrightarrow> at_error_detail a = None)
     \<and> (case at_external_operation_id a of None \<Rightarrow> True | Some x \<Rightarrow> nonblank x \<and> length x \<le> 512)
     \<and> attempt_state_check a"

definition mk_attempt :: "execution_attempt \<Rightarrow> exn + execution_attempt" where
  "mk_attempt a = (if attempt_valid a then Inr a else Inl ValueError)"

lemma mk_attempt_Inr [simp]: "mk_attempt a = Inr x \<longleftrightarrow> attempt_valid a \<and> x = a"
  by (auto simp: mk_attempt_def)

record processing_acceptance =
  pa_record :: processing_record
  pa_created :: bool

record planned_processing =
  pp_record :: processing_record
  pp_attempt :: execution_attempt

section \<open>The repository interface\<close>

type_synonym ('s, 'a) op = "datetime \<Rightarrow> ('s, exn, 'a) prog"

record 's repository =
  rp_check_readiness :: "('s, unit) op"
  rp_accept_processing :: "uuid \<Rightarrow> canonical_alert \<Rightarrow> ustring \<Rightarrow> ustring \<Rightarrow> int \<Rightarrow> bytes \<Rightarrow> ('s, processing_acceptance) op"
  rp_get :: "uuid \<Rightarrow> ('s, processing_record option) op"
  rp_get_by_idempotency :: "ustring \<Rightarrow> ustring \<Rightarrow> ('s, processing_record option) op"
  rp_store_no_action_result :: "uuid \<Rightarrow> orchestration_result \<Rightarrow> ('s, processing_record option) op"
  rp_store_plan :: "uuid \<Rightarrow> decision \<Rightarrow> incident \<Rightarrow> investigation_request \<Rightarrow> ustring \<Rightarrow> uuid \<Rightarrow> uuid \<Rightarrow>
    ('s, planned_processing option) op"
  rp_get_attempt :: "uuid \<Rightarrow> ('s, execution_attempt option) op"
  rp_get_attempt_for_processing :: "uuid \<Rightarrow> ('s, execution_attempt option) op"
  rp_claim_attempt_for_submission :: "uuid \<Rightarrow> ('s, execution_attempt option) op"
  rp_mark_attempt_submitted :: "uuid \<Rightarrow> ustring \<Rightarrow> ('s, execution_attempt option) op"
  rp_record_poll :: "uuid \<Rightarrow> ustring \<Rightarrow> ustring option \<Rightarrow> ustring option \<Rightarrow> ('s, execution_attempt option) op"
  rp_complete_processing :: "uuid \<Rightarrow> orchestration_result \<Rightarrow> ('s, processing_record option) op"
  rp_fail_processing :: "uuid \<Rightarrow> processing_state set \<Rightarrow> ustring \<Rightarrow> ustring \<Rightarrow> uuid option \<Rightarrow>
    ('s, processing_record option) op"
  rp_mark_recovery_required :: "uuid \<Rightarrow> attempt_state set \<Rightarrow> ustring \<Rightarrow> ustring \<Rightarrow>
    ('s, processing_record option) op"
  rp_find_reconcilable :: "int \<Rightarrow> datetime \<Rightarrow> ('s, processing_record list) op"

text \<open>One call of an operation that may change the store, as a value: what other threads and
  processes do between two calls of a processor is a list of these.\<close>

datatype repo_op =
    Op_accept uuid canonical_alert ustring ustring int bytes
  | Op_no_action uuid orchestration_result
  | Op_plan uuid decision incident investigation_request ustring uuid uuid
  | Op_claim uuid
  | Op_submitted uuid ustring
  | Op_poll uuid ustring "ustring option" "ustring option"
  | Op_complete uuid orchestration_result
  | Op_fail uuid "processing_state set" ustring ustring "uuid option"
  | Op_recovery uuid "attempt_state set" ustring ustring

fun exec_op :: "'s repository \<Rightarrow> repo_op \<Rightarrow> datetime \<Rightarrow> 's \<Rightarrow> 's" where
  "exec_op R (Op_accept p al sc k v d) now s = snd (rp_accept_processing R p al sc k v d now s)"
| "exec_op R (Op_no_action p res) now s = snd (rp_store_no_action_result R p res now s)"
| "exec_op R (Op_plan p d i q b a k) now s = snd (rp_store_plan R p d i q b a k now s)"
| "exec_op R (Op_claim a) now s = snd (rp_claim_attempt_for_submission R a now s)"
| "exec_op R (Op_submitted a x) now s = snd (rp_mark_attempt_submitted R a x now s)"
| "exec_op R (Op_poll a st c d) now s = snd (rp_record_poll R a st c d now s)"
| "exec_op R (Op_complete a res) now s = snd (rp_complete_processing R a res now s)"
| "exec_op R (Op_fail p es c d a) now s = snd (rp_fail_processing R p es c d a now s)"
| "exec_op R (Op_recovery a es c d) now s = snd (rp_mark_recovery_required R a es c d now s)"

text \<open>The way the application calls the two operations with expected states: a failure is only
  recorded over a nonterminal state, and without an attempt only over ACCEPTED.\<close>

fun op_safe :: "repo_op \<Rightarrow> bool" where
  "op_safe (Op_fail p es c d a) \<longleftrightarrow>
     COMPLETED \<notin> es \<and> FAILED \<notin> es \<and> (case a of None \<Rightarrow> es \<subseteq> {ACCEPTED} | Some _ \<Rightarrow> ACCEPTED \<notin> es)"
| "op_safe _ \<longleftrightarrow> True"

text \<open>
  \<open>att_state\<close> and \<open>rec_state\<close> read the durable states of a store, \<open>ok\<close> is its consistency.
\<close>

locale processing_repository =
  fixes R :: "'s repository"
    and ok :: "'s \<Rightarrow> bool"
    and att_state :: "'s \<Rightarrow> uuid \<Rightarrow> attempt_state option"
    and rec_state :: "'s \<Rightarrow> uuid \<Rightarrow> processing_state option"
  assumes ok_exec: "ok s \<Longrightarrow> ok (exec_op R c now s)"
    and attempt_leaves_planned: "ok s \<Longrightarrow> att_state s a = Some st \<Longrightarrow> st \<noteq> A_PLANNED \<Longrightarrow>
      \<exists>st'. att_state (exec_op R c now s) a = Some st' \<and> st' \<noteq> A_PLANNED"
    and transitions: "ok s \<Longrightarrow> op_safe c \<Longrightarrow> rec_state s p = Some ps \<Longrightarrow>
      \<exists>ps'. rec_state (exec_op R c now s) p = Some ps' \<and> (ps' = ps \<or> processing_transition_allowed ps ps')"
    and claim_success: "ok s \<Longrightarrow> rp_claim_attempt_for_submission R a now s = (Inr (Some x), s') \<Longrightarrow>
      att_state s a = Some A_PLANNED \<and> att_state s' a = Some A_SUBMITTING \<and> at_attempt_id x = a
      \<and> rec_state s' (at_processing_id x) = Some SUBMITTING"
    and accept_replay: "ok s \<Longrightarrow> rp_accept_processing R p al sc k v d now s = (Inr acc, s') \<Longrightarrow>
      \<not> pa_created acc \<Longrightarrow> s' = s"
    and reads: "snd (rp_get R p now s) = s" "snd (rp_get_by_idempotency R sc k now s) = s"
      "snd (rp_get_attempt R a now s) = s" "snd (rp_get_attempt_for_processing R p now s) = s"
      "snd (rp_find_reconcilable R n before now s) = s" "snd (rp_check_readiness R now s) = s"
    and found: "ok s \<Longrightarrow> rp_find_reconcilable R n before now s = (Inr rs, s') \<Longrightarrow>
      int (length rs) \<le> n \<and> (\<forall>r \<in> set rs. rec_state s (pr_processing_id r) = Some (pr_state r)
        \<and> pr_state r \<in> {ACCEPTED, PLANNED, SUBMITTING, SUBMITTED})"
begin

text \<open>Runs of operations: the laws hold along any interleaving.\<close>

fun run :: "(repo_op \<times> datetime) list \<Rightarrow> 's \<Rightarrow> 's" where
  "run [] s = s"
| "run ((c, now) # cs) s = run cs (exec_op R c now s)"

lemma run_append: "run (cs @ ds) s = run ds (run cs s)"
  by (induction cs s rule: run.induct) simp_all

lemma ok_run: "ok s \<Longrightarrow> ok (run cs s)"
  by (induction cs s rule: run.induct) (auto simp: ok_exec)

lemma run_leaves_planned:
  "ok s \<Longrightarrow> att_state s a = Some st \<Longrightarrow> st \<noteq> A_PLANNED \<Longrightarrow>
   \<exists>st'. att_state (run cs s) a = Some st' \<and> st' \<noteq> A_PLANNED"
proof (induction cs s arbitrary: st rule: run.induct)
  case (2 c now cs s)
  from attempt_leaves_planned [OF 2(2-4)] obtain st' where
    "att_state (exec_op R c now s) a = Some st'" "st' \<noteq> A_PLANNED" by blast
  from 2(1) [OF ok_exec [OF 2(2)] this] show ?case by simp
qed auto

text \<open>An attempt is claimed at most once, whatever runs in between.\<close>

lemma claim_once:
  assumes "ok s" "rp_claim_attempt_for_submission R a now s = (Inr (Some x), s')"
  shows "\<not> (\<exists>y s''. rp_claim_attempt_for_submission R a now' (run cs s') = (Inr (Some y), s''))"
proof
  assume "\<exists>y s''. rp_claim_attempt_for_submission R a now' (run cs s') = (Inr (Some y), s'')"
  then obtain y s'' where y: "rp_claim_attempt_for_submission R a now' (run cs s') = (Inr (Some y), s'')" by blast
  have s': "s' = exec_op R (Op_claim a) now s" using assms(2) by simp
  then have ok': "ok s'" using ok_exec [OF assms(1), of "Op_claim a" now] by simp
  have "att_state s' a = Some A_SUBMITTING" using claim_success [OF assms] by blast
  then obtain st where "att_state (run cs s') a = Some st" "st \<noteq> A_PLANNED"
    using run_leaves_planned [OF ok', of a] by blast
  with claim_success [OF ok_run [OF ok'] y] show False by simp
qed

lemma terminal_run:
  "ok s \<Longrightarrow> \<forall>c \<in> set cs. op_safe (fst c) \<Longrightarrow> rec_state s p = Some st \<Longrightarrow> st \<in> terminal_processing_states \<Longrightarrow>
   rec_state (run cs s) p = Some st"
proof (induction cs s rule: run.induct)
  case (2 c now cs s)
  from 2(3) have c: "op_safe c" by simp
  have "rec_state (exec_op R c now s) p = Some st"
    using transitions [OF 2(2) c 2(4)] 2(5) by (auto simp: terminal_processing_states_def)
  with 2(1) [OF ok_exec [OF 2(2)] _ this 2(5)] 2(3) show ?case by simp
qed auto

end

end
