(* ===== verification/Schemas.thy ===== *)
theory Schemas
  imports Lifecycle
begin

text \<open>
  \<open>api/schemas.py\<close>: the request and response models of the HTTP boundary with the validators
  that the file adds to their fields, and the translations from and to the domain. Parsing a
  JSON body into field values, and printing a model as JSON, is pydantic's; a value given to a
  constructor here has the declared type already.
\<close>

section \<open>Request models\<close>

record detection_identity_request =
  dq_identifier :: ustring
  dq_name :: "ustring option"

record source_provenance_request =
  sq_source :: ustring
  sq_source_alert_id :: "ustring option"

record entity_request =
  nq_kind :: ustring
  nq_value :: ustring

record evidence_reference_request =
  vq_reference :: ustring
  vq_kind :: "ustring option"

record canonical_alert_request =
  aq_detection :: detection_identity_request
  aq_detected_at :: datetime
  aq_source :: source_provenance_request
  aq_entities :: "entity_request list"
  aq_severity :: severity
  aq_evidence :: "evidence_reference_request list"

text \<open>\<open>_validate_non_empty\<close>; pydantic's ValidationError is a ValueError.\<close>

definition validate_non_empty :: "ustring \<Rightarrow> exn + ustring" where
  "validate_non_empty v = (if strip v = [] then Inl ValueError else Inr v)"

definition validate_optional :: "ustring option \<Rightarrow> exn + ustring option" where
  "validate_optional v = (case v of None \<Rightarrow> Inr None | Some s \<Rightarrow> and_then (validate_non_empty s) (\<lambda>t. Inr (Some t)))"

lemma validate_non_empty_Inr [simp]: "validate_non_empty v = Inr u \<longleftrightarrow> nonblank v \<and> u = v"
  by (auto simp: validate_non_empty_def nonblank_def)

lemma validate_optional_Inr [simp]: "validate_optional v = Inr u \<longleftrightarrow> opt_nonblank v \<and> u = v"
  by (auto simp: validate_optional_def and_then_Inr split: option.splits)

definition mk_detection_identity_request :: "ustring \<Rightarrow> ustring option \<Rightarrow> exn + detection_identity_request" where
  "mk_detection_identity_request identifier name =
     and_then (validate_non_empty identifier) (\<lambda>i.
     and_then (validate_optional name) (\<lambda>n. Inr \<lparr>dq_identifier = i, dq_name = n\<rparr>))"

definition mk_source_provenance_request :: "ustring \<Rightarrow> ustring option \<Rightarrow> exn + source_provenance_request" where
  "mk_source_provenance_request source source_alert_id =
     and_then (validate_non_empty source) (\<lambda>s.
     and_then (validate_optional source_alert_id) (\<lambda>i. Inr \<lparr>sq_source = s, sq_source_alert_id = i\<rparr>))"

definition mk_entity_request :: "ustring \<Rightarrow> ustring \<Rightarrow> exn + entity_request" where
  "mk_entity_request kind v =
     and_then (validate_non_empty kind) (\<lambda>k.
     and_then (validate_non_empty v) (\<lambda>x. Inr \<lparr>nq_kind = k, nq_value = x\<rparr>))"

definition mk_evidence_reference_request :: "ustring \<Rightarrow> ustring option \<Rightarrow> exn + evidence_reference_request" where
  "mk_evidence_reference_request reference kind =
     and_then (validate_non_empty reference) (\<lambda>r.
     and_then (validate_optional kind) (\<lambda>k. Inr \<lparr>vq_reference = r, vq_kind = k\<rparr>))"

definition mk_canonical_alert_request ::
  "detection_identity_request \<Rightarrow> datetime \<Rightarrow> source_provenance_request \<Rightarrow> entity_request list \<Rightarrow> severity \<Rightarrow>
   evidence_reference_request list \<Rightarrow> exn + canonical_alert_request"
where
  "mk_canonical_alert_request detection detected_at source entities sev evidence =
     (if \<not> aware detected_at then Inl ValueError
      else Inr \<lparr>aq_detection = detection, aq_detected_at = detected_at, aq_source = source,
                aq_entities = entities, aq_severity = sev, aq_evidence = evidence\<rparr>)"

section \<open>From and to the domain\<close>

definition detection_to_domain :: "detection_identity_request \<Rightarrow> exn + detection_identity" where
  "detection_to_domain q = mk_detection_identity (dq_identifier q) (dq_name q)"

definition source_to_domain :: "source_provenance_request \<Rightarrow> exn + source_provenance" where
  "source_to_domain q = mk_source_provenance (sq_source q) (sq_source_alert_id q)"

definition entity_to_domain :: "entity_request \<Rightarrow> exn + entity" where
  "entity_to_domain q = mk_entity (nq_kind q) (nq_value q)"

definition evidence_to_domain :: "evidence_reference_request \<Rightarrow> exn + evidence_reference" where
  "evidence_to_domain q = mk_evidence_reference (vq_reference q) (vq_kind q)"

definition alert_to_domain :: "canonical_alert_request \<Rightarrow> exn + canonical_alert" where
  "alert_to_domain q =
     and_then (detection_to_domain (aq_detection q)) (\<lambda>d.
     and_then (source_to_domain (aq_source q)) (\<lambda>s.
     and_then (traverse entity_to_domain (aq_entities q)) (\<lambda>es.
     and_then (traverse evidence_to_domain (aq_evidence q)) (\<lambda>vs.
     mk_canonical_alert d (aq_detected_at q) s es (aq_severity q) vs))))"

definition detection_from_domain :: "detection_identity \<Rightarrow> exn + detection_identity_request" where
  "detection_from_domain d = mk_detection_identity_request (di_identifier d) (di_name d)"

definition source_from_domain :: "source_provenance \<Rightarrow> exn + source_provenance_request" where
  "source_from_domain s = mk_source_provenance_request (sp_source s) (sp_source_alert_id s)"

definition entity_from_domain :: "entity \<Rightarrow> exn + entity_request" where
  "entity_from_domain e = mk_entity_request (en_kind e) (en_value e)"

definition evidence_from_domain :: "evidence_reference \<Rightarrow> exn + evidence_reference_request" where
  "evidence_from_domain e = mk_evidence_reference_request (er_reference e) (er_kind e)"

definition alert_from_domain :: "canonical_alert \<Rightarrow> exn + canonical_alert_request" where
  "alert_from_domain a =
     and_then (detection_from_domain (al_detection a)) (\<lambda>d.
     and_then (source_from_domain (al_source a)) (\<lambda>s.
     and_then (traverse entity_from_domain (al_entities a)) (\<lambda>es.
     and_then (traverse evidence_from_domain (al_evidence a)) (\<lambda>vs.
     mk_canonical_alert_request d (al_detected_at a) s es (al_severity a) vs))))"

section \<open>Response models\<close>

record decision_response =
  ds_outcome :: decision_outcome
  ds_policy_id :: ustring
  ds_reasons :: "ustring list"
  ds_source :: source_provenance_request

record incident_response =
  is_alert :: canonical_alert_request
  is_decision :: decision_response

record investigation_request_response =
  qs_desired_outcome :: ustring
  qs_required_capabilities :: "ustring list"
  qs_targets :: "entity_request list"

record investigation_result_response =
  vs_backend :: ustring
  vs_completed_capabilities :: "ustring list"
  vs_evidence :: "evidence_reference_request list"

record alert_processing_response =
  ps_processing_id :: uuid
  ps_state :: processing_state
  ps_status_url :: ustring
  ps_created_at :: datetime
  ps_updated_at :: datetime
  ps_completed_at :: "datetime option"
  ps_failed_at :: "datetime option"
  ps_decision :: "decision_response option"
  ps_incident :: "incident_response option"
  ps_investigation_request :: "investigation_request_response option"
  ps_investigation_result :: "investigation_result_response option"
  ps_error_category :: "ustring option"
  ps_error_detail :: "ustring option"

record api_error_response =
  ae_code :: ustring
  ae_message :: ustring
  ae_requested_capabilities :: "ustring list option"
  ae_eligible_backends :: "ustring list option"
  ae_processing_id :: "uuid option"
  ae_state :: "processing_state option"
  ae_status_url :: "ustring option"

definition decision_from_domain :: "decision \<Rightarrow> exn + decision_response" where
  "decision_from_domain d =
     and_then (source_from_domain (de_source d)) (\<lambda>s.
     Inr \<lparr>ds_outcome = de_outcome d, ds_policy_id = de_policy_id d, ds_reasons = de_reasons d, ds_source = s\<rparr>)"

definition incident_from_domain :: "incident \<Rightarrow> exn + incident_response" where
  "incident_from_domain i =
     and_then (alert_from_domain (in_alert i)) (\<lambda>a.
     and_then (decision_from_domain (in_decision i)) (\<lambda>d. Inr \<lparr>is_alert = a, is_decision = d\<rparr>))"

definition request_from_domain :: "investigation_request \<Rightarrow> exn + investigation_request_response" where
  "request_from_domain r =
     and_then (traverse entity_from_domain (ir_targets r)) (\<lambda>ts.
     Inr \<lparr>qs_desired_outcome = ir_desired_outcome r, qs_required_capabilities = ir_required_capabilities r,
          qs_targets = ts\<rparr>)"

definition result_from_domain :: "investigation_result \<Rightarrow> exn + investigation_result_response" where
  "result_from_domain r =
     and_then (traverse evidence_from_domain (rs_evidence r)) (\<lambda>vs.
     Inr \<lparr>vs_backend = rs_backend r, vs_completed_capabilities = rs_completed_capabilities r, vs_evidence = vs\<rparr>)"

text \<open>A part of the record that may be absent.\<close>

definition opt_from :: "('a \<Rightarrow> exn + 'b) \<Rightarrow> 'a option \<Rightarrow> exn + 'b option" where
  "opt_from f v = (case v of None \<Rightarrow> Inr None | Some x \<Rightarrow> and_then (f x) (\<lambda>y. Inr (Some y)))"

definition status_url :: "uuid \<Rightarrow> ustring" where
  "status_url p = S ''/v1/processings/'' @ uuid_str p"

definition from_application :: "processing_record \<Rightarrow> exn + alert_processing_response" where
  "from_application r =
     (let investigation_result = (case pr_completed_result r of None \<Rightarrow> None | Some x \<Rightarrow> or_investigation_result x) in
      and_then (opt_from decision_from_domain (pr_decision r)) (\<lambda>d.
      and_then (opt_from incident_from_domain (pr_incident r)) (\<lambda>i.
      and_then (opt_from request_from_domain (pr_investigation_request r)) (\<lambda>q.
      and_then (opt_from result_from_domain investigation_result) (\<lambda>v.
      Inr \<lparr>ps_processing_id = pr_processing_id r, ps_state = pr_state r, ps_status_url = status_url (pr_processing_id r),
           ps_created_at = pr_created_at r, ps_updated_at = pr_updated_at r, ps_completed_at = pr_completed_at r,
           ps_failed_at = pr_failed_at r, ps_decision = d, ps_incident = i, ps_investigation_request = q,
           ps_investigation_result = v, ps_error_category = pr_error_category r,
           ps_error_detail = pr_error_detail r\<rparr>)))))"

section \<open>Round trips\<close>

lemma detection_from_domain_Inr:
  "detection_from_domain d = Inr q \<longleftrightarrow> detection_ok d \<and> q = \<lparr>dq_identifier = di_identifier d, dq_name = di_name d\<rparr>"
  by (auto simp: detection_from_domain_def mk_detection_identity_request_def and_then_Inr detection_ok_def)

lemma source_from_domain_Inr:
  "source_from_domain s = Inr q \<longleftrightarrow> source_ok s \<and> q = \<lparr>sq_source = sp_source s, sq_source_alert_id = sp_source_alert_id s\<rparr>"
  by (auto simp: source_from_domain_def mk_source_provenance_request_def and_then_Inr source_ok_def)

lemma entity_from_domain_Inr:
  "entity_from_domain e = Inr q \<longleftrightarrow> entity_ok e \<and> q = \<lparr>nq_kind = en_kind e, nq_value = en_value e\<rparr>"
  by (auto simp: entity_from_domain_def mk_entity_request_def and_then_Inr entity_ok_def)

lemma evidence_from_domain_Inr:
  "evidence_from_domain e = Inr q \<longleftrightarrow> evidence_ok e \<and> q = \<lparr>vq_reference = er_reference e, vq_kind = er_kind e\<rparr>"
  by (auto simp: evidence_from_domain_def mk_evidence_reference_request_def and_then_Inr evidence_ok_def)

lemma part_round_trips:
  "detection_from_domain d = Inr dq \<Longrightarrow> detection_to_domain dq = Inr d"
  "source_from_domain s = Inr sq \<Longrightarrow> source_to_domain sq = Inr s"
  "entity_from_domain e = Inr eq \<Longrightarrow> entity_to_domain eq = Inr e"
  "evidence_from_domain v = Inr vq \<Longrightarrow> evidence_to_domain vq = Inr v"
  by (simp_all add: detection_from_domain_Inr source_from_domain_Inr entity_from_domain_Inr evidence_from_domain_Inr
      detection_to_domain_def source_to_domain_def entity_to_domain_def evidence_to_domain_def
      mk_detection_identity_Inr mk_source_provenance_Inr mk_entity_Inr mk_evidence_reference_Inr)

lemma traverse_round_trip:
  assumes "traverse f xs = Inr ys" "\<And>x y. f x = Inr y \<Longrightarrow> g y = Inr x"
  shows "traverse g ys = Inr xs"
  using assms by (auto simp: traverse_Inr_iff list_all2_conv_all_nth)

lemma traverse_all:
  "list_all P xs \<Longrightarrow> (\<And>x. P x \<Longrightarrow> \<exists>y. f x = Inr y) \<Longrightarrow> \<exists>ys. traverse f xs = Inr ys"
  by (induction xs) (auto simp: and_then_Inr)

lemma alert_from_domain_total:
  assumes "alert_ok a"
  shows "\<exists>q. alert_from_domain a = Inr q"
proof -
  obtain es where "traverse entity_from_domain (al_entities a) = Inr es"
    using assms traverse_all [of entity_ok _ entity_from_domain] by (auto simp: alert_ok_def entity_from_domain_Inr)
  moreover obtain vs where "traverse evidence_from_domain (al_evidence a) = Inr vs"
    using assms traverse_all [of evidence_ok _ evidence_from_domain] by (auto simp: alert_ok_def evidence_from_domain_Inr)
  ultimately show ?thesis
    using assms
    by (auto simp: alert_from_domain_def and_then_Inr detection_from_domain_Inr source_from_domain_Inr
        mk_canonical_alert_request_def alert_ok_def)
qed

lemma alert_from_domain_round:
  assumes "alert_from_domain a = Inr q"
  shows "alert_to_domain q = Inr a"
proof -
  from assms obtain d s es vs where p: "detection_from_domain (al_detection a) = Inr d"
    "source_from_domain (al_source a) = Inr s" "traverse entity_from_domain (al_entities a) = Inr es"
    "traverse evidence_from_domain (al_evidence a) = Inr vs"
    "mk_canonical_alert_request d (al_detected_at a) s es (al_severity a) vs = Inr q"
    by (auto simp: alert_from_domain_def and_then_Inr)
  from p(3) have "traverse entity_to_domain es = Inr (al_entities a)"
    by (rule traverse_round_trip) (rule part_round_trips)
  moreover from p(4) have "traverse evidence_to_domain vs = Inr (al_evidence a)"
    by (rule traverse_round_trip) (rule part_round_trips)
  ultimately show ?thesis
    using p(5) part_round_trips(1) [OF p(1)] part_round_trips(2) [OF p(2)]
    by (auto simp: alert_to_domain_def mk_canonical_alert_request_def mk_canonical_alert_def split: if_splits)
qed

text \<open>An alert that the schema accepts is a valid domain alert.\<close>

lemma traverse_entities_ok: "traverse entity_to_domain qs = Inr es \<Longrightarrow> list_all entity_ok es"
  by (induction qs arbitrary: es) (auto simp: entity_to_domain_def mk_entity_Inr and_then_Inr)

lemma traverse_evidence_ok: "traverse evidence_to_domain qs = Inr es \<Longrightarrow> list_all evidence_ok es"
  by (induction qs arbitrary: es) (auto simp: evidence_to_domain_def mk_evidence_reference_Inr and_then_Inr)

lemma alert_to_domain_ok:
  assumes "alert_to_domain q = Inr a" "dt_ok (aq_detected_at q)"
  shows "alert_ok a"
  using assms
  by (auto simp: alert_to_domain_def and_then_Inr detection_to_domain_def source_to_domain_def
      mk_detection_identity_Inr mk_source_provenance_Inr mk_canonical_alert_Inr alert_ok_def
      dest: traverse_entities_ok traverse_evidence_ok)

section \<open>A response can be made of every record of valid parts\<close>

definition result_parts_ok :: "investigation_result \<Rightarrow> bool" where
  "result_parts_ok r \<longleftrightarrow> list_all evidence_ok (rs_evidence r)"

definition record_parts_ok :: "processing_record \<Rightarrow> bool" where
  "record_parts_ok r \<longleftrightarrow>
     (case pr_decision r of None \<Rightarrow> True | Some d \<Rightarrow> source_ok (de_source d))
     \<and> (case pr_incident r of None \<Rightarrow> True | Some i \<Rightarrow> alert_ok (in_alert i) \<and> source_ok (de_source (in_decision i)))
     \<and> (case pr_investigation_request r of None \<Rightarrow> True | Some q \<Rightarrow> list_all entity_ok (ir_targets q))
     \<and> (case pr_completed_result r of None \<Rightarrow> True
        | Some x \<Rightarrow> (case or_investigation_result x of None \<Rightarrow> True | Some v \<Rightarrow> result_parts_ok v))"

lemma opt_from_total: "(\<And>x. v = Some x \<Longrightarrow> \<exists>y. f x = Inr y) \<Longrightarrow> \<exists>y. opt_from f v = Inr y"
  by (cases v) (auto simp: opt_from_def and_then_Inr)

lemma from_application_total:
  assumes "record_parts_ok r"
  shows "\<exists>x. from_application r = Inr x"
proof -
  have dec: "source_ok (de_source d) \<Longrightarrow> \<exists>y. decision_from_domain d = Inr y" for d
    by (simp add: decision_from_domain_def and_then_Inr source_from_domain_Inr)
  have a: "\<exists>y. opt_from decision_from_domain (pr_decision r) = Inr y"
    using assms dec by (intro opt_from_total) (simp add: record_parts_ok_def)
  have b: "\<exists>y. opt_from incident_from_domain (pr_incident r) = Inr y"
    using assms dec alert_from_domain_total
    by (intro opt_from_total) (fastforce simp: record_parts_ok_def incident_from_domain_def and_then_Inr)
  have c: "\<exists>y. opt_from request_from_domain (pr_investigation_request r) = Inr y"
    using assms traverse_all [of entity_ok _ entity_from_domain]
    by (intro opt_from_total) (auto simp: record_parts_ok_def request_from_domain_def and_then_Inr entity_from_domain_Inr)
  have d: "\<exists>y. opt_from result_from_domain
      (case pr_completed_result r of None \<Rightarrow> None | Some x \<Rightarrow> or_investigation_result x) = Inr y"
    using assms traverse_all [of evidence_ok _ evidence_from_domain]
    by (intro opt_from_total)
       (auto simp: record_parts_ok_def result_from_domain_def and_then_Inr evidence_from_domain_Inr
         result_parts_ok_def split: option.splits)
  from a b c d show ?thesis by (auto simp: from_application_def Let_def and_then_Inr)
qed

end
