(* ===== verification/Utf8.thy ===== *)
theory Utf8
  imports Pystr
begin

text \<open>
  UTF-8 encoding of text, \<open>str.encode("utf-8")\<close>. A lone surrogate has no encoding and
  raises UnicodeEncodeError. The encoding of each code point is a prefix code, so the
  bytes determine the text.
\<close>

definition encodable :: "nat \<Rightarrow> bool" where
  "encodable c \<longleftrightarrow> c < 0x110000 \<and> \<not> (0xD800 \<le> c \<and> c \<le> 0xDFFF)"

text \<open>The bytes of one code point, as numbers below 256.\<close>

definition utf8_units :: "nat \<Rightarrow> nat list" where
  "utf8_units c =
     (if c < 0x80 then [c]
      else if c < 0x800 then [0xC0 + c div 64, 0x80 + c mod 64]
      else if c < 0x10000 then [0xE0 + c div 4096, 0x80 + c div 64 mod 64, 0x80 + c mod 64]
      else [0xF0 + c div 262144, 0x80 + c div 4096 mod 64, 0x80 + c div 64 mod 64, 0x80 + c mod 64])"

definition utf8_bytes :: "ustring \<Rightarrow> bytes" where
  "utf8_bytes s = map of_nat (concat (map utf8_units s))"

definition encode_utf8 :: "'e \<Rightarrow> ustring \<Rightarrow> 'e + bytes" where
  \<comment> \<open>the first argument is the UnicodeEncodeError to raise\<close>
  "encode_utf8 err s = (if list_all encodable s then Inr (utf8_bytes s) else Inl err)"

lemma utf8_units_bound: "c < 0x110000 \<Longrightarrow> u \<in> set (utf8_units c) \<Longrightarrow> u < 256"
  by (auto simp: utf8_units_def split: if_splits)

lemma utf8_units_not_Nil [simp]: "utf8_units c \<noteq> []"
  by (simp add: utf8_units_def)

text \<open>The value of a code point from its units.\<close>

fun utf8_value :: "nat list \<Rightarrow> nat" where
  "utf8_value (a # s) =
     (if a < 0x80 then a
      else if a < 0xE0 then (a - 0xC0) * 64 + (hd s - 0x80)
      else if a < 0xF0 then (a - 0xE0) * 4096 + (hd s - 0x80) * 64 + (s ! 1 - 0x80)
      else (a - 0xF0) * 262144 + (hd s - 0x80) * 4096 + (s ! 1 - 0x80) * 64 + (s ! 2 - 0x80))"
| "utf8_value [] = 0"

text \<open>The number of units, read off the first one.\<close>

definition utf8_width :: "nat \<Rightarrow> nat" where
  "utf8_width a = (if a < 0x80 then 1 else if a < 0xE0 then 2 else if a < 0xF0 then 3 else 4)"

lemma base64_steps:
  "c = c div 64 * 64 + c mod 64"
  "c div 64 = c div 4096 * 64 + c div 64 mod 64"
  "c div 4096 = c div 262144 * 64 + c div 4096 mod 64"
  for c :: nat
  using div_mult_mod_eq [of c 64] div_mult_mod_eq [of "c div 64" 64]
    div_mult_mod_eq [of "c div 4096" 64]
  by (simp_all add: div_mult2_eq [symmetric])

lemma base64_split:
  "c = c div 4096 * 4096 + (c div 64 mod 64) * 64 + c mod 64"
  "c = c div 262144 * 262144 + (c div 4096 mod 64) * 4096 + (c div 64 mod 64) * 64 + c mod 64"
  for c :: nat
  using base64_steps [of c] by linarith+

lemma utf8_value_units: "c < 0x110000 \<Longrightarrow> utf8_value (utf8_units c @ s) = c"
  using base64_steps(1) [of c] base64_split [of c]
  by (auto simp: utf8_units_def nth_append less_mult_imp_div_less)

lemma utf8_width_units: "c < 0x110000 \<Longrightarrow> utf8_width (hd (utf8_units c)) = length (utf8_units c)"
  by (auto simp: utf8_units_def utf8_width_def less_mult_imp_div_less)

lemma utf8_units_prefix:
  assumes "c < 0x110000" "d < 0x110000" "utf8_units c @ s = utf8_units d @ t"
  shows "c = d \<and> s = t"
proof -
  from assms(3) have "hd (utf8_units c) = hd (utf8_units d)"
    by (metis hd_append2 utf8_units_not_Nil)
  then have "length (utf8_units c) = length (utf8_units d)"
    using assms(1,2) by (metis utf8_width_units)
  with assms(3) have "s = t" by simp
  moreover have "c = d"
    using assms by (metis utf8_value_units)
  ultimately show ?thesis by simp
qed

lemma encodable_less: "encodable c \<Longrightarrow> c < 0x110000"
  by (simp add: encodable_def)

lemma concat_units_inj:
  "list_all encodable s \<Longrightarrow> list_all encodable t \<Longrightarrow>
   concat (map utf8_units s) = concat (map utf8_units t) \<Longrightarrow> s = t"
proof (induction s arbitrary: t)
  case Nil
  then show ?case by (cases t) auto
next
  case (Cons c s)
  show ?case
  proof (cases t)
    case Nil
    with Cons.prems show ?thesis by simp
  next
    case (Cons d t')
    with Cons.prems Cons.IH show ?thesis
      by (auto dest!: utf8_units_prefix [rotated 2] encodable_less)
  qed
qed

lemma of_nat_byte_inj: "n < 256 \<Longrightarrow> m < 256 \<Longrightarrow> (of_nat n :: byte) = of_nat m \<longleftrightarrow> n = m"
  by (auto simp: word_unat_eq_iff unat_of_nat)

lemma map_of_nat_inj:
  "\<forall>u \<in> set us. u < 256 \<Longrightarrow> \<forall>u \<in> set vs. u < 256 \<Longrightarrow>
   map (of_nat :: nat \<Rightarrow> byte) us = map of_nat vs \<Longrightarrow> us = vs"
  by (auto simp: list_eq_iff_nth_eq of_nat_byte_inj)

lemma utf8_bytes_inj:
  assumes "list_all encodable s" "list_all encodable t" "utf8_bytes s = utf8_bytes t"
  shows "s = t"
proof -
  have bound: "\<forall>u \<in> set (concat (map utf8_units r)). u < 256" if "list_all encodable r" for r
    using that by (auto simp: list_all_iff dest: encodable_less utf8_units_bound)
  with assms have "concat (map utf8_units s) = concat (map utf8_units t)"
    unfolding utf8_bytes_def by (intro map_of_nat_inj) auto
  with assms(1,2) show ?thesis by (rule concat_units_inj)
qed

lemma encode_utf8_inj:
  "encode_utf8 e s = Inr b \<Longrightarrow> encode_utf8 e t = Inr b \<Longrightarrow> s = t"
  by (auto simp: encode_utf8_def split: if_splits intro: utf8_bytes_inj)

lemma utf8_ascii: "is_ascii s \<Longrightarrow> encode_utf8 e s = Inr (map of_nat s)"
proof -
  assume a: "is_ascii s"
  then have "concat (map utf8_units s) = s"
    by (induction s) (auto simp: is_ascii_def utf8_units_def)
  moreover from a have "list_all encodable s"
    by (auto simp: is_ascii_def encodable_def list_all_iff)
  ultimately show ?thesis by (simp add: encode_utf8_def utf8_bytes_def)
qed

end
