(* ===== verification/Json.thy ===== *)
theory Json
  imports Utf8 "HOL-Library.List_Lexorder"
begin

text \<open>
  JSON values and the canonical text \<open>json.dumps(v, ensure_ascii=False, separators=(",",
  ":"), sort_keys=True, allow_nan=False)\<close> that the fingerprint and the finding identity
  are computed from. The text is uniquely readable: it determines the value up to the order
  of object members (\<open>dumps_inj\<close>).
\<close>

datatype json =
    JNull
  | JBool bool
  | JInt int
  | JStr ustring
  | JArr "json list"
  | JObj "(ustring \<times> json) list"

section \<open>Strings\<close>

text \<open>The escapes of the standard encoder without \<open>ensure_ascii\<close>.\<close>

definition escape_cp :: "nat \<Rightarrow> ustring" where
  "escape_cp c =
     (if c = 34 then [92, 34]
      else if c = 92 then [92, 92]
      else if c = 8 then [92, 98]
      else if c = 12 then [92, 102]
      else if c = 10 then [92, 110]
      else if c = 13 then [92, 114]
      else if c = 9 then [92, 116]
      else if c < 32 then [92, 117] @ hex_fix 4 c
      else [c])"

definition quote :: "ustring \<Rightarrow> ustring" where
  "quote s = 34 # concat (map escape_cp s) @ [34]"

section \<open>Compact text\<close>

fun print_json :: "json \<Rightarrow> ustring"
  and print_elems :: "json list \<Rightarrow> ustring"
  and print_members :: "(ustring \<times> json) list \<Rightarrow> ustring"
where
  "print_json JNull = S ''null''"
| "print_json (JBool b) = (if b then S ''true'' else S ''false'')"
| "print_json (JInt i) = dec_int i"
| "print_json (JStr s) = quote s"
| "print_json (JArr vs) = 91 # print_elems vs @ [93]"
| "print_json (JObj ms) = 123 # print_members ms @ [125]"
| "print_elems [] = []"
| "print_elems [v] = print_json v"
| "print_elems (v # w # vs) = print_json v @ 44 # print_elems (w # vs)"
| "print_members [] = []"
| "print_members [(k, v)] = quote k @ 58 # print_json v"
| "print_members ((k, v) # m # ms) = quote k @ 58 # print_json v @ 44 # print_members (m # ms)"

primrec sort_json :: "json \<Rightarrow> json" where
  "sort_json JNull = JNull"
| "sort_json (JBool b) = JBool b"
| "sort_json (JInt i) = JInt i"
| "sort_json (JStr s) = JStr s"
| "sort_json (JArr vs) = JArr (map sort_json vs)"
| "sort_json (JObj ms) = JObj (sort_key fst (map (map_prod id sort_json) ms))"

definition dumps :: "json \<Rightarrow> ustring" where
  "dumps v = print_json (sort_json v)"

section \<open>Unique readability\<close>

lemma escape_cp_hd: "\<exists>h r. escape_cp c = h # r \<and> h \<noteq> 34"
  by (auto simp: escape_cp_def)

text \<open>Reading one escaped character back.\<close>

definition unhex :: "nat \<Rightarrow> nat" where
  "unhex d = (if d < 58 then d - 48 else d - 87)"

definition hex_value :: "ustring \<Rightarrow> nat" where
  "hex_value s = foldl (\<lambda>a d. a * 16 + unhex d) 0 s"

lemma unhex_hex_char [simp]: "d < 16 \<Longrightarrow> unhex (hex_char d) = d"
  by (simp add: unhex_def hex_char_def)

lemma hex_value_fix: "n < 16 ^ w \<Longrightarrow> hex_value (hex_fix w n) = n"
proof (induction w arbitrary: n)
  case 0
  then show ?case by (simp add: hex_value_def hex_fix_def)
next
  case (Suc w)
  then have "n div 16 < 16 ^ w" by (simp add: less_mult_imp_div_less mult.commute)
  then have "hex_value (hex_fix w (n div 16)) = n div 16" by (rule Suc.IH)
  then show ?case by (simp add: hex_value_def hex_fix_def)
qed

definition unescape :: "ustring \<Rightarrow> nat \<times> ustring" where
  "unescape s =
     (if hd s \<noteq> 92 then (hd s, tl s)
      else if s ! 1 = 117 then (hex_value (take 4 (drop 2 s)), drop 6 s)
      else (if s ! 1 = 98 then 8 else if s ! 1 = 102 then 12 else if s ! 1 = 110 then 10
            else if s ! 1 = 114 then 13 else if s ! 1 = 116 then 9 else s ! 1, drop 2 s))"

lemma unescape_escape: "unescape (escape_cp c @ s) = (c, s)"
proof (cases "c < 32 \<and> c \<notin> {8, 12, 10, 13, 9}")
  case True
  then have esc: "escape_cp c = 92 # 117 # hex_fix 4 c" by (auto simp: escape_cp_def)
  have "hex_value (hex_fix 4 c) = c" using True by (intro hex_value_fix) simp
  with esc show ?thesis by (simp add: unescape_def)
next
  case False
  then consider "32 \<le> c" | "c = 8" | "c = 12" | "c = 10" | "c = 13" | "c = 9" by fastforce
  then show ?thesis by cases (simp_all add: escape_cp_def unescape_def)
qed

lemma escape_cp_prefix: "escape_cp c @ s = escape_cp d @ t \<Longrightarrow> c = d \<and> s = t"
  by (metis unescape_escape prod.inject)

lemma escapes_prefix:
  "concat (map escape_cp s) @ 34 # x = concat (map escape_cp t) @ 34 # y \<Longrightarrow> s = t \<and> x = y"
proof (induction s arbitrary: t)
  case Nil
  show ?case
  proof (cases t)
    case Nil
    with Nil.prems show ?thesis by simp
  next
    case (Cons d t')
    obtain h r where "escape_cp d = h # r" "h \<noteq> 34" using escape_cp_hd by blast
    with Cons Nil.prems show ?thesis by simp
  qed
next
  case (Cons c s)
  show ?case
  proof (cases t)
    case Nil
    obtain h r where "escape_cp c = h # r" "h \<noteq> 34" using escape_cp_hd by blast
    with Nil Cons.prems show ?thesis by simp
  next
    case t: (Cons d t')
    from Cons.prems t have
      "escape_cp c @ (concat (map escape_cp s) @ 34 # x) = escape_cp d @ (concat (map escape_cp t') @ 34 # y)"
      by simp
    from escape_cp_prefix [OF this] have "c = d"
      and "concat (map escape_cp s) @ 34 # x = concat (map escape_cp t') @ 34 # y" by blast+
    with Cons.IH t show ?thesis by blast
  qed
qed

lemma quote_prefix: "quote s @ x = quote t @ y \<Longrightarrow> s = t \<and> x = y"
  by (rule escapes_prefix) (simp add: quote_def)

lemma quote_prefix_iff [simp]: "quote s @ x = quote t @ y \<longleftrightarrow> s = t \<and> x = y"
  by (blast dest: quote_prefix)

definition stops :: "ustring \<Rightarrow> bool" where
  \<comment> \<open>the text after a number does not go on with a digit\<close>
  "stops s \<longleftrightarrow> (case s of [] \<Rightarrow> True | c # _ \<Rightarrow> \<not> is_digit c)"

lemma stops_simps [simp]: "stops []" "stops (c # s) \<longleftrightarrow> \<not> is_digit c"
  by (simp_all add: stops_def)

lemma dec_nat_span:
  assumes "stops s"
  shows "takeWhile is_digit (dec_nat n @ s) = dec_nat n" "dropWhile is_digit (dec_nat n @ s) = s"
proof -
  have d: "\<forall>c \<in> set (dec_nat n). is_digit c" by (auto dest: dec_nat_digits)
  have s: "takeWhile is_digit s = []" "dropWhile is_digit s = s"
    using assms by (cases s; simp)+
  from d s show "takeWhile is_digit (dec_nat n @ s) = dec_nat n"
    by (simp add: takeWhile_append)
  from d s show "dropWhile is_digit (dec_nat n @ s) = s"
    by (simp add: dropWhile_append)
qed

lemma dec_nat_prefix:
  assumes "dec_nat n @ s = dec_nat m @ t" "stops s" "stops t"
  shows "n = m \<and> s = t"
  using assms dec_nat_span [of s n] dec_nat_span [of t m] by (auto dest: dec_nat_inj)

lemma dec_nat_hd: "\<exists>h r. dec_nat n = h # r \<and> is_digit h"
  using dec_nat_digits [of "hd (dec_nat n)" n] by (cases "dec_nat n") auto

lemma dec_int_prefix:
  assumes "dec_int i @ s = dec_int j @ t" "stops s" "stops t"
  shows "i = j \<and> s = t"
proof -
  obtain h r h' r' where hd: "dec_nat (nat i) = h # r" "is_digit h"
    "dec_nat (nat j) = h' # r'" "is_digit h'"
    using dec_nat_hd by blast
  have nd: "\<not> is_digit 45" by (simp add: is_digit_def)
  consider "i < 0" "j < 0" | "i < 0" "0 \<le> j" | "0 \<le> i" "j < 0" | "0 \<le> i" "0 \<le> j" by linarith
  then show ?thesis
  proof cases
    case 1
    with assms dec_nat_prefix [of "nat (- i)" s "nat (- j)" t] show ?thesis
      by (auto simp: dec_int_def)
  next
    case 4
    with assms dec_nat_prefix [of "nat i" s "nat j" t] show ?thesis
      by (auto simp: dec_int_def)
  qed (use assms hd nd in \<open>auto simp: dec_int_def\<close>)
qed

text \<open>The first character tells the kind of value; none is a closing bracket or a comma.\<close>

lemma dec_int_hd: "\<exists>h r. dec_int i = h # r \<and> (h = 45 \<or> is_digit h)"
  using dec_nat_hd [of "nat i"] by (auto simp: dec_int_def)

fun json_head :: "json \<Rightarrow> nat \<Rightarrow> bool" where
  "json_head JNull h \<longleftrightarrow> h = 110"
| "json_head (JBool b) h \<longleftrightarrow> h = (if b then 116 else 102)"
| "json_head (JInt i) h \<longleftrightarrow> h = 45 \<or> is_digit h"
| "json_head (JStr s) h \<longleftrightarrow> h = 34"
| "json_head (JArr vs) h \<longleftrightarrow> h = 91"
| "json_head (JObj ms) h \<longleftrightarrow> h = 123"

lemma print_json_hd: obtains h r where "print_json v = h # r" "json_head v h"
proof (cases v)
  case (JInt i)
  with that dec_int_hd [of i] show ?thesis by auto
next
  case (JBool b)
  then show ?thesis using that by (cases b) (auto simp: S_def)
qed (use that in \<open>auto simp: S_def quote_def\<close>)

lemma json_head_not_close: "json_head v h \<Longrightarrow> h \<noteq> 93 \<and> h \<noteq> 44 \<and> h \<noteq> 125"
  by (cases v) (auto simp: is_digit_def)

lemma json_head_kind:
  "json_head v h \<Longrightarrow> json_head w h \<Longrightarrow>
   (v = JNull \<longrightarrow> w = JNull) \<and> (\<forall>b. v = JBool b \<longrightarrow> w = JBool b) \<and> (\<forall>i. v = JInt i \<longrightarrow> (\<exists>j. w = JInt j))
   \<and> (\<forall>x. v = JStr x \<longrightarrow> (\<exists>y. w = JStr y)) \<and> (\<forall>x. v = JArr x \<longrightarrow> (\<exists>y. w = JArr y))
   \<and> (\<forall>x. v = JObj x \<longrightarrow> (\<exists>y. w = JObj y))"
  by (cases v; cases w) (auto simp: is_digit_def split: if_splits)

lemma print_json_kind:
  assumes "print_json v @ s = print_json w @ t"
  shows "(v = JNull \<longrightarrow> w = JNull) \<and> (\<forall>b. v = JBool b \<longrightarrow> w = JBool b) \<and> (\<forall>i. v = JInt i \<longrightarrow> (\<exists>j. w = JInt j))
   \<and> (\<forall>x. v = JStr x \<longrightarrow> (\<exists>y. w = JStr y)) \<and> (\<forall>x. v = JArr x \<longrightarrow> (\<exists>y. w = JArr y))
   \<and> (\<forall>x. v = JObj x \<longrightarrow> (\<exists>y. w = JObj y))"
proof -
  obtain h r where v: "print_json v = h # r" "json_head v h" by (rule print_json_hd)
  obtain h' r' where w: "print_json w = h' # r'" "json_head w h'" by (rule print_json_hd)
  from assms v w have "h' = h" by simp
  with v w show ?thesis by (intro json_head_kind) simp_all
qed

lemma print_json_not_close: "c \<in> {93, 44, 125} \<Longrightarrow> print_json v @ s \<noteq> c # t"
proof -
  assume c: "c \<in> {93, 44, 125}"
  obtain h r where "print_json v = h # r" "json_head v h" by (rule print_json_hd)
  with c json_head_not_close [of v h] show ?thesis by auto
qed

lemma quote_not_close: "c \<noteq> 34 \<Longrightarrow> quote k @ s \<noteq> c # t" "c \<noteq> 34 \<Longrightarrow> c # t \<noteq> quote k @ s"
  by (auto simp: quote_def)

lemma elems_cases:
  obtains (none) "vs = []" | (one) v where "vs = [v]" | (more) v u us where "vs = v # u # us"
  by (metis list.exhaust)

lemma members_cases:
  obtains (none) "ms = []" | (one) k v where "ms = [(k, v)]" | (more) k v m ns where "ms = (k, v) # m # ns"
  by (metis list.exhaust surj_pair)

text \<open>The three printers are read back together, each up to what follows it.\<close>

lemma print_unique:
  "print_json v @ s = print_json w @ t \<Longrightarrow> stops s \<Longrightarrow> stops t \<Longrightarrow> v = w \<and> s = t"
  "print_elems vs @ 93 # s' = print_elems ws @ 93 # t' \<Longrightarrow> vs = ws \<and> s' = t'"
  "print_members ms @ 125 # s'' = print_members ns @ 125 # t'' \<Longrightarrow> ms = ns \<and> s'' = t''"
proof (induction v and vs and ms arbitrary: w s t and ws s' t' and ns s'' t''
    rule: print_json_print_elems_print_members.induct)
  case 1
  with print_json_kind [OF 1(1)] show ?case by auto
next
  case (2 b)
  with print_json_kind [OF 2(1)] show ?case by auto
next
  case (3 i)
  from print_json_kind [OF 3(1)] obtain j where "w = JInt j" by auto
  with 3 show ?case by (auto dest: dec_int_prefix)
next
  case (4 x)
  from print_json_kind [OF 4(1)] obtain y where "w = JStr y" by auto
  with 4 show ?case by auto
next
  case (5 vs)
  from print_json_kind [OF 5(2)] obtain ws where w: "w = JArr ws" by auto
  with 5 have "print_elems vs @ 93 # s = print_elems ws @ 93 # t" by simp
  from 5(1) [OF this] w show ?case by simp
next
  case (6 ms)
  from print_json_kind [OF 6(2)] obtain ns where w: "w = JObj ns" by auto
  with 6 have "print_members ms @ 125 # s = print_members ns @ 125 # t" by simp
  from 6(1) [OF this] w show ?case by simp
next
  case 7
  show ?case
  proof (cases ws rule: elems_cases)
    case none
    from none 7 show ?thesis by simp
  next
    case (one v)
    from one 7 print_json_not_close [of 93 v "93 # t'" s'] show ?thesis by simp
  next
    case (more v u vs)
    from more 7 print_json_not_close [of 93 v "44 # print_elems (u # vs) @ 93 # t'" s'] show ?thesis by simp
  qed
next
  case (8 v)
  show ?case
  proof (cases ws rule: elems_cases)
    case none
    from none 8(2) print_json_not_close [of 93 v "93 # s'" t'] show ?thesis by auto
  next
    case (one w)
    from one 8(2) have "print_json v @ 93 # s' = print_json w @ 93 # t'" by simp
    from 8(1) [OF this] one show ?thesis by (simp add: is_digit_def)
  next
    case (more w u vs)
    from more 8(2) have "print_json v @ 93 # s' = print_json w @ 44 # print_elems (u # vs) @ 93 # t'" by simp
    from 8(1) [OF this] show ?thesis by (simp add: is_digit_def)
  qed
next
  case (9 v u vs)
  show ?case
  proof (cases ws rule: elems_cases)
    case none
    from none 9(3) print_json_not_close [of 93 v "44 # print_elems (u # vs) @ 93 # s'" t'] show ?thesis by auto
  next
    case (one w)
    from one 9(3) have "print_json v @ 44 # print_elems (u # vs) @ 93 # s' = print_json w @ 93 # t'" by simp
    from 9(1) [OF this] show ?thesis by (simp add: is_digit_def)
  next
    case (more w u' ws')
    from more 9(3) have "print_json v @ 44 # print_elems (u # vs) @ 93 # s'
      = print_json w @ 44 # print_elems (u' # ws') @ 93 # t'" by simp
    from 9(1) [OF this] 9(2) [of s' "u' # ws'" t'] more show ?thesis by (simp add: is_digit_def)
  qed
next
  case 10
  show ?case
    by (cases ns rule: members_cases) (use 10 quote_not_close in auto)
next
  case (11 k v)
  show ?case
  proof (cases ns rule: members_cases)
    case none
    from none 11(2) quote_not_close show ?thesis by auto
  next
    case (one k' w)
    from one 11(2) have k: "k = k'" and eq: "print_json v @ 125 # s'' = print_json w @ 125 # t''" by auto
    from 11(1) [OF eq] one k show ?thesis by (simp add: is_digit_def)
  next
    case (more k' w n ns')
    from more 11(2) have eq: "print_json v @ 125 # s'' = print_json w @ 44 # print_members (n # ns') @ 125 # t''"
      by auto
    from 11(1) [OF eq] show ?thesis by (simp add: is_digit_def)
  qed
next
  case (12 k v m ms)
  show ?case
  proof (cases ns rule: members_cases)
    case none
    from none 12(3) quote_not_close show ?thesis by auto
  next
    case (one k' w)
    from one 12(3) have eq: "print_json v @ 44 # print_members (m # ms) @ 125 # s'' = print_json w @ 125 # t''"
      by auto
    from 12(1) [OF eq] show ?thesis by (simp add: is_digit_def)
  next
    case (more k' w n ns')
    from more 12(3) have k: "k = k'" and eq: "print_json v @ 44 # print_members (m # ms) @ 125 # s''
      = print_json w @ 44 # print_members (n # ns') @ 125 # t''"
      by auto
    from 12(1) [OF eq] 12(2) [of s'' "n # ns'" t''] more k show ?thesis by (simp add: is_digit_def)
  qed
qed

lemma print_json_inj: "print_json v = print_json w \<longleftrightarrow> v = w"
  using print_unique(1) [of v "[]" w "[]"] by auto

lemma dumps_eq_iff: "dumps v = dumps w \<longleftrightarrow> sort_json v = sort_json w"
  by (simp add: dumps_def print_json_inj)

section \<open>Sorting members\<close>

text \<open>Objects with the same distinct keys in the same places are told apart by sorted text.\<close>

lemma sort_members_inj:
  fixes xs ys :: "(ustring \<times> json) list"
  assumes eq: "sort_key fst xs = sort_key fst ys" and keys: "map fst xs = map fst ys"
    and d: "distinct (map fst xs)"
  shows "xs = ys"
proof -
  have st: "set xs = set ys" by (metis eq set_sort)
  have len: "length xs = length ys" using keys by (metis length_map)
  have dy: "distinct (map fst ys)" using keys d by simp
  show ?thesis
  proof (rule nth_equalityI [OF len])
    fix i assume i: "i < length xs"
    obtain k v k' w where kv: "xs ! i = (k, v)" "ys ! i = (k', w)" by (metis surj_pair)
    have "k = k'" using arg_cong [OF keys, of "\<lambda>l. l ! i"] i len kv by simp
    moreover have "(k, v) \<in> set ys" using i kv st nth_mem by metis
    moreover have "(k', w) \<in> set ys" using i len kv nth_mem by metis
    ultimately show "xs ! i = ys ! i" using dy kv by (simp add: eq_key_imp_eq_value)
  qed
qed

lemma sort_json_obj_eq:
  assumes "map fst ms = map fst ns" "distinct (map fst ms)"
  shows "sort_json (JObj ms) = sort_json (JObj ns) \<longleftrightarrow> map (map_prod id sort_json) ms = map (map_prod id sort_json) ns"
proof -
  have k: "map fst (map (map_prod id sort_json) ls) = map fst ls" for ls :: "(ustring \<times> json) list"
    by (simp add: comp_def)
  show ?thesis
    using sort_members_inj [of "map (map_prod id sort_json) ms" "map (map_prod id sort_json) ns"] assms
    unfolding k by auto
qed

end
