(* ===== verification/Telemetry.thy ===== *)
theory Telemetry
  imports Lifecycle Json
begin

text \<open>
  The parts of \<open>observability.py\<close> that carry decisions: the bounded vocabularies of metric and
  log values, the classification of errors, the correlation context, the counters with their
  attributes, the controlled log events and the attribute allowlist of exported spans.
  Recording a metric is an event of the program; durations, spans and the OpenTelemetry and
  logging libraries behind them are not modelled (their recording calls are taken not to
  raise).
\<close>

section \<open>Vocabularies\<close>

definition known_backends :: "ustring list" where
  "known_backends = map S [''mock'', ''velociraptor'']"

definition known_capabilities :: "ustring list" where
  "known_capabilities = map S [''process.list'']"

definition known_decisions :: "ustring list" where
  "known_decisions = map S [''investigate'', ''no_action'', ''unknown'']"

definition known_outcomes :: "ustring list" where
  "known_outcomes = map S [''success'', ''timeout'', ''error'']"

definition known_states :: "ustring list" where
  "known_states = map S [''accepted'', ''planned'', ''submitting'', ''submitted'', ''completed'', ''failed'',
     ''recovery_required'', ''unknown'']"

definition known_error_categories :: "ustring list" where
  "known_error_categories = map S
     [''validation_error'', ''idempotency_key_required'', ''invalid_idempotency_key'', ''idempotency_conflict'',
      ''unsupported_capability'', ''backend_selection_error'', ''backend_submission_failed'',
      ''backend_submission_unknown'', ''backend_execution_failed'', ''backend_timeout'',
      ''backend_protocol_error'', ''persistence_failed'', ''recovery_required'', ''routing_unsupported'',
      ''routing_ambiguous'', ''backend_target'', ''backend_execution'', ''persistence_unavailable'',
      ''persistence_timeout'', ''persistence_constraint'', ''persistence_mapping'', ''persistence_internal'',
      ''internal_error'']"

definition event_fields :: "ustring list" where
  "event_fields = map S
     [''attempt_id'', ''backend'', ''capabilities'', ''capability'', ''decision'', ''duration_ms'',
      ''error_category'', ''failure_stage'', ''http_method'', ''http_route'', ''http_status'',
      ''operation_reference'', ''operation_reference_kind'', ''outcome'', ''persistence'', ''processing_id'',
      ''request_id'', ''state'', ''to_state'', ''target_count'']"

definition safe_span_attributes :: "ustring list" where
  "safe_span_attributes = map S
     [''alert2ir.backend'', ''alert2ir.capability'', ''alert2ir.decision'', ''alert2ir.error.category'',
      ''alert2ir.outcome'', ''alert2ir.target_count'', ''db.operation.name'', ''db.system.name'', ''http.method'',
      ''http.request.method'', ''http.response.status_code'', ''http.route'', ''http.status_code'']"

text \<open>A value of the vocabulary, or else the default.\<close>

definition known_or :: "ustring list \<Rightarrow> string \<Rightarrow> ustring \<Rightarrow> ustring" where
  "known_or vocabulary other v = (if v \<in> set vocabulary then v else S other)"

definition bounded_backend :: "ustring \<Rightarrow> ustring" where
  "bounded_backend v = known_or known_backends ''other'' v"

fun bounded_capability :: "ustring list \<Rightarrow> ustring" where
  "bounded_capability [c] = (if c \<in> set known_capabilities then c else S ''other'')"
| "bounded_capability _ = S ''other''"

definition bounded_error_category :: "ustring \<Rightarrow> ustring" where
  "bounded_error_category v = known_or known_error_categories ''internal_error'' v"

definition ends_with :: "ustring \<Rightarrow> ustring \<Rightarrow> bool" where
  "ends_with s suffix \<longleftrightarrow> length suffix \<le> length s \<and> drop (length s - length suffix) s = suffix"

definition outcome_for_error :: "ustring \<Rightarrow> ustring" where
  "outcome_for_error category = (if ends_with category (S ''_timeout'') then S ''timeout'' else S ''error'')"

text \<open>\<open>classify_error\<close>: the order of the tests matters where classes inherit.\<close>

definition classify_error :: "exn \<Rightarrow> string \<Rightarrow> ustring" where
  "classify_error e stage =
     (if is_unsupported_capabilities e then S ''unsupported_capability''
      else if is_ambiguous_backend e then S ''backend_selection_error''
      else if is_submission_unknown e then S ''backend_submission_unknown''
      else if is_submission_rejected e then S ''backend_submission_failed''
      else if e = BackendProtocolError then S ''backend_protocol_error''
      else if e = VelociraptorTargetError then S ''backend_target''
      else if e = TimeoutError then (if stage = ''backend'' then S ''backend_timeout'' else S ''persistence_timeout'')
      else if collection_message e \<noteq> None then
        (if collection_message e = Some (S ''Velociraptor collection exceeded its local deadline'')
         then S ''backend_timeout'' else S ''backend_execution'')
      else if stage = ''backend'' then S ''backend_execution''
      else if stage = ''persistence'' then
        (if e = PsycopgUniqueViolation then S ''persistence_constraint''
         else if e = PsycopgQueryCanceled then S ''persistence_timeout''
         else if is_operational_or_interface e then S ''persistence_unavailable''
         else if is_value_error e then S ''persistence_mapping''
         else S ''persistence_internal'')
      else S ''internal_error'')"

lemma classify_error_known: "classify_error e stage \<in> set known_error_categories"
  unfolding classify_error_def by (simp add: known_error_categories_def)

lemma classify_error_bounded: "bounded_error_category (classify_error e stage) = classify_error e stage"
  by (simp add: bounded_error_category_def known_or_def classify_error_known)

section \<open>Correlation context\<close>

text \<open>The four context variables.\<close>

record context_vars =
  cv_request_id :: "ustring option"
  cv_processing_id :: "ustring option"
  cv_attempt_id :: "ustring option"
  cv_error_category :: "ustring option"

definition empty_context :: context_vars where
  "empty_context = \<lparr>cv_request_id = None, cv_processing_id = None, cv_attempt_id = None, cv_error_category = None\<rparr>"

definition set_processing_id :: "ustring option \<Rightarrow> context_vars \<Rightarrow> context_vars" where
  "set_processing_id v c = c\<lparr>cv_processing_id := v\<rparr>"

definition set_attempt_id :: "ustring option \<Rightarrow> context_vars \<Rightarrow> context_vars" where
  "set_attempt_id v c = c\<lparr>cv_attempt_id := v\<rparr>"

definition set_error_category :: "ustring option \<Rightarrow> context_vars \<Rightarrow> context_vars" where
  "set_error_category v c = c\<lparr>cv_error_category := map_option bounded_error_category v\<rparr>"

definition request_context :: "ustring \<Rightarrow> context_vars" where
  "request_context request_id =
     \<lparr>cv_request_id = Some request_id, cv_processing_id = None, cv_attempt_id = None, cv_error_category = None\<rparr>"

definition reconciliation_context :: "ustring \<Rightarrow> ustring option \<Rightarrow> context_vars" where
  "reconciliation_context processing_id attempt_id =
     \<lparr>cv_request_id = None, cv_processing_id = Some processing_id, cv_attempt_id = attempt_id,
      cv_error_category = None\<rparr>"

section \<open>Metrics\<close>

text \<open>One increment of a counter: its name and attributes.\<close>

type_synonym metric = "ustring \<times> (ustring \<times> ustring) list"

definition metric_attributes :: "(ustring \<times> ustring) list \<Rightarrow> ustring option \<Rightarrow> (ustring \<times> ustring) list" where
  "metric_attributes base category =
     (case category of None \<Rightarrow> base | Some c \<Rightarrow> dict_set (S ''error_category'') (bounded_error_category c) base)"

definition record_transition :: "ustring \<Rightarrow> ustring \<Rightarrow> ustring \<Rightarrow> ustring option \<Rightarrow> metric" where
  "record_transition st to_state outcome category =
     (S ''alert2ir.processing.transitions'', metric_attributes
        [(S ''state'', known_or known_states ''unknown'' st),
         (S ''to_state'', known_or known_states ''unknown'' to_state),
         (S ''outcome'', known_or known_outcomes ''error'' outcome)] category)"

definition record_idempotency :: "ustring \<Rightarrow> metric" where
  "record_idempotency outcome =
     (S ''alert2ir.idempotency.requests'',
      [(S ''outcome'', known_or (map S [''accepted'', ''replayed'', ''conflict'']) ''error'' outcome)])"

definition record_submission :: "ustring \<Rightarrow> ustring \<Rightarrow> ustring option \<Rightarrow> metric" where
  "record_submission backend_name outcome category =
     (S ''alert2ir.backend.submissions'', metric_attributes
        [(S ''backend'', bounded_backend backend_name),
         (S ''outcome'', known_or known_outcomes ''error'' outcome)] category)"

definition record_reconciliation :: "ustring \<Rightarrow> ustring \<Rightarrow> ustring option \<Rightarrow> metric" where
  "record_reconciliation st outcome category =
     (S ''alert2ir.reconciliation.operations'', metric_attributes
        [(S ''state'', known_or known_states ''unknown'' st),
         (S ''outcome'', known_or known_outcomes ''error'' outcome)] category)"

definition record_stale :: "ustring \<Rightarrow> metric" where
  "record_stale st = (S ''alert2ir.processing.stale'', [(S ''state'', known_or known_states ''unknown'' st)])"

definition record_recovery_required :: "ustring \<Rightarrow> ustring \<Rightarrow> metric" where
  "record_recovery_required backend_name category =
     (S ''alert2ir.processing.recovery_required'',
      [(S ''backend'', bounded_backend backend_name), (S ''error_category'', bounded_error_category category)])"

definition record_processing :: "ustring \<Rightarrow> ustring \<Rightarrow> ustring option \<Rightarrow> metric" where
  "record_processing decision_value outcome category =
     (S ''alert2ir.processing'', metric_attributes
        [(S ''decision'', known_or known_decisions ''unknown'' decision_value),
         (S ''outcome'', known_or known_outcomes ''error'' outcome)] category)"

definition record_backend :: "ustring \<Rightarrow> ustring \<Rightarrow> ustring \<Rightarrow> ustring option \<Rightarrow> metric" where
  "record_backend backend_name capability outcome category =
     (S ''alert2ir.backend.executions'', metric_attributes
        [(S ''backend'', bounded_backend backend_name),
         (S ''capability'', known_or known_capabilities ''other'' capability),
         (S ''outcome'', known_or known_outcomes ''error'' outcome)] category)"

definition record_persistence :: "ustring \<Rightarrow> ustring option \<Rightarrow> metric" where
  "record_persistence outcome category =
     (S ''alert2ir.persistence.operations'', metric_attributes
        [(S ''operation'', S ''save''), (S ''outcome'', known_or known_outcomes ''error'' outcome)] category)"

text \<open>The values that may ever be an attribute of a metric.\<close>

definition metric_values :: "ustring list" where
  "metric_values = known_backends @ known_capabilities @ known_decisions @ known_outcomes @ known_states
     @ known_error_categories @ map S [''accepted'', ''replayed'', ''conflict'', ''other'', ''save'']"

definition metric_bounded :: "metric \<Rightarrow> bool" where
  "metric_bounded m \<longleftrightarrow> list_all (\<lambda>(k, v). v \<in> set metric_values) (snd m)"

lemma known_or_metric:
  "set vocabulary \<subseteq> set metric_values \<Longrightarrow> S other \<in> set metric_values \<Longrightarrow> known_or vocabulary other v \<in> set metric_values"
  by (auto simp: known_or_def)

lemma vocabulary_values:
  "set known_states \<subseteq> set metric_values" "set known_outcomes \<subseteq> set metric_values"
  "set known_decisions \<subseteq> set metric_values" "set known_capabilities \<subseteq> set metric_values"
  "set known_backends \<subseteq> set metric_values" "set known_error_categories \<subseteq> set metric_values"
  "set (map S [''accepted'', ''replayed'', ''conflict'']) \<subseteq> set metric_values"
  by (simp_all only: metric_values_def set_append) auto

lemma default_values:
  "S ''unknown'' \<in> set metric_values" "S ''error'' \<in> set metric_values" "S ''other'' \<in> set metric_values"
  "S ''internal_error'' \<in> set metric_values" "S ''save'' \<in> set metric_values"
  by (simp_all add: metric_values_def known_states_def known_outcomes_def known_error_categories_def)

lemma metric_value_simps:
  "known_or known_states ''unknown'' v \<in> set metric_values"
  "known_or known_outcomes ''error'' v \<in> set metric_values"
  "known_or known_decisions ''unknown'' v \<in> set metric_values"
  "known_or known_capabilities ''other'' v \<in> set metric_values"
  "known_or (map S [''accepted'', ''replayed'', ''conflict'']) ''error'' v \<in> set metric_values"
  "bounded_backend v \<in> set metric_values" "bounded_error_category v \<in> set metric_values"
  "S ''save'' \<in> set metric_values"
  unfolding bounded_backend_def bounded_error_category_def
  by (intro known_or_metric vocabulary_values default_values)+

lemma metric_attributes_bounded:
  "list_all (\<lambda>(k, v). v \<in> set metric_values) base \<Longrightarrow>
   list_all (\<lambda>(k, v). v \<in> set metric_values) (metric_attributes base category)"
proof (cases category)
  case (Some c)
  assume base: "list_all (\<lambda>(k, v). v \<in> set metric_values) base"
  have upd: "v = y \<or> (k, v) \<in> set base" if "(k, v) \<in> set (AList.update x y base)" for k v x y
    using that by (induction base) (auto split: if_splits)
  with base Some show ?thesis
    by (auto simp: metric_attributes_def dict_set_def list_all_iff metric_value_simps dest!: upd)
qed (simp add: metric_attributes_def)

lemma recorded_bounded:
  "metric_bounded (record_transition a b c d)" "metric_bounded (record_idempotency a)"
  "metric_bounded (record_submission a b d)" "metric_bounded (record_reconciliation a b d)"
  "metric_bounded (record_stale a)" "metric_bounded (record_recovery_required a b)"
  "metric_bounded (record_processing a b d)" "metric_bounded (record_backend a b c d)"
  "metric_bounded (record_persistence a d)"
  unfolding metric_bounded_def record_transition_def record_idempotency_def record_submission_def
    record_reconciliation_def record_stale_def record_recovery_required_def record_processing_def
    record_backend_def record_persistence_def snd_conv
  by (rule metric_attributes_bounded | simp only: list.pred_inject prod.case metric_value_simps simp_thms)+

section \<open>Log events and exported spans\<close>

text \<open>\<open>JsonEventLogger.emit\<close>: the object that is logged, from the event's name, the level name,
  the fields given (None is \<open>JNull\<close>), the context, the time stamp and the identifiers of the
  current span when it is valid.\<close>

definition opt_member :: "ustring \<Rightarrow> ustring option \<Rightarrow> (ustring, json) dict \<Rightarrow> (ustring, json) dict" where
  "opt_member k v d = (case v of None \<Rightarrow> d | Some s \<Rightarrow> dict_set k (JStr s) d)"

definition emit_payload ::
  "ustring \<Rightarrow> ustring \<Rightarrow> (ustring \<times> json) list \<Rightarrow> context_vars \<Rightarrow> ustring \<Rightarrow> (nat \<times> nat) option \<Rightarrow> exn + (ustring, json) dict"
where
  "emit_payload event level given ctx timestamp span_ids =
     (if \<not> set (map fst given) \<subseteq> set event_fields then Inl ValueError
      else
        let base = [(S ''schema_version'', JStr (S ''1'')), (S ''timestamp'', JStr timestamp),
                    (S ''level'', JStr level), (S ''event'', JStr event)];
            correlated = opt_member (S ''attempt_id'') (cv_attempt_id ctx)
              (opt_member (S ''processing_id'') (cv_processing_id ctx)
              (opt_member (S ''request_id'') (cv_request_id ctx) base));
            traced = (case span_ids of None \<Rightarrow> correlated
              | Some (trace_id, span_id) \<Rightarrow>
                  dict_set (S ''span_id'') (JStr (hex_fix 16 span_id))
                    (dict_set (S ''trace_id'') (JStr (hex_fix 32 trace_id)) correlated))
        in Inr (foldl (\<lambda>d (k, v). dict_set k v d) traced (filter (\<lambda>(k, v). v \<noteq> JNull) given)))"

text \<open>\<open>_SanitizedReadableSpan\<close>: the attributes of a span that reach an exporter.\<close>

definition sanitize_attributes :: "(ustring \<times> 'v) list \<Rightarrow> (ustring \<times> 'v) list" where
  "sanitize_attributes attributes = filter (\<lambda>(k, v). k \<in> set safe_span_attributes) attributes"

end
