(* ===== verification/Samples.thy ===== *)
theory Samples
  imports Domain Utf8
begin

text \<open>Concrete alerts, on which the properties are exercised.\<close>

text \<open>The second \<open>t\<close> of 2026 in UTC.\<close>

definition sample_time :: "nat \<Rightarrow> datetime" where
  "sample_time t = \<lparr>dt_local = 739616 * us_per_day + int t * 1000000, dt_offset = Some 0\<rparr>"

definition sample_alert :: "severity \<Rightarrow> string \<Rightarrow> canonical_alert" where
  "sample_alert sev rule =
     \<lparr>al_detection = \<lparr>di_identifier = S rule, di_name = Some (S ''Encoded command'')\<rparr>,
      al_detected_at = sample_time 0,
      al_source = \<lparr>sp_source = S ''splunk'', sp_source_alert_id = Some (S ''42'')\<rparr>,
      al_entities = [\<lparr>en_kind = S ''host'', en_value = S ''WS-1''\<rparr>], al_severity = sev,
      al_evidence = [\<lparr>er_reference = S ''search/1'', er_kind = None\<rparr>]\<rparr>"

definition high_alert :: canonical_alert where "high_alert = sample_alert HIGH ''R1''"

definition low_alert :: canonical_alert where "low_alert = sample_alert LOW ''R1''"

text \<open>The high alert with its detection time given in another zone.\<close>

definition zoned_alert :: canonical_alert where
  "zoned_alert = high_alert\<lparr>al_detected_at :=
     \<lparr>dt_local = 739616 * us_per_day + 3600000000, dt_offset = Some 3600000000\<rparr>\<rparr>"

definition sample_key :: ustring where "sample_key = S ''key-1''"

lemmas sample_defs = high_alert_def low_alert_def zoned_alert_def sample_alert_def

lemma sample_time_simps [simp]:
  "aware (sample_time t)" "dt_less (sample_time t) (sample_time u) \<longleftrightarrow> t < u"
  "instant (sample_time t) = 739616 * us_per_day + int t * 1000000"
  by (simp_all add: sample_time_def aware_def dt_less_def instant_def)

lemma sample_text:
  "nonblank (S ''R1'')" "nonblank (S ''Encoded command'')" "nonblank (S ''splunk'')" "nonblank (S ''42'')"
  "nonblank (S ''host'')" "nonblank (S ''WS-1'')" "nonblank (S ''search/1'')" "nonblank (S ''key-1'')"
  by (simp_all add: S_def is_space_def)

lemma sample_alerts_ok: "alert_ok high_alert" "alert_ok low_alert"
  by (simp_all add: sample_defs alert_ok_def detection_ok_def source_ok_def entity_ok_def evidence_ok_def
      sample_text dt_ok_def sample_time_def max_us_def us_per_day_def aware_def)

end
