(* ===== verification/Sha256.thy ===== *)
theory Sha256
  imports Pystr
begin

text \<open>
  \<open>hashlib.sha256\<close> and \<open>hmac.new(key, msg, sha256)\<close> (FIPS 180-4, RFC 2104) on 32-bit words,
  whose \<open>+\<close> wraps. The digest always has 32 bytes.
\<close>

unbundle bit_operations_syntax

type_synonym w32 = "32 word"

definition rotr32 :: "nat \<Rightarrow> w32 \<Rightarrow> w32" where
  "rotr32 n x = drop_bit n x OR push_bit (32 - n) x"

definition ch32 :: "w32 \<Rightarrow> w32 \<Rightarrow> w32 \<Rightarrow> w32" where
  "ch32 x y z = (x AND y) XOR (NOT x AND z)"

definition maj32 :: "w32 \<Rightarrow> w32 \<Rightarrow> w32 \<Rightarrow> w32" where
  "maj32 x y z = (x AND y) XOR (x AND z) XOR (y AND z)"

definition big_sigma0 :: "w32 \<Rightarrow> w32" where
  "big_sigma0 x = rotr32 2 x XOR rotr32 13 x XOR rotr32 22 x"

definition big_sigma1 :: "w32 \<Rightarrow> w32" where
  "big_sigma1 x = rotr32 6 x XOR rotr32 11 x XOR rotr32 25 x"

definition small_sigma0 :: "w32 \<Rightarrow> w32" where
  "small_sigma0 x = rotr32 7 x XOR rotr32 18 x XOR drop_bit 3 x"

definition small_sigma1 :: "w32 \<Rightarrow> w32" where
  "small_sigma1 x = rotr32 17 x XOR rotr32 19 x XOR drop_bit 10 x"

text \<open>
  The constants are nothing up the sleeve: the first 32 bits of the fractional parts of the cube
  roots of the first 64 primes, and of the square roots of the first eight. \<open>root_bits k n i a\<close> is
  the greatest \<open>b\<close> with \<open>b ^ k \<le> n\<close> that extends \<open>a\<close> by \<open>i\<close> further bits.
\<close>

primrec root_bits :: "nat \<Rightarrow> nat \<Rightarrow> nat \<Rightarrow> nat \<Rightarrow> nat" where
  "root_bits k n 0 a = a"
| "root_bits k n (Suc i) a = (let b = a + 2 ^ i in root_bits k n i (if b ^ k \<le> n then b else a))"

definition root_fraction :: "nat \<Rightarrow> nat \<Rightarrow> w32" where
  \<comment> \<open>\<open>of_nat\<close> keeps the lower 32 bits of the scaled root; the integer part is below 16\<close>
  "root_fraction k p = of_nat (root_bits k (p * 2 ^ (32 * k)) 36 0)"

definition primes_below :: "nat \<Rightarrow> nat list" where
  "primes_below n = filter (\<lambda>p. list_all (\<lambda>d. p mod d \<noteq> 0) [2..<p]) [2..<n]"

definition round_constants :: "w32 list" where
  "round_constants = map (root_fraction 3) (primes_below 312)"

definition initial_hash :: "w32 list" where
  "initial_hash = map (root_fraction 2) [2, 3, 5, 7, 11, 13, 17, 19]"

text \<open>The message schedule: the last 16 words are enough to make the next one.\<close>

primrec schedule :: "nat \<Rightarrow> w32 list \<Rightarrow> w32 list" where
  "schedule 0 ws = ws"
| "schedule (Suc n) ws =
     (let t = length ws
      in schedule n (ws @ [small_sigma1 (ws ! (t - 2)) + ws ! (t - 7) + small_sigma0 (ws ! (t - 15)) + ws ! (t - 16)]))"

fun sha_round :: "w32 list \<Rightarrow> w32 \<times> w32 \<Rightarrow> w32 list" where
  "sha_round [a, b, c, d, e, f, g, h] (k, w) =
     (let t1 = h + big_sigma1 e + ch32 e f g + k + w; t2 = big_sigma0 a + maj32 a b c
      in [t1 + t2, a, b, c, d + t1, e, f, g])"
| "sha_round s _ = s"

definition compress :: "w32 list \<Rightarrow> w32 list \<Rightarrow> w32 list" where
  "compress hs block = map2 (+) hs (foldl sha_round hs (zip round_constants (schedule 48 block)))"

definition be_word :: "bytes \<Rightarrow> w32" where
  "be_word bs = foldl (\<lambda>a b. push_bit 8 a OR ucast b) 0 bs"

definition be_bytes :: "nat \<Rightarrow> nat \<Rightarrow> bytes" where
  "be_bytes w n = map of_nat (fix_digits 256 w n)"

fun chunks :: "nat \<Rightarrow> 'a list \<Rightarrow> 'a list list" where
  "chunks n [] = []"
| "chunks n (x # xs) = take (Suc n) (x # xs) # chunks n (drop n xs)"

definition sha_pad :: "bytes \<Rightarrow> bytes" where
  "sha_pad m =
     (let z = (119 - length m mod 64) mod 64
      in m @ [0x80] @ replicate z 0 @ be_bytes 8 (8 * length m))"

definition sha256 :: "bytes \<Rightarrow> bytes" where
  "sha256 m =
     concat (map (\<lambda>h. be_bytes 4 (unat h))
       (foldl compress initial_hash (map (\<lambda>b. map be_word (chunks 3 b)) (chunks 63 (sha_pad m)))))"

lemma length_sha_round [simp]: "length (sha_round s kw) = length s"
  by (cases "(s, kw)" rule: sha_round.cases) (simp_all add: Let_def)

lemma length_compress [simp]: "length (compress hs b) = length hs"
proof -
  have "length (foldl sha_round s kws) = length s" for s kws
    by (induction kws arbitrary: s) simp_all
  then show ?thesis by (simp add: compress_def)
qed

lemma length_sha256 [simp]: "length (sha256 m) = 32"
proof -
  have "length (foldl compress hs bs) = length hs" for hs bs
    by (induction bs arbitrary: hs) simp_all
  then show ?thesis
    by (simp add: sha256_def length_concat be_bytes_def o_def sum_list_triv initial_hash_def)
qed

text \<open>The padded message is a whole number of 64-byte blocks.\<close>

lemma sha_pad_blocks: "64 dvd length (sha_pad m)"
proof -
  have "64 dvd n + 9 + (119 - n mod 64) mod 64" for n :: nat
  proof -
    define q r where "q = n div 64" and "r = n mod 64"
    have n: "n = 64 * q + r" "r < 64" by (simp_all add: q_def r_def)
    have "(119 - r) mod 64 = (if r \<le> 55 then 55 - r else 119 - r)"
      by (cases "r \<le> 55") (simp_all add: mod_if)
    then have "n + 9 + (119 - r) mod 64 = 64 * (q + (if r \<le> 55 then 1 else 2))"
      using n by (simp split: if_splits)
    then show ?thesis unfolding r_def by (metis dvd_triv_left)
  qed
  from this [of "length m"] show ?thesis by (simp add: sha_pad_def be_bytes_def Let_def ac_simps)
qed

section \<open>HMAC\<close>

definition hmac_key :: "bytes \<Rightarrow> bytes" where
  "hmac_key k = (let k' = (if 64 < length k then sha256 k else k) in k' @ replicate (64 - length k') 0)"

definition hmac_sha256 :: "bytes \<Rightarrow> bytes \<Rightarrow> bytes" where
  "hmac_sha256 k m =
     sha256 (map ((XOR) 0x5c) (hmac_key k) @ sha256 (map ((XOR) 0x36) (hmac_key k) @ m))"

lemma length_hmac_sha256 [simp]: "length (hmac_sha256 k m) = 32"
  by (simp add: hmac_sha256_def)

definition hex_bytes :: "bytes \<Rightarrow> ustring" where
  "hex_bytes bs = concat (map (\<lambda>b. hex_fix 2 (unat b)) bs)"

lemma length_hex_bytes [simp]: "length (hex_bytes bs) = 2 * length bs"
  by (induction bs) (simp_all add: hex_bytes_def)

end
