(* ===== verification/Fingerprint.thy ===== *)
theory Fingerprint
  imports Samples Json Sha256
begin

text \<open>
  \<open>application/fingerprinting.py\<close>: the canonical document of an alert, its serialized bytes and
  the SHA-256 fingerprint that idempotent acceptance compares. The bytes identify the alert:
  two alerts have the same bytes exactly when Python's \<open>==\<close> holds of them.
\<close>

definition fingerprint_version :: int where "fingerprint_version = 1"

definition fingerprint_schema :: ustring where
  "fingerprint_schema = S ''alert2ir.canonical-alert-fingerprint.v1''"

definition json_opt :: "ustring option \<Rightarrow> json" where
  "json_opt s = (case s of None \<Rightarrow> JNull | Some t \<Rightarrow> JStr t)"

definition canonical_fingerprint_document :: "canonical_alert \<Rightarrow> exn + json" where
  "canonical_fingerprint_document al =
     and_then (astimezone_utc OverflowError (al_detected_at al)) (\<lambda>detected_at.
     Inr (JObj
       [(S ''schema'', JStr fingerprint_schema),
        (S ''detection'', JObj
          [(S ''identifier'', JStr (di_identifier (al_detection al))),
           (S ''name'', json_opt (di_name (al_detection al)))]),
        (S ''detected_at'', JStr (utc_text detected_at)),
        (S ''source'', JObj
          [(S ''source'', JStr (sp_source (al_source al))),
           (S ''source_alert_id'', json_opt (sp_source_alert_id (al_source al)))]),
        (S ''entities'', JArr (map (\<lambda>e. JObj
          [(S ''kind'', JStr (en_kind e)), (S ''value'', JStr (en_value e))]) (al_entities al))),
        (S ''severity'', JStr (severity_value (al_severity al))),
        (S ''evidence'', JArr (map (\<lambda>e. JObj
          [(S ''reference'', JStr (er_reference e)), (S ''kind'', json_opt (er_kind e))])
          (al_evidence al)))]))"

definition canonical_fingerprint_bytes :: "canonical_alert \<Rightarrow> exn + bytes" where
  "canonical_fingerprint_bytes al =
     and_then (canonical_fingerprint_document al) (\<lambda>d. encode_utf8 UnicodeEncodeError (dumps d))"

definition fingerprint_canonical_alert :: "canonical_alert \<Rightarrow> exn + int \<times> bytes" where
  "fingerprint_canonical_alert al =
     and_then (canonical_fingerprint_bytes al) (\<lambda>b. Inr (fingerprint_version, sha256 b))"

lemma json_opt_inj [simp]: "sort_json (json_opt s) = sort_json (json_opt t) \<longleftrightarrow> s = t"
  by (cases s; cases t) (simp_all add: json_opt_def)

lemma map_eq_pointwise:
  "(\<And>x y. f x = f y \<longleftrightarrow> x = y) \<Longrightarrow> map f xs = map f ys \<longleftrightarrow> xs = ys"
  by (intro inj_map_eq_map injI) simp

lemma entity_json_inj:
  "sort_json (JObj [(S ''kind'', JStr (en_kind a)), (S ''value'', JStr (en_value a))])
     = sort_json (JObj [(S ''kind'', JStr (en_kind b)), (S ''value'', JStr (en_value b))]) \<longleftrightarrow> a = b" for a b :: entity
  by (subst sort_json_obj_eq) (auto intro: entity.equality)

lemma evidence_json_inj:
  "sort_json (JObj [(S ''reference'', JStr (er_reference a)), (S ''kind'', json_opt (er_kind a))])
     = sort_json (JObj [(S ''reference'', JStr (er_reference b)), (S ''kind'', json_opt (er_kind b))]) \<longleftrightarrow> a = b" for a b :: evidence_reference
  by (subst sort_json_obj_eq) (auto intro: evidence_reference.equality)

lemma detection_json_inj:
  "sort_json (JObj [(S ''identifier'', JStr (di_identifier a)), (S ''name'', json_opt (di_name a))])
     = sort_json (JObj [(S ''identifier'', JStr (di_identifier b)), (S ''name'', json_opt (di_name b))]) \<longleftrightarrow> a = b" for a b :: detection_identity
  by (subst sort_json_obj_eq) (auto intro: detection_identity.equality)

lemma source_json_inj:
  "sort_json (JObj [(S ''source'', JStr (sp_source a)), (S ''source_alert_id'', json_opt (sp_source_alert_id a))])
     = sort_json (JObj [(S ''source'', JStr (sp_source b)), (S ''source_alert_id'', json_opt (sp_source_alert_id b))])
   \<longleftrightarrow> a = b" for a b :: source_provenance
  by (subst sort_json_obj_eq) (auto intro: source_provenance.equality)

lemma array_json_inj:
  assumes "\<And>x y. sort_json (f x) = sort_json (f y) \<longleftrightarrow> x = y"
  shows "sort_json (JArr (map f xs)) = sort_json (JArr (map f ys)) \<longleftrightarrow> xs = ys"
  using assms map_eq_pointwise [of "sort_json \<circ> f"] by simp

lemmas document_inj =
  entity_json_inj evidence_json_inj detection_json_inj source_json_inj
  array_json_inj [OF entity_json_inj] array_json_inj [OF evidence_json_inj]

lemma document_eq_iff:
  assumes "canonical_fingerprint_document a = Inr x" "canonical_fingerprint_document b = Inr y"
    and "aware (al_detected_at a)" "aware (al_detected_at b)"
  shows "sort_json x = sort_json y \<longleftrightarrow> alert_eq a b"
proof -
  obtain ta where ta: "astimezone_utc OverflowError (al_detected_at a) = Inr ta"
    using assms(1) by (auto simp: canonical_fingerprint_document_def and_then_Inr)
  obtain tb where tb: "astimezone_utc OverflowError (al_detected_at b) = Inr tb"
    using assms(2) by (auto simp: canonical_fingerprint_document_def and_then_Inr)
  have time: "utc_text ta = utc_text tb \<longleftrightarrow> dt_eq (al_detected_at a) (al_detected_at b)"
    using isoformat_utc_inj [OF ta tb] assms(3,4) by (simp add: dt_eq_def)
  show ?thesis
    using assms(1,2) unfolding canonical_fingerprint_document_def ta tb and_then_simps
    by (auto simp: sort_json_obj_eq alert_eq_def time document_inj simp del: sort_json.simps(5,6))
qed

section \<open>When an alert has a fingerprint\<close>

fun json_encodable :: "json \<Rightarrow> bool" where
  "json_encodable (JStr s) \<longleftrightarrow> list_all encodable s"
| "json_encodable (JArr vs) \<longleftrightarrow> (\<forall>v \<in> set vs. json_encodable v)"
| "json_encodable (JObj ms) \<longleftrightarrow> (\<forall>(k, v) \<in> set ms. list_all encodable k \<and> json_encodable v)"
| "json_encodable _ \<longleftrightarrow> True"

lemma ascii_encodable: "c < 128 \<Longrightarrow> encodable c"
  by (simp add: encodable_def)

lemma S_encodable [simp]: "list_all encodable (S s)"
  by (auto simp: S_def list_all_iff encodable_def of_char_def char_of_def split: char.splits)

lemma S_encodable_ball [simp]: "\<forall>c \<in> set (S s). encodable c"
  using S_encodable by (simp only: list_all_iff)

lemma hex_fix_encodable: "list_all encodable (hex_fix w n)"
proof -
  have "encodable (hex_char d)" if "d < 16" for d using that by (simp add: hex_char_def encodable_def)
  then show ?thesis by (auto simp: hex_fix_def list_all_iff dest: fix_digits_less [rotated])
qed

lemma escape_encodable: "list_all encodable (escape_cp c) \<longleftrightarrow> encodable c"
  using hex_fix_encodable [of 4 c] by (auto simp: escape_cp_def encodable_def)

lemma quote_encodable: "list_all encodable (quote s) \<longleftrightarrow> list_all encodable s"
  using escape_encodable by (induction s) (auto simp: quote_def encodable_def list_all_iff)

lemma dec_int_encodable: "list_all encodable (dec_int i)"
proof -
  have "list_all encodable (dec_nat n)" for n
    using dec_nat_digits [of _ n] by (fastforce simp: list_all_iff is_digit_def encodable_def)
  then show ?thesis by (simp add: dec_int_def encodable_def)
qed

lemma print_json_encodable:
  "list_all encodable (print_json v) \<longleftrightarrow> json_encodable v"
  "list_all encodable (print_elems vs) \<longleftrightarrow> (\<forall>v \<in> set vs. json_encodable v)"
  "list_all encodable (print_members ms) \<longleftrightarrow> (\<forall>(k, v) \<in> set ms. list_all encodable k \<and> json_encodable v)"
proof (induction v and vs and ms rule: print_json_print_elems_print_members.induct)
qed (auto simp: quote_encodable dec_int_encodable ascii_encodable)

lemma sort_json_encodable: "json_encodable (sort_json v) \<longleftrightarrow> json_encodable v"
  by (induction v rule: json_encodable.induct) auto

lemma dumps_encodable: "list_all encodable (dumps v) \<longleftrightarrow> json_encodable v"
  by (simp add: dumps_def print_json_encodable sort_json_encodable)

text \<open>The strings of an alert, and the range of its detection time in UTC.\<close>

definition opt_encodable :: "ustring option \<Rightarrow> bool" where
  "opt_encodable s = (case s of None \<Rightarrow> True | Some t \<Rightarrow> list_all encodable t)"

definition alert_encodable :: "canonical_alert \<Rightarrow> bool" where
  "alert_encodable a \<longleftrightarrow>
     list_all encodable (di_identifier (al_detection a)) \<and> opt_encodable (di_name (al_detection a))
     \<and> list_all encodable (sp_source (al_source a)) \<and> opt_encodable (sp_source_alert_id (al_source a))
     \<and> list_all (\<lambda>e. list_all encodable (en_kind e) \<and> list_all encodable (en_value e)) (al_entities a)
     \<and> list_all (\<lambda>e. list_all encodable (er_reference e) \<and> opt_encodable (er_kind e)) (al_evidence a)"

definition utc_in_range :: "datetime \<Rightarrow> bool" where
  "utc_in_range d \<longleftrightarrow> 0 \<le> instant d \<and> instant d < max_us"

lemma json_opt_encodable: "json_encodable (json_opt s) \<longleftrightarrow> opt_encodable s"
  by (simp add: json_opt_def opt_encodable_def split: option.splits)

lemma iso_reading_ascii: "c \<in> set (iso_reading t) \<Longrightarrow> c < 128"
  by (fastforce simp: iso_reading_def Let_def split: prod.splits dest: pad_digits)

lemma utc_text_encodable: "list_all encodable (utc_text (utc t))"
  using iso_reading_ascii [of _ "nat t"] by (auto simp: utc_text_utc list_all_iff S_def intro: ascii_encodable)

lemma severity_encodable: "list_all encodable (severity_value s)"
  by (cases s) simp_all

lemma fingerprint_bytes_cases:
  "canonical_fingerprint_bytes a =
     (if \<not> utc_in_range (al_detected_at a) then Inl OverflowError
      else if \<not> alert_encodable a then Inl UnicodeEncodeError
      else Inr (utf8_bytes (dumps (projr (canonical_fingerprint_document a)))))"
proof (cases "utc_in_range (al_detected_at a)")
  case True
  then have "astimezone_utc OverflowError (al_detected_at a) = Inr (utc (instant (al_detected_at a)))"
    by (simp add: astimezone_utc_def utc_in_range_def)
  moreover obtain d where "canonical_fingerprint_document a = Inr d" "json_encodable d \<longleftrightarrow> alert_encodable a"
    using True calculation utc_text_encodable [of "instant (al_detected_at a)"]
    severity_encodable [of "al_severity a"]
    by (auto simp: canonical_fingerprint_document_def json_opt_encodable alert_encodable_def
        fingerprint_schema_def list_all_iff)
  ultimately show ?thesis
    using True by (simp add: canonical_fingerprint_bytes_def encode_utf8_def dumps_encodable)
next
  case False
  then have "astimezone_utc OverflowError (al_detected_at a) = Inl OverflowError"
    by (auto simp: astimezone_utc_def utc_in_range_def)
  with False show ?thesis by (simp add: canonical_fingerprint_bytes_def canonical_fingerprint_document_def)
qed

lemma fingerprint_defined:
  "utc_in_range (al_detected_at a) \<Longrightarrow> alert_encodable a \<Longrightarrow>
   \<exists>dg. fingerprint_canonical_alert a = Inr (fingerprint_version, dg) \<and> length dg = 32"
  by (simp add: fingerprint_canonical_alert_def fingerprint_bytes_cases)

lemma sample_times_in_range: "utc_in_range (al_detected_at high_alert)" "utc_in_range (al_detected_at low_alert)"
    "utc_in_range (al_detected_at zoned_alert)"
  by (simp_all add: utc_in_range_def sample_defs max_us_def us_per_day_def) (simp_all add: instant_def)

lemma sample_alerts_encodable: "alert_encodable high_alert" "alert_encodable low_alert" "alert_encodable zoned_alert"
  by (simp_all add: alert_encodable_def sample_defs opt_encodable_def)

lemmas sample_fingerprints =
  fingerprint_defined [OF sample_times_in_range(1) sample_alerts_encodable(1)]
  fingerprint_defined [OF sample_times_in_range(2) sample_alerts_encodable(2)]

section \<open>Properties\<close>

text \<open>C27: The bytes that are hashed identify the alert: two alerts serialize to the same bytes
  exactly when they are equal as Python compares them, with equal instants of detection.\<close>

theorem fingerprint_bytes_identify_alert:
  assumes "canonical_fingerprint_bytes a = Inr x" "canonical_fingerprint_bytes b = Inr y"
    and "aware (al_detected_at a)" "aware (al_detected_at b)"
  shows "x = y \<longleftrightarrow> alert_eq a b"
proof -
  obtain da where da: "canonical_fingerprint_document a = Inr da" "encode_utf8 UnicodeEncodeError (dumps da) = Inr x"
    using assms(1) by (auto simp: canonical_fingerprint_bytes_def and_then_Inr)
  obtain db where db: "canonical_fingerprint_document b = Inr db" "encode_utf8 UnicodeEncodeError (dumps db) = Inr y"
    using assms(2) by (auto simp: canonical_fingerprint_bytes_def and_then_Inr)
  have "x = y \<longleftrightarrow> dumps da = dumps db" using da db encode_utf8_inj by fastforce
  then show ?thesis using document_eq_iff [OF da(1) db(1) assms(3,4)] by (simp add: dumps_eq_iff)
qed

theorem fingerprint_bytes_identify_alert_witness:
  "canonical_fingerprint_bytes zoned_alert = canonical_fingerprint_bytes high_alert
   \<and> canonical_fingerprint_bytes low_alert \<noteq> canonical_fingerprint_bytes high_alert"
proof -
  obtain x y z where b: "canonical_fingerprint_bytes high_alert = Inr x" "canonical_fingerprint_bytes low_alert = Inr y"
    "canonical_fingerprint_bytes zoned_alert = Inr z"
    by (simp add: fingerprint_bytes_cases sample_times_in_range sample_alerts_encodable)
  have w: "aware (al_detected_at high_alert)" "aware (al_detected_at low_alert)" "aware (al_detected_at zoned_alert)"
    by (simp_all add: sample_defs) (simp add: aware_def)
  have "alert_eq zoned_alert high_alert" "\<not> alert_eq low_alert high_alert"
    by (simp_all add: alert_eq_def sample_defs dt_eq_def) (simp add: instant_def aware_def us_per_day_def)
  then show ?thesis
    using fingerprint_bytes_identify_alert [OF b(3,1) w(3,1)] fingerprint_bytes_identify_alert [OF b(2,1) w(2,1)]
    by (simp add: b)
qed

text \<open>C33: Fingerprinting fails exactly when the detection time leaves the years 1 to 9999 in UTC, or
  else a string has no UTF-8 encoding; otherwise it gives version 1 and 32 bytes.\<close>

theorem fingerprint_outcome:
  "case fingerprint_canonical_alert a of
     Inl e \<Rightarrow> (e = OverflowError \<and> \<not> utc_in_range (al_detected_at a))
        \<or> (e = UnicodeEncodeError \<and> utc_in_range (al_detected_at a) \<and> \<not> alert_encodable a)
   | Inr (v, dg) \<Rightarrow> v = 1 \<and> length dg = 32 \<and> utc_in_range (al_detected_at a) \<and> alert_encodable a"
  by (simp add: fingerprint_canonical_alert_def fingerprint_bytes_cases fingerprint_version_def)

theorem fingerprint_outcome_witness:
  "\<exists>dg. fingerprint_canonical_alert high_alert = Inr (1, dg) \<and> length dg = 32"
  using fingerprint_outcome [of high_alert] sample_times_in_range(1) sample_alerts_encodable(1)
  by (auto split: sum.splits)

end
