(* ===== verification/Processor.thy ===== *)
theory Processor
  imports Telemetry Fingerprint
begin

text \<open>
  \<open>application/processing.py\<close>: \<open>PersistentAlertProcessor\<close>.

  A method is a program on a world: the durable store, a step counter, the trace of its
  claims and backend calls, the backend calls again with the step of each, the metrics it
  recorded and its correlation context. Everything
  it cannot control is an environment indexed by the step: the clocks, the fresh identifiers,
  what other threads and processes do to the store before each of its repository calls, and
  whether that call fails, before taking effect or after it (a connection lost once the
  transaction is committed). One repository call is one atomic step.
\<close>

datatype fault = F_none | F_before exn | F_after exn

record env =
  e_orchestrator :: orchestrator
  e_others :: "nat \<Rightarrow> (repo_op \<times> datetime) list"
  e_fault :: "nat \<Rightarrow> fault"
  e_now :: "nat \<Rightarrow> datetime"
  e_wall_clock :: "nat \<Rightarrow> datetime"
  e_monotonic :: "nat \<Rightarrow> rat"
  e_fresh :: "nat \<Rightarrow> uuid"

text \<open>\<open>Ev_claim own a\<close> is a successful claim, by this processor or by another.\<close>

datatype event =
    Ev_claim bool uuid
  | Ev_submit uuid ustring uuid "rat option"
  | Ev_poll uuid ustring ustring "rat option"
  | Ev_collect uuid ustring ustring

record 's world =
  w_repo :: 's
  w_step :: nat
  w_events :: "event list"
  w_calls :: "(nat \<times> event) list"
  w_metrics :: "metric list"
  w_context :: context_vars

type_synonym ('s, 'a) action = "('s world, exn, 'a) prog"

section \<open>Primitive actions\<close>

definition emit :: "metric \<Rightarrow> ('s, unit) action" where
  "emit m = modify (\<lambda>w. w\<lparr>w_metrics := w_metrics w @ [m]\<rparr>)"

definition trace :: "event \<Rightarrow> ('s, unit) action" where
  "trace ev = modify (\<lambda>w. w\<lparr>w_events := w_events w @ [ev]\<rparr>)"

definition context_do :: "(context_vars \<Rightarrow> context_vars) \<Rightarrow> ('s, unit) action" where
  "context_do f = modify (\<lambda>w. w\<lparr>w_context := f (w_context w)\<rparr>)"

text \<open>Reading an input of the environment takes a step.\<close>

definition observe :: "(nat \<Rightarrow> 'a) \<Rightarrow> ('s, 'a) action" where
  "observe f w = (Inr (f (w_step w)), w\<lparr>w_step := Suc (w_step w)\<rparr>)"

text \<open>Calling a backend operation takes a step too, which is recorded with the call.\<close>

definition trace_call :: "event \<Rightarrow> ('s, unit) action" where
  "trace_call ev = modify (\<lambda>w. w\<lparr>w_events := w_events w @ [ev], w_calls := w_calls w @ [(w_step w, ev)]\<rparr>)"

definition backend_call :: "event \<Rightarrow> (nat \<Rightarrow> exn + 'a) \<Rightarrow> ('s, 'a) action" where
  "backend_call ev f = then_do (trace_call ev) (bind (observe f) lift)"

text \<open>What the others do; their successful claims are put on the trace.\<close>

fun claims_of :: "'s repository \<Rightarrow> repo_op \<Rightarrow> datetime \<Rightarrow> 's \<Rightarrow> event list" where
  "claims_of R (Op_claim a) now s =
     (case fst (rp_claim_attempt_for_submission R a now s) of Inr (Some _) \<Rightarrow> [Ev_claim False a] | _ \<Rightarrow> [])"
| "claims_of R _ now s = []"

fun run_others :: "'s repository \<Rightarrow> (repo_op \<times> datetime) list \<Rightarrow> 's world \<Rightarrow> 's world" where
  "run_others R [] w = w"
| "run_others R ((c, now) # cs) w =
     run_others R cs (w\<lparr>w_repo := exec_op R c now (w_repo w), w_events := w_events w @ claims_of R c now (w_repo w)\<rparr>)"

text \<open>One repository call; a claim that succeeds is put on the trace.\<close>

definition repo_call :: "'s repository \<Rightarrow> env \<Rightarrow> ('s, 'a) op \<Rightarrow> ('s, 'a) action" where
  "repo_call R E c w =
     (let t = w_step w; w1 = (run_others R (e_others E t) w)\<lparr>w_step := Suc t\<rparr>
      in case e_fault E t of
           F_before e \<Rightarrow> (Inl e, w1)
         | F_none \<Rightarrow> (case c (e_now E t) (w_repo w1) of (r, s) \<Rightarrow> (r, w1\<lparr>w_repo := s\<rparr>))
         | F_after e \<Rightarrow> (Inl e, w1\<lparr>w_repo := snd (c (e_now E t) (w_repo w1))\<rparr>))"

definition repo_claim :: "'s repository \<Rightarrow> env \<Rightarrow> uuid \<Rightarrow> ('s, execution_attempt option) action" where
  "repo_claim R E a =
     bind (repo_call R E (rp_claim_attempt_for_submission R a)) (\<lambda>c.
     then_do (case c of None \<Rightarrow> ret () | Some x \<Rightarrow> trace (Ev_claim True (at_attempt_id x)))
     (ret c))"

section \<open>Results\<close>

record processing_outcome =
  po_record :: processing_record
  po_replayed :: bool

record reconciliation_report =
  rr_examined :: nat
  rr_advanced :: nat
  rr_failed :: nat
  rr_time_limit_reached :: bool

definition submitting_stale_after :: int where "submitting_stale_after = 5 * 60 * 1000000"

definition reconciliation_limit :: int where "reconciliation_limit = 25"

definition reconciliation_time_limit_seconds :: rat where "reconciliation_time_limit_seconds = 10"

section \<open>Reading back\<close>

definition reread :: "'s repository \<Rightarrow> env \<Rightarrow> uuid \<Rightarrow> ('s, processing_record) action" where
  "reread R E p =
     bind (repo_call R E (rp_get R p)) (\<lambda>r. case r of None \<Rightarrow> raise PersistenceUnavailableError | Some x \<Rightarrow> ret x)"

text \<open>\<open>_remaining_reconciliation_seconds\<close>, and whether a budget is used up.\<close>

definition remaining_seconds :: "env \<Rightarrow> rat option \<Rightarrow> ('s, rat option) action" where
  "remaining_seconds E deadline =
     (case deadline of None \<Rightarrow> ret None | Some d \<Rightarrow> bind (observe (e_monotonic E)) (\<lambda>t. ret (Some (d - t))))"

definition used_up :: "rat option \<Rightarrow> bool" where
  "used_up remaining \<longleftrightarrow> (case remaining of None \<Rightarrow> False | Some x \<Rightarrow> x \<le> 0)"

text \<open>The pattern after a step that may lose to another: the new record, or else the durable
  one, and a metric when it has reached a state.\<close>

definition durable_or_reread ::
  "'s repository \<Rightarrow> env \<Rightarrow> processing_record option \<Rightarrow> uuid \<Rightarrow> processing_state \<Rightarrow> metric list \<Rightarrow>
   ('s, processing_record) action"
where
  "durable_or_reread R E r p st ms =
     bind (or_else r (reread R E p)) (\<lambda>durable.
     then_do (when_do (pr_state durable = st) (foldr (\<lambda>m k. then_do (emit m) k) ms (ret ())))
     (ret durable))"

definition mark_recovery ::
  "'s repository \<Rightarrow> env \<Rightarrow> execution_attempt \<Rightarrow> attempt_state \<Rightarrow> ustring \<Rightarrow> ustring \<Rightarrow> uuid \<Rightarrow> metric list \<Rightarrow>
   ('s, processing_record) action"
where
  "mark_recovery R E a st category detail p ms =
     bind (repo_call R E (rp_mark_recovery_required R (at_attempt_id a) {st} category detail)) (\<lambda>recovery.
     durable_or_reread R E recovery p RECOVERY_REQUIRED ms)"

section \<open>Backend calls\<close>

definition backend_submit ::
  "execution_attempt \<Rightarrow> backend \<Rightarrow> investigation_request \<Rightarrow> rat option \<Rightarrow> ('s, submitted_operation option) action"
where
  "backend_submit claimed b request timeout =
     (let key = at_operation_key claimed;
          capability = bounded_capability (ir_required_capabilities request)
      in try_except
           (backend_call (Ev_submit (at_attempt_id claimed) (bk_name b) key timeout)
             (\<lambda>t. bk_submit b t request key timeout))
           (\<lambda>e. then_do (emit (record_backend (bk_name b) capability (S ''error'')
                   (Some (if is_submission_rejected e then S ''backend_submission_failed''
                          else S ''backend_submission_unknown''))))
                (raise e))
           (\<lambda>x. then_do (emit (record_backend (bk_name b) capability (S ''success'') None)) (ret x)))"

definition backend_poll ::
  "execution_attempt \<Rightarrow> backend \<Rightarrow> investigation_request \<Rightarrow> ustring \<Rightarrow> rat option \<Rightarrow> ('s, operation_status option) action"
where
  "backend_poll a b request x timeout =
     backend_call (Ev_poll (at_attempt_id a) (bk_name b) x timeout) (\<lambda>t. bk_poll b t request x timeout)"

definition backend_collect ::
  "execution_attempt \<Rightarrow> backend \<Rightarrow> investigation_request \<Rightarrow> ustring \<Rightarrow> ('s, investigation_result) action"
where
  "backend_collect a b request x =
     backend_call (Ev_collect (at_attempt_id a) (bk_name b) x) (\<lambda>t. bk_collect b t request x)"

section \<open>Polling a submitted operation\<close>

text \<open>The collection part of \<open>_poll_submitted\<close>: the body of its last \<open>try\<close>.\<close>

definition collect_result ::
  "processing_record \<Rightarrow> execution_attempt \<Rightarrow> backend \<Rightarrow> ustring \<Rightarrow> investigation_request \<Rightarrow> ustring \<Rightarrow>
   ('s, orchestration_result) action"
where
  "collect_result r a b name request x =
     bind (backend_collect a b request x) (\<lambda>res.
     if rs_backend res \<noteq> name then raise ValueError
     else case (pr_decision r, pr_incident r) of
       (Some d, Some i) \<Rightarrow> lift (mk_orchestration_result d (Some i) (Some request) (Some res))
     | _ \<Rightarrow> raise ValueError)"

definition recovery_metric :: "ustring \<Rightarrow> string \<Rightarrow> metric" where
  "recovery_metric name category = record_recovery_required name (S category)"

definition handle_status ::
  "'s repository \<Rightarrow> env \<Rightarrow> processing_record \<Rightarrow> execution_attempt \<Rightarrow> rat option \<Rightarrow> backend \<Rightarrow> ustring \<Rightarrow>
   investigation_request \<Rightarrow> ustring \<Rightarrow> operation_status \<Rightarrow> ('s, processing_record) action"
where
  "handle_status R E r a deadline b name request x status =
     (let p = pr_processing_id r; aid = at_attempt_id a in
      case os_state status of
        Some NONTERMINAL \<Rightarrow>
          bind (repo_call R E (rp_record_poll R aid (os_remote_state status) None None)) (\<lambda>_. reread R E p)
      | Some OP_FAILED \<Rightarrow>
          bind (repo_call R E (rp_record_poll R aid (os_remote_state status) None None)) (\<lambda>_.
          bind (repo_call R E (rp_fail_processing R p {SUBMITTED} (S ''backend_execution_failed'')
                  (S ''known backend operation reached terminal failure'') (Some aid))) (\<lambda>failed.
          durable_or_reread R E failed p FAILED
            [record_transition (S ''submitted'') (S ''failed'') (S ''error'') (Some (S ''backend_execution_failed''))]))
      | None \<Rightarrow>
          mark_recovery R E a A_SUBMITTED (S ''backend_protocol_error'')
            (S ''known backend operation returned an unknown status'') p
            [recovery_metric name ''backend_protocol_error'']
      | Some SUCCEEDED \<Rightarrow>
          bind (repo_call R E (rp_record_poll R aid (os_remote_state status) None None)) (\<lambda>_.
          bind (remaining_seconds E deadline) (\<lambda>budget.
          if used_up budget then reread R E p
          else try_except (collect_result r a b name request x)
            (\<lambda>_. mark_recovery R E a A_SUBMITTED (S ''backend_protocol_error'')
                   (S ''backend result could not be collected safely'') p
                   [recovery_metric name ''backend_protocol_error''])
            (\<lambda>result.
               bind (repo_call R E (rp_complete_processing R aid result)) (\<lambda>completed.
               durable_or_reread R E completed p COMPLETED
                 [record_transition (S ''submitted'') (S ''completed'') (S ''success'') None])))))"

definition poll_submitted ::
  "'s repository \<Rightarrow> env \<Rightarrow> processing_record \<Rightarrow> execution_attempt \<Rightarrow> rat option \<Rightarrow> ('s, processing_record) action"
where
  "poll_submitted R E r a deadline =
     (let p = pr_processing_id r in
      case (pr_investigation_request r, pr_selected_backend r, at_external_operation_id a) of
        (Some request, Some name, Some x) \<Rightarrow>
          (case backend_for_name (e_orchestrator E) name of
             None \<Rightarrow>
               mark_recovery R E a A_SUBMITTED (S ''recovery_required'') (S ''persisted backend is not configured'') p
                 [recovery_metric name ''recovery_required'']
           | Some b \<Rightarrow>
               bind (remaining_seconds E deadline) (\<lambda>poll_timeout.
               if used_up poll_timeout then ret r
               else try_except
                 (bind (backend_poll a b request x poll_timeout)
                   (\<lambda>status. case status of None \<Rightarrow> raise TypeError | Some st \<Rightarrow> ret st))
                 (\<lambda>e. if e = TimeoutError
                    then bind (repo_call R E (rp_record_poll R (at_attempt_id a) (S ''timeout'')
                           (Some (S ''backend_timeout'')) (Some (S ''known backend operation poll timed out''))))
                           (\<lambda>_. reread R E p)
                    else mark_recovery R E a A_SUBMITTED (S ''backend_protocol_error'')
                           (S ''known backend operation status was not safely interpretable'') p
                           [recovery_metric name ''backend_protocol_error''])
                 (handle_status R E r a deadline b name request x)))
      | _ \<Rightarrow>
          mark_recovery R E a A_SUBMITTED (S ''recovery_required'') (S ''submitted execution metadata is incomplete'') p
            [recovery_metric (case pr_selected_backend r of None \<Rightarrow> S ''other''
                | Some n \<Rightarrow> if n = [] then S ''other'' else n) ''recovery_required''])"

section \<open>Submission\<close>

text \<open>What \<open>_submit\<close> does once the attempt is claimed: \<open>after_claim\<close> up to the submission and its
  errors, \<open>after_submission\<close> with the operation it returned.\<close>

definition after_submission ::
  "'s repository \<Rightarrow> env \<Rightarrow> processing_record \<Rightarrow> execution_attempt \<Rightarrow> rat option \<Rightarrow> ustring \<Rightarrow>
   submitted_operation \<Rightarrow> ('s, processing_record) action"
where
  "after_submission R E r claimed deadline name submitted =
     (let p = pr_processing_id r in
      then_do (emit (record_submission name (S ''success'') None))
      (try_except (repo_call R E (rp_mark_attempt_submitted R (at_attempt_id claimed) (so_external_operation_id submitted)))
        (\<lambda>e. bind (attempt (repo_call R E (rp_mark_recovery_required R (at_attempt_id claimed) {A_SUBMITTING}
                 (S ''backend_submission_unknown'') (S ''external operation identity could not be persisted''))))
             (\<lambda>_. raise PersistenceUnavailableError))
        (\<lambda>durable_attempt. case durable_attempt of
           None \<Rightarrow> reread R E p
         | Some a \<Rightarrow>
             then_do (emit (record_transition (S ''submitting'') (S ''submitted'') (S ''success'') None))
             (bind (reread R E p) (\<lambda>durable_record. poll_submitted R E durable_record a deadline)))))"

definition after_claim ::
  "'s repository \<Rightarrow> env \<Rightarrow> processing_record \<Rightarrow> execution_attempt \<Rightarrow> rat option \<Rightarrow> backend \<Rightarrow> ustring \<Rightarrow>
   investigation_request \<Rightarrow> ('s, processing_record) action"
where
  "after_claim R E r claimed deadline b name request =
     (let p = pr_processing_id r in
      then_do (context_do (set_attempt_id (Some (uuid_str (at_attempt_id claimed)))))
      (then_do (emit (record_transition (S ''planned'') (S ''submitting'') (S ''success'') None))
      (bind (remaining_seconds E deadline) (\<lambda>operation_timeout.
       if used_up operation_timeout
       then mark_recovery R E claimed A_SUBMITTING (S ''recovery_required'')
              (S ''reconciliation deadline expired before backend submission'') p
              [recovery_metric name ''recovery_required'']
       else try_except
         (bind (backend_submit claimed b request operation_timeout)
           (\<lambda>s. case s of None \<Rightarrow> raise TypeError | Some x \<Rightarrow> ret x))
         (\<lambda>e. if is_submission_rejected e
            then then_do (emit (record_submission name (S ''error'') (Some (S ''backend_submission_failed''))))
              (bind (repo_call R E (rp_fail_processing R p {SUBMITTING} (S ''backend_submission_failed'')
                       (S ''backend definitively rejected submission'') (Some (at_attempt_id claimed))))
                (\<lambda>failed. durable_or_reread R E failed p FAILED
                   [record_transition (S ''submitting'') (S ''failed'') (S ''error'')
                      (Some (S ''backend_submission_failed''))]))
            else then_do (emit (record_submission name (S ''error'') (Some (S ''backend_submission_unknown''))))
              (mark_recovery R E claimed A_SUBMITTING (S ''backend_submission_unknown'')
                 (S ''backend submission outcome is unknown'') p
                 [record_transition (S ''submitting'') (S ''recovery_required'') (S ''error'')
                    (Some (S ''backend_submission_unknown'')),
                  recovery_metric name ''backend_submission_unknown'']))
         (after_submission R E r claimed deadline name)))))"

definition submit ::
  "'s repository \<Rightarrow> env \<Rightarrow> processing_record \<Rightarrow> execution_attempt \<Rightarrow> rat option \<Rightarrow> ('s, processing_record) action"
where
  "submit R E r a deadline =
     (let p = pr_processing_id r in
      case (pr_investigation_request r, pr_selected_backend r) of
        (Some request, Some name) \<Rightarrow>
          (case backend_for_name (e_orchestrator E) name of
             None \<Rightarrow>
               bind (repo_call R E (rp_fail_processing R p {PLANNED} (S ''backend_selection_error'')
                       (S ''persisted backend is not configured'') (Some (at_attempt_id a))))
                 (\<lambda>failed. or_else failed (reread R E p))
           | Some b \<Rightarrow>
               bind (remaining_seconds E deadline) (\<lambda>operation_timeout.
               if used_up operation_timeout then ret r
               else try_except (repo_claim R E (at_attempt_id a))
                 (\<lambda>e. raise PersistenceUnavailableError)
                 (\<lambda>claimed. case claimed of
                    None \<Rightarrow> reread R E p
                  | Some c \<Rightarrow> after_claim R E r c deadline b name request)))
      | _ \<Rightarrow> raise RuntimeError)"

section \<open>Planning\<close>

definition fail_without_attempt ::
  "'s repository \<Rightarrow> env \<Rightarrow> processing_record \<Rightarrow> ustring \<Rightarrow> ustring \<Rightarrow> ('s, processing_record option) action"
where
  "fail_without_attempt R E r category detail =
     try_except
       (bind (repo_call R E (rp_fail_processing R (pr_processing_id r) {ACCEPTED} category detail None)) (\<lambda>failed.
        then_do (when_do (failed \<noteq> None)
          (then_do (context_do (set_error_category (Some category)))
           (emit (record_transition (processing_state_value (pr_state r)) (S ''failed'') (S ''error'') (Some category)))))
        (ret failed)))
       (\<lambda>e. raise PersistenceUnavailableError)
       ret"

definition planning_failed ::
  "'s repository \<Rightarrow> env \<Rightarrow> processing_record \<Rightarrow> exn \<Rightarrow> ('s, processing_record) action"
where
  "planning_failed R E r e =
     (let p = pr_processing_id r;
          state_of = (\<lambda>failed. case failed of Some x \<Rightarrow> pr_state x | None \<Rightarrow> ACCEPTED)
      in case e of
        UnsupportedCapabilitiesError caps _ \<Rightarrow>
          bind (fail_without_attempt R E r (S ''unsupported_capability'')
                  (S ''no configured backend supports the required capability''))
            (\<lambda>failed. raise (UnsupportedCapabilitiesError caps (Some (p, state_of failed))))
      | AmbiguousBackendError caps names _ \<Rightarrow>
          bind (fail_without_attempt R E r (S ''backend_selection_error'') (S ''backend selection was ambiguous''))
            (\<lambda>failed. raise (AmbiguousBackendError caps names (Some (p, state_of failed))))
      | _ \<Rightarrow>
          bind (fail_without_attempt R E r (S ''backend_selection_error'') (S ''processing planning failed''))
            (\<lambda>failed. case failed of None \<Rightarrow> reread R E p | Some _ \<Rightarrow> raise RuntimeError))"

definition complete_no_action ::
  "'s repository \<Rightarrow> env \<Rightarrow> processing_record \<Rightarrow> decision \<Rightarrow> ('s, processing_record) action"
where
  "complete_no_action R E r d =
     bind (lift (mk_orchestration_result d None None None)) (\<lambda>result.
     try_except (repo_call R E (rp_store_no_action_result R (pr_processing_id r) result))
       (\<lambda>e. raise PersistenceUnavailableError)
       (\<lambda>completed. durable_or_reread R E completed (pr_processing_id r) COMPLETED
          [record_transition (S ''accepted'') (S ''completed'') (S ''success'') None]))"

definition advance_accepted ::
  "'s repository \<Rightarrow> env \<Rightarrow> processing_record \<Rightarrow> rat option \<Rightarrow> ('s, processing_record) action"
where
  "advance_accepted R E r deadline =
     try_except (lift (plan (e_orchestrator E) (pr_alert r)))
       (planning_failed R E r)
       (\<lambda>pl. if de_outcome (pl_decision pl) = NO_ACTION then complete_no_action R E r (pl_decision pl)
         else case (pl_incident pl, pl_investigation_request pl, pl_backend pl) of
           (Some i, Some q, Some b) \<Rightarrow>
             try_except
               (bind (observe (e_fresh E)) (\<lambda>aid. bind (observe (e_fresh E)) (\<lambda>key.
                  repo_call R E (rp_store_plan R (pr_processing_id r) (pl_decision pl) i q (bk_name b) aid key))))
               (\<lambda>e. raise PersistenceUnavailableError)
               (\<lambda>planned. case planned of
                  None \<Rightarrow> reread R E (pr_processing_id r)
                | Some pp \<Rightarrow>
                    then_do (emit (record_transition (S ''accepted'') (S ''planned'') (S ''success'') None))
                    (submit R E (pp_record pp) (pp_attempt pp) deadline))
         | _ \<Rightarrow> raise RuntimeError)"

section \<open>\<open>process\<close>\<close>

definition process_inner :: "'s repository \<Rightarrow> env \<Rightarrow> canonical_alert \<Rightarrow> ustring \<Rightarrow> ('s, processing_outcome) action" where
  "process_inner R E al key =
     bind (lift (fingerprint_canonical_alert al)) (\<lambda>(version, digest).
     bind (observe (e_fresh E)) (\<lambda>p.
     try_except (repo_call R E (rp_accept_processing R p al (sp_source (al_source al)) key version digest))
       (\<lambda>e. then_do (emit (record_persistence (S ''error'') (Some (S ''persistence_failed''))))
            (then_do (context_do (set_error_category (Some (S ''persistence_failed''))))
            (raise PersistenceUnavailableError)))
       (\<lambda>acceptance.
          let r = pa_record acceptance in
          then_do (emit (record_persistence (S ''success'') None))
          (then_do (context_do (set_processing_id (Some (uuid_str (pr_processing_id r)))))
          (if pr_fingerprint_version r \<noteq> Some version \<or> pr_request_fingerprint r \<noteq> Some digest
           then then_do (emit (record_idempotency (S ''conflict'')))
                (then_do (context_do (set_error_category (Some (S ''idempotency_conflict''))))
                (raise (IdempotencyConflictError (pr_processing_id r))))
           else if \<not> pa_created acceptance
           then then_do (emit (record_idempotency (S ''replayed''))) (ret \<lparr>po_record = r, po_replayed = True\<rparr>)
           else then_do (emit (record_idempotency (S ''accepted'')))
                (then_do (emit (record_transition (S ''unknown'') (S ''accepted'') (S ''success'') None))
                (bind (advance_accepted R E r None) (\<lambda>r'. ret \<lparr>po_record = r', po_replayed = False\<rparr>))))))))"

definition failed_or_recovery :: "processing_record \<Rightarrow> bool" where
  "failed_or_recovery r \<longleftrightarrow> pr_state r \<in> {FAILED, RECOVERY_REQUIRED}"

definition outcome_metric :: "processing_outcome \<Rightarrow> metric" where
  "outcome_metric outcome =
     (let r = po_record outcome in
      record_processing
        (case pr_decision r of None \<Rightarrow> S ''unknown'' | Some d \<Rightarrow> decision_outcome_value (de_outcome d))
        (if failed_or_recovery r then S ''error'' else S ''success'')
        (if failed_or_recovery r then pr_error_category r else None))"

definition process :: "'s repository \<Rightarrow> env \<Rightarrow> canonical_alert \<Rightarrow> ustring \<Rightarrow> ('s, processing_outcome) action" where
  "process R E al key =
     bind (asks w_context) (\<lambda>previous.
     finally_do
       (try_except (process_inner R E al key)
         (\<lambda>e. bind (asks w_context) (\<lambda>c.
              then_do (emit (record_processing (S ''unknown'') (S ''error'')
                (Some (case cv_error_category c of None \<Rightarrow> S ''internal_error'' | Some x \<Rightarrow> x))))
              (raise e)))
         (\<lambda>outcome. then_do (emit (outcome_metric outcome)) (ret outcome)))
       (\<lambda>w. w\<lparr>w_context := set_error_category (cv_error_category previous)
          (set_processing_id (cv_processing_id previous) (set_attempt_id None (w_context w)))\<rparr>))"

section \<open>Reconciliation\<close>

text \<open>The body of the \<open>try\<close> for one record: the record after it.\<close>

definition reconcile_record ::
  "'s repository \<Rightarrow> env \<Rightarrow> rat \<Rightarrow> processing_record \<Rightarrow> ('s, processing_record) action"
where
  "reconcile_record R E deadline r =
     (let with_attempt = (\<lambda>k. bind (repo_call R E (rp_get_attempt_for_processing R (pr_processing_id r)))
            (\<lambda>a. case a of None \<Rightarrow> ret r | Some x \<Rightarrow> k x))
      in case pr_state r of
        ACCEPTED \<Rightarrow> advance_accepted R E r (Some deadline)
      | PLANNED \<Rightarrow> with_attempt (\<lambda>a. submit R E r a (Some deadline))
      | SUBMITTING \<Rightarrow>
          then_do (emit (record_stale (S ''submitting'')))
          (with_attempt (\<lambda>a. mark_recovery R E a A_SUBMITTING (S ''backend_submission_unknown'')
             (S ''stale submission has no discoverable operation'') (pr_processing_id r)
             [recovery_metric (case pr_selected_backend r of None \<Rightarrow> S ''other''
                | Some n \<Rightarrow> if n = [] then S ''other'' else n) ''backend_submission_unknown'']))
      | SUBMITTED \<Rightarrow> with_attempt (\<lambda>a. poll_submitted R E r a (Some deadline))
      | _ \<Rightarrow> ret r)"

definition reconcile_step ::
  "'s repository \<Rightarrow> env \<Rightarrow> rat \<Rightarrow> processing_record \<Rightarrow> reconciliation_report \<Rightarrow> ('s, reconciliation_report) action"
where
  "reconcile_step R E deadline r rep =
     (let rep1 = rep\<lparr>rr_examined := Suc (rr_examined rep)\<rparr> in
      bind (repo_call R E (rp_get_attempt_for_processing R (pr_processing_id r))) (\<lambda>found.
      bind (asks w_context) (\<lambda>previous.
      finally_do
        (then_do (context_do (\<lambda>_. reconciliation_context (uuid_str (pr_processing_id r))
             (map_option (\<lambda>a. uuid_str (at_attempt_id a)) found)))
         (try_except (reconcile_record R E deadline r)
           (\<lambda>e. then_do (emit (record_reconciliation (processing_state_value (pr_state r)) (S ''error'')
                   (Some (S ''internal_error''))))
                (ret (rep1\<lparr>rr_failed := Suc (rr_failed rep1)\<rparr>)))
           (\<lambda>after. then_do (emit (record_reconciliation (processing_state_value (pr_state r)) (S ''success'') None))
                (ret (if pr_state after \<noteq> pr_state r then rep1\<lparr>rr_advanced := Suc (rr_advanced rep1)\<rparr> else rep1)))))
        (\<lambda>w. w\<lparr>w_context := previous\<rparr>))))"

fun reconcile_loop ::
  "'s repository \<Rightarrow> env \<Rightarrow> rat \<Rightarrow> processing_record list \<Rightarrow> reconciliation_report \<Rightarrow> ('s, reconciliation_report) action"
where
  "reconcile_loop R E deadline [] rep = ret rep"
| "reconcile_loop R E deadline (r # rs) rep =
     bind (remaining_seconds E (Some deadline)) (\<lambda>remaining.
     if used_up remaining then ret (rep\<lparr>rr_time_limit_reached := True\<rparr>)
     else bind (reconcile_step R E deadline r rep) (\<lambda>rep'.
       bind (remaining_seconds E (Some deadline)) (\<lambda>remaining'.
       if used_up remaining' then ret (rep'\<lparr>rr_time_limit_reached := True\<rparr>)
       else reconcile_loop R E deadline rs rep')))"

text \<open>A datetime less a duration in microseconds.\<close>

definition dt_minus :: "datetime \<Rightarrow> int \<Rightarrow> exn + datetime" where
  "dt_minus d us =
     (if 0 \<le> dt_local d - us \<and> dt_local d - us < max_us then Inr (d\<lparr>dt_local := dt_local d - us\<rparr>) else Inl OverflowError)"

definition reconcile_once ::
  "'s repository \<Rightarrow> env \<Rightarrow> int \<Rightarrow> rat \<Rightarrow> int \<Rightarrow> ('s, reconciliation_report) action"
where
  "reconcile_once R E limit max_seconds stale_after =
     (if limit < 1 \<or> max_seconds \<le> 0 then raise ValueError
      else bind (observe (e_monotonic E)) (\<lambda>started.
        bind (observe (e_wall_clock E)) (\<lambda>wall.
        bind (lift (dt_minus wall stale_after)) (\<lambda>stale_before.
        bind (repo_call R E (rp_find_reconcilable R limit stale_before)) (\<lambda>records.
        reconcile_loop R E (started + max_seconds) records
          \<lparr>rr_examined = 0, rr_advanced = 0, rr_failed = 0, rr_time_limit_reached = False\<rparr>)))))"

end
