(* ===== verification/Api.thy ===== *)
theory Api
  imports Schemas Processor
begin

text \<open>
  \<open>api/app.py\<close>: the endpoints of the HTTP boundary and the middleware around them. A request is
  the values the endpoint reads of it; a response is its status, its content and the headers
  the code sets. FastAPI, Starlette and pydantic (routing, body parsing, printing a response
  model as JSON, threads) are not modelled; the content of a processing response is the model.
\<close>

section \<open>Responses\<close>

datatype content =
    Content_error json
  | Content_processing alert_processing_response
  | Content_json json

record http_response =
  hr_status :: nat
  hr_content :: content
  hr_headers :: "(ustring \<times> ustring) list"

text \<open>\<open>model_dump(mode="json", exclude_none=True)\<close> of an ApiErrorResponse.\<close>

definition json_member :: "string \<Rightarrow> json option \<Rightarrow> (ustring \<times> json) list" where
  "json_member k v = (case v of None \<Rightarrow> [] | Some x \<Rightarrow> [(S k, x)])"

definition error_content :: "api_error_response \<Rightarrow> json" where
  "error_content e =
     JObj ([(S ''code'', JStr (ae_code e)), (S ''message'', JStr (ae_message e))]
       @ json_member ''requested_capabilities'' (map_option (\<lambda>cs. JArr (map JStr cs)) (ae_requested_capabilities e))
       @ json_member ''eligible_backends'' (map_option (\<lambda>bs. JArr (map JStr bs)) (ae_eligible_backends e))
       @ json_member ''processing_id'' (map_option (\<lambda>p. JStr (uuid_str p)) (ae_processing_id e))
       @ json_member ''state'' (map_option (\<lambda>st. JStr (processing_state_value st)) (ae_state e))
       @ json_member ''status_url'' (map_option JStr (ae_status_url e)))"

text \<open>An ApiErrorResponse with a code and a message only.\<close>

definition plain_error :: "string \<Rightarrow> string \<Rightarrow> api_error_response" where
  "plain_error code message =
     \<lparr>ae_code = S code, ae_message = S message, ae_requested_capabilities = None, ae_eligible_backends = None,
      ae_processing_id = None, ae_state = None, ae_status_url = None\<rparr>"

definition error_response :: "nat \<Rightarrow> api_error_response \<Rightarrow> (ustring \<times> ustring) list \<Rightarrow> http_response" where
  "error_response status_code e headers =
     \<lparr>hr_status = status_code, hr_content = Content_error (error_content e), hr_headers = headers\<rparr>"

text \<open>\<open>_idempotency_key\<close>, of the values of the header.\<close>

definition idempotency_key :: "ustring list \<Rightarrow> http_response + ustring" where
  "idempotency_key values =
     (case values of
        [] \<Rightarrow> Inl (error_response 400 (plain_error ''idempotency_key_required'' ''Idempotency-Key header is required'') [])
      | v # _ \<Rightarrow>
          if length values \<noteq> 1 \<or> \<not> (1 \<le> length v \<and> length v \<le> 128)
             \<or> list_ex (\<lambda>c. \<not> (0x21 \<le> c \<and> c \<le> 0x7E)) v
          then Inl (error_response 400 (plain_error ''invalid_idempotency_key''
                 ''Idempotency-Key must contain 1-128 visible ASCII characters'') [])
          else Inr v)"

text \<open>The entry of \<open>_DURABLE_CLIENT_FAILURES\<close> for a category.\<close>

definition durable_client_failure :: "ustring option \<Rightarrow> (nat \<times> string) option" where
  "durable_client_failure category =
     (if category = Some (S ''unsupported_capability'')
      then Some (409, ''no configured backend supports the required capability'') else None)"

definition public_processing_response :: "processing_record \<Rightarrow> bool \<Rightarrow> exn + http_response" where
  "public_processing_response r replayed =
     and_then (from_application r) (\<lambda>public.
     let headers = (S ''Location'', ps_status_url public) #
           (if replayed then [(S ''Idempotency-Replayed'', S ''true'')] else []);
         answer = (\<lambda>status_code. \<lparr>hr_status = status_code, hr_content = Content_processing public, hr_headers = headers\<rparr>)
     in case pr_state r of
          COMPLETED \<Rightarrow> Inr (answer 200)
        | FAILED \<Rightarrow>
            (case durable_client_failure (pr_error_category r) of
               Some (status_code, message) \<Rightarrow>
                 Inr (error_response status_code
                   \<lparr>ae_code = (case pr_error_category r of Some c \<Rightarrow> c | None \<Rightarrow> []), ae_message = S message,
                    ae_requested_capabilities = None, ae_eligible_backends = None,
                    ae_processing_id = Some (pr_processing_id r), ae_state = Some (pr_state r),
                    ae_status_url = Some (ps_status_url public)\<rparr> headers)
             | None \<Rightarrow> Inr (answer 500))
        | _ \<Rightarrow> Inr (answer 202))"

section \<open>Endpoints\<close>

text \<open>The state of one request: the processor's world and the two attributes of
  \<open>request.state\<close> that the endpoint shares with the middleware.\<close>

record 's exchange =
  ex_world :: "'s world"
  ex_processing_id :: "ustring option"
  ex_error_category :: "ustring option"

type_synonym ('s, 'a) endpoint = "('s exchange, exn, 'a) prog"

text \<open>An action of the processor within a request.\<close>

definition in_world :: "('s, 'a) action \<Rightarrow> ('s, 'a) endpoint" where
  "in_world m ex = (case m (ex_world ex) of (r, w) \<Rightarrow> (r, ex\<lparr>ex_world := w\<rparr>))"

text \<open>\<open>_set_request_correlation\<close>.\<close>

definition set_request_correlation :: "uuid option \<Rightarrow> ustring option \<Rightarrow> ('s, unit) endpoint" where
  "set_request_correlation processing_id category =
     then_do (case processing_id of None \<Rightarrow> ret ()
       | Some p \<Rightarrow> then_do (in_world (context_do (set_processing_id (Some (uuid_str p)))))
           (modify (\<lambda>ex. ex\<lparr>ex_processing_id := Some (uuid_str p)\<rparr>)))
     (case category of None \<Rightarrow> ret ()
       | Some c \<Rightarrow> then_do (in_world (context_do (set_error_category (Some c))))
           (modify (\<lambda>ex. ex\<lparr>ex_error_category := cv_error_category (w_context (ex_world ex))\<rparr>)))"

text \<open>The answer to a routing error.\<close>

definition routing_error ::
  "nat \<Rightarrow> string \<Rightarrow> string \<Rightarrow> ustring list \<Rightarrow> ustring list option \<Rightarrow> (uuid \<times> processing_state) option \<Rightarrow>
   ('s, http_response) endpoint"
where
  "routing_error status_code code message capabilities backends found =
     (let url = map_option (\<lambda>(p, _). status_url p) found in
      then_do (set_request_correlation (map_option fst found) (Some (S code)))
      (ret (error_response status_code
        \<lparr>ae_code = S code, ae_message = S message, ae_requested_capabilities = Some capabilities,
         ae_eligible_backends = backends, ae_processing_id = map_option fst found, ae_state = map_option snd found,
         ae_status_url = url\<rparr>
        (case url of None \<Rightarrow> [] | Some u \<Rightarrow> [(S ''Location'', u)]))))"

definition process_alert ::
  "'s repository \<Rightarrow> env \<Rightarrow> canonical_alert_request \<Rightarrow> ustring list \<Rightarrow> ('s, http_response) endpoint"
where
  "process_alert R E alert_request values =
     (case idempotency_key values of
        Inl key_error \<Rightarrow>
          then_do (in_world (emit (record_idempotency (S ''error''))))
          (then_do (set_request_correlation None
             (Some (if values = [] then S ''idempotency_key_required'' else S ''invalid_idempotency_key'')))
          (ret key_error))
      | Inr key \<Rightarrow>
          try_except
            (bind (lift (alert_to_domain alert_request)) (\<lambda>al. in_world (process R E al key)))
            (\<lambda>e. case e of
               IdempotencyConflictError p \<Rightarrow>
                 then_do (set_request_correlation (Some p) (Some (S ''idempotency_conflict'')))
                 (ret (error_response 409 (plain_error ''idempotency_conflict''
                    ''idempotency key is already bound to another request'') []))
             | PersistenceUnavailableError \<Rightarrow>
                 then_do (set_request_correlation None (Some (S ''persistence_failed'')))
                 (ret (error_response 503 (plain_error ''persistence_failed''
                    ''durable processing is temporarily unavailable'') []))
             | UnsupportedCapabilitiesError capabilities found \<Rightarrow>
                 routing_error 409 ''unsupported_capability''
                   ''no configured backend supports the required capability'' capabilities None found
             | AmbiguousBackendError capabilities backends found \<Rightarrow>
                 routing_error 500 ''backend_selection_error''
                   ''backend selection was ambiguous'' capabilities (Some backends) found
             | _ \<Rightarrow> raise e)
            (\<lambda>outcome.
               then_do (set_request_correlation (Some (pr_processing_id (po_record outcome)))
                 (pr_error_category (po_record outcome)))
               (lift (public_processing_response (po_record outcome) (po_replayed outcome)))))"

text \<open>\<open>get_processing\<close>: only the repository call is inside the \<open>try\<close>.\<close>

definition get_processing :: "'s repository \<Rightarrow> env \<Rightarrow> uuid \<Rightarrow> ('s, http_response) endpoint" where
  "get_processing R E p =
     try_except (in_world (repo_call R E (rp_get R p)))
       (\<lambda>e. then_do (in_world (context_do (set_error_category (Some (S ''persistence_failed'')))))
            (ret (error_response 503 (plain_error ''persistence_failed''
               ''processing status is temporarily unavailable'') [])))
       (\<lambda>found. case found of
          None \<Rightarrow> ret (error_response 404 (plain_error ''processing_not_found'' ''processing was not found'') [])
        | Some r \<Rightarrow> bind (lift (from_application r))
            (\<lambda>public. ret \<lparr>hr_status = 200, hr_content = Content_processing public, hr_headers = []\<rparr>))"

definition healthz :: http_response where
  "healthz = \<lparr>hr_status = 200, hr_content = Content_json (JObj [(S ''status'', JStr (S ''ok''))]), hr_headers = []\<rparr>"

definition readyz :: "'s repository \<Rightarrow> env \<Rightarrow> ('s, http_response) endpoint" where
  "readyz R E =
     try_except (in_world (repo_call R E (rp_check_readiness R)))
       (\<lambda>e. ret \<lparr>hr_status = 503, hr_content = Content_json (JObj [(S ''status'', JStr (S ''not_ready''))]), hr_headers = []\<rparr>)
       (\<lambda>_. ret \<lparr>hr_status = 200, hr_content = Content_json (JObj [(S ''status'', JStr (S ''ready''))]), hr_headers = []\<rparr>)"

section \<open>The middleware\<close>

text \<open>
  \<open>correlate_request\<close>: around the result of the inner application, for a request with the
  attributes its endpoint left. The middleware's own context variables are not those of the
  endpoint, which runs in a task and a thread of its own; they hold the request identifier and,
  after an exception, the category that the middleware sets. It gives the response and the
  fields of the event \<open>request.finished\<close>, when it logs one.
\<close>

definition detail_response :: http_response where
  "detail_response =
     \<lparr>hr_status = 500, hr_content = Content_json (JObj [(S ''detail'', JStr (S ''Internal Server Error''))]),
      hr_headers = []\<rparr>"

definition finished_fields ::
  "nat \<Rightarrow> ustring option \<Rightarrow> ustring option \<Rightarrow> json \<Rightarrow> (ustring \<times> json) list"
where
  "finished_fields status_code category processing_id duration_ms =
     [(S ''http_method'', JStr (S ''POST'')), (S ''http_route'', JStr (S ''/v1/alerts'')),
      (S ''http_status'', JInt (int status_code)),
      (S ''outcome'', JStr (if status_code < 400 then S ''success'' else S ''error'')),
      (S ''error_category'', case category of None \<Rightarrow> JNull | Some c \<Rightarrow> JStr c),
      (S ''processing_id'', case processing_id of None \<Rightarrow> JNull | Some p \<Rightarrow> JStr p),
      (S ''duration_ms'', duration_ms)]"

definition finished_category :: "nat \<Rightarrow> ustring option \<Rightarrow> ustring option" where
  "finished_category status_code category =
     (if status_code = 422 then Some (S ''validation_error'')
      else if 500 \<le> status_code \<and> category = None then Some (S ''internal_error'')
      else category)"

definition correlate_request ::
  "uuid \<Rightarrow> ustring \<Rightarrow> ustring \<Rightarrow> json \<Rightarrow> (exn + http_response) \<times> 's exchange \<Rightarrow>
   http_response \<times> (ustring \<times> json) list option"
where
  "correlate_request request_id meth path duration_ms inner =
     (let (result, ex) = inner;
          own = (case result of Inl e \<Rightarrow> set_error_category (Some (S ''internal_error'')) (request_context (uuid_str request_id))
                 | Inr _ \<Rightarrow> request_context (uuid_str request_id));
          response = (case result of Inl e \<Rightarrow> detail_response | Inr r \<Rightarrow> r);
          category = (case ex_error_category ex of Some c \<Rightarrow> Some c | None \<Rightarrow> cv_error_category own);
          pid = (case ex_processing_id ex of Some p \<Rightarrow> Some p | None \<Rightarrow> cv_processing_id own);
          event = (if meth = S ''POST'' \<and> path = S ''/v1/alerts''
            then Some (finished_fields (hr_status response) (finished_category (hr_status response) category) pid duration_ms)
            else None)
      in (response\<lparr>hr_headers := dict_set (S ''X-Request-ID'') (uuid_str request_id) (hr_headers response)\<rparr>, event))"

end
