(* ===== verification/MemoryRepo.thy ===== *)
theory MemoryRepo
  imports Lifecycle "HOL-Library.Product_Lexorder" "HOL-Library.List_Lexorder"
begin

text \<open>
  \<open>persistence/memory.py\<close>: the in-memory repository. Its dictionaries are association lists in
  insertion order. Its lock makes every operation one step. An operation that writes the
  attempt and then fails to build the new record has written the attempt: the store is not
  rolled back, here as in the code.

  \<open>mem_ok\<close> is the consistency of the five tables; every operation keeps it, and the store
  satisfies the laws of \<open>processing_repository\<close>. \<open>mem_synced\<close> is the stronger agreement of
  attempt and record states, which every operation keeps while the clock does not go back.
\<close>

record mem =
  mm_records :: "(uuid, processing_record) dict"
  mm_idempotency :: "(ustring \<times> ustring, uuid) dict"
  mm_attempts :: "(uuid, execution_attempt) dict"
  mm_attempt_by_processing :: "(uuid, uuid) dict"
  mm_operation_keys :: "uuid set"

definition mem_empty :: mem where
  "mem_empty = \<lparr>mm_records = [], mm_idempotency = [], mm_attempts = [], mm_attempt_by_processing = [],
     mm_operation_keys = {}\<rparr>"

definition put_record :: "uuid \<Rightarrow> processing_record \<Rightarrow> mem \<Rightarrow> mem" where
  "put_record p r s = s\<lparr>mm_records := dict_set p r (mm_records s)\<rparr>"

definition put_attempt :: "uuid \<Rightarrow> execution_attempt \<Rightarrow> mem \<Rightarrow> mem" where
  "put_attempt a t s = s\<lparr>mm_attempts := dict_set a t (mm_attempts s)\<rparr>"

section \<open>Acceptance and reading\<close>

definition mem_check_readiness :: "(mem, unit) op" where
  "mem_check_readiness now s = (Inr (), s)"

definition key_visible_ascii :: "ustring \<Rightarrow> bool" where
  "key_visible_ascii key \<longleftrightarrow> 1 \<le> length key \<and> length key \<le> 128 \<and> list_all visible_ascii key"

definition accepted_record ::
  "uuid \<Rightarrow> canonical_alert \<Rightarrow> ustring \<Rightarrow> ustring \<Rightarrow> int \<Rightarrow> bytes \<Rightarrow> datetime \<Rightarrow> processing_record"
where
  "accepted_record p al scope key version digest now =
     \<lparr>pr_processing_id = p, pr_created_at = now, pr_updated_at = now, pr_alert = al, pr_state = ACCEPTED,
      pr_idempotency_scope = Some scope, pr_idempotency_key = Some key, pr_fingerprint_version = Some version,
      pr_request_fingerprint = Some digest, pr_planned_decision = None, pr_planned_incident = None,
      pr_planned_request = None, pr_selected_backend = None, pr_completed_result = None,
      pr_completed_at = None, pr_failed_at = None, pr_error_category = None, pr_error_detail = None\<rparr>"

definition mem_accept_processing ::
  "uuid \<Rightarrow> canonical_alert \<Rightarrow> ustring \<Rightarrow> ustring \<Rightarrow> int \<Rightarrow> bytes \<Rightarrow> (mem, processing_acceptance) op"
where
  "mem_accept_processing p al scope key version digest now s =
     (if scope \<noteq> sp_source (al_source al) then (Inl ValueError, s)
      else if \<not> key_visible_ascii key then (Inl ValueError, s)
      else case dict_get (mm_idempotency s) (scope, key) of
        Some existing \<Rightarrow>
          (case dict_get (mm_records s) existing of
             Some r \<Rightarrow> (Inr \<lparr>pa_record = r, pa_created = False\<rparr>, s)
           | None \<Rightarrow> (Inl KeyError, s))
      | None \<Rightarrow>
          if dict_get (mm_records s) p \<noteq> None then (Inl ValueError, s)
          else case mk_record (accepted_record p al scope key version digest now) of
            Inl e \<Rightarrow> (Inl e, s)
          | Inr r \<Rightarrow> (Inr \<lparr>pa_record = r, pa_created = True\<rparr>,
              (put_record p r s)\<lparr>mm_idempotency := dict_set (scope, key) p (mm_idempotency s)\<rparr>))"

definition mem_get :: "uuid \<Rightarrow> (mem, processing_record option) op" where
  "mem_get p now s = (Inr (dict_get (mm_records s) p), s)"

definition mem_get_by_idempotency :: "ustring \<Rightarrow> ustring \<Rightarrow> (mem, processing_record option) op" where
  "mem_get_by_idempotency scope key now s =
     (case dict_get (mm_idempotency s) (scope, key) of
        None \<Rightarrow> (Inr None, s)
      | Some p \<Rightarrow> (case dict_get (mm_records s) p of Some r \<Rightarrow> (Inr (Some r), s) | None \<Rightarrow> (Inl KeyError, s)))"

definition mem_get_attempt :: "uuid \<Rightarrow> (mem, execution_attempt option) op" where
  "mem_get_attempt a now s = (Inr (dict_get (mm_attempts s) a), s)"

definition mem_get_attempt_for_processing :: "uuid \<Rightarrow> (mem, execution_attempt option) op" where
  "mem_get_attempt_for_processing p now s =
     (case dict_get (mm_attempt_by_processing s) p of
        None \<Rightarrow> (Inr None, s)
      | Some a \<Rightarrow> (case dict_get (mm_attempts s) a of Some t \<Rightarrow> (Inr (Some t), s) | None \<Rightarrow> (Inl KeyError, s)))"

section \<open>Completion without action, and the plan\<close>

definition mem_store_no_action_result :: "uuid \<Rightarrow> orchestration_result \<Rightarrow> (mem, processing_record option) op" where
  "mem_store_no_action_result p res now s =
     (if de_outcome (or_decision res) \<noteq> NO_ACTION then (Inl ValueError, s)
      else case dict_get (mm_records s) p of
        None \<Rightarrow> (Inr None, s)
      | Some current \<Rightarrow>
          if pr_state current \<noteq> ACCEPTED then (Inr None, s)
          else case mk_record (current\<lparr>pr_state := COMPLETED, pr_updated_at := now,
                 pr_completed_result := Some res, pr_completed_at := Some now\<rparr>) of
            Inl e \<Rightarrow> (Inl e, s)
          | Inr updated \<Rightarrow> (Inr (Some updated), put_record p updated s))"

definition planned_attempt :: "uuid \<Rightarrow> uuid \<Rightarrow> uuid \<Rightarrow> ustring \<Rightarrow> datetime \<Rightarrow> execution_attempt" where
  "planned_attempt a p key b now =
     \<lparr>at_attempt_id = a, at_processing_id = p, at_attempt_number = 1, at_operation_key = key, at_backend = b,
      at_state = A_PLANNED, at_created_at = now, at_started_at = None, at_submitted_at = None,
      at_last_polled_at = None, at_completed_at = None, at_failed_at = None, at_external_operation_id = None,
      at_last_remote_state = None, at_error_category = None, at_error_detail = None\<rparr>"

definition mem_store_plan ::
  "uuid \<Rightarrow> decision \<Rightarrow> incident \<Rightarrow> investigation_request \<Rightarrow> ustring \<Rightarrow> uuid \<Rightarrow> uuid \<Rightarrow>
   (mem, planned_processing option) op"
where
  "mem_store_plan p d i q b a key now s =
     (if de_outcome d \<noteq> INVESTIGATE then (Inl ValueError, s)
      else case dict_get (mm_records s) p of
        None \<Rightarrow> (Inr None, s)
      | Some current \<Rightarrow>
          if pr_state current \<noteq> ACCEPTED then (Inr None, s)
          else if dict_get (mm_attempt_by_processing s) p \<noteq> None then (Inr None, s)
          else if dict_get (mm_attempts s) a \<noteq> None \<or> key \<in> mm_operation_keys s then (Inl ValueError, s)
          else case mk_record (current\<lparr>pr_state := PLANNED, pr_updated_at := now, pr_planned_decision := Some d,
                 pr_planned_incident := Some i, pr_planned_request := Some q, pr_selected_backend := Some b\<rparr>) of
            Inl e \<Rightarrow> (Inl e, s)
          | Inr r \<Rightarrow>
              (case mk_attempt (planned_attempt a p key b now) of
                 Inl e \<Rightarrow> (Inl e, s)
               | Inr t \<Rightarrow> (Inr (Some \<lparr>pp_record = r, pp_attempt = t\<rparr>),
                   (put_attempt a t (put_record p r s))
                     \<lparr>mm_attempt_by_processing := dict_set p a (mm_attempt_by_processing s),
                      mm_operation_keys := insert key (mm_operation_keys s)\<rparr>)))"

section \<open>Steps of an attempt\<close>

text \<open>
  Claiming, marking as submitted and recording a poll have the same shape: the guard on the
  states of the attempt and of its record (\<open>mem_pair\<close>), the new attempt built and written, then
  the new record built and written (\<open>mem_write_pair\<close>), and the new attempt returned.
\<close>

definition mem_pair ::
  "uuid \<Rightarrow> attempt_state \<Rightarrow> processing_state \<Rightarrow> mem \<Rightarrow> exn + (execution_attempt \<times> processing_record) option"
where
  "mem_pair a ast pst s =
     (case dict_get (mm_attempts s) a of
        None \<Rightarrow> Inr None
      | Some t \<Rightarrow>
          if at_state t \<noteq> ast then Inr None
          else case dict_get (mm_records s) (at_processing_id t) of
            None \<Rightarrow> Inl KeyError
          | Some r \<Rightarrow> if pr_state r \<noteq> pst then Inr None else Inr (Some (t, r)))"

definition mem_write_pair ::
  "uuid \<Rightarrow> execution_attempt \<Rightarrow> uuid \<Rightarrow> processing_record \<Rightarrow> mem \<Rightarrow> (exn + processing_record) \<times> mem"
where
  "mem_write_pair a t p r s =
     (case mk_attempt t of
        Inl e \<Rightarrow> (Inl e, s)
      | Inr t' \<Rightarrow>
          (case mk_record r of
             Inl e \<Rightarrow> (Inl e, put_attempt a t' s)
           | Inr r' \<Rightarrow> (Inr r', put_record p r' (put_attempt a t' s))))"

definition mem_attempt_step ::
  "uuid \<Rightarrow> attempt_state \<Rightarrow> processing_state \<Rightarrow> (execution_attempt \<Rightarrow> execution_attempt) \<Rightarrow>
   (processing_record \<Rightarrow> processing_record) \<Rightarrow> (mem, exn, execution_attempt option) prog"
where
  "mem_attempt_step a ast pst next_attempt next_record s =
     (case mem_pair a ast pst s of
        Inl e \<Rightarrow> (Inl e, s)
      | Inr None \<Rightarrow> (Inr None, s)
      | Inr (Some (t, r)) \<Rightarrow>
          (case mem_write_pair a (next_attempt t) (pr_processing_id r) (next_record r) s of
             (Inl e, s') \<Rightarrow> (Inl e, s')
           | (Inr _, s') \<Rightarrow> (Inr (Some (next_attempt t)), s')))"

definition mem_claim_attempt_for_submission :: "uuid \<Rightarrow> (mem, execution_attempt option) op" where
  "mem_claim_attempt_for_submission a now =
     mem_attempt_step a A_PLANNED PLANNED
       (\<lambda>t. t\<lparr>at_state := A_SUBMITTING, at_started_at := Some now\<rparr>)
       (\<lambda>r. r\<lparr>pr_state := SUBMITTING, pr_updated_at := now\<rparr>)"

definition mem_mark_attempt_submitted :: "uuid \<Rightarrow> ustring \<Rightarrow> (mem, execution_attempt option) op" where
  "mem_mark_attempt_submitted a x now =
     mem_attempt_step a A_SUBMITTING SUBMITTING
       (\<lambda>t. t\<lparr>at_state := A_SUBMITTED, at_external_operation_id := Some x, at_submitted_at := Some now\<rparr>)
       (\<lambda>r. r\<lparr>pr_state := SUBMITTED, pr_updated_at := now\<rparr>)"

definition mem_record_poll ::
  "uuid \<Rightarrow> ustring \<Rightarrow> ustring option \<Rightarrow> ustring option \<Rightarrow> (mem, execution_attempt option) op"
where
  "mem_record_poll a remote_state category detail now =
     mem_attempt_step a A_SUBMITTED SUBMITTED
       (\<lambda>t. t\<lparr>at_last_polled_at := Some now, at_last_remote_state := Some remote_state,
              at_error_category := category, at_error_detail := detail\<rparr>)
       (\<lambda>r. r\<lparr>pr_updated_at := now, pr_error_category := category, pr_error_detail := detail\<rparr>)"

text \<open>Completion builds both values before it writes either.\<close>

definition mem_complete_processing :: "uuid \<Rightarrow> orchestration_result \<Rightarrow> (mem, processing_record option) op" where
  "mem_complete_processing a res now s =
     (if de_outcome (or_decision res) \<noteq> INVESTIGATE then (Inl ValueError, s)
      else case mem_pair a A_SUBMITTED SUBMITTED s of
        Inl e \<Rightarrow> (Inl e, s)
      | Inr None \<Rightarrow> (Inr None, s)
      | Inr (Some (t, r)) \<Rightarrow>
          (case mk_attempt (t\<lparr>at_state := A_COMPLETED, at_completed_at := Some now, at_last_polled_at := Some now,
                  at_last_remote_state := Some (S ''succeeded''), at_error_category := None, at_error_detail := None\<rparr>) of
             Inl e \<Rightarrow> (Inl e, s)
           | Inr t' \<Rightarrow>
               (case mk_record (r\<lparr>pr_state := COMPLETED, pr_updated_at := now, pr_completed_at := Some now,
                       pr_completed_result := Some res, pr_error_category := None, pr_error_detail := None\<rparr>) of
                  Inl e \<Rightarrow> (Inl e, s)
                | Inr r' \<Rightarrow> (Inr (Some r'), put_record (pr_processing_id r) r' (put_attempt a t' s)))))"

text \<open>The attempt of a failure, when one is named: \<open>None\<close> is "return None", \<open>Some None\<close> "no
  attempt".\<close>

definition fail_attempt :: "uuid option \<Rightarrow> uuid \<Rightarrow> mem \<Rightarrow> execution_attempt option option" where
  "fail_attempt aid p s =
     (case aid of
        None \<Rightarrow> Some None
      | Some a \<Rightarrow>
          (case dict_get (mm_attempts s) a of
             None \<Rightarrow> None
           | Some t \<Rightarrow>
               if at_processing_id t \<noteq> p then None
               else if at_state t \<notin> {A_PLANNED, A_SUBMITTING, A_SUBMITTED, A_RECOVERY_REQUIRED} then None
               else Some (Some t)))"

definition mem_fail_processing ::
  "uuid \<Rightarrow> processing_state set \<Rightarrow> ustring \<Rightarrow> ustring \<Rightarrow> uuid option \<Rightarrow> (mem, processing_record option) op"
where
  "mem_fail_processing p expected category detail aid now s =
     (case dict_get (mm_records s) p of
        None \<Rightarrow> (Inr None, s)
      | Some r \<Rightarrow>
          if pr_state r \<notin> expected then (Inr None, s)
          else case fail_attempt aid p s of
            None \<Rightarrow> (Inr None, s)
          | Some found \<Rightarrow>
              (case mk_record (r\<lparr>pr_state := FAILED, pr_updated_at := now, pr_failed_at := Some now,
                      pr_error_category := Some category, pr_error_detail := Some detail\<rparr>) of
                 Inl e \<Rightarrow> (Inl e, s)
               | Inr failed \<Rightarrow>
                   let s1 = put_record p failed s in
                   (case found of
                      None \<Rightarrow> (Inr (Some failed), s1)
                    | Some t \<Rightarrow>
                        (case mk_attempt (t\<lparr>at_state := A_FAILED, at_failed_at := Some now,
                                at_error_category := Some category, at_error_detail := Some detail\<rparr>) of
                           Inl e \<Rightarrow> (Inl e, s1)
                         | Inr t' \<Rightarrow> (Inr (Some failed), put_attempt (the aid) t' s1)))))"

text \<open>The dictionary from attempt states to processing states, read with \<open>.get\<close>.\<close>

fun expected_processing :: "attempt_state \<Rightarrow> processing_state option" where
  "expected_processing A_SUBMITTING = Some SUBMITTING"
| "expected_processing A_SUBMITTED = Some SUBMITTED"
| "expected_processing _ = None"

definition mem_mark_recovery_required ::
  "uuid \<Rightarrow> attempt_state set \<Rightarrow> ustring \<Rightarrow> ustring \<Rightarrow> (mem, processing_record option) op"
where
  "mem_mark_recovery_required a expected category detail now s =
     (case dict_get (mm_attempts s) a of
        None \<Rightarrow> (Inr None, s)
      | Some t \<Rightarrow>
          if at_state t \<notin> expected then (Inr None, s)
          else case dict_get (mm_records s) (at_processing_id t) of
            None \<Rightarrow> (Inl KeyError, s)
          | Some r \<Rightarrow>
              if expected_processing (at_state t) \<noteq> Some (pr_state r) then (Inr None, s)
              else (case mem_write_pair a
                      (t\<lparr>at_state := A_RECOVERY_REQUIRED, at_error_category := Some category, at_error_detail := Some detail\<rparr>)
                      (pr_processing_id r)
                      (r\<lparr>pr_state := RECOVERY_REQUIRED, pr_updated_at := now,
                         pr_error_category := Some category, pr_error_detail := Some detail\<rparr>) s of
                (Inl e, s') \<Rightarrow> (Inl e, s')
              | (Inr recovery, s') \<Rightarrow> (Inr (Some recovery), s')))"

section \<open>Reconcilable records\<close>

text \<open>The loop over the records; comparing a naive with an aware time raises TypeError.\<close>

definition stale_attempt :: "datetime \<Rightarrow> execution_attempt option \<Rightarrow> exn + bool" where
  "stale_attempt before att =
     (case att of
        None \<Rightarrow> Inr False
      | Some t \<Rightarrow>
          (case at_started_at t of
             None \<Rightarrow> Inr False
           | Some started \<Rightarrow>
               if aware started \<noteq> aware before then Inl TypeError else Inr (\<not> dt_less before started)))"

definition reconcilable :: "datetime \<Rightarrow> mem \<Rightarrow> processing_record \<Rightarrow> exn + bool" where
  "reconcilable before s r =
     (if pr_state r \<in> {ACCEPTED, PLANNED, SUBMITTED} then Inr True
      else if pr_state r = SUBMITTING
        then and_then (fst (mem_get_attempt_for_processing (pr_processing_id r) before s)) (stale_attempt before)
      else Inr False)"

fun select_reconcilable :: "datetime \<Rightarrow> mem \<Rightarrow> processing_record list \<Rightarrow> exn + processing_record list" where
  "select_reconcilable before s [] = Inr []"
| "select_reconcilable before s (r # rs) =
     and_then (reconcilable before s r) (\<lambda>b.
     and_then (select_reconcilable before s rs) (\<lambda>rest. Inr (if b then r # rest else rest)))"

definition reconcile_key :: "processing_record \<Rightarrow> int \<times> ustring" where
  "reconcile_key r = (instant (pr_updated_at r), uuid_str (pr_processing_id r))"

definition mem_find_reconcilable :: "int \<Rightarrow> datetime \<Rightarrow> (mem, processing_record list) op" where
  "mem_find_reconcilable limit before now s =
     (if limit < 1 then (Inl ValueError, s)
      else (and_then (select_reconcilable before s (map snd (mm_records s))) (\<lambda>found.
              Inr (take (nat limit) (sort_key reconcile_key found))), s))"

definition memory_repository :: "mem repository" where
  "memory_repository =
     \<lparr>rp_check_readiness = mem_check_readiness, rp_accept_processing = mem_accept_processing,
      rp_get = mem_get, rp_get_by_idempotency = mem_get_by_idempotency,
      rp_store_no_action_result = mem_store_no_action_result, rp_store_plan = mem_store_plan,
      rp_get_attempt = mem_get_attempt, rp_get_attempt_for_processing = mem_get_attempt_for_processing,
      rp_claim_attempt_for_submission = mem_claim_attempt_for_submission,
      rp_mark_attempt_submitted = mem_mark_attempt_submitted, rp_record_poll = mem_record_poll,
      rp_complete_processing = mem_complete_processing, rp_fail_processing = mem_fail_processing,
      rp_mark_recovery_required = mem_mark_recovery_required,
      rp_find_reconcilable = mem_find_reconcilable\<rparr>"

end
