(* ===== verification/MemoryProps.thy ===== *)
theory MemoryProps
  imports MemoryRepo
begin

text \<open>
  The in-memory repository keeps its tables consistent (\<open>mem_ok\<close>) and satisfies the laws of
  \<open>processing_repository\<close>.
\<close>

section \<open>Consistency\<close>

definition records_ok :: "mem \<Rightarrow> bool" where
  "records_ok s \<longleftrightarrow> distinct (map fst (mm_records s))
     \<and> (\<forall>p r. dict_get (mm_records s) p = Some r \<longrightarrow> pr_processing_id r = p \<and> record_valid r)"

definition attempts_ok :: "mem \<Rightarrow> bool" where
  "attempts_ok s \<longleftrightarrow>
     (\<forall>a t. dict_get (mm_attempts s) a = Some t \<longrightarrow> at_attempt_id t = a \<and> attempt_valid t
        \<and> dict_get (mm_records s) (at_processing_id t) \<noteq> None)
     \<and> (\<forall>p a. dict_get (mm_attempt_by_processing s) p = Some a \<longrightarrow>
          (\<exists>t. dict_get (mm_attempts s) a = Some t \<and> at_processing_id t = p))"

definition idempotency_ok :: "mem \<Rightarrow> bool" where
  "idempotency_ok s \<longleftrightarrow>
     (\<forall>scope key p. dict_get (mm_idempotency s) (scope, key) = Some p \<longrightarrow>
        (\<exists>r. dict_get (mm_records s) p = Some r \<and> pr_idempotency_scope r = Some scope
           \<and> pr_idempotency_key r = Some key))"

definition mem_ok :: "mem \<Rightarrow> bool" where
  "mem_ok s \<longleftrightarrow> records_ok s \<and> attempts_ok s \<and> idempotency_ok s"

definition mem_att_state :: "mem \<Rightarrow> uuid \<Rightarrow> attempt_state option" where
  "mem_att_state s a = map_option at_state (dict_get (mm_attempts s) a)"

definition mem_rec_state :: "mem \<Rightarrow> uuid \<Rightarrow> processing_state option" where
  "mem_rec_state s p = map_option pr_state (dict_get (mm_records s) p)"

lemmas mem_ok_defs = mem_ok_def records_ok_def attempts_ok_def idempotency_ok_def

lemma mem_okD:
  assumes "mem_ok s"
  shows "dict_get (mm_records s) p = Some r \<Longrightarrow> pr_processing_id r = p"
    and "dict_get (mm_records s) p = Some r \<Longrightarrow> record_valid r"
    and "dict_get (mm_attempts s) a = Some t \<Longrightarrow> at_attempt_id t = a"
    and "dict_get (mm_attempts s) a = Some t \<Longrightarrow> attempt_valid t"
    and "dict_get (mm_attempts s) a = Some t \<Longrightarrow> \<exists>r. dict_get (mm_records s) (at_processing_id t) = Some r"
  using assms by (auto simp: mem_ok_defs)

lemma mem_ok_empty: "mem_ok mem_empty"
  by (simp add: mem_ok_defs mem_empty_def)

text \<open>The two writes.\<close>

lemma put_simps [simp]:
  "mm_records (put_record p r s) = dict_set p r (mm_records s)"
  "mm_attempts (put_record p r s) = mm_attempts s"
  "mm_attempt_by_processing (put_record p r s) = mm_attempt_by_processing s"
  "mm_idempotency (put_record p r s) = mm_idempotency s"
  "mm_operation_keys (put_record p r s) = mm_operation_keys s"
  "mm_attempts (put_attempt a t s) = dict_set a t (mm_attempts s)"
  "mm_records (put_attempt a t s) = mm_records s"
  "mm_attempt_by_processing (put_attempt a t s) = mm_attempt_by_processing s"
  "mm_idempotency (put_attempt a t s) = mm_idempotency s"
  "mm_operation_keys (put_attempt a t s) = mm_operation_keys s"
  by (simp_all add: put_record_def put_attempt_def)

text \<open>\<open>evolves s s'\<close>: what every step of the application does to a consistent store.\<close>

definition att_forward :: "mem \<Rightarrow> mem \<Rightarrow> bool" where
  "att_forward s s' \<longleftrightarrow> (\<forall>a st. mem_att_state s a = Some st \<longrightarrow> st \<noteq> A_PLANNED \<longrightarrow>
     (\<exists>st'. mem_att_state s' a = Some st' \<and> st' \<noteq> A_PLANNED))"

definition rec_forward :: "mem \<Rightarrow> mem \<Rightarrow> bool" where
  "rec_forward s s' \<longleftrightarrow> (\<forall>p st. mem_rec_state s p = Some st \<longrightarrow>
     (\<exists>st'. mem_rec_state s' p = Some st' \<and> (st' = st \<or> processing_transition_allowed st st')))"

definition evolves :: "mem \<Rightarrow> mem \<Rightarrow> bool" where
  "evolves s s' \<longleftrightarrow> mem_ok s' \<and> att_forward s s' \<and> rec_forward s s'"

lemma evolves_refl: "mem_ok s \<Longrightarrow> evolves s s"
  by (auto simp: evolves_def att_forward_def rec_forward_def)

lemma mem_ok_put_record:
  assumes "mem_ok s" "dict_get (mm_records s) p = Some r" "record_valid r'"
    and "pr_processing_id r' = p" "pr_idempotency_scope r' = pr_idempotency_scope r"
    "pr_idempotency_key r' = pr_idempotency_key r"
  shows "mem_ok (put_record p r' s)"
  using assms by (auto simp: mem_ok_defs intro: distinct_dict_set) fastforce+

lemma mem_ok_put_attempt:
  assumes "mem_ok s" "dict_get (mm_attempts s) a = Some t" "attempt_valid t'"
    and "at_attempt_id t' = a" "at_processing_id t' = at_processing_id t"
  shows "mem_ok (put_attempt a t' s)"
proof -
  have "attempts_ok (put_attempt a t' s)"
    unfolding attempts_ok_def
  proof (intro conjI allI impI)
    fix b u assume "dict_get (mm_attempts (put_attempt a t' s)) b = Some u"
    then show "at_attempt_id u = b" "attempt_valid u" "dict_get (mm_records (put_attempt a t' s)) (at_processing_id u) \<noteq> None"
      using assms mem_okD [OF assms(1)] by (auto split: if_splits)
  next
    fix p b assume "dict_get (mm_attempt_by_processing (put_attempt a t' s)) p = Some b"
    then obtain u where "dict_get (mm_attempts s) b = Some u" "at_processing_id u = p"
      using assms(1) unfolding mem_ok_def attempts_ok_def put_simps by blast
    then show "\<exists>u. dict_get (mm_attempts (put_attempt a t' s)) b = Some u \<and> at_processing_id u = p"
      using assms by auto
  qed
  with assms(1) show ?thesis by (simp add: mem_ok_def records_ok_def idempotency_ok_def)
qed

lemma evolves_put_record:
  assumes "mem_ok s" "dict_get (mm_records s) p = Some r" "record_valid r'"
    and "pr_processing_id r' = p" "pr_idempotency_scope r' = pr_idempotency_scope r"
    "pr_idempotency_key r' = pr_idempotency_key r"
    and "pr_state r' = pr_state r \<or> processing_transition_allowed (pr_state r) (pr_state r')"
  shows "evolves s (put_record p r' s)"
  using assms mem_ok_put_record [OF assms(1-6)]
  by (auto simp: evolves_def att_forward_def rec_forward_def mem_att_state_def mem_rec_state_def)

lemma evolves_put_attempt:
  assumes "mem_ok s" "dict_get (mm_attempts s) a = Some t" "attempt_valid t'"
    and "at_attempt_id t' = a" "at_processing_id t' = at_processing_id t" "at_state t' \<noteq> A_PLANNED"
  shows "evolves s (put_attempt a t' s)"
  using assms mem_ok_put_attempt [OF assms(1-5)]
  by (auto simp: evolves_def att_forward_def rec_forward_def mem_att_state_def mem_rec_state_def)

lemma evolves_put_both:
  assumes s: "mem_ok s" and t: "dict_get (mm_attempts s) a = Some t" "attempt_valid t'"
    "at_attempt_id t' = a" "at_processing_id t' = at_processing_id t" "at_state t' \<noteq> A_PLANNED"
    and r: "dict_get (mm_records s) p = Some r" "record_valid r'" "pr_processing_id r' = p"
    "pr_idempotency_scope r' = pr_idempotency_scope r" "pr_idempotency_key r' = pr_idempotency_key r"
    "pr_state r' = pr_state r \<or> processing_transition_allowed (pr_state r) (pr_state r')"
  shows "evolves s (put_record p r' (put_attempt a t' s))"
proof -
  have "mem_ok (put_attempt a t' s)" using s t(1-4) by (rule mem_ok_put_attempt)
  moreover have "dict_get (mm_records (put_attempt a t' s)) p = Some r" using r by simp
  ultimately have "mem_ok (put_record p r' (put_attempt a t' s))"
    using r by (intro mem_ok_put_record [where r = r]) auto
  then show "evolves s (put_record p r' (put_attempt a t' s))"
    using t r by (auto simp: evolves_def att_forward_def rec_forward_def mem_att_state_def mem_rec_state_def)
qed

lemma put_commute: "put_attempt a t (put_record p r s) = put_record p r (put_attempt a t s)"
  by (simp add: put_attempt_def put_record_def)

section \<open>The guarded pair\<close>

lemma mem_pair_Some:
  "mem_pair a ast pst s = Inr (Some (t, r)) \<longleftrightarrow>
   dict_get (mm_attempts s) a = Some t \<and> at_state t = ast
   \<and> dict_get (mm_records s) (at_processing_id t) = Some r \<and> pr_state r = pst"
  by (auto simp: mem_pair_def split: option.splits)

lemma mem_write_pair_cases:
  assumes "mem_write_pair a t p r s = (res, s')"
  shows "(\<not> attempt_valid t \<and> res = Inl ValueError \<and> s' = s)
    \<or> (attempt_valid t \<and> \<not> record_valid r \<and> res = Inl ValueError \<and> s' = put_attempt a t s)
    \<or> (attempt_valid t \<and> record_valid r \<and> res = Inr r \<and> s' = put_record p r (put_attempt a t s))"
  using assms by (auto simp: mem_write_pair_def mk_attempt_def mk_record_def split: if_splits)

lemma evolves_write_pair:
  assumes s: "mem_ok s" and pair: "mem_pair a ast pst s = Inr (Some (t, r))"
    and w: "mem_write_pair a t' (pr_processing_id r) r' s = (res, s')"
    and t': "at_attempt_id t' = at_attempt_id t" "at_processing_id t' = at_processing_id t" "at_state t' \<noteq> A_PLANNED"
    and r': "pr_processing_id r' = pr_processing_id r" "pr_idempotency_scope r' = pr_idempotency_scope r"
    "pr_idempotency_key r' = pr_idempotency_key r"
    "pr_state r' = pst \<or> processing_transition_allowed pst (pr_state r')"
  shows "evolves s s'"
proof -
  from pair have p: "dict_get (mm_attempts s) a = Some t" "dict_get (mm_records s) (at_processing_id t) = Some r"
    "pr_state r = pst" by (simp_all add: mem_pair_Some)
  then have a: "at_attempt_id t = a" and i: "pr_processing_id r = at_processing_id t"
    using mem_okD [OF s] by blast+
  from mem_write_pair_cases [OF w] show ?thesis
    using evolves_refl [OF s] evolves_put_attempt [OF s p(1), of t'] p t' r' i a
      evolves_put_both [OF s p(1) _ _ _ _ p(2), of t' r']
    by auto
qed

section \<open>Every operation\<close>

lemma transition_cases [simp]:
  "processing_transition_allowed ACCEPTED COMPLETED" "processing_transition_allowed ACCEPTED PLANNED"
  "processing_transition_allowed PLANNED SUBMITTING" "processing_transition_allowed SUBMITTING SUBMITTED"
  "processing_transition_allowed SUBMITTED COMPLETED" "processing_transition_allowed SUBMITTING RECOVERY_REQUIRED"
  "processing_transition_allowed SUBMITTED RECOVERY_REQUIRED"
  "processing_transition_allowed st FAILED \<longleftrightarrow> st \<notin> {COMPLETED, FAILED}"
  by (cases st; simp add: processing_transition_allowed_def)+

lemma accept_evolves: "mem_ok s \<Longrightarrow> evolves s (snd (mem_accept_processing p al sc k v d now s))"
proof -
  assume ok: "mem_ok s"
  let ?r = "accepted_record p al sc k v d now"
  let ?s = "(put_record p ?r s)\<lparr>mm_idempotency := dict_set (sc, k) p (mm_idempotency s)\<rparr>"
  have new: "evolves s ?s" if "dict_get (mm_records s) p = None" "record_valid ?r"
  proof -
    have "records_ok ?s" "idempotency_ok ?s"
      using ok that
      by (auto simp: mem_ok_def records_ok_def idempotency_ok_def accepted_record_def intro: distinct_dict_set)
         fastforce+
    moreover have "attempts_ok ?s"
      using ok by (auto simp: mem_ok_def attempts_ok_def)
    ultimately show ?thesis
      using that by (auto simp: evolves_def mem_ok_def att_forward_def rec_forward_def mem_att_state_def mem_rec_state_def)
  qed
  show ?thesis
    unfolding mem_accept_processing_def mk_record_def
    using new evolves_refl [OF ok] by (auto split: option.splits)
qed

lemma no_action_evolves: "mem_ok s \<Longrightarrow> evolves s (snd (mem_store_no_action_result p res now s))"
  unfolding mem_store_no_action_result_def mk_record_def
  by (auto simp: evolves_refl mem_okD intro: evolves_put_record split: option.splits)

lemma plan_evolves: "mem_ok s \<Longrightarrow> evolves s (snd (mem_store_plan p d i q b a key now s))"
proof (cases "\<exists>x. fst (mem_store_plan p d i q b a key now s) = Inr (Some x)")
  case False
  assume "mem_ok s"
  with False show ?thesis
    unfolding mem_store_plan_def mk_record_def mk_attempt_def
    by (auto simp: evolves_refl split: option.splits if_splits)
next
  case True
  assume ok: "mem_ok s"
  let ?t = "planned_attempt a p key b now"
  from True obtain cur where cur: "dict_get (mm_records s) p = Some cur" "pr_state cur = ACCEPTED"
    "dict_get (mm_attempt_by_processing s) p = None" "dict_get (mm_attempts s) a = None"
    by (auto simp: mem_store_plan_def split: option.splits if_splits)
  define r where "r = cur\<lparr>pr_state := PLANNED, pr_updated_at := now, pr_planned_decision := Some d,
                 pr_planned_incident := Some i, pr_planned_request := Some q, pr_selected_backend := Some b\<rparr>"
  define s' where "s' = (put_attempt a ?t (put_record p r s))
                     \<lparr>mm_attempt_by_processing := dict_set p a (mm_attempt_by_processing s),
                      mm_operation_keys := insert key (mm_operation_keys s)\<rparr>"
  have v: "record_valid r" "attempt_valid ?t" and s': "snd (mem_store_plan p d i q b a key now s) = s'"
    using True cur by (auto simp: mem_store_plan_def mk_record_def mk_attempt_def r_def s'_def split: if_splits)
  have "mem_ok (put_record p r s)"
    using ok cur v by (intro mem_ok_put_record [where r = cur]) (auto simp: r_def mem_okD)
  then have "records_ok s'" "idempotency_ok s'"
    by (simp_all add: mem_ok_def s'_def records_ok_def idempotency_ok_def)
  moreover have "attempts_ok s'"
    unfolding attempts_ok_def
  proof (intro conjI allI impI)
    fix c u assume "dict_get (mm_attempts s') c = Some u"
    then show "at_attempt_id u = c" "attempt_valid u" "dict_get (mm_records s') (at_processing_id u) \<noteq> None"
      using v cur mem_okD [OF ok] by (auto simp: s'_def planned_attempt_def split: if_splits)
  next
    fix p' c assume c: "dict_get (mm_attempt_by_processing s') p' = Some c"
    show "\<exists>u. dict_get (mm_attempts s') c = Some u \<and> at_processing_id u = p'"
    proof (cases "p' = p")
      case True
      with c show ?thesis by (simp add: s'_def planned_attempt_def)
    next
      case False
      with c have "dict_get (mm_attempt_by_processing s) p' = Some c" by (simp add: s'_def)
      then obtain u where u: "dict_get (mm_attempts s) c = Some u" "at_processing_id u = p'"
        using ok unfolding mem_ok_def attempts_ok_def by blast
      moreover have "c \<noteq> a" using u cur by auto
      ultimately show ?thesis by (simp add: s'_def)
    qed
  qed
  ultimately have "mem_ok s'" by (simp add: mem_ok_def)
  moreover have "att_forward s s'" using cur by (auto simp: att_forward_def mem_att_state_def s'_def)
  moreover have "rec_forward s s'" using cur by (auto simp: rec_forward_def mem_rec_state_def s'_def r_def)
  ultimately show ?thesis unfolding s' by (simp add: evolves_def)
qed

lemma step_evolves:
  assumes s: "mem_ok s"
    and t: "\<And>t. at_attempt_id (ft t) = at_attempt_id t" "\<And>t. at_processing_id (ft t) = at_processing_id t"
    "\<And>t. at_state t = ast \<Longrightarrow> at_state (ft t) \<noteq> A_PLANNED"
    and r: "\<And>r. pr_processing_id (fr r) = pr_processing_id r"
    "\<And>r. pr_idempotency_scope (fr r) = pr_idempotency_scope r"
    "\<And>r. pr_idempotency_key (fr r) = pr_idempotency_key r"
    "\<And>r. pr_state r = pst \<Longrightarrow> pr_state (fr r) = pst \<or> processing_transition_allowed pst (pr_state (fr r))"
  shows "evolves s (snd (mem_attempt_step a ast pst ft fr s))"
proof (cases "\<exists>t r. mem_pair a ast pst s = Inr (Some (t, r))")
  case True
  then obtain t' r' where p: "mem_pair a ast pst s = Inr (Some (t', r'))" by blast
  obtain res s' where w: "mem_write_pair a (ft t') (pr_processing_id r') (fr r') s = (res, s')" by fastforce
  have "evolves s s'"
    using p by (intro evolves_write_pair [OF s p w]) (simp_all add: t r mem_pair_Some)
  with p w show ?thesis by (simp add: mem_attempt_step_def split: sum.splits)
next
  case False
  then show ?thesis
    by (auto simp: mem_attempt_step_def evolves_refl [OF s] split: sum.splits option.splits)
qed

lemma claim_evolves: "mem_ok s \<Longrightarrow> evolves s (snd (mem_claim_attempt_for_submission a now s))"
  unfolding mem_claim_attempt_for_submission_def by (rule step_evolves) simp_all

lemma submitted_evolves: "mem_ok s \<Longrightarrow> evolves s (snd (mem_mark_attempt_submitted a x now s))"
  unfolding mem_mark_attempt_submitted_def by (rule step_evolves) simp_all

lemma poll_evolves: "mem_ok s \<Longrightarrow> evolves s (snd (mem_record_poll a x c d now s))"
  unfolding mem_record_poll_def by (rule step_evolves) simp_all

lemma complete_evolves: "mem_ok s \<Longrightarrow> evolves s (snd (mem_complete_processing a res now s))"
  unfolding mem_complete_processing_def mk_record_def mk_attempt_def
  by (auto simp: evolves_refl mem_pair_Some mem_okD split: sum.splits option.splits
      intro!: evolves_put_both)

lemma not_completed_failed:
  "record_valid r \<Longrightarrow> record_valid (r\<lparr>pr_state := FAILED, pr_updated_at := now, pr_failed_at := f,
     pr_error_category := c, pr_error_detail := d\<rparr>) \<Longrightarrow> pr_state r \<noteq> COMPLETED"
  by (auto simp: record_valid_def record_state_check_def)

lemma fail_evolves: "mem_ok s \<Longrightarrow> evolves s (snd (mem_fail_processing p es c d aid now s))"
proof -
  assume ok: "mem_ok s"
  show ?thesis
  proof (cases "dict_get (mm_records s) p")
    case None
    then show ?thesis by (simp add: mem_fail_processing_def evolves_refl [OF ok])
  next
    case (Some r)
    define r' where "r' = r\<lparr>pr_state := FAILED, pr_updated_at := now, pr_failed_at := Some now,
                      pr_error_category := Some c, pr_error_detail := Some d\<rparr>"
    have i: "pr_processing_id r = p" and v: "record_valid r" using mem_okD [OF ok] Some by blast+
    have r': "pr_processing_id r' = p" "pr_idempotency_scope r' = pr_idempotency_scope r"
      "pr_idempotency_key r' = pr_idempotency_key r" "pr_state r' = FAILED"
      using i by (simp_all add: r'_def)
    have st: "pr_state r' = pr_state r \<or> processing_transition_allowed (pr_state r) (pr_state r')"
      if "record_valid r'"
      using not_completed_failed [OF v that [unfolded r'_def]] r' by auto
    have one: "evolves s (put_record p r' s)" if "record_valid r'"
      using ok Some that r'(1-3) st [OF that] by (rule evolves_put_record)
    have two: "evolves s (put_attempt a t' (put_record p r' s))"
      if "record_valid r'" "dict_get (mm_attempts s) a = Some t" "attempt_valid t'"
        "t' = t\<lparr>at_state := A_FAILED, at_failed_at := Some now, at_error_category := Some c, at_error_detail := Some d\<rparr>"
      for a t t'
      using evolves_put_both [OF ok that(2,3) _ _ _ Some that(1) r'(1-3) st [OF that(1)]] that mem_okD(3) [OF ok that(2)]
      by (simp add: put_commute)
    show ?thesis
      unfolding mem_fail_processing_def fail_attempt_def mk_record_def mk_attempt_def
      using Some one two
      by (auto simp: evolves_refl [OF ok] r'_def [symmetric] Let_def split: option.splits)
  qed
qed

lemma recovery_evolves: "mem_ok s \<Longrightarrow> evolves s (snd (mem_mark_recovery_required a es c d now s))"
proof -
  assume ok: "mem_ok s"
  have "evolves s s'"
    if t: "dict_get (mm_attempts s) a = Some t" and r: "dict_get (mm_records s) (at_processing_id t) = Some r"
      and e: "expected_processing (at_state t) = Some (pr_state r)"
      and w: "mem_write_pair a (t\<lparr>at_state := A_RECOVERY_REQUIRED, at_error_category := Some c, at_error_detail := Some d\<rparr>)
                      (pr_processing_id r)
                      (r\<lparr>pr_state := RECOVERY_REQUIRED, pr_updated_at := now,
                         pr_error_category := Some c, pr_error_detail := Some d\<rparr>) s = (res, s')" for t r res s'
  proof -
    have "mem_pair a (at_state t) (pr_state r) s = Inr (Some (t, r))" using t r by (simp add: mem_pair_Some)
    moreover have "processing_transition_allowed (pr_state r) RECOVERY_REQUIRED"
      using e by (cases "at_state t") (auto dest: sym)
    ultimately show ?thesis using evolves_write_pair [OF ok _ w] by simp
  qed
  then show ?thesis
    unfolding mem_mark_recovery_required_def
    by (auto simp: evolves_refl [OF ok] split: option.splits prod.splits sum.splits)
qed

text \<open>All operations together.\<close>

lemma exec_evolves: "mem_ok s \<Longrightarrow> evolves s (exec_op memory_repository c now s)"
  by (cases c)
     (simp_all add: memory_repository_def accept_evolves no_action_evolves plan_evolves claim_evolves
       submitted_evolves poll_evolves complete_evolves fail_evolves recovery_evolves)

lemma claim_success_mem:
  assumes ok: "mem_ok s" and c: "mem_claim_attempt_for_submission a now s = (Inr (Some x), s')"
  shows "mem_att_state s a = Some A_PLANNED \<and> mem_att_state s' a = Some A_SUBMITTING \<and> at_attempt_id x = a
    \<and> mem_rec_state s' (at_processing_id x) = Some SUBMITTING"
proof -
  from c obtain t r res where p: "mem_pair a A_PLANNED PLANNED s = Inr (Some (t, r))"
    and x: "x = t\<lparr>at_state := A_SUBMITTING, at_started_at := Some now\<rparr>"
    and w: "mem_write_pair a x (pr_processing_id r) (r\<lparr>pr_state := SUBMITTING, pr_updated_at := now\<rparr>) s = (Inr res, s')"
    unfolding mem_claim_attempt_for_submission_def mem_attempt_step_def
    by (auto split: sum.splits option.splits prod.splits)
  from p have t: "dict_get (mm_attempts s) a = Some t" "at_state t = A_PLANNED"
    "dict_get (mm_records s) (at_processing_id t) = Some r"
    by (simp_all add: mem_pair_Some)
  have "at_attempt_id t = a" "pr_processing_id r = at_processing_id t" using t mem_okD [OF ok] by blast+
  with mem_write_pair_cases [OF w] t x show ?thesis
    by (auto simp: mem_att_state_def mem_rec_state_def)
qed

lemma accept_replay_mem:
  "mem_accept_processing p al sc k v d now s = (Inr acc, s') \<Longrightarrow> \<not> pa_created acc \<Longrightarrow> s' = s"
  by (auto simp: mem_accept_processing_def split: if_splits option.splits sum.splits)

lemma select_reconcilable_Inr:
  "select_reconcilable before s rs = Inr xs \<Longrightarrow>
   xs = filter (\<lambda>r. reconcilable before s r = Inr True) rs \<and> (\<forall>r \<in> set rs. \<exists>b. reconcilable before s r = Inr b)"
  by (induction rs arbitrary: xs) (auto simp: and_then_Inr split: if_splits)

lemma reconcilable_states:
  "reconcilable before s r = Inr True \<Longrightarrow> pr_state r \<in> {ACCEPTED, PLANNED, SUBMITTING, SUBMITTED}"
  by (auto simp: reconcilable_def split: if_splits)

lemma found_mem:
  assumes ok: "mem_ok s" and f: "mem_find_reconcilable n before now s = (Inr rs, s')"
  shows "int (length rs) \<le> n \<and> (\<forall>r \<in> set rs. mem_rec_state s (pr_processing_id r) = Some (pr_state r)
        \<and> pr_state r \<in> {ACCEPTED, PLANNED, SUBMITTING, SUBMITTED})"
proof -
  from f obtain xs where n: "\<not> n < 1" and xs: "select_reconcilable before s (map snd (mm_records s)) = Inr xs"
    and rs: "rs = take (nat n) (sort_key reconcile_key xs)"
    by (auto simp: mem_find_reconcilable_def and_then_Inr split: if_splits)
  have "r \<in> snd ` set (mm_records s) \<and> reconcilable before s r = Inr True" if "r \<in> set rs" for r
    using that select_reconcilable_Inr [OF xs] in_set_takeD [of r "nat n" "sort_key reconcile_key xs"]
    unfolding rs by auto
  moreover have "dict_get (mm_records s) (pr_processing_id r) = Some r" if "r \<in> snd ` set (mm_records s)" for r
  proof -
    have "distinct (map fst (mm_records s))" using ok by (simp add: mem_ok_def records_ok_def)
    with that obtain k where "dict_get (mm_records s) k = Some r" by (auto simp: dict_values)
    with mem_okD(1) [OF ok this] show ?thesis by simp
  qed
  ultimately show ?thesis
    using n by (auto simp: rs mem_rec_state_def dest: reconcilable_states)
qed

interpretation memory: processing_repository memory_repository mem_ok mem_att_state mem_rec_state
proof
  show "mem_ok s \<Longrightarrow> mem_ok (exec_op memory_repository c now s)" for s c now
    using exec_evolves by (simp add: evolves_def)
  show "mem_ok s \<Longrightarrow> mem_att_state s a = Some st \<Longrightarrow> st \<noteq> A_PLANNED \<Longrightarrow>
      \<exists>st'. mem_att_state (exec_op memory_repository c now s) a = Some st' \<and> st' \<noteq> A_PLANNED" for s a st c now
    using exec_evolves by (simp add: evolves_def att_forward_def)
  show "mem_ok s \<Longrightarrow> op_safe c \<Longrightarrow> mem_rec_state s p = Some st \<Longrightarrow>
      \<exists>st'. mem_rec_state (exec_op memory_repository c now s) p = Some st'
        \<and> (st' = st \<or> processing_transition_allowed st st')" for s c p st now
    using exec_evolves by (simp add: evolves_def rec_forward_def)
qed (auto simp: memory_repository_def mem_get_def mem_get_by_idempotency_def mem_get_attempt_def
    mem_get_attempt_for_processing_def mem_find_reconcilable_def mem_check_readiness_def
    split: option.splits dest: claim_success_mem accept_replay_mem found_mem)

end
