(* ===== verification/MemorySync.thy ===== *)
theory MemorySync
  imports MemoryProps
begin

text \<open>
  While the clock of the in-memory repository does not go back behind the creation of a record,
  an attempt and its record are always in the same lifecycle state, an accepted record has no
  attempt and a later one at most one.
\<close>

definition pair_ok :: "mem \<Rightarrow> bool" where
  "pair_ok s \<longleftrightarrow>
     (\<forall>a t. dict_get (mm_attempts s) a = Some t \<longrightarrow>
        dict_get (mm_attempt_by_processing s) (at_processing_id t) = Some a
        \<and> (\<exists>r. dict_get (mm_records s) (at_processing_id t) = Some r
             \<and> attempt_state_value (at_state t) = processing_state_value (pr_state r))
        \<and> (at_state t \<noteq> A_COMPLETED \<longrightarrow> at_completed_at t = None))"

definition mem_synced :: "mem \<Rightarrow> bool" where
  "mem_synced s \<longleftrightarrow> mem_ok s \<and> pair_ok s"

definition clock_ok :: "datetime \<Rightarrow> mem \<Rightarrow> bool" where
  "clock_ok now s \<longleftrightarrow> aware now
     \<and> list_all (\<lambda>r. \<not> dt_less now (pr_created_at r)) (map snd (mm_records s))"

lemma clock_okD:
  "clock_ok now s \<Longrightarrow> dict_get (mm_records s) p = Some r \<Longrightarrow> \<not> dt_less now (pr_created_at r)"
  "clock_ok now s \<Longrightarrow> aware now"
  by (auto simp: clock_ok_def list_all_iff dict_get_def dest!: map_of_SomeD)

lemma pair_okD:
  assumes "pair_ok s" "dict_get (mm_attempts s) a = Some t"
  shows "dict_get (mm_attempt_by_processing s) (at_processing_id t) = Some a"
    and "dict_get (mm_records s) (at_processing_id t) = Some r \<Longrightarrow>
      attempt_state_value (at_state t) = processing_state_value (pr_state r)"
    and "at_state t \<noteq> A_COMPLETED \<Longrightarrow> at_completed_at t = None"
  using assms unfolding pair_ok_def by fastforce+

lemma pair_ok_put_both:
  assumes p: "pair_ok s" and t: "dict_get (mm_attempts s) a = Some t"
    and t': "at_processing_id t' = at_processing_id t"
    "attempt_state_value (at_state t') = processing_state_value (pr_state r')"
    "at_state t' \<noteq> A_COMPLETED \<longrightarrow> at_completed_at t' = None"
  shows "pair_ok (put_record (at_processing_id t) r' (put_attempt a t' s))"
  unfolding pair_ok_def
proof (intro allI impI)
  fix b u assume u: "dict_get (mm_attempts (put_record (at_processing_id t) r' (put_attempt a t' s))) b = Some u"
  show "dict_get (mm_attempt_by_processing (put_record (at_processing_id t) r' (put_attempt a t' s))) (at_processing_id u) = Some b
        \<and> (\<exists>r. dict_get (mm_records (put_record (at_processing_id t) r' (put_attempt a t' s))) (at_processing_id u) = Some r
             \<and> attempt_state_value (at_state u) = processing_state_value (pr_state r))
        \<and> (at_state u \<noteq> A_COMPLETED \<longrightarrow> at_completed_at u = None)"
  proof (cases "b = a")
    case True
    with u t' pair_okD(1) [OF p t] show ?thesis by auto
  next
    case False
    with u have u': "dict_get (mm_attempts s) b = Some u" by simp
    with False pair_okD(1) [OF p t] pair_okD(1) [OF p u'] have "at_processing_id u \<noteq> at_processing_id t" by auto
    with p u' show ?thesis by (auto simp: pair_ok_def)
  qed
qed

text \<open>A record without an attempt, or one that keeps its state.\<close>

lemma pair_ok_put_record:
  assumes "pair_ok s" "dict_get (mm_records s) p = Some r" "pr_state r = ACCEPTED"
  shows "pair_ok (put_record p r' s)"
  unfolding pair_ok_def
proof (intro allI impI)
  fix b u assume "dict_get (mm_attempts (put_record p r' s)) b = Some u"
  then have u: "dict_get (mm_attempts s) b = Some u" by simp
  moreover have "at_processing_id u \<noteq> p"
  proof
    assume "at_processing_id u = p"
    with pair_okD(2) [OF assms(1) u] assms(2,3) show False by (cases "at_state u") auto
  qed
  ultimately show "dict_get (mm_attempt_by_processing (put_record p r' s)) (at_processing_id u) = Some b
        \<and> (\<exists>r. dict_get (mm_records (put_record p r' s)) (at_processing_id u) = Some r
             \<and> attempt_state_value (at_state u) = processing_state_value (pr_state r))
        \<and> (at_state u \<noteq> A_COMPLETED \<longrightarrow> at_completed_at u = None)"
    using assms(1) by (auto simp: pair_ok_def)
qed

section \<open>The record follows the attempt\<close>

lemma record_valid_active:
  assumes v: "record_valid r" and st: "pr_state r \<in> {PLANNED, SUBMITTING, SUBMITTED}"
    and X: "X \<in> {SUBMITTING, SUBMITTED, RECOVERY_REQUIRED}"
    and n: "aware now" "\<not> dt_less now (pr_created_at r)"
    and e: "bounded_error c" "bounded_error d" "c = None \<longleftrightarrow> d = None"
  shows "record_valid (r\<lparr>pr_state := X, pr_updated_at := now, pr_error_category := c, pr_error_detail := d\<rparr>)"
proof -
  let ?r = "r\<lparr>pr_state := X, pr_updated_at := now, pr_error_category := c, pr_error_detail := d\<rparr>"
  have "record_common ?r"
    using v n e unfolding record_valid_def record_common_def by simp
  moreover have "full_plan r \<and> pr_completed_result r = None"
    using v st unfolding record_valid_def record_state_check_def by auto
  then have "record_state_check ?r"
    using X unfolding record_state_check_def full_plan_def by auto
  moreover have "record_graph_check ?r"
    using v unfolding record_valid_def record_graph_check_def by (simp cong: option.case_cong)
  ultimately show ?thesis by (simp add: record_valid_def)
qed

lemma record_valid_moves:
  assumes "record_valid r" "pr_state r \<in> {PLANNED, SUBMITTING, SUBMITTED}"
    and "X \<in> {SUBMITTING, SUBMITTED, RECOVERY_REQUIRED}"
    and "aware now" "\<not> dt_less now (pr_created_at r)"
  shows "record_valid (r\<lparr>pr_state := X, pr_updated_at := now\<rparr>)"
proof -
  have "bounded_error (pr_error_category r)" "bounded_error (pr_error_detail r)"
    "pr_error_category r = None \<longleftrightarrow> pr_error_detail r = None"
    using assms(1) by (simp_all add: record_valid_def record_common_def)
  from record_valid_active [OF assms this] show ?thesis by simp
qed

lemma attempt_valid_errors:
  "attempt_valid t \<Longrightarrow> bounded_error (at_error_category t) \<and> bounded_error (at_error_detail t)
     \<and> (at_error_category t = None \<longleftrightarrow> at_error_detail t = None)"
  by (simp add: attempt_valid_def)

lemma synced_write_pair:
  assumes s: "mem_synced s" and pair: "mem_pair a ast pst s = Inr (Some (t, r))"
    and w: "mem_write_pair a t' (pr_processing_id r) r' s = (res, s')"
    and ev: "mem_ok s'"
    and t': "at_processing_id t' = at_processing_id t" "at_completed_at t' = at_completed_at t"
    "at_state t \<noteq> A_COMPLETED" "attempt_state_value (at_state t') = processing_state_value (pr_state r')"
    and v: "attempt_valid t' \<Longrightarrow> record_valid r'"
  shows "mem_synced s'"
proof -
  from s have ok: "mem_ok s" and p: "pair_ok s" by (simp_all add: mem_synced_def)
  from pair have g: "dict_get (mm_attempts s) a = Some t" "dict_get (mm_records s) (at_processing_id t) = Some r"
    by (simp_all add: mem_pair_Some)
  have i: "pr_processing_id r = at_processing_id t" using mem_okD(1) [OF ok] g by blast
  have c: "at_completed_at t' = None" using pair_okD(3) [OF p g(1)] t' by simp
  from mem_write_pair_cases [OF w] v show ?thesis
    using s pair_ok_put_both [OF p g(1) t'(1,4)] c i ev by (auto simp: mem_synced_def)
qed

lemma evolves_ok: "evolves s s' \<Longrightarrow> mem_ok s'"
  by (simp add: evolves_def)

text \<open>The three attempt steps: the new record is valid whenever the new attempt is.\<close>

lemma step_synced:
  assumes s: "mem_synced s" and ev: "mem_ok (snd (mem_attempt_step a ast pst ft fr s))" and ast: "ast \<noteq> A_COMPLETED"
    and t: "\<And>t. at_processing_id (ft t) = at_processing_id t" "\<And>t. at_completed_at (ft t) = at_completed_at t"
    and agree: "\<And>t r. at_state t = ast \<Longrightarrow> pr_state r = pst \<Longrightarrow>
      attempt_state_value (at_state (ft t)) = processing_state_value (pr_state (fr r))"
    and v: "\<And>t r. attempt_valid (ft t) \<Longrightarrow> dict_get (mm_records s) (at_processing_id t) = Some r \<Longrightarrow>
      record_valid r \<Longrightarrow> pr_state r = pst \<Longrightarrow> record_valid (fr r)"
  shows "mem_synced (snd (mem_attempt_step a ast pst ft fr s))"
proof (cases "\<exists>t r. mem_pair a ast pst s = Inr (Some (t, r))")
  case True
  then obtain t' r' where p: "mem_pair a ast pst s = Inr (Some (t', r'))" by blast
  then have g: "at_state t' = ast" "pr_state r' = pst" "dict_get (mm_records s) (at_processing_id t') = Some r'"
    by (simp_all add: mem_pair_Some)
  obtain res s' where w: "mem_write_pair a (ft t') (pr_processing_id r') (fr r') s = (res, s')" by fastforce
  then have s': "snd (mem_attempt_step a ast pst ft fr s) = s'"
    by (simp add: mem_attempt_step_def p split: sum.splits)
  have "mem_ok s" using s by (simp add: mem_synced_def)
  then have r: "record_valid r'" using g(3) by (rule mem_okD(2))
  show ?thesis
    unfolding s' using ev [unfolded s'] ast g
    by (intro synced_write_pair [OF s p w]) (simp_all add: t agree v [OF _ g(3) r g(2)])
next
  case False
  then show ?thesis using s
    by (auto simp: mem_attempt_step_def split: sum.splits option.splits)
qed

lemma synced_ok: "mem_synced s \<Longrightarrow> mem_ok s"
  by (simp add: mem_synced_def)

lemmas step_ok = claim_evolves [THEN evolves_ok, OF synced_ok]
  submitted_evolves [THEN evolves_ok, OF synced_ok] poll_evolves [THEN evolves_ok, OF synced_ok]

lemma claim_synced:
  assumes "mem_synced s" and c: "clock_ok now s"
  shows "mem_synced (snd (mem_claim_attempt_for_submission a now s))"
  using step_ok(1) [OF assms(1), of a now] unfolding mem_claim_attempt_for_submission_def
  by (intro step_synced assms(1)) (auto intro!: record_valid_moves simp: clock_okD [OF c])

lemma submitted_synced:
  assumes "mem_synced s" and c: "clock_ok now s"
  shows "mem_synced (snd (mem_mark_attempt_submitted a x now s))"
  using step_ok(2) [OF assms(1), of a x now] unfolding mem_mark_attempt_submitted_def
  by (intro step_synced assms(1)) (auto intro!: record_valid_moves simp: clock_okD [OF c])

lemma poll_synced:
  assumes "mem_synced s" and c: "clock_ok now s"
  shows "mem_synced (snd (mem_record_poll a x cat det now s))"
  using step_ok(3) [OF assms(1), of a x cat det now] unfolding mem_record_poll_def
proof (intro step_synced assms(1))
  fix t r
  assume t: "attempt_valid (t\<lparr>at_last_polled_at := Some now, at_last_remote_state := Some x,
              at_error_category := cat, at_error_detail := det\<rparr>)"
    and r: "dict_get (mm_records s) (at_processing_id t) = Some r" "record_valid r" "pr_state r = SUBMITTED"
  have "record_valid (r\<lparr>pr_state := SUBMITTED, pr_updated_at := now, pr_error_category := cat, pr_error_detail := det\<rparr>)"
    using r attempt_valid_errors [OF t] clock_okD [OF c] by (intro record_valid_active) auto
  moreover have "r\<lparr>pr_state := SUBMITTED, pr_updated_at := now, pr_error_category := cat, pr_error_detail := det\<rparr>
    = r\<lparr>pr_updated_at := now, pr_error_category := cat, pr_error_detail := det\<rparr>"
    using r(3) by simp
  ultimately show "record_valid (r\<lparr>pr_updated_at := now, pr_error_category := cat, pr_error_detail := det\<rparr>)"
    by simp
qed simp_all

lemma recovery_synced:
  assumes s: "mem_synced s" and c: "clock_ok now s"
  shows "mem_synced (snd (mem_mark_recovery_required a es cat det now s))"
proof -
  have ok: "mem_ok s" using s by (rule synced_ok)
  note ev = recovery_evolves [OF ok, THEN evolves_ok, of a es cat det now]
  have main: "mem_synced s'"
    if t: "dict_get (mm_attempts s) a = Some t" and r: "dict_get (mm_records s) (at_processing_id t) = Some r"
      and e: "expected_processing (at_state t) = Some (pr_state r)" and k: "mem_ok s'"
      and w: "mem_write_pair a (t\<lparr>at_state := A_RECOVERY_REQUIRED, at_error_category := Some cat, at_error_detail := Some det\<rparr>)
                      (pr_processing_id r)
                      (r\<lparr>pr_state := RECOVERY_REQUIRED, pr_updated_at := now,
                         pr_error_category := Some cat, pr_error_detail := Some det\<rparr>) s = (res, s')" for t r res s'
  proof -
    have p: "mem_pair a (at_state t) (pr_state r) s = Inr (Some (t, r))" using t r by (simp add: mem_pair_Some)
    have st: "pr_state r \<in> {SUBMITTING, SUBMITTED}" "at_state t \<noteq> A_COMPLETED"
      using e by (cases "at_state t"; auto)+
    show ?thesis
    proof (rule synced_write_pair [OF s p w k])
      assume "attempt_valid (t\<lparr>at_state := A_RECOVERY_REQUIRED, at_error_category := Some cat, at_error_detail := Some det\<rparr>)"
      from attempt_valid_errors [OF this] mem_okD(2) [OF ok r] st clock_okD(1) [OF c r] clock_okD(2) [OF c]
      show "record_valid (r\<lparr>pr_state := RECOVERY_REQUIRED, pr_updated_at := now,
                         pr_error_category := Some cat, pr_error_detail := Some det\<rparr>)"
        by (intro record_valid_active) auto
    qed (use st in simp_all)
  qed
  show ?thesis
    using ev s unfolding mem_mark_recovery_required_def
    by (auto split: option.splits prod.splits sum.splits if_splits intro: main)
qed

lemma accept_synced:
  assumes s: "mem_synced s"
  shows "mem_synced (snd (mem_accept_processing p al sc k v d now s))"
proof -
  have ok: "mem_ok s" and pr: "pair_ok s" using s by (simp_all add: mem_synced_def)
  note ev = accept_evolves [OF ok, THEN evolves_ok, of p al sc k v d now]
  have "pair_ok ((put_record p r s)\<lparr>mm_idempotency := x\<rparr>)" if "dict_get (mm_records s) p = None" for r x
    unfolding pair_ok_def
  proof (intro allI impI)
    fix b u assume "dict_get (mm_attempts ((put_record p r s)\<lparr>mm_idempotency := x\<rparr>)) b = Some u"
    then have u: "dict_get (mm_attempts s) b = Some u" by simp
    moreover have "at_processing_id u \<noteq> p" using mem_okD(5) [OF ok u] that by auto
    ultimately show "dict_get (mm_attempt_by_processing ((put_record p r s)\<lparr>mm_idempotency := x\<rparr>)) (at_processing_id u) = Some b
        \<and> (\<exists>q. dict_get (mm_records ((put_record p r s)\<lparr>mm_idempotency := x\<rparr>)) (at_processing_id u) = Some q
             \<and> attempt_state_value (at_state u) = processing_state_value (pr_state q))
        \<and> (at_state u \<noteq> A_COMPLETED \<longrightarrow> at_completed_at u = None)"
      using pr by (auto simp: pair_ok_def)
  qed
  with ev s show ?thesis
    by (auto simp: mem_accept_processing_def mem_synced_def split: option.splits sum.splits if_splits)
qed

lemma no_action_synced:
  assumes s: "mem_synced s"
  shows "mem_synced (snd (mem_store_no_action_result p res now s))"
  using no_action_evolves [OF synced_ok [OF s], THEN evolves_ok, of p res now] s
  unfolding mem_store_no_action_result_def mem_synced_def
  by (auto split: option.splits sum.splits if_splits intro: pair_ok_put_record)

lemma plan_synced:
  assumes s: "mem_synced s"
  shows "mem_synced (snd (mem_store_plan p d i q b a key now s))"
proof -
  have ok: "mem_ok s" and pr: "pair_ok s" using s by (simp_all add: mem_synced_def)
  note ev = plan_evolves [OF ok, THEN evolves_ok, of p d i q b a key now]
  have main: "pair_ok ((put_attempt a (planned_attempt a p key b now) (put_record p r s))
        \<lparr>mm_attempt_by_processing := dict_set p a (mm_attempt_by_processing s), mm_operation_keys := x\<rparr>)"
    if cur: "dict_get (mm_records s) p = Some cur" "pr_state cur = ACCEPTED" "pr_state r = PLANNED" for cur r x
    unfolding pair_ok_def
  proof (intro allI impI)
    fix c u
    let ?s = "(put_attempt a (planned_attempt a p key b now) (put_record p r s))
        \<lparr>mm_attempt_by_processing := dict_set p a (mm_attempt_by_processing s), mm_operation_keys := x\<rparr>"
    assume u: "dict_get (mm_attempts ?s) c = Some u"
    show "dict_get (mm_attempt_by_processing ?s) (at_processing_id u) = Some c
        \<and> (\<exists>q. dict_get (mm_records ?s) (at_processing_id u) = Some q
             \<and> attempt_state_value (at_state u) = processing_state_value (pr_state q))
        \<and> (at_state u \<noteq> A_COMPLETED \<longrightarrow> at_completed_at u = None)"
    proof (cases "c = a")
      case True
      with u cur show ?thesis by (auto simp: planned_attempt_def)
    next
      case False
      with u have u': "dict_get (mm_attempts s) c = Some u" by simp
      have "at_processing_id u \<noteq> p"
      proof
        assume "at_processing_id u = p"
        with pair_okD(2) [OF pr u'] cur show False by (cases "at_state u") auto
      qed
      with pr u' show ?thesis by (auto simp: pair_ok_def)
    qed
  qed
  show ?thesis
    using ev s unfolding mem_store_plan_def mem_synced_def
    by (auto split: option.splits sum.splits if_splits intro!: main)
qed

lemma complete_synced:
  assumes s: "mem_synced s"
  shows "mem_synced (snd (mem_complete_processing a res now s))"
proof -
  have ok: "mem_ok s" and pr: "pair_ok s" using s by (simp_all add: mem_synced_def)
  note ev = complete_evolves [OF ok, THEN evolves_ok, of a res now]
  show ?thesis
    using ev s unfolding mem_complete_processing_def mem_synced_def
    by (auto simp: mem_pair_Some mem_okD [OF ok] split: option.splits sum.splits if_splits
        intro!: pair_ok_put_both)
qed

lemma attempt_valid_failed:
  assumes "attempt_valid t" "at_completed_at t = None" "aware now"
    and "bounded_error (Some c)" "bounded_error (Some d)"
  shows "attempt_valid (t\<lparr>at_state := A_FAILED, at_failed_at := Some now,
    at_error_category := Some c, at_error_detail := Some d\<rparr>)"
  using assms unfolding attempt_valid_def attempt_state_check_def by simp

lemma fail_synced:
  assumes s: "mem_synced s" and n: "clock_ok now s"
    and safe: "op_safe (Op_fail p es c d aid)"
  shows "mem_synced (snd (mem_fail_processing p es c d aid now s))"
proof (cases "\<exists>r. dict_get (mm_records s) p = Some r \<and> pr_state r \<in> es")
  case False
  then show ?thesis using s by (auto simp: mem_fail_processing_def split: option.splits)
next
  case True
  then obtain r where r: "dict_get (mm_records s) p = Some r" "pr_state r \<in> es" by blast
  have ok: "mem_ok s" and pr: "pair_ok s" using s by (simp_all add: mem_synced_def)
  note ev = fail_evolves [OF ok, THEN evolves_ok, of p es c d aid now]
  define r' where "r' = r\<lparr>pr_state := FAILED, pr_updated_at := now, pr_failed_at := Some now,
                      pr_error_category := Some c, pr_error_detail := Some d\<rparr>"
  show ?thesis
  proof (cases aid)
    case None
    with safe r have "pr_state r = ACCEPTED" by auto
    with ev s r None pair_ok_put_record [OF pr r(1), of r'] show ?thesis
      by (auto simp: mem_fail_processing_def fail_attempt_def mem_synced_def r'_def split: sum.splits)
  next
    case (Some a)
    show ?thesis
    proof (cases "fail_attempt aid p s")
      case None
      with r s show ?thesis by (simp add: mem_fail_processing_def)
    next
      case (Some x)
      with \<open>aid = Some a\<close> obtain t where t: "dict_get (mm_attempts s) a = Some t" "at_processing_id t = p"
        "at_state t \<in> {A_PLANNED, A_SUBMITTING, A_SUBMITTED, A_RECOVERY_REQUIRED}" "x = Some t"
        by (auto simp: fail_attempt_def split: option.splits if_splits)
      define t' where "t' = t\<lparr>at_state := A_FAILED, at_failed_at := Some now,
                                at_error_category := Some c, at_error_detail := Some d\<rparr>"
      show ?thesis
      proof (cases "record_valid r'")
        case False
        with r s Some show ?thesis by (simp add: mem_fail_processing_def r'_def [symmetric] mk_record_def)
      next
        case True
        then have "bounded_error (Some c)" "bounded_error (Some d)"
          by (simp_all add: record_valid_def record_common_def r'_def)
        moreover have "at_completed_at t = None" using pair_okD(3) [OF pr t(1)] t(3) by auto
        ultimately have v: "attempt_valid t'"
          unfolding t'_def using mem_okD(4) [OF ok t(1)] clock_okD(2) [OF n] by (intro attempt_valid_failed)
        have res: "snd (mem_fail_processing p es c d aid now s) = put_record p r' (put_attempt a t' s)"
          using r Some t True v \<open>aid = Some a\<close>
          by (simp add: mem_fail_processing_def r'_def [symmetric] t'_def [symmetric] mk_record_def mk_attempt_def Let_def
              put_commute)
        have "pair_ok (put_record (at_processing_id t) r' (put_attempt a t' s))"
          using \<open>at_completed_at t = None\<close> by (intro pair_ok_put_both [OF pr t(1)]) (simp_all add: t'_def r'_def)
        with ev res t show ?thesis by (simp add: mem_synced_def)
      qed
    qed
  qed
qed

lemma exec_synced:
  "mem_synced s \<Longrightarrow> clock_ok now s \<Longrightarrow> op_safe c \<Longrightarrow> mem_synced (exec_op memory_repository c now s)"
  by (cases c)
     (simp_all add: memory_repository_def accept_synced no_action_synced plan_synced claim_synced
       submitted_synced poll_synced complete_synced fail_synced recovery_synced del: op_safe.simps)

lemma mem_synced_empty: "mem_synced mem_empty"
  by (simp add: mem_synced_def mem_ok_empty pair_ok_def) (simp add: mem_empty_def)

end
