(* ===== verification/ProcessorProps.thy ===== *)
theory ProcessorProps
  imports Processor MemorySync
begin

text \<open>
  Invariants of the processor over any repository that satisfies the laws, under arbitrary
  interference and faults: an attempt is claimed and submitted at most once, a submission
  belongs to an attempt that this processor claimed, metric values stay in their vocabularies,
  and durable states only move along the table of transitions.
\<close>

section \<open>The trace\<close>

definition claimed :: "event list \<Rightarrow> uuid list" where
  "claimed evs = concat (map (\<lambda>e. case e of Ev_claim own a \<Rightarrow> [a] | _ \<Rightarrow> []) evs)"

definition own_claimed :: "event list \<Rightarrow> uuid list" where
  "own_claimed evs = concat (map (\<lambda>e. case e of Ev_claim own a \<Rightarrow> if own then [a] else [] | _ \<Rightarrow> []) evs)"

definition submitted :: "event list \<Rightarrow> uuid list" where
  "submitted evs = concat (map (\<lambda>e. case e of Ev_submit a b k t \<Rightarrow> [a] | _ \<Rightarrow> []) evs)"

lemma trace_simps [simp]:
  "claimed [] = []" "own_claimed [] = []" "submitted [] = []"
  "claimed (es @ fs) = claimed es @ claimed fs" "own_claimed (es @ fs) = own_claimed es @ own_claimed fs"
  "submitted (es @ fs) = submitted es @ submitted fs"
  "claimed [Ev_claim own a] = [a]" "own_claimed [Ev_claim own a] = (if own then [a] else [])"
  "submitted [Ev_claim own a] = []"
  "claimed [Ev_submit a b k t] = []" "own_claimed [Ev_submit a b k t] = []" "submitted [Ev_submit a b k t] = [a]"
  "claimed [Ev_poll a b x t] = []" "own_claimed [Ev_poll a b x t] = []" "submitted [Ev_poll a b x t] = []"
  "claimed [Ev_collect a b x] = []" "own_claimed [Ev_collect a b x] = []" "submitted [Ev_collect a b x] = []"
  by (simp_all add: claimed_def own_claimed_def submitted_def)

lemma own_claimed_subset: "set (own_claimed evs) \<subseteq> set (claimed evs)"
  by (induction evs) (auto simp: claimed_def own_claimed_def split: event.splits)

text \<open>What every state-changing call of the processor is: one safe operation; or a reading.\<close>

definition op_like :: "'s repository \<Rightarrow> ('s, 'a) op \<Rightarrow> bool" where
  "op_like R c \<longleftrightarrow> (\<forall>now s. snd (c now s) = s \<or> (\<exists>c'. op_safe c' \<and> snd (c now s) = exec_op R c' now s))"

lemma op_likeI: "op_safe c' \<Longrightarrow> (\<And>now s. snd (c now s) = exec_op R c' now s) \<Longrightarrow> op_like R c"
  by (auto simp: op_like_def)

lemma op_like_writes:
  "op_like R (rp_accept_processing R p al sc k v d)"
  "op_like R (rp_store_no_action_result R p res)"
  "op_like R (rp_store_plan R p de i q b a key)"
  "op_like R (rp_claim_attempt_for_submission R a)"
  "op_like R (rp_mark_attempt_submitted R a x)"
  "op_like R (rp_record_poll R a x c dt)"
  "op_like R (rp_complete_processing R a res)"
  "op_like R (rp_mark_recovery_required R a es c' d')"
  by (rule op_likeI [where c' = "Op_accept p al sc k v d"], simp_all)
     (rule op_likeI [where c' = "Op_no_action p res"], simp_all,
      rule op_likeI [where c' = "Op_plan p de i q b a key"], simp_all,
      rule op_likeI [where c' = "Op_claim a"], simp_all,
      rule op_likeI [where c' = "Op_submitted a x"], simp_all,
      rule op_likeI [where c' = "Op_poll a x c dt"], simp_all,
      rule op_likeI [where c' = "Op_complete a res"], simp_all,
      rule op_likeI [where c' = "Op_recovery a es c' d'"], simp_all)

lemma op_like_fail:
  "op_safe (Op_fail p es c d a) \<Longrightarrow> op_like R (rp_fail_processing R p es c d a)"
  by (rule op_likeI [where c' = "Op_fail p es c d a"]) simp_all

lemma yields_keeps: "keeps I m \<Longrightarrow> (\<And>w. P w \<Longrightarrow> I w) \<Longrightarrow> yields P m (\<lambda>_. I) (\<lambda>_. I)"
  unfolding keeps_iff_yields by (erule yields_weaken) auto

lemma repo_claim_run:
  "repo_claim R E a w =
     (case repo_call R E (rp_claim_attempt_for_submission R a) w of
        (Inl e, w') \<Rightarrow> (Inl e, w')
      | (Inr None, w') \<Rightarrow> (Inr None, w')
      | (Inr (Some x), w') \<Rightarrow>
          (Inr (Some x), w'\<lparr>w_events := w_events w' @ [Ev_claim True (at_attempt_id x)]\<rparr>))"
  by (simp add: repo_claim_def bind_def then_do_def trace_def modify_def ret_def split: prod.splits sum.splits option.splits)

context processing_repository
begin

lemma op_like_reads:
  "op_like R (rp_get R p)" "op_like R (rp_get_attempt_for_processing R p)"
  "op_like R (rp_find_reconcilable R n before)"
  by (simp_all add: op_like_def reads)

definition safe_events :: "uuid set \<Rightarrow> 's \<Rightarrow> event list \<Rightarrow> bool" where
  "safe_events D s evs \<longleftrightarrow>
     distinct (claimed evs) \<and> distinct (submitted evs) \<and> set (submitted evs) \<subseteq> set (own_claimed evs)
     \<and> D \<inter> set (claimed evs) = {}
     \<and> (\<forall>a \<in> D. \<exists>st. att_state s a = Some st \<and> st \<noteq> A_PLANNED)
     \<and> (\<forall>a \<in> set (claimed evs). \<exists>st. att_state s a = Some st \<and> st \<noteq> A_PLANNED)"

text \<open>\<open>J\<close> is any property of the store that the operations of \<open>A\<close> keep, \<open>D\<close> a set of attempts that
  have left PLANNED before.\<close>

definition safe_world :: "('s \<Rightarrow> bool) \<Rightarrow> uuid set \<Rightarrow> 's world \<Rightarrow> bool" where
  "safe_world J D w \<longleftrightarrow> ok (w_repo w) \<and> J (w_repo w) \<and> safe_events D (w_repo w) (w_events w)
     \<and> list_all metric_bounded (w_metrics w)"

definition admits :: "env \<Rightarrow> ('s \<Rightarrow> bool) \<Rightarrow> repo_op set \<Rightarrow> bool" where
  "admits E J A \<longleftrightarrow> Collect op_safe \<subseteq> A \<and> (\<forall>t. fst ` set (e_others E t) \<subseteq> A)
     \<and> (\<forall>s c now. ok s \<longrightarrow> J s \<longrightarrow> c \<in> A \<longrightarrow> J (exec_op R c now s))"

lemma admits_stable: "admits E J A \<Longrightarrow> ok s \<Longrightarrow> J s \<Longrightarrow> op_safe c \<Longrightarrow> J (exec_op R c now s)"
  by (auto simp: admits_def)

section \<open>Primitive actions keep the invariant\<close>

lemma safe_events_exec:
  assumes "ok s" "safe_events D s evs"
  shows "safe_events D (exec_op R c now s) evs"
  using assms attempt_leaves_planned [OF assms(1)] unfolding safe_events_def by fastforce

lemma safe_events_others:
  assumes s: "ok s" and ev: "safe_events D s evs"
  shows "safe_events D (exec_op R c now s) (evs @ claims_of R c now s)"
proof (cases "claims_of R c now s = []")
  case True
  with safe_events_exec [OF assms] show ?thesis by simp
next
  case False
  then obtain a x where c: "c = Op_claim a" and x: "fst (rp_claim_attempt_for_submission R a now s) = Inr (Some x)"
    by (cases "(R, c, now, s)" rule: claims_of.cases) (auto split: sum.splits option.splits)
  from x have "rp_claim_attempt_for_submission R a now s = (Inr (Some x), exec_op R c now s)"
    using c by (simp add: prod_eq_iff)
  from claim_success [OF s this] have a: "att_state s a = Some A_PLANNED"
    "att_state (exec_op R c now s) a = Some A_SUBMITTING" by auto
  moreover have "a \<notin> D" "a \<notin> set (claimed evs)" using ev a(1) by (auto simp: safe_events_def)
  ultimately show ?thesis
    using safe_events_exec [OF assms, of c now] c x by (auto simp: safe_events_def)
qed

lemma run_others_safe:
  assumes "admits E J A"
  shows "safe_world J D w \<Longrightarrow> fst ` set cs \<subseteq> A \<Longrightarrow> safe_world J D (run_others R cs w)"
proof (induction cs arbitrary: w)
  case (Cons p cs)
  obtain c now where p: "p = (c, now)" by fastforce
  let ?w = "w\<lparr>w_repo := exec_op R c now (w_repo w), w_events := w_events w @ claims_of R c now (w_repo w)\<rparr>"
  have "safe_world J D ?w"
    using Cons.prems p assms ok_exec safe_events_others [of "w_repo w" D "w_events w" c now]
    by (auto simp: safe_world_def admits_def)
  with Cons.IH [of ?w] Cons.prems p show ?case by simp
qed simp

lemma safe_world_step [simp]: "safe_world J D (w\<lparr>w_step := n\<rparr>) = safe_world J D w"
  by (simp add: safe_world_def)

lemma safe_world_context [simp]: "safe_world J D (w\<lparr>w_context := c\<rparr>) = safe_world J D w"
  by (simp add: safe_world_def)

lemma safe_world_op:
  assumes r: "admits E J A" and w: "safe_world J D w" and c: "op_like R c"
  shows "safe_world J D (w\<lparr>w_repo := snd (c now (w_repo w))\<rparr>)"
proof -
  from c consider "snd (c now (w_repo w)) = w_repo w"
    | c' where "op_safe c'" "snd (c now (w_repo w)) = exec_op R c' now (w_repo w)"
    by (auto simp: op_like_def)
  then show ?thesis
    by cases (use w ok_exec safe_events_exec admits_stable [OF r] in \<open>auto simp: safe_world_def\<close>)
qed

lemma keeps_repo_call [keeps_intro]:
  assumes r: "admits E J A" and c: "op_like R c"
  shows "keeps (safe_world J D) (repo_call R E c)"
proof (rule keepsI)
  fix w res w' assume w: "safe_world J D w" and run: "repo_call R E c w = (res, w')"
  define w1 where "w1 = (run_others R (e_others E (w_step w)) w)\<lparr>w_step := Suc (w_step w)\<rparr>"
  have w1: "safe_world J D w1"
    using run_others_safe [OF r w] r by (auto simp: w1_def admits_def)
  from safe_world_op [OF r w1 c] run w1 show "safe_world J D w'"
    by (auto simp: repo_call_def Let_def w1_def [symmetric] split: fault.splits prod.splits) (metis snd_conv)
qed

lemma keeps_emit [keeps_intro]: "metric_bounded m \<Longrightarrow> keeps (safe_world J D) (emit m)"
  unfolding emit_def by (rule keeps_modify) (simp add: safe_world_def)

lemma keeps_trace_call:
  "(\<And>s evs. safe_events D s evs \<Longrightarrow> safe_events D s (evs @ [ev])) \<Longrightarrow> keeps (safe_world J D) (trace_call ev)"
  unfolding trace_call_def by (rule keeps_modify) (simp add: safe_world_def)

lemma keeps_trace_reading [keeps_intro]:
  "keeps (safe_world J D) (trace_call (Ev_poll a b x t))" "keeps (safe_world J D) (trace_call (Ev_collect a b x))"
  by (rule keeps_trace_call; simp add: safe_events_def)+

lemma keeps_context [keeps_intro]: "keeps (safe_world J D) (context_do f)"
  unfolding context_do_def by (rule keeps_modify) simp

lemma keeps_observe [keeps_intro]: "keeps (safe_world J D) (observe f)"
  by (simp add: keeps_def observe_def)

lemma keeps_backend_call [keeps_intro]:
  "keeps (safe_world J D) (trace_call ev) \<Longrightarrow> keeps (safe_world J D) (backend_call ev f)"
  unfolding backend_call_def by (intro keeps_intro)

lemma keeps_emit_all [keeps_intro]:
  "list_all metric_bounded ms \<Longrightarrow> keeps (safe_world J D) (foldr (\<lambda>m k. then_do (emit m) k) ms (ret ()))"
  by (induction ms) (auto intro!: keeps_intro)

section \<open>The methods keep it\<close>

lemma keeps_reread [keeps_intro]: "admits E J A \<Longrightarrow> keeps (safe_world J D) (reread R E p)"
  unfolding reread_def by (intro keeps_intro op_like_reads)

lemma keeps_remaining [keeps_intro]: "keeps (safe_world J D) (remaining_seconds E d)"
  unfolding remaining_seconds_def by (intro keeps_intro)

lemma keeps_durable [keeps_intro]:
  "admits E J A \<Longrightarrow> list_all metric_bounded ms \<Longrightarrow> keeps (safe_world J D) (durable_or_reread R E r p st ms)"
  unfolding durable_or_reread_def by (intro keeps_intro)

lemma keeps_mark_recovery [keeps_intro]:
  "admits E J A \<Longrightarrow> list_all metric_bounded ms \<Longrightarrow> keeps (safe_world J D) (mark_recovery R E a st c d p ms)"
  unfolding mark_recovery_def by (intro keeps_intro op_like_writes)

lemma keeps_collect_result [keeps_intro]: "keeps (safe_world J D) (collect_result r a b n q x)"
  unfolding collect_result_def backend_collect_def
  by (intro keeps_intro) (auto intro!: keeps_intro split: option.splits)

lemma keeps_handle_status [keeps_intro]:
  "admits E J A \<Longrightarrow> keeps (safe_world J D) (handle_status R E r a d b n q x st)"
  unfolding handle_status_def Let_def recovery_metric_def
  by (cases "os_state st"; simp; (cases "the (os_state st)"; simp)?)
     (intro keeps_intro op_like_writes op_like_fail; simp add: recorded_bounded)+

lemma keeps_backend_poll [keeps_intro]:
  "keeps (safe_world J D) (backend_poll a b q x t)"
  unfolding backend_poll_def by (intro keeps_intro)

lemma keeps_poll_submitted [keeps_intro]:
  "admits E J A \<Longrightarrow> keeps (safe_world J D) (poll_submitted R E r a d)"
  unfolding poll_submitted_def Let_def recovery_metric_def
  by (auto split: option.splits simp: recorded_bounded intro!: keeps_intro op_like_writes)

lemma keeps_after_submission [keeps_intro]:
  "admits E J A \<Longrightarrow> keeps (safe_world J D) (after_submission R E r c d n s)"
  unfolding after_submission_def Let_def
  by (intro keeps_intro op_like_writes recorded_bounded)

text \<open>A claimed attempt that has not been submitted yet may be, once.\<close>

definition ready :: "('s \<Rightarrow> bool) \<Rightarrow> uuid set \<Rightarrow> uuid \<Rightarrow> 's world \<Rightarrow> bool" where
  "ready J D a w \<longleftrightarrow> safe_world J D w \<and> a \<in> set (own_claimed (w_events w)) \<and> a \<notin> set (submitted (w_events w))"

lemma ready_safe: "ready J D a w \<Longrightarrow> safe_world J D w"
  by (simp add: ready_def)

lemma ready_keeps [keeps_intro]:
  "metric_bounded m \<Longrightarrow> keeps (ready J D a) (emit m)" "keeps (ready J D a) (context_do f)"
  "keeps (ready J D a) (observe g)"
  unfolding emit_def context_do_def
  by (auto simp: ready_def safe_world_def keeps_def observe_def modify_def)

lemma ready_remaining [keeps_intro]: "keeps (ready J D a) (remaining_seconds E d)"
  unfolding remaining_seconds_def by (intro keeps_intro)

lemma claim_ready:
  assumes "admits E J A"
  shows "yields (safe_world J D) (repo_claim R E a)
    (\<lambda>c w. case c of None \<Rightarrow> safe_world J D w | Some x \<Rightarrow> ready J D (at_attempt_id x) w) (\<lambda>_. safe_world J D)"
proof (rule yieldsI)
  let ?call = "repo_call R E (rp_claim_attempt_for_submission R a) :: ('s, execution_attempt option) action"
  have k: "keeps (safe_world J D) ?call" using assms op_like_writes(4) by (rule keeps_repo_call)
  {
    fix w c w' assume w: "safe_world J D w" and run: "repo_claim R E a w = (Inr c, w')"
    obtain res w2 where call: "?call w = (res, w2)" by fastforce
    with k w have w2: "safe_world J D w2" by (blast dest: keepsD)
    show "case c of None \<Rightarrow> safe_world J D w' | Some x \<Rightarrow> ready J D (at_attempt_id x) w'"
    proof (cases c)
      case None
      with run call have "w' = w2" by (auto simp: repo_claim_run split: sum.splits option.splits)
      with w2 None show ?thesis by simp
    next
      case (Some x)
      define w1 where "w1 = (run_others R (e_others E (w_step w)) w)\<lparr>w_step := Suc (w_step w)\<rparr>"
      have w1: "safe_world J D w1" using run_others_safe [OF assms w] assms by (auto simp: w1_def admits_def)
      from run call Some have res: "res = Inr (Some x)" and w': "w' = w2\<lparr>w_events := w_events w2 @ [Ev_claim True (at_attempt_id x)]\<rparr>"
        by (auto simp: repo_claim_run split: sum.splits option.splits)
      from call res have c1: "rp_claim_attempt_for_submission R a (e_now E (w_step w)) (w_repo w1) = (Inr (Some x), w_repo w2)"
        and e: "w_events w2 = w_events w1"
        by (auto simp: repo_call_def Let_def w1_def [symmetric] split: fault.splits prod.splits)
      have "ok (w_repo w1)" using w1 by (simp add: safe_world_def)
      from claim_success [OF this c1] have a: "att_state (w_repo w1) a = Some A_PLANNED"
        "att_state (w_repo w2) a = Some A_SUBMITTING" "at_attempt_id x = a" by auto
      have "a \<notin> D" "a \<notin> set (claimed (w_events w1))" using w1 a(1) by (auto simp: safe_world_def safe_events_def)
      moreover from this have "a \<notin> set (submitted (w_events w1))"
        using w1 own_claimed_subset [of "w_events w1"] by (auto simp: safe_world_def safe_events_def)
      ultimately have "ready J D (at_attempt_id x) w'"
        using w2 a e by (auto simp: ready_def safe_world_def safe_events_def w')
      with Some show ?thesis by simp
    qed
  }
  fix w e w' assume w: "safe_world J D w" and run: "repo_claim R E a w = (Inl e, w')"
  then have "?call w = (Inl e, w')"
    by (auto simp: repo_claim_run split: sum.splits option.splits prod.splits)
  with k w show "safe_world J D w'" by (blast dest: keepsD)
qed

lemma submit_ready:
  "yields (ready J D (at_attempt_id c)) (backend_submit c b q t) (\<lambda>_. safe_world J D) (\<lambda>_. safe_world J D)"
proof -
  have tr: "yields (ready J D (at_attempt_id c)) (trace_call (Ev_submit (at_attempt_id c) n k t)) (\<lambda>_. safe_world J D) (\<lambda>_. safe_world J D)"
    for n k
    by (auto simp: trace_call_def modify_def yields_def ready_def safe_world_def safe_events_def)
  have call: "yields (ready J D (at_attempt_id c)) (backend_call (Ev_submit (at_attempt_id c) n k t) f)
    (\<lambda>_. safe_world J D) (\<lambda>_. safe_world J D)" for n k and f :: "nat \<Rightarrow> exn + submitted_operation option"
    unfolding backend_call_def then_do_def
    by (rule yields_bind [OF tr]) (intro yields_keeps keeps_intro, assumption)
  show ?thesis
    unfolding backend_submit_def Let_def
    by (rule yields_try [OF call]; rule yields_keeps; (intro keeps_intro recorded_bounded)?)
qed

lemma keeps_after_claim:
  assumes E: "admits E J A"
  shows "yields (ready J D (at_attempt_id c)) (after_claim R E r c d b n q) (\<lambda>_. safe_world J D) (\<lambda>_. safe_world J D)"
proof -
  have main: "yields (ready J D (at_attempt_id c))
    (if used_up t
       then mark_recovery R E c A_SUBMITTING (S ''recovery_required'')
              (S ''reconciliation deadline expired before backend submission'') (pr_processing_id r)
              [recovery_metric n ''recovery_required'']
       else try_except
         (bind (backend_submit c b q t)
           (\<lambda>s. case s of None \<Rightarrow> raise TypeError | Some x \<Rightarrow> ret x)) (h t) (after_submission R E r c d n))
    (\<lambda>_. safe_world J D) (\<lambda>_. safe_world J D)"
    if h: "\<And>e. keeps (safe_world J D) (h t e)" for h t
  proof (cases "used_up t")
    case True
    then show ?thesis
      using E by (auto simp: recovery_metric_def recorded_bounded intro!: yields_keeps keeps_intro dest: ready_safe)
  next
    case False
    have "yields (ready J D (at_attempt_id c)) (bind (backend_submit c b q t)
           (\<lambda>s. case s of None \<Rightarrow> raise TypeError | Some x \<Rightarrow> ret x)) (\<lambda>_. safe_world J D) (\<lambda>_. safe_world J D)"
      by (rule yields_bind [OF submit_ready]) (intro yields_keeps keeps_intro, assumption)
    from yields_try [OF this, of "h t" _ _ "after_submission R E r c d n"] show ?thesis
      using False E h by (simp add: yields_keeps keeps_after_submission)
  qed
  have start: "yields (ready J D (at_attempt_id c)) m (\<lambda>_. ready J D (at_attempt_id c)) (\<lambda>_. safe_world J D)"
    if "keeps (ready J D (at_attempt_id c)) m" for m :: "('s, 'b) action"
    using that unfolding keeps_iff_yields by (rule yields_weaken) (auto dest: ready_safe)
  show ?thesis
    unfolding after_claim_def Let_def then_do_def
    apply (rule yields_bind [OF start], intro keeps_intro)
    apply (rule yields_bind [OF start], intro keeps_intro recorded_bounded)
    apply (rule yields_bind [OF start], intro keeps_intro)
    apply (rule main)
    using E by (auto simp: recovery_metric_def recorded_bounded intro!: keeps_intro op_like_fail)
qed

lemma keeps_submit [keeps_intro]:
  assumes E: "admits E J A"
  shows "keeps (safe_world J D) (submit R E r a d)"
proof -
  have claim: "keeps (safe_world J D) (try_except (repo_claim R E (at_attempt_id a))
                 (\<lambda>e. raise PersistenceUnavailableError)
                 (\<lambda>claimed. case claimed of
                    None \<Rightarrow> reread R E (pr_processing_id r)
                  | Some c \<Rightarrow> after_claim R E r c d b n q))" for b n q
    unfolding keeps_iff_yields
  proof (rule yields_try [OF claim_ready [OF E]])
    show "yields (safe_world J D) (raise PersistenceUnavailableError) (\<lambda>_. safe_world J D) (\<lambda>_. safe_world J D)"
      by (intro yields_keeps keeps_intro)
    fix c :: "execution_attempt option"
    show "yields (\<lambda>w. case c of None \<Rightarrow> safe_world J D w | Some x \<Rightarrow> ready J D (at_attempt_id x) w)
      (case c of None \<Rightarrow> reread R E (pr_processing_id r) | Some c \<Rightarrow> after_claim R E r c d b n q)
      (\<lambda>_. safe_world J D) (\<lambda>_. safe_world J D)"
      using keeps_after_claim [OF E] keeps_reread [OF E] by (cases c) (simp_all add: yields_keeps)
  qed
  have unknown: "keeps (safe_world J D) (bind (repo_call R E (rp_fail_processing R p {PLANNED} c t (Some x)))
      (\<lambda>failed. or_else failed (reread R E p)))" for p c t x
    using E by (intro keeps_intro op_like_fail) simp_all
  show ?thesis
    unfolding submit_def Let_def
    by (auto split: option.splits intro!: unknown keeps_bind keeps_remaining keeps_if keeps_ret keeps_raise claim)
qed

lemma keeps_fail_without_attempt [keeps_intro]:
  "admits E J A \<Longrightarrow> keeps (safe_world J D) (fail_without_attempt R E r c d)"
  unfolding fail_without_attempt_def
  by (intro keeps_intro op_like_fail recorded_bounded) simp_all

lemma keeps_planning_failed [keeps_intro]:
  "admits E J A \<Longrightarrow> keeps (safe_world J D) (planning_failed R E r e)"
  unfolding planning_failed_def Let_def
  by (cases e; simp; intro keeps_intro)

lemma keeps_complete_no_action [keeps_intro]:
  "admits E J A \<Longrightarrow> keeps (safe_world J D) (complete_no_action R E r d)"
  unfolding complete_no_action_def
  by (intro keeps_intro op_like_writes) (simp_all add: recorded_bounded)

lemma keeps_advance_accepted [keeps_intro]:
  "admits E J A \<Longrightarrow> keeps (safe_world J D) (advance_accepted R E r d)"
  unfolding advance_accepted_def
  by (auto split: option.splits intro!: keeps_intro op_like_writes recorded_bounded)

lemma keeps_process_inner [keeps_intro]:
  "admits E J A \<Longrightarrow> keeps (safe_world J D) (process_inner R E al key)"
  unfolding process_inner_def Let_def case_prod_unfold
  by (intro keeps_intro op_like_writes recorded_bounded)

lemma keeps_process: "admits E J A \<Longrightarrow> keeps (safe_world J D) (process R E al key)"
  unfolding process_def outcome_metric_def Let_def
  by (intro keeps_intro recorded_bounded) simp_all

lemma keeps_reconcile_record [keeps_intro]:
  "admits E J A \<Longrightarrow> keeps (safe_world J D) (reconcile_record R E d r)"
  unfolding reconcile_record_def Let_def recovery_metric_def
  by (cases "pr_state r"; simp; intro keeps_intro op_like_reads recorded_bounded; simp add: recorded_bounded)

lemma keeps_reconcile_step [keeps_intro]:
  "admits E J A \<Longrightarrow> keeps (safe_world J D) (reconcile_step R E d r rep)"
  unfolding reconcile_step_def Let_def
  by (intro keeps_intro op_like_reads recorded_bounded) simp_all

lemma keeps_reconcile_loop [keeps_intro]:
  "admits E J A \<Longrightarrow> keeps (safe_world J D) (reconcile_loop R E d rs rep)"
  by (induction rs arbitrary: rep) (auto intro!: keeps_intro)

lemma keeps_reconcile_once: "admits E J A \<Longrightarrow> keeps (safe_world J D) (reconcile_once R E n s a)"
  unfolding reconcile_once_def by (intro keeps_intro op_like_reads)

end

end
