(* ===== verification/SampleEnv.thy ===== *)
theory SampleEnv
  imports Samples Processor MemorySync
begin

text \<open>A concrete environment and a concrete store, on which the properties are exercised.\<close>

text \<open>The default configuration without interference or faults; the repository's clock shows second 5.\<close>

definition sample_env :: env where
  "sample_env =
     \<lparr>e_orchestrator = default_orchestrator, e_others = (\<lambda>_. []), e_fault = (\<lambda>_. F_none), e_now = (\<lambda>_. sample_time 5),
      e_wall_clock = sample_time, e_monotonic = of_nat, e_fresh = (\<lambda>t. of_nat t)\<rparr>"

text \<open>Another worker that claims the attempt 2 at the first step, and a store that is down at the
  second.\<close>

definition rough_env :: env where
  "rough_env = sample_env\<lparr>e_others := (\<lambda>t. if t = 0 then [(Op_claim 2, sample_time 9)] else []),
     e_fault := (\<lambda>t. if t = 1 then F_before PsycopgOperationalError else F_none)\<rparr>"

definition high_decision :: decision where
  "high_decision = projr (baseline_decide high_alert)"

definition high_incident :: incident where
  "high_incident = \<lparr>in_alert = high_alert, in_decision = high_decision\<rparr>"

definition high_request :: investigation_request where
  "high_request =
     \<lparr>ir_incident = high_incident, ir_desired_outcome = S ''collect process inventory'',
      ir_required_capabilities = [process_list], ir_targets = al_entities high_alert\<rparr>"

lemma high_decision_facts:
  "baseline_decide high_alert = Inr high_decision" "de_outcome high_decision = INVESTIGATE"
  "de_source high_decision = al_source high_alert"
  using baseline_decide_Inr [of high_alert] by (auto simp: high_decision_def sample_defs)

text \<open>A processing whose submission has started, accepted at second 1, planned at 2, claimed at 3.\<close>

definition high_accepted :: processing_record where
  "high_accepted = accepted_record 0 high_alert (S ''splunk'') sample_key 1 (replicate 32 0) (sample_time 1)"

definition high_submitting :: processing_record where
  "high_submitting = high_accepted\<lparr>pr_state := SUBMITTING, pr_updated_at := sample_time 3,
     pr_planned_decision := Some high_decision, pr_planned_incident := Some high_incident,
     pr_planned_request := Some high_request, pr_selected_backend := Some mock_name\<rparr>"

definition submitting_attempt :: execution_attempt where
  "submitting_attempt = (planned_attempt 2 0 3 mock_name (sample_time 2))
     \<lparr>at_state := A_SUBMITTING, at_started_at := Some (sample_time 3)\<rparr>"

definition submitting_store :: mem where
  "submitting_store =
     \<lparr>mm_records = [(0, high_submitting)], mm_idempotency = [((S ''splunk'', sample_key), 0)],
      mm_attempts = [(2, submitting_attempt)], mm_attempt_by_processing = [(0, 2)], mm_operation_keys = {3}\<rparr>"

lemma high_submitting_valid: "record_valid high_submitting"
  by (simp add: high_submitting_def high_accepted_def accepted_record_def record_valid_def record_common_def
      record_state_check_def full_plan_def record_graph_check_def high_decision_facts high_incident_def)

lemma submitting_attempt_valid: "attempt_valid submitting_attempt"
  by (simp add: submitting_attempt_def planned_attempt_def attempt_valid_def attempt_state_check_def)

lemma submitting_facts [simp]:
  "pr_processing_id high_submitting = 0" "pr_state high_submitting = SUBMITTING" "pr_alert high_submitting = high_alert"
  "pr_idempotency_scope high_submitting = Some (S ''splunk'')" "pr_idempotency_key high_submitting = Some sample_key"
  "at_attempt_id submitting_attempt = 2" "at_processing_id submitting_attempt = 0"
  "at_state submitting_attempt = A_SUBMITTING" "at_completed_at submitting_attempt = None"
  "at_failed_at submitting_attempt = None" "pr_created_at high_submitting = sample_time 1"
  "pr_fingerprint_version high_submitting = Some 1" "pr_request_fingerprint high_submitting = Some (replicate 32 0)"
  by (simp_all add: high_submitting_def high_accepted_def accepted_record_def submitting_attempt_def planned_attempt_def)

lemma submitting_gets [simp]:
  "dict_get (mm_records submitting_store) p = (if p = 0 then Some high_submitting else None)"
  "dict_get (mm_attempts submitting_store) a = (if a = 2 then Some submitting_attempt else None)"
  "dict_get (mm_attempt_by_processing submitting_store) p = (if p = 0 then Some 2 else None)"
  "dict_get (mm_idempotency submitting_store) k = (if k = (S ''splunk'', sample_key) then Some 0 else None)"
  by (simp_all add: submitting_store_def dict_get_def)

lemma submitting_store_ok: "mem_ok submitting_store"
  by (simp add: mem_ok_def records_ok_def attempts_ok_def idempotency_ok_def high_submitting_valid
      submitting_attempt_valid)
     (simp add: submitting_store_def)

lemma submitting_store_synced: "mem_synced submitting_store"
  by (simp add: mem_synced_def submitting_store_ok pair_ok_def)

end
