(* ===== verification/MemoryBinding.thy ===== *)
theory MemoryBinding
  imports MemorySync
begin

text \<open>
  What the in-memory repository never changes: the processing a key is bound to, and the
  request of a processing - its alert, key, fingerprint and creation time.
\<close>

definition same_request :: "processing_record \<Rightarrow> processing_record \<Rightarrow> bool" where
  "same_request r r' \<longleftrightarrow> pr_processing_id r' = pr_processing_id r \<and> pr_created_at r' = pr_created_at r
     \<and> pr_alert r' = pr_alert r \<and> pr_idempotency_scope r' = pr_idempotency_scope r
     \<and> pr_idempotency_key r' = pr_idempotency_key r \<and> pr_fingerprint_version r' = pr_fingerprint_version r
     \<and> pr_request_fingerprint r' = pr_request_fingerprint r"

lemma same_request_refl [simp]: "same_request r r"
  by (simp add: same_request_def)

lemma same_request_trans: "same_request r r' \<Longrightarrow> same_request r' r'' \<Longrightarrow> same_request r r''"
  by (simp add: same_request_def)

definition preserves :: "mem \<Rightarrow> mem \<Rightarrow> bool" where
  "preserves s s' \<longleftrightarrow>
     (\<forall>k p. dict_get (mm_idempotency s) k = Some p \<longrightarrow> dict_get (mm_idempotency s') k = Some p)
     \<and> (\<forall>p r. dict_get (mm_records s) p = Some r \<longrightarrow>
          (\<exists>r'. dict_get (mm_records s') p = Some r' \<and> same_request r r'))"

lemma preserves_refl [simp]: "preserves s s"
  by (auto simp: preserves_def)

lemma preserves_trans: "preserves s s' \<Longrightarrow> preserves s' s'' \<Longrightarrow> preserves s s''"
  unfolding preserves_def by (meson same_request_trans)

lemma preserves_put_attempt [simp]: "preserves s (put_attempt a t s') \<longleftrightarrow> preserves s s'"
  by (simp add: preserves_def)

lemma preserves_put_record:
  "dict_get (mm_records s) p = Some r \<Longrightarrow> same_request r r' \<Longrightarrow> preserves s s' \<Longrightarrow>
   mm_records s' = mm_records s \<Longrightarrow> preserves s (put_record p r' s')"
  by (auto simp: preserves_def)

lemma accept_preserves: "preserves s (snd (mem_accept_processing p al sc k v d now s))"
  by (auto simp: mem_accept_processing_def mk_record_def preserves_def split: option.splits)

lemma no_action_preserves: "preserves s (snd (mem_store_no_action_result p res now s))"
  by (auto simp: mem_store_no_action_result_def mk_record_def same_request_def split: option.splits
      intro!: preserves_put_record)

lemma plan_preserves: "preserves s (snd (mem_store_plan p d i q b a key now s))"
proof -
  have "preserves s (s'\<lparr>mm_attempt_by_processing := x, mm_operation_keys := y\<rparr>) \<longleftrightarrow> preserves s s'" for s' x y
    by (simp add: preserves_def)
  then show ?thesis
    by (auto simp: mem_store_plan_def mk_record_def mk_attempt_def same_request_def split: option.splits
        intro!: preserves_put_record)
qed

lemma write_pair_preserves:
  assumes ok: "mem_ok s" and pair: "mem_pair a ast pst s = Inr (Some (t, r))"
    and r': "same_request r r'"
  shows "preserves s (snd (mem_write_pair a t' (pr_processing_id r) r' s))"
proof -
  from pair have "dict_get (mm_records s) (at_processing_id t) = Some r" by (simp add: mem_pair_Some)
  moreover from this have "pr_processing_id r = at_processing_id t" using mem_okD(1) [OF ok] by simp
  ultimately have "preserves s (put_record (pr_processing_id r) r' (put_attempt a t' s))"
    using r' by (intro preserves_put_record) simp_all
  then show ?thesis by (simp add: mem_write_pair_def mk_record_def mk_attempt_def)
qed

lemma step_preserves:
  assumes "mem_ok s" "\<And>r. same_request r (fr r)"
  shows "preserves s (snd (mem_attempt_step a ast pst ft fr s))"
proof (cases "\<exists>t r. mem_pair a ast pst s = Inr (Some (t, r))")
  case True
  then obtain t r where p: "mem_pair a ast pst s = Inr (Some (t, r))" by blast
  with write_pair_preserves [OF assms(1) p assms(2), of "ft t"] show ?thesis
    by (auto simp: mem_attempt_step_def split: sum.splits prod.splits)
next
  case False
  then show ?thesis by (auto simp: mem_attempt_step_def split: sum.splits option.splits)
qed

lemma complete_preserves: "mem_ok s \<Longrightarrow> preserves s (snd (mem_complete_processing a res now s))"
  unfolding mem_complete_processing_def mk_record_def mk_attempt_def
  by (auto simp: mem_pair_Some mem_okD same_request_def split: sum.splits option.splits
      intro!: preserves_put_record)

lemma fail_preserves: "preserves s (snd (mem_fail_processing p es c d aid now s))"
  unfolding mem_fail_processing_def fail_attempt_def mk_record_def mk_attempt_def
  by (auto simp: Let_def same_request_def split: option.splits intro!: preserves_put_record)

lemma recovery_preserves:
  assumes "mem_ok s"
  shows "preserves s (snd (mem_mark_recovery_required a es c d now s))"
proof -
  have "preserves s s'"
    if t: "dict_get (mm_attempts s) a = Some t" and r: "dict_get (mm_records s) (at_processing_id t) = Some r"
      and w: "mem_write_pair a t' (pr_processing_id r)
                      (r\<lparr>pr_state := RECOVERY_REQUIRED, pr_updated_at := now,
                         pr_error_category := Some c, pr_error_detail := Some d\<rparr>) s = (res, s')" for t t' r res s'
  proof -
    have "mem_pair a (at_state t) (pr_state r) s = Inr (Some (t, r))" using t r by (simp add: mem_pair_Some)
    from write_pair_preserves [OF assms this, of "r\<lparr>pr_state := RECOVERY_REQUIRED, pr_updated_at := now,
        pr_error_category := Some c, pr_error_detail := Some d\<rparr>" t'] w
    show ?thesis by (simp add: same_request_def)
  qed
  then show ?thesis
    unfolding mem_mark_recovery_required_def
    by (auto split: option.splits prod.splits sum.splits)
qed

lemma exec_preserves: "mem_ok s \<Longrightarrow> preserves s (exec_op memory_repository c now s)"
  by (cases c)
     (simp_all add: memory_repository_def accept_preserves no_action_preserves plan_preserves
       mem_claim_attempt_for_submission_def mem_mark_attempt_submitted_def mem_record_poll_def
       step_preserves same_request_def complete_preserves fail_preserves recovery_preserves)

section \<open>Sequences of operations\<close>

text \<open>Every record was created at or before the instant \<open>b\<close>.\<close>

definition created_by :: "mem \<Rightarrow> int \<Rightarrow> bool" where
  "created_by s b \<longleftrightarrow> (\<forall>p r. dict_get (mm_records s) p = Some r \<longrightarrow> instant (pr_created_at r) \<le> b)"

lemma created_by_mono: "created_by s b \<Longrightarrow> b \<le> c \<Longrightarrow> created_by s c"
  by (force simp: created_by_def)

lemma created_by_put_attempt [simp]: "created_by (put_attempt a t s) b \<longleftrightarrow> created_by s b"
  by (simp add: created_by_def)

lemma created_by_tables [simp]:
  "created_by (s\<lparr>mm_attempt_by_processing := x, mm_operation_keys := y\<rparr>) b \<longleftrightarrow> created_by s b"
  "created_by (s\<lparr>mm_idempotency := z\<rparr>) b \<longleftrightarrow> created_by s b"
  by (simp_all add: created_by_def)

lemma created_by_put_record: "created_by s b \<Longrightarrow> instant (pr_created_at r) \<le> b \<Longrightarrow> created_by (put_record p r s) b"
  by (auto simp: created_by_def)

lemma created_byD: "created_by s b \<Longrightarrow> dict_get (mm_records s) p = Some r \<Longrightarrow> instant (pr_created_at r) \<le> b"
  by (auto simp: created_by_def)

lemma created_by_put_same:
  "dict_get (mm_records s) p = Some r \<Longrightarrow> created_by s b \<Longrightarrow> pr_created_at r' = pr_created_at r \<Longrightarrow>
   created_by (put_record q r' s) b"
  by (simp add: created_by_put_record created_byD)

lemma write_pair_created:
  "created_by s b \<Longrightarrow> instant (pr_created_at r') \<le> b \<Longrightarrow> created_by (snd (mem_write_pair a t p r' s)) b"
  by (simp add: mem_write_pair_def mk_record_def mk_attempt_def created_by_put_record)

lemma step_created:
  assumes "created_by s b" "\<And>r. pr_created_at (fr r) = pr_created_at r"
  shows "created_by (snd (mem_attempt_step a ast pst ft fr s)) b"
proof (cases "\<exists>t r. mem_pair a ast pst s = Inr (Some (t, r))")
  case True
  then obtain t r where p: "mem_pair a ast pst s = Inr (Some (t, r))" by blast
  then have "dict_get (mm_records s) (at_processing_id t) = Some r" by (simp add: mem_pair_Some)
  then have "created_by (snd (mem_write_pair a (ft t) (pr_processing_id r) (fr r) s)) b"
    using assms by (intro write_pair_created) (simp_all add: created_byD)
  with p show ?thesis by (auto simp: mem_attempt_step_def split: sum.splits prod.splits)
next
  case False
  with assms(1) show ?thesis by (auto simp: mem_attempt_step_def split: sum.splits option.splits)
qed

lemma exec_created:
  assumes "created_by s b" "b = instant now"
  shows "created_by (exec_op memory_repository c now s) b"
proof -
  have recovery: "created_by (snd (mem_mark_recovery_required a es k d now s)) b" for a es k d
  proof -
    have "created_by s' b"
      if "dict_get (mm_records s) p = Some r" and w: "mem_write_pair a' t' (pr_processing_id r)
          (r\<lparr>pr_state := RECOVERY_REQUIRED, pr_updated_at := now, pr_error_category := Some k, pr_error_detail := Some d\<rparr>) s
            = (res, s')" for p a' t' r res s'
      using write_pair_created [of s b "r\<lparr>pr_state := RECOVERY_REQUIRED, pr_updated_at := now,
          pr_error_category := Some k, pr_error_detail := Some d\<rparr>" a' t' "pr_processing_id r"]
        assms(1) created_byD [OF assms(1) that(1)] w by simp
    with assms(1) show ?thesis
      unfolding mem_mark_recovery_required_def by (auto split: option.splits prod.splits sum.splits)
  qed
  show ?thesis
  proof (cases c)
    case (Op_accept p al sc k v d)
    with assms show ?thesis
      by (auto simp: memory_repository_def mem_accept_processing_def mk_record_def accepted_record_def
          intro!: created_by_put_record split: option.splits)
  next
    case (Op_no_action p res)
    with assms show ?thesis
      by (auto simp: memory_repository_def mem_store_no_action_result_def mk_record_def intro: created_by_put_same split: option.splits)
  next
    case (Op_plan p d i q n a k)
    with assms show ?thesis
      by (auto simp: memory_repository_def mem_store_plan_def mk_record_def mk_attempt_def intro: created_by_put_same split: option.splits)
  next
    case (Op_complete a res)
    with assms show ?thesis
      by (auto simp: memory_repository_def mem_complete_processing_def mk_record_def mk_attempt_def mem_pair_Some
          intro: created_by_put_same split: option.splits sum.splits)
  next
    case (Op_fail p es k d a)
    with assms show ?thesis
      by (auto simp: memory_repository_def mem_fail_processing_def fail_attempt_def mk_record_def mk_attempt_def Let_def
          intro: created_by_put_same split: option.splits)
  qed (use assms(1) recovery in \<open>simp_all add: memory_repository_def mem_claim_attempt_for_submission_def
      mem_mark_attempt_submitted_def mem_record_poll_def step_created\<close>)
qed

definition run_ops :: "(repo_op \<times> datetime) list \<Rightarrow> mem \<Rightarrow> mem" where
  "run_ops cs s = fold (\<lambda>(c, now) s. exec_op memory_repository c now s) cs s"

lemma run_ops_synced:
  assumes "mem_synced s" "created_by s b"
    and "list_all (\<lambda>(c, now). op_safe c \<and> aware now) cs" "sorted (b # map (instant \<circ> snd) cs)"
  shows "mem_synced (run_ops cs s)"
  using assms
proof (induction cs arbitrary: s b)
  case (Cons cn cs)
  obtain c now where cn: "cn = (c, now)" by fastforce
  have by_now: "created_by s (instant now)" using created_by_mono [OF Cons.prems(2)] Cons.prems(4) cn by simp
  have d: "distinct (map fst (mm_records s))" using Cons.prems(1) by (simp add: mem_synced_def mem_ok_defs)
  have "\<not> dt_less now (pr_created_at r)" if "r \<in> snd ` set (mm_records s)" for r
    using that by_now dict_values [OF d, of r] by (auto simp: dt_less_def not_less created_by_def)
  then have "clock_ok now s"
    using Cons.prems(3) cn by (simp add: clock_ok_def list_all_iff)
  then have "mem_synced (exec_op memory_repository c now s)"
    using Cons.prems cn by (intro exec_synced) simp_all
  from Cons.IH [OF this exec_created [OF by_now refl]] Cons.prems cn show ?case by (simp add: run_ops_def)
qed (simp add: run_ops_def)

end
