(* ===== verification/ProcessorSafety.thy ===== *)
theory ProcessorSafety
  imports ProcessorProps SampleEnv MemoryBinding
begin

text \<open>
  What the processor guarantees along a whole history of its calls on the in-memory repository,
  with any interference by others, any repository faults, any backends and any clocks.
\<close>

datatype call =
    Call_process canonical_alert ustring
  | Call_reconcile int rat int

fun run_calls :: "'s repository \<Rightarrow> env \<Rightarrow> call list \<Rightarrow> 's world \<Rightarrow> 's world" where
  "run_calls R E [] w = w"
| "run_calls R E (Call_process al key # cs) w = run_calls R E cs (snd (process R E al key w))"
| "run_calls R E (Call_reconcile n secs stale # cs) w = run_calls R E cs (snd (reconcile_once R E n secs stale w))"

definition start_world :: "'s \<Rightarrow> 's world" where
  "start_world s = \<lparr>w_repo = s, w_step = 0, w_events = [], w_calls = [], w_metrics = [], w_context = empty_context\<rparr>"

context processing_repository
begin

lemma run_calls_safe:
  assumes E: "admits E J A"
  shows "safe_world J D w \<Longrightarrow> safe_world J D (run_calls R E cs w)"
proof (induction cs arbitrary: w)
  case (Cons c cs)
  have "safe_world J D (snd (process R E al key w))" "safe_world J D (snd (reconcile_once R E n secs stale w))"
    for al key n secs stale
    using keeps_process [OF E] keeps_reconcile_once [OF E] Cons.prems unfolding keeps_def by blast+
  with Cons.IH show ?case by (cases c) simp_all
qed simp

lemma start_world_safe:
  "ok s \<Longrightarrow> J s \<Longrightarrow> (\<And>a. a \<in> D \<Longrightarrow> \<exists>st. att_state s a = Some st \<and> st \<noteq> A_PLANNED) \<Longrightarrow>
   safe_world J D (start_world s)"
  by (auto simp: safe_world_def safe_events_def start_world_def)

text \<open>The store only moves along the table, when the others call the operations as the
  application does.\<close>

definition moved :: "'s \<Rightarrow> 's \<Rightarrow> bool" where
  "moved s s' \<longleftrightarrow> (\<forall>p st. rec_state s p = Some st \<longrightarrow>
     (\<exists>st'. rec_state s' p = Some st' \<and> (st, st') \<in> {(a, b). processing_transition_allowed a b}\<^sup>*))"

lemma admits_any: "admits E (\<lambda>_. True) UNIV"
  by (simp add: admits_def)

lemma admits_moved:
  assumes "\<And>t. list_all (\<lambda>(c, _). op_safe c) (e_others E t)"
  shows "admits E (moved s) (Collect op_safe)"
proof -
  have "moved s (exec_op R c now s')" if ok: "ok s'" and m: "moved s s'" and c: "op_safe c" for s' c now
    unfolding moved_def
  proof (intro allI impI)
    fix p st assume "rec_state s p = Some st"
    with m obtain st' where st': "rec_state s' p = Some st'"
      "(st, st') \<in> {(a, b). processing_transition_allowed a b}\<^sup>*"
      by (auto simp: moved_def)
    from transitions [OF ok c st'(1)] obtain st'' where "rec_state (exec_op R c now s') p = Some st''"
      "st'' = st' \<or> processing_transition_allowed st' st''" by blast
    with st'(2) show "\<exists>st'. rec_state (exec_op R c now s') p = Some st'
        \<and> (st, st') \<in> {(a, b). processing_transition_allowed a b}\<^sup>*"
      by (auto intro: rtrancl_into_rtrancl)
  qed
  with assms show ?thesis by (fastforce simp: admits_def list_all_iff)
qed

end

section \<open>Properties of every history\<close>

text \<open>The world after a history of calls that starts on the store \<open>s\<close>.\<close>

definition mem_history :: "env \<Rightarrow> mem \<Rightarrow> call list \<Rightarrow> mem world" where
  "mem_history E s calls = run_calls memory_repository E calls (start_world s)"

lemma mem_history_safe:
  assumes "mem_ok s" "memory.admits E J A" "J s"
    and "\<And>a. a \<in> D \<Longrightarrow> \<exists>st. mem_att_state s a = Some st \<and> st \<noteq> A_PLANNED"
  shows "memory.safe_world J D (mem_history E s calls)"
  unfolding mem_history_def using assms
  by (intro memory.run_calls_safe memory.start_world_safe)

lemma mem_history_events:
  assumes "mem_ok s" "\<And>a. a \<in> D \<Longrightarrow> \<exists>st. mem_att_state s a = Some st \<and> st \<noteq> A_PLANNED"
  shows "memory.safe_events D (w_repo (mem_history E s calls)) (w_events (mem_history E s calls))"
  using mem_history_safe [OF assms(1) memory.admits_any _ assms(2)] by (simp add: memory.safe_world_def)

text \<open>A history to exercise the properties on: a reconciliation, then a request.\<close>

definition sample_calls :: "call list" where
  "sample_calls = [Call_reconcile reconciliation_limit reconciliation_time_limit_seconds submitting_stale_after,
     Call_process high_alert sample_key]"

text \<open>C1: Over any history of process and reconcile calls, with any interference and any faults,
  every execution attempt is claimed at most once by anyone and submitted to a backend at most
  once, and only by the processor that claimed it.\<close>

theorem submits_at_most_once:
  assumes "mem_ok s"
  shows "distinct (submitted (w_events (mem_history E s calls)))
    \<and> set (submitted (w_events (mem_history E s calls))) \<subseteq> set (own_claimed (w_events (mem_history E s calls)))
    \<and> distinct (claimed (w_events (mem_history E s calls)))"
  using mem_history_events [OF assms, of "{}"] by (simp add: memory.safe_events_def)

theorem submits_at_most_once_witness:
  "distinct (submitted (w_events (mem_history rough_env submitting_store sample_calls)))"
  using submits_at_most_once [OF submitting_store_ok] by blast

text \<open>An attempt that has left PLANNED before, because its submission was started by someone,
  failed, or has an unknown outcome, is never submitted by any later call.\<close>

theorem started_attempt_not_resubmitted:
  assumes "mem_ok s" "mem_att_state s a = Some st" "st \<noteq> A_PLANNED"
  shows "a \<notin> set (submitted (w_events (mem_history E s calls)))"
proof -
  have "memory.safe_events {a} (w_repo (mem_history E s calls)) (w_events (mem_history E s calls))"
    using assms by (intro mem_history_events) auto
  then show ?thesis
    using own_claimed_subset [of "w_events (mem_history E s calls)"] by (auto simp: memory.safe_events_def)
qed

theorem started_attempt_not_resubmitted_witness:
  "2 \<notin> set (submitted (w_events (mem_history rough_env submitting_store sample_calls)))"
  using started_attempt_not_resubmitted [OF submitting_store_ok, of 2 A_SUBMITTING]
  by (simp add: mem_att_state_def)

text \<open>C2: When the others, too, record failures the way the application does, every durable
  processing state changes only along the table of allowed transitions; a completed or failed
  processing keeps its state for ever.\<close>

theorem durable_states_follow_the_table:
  assumes "mem_ok s" "\<And>t. list_all (\<lambda>(c, _). op_safe c) (e_others E t)" "mem_rec_state s p = Some st"
  shows "(\<exists>st'. mem_rec_state (w_repo (mem_history E s calls)) p = Some st'
      \<and> (st, st') \<in> {(a, b). processing_transition_allowed a b}\<^sup>*)
    \<and> (st \<in> terminal_processing_states \<longrightarrow> mem_rec_state (w_repo (mem_history E s calls)) p = Some st)"
proof -
  have "memory.moved s s" by (auto simp: memory.moved_def)
  with mem_history_safe [OF assms(1) memory.admits_moved [OF assms(2)], of s "{}" calls]
  obtain st' where st': "mem_rec_state (w_repo (mem_history E s calls)) p = Some st'"
    "(st, st') \<in> {(a, b). processing_transition_allowed a b}\<^sup>*"
    using assms(3) by (auto simp: memory.safe_world_def memory.moved_def)
  moreover have "st' = st" if "st \<in> terminal_processing_states"
    using st'(2) that by (auto simp: terminal_processing_states_def elim: converse_rtranclE)
  ultimately show ?thesis by auto
qed

theorem durable_states_follow_the_table_witness:
  "\<exists>st'. mem_rec_state (w_repo (mem_history rough_env submitting_store sample_calls)) 0 = Some st'
      \<and> (SUBMITTING, st') \<in> {(a, b). processing_transition_allowed a b}\<^sup>*"
proof -
  have "list_all (\<lambda>(c, _). op_safe c) (e_others rough_env t)" for t by (simp add: rough_env_def)
  then show ?thesis
    using durable_states_follow_the_table [OF submitting_store_ok, of rough_env 0 SUBMITTING sample_calls]
    by (simp add: mem_rec_state_def)
qed

text \<open>C3: A key that is bound to a processing stays bound to it for ever, and the request of a
  processing - its alert, key, fingerprint and creation time - never changes, over any history.\<close>

theorem key_binding_permanent:
  assumes "mem_ok s" "dict_get (mm_idempotency s) (scope, key) = Some p" "dict_get (mm_records s) p = Some r"
  shows "dict_get (mm_idempotency (w_repo (mem_history E s calls))) (scope, key) = Some p
    \<and> (\<exists>r'. dict_get (mm_records (w_repo (mem_history E s calls))) p = Some r' \<and> same_request r r')"
proof -
  have "memory.admits E (preserves s) UNIV"
    unfolding memory.admits_def using preserves_trans exec_preserves by blast
  from mem_history_safe [OF assms(1) this, where D = "{}"] have "preserves s (w_repo (mem_history E s calls))"
    by (simp add: memory.safe_world_def)
  with assms(2,3) show ?thesis by (simp add: preserves_def)
qed

theorem key_binding_permanent_witness:
  "dict_get (mm_idempotency (w_repo (mem_history rough_env submitting_store sample_calls))) (S ''splunk'', sample_key)
     = Some 0"
  using key_binding_permanent [OF submitting_store_ok, of "S ''splunk''" sample_key 0 high_submitting] by simp

text \<open>Every metric value that is recorded belongs to the fixed vocabularies.\<close>

theorem metrics_bounded:
  assumes "mem_ok s"
  shows "list_all metric_bounded (w_metrics (mem_history E s calls))"
  using mem_history_safe [OF assms memory.admits_any, where D = "{}" and E = E and calls = calls]
  by (simp add: memory.safe_world_def)

text \<open>C19: The store stays consistent along every history: identifiers agree with the tables, records
  and attempts are valid, keys are bound to records that carry them.\<close>

theorem history_keeps_store_consistent:
  assumes "mem_ok s"
  shows "mem_ok (w_repo (mem_history E s calls))"
  using mem_history_safe [OF assms memory.admits_any, where D = "{}" and E = E and calls = calls] by (simp add: memory.safe_world_def)

theorem history_keeps_store_consistent_witness:
  "mem_ok (w_repo (mem_history rough_env submitting_store sample_calls))"
  by (rule history_keeps_store_consistent [OF submitting_store_ok])

end
