(* ===== verification/ProcessorRuns.thy ===== *)
theory ProcessorRuns
  imports ProcessorSafety
begin

text \<open>
  Runs of \<open>process\<close> without interference or faults over any repository that records what it is told:
  the locale \<open>recording_repository\<close> says what each operation returns and leaves in the store on the
  way from acceptance to completion, and the runs are proved from that once. It is interpreted on the
  in-memory repository in \<open>ProcessorOutcomes\<close> and shown for PostgreSQL in \<open>PostgresRuns\<close>.
\<close>

section \<open>Quiet environments\<close>

definition quiet :: "env \<Rightarrow> bool" where
  "quiet E \<longleftrightarrow> (\<forall>t. e_others E t = [] \<and> e_fault E t = F_none)"

text \<open>The repository clock is aware and never before its reading at step \<open>t0\<close>.\<close>

definition clock_from :: "env \<Rightarrow> nat \<Rightarrow> bool" where
  "clock_from E t0 \<longleftrightarrow> (\<forall>t. aware (e_now E t) \<and> \<not> dt_less (e_now E t) (e_now E t0))"

lemma memory_ops [simp]:
  "rp_accept_processing memory_repository = mem_accept_processing" "rp_get memory_repository = mem_get"
  "rp_store_no_action_result memory_repository = mem_store_no_action_result"
  "rp_store_plan memory_repository = mem_store_plan"
  "rp_get_attempt_for_processing memory_repository = mem_get_attempt_for_processing"
  "rp_claim_attempt_for_submission memory_repository = mem_claim_attempt_for_submission"
  "rp_mark_attempt_submitted memory_repository = mem_mark_attempt_submitted"
  "rp_record_poll memory_repository = mem_record_poll"
  "rp_complete_processing memory_repository = mem_complete_processing"
  "rp_fail_processing memory_repository = mem_fail_processing"
  "rp_mark_recovery_required memory_repository = mem_mark_recovery_required"
  "rp_find_reconcilable memory_repository = mem_find_reconcilable"
  by (simp_all add: memory_repository_def)

lemma quiet_call:
  "quiet E \<Longrightarrow> repo_call R E c w =
     (case c (e_now E (w_step w)) (w_repo w) of (r, s) \<Rightarrow> (r, w\<lparr>w_step := Suc (w_step w), w_repo := s\<rparr>))"
  by (simp add: repo_call_def quiet_def Let_def split: prod.splits)

lemma bind_run: "bind m f w = (case m w of (Inl e, w') \<Rightarrow> (Inl e, w') | (Inr x, w') \<Rightarrow> f x w')"
  by (simp add: bind_def)

lemma try_run: "try_except m h k w = (case m w of (Inl e, w') \<Rightarrow> h e w' | (Inr x, w') \<Rightarrow> k x w')"
  by (simp add: try_except_def attempt_def bind_def split: prod.splits sum.splits)

lemma raise_run [simp]: "raise e w = (Inl e, w)"
  by (simp add: raise_def)

lemma lift_run [simp]: "lift r w = (r, w)"
  by (simp add: lift_def)

lemma ret_run [simp]: "ret x w = (Inr x, w)"
  by (simp add: ret_def)

lemma then_emit [simp]: "then_do (emit m) k w = k (w\<lparr>w_metrics := w_metrics w @ [m]\<rparr>)"
  by (simp add: then_do_def emit_def modify_def bind_def)

lemma then_trace [simp]: "then_do (trace ev) k w = k (w\<lparr>w_events := w_events w @ [ev]\<rparr>)"
  by (simp add: then_do_def trace_def modify_def bind_def)

lemma then_trace_call [simp]:
  "then_do (trace_call ev) k w = k (w\<lparr>w_events := w_events w @ [ev], w_calls := w_calls w @ [(w_step w, ev)]\<rparr>)"
  by (simp add: then_do_def trace_call_def modify_def bind_def)

lemma then_context [simp]: "then_do (context_do f) k w = k (w\<lparr>w_context := f (w_context w)\<rparr>)"
  by (simp add: then_do_def context_do_def modify_def bind_def)

lemma bind_observe [simp]: "bind (observe f) g w = g (f (w_step w)) (w\<lparr>w_step := Suc (w_step w)\<rparr>)"
  by (simp add: bind_def observe_def)

lemma observe_run [simp]: "observe f w = (Inr (f (w_step w)), w\<lparr>w_step := Suc (w_step w)\<rparr>)"
  by (simp add: observe_def)

lemma remaining_None [simp]: "remaining_seconds E None = ret None"
  by (simp add: remaining_seconds_def)

lemma not_used_up_None [simp]: "\<not> used_up None"
  by (simp add: used_up_def)

lemma then_assoc [simp]: "then_do (then_do m k) k' = then_do m (then_do k k')"
  by (simp add: then_do_def bind_assoc)

lemma then_ret [simp]: "then_do (ret u) k = k"
  by (simp add: then_do_def)

section \<open>Successful steps of the store\<close>

lemma step_success:
  "mem_pair a ast pst s = Inr (Some (t, r)) \<Longrightarrow> attempt_valid (ft t) \<Longrightarrow> record_valid (fr r) \<Longrightarrow>
   mem_attempt_step a ast pst ft fr s
     = (Inr (Some (ft t)), put_record (pr_processing_id r) (fr r) (put_attempt a (ft t) s))"
  by (simp add: mem_attempt_step_def mem_write_pair_def mk_attempt_def mk_record_def)

lemma complete_success:
  "mem_pair a A_SUBMITTED SUBMITTED s = Inr (Some (t, r)) \<Longrightarrow> de_outcome (or_decision res) = INVESTIGATE \<Longrightarrow>
   t' = t\<lparr>at_state := A_COMPLETED, at_completed_at := Some now, at_last_polled_at := Some now,
          at_last_remote_state := Some (S ''succeeded''), at_error_category := None, at_error_detail := None\<rparr> \<Longrightarrow>
   r' = r\<lparr>pr_state := COMPLETED, pr_updated_at := now, pr_completed_at := Some now,
          pr_completed_result := Some res, pr_error_category := None, pr_error_detail := None\<rparr> \<Longrightarrow>
   attempt_valid t' \<Longrightarrow> record_valid r' \<Longrightarrow>
   mem_complete_processing a res now s = (Inr (Some r'), put_record (pr_processing_id r) r' (put_attempt a t' s))"
  by (simp add: mem_complete_processing_def mk_attempt_def mk_record_def)

lemma accept_new:
  assumes "key_visible_ascii key" "dict_get (mm_idempotency s) (sp_source (al_source al), key) = None"
    "dict_get (mm_records s) p = None" "aware now" "length d = 32"
  shows "mem_accept_processing p al (sp_source (al_source al)) key fingerprint_version d now s
    = (Inr \<lparr>pa_record = accepted_record p al (sp_source (al_source al)) key fingerprint_version d now, pa_created = True\<rparr>,
       (put_record p (accepted_record p al (sp_source (al_source al)) key fingerprint_version d now) s)
         \<lparr>mm_idempotency := dict_set (sp_source (al_source al), key) p (mm_idempotency s)\<rparr>)"
proof -
  have "record_valid (accepted_record p al (sp_source (al_source al)) key fingerprint_version d now)"
    using assms by (simp add: record_valid_def record_common_def record_state_check_def record_graph_check_def
        accepted_record_def no_plan_def dt_less_def fingerprint_version_def)
  then show ?thesis using assms by (simp add: mem_accept_processing_def mk_record_def)
qed

text \<open>A record in one of the later states with a whole plan for its alert.\<close>

definition planned_for :: "processing_record \<Rightarrow> decision \<Rightarrow> incident \<Rightarrow> investigation_request \<Rightarrow> ustring \<Rightarrow> bool" where
  "planned_for r d i q n \<longleftrightarrow> pr_planned_decision r = Some d \<and> pr_planned_incident r = Some i
     \<and> pr_planned_request r = Some q \<and> pr_selected_backend r = Some n \<and> pr_completed_result r = None"

lemma planned_for_reads:
  "planned_for r d i q n \<Longrightarrow> pr_decision r = Some d \<and> pr_incident r = Some i \<and> pr_investigation_request r = Some q"
  by (simp add: planned_for_def pr_decision_def pr_incident_def pr_investigation_request_def)

text \<open>The store holds the attempt \<open>t\<close> and its record \<open>r\<close>.\<close>

definition holds_pair :: "mem \<Rightarrow> execution_attempt \<Rightarrow> processing_record \<Rightarrow> bool" where
  "holds_pair s t r \<longleftrightarrow> dict_get (mm_attempts s) (at_attempt_id t) = Some t \<and> attempt_valid t
     \<and> dict_get (mm_records s) (at_processing_id t) = Some r \<and> record_valid r
     \<and> pr_processing_id r = at_processing_id t"

lemma holds_pair_put:
  "holds_pair s t r \<Longrightarrow> at_attempt_id t' = at_attempt_id t \<Longrightarrow> at_processing_id t' = at_processing_id t \<Longrightarrow>
   pr_processing_id r' = pr_processing_id r \<Longrightarrow> attempt_valid t' \<Longrightarrow> record_valid r' \<Longrightarrow>
   holds_pair (put_record (pr_processing_id r) r' (put_attempt (at_attempt_id t) t' s)) t' r'"
  by (simp add: holds_pair_def)

lemma holds_pair_mem_pair:
  "holds_pair s t r \<Longrightarrow> mem_pair (at_attempt_id t) (at_state t) (pr_state r) s = Inr (Some (t, r))"
  by (simp add: holds_pair_def mem_pair_Some)

lemma record_valid_completed:
  assumes v: "record_valid r" and st: "pr_state r = SUBMITTED" and p: "planned_for r d i q n"
    and n: "aware now" "\<not> dt_less now (pr_created_at r)" and f: "pr_failed_at r = None"
    and res: "or_decision res = d" "or_incident res = Some i"
  shows "record_valid (r\<lparr>pr_state := COMPLETED, pr_updated_at := now, pr_completed_at := Some now,
                       pr_completed_result := Some res, pr_error_category := None, pr_error_detail := None\<rparr>)"
proof -
  let ?r = "r\<lparr>pr_state := COMPLETED, pr_updated_at := now, pr_completed_at := Some now,
                       pr_completed_result := Some res, pr_error_category := None, pr_error_detail := None\<rparr>"
  have "record_common ?r" using v n unfolding record_valid_def record_common_def by simp
  moreover have "record_state_check ?r" using f by (simp add: record_state_check_def)
  moreover have "record_graph_check ?r"
    using v p res by (simp add: record_valid_def record_graph_check_def planned_for_def)
  ultimately show ?thesis by (simp add: record_valid_def)
qed

section \<open>The steps of a run\<close>

text \<open>What each step makes of the attempt and of its record.\<close>

definition claimed_attempt :: "execution_attempt \<Rightarrow> datetime \<Rightarrow> execution_attempt" where
  "claimed_attempt t now = t\<lparr>at_state := A_SUBMITTING, at_started_at := Some now\<rparr>"

definition claimed_record :: "processing_record \<Rightarrow> datetime \<Rightarrow> processing_record" where
  "claimed_record r now = r\<lparr>pr_state := SUBMITTING, pr_updated_at := now\<rparr>"

definition submitted_attempt :: "execution_attempt \<Rightarrow> ustring \<Rightarrow> datetime \<Rightarrow> execution_attempt" where
  "submitted_attempt t x now =
     t\<lparr>at_state := A_SUBMITTED, at_external_operation_id := Some x, at_submitted_at := Some now\<rparr>"

definition submitted_record :: "processing_record \<Rightarrow> datetime \<Rightarrow> processing_record" where
  "submitted_record r now = r\<lparr>pr_state := SUBMITTED, pr_updated_at := now\<rparr>"

definition polled_attempt :: "execution_attempt \<Rightarrow> ustring \<Rightarrow> datetime \<Rightarrow> execution_attempt" where
  "polled_attempt t remote now =
     t\<lparr>at_last_polled_at := Some now, at_last_remote_state := Some remote, at_error_category := None, at_error_detail := None\<rparr>"

definition polled_record :: "processing_record \<Rightarrow> datetime \<Rightarrow> processing_record" where
  "polled_record r now = r\<lparr>pr_updated_at := now, pr_error_category := None, pr_error_detail := None\<rparr>"

definition completed_attempt :: "execution_attempt \<Rightarrow> datetime \<Rightarrow> execution_attempt" where
  "completed_attempt t now =
     t\<lparr>at_state := A_COMPLETED, at_completed_at := Some now, at_last_polled_at := Some now,
       at_last_remote_state := Some (S ''succeeded''), at_error_category := None, at_error_detail := None\<rparr>"

definition completed_record :: "processing_record \<Rightarrow> orchestration_result \<Rightarrow> datetime \<Rightarrow> processing_record" where
  "completed_record r res now =
     r\<lparr>pr_state := COMPLETED, pr_updated_at := now, pr_completed_at := Some now,
       pr_completed_result := Some res, pr_error_category := None, pr_error_detail := None\<rparr>"

text \<open>The two repositories differ here: a completed record read from PostgreSQL names its plan in its result
  alone, where the in-memory repository keeps the planned values, too.\<close>

definition forget_plan :: "processing_record \<Rightarrow> processing_record" where
  "forget_plan r = r\<lparr>pr_planned_decision := None, pr_planned_incident := None, pr_planned_request := None\<rparr>"

definition no_action_result :: "decision \<Rightarrow> orchestration_result" where
  "no_action_result d =
     \<lparr>or_decision = d, or_incident = None, or_investigation_request = None, or_investigation_result = None\<rparr>"

definition no_action_record :: "processing_record \<Rightarrow> decision \<Rightarrow> datetime \<Rightarrow> processing_record" where
  "no_action_record r d now =
     r\<lparr>pr_state := COMPLETED, pr_updated_at := now, pr_completed_result := Some (no_action_result d),
       pr_completed_at := Some now\<rparr>"

definition plan_record ::
  "processing_record \<Rightarrow> decision \<Rightarrow> incident \<Rightarrow> investigation_request \<Rightarrow> ustring \<Rightarrow> datetime \<Rightarrow> processing_record"
where
  "plan_record r d i q n now = r\<lparr>pr_state := PLANNED, pr_updated_at := now, pr_planned_decision := Some d,
                 pr_planned_incident := Some i, pr_planned_request := Some q, pr_selected_backend := Some n\<rparr>"

lemma step_ids [simp]:
  "at_attempt_id (claimed_attempt t now) = at_attempt_id t" "at_processing_id (claimed_attempt t now) = at_processing_id t"
  "at_operation_key (claimed_attempt t now) = at_operation_key t" "pr_processing_id (claimed_record r now) = pr_processing_id r"
  "at_attempt_id (submitted_attempt t x now) = at_attempt_id t" "at_processing_id (submitted_attempt t x now) = at_processing_id t"
  "pr_processing_id (submitted_record r now) = pr_processing_id r"
  "at_attempt_id (polled_attempt t rs now) = at_attempt_id t" "at_processing_id (polled_attempt t rs now) = at_processing_id t"
  "pr_processing_id (polled_record r now) = pr_processing_id r"
  "at_attempt_id (completed_attempt t now) = at_attempt_id t" "at_processing_id (completed_attempt t now) = at_processing_id t"
  "pr_processing_id (completed_record r res now) = pr_processing_id r"
  "pr_processing_id (no_action_record r d now) = pr_processing_id r" "pr_processing_id (plan_record r d i q n now) = pr_processing_id r"
  by (simp_all add: claimed_attempt_def claimed_record_def submitted_attempt_def submitted_record_def polled_attempt_def
      polled_record_def completed_attempt_def completed_record_def no_action_record_def plan_record_def)

text \<open>Each step keeps the validity of both.\<close>

lemma claimed_valid:
  assumes "attempt_valid t" "at_state t = A_PLANNED" "record_valid r" "pr_state r = PLANNED"
    and "aware now" "\<not> dt_less now (pr_created_at r)"
  shows "attempt_valid (claimed_attempt t now)" "record_valid (claimed_record r now)"
proof -
  show "attempt_valid (claimed_attempt t now)"
    using assms by (simp add: attempt_valid_def attempt_state_check_def claimed_attempt_def)
  show "record_valid (claimed_record r now)"
    unfolding claimed_record_def using assms by (intro record_valid_moves) simp_all
qed

lemma submitted_valid:
  assumes "attempt_valid t" "at_state t = A_SUBMITTING" "at_completed_at t = None" "at_failed_at t = None" "at_submitted_at t = None"
    and "record_valid r" "pr_state r = SUBMITTING" "full_plan r" "pr_completed_result r = None"
    and "aware now" "\<not> dt_less now (pr_created_at r)" "nonblank x" "length x \<le> 512"
  shows "attempt_valid (submitted_attempt t x now)" "record_valid (submitted_record r now)"
proof -
  show "attempt_valid (submitted_attempt t x now)"
    using assms by (simp add: attempt_valid_def attempt_state_check_def submitted_attempt_def)
  show "record_valid (submitted_record r now)"
    unfolding submitted_record_def using assms by (intro record_valid_moves) simp_all
qed

lemma polled_valid:
  assumes "attempt_valid t" "at_state t = A_SUBMITTED" "record_valid r" "pr_state r = SUBMITTED"
    and "aware now" "\<not> dt_less now (pr_created_at r)" "nonblank rs" "length rs \<le> 256"
  shows "attempt_valid (polled_attempt t rs now)" "record_valid (polled_record r now)"
proof -
  show "attempt_valid (polled_attempt t rs now)"
    using assms by (auto simp: attempt_valid_def attempt_state_check_def polled_attempt_def)
  have "polled_record r now = r\<lparr>pr_state := SUBMITTED, pr_updated_at := now, pr_error_category := None, pr_error_detail := None\<rparr>"
    using assms(4) by (simp add: polled_record_def)
  moreover have "record_valid (r\<lparr>pr_state := SUBMITTED, pr_updated_at := now, pr_error_category := None, pr_error_detail := None\<rparr>)"
    using assms by (intro record_valid_active) simp_all
  ultimately show "record_valid (polled_record r now)" by simp
qed

lemma completed_valid:
  assumes "attempt_valid t" "at_state t = A_SUBMITTED" "record_valid r" "pr_state r = SUBMITTED"
    and "planned_for r d i q n" "pr_failed_at r = None" "or_decision res = d" "or_incident res = Some i"
    and "aware now" "\<not> dt_less now (pr_created_at r)"
  shows "attempt_valid (completed_attempt t now)" "record_valid (completed_record r res now)"
proof -
  show "attempt_valid (completed_attempt t now)"
    using assms by (simp add: attempt_valid_def attempt_state_check_def completed_attempt_def)
  show "record_valid (completed_record r res now)"
    unfolding completed_record_def using assms by (intro record_valid_completed [where d = d and i = i and q = q and n = n]) simp_all
qed

lemma accepted_planned_valid:
  assumes "aware now0" "aware now" "\<not> dt_less now now0" "length dg = 32"
    and "de_source d = al_source al" "alert_eq (in_alert i) al"
  shows "record_valid (plan_record (accepted_record p al sc k fingerprint_version dg now0) d i q n now)"
  using assms
  by (simp add: record_valid_def record_common_def record_state_check_def record_graph_check_def full_plan_def
      accepted_record_def plan_record_def fingerprint_version_def)

lemma planned_attempt_valid: "nonblank n \<Longrightarrow> aware now \<Longrightarrow> attempt_valid (planned_attempt a p key n now)"
  by (simp add: attempt_valid_def attempt_state_check_def planned_attempt_def)

lemma fingerprint_length: "fingerprint_canonical_alert al = Inr (v, dg) \<Longrightarrow> v = fingerprint_version \<and> length dg = 32"
  by (auto simp: fingerprint_canonical_alert_def and_then_Inr)


lemma accepted_valid:
  assumes "aware now" "length dg = 32"
  shows "record_valid (accepted_record p al sc k fingerprint_version dg now)"
  using assms by (simp add: record_valid_def record_common_def record_state_check_def record_graph_check_def
      accepted_record_def no_plan_def dt_less_def fingerprint_version_def)

lemma no_action_valid:
  assumes "aware now0" "aware now" "\<not> dt_less now now0" "length dg = 32" "de_source d = al_source al"
  shows "record_valid (no_action_record (accepted_record p al sc k fingerprint_version dg now0) d now)"
  using assms by (simp add: no_action_record_def no_action_result_def accepted_record_def record_valid_def record_common_def
      record_state_check_def record_graph_check_def fingerprint_version_def)

text \<open>The result of an investigation: what the plan decided, and what the backend collected.\<close>

definition outcome_of ::
  "backend \<Rightarrow> decision \<Rightarrow> incident \<Rightarrow> investigation_request \<Rightarrow> orchestration_result \<Rightarrow> bool"
where
  "outcome_of b d i q res \<longleftrightarrow>
     (\<exists>v u x. bk_collect b u q x = Inr v \<and> rs_backend v = bk_name b
        \<and> res = \<lparr>or_decision = d, or_incident = Some i, or_investigation_request = Some q, or_investigation_result = Some v\<rparr>)"

text \<open>The trace of an investigation that completes: one claim, one submission, one poll, one
  collection.\<close>

definition completion_trace :: "uuid \<Rightarrow> ustring \<Rightarrow> ustring \<Rightarrow> event list" where
  "completion_trace a n x = [Ev_poll a n x None, Ev_collect a n x]"

lemma usable_timeout_None [simp]: "usable_timeout None"
  by (simp add: usable_timeout_def)


text \<open>A backend known by its name, and a request that belongs to the incident to be investigated;
  what it takes for the investigation to complete: a backend that is able to serve the request.\<close>

definition routed :: "env \<Rightarrow> backend \<Rightarrow> decision \<Rightarrow> incident \<Rightarrow> investigation_request \<Rightarrow> bool" where
  "routed E b d i q \<longleftrightarrow> nonblank (bk_name b) \<and> backend_for_name (e_orchestrator E) (bk_name b) = Some b
     \<and> supports b q \<and> request_ok q \<and> incident_eq (ir_incident q) i \<and> in_decision i = d \<and> de_outcome d = INVESTIGATE"

definition runnable :: "env \<Rightarrow> backend \<Rightarrow> decision \<Rightarrow> incident \<Rightarrow> investigation_request \<Rightarrow> bool" where
  "runnable E b d i q \<longleftrightarrow> routed E b d i q \<and> (\<exists>able known. reliable_backend b able known \<and> able q)"

text \<open>The same up to the backend, which may fail, for an alert: the policy, the request factory and the router.\<close>

definition assigned :: "env \<Rightarrow> canonical_alert \<Rightarrow> decision \<Rightarrow> investigation_request \<Rightarrow> backend \<Rightarrow> bool" where
  "assigned E al d q b \<longleftrightarrow>
     oc_policy (e_orchestrator E) al = Inr d \<and> de_source d = al_source al
     \<and> oc_request_factory (e_orchestrator E) \<lparr>in_alert = al, in_decision = d\<rparr> = Inr q
     \<and> router_select (oc_router (e_orchestrator E)) q = Inr b
     \<and> routed E b d \<lparr>in_alert = al, in_decision = d\<rparr> q"

text \<open>\<open>process\<close> adds the metric of the outcome and restores the context.\<close>

lemma process_Inr:
  "process_inner R E al key w = (Inr out, w') \<Longrightarrow>
   \<exists>w''. process R E al key w = (Inr out, w'') \<and> w_repo w'' = w_repo w' \<and> w_events w'' = w_events w'"
  by (simp add: process_def bind_run asks_def finally_do_def try_run)

lemma process_Inl:
  "process_inner R E al key w = (Inl e, w') \<Longrightarrow>
   \<exists>w''. process R E al key w = (Inl e, w'') \<and> w_repo w'' = w_repo w' \<and> w_events w'' = w_events w'"
  by (simp add: process_def bind_run asks_def finally_do_def try_run)

section \<open>Repositories that record what they are told\<close>

text \<open>The store holds the attempt \<open>t\<close> and its record \<open>r\<close>, both valid.\<close>

definition pair_held ::
  "('s \<Rightarrow> uuid \<Rightarrow> execution_attempt option) \<Rightarrow> ('s \<Rightarrow> uuid \<Rightarrow> processing_record option) \<Rightarrow> 's \<Rightarrow>
   execution_attempt \<Rightarrow> processing_record \<Rightarrow> bool"
where
  "pair_held att rec s t r \<longleftrightarrow> att s (at_attempt_id t) = Some t \<and> attempt_valid t
     \<and> rec s (at_processing_id t) = Some r \<and> record_valid r \<and> pr_processing_id r = at_processing_id t"

text \<open>
  \<open>rec\<close> and \<open>att\<close> read a store; \<open>unbound\<close>, \<open>fresh_processing\<close>, \<open>fresh_attempt\<close> and \<open>fresh_key\<close> say
  that a key or an identifier is not in use, \<open>unplanned\<close> that a processing has no attempt. \<open>kept al\<close>
  is the alert as the store gives it back, when it can hold it; \<open>can_decide\<close>, \<open>can_plan\<close>, \<open>can_text\<close> and
  \<open>can_result\<close> are the values it can hold.
\<close>

locale recording_repository =
  fixes R :: "'s repository"
    and ok :: "'s \<Rightarrow> bool"
    and rec :: "'s \<Rightarrow> uuid \<Rightarrow> processing_record option"
    and att :: "'s \<Rightarrow> uuid \<Rightarrow> execution_attempt option"
    and unbound :: "'s \<Rightarrow> ustring \<Rightarrow> ustring \<Rightarrow> bool"
    and fresh_processing :: "'s \<Rightarrow> uuid \<Rightarrow> bool"
    and fresh_attempt :: "'s \<Rightarrow> uuid \<Rightarrow> bool"
    and fresh_key :: "'s \<Rightarrow> uuid \<Rightarrow> bool"
    and unplanned :: "'s \<Rightarrow> uuid \<Rightarrow> bool"
    and kept :: "canonical_alert \<Rightarrow> canonical_alert option"
    and can_decide :: "decision \<Rightarrow> bool"
    and can_plan :: "incident \<Rightarrow> investigation_request \<Rightarrow> ustring \<Rightarrow> bool"
    and can_text :: "ustring \<Rightarrow> bool"
    and can_result :: "investigation_result \<Rightarrow> bool"
  assumes gets: "ok s \<Longrightarrow> rec s p = Some r \<Longrightarrow> rp_get R p now s = (Inr (Some r), s)"
    and accepts: "ok s \<Longrightarrow> key_visible_ascii key \<Longrightarrow> unbound s (sp_source (al_source al)) key \<Longrightarrow> fresh_processing s p \<Longrightarrow>
      aware now \<Longrightarrow> length dg = 32 \<Longrightarrow> kept al = Some al' \<Longrightarrow>
      r = accepted_record p al' (sp_source (al_source al)) key fingerprint_version dg now \<Longrightarrow>
      \<exists>s'. rp_accept_processing R p al (sp_source (al_source al)) key fingerprint_version dg now s
          = (Inr \<lparr>pa_record = r, pa_created = True\<rparr>, s')
        \<and> ok s' \<and> rec s' p = Some r \<and> unplanned s' p \<and> att s' = att s
        \<and> fresh_attempt s' = fresh_attempt s \<and> fresh_key s' = fresh_key s"
    and stores_no_action: "ok s \<Longrightarrow> rec s p = Some r \<Longrightarrow> pr_state r = ACCEPTED \<Longrightarrow> de_outcome d = NO_ACTION \<Longrightarrow>
      can_decide d \<Longrightarrow> record_valid (no_action_record r d now) \<Longrightarrow>
      \<exists>s'. rp_store_no_action_result R p (no_action_result d) now s = (Inr (Some (no_action_record r d now)), s')
        \<and> ok s' \<and> rec s' p = Some (no_action_record r d now) \<and> att s' = att s"
    and plans: "ok s \<Longrightarrow> rec s p = Some r \<Longrightarrow> pr_state r = ACCEPTED \<Longrightarrow> unplanned s p \<Longrightarrow> fresh_attempt s a \<Longrightarrow>
      fresh_key s op_key \<Longrightarrow> de_outcome d = INVESTIGATE \<Longrightarrow> can_decide d \<Longrightarrow> i = \<lparr>in_alert = pr_alert r, in_decision = d\<rparr> \<Longrightarrow>
      can_plan i q n \<Longrightarrow> request_ok q \<Longrightarrow> nonblank n \<Longrightarrow> record_valid (plan_record r d i q n now) \<Longrightarrow> attempt_valid (planned_attempt a p op_key n now) \<Longrightarrow>
      \<exists>s'. rp_store_plan R p d i q n a op_key now s
          = (Inr (Some \<lparr>pp_record = plan_record r d i q n now, pp_attempt = planned_attempt a p op_key n now\<rparr>), s')
        \<and> ok s' \<and> rec s' p = Some (plan_record r d i q n now) \<and> att s' a = Some (planned_attempt a p op_key n now)"
    and claims: "ok s \<Longrightarrow> pair_held att rec s t r \<Longrightarrow> at_state t = A_PLANNED \<Longrightarrow> pr_state r = PLANNED \<Longrightarrow>
      attempt_valid (claimed_attempt t now) \<Longrightarrow> record_valid (claimed_record r now) \<Longrightarrow>
      \<exists>s'. rp_claim_attempt_for_submission R (at_attempt_id t) now s = (Inr (Some (claimed_attempt t now)), s')
        \<and> ok s' \<and> pair_held att rec s' (claimed_attempt t now) (claimed_record r now)"
    and marks: "ok s \<Longrightarrow> pair_held att rec s t r \<Longrightarrow> at_state t = A_SUBMITTING \<Longrightarrow> pr_state r = SUBMITTING \<Longrightarrow>
      can_text x \<Longrightarrow> attempt_valid (submitted_attempt t x now) \<Longrightarrow> record_valid (submitted_record r now) \<Longrightarrow>
      \<exists>s'. rp_mark_attempt_submitted R (at_attempt_id t) x now s = (Inr (Some (submitted_attempt t x now)), s')
        \<and> ok s' \<and> pair_held att rec s' (submitted_attempt t x now) (submitted_record r now)"
    and polls: "ok s \<Longrightarrow> pair_held att rec s t r \<Longrightarrow> at_state t = A_SUBMITTED \<Longrightarrow> pr_state r = SUBMITTED \<Longrightarrow>
      can_text rs \<Longrightarrow> nonblank rs \<Longrightarrow> attempt_valid (polled_attempt t rs now) \<Longrightarrow> record_valid (polled_record r now) \<Longrightarrow>
      \<exists>s'. rp_record_poll R (at_attempt_id t) rs None None now s = (Inr (Some (polled_attempt t rs now)), s')
        \<and> ok s' \<and> pair_held att rec s' (polled_attempt t rs now) (polled_record r now)"
    and completes: "ok s \<Longrightarrow> pair_held att rec s t r \<Longrightarrow> at_state t = A_SUBMITTED \<Longrightarrow> pr_state r = SUBMITTED \<Longrightarrow>
      planned_for r d i q n \<Longrightarrow> de_outcome d = INVESTIGATE \<Longrightarrow> can_result v \<Longrightarrow>
      res = \<lparr>or_decision = d, or_incident = Some i, or_investigation_request = Some q, or_investigation_result = Some v\<rparr> \<Longrightarrow>
      mk_orchestration_result d (Some i) (Some q) (Some v) = Inr res \<Longrightarrow>
      attempt_valid (completed_attempt t now) \<Longrightarrow> record_valid (completed_record r res now) \<Longrightarrow>
      \<exists>s' r'. rp_complete_processing R (at_attempt_id t) res now s = (Inr (Some r'), s')
        \<and> r' \<in> {completed_record r res now, forget_plan (completed_record r res now)}
        \<and> ok s' \<and> rec s' (at_processing_id t) = Some r' \<and> att s' (at_attempt_id t) = Some (completed_attempt t now)"
begin

text \<open>A backend that answers, and with values that the store can hold.\<close>

definition serves :: "backend \<Rightarrow> (investigation_request \<Rightarrow> bool) \<Rightarrow> (ustring \<Rightarrow> bool) \<Rightarrow> bool" where
  "serves b able known \<longleftrightarrow> reliable_backend b able known \<and> (\<forall>x. known x \<longrightarrow> can_text x)
     \<and> (\<forall>u q x timeout st. able q \<longrightarrow> request_ok q \<longrightarrow> known x \<longrightarrow> bk_poll b u q x timeout = Inr (Some st) \<longrightarrow>
          can_text (os_remote_state st))
     \<and> (\<forall>u q x v. able q \<longrightarrow> request_ok q \<longrightarrow> known x \<longrightarrow> bk_collect b u q x = Inr v \<longrightarrow> can_result v)"

definition served :: "env \<Rightarrow> backend \<Rightarrow> decision \<Rightarrow> incident \<Rightarrow> investigation_request \<Rightarrow> bool" where
  "served E b d i q \<longleftrightarrow> routed E b d i q \<and> (\<exists>able known. serves b able known \<and> able q)"

definition storable_plan :: "decision \<Rightarrow> incident \<Rightarrow> investigation_request \<Rightarrow> ustring \<Rightarrow> bool" where
  "storable_plan d i q n \<longleftrightarrow> can_decide d \<and> can_plan i q n"

definition new_alert :: "env \<Rightarrow> 's world \<Rightarrow> canonical_alert \<Rightarrow> ustring \<Rightarrow> bool" where
  "new_alert E w al key \<longleftrightarrow>
     (let s = w_repo w; u = w_step w in
      key_visible_ascii key \<and> unbound s (sp_source (al_source al)) key \<and> fresh_processing s (e_fresh E u)
      \<and> fresh_attempt s (e_fresh E (u + 2)) \<and> fresh_key s (e_fresh E (u + 3)))"

lemma poll_completes:
  assumes E: "quiet E" and b: "serves b able known" "backend_for_name (e_orchestrator E) n = Some b" "bk_name b = n"
    and q: "able q" "request_ok q" "incident_eq (ir_incident q) i" "in_decision i = d" "de_outcome d = INVESTIGATE"
    and r: "planned_for r d i q n" "pr_state r = SUBMITTED" "pr_failed_at r = None"
    and t: "at_state t = A_SUBMITTED" "at_external_operation_id t = Some x" "known x"
    and s: "ok (w_repo w)" "pair_held att rec (w_repo w) t r"
    and c: "\<And>u. aware (e_now E u) \<and> \<not> dt_less (e_now E u) (pr_created_at r)"
  shows "\<exists>r' w' res. poll_submitted R E r t None w = (Inr r', w')
    \<and> pr_state r' = COMPLETED \<and> pr_completed_result r' = Some res
    \<and> outcome_of b d i q res
    \<and> pr_processing_id r' = pr_processing_id r \<and> pr_alert r' = pr_alert r
    \<and> rec (w_repo w') (pr_processing_id r) = Some r'
    \<and> w_events w' = w_events w @ completion_trace (at_attempt_id t) n x"
proof -
  have tv: "attempt_valid t" and rv: "record_valid r" and pid: "pr_processing_id r = at_processing_id t"
    using s by (simp_all add: pair_held_def)
  have rel: "reliable_backend b able known" using b(1) by (simp add: serves_def)
  let ?u = "w_step w"
  from reliable_backend.polls [OF rel q(1,2) t(3) usable_timeout_None, of ?u] obtain st where
    st: "bk_poll b ?u q x None = Inr (Some st)" "status_ok st" "os_state st = Some SUCCEEDED" by blast
  have rs: "can_text (os_remote_state st)" "nonblank (os_remote_state st)" "length (os_remote_state st) \<le> 256"
    using b(1) q(1,2) t(3) st(1,2) by (auto simp: serves_def status_ok_def)
  let ?now1 = "e_now E (Suc ?u)" and ?now2 = "e_now E (Suc (Suc (Suc ?u)))"
  let ?t1 = "polled_attempt t (os_remote_state st) ?now1" and ?r1 = "polled_record r ?now1"
  have v1: "attempt_valid ?t1" "record_valid ?r1"
    using polled_valid [OF tv t(1) rv r(2) _ _ rs(2,3)] c by simp_all
  obtain s1 where s1: "rp_record_poll R (at_attempt_id t) (os_remote_state st) None None ?now1 (w_repo w) = (Inr (Some ?t1), s1)"
    "ok s1" "pair_held att rec s1 ?t1 ?r1"
    using polls [OF s t(1) r(2) rs(1,2) v1] by blast
  from reliable_backend.collects [OF rel q(1,2) t(3), of "Suc (Suc ?u)"] obtain ir where
    ir: "bk_collect b (Suc (Suc ?u)) q x = Inr ir" "rs_backend ir = n" using b(3) by blast
  have can: "can_result ir" using b(1) q(1,2) t(3) ir(1) by (auto simp: serves_def)
  define res where "res = \<lparr>or_decision = d, or_incident = Some i, or_investigation_request = Some q,
    or_investigation_result = Some ir\<rparr>"
  have mk: "mk_orchestration_result d (Some i) (Some q) (Some ir) = Inr res"
    using q by (simp add: mk_orchestration_result_Inr res_def result_ok_def)
  let ?t2 = "completed_attempt ?t1 ?now2" and ?r2 = "completed_record ?r1 res ?now2"
  have st1: "at_state ?t1 = A_SUBMITTED" "pr_state ?r1 = SUBMITTED" "planned_for ?r1 d i q n" "pr_failed_at ?r1 = None"
    "pr_created_at ?r1 = pr_created_at r"
    using t r by (simp_all add: polled_attempt_def polled_record_def planned_for_def)
  have v2: "attempt_valid ?t2" "record_valid ?r2"
    using completed_valid [OF v1(1) st1(1) v1(2) st1(2-4), of res] c st1(5) by (simp_all add: res_def)
  obtain s2 r2 where s2: "rp_complete_processing R (at_attempt_id t) res ?now2 s1 = (Inr (Some r2), s2)"
    "r2 \<in> {?r2, forget_plan ?r2}" "rec s2 (at_processing_id t) = Some r2"
    using completes [OF s1(2,3) st1(1-3) q(5) can res_def mk v2] by auto
  have r2: "pr_state r2 = COMPLETED" "pr_completed_result r2 = Some res" "pr_processing_id r2 = pr_processing_id r"
    "pr_alert r2 = pr_alert r"
    using s2(2) by (auto simp: completed_record_def polled_record_def forget_plan_def)
  define w1 where "w1 = w\<lparr>w_events := w_events w @ [Ev_poll (at_attempt_id t) n x None],
    w_calls := w_calls w @ [(?u, Ev_poll (at_attempt_id t) n x None)], w_step := Suc ?u\<rparr>"
  define w2 where "w2 = w1\<lparr>w_step := Suc (w_step w1), w_repo := s1\<rparr>"
  define w3 where "w3 = w2\<lparr>w_events := w_events w2 @ [Ev_collect (at_attempt_id t) n x],
    w_calls := w_calls w2 @ [(w_step w2, Ev_collect (at_attempt_id t) n x)], w_step := Suc (w_step w2)\<rparr>"
  define w4 where "w4 = w3\<lparr>w_step := Suc (w_step w3), w_repo := s2\<rparr>"
  define w5 where "w5 = w4\<lparr>w_metrics := w_metrics w4 @ [record_transition (S ''submitted'') (S ''completed'') (S ''success'') None]\<rparr>"
  have A: "backend_poll t b q x None w = (Inr (Some st), w1)"
    using st(1) b(3) by (simp add: backend_poll_def backend_call_def w1_def)
  have B: "repo_call R E (rp_record_poll R (at_attempt_id t) (os_remote_state st) None None) w1 = (Inr (Some ?t1), w2)"
    using s1(1) by (simp add: quiet_call [OF E] w1_def w2_def)
  have C: "collect_result r t b n q x w2 = (Inr res, w3)"
    using ir b(3) planned_for_reads [OF r(1)] mk
    by (simp add: collect_result_def backend_collect_def backend_call_def bind_run w1_def w2_def w3_def)
  have D: "repo_call R E (rp_complete_processing R (at_attempt_id t) res) w3 = (Inr (Some r2), w4)"
    using s2(1) by (simp add: quiet_call [OF E] w1_def w2_def w3_def w4_def)
  have "poll_submitted R E r t None w = handle_status R E r t None b n q x st w1"
    using planned_for_reads [OF r(1)] r(1) t(2) b(2)
    by (simp add: poll_submitted_def planned_for_def Let_def try_run bind_run A)
  also have "\<dots> = (Inr r2, w5)"
    using st(3) by (simp add: handle_status_def Let_def bind_run try_run B C D
        durable_or_reread_def or_else_def when_do_def r2 w5_def)
  finally have "poll_submitted R E r t None w = (Inr r2, w5)" .
  moreover have "outcome_of b d i q res" unfolding outcome_of_def res_def using ir b(3) by (intro exI) auto
  moreover have "rec s2 (pr_processing_id r) = Some r2" using s2(3) pid by simp
  ultimately show ?thesis
    by (intro exI [of _ r2] exI [of _ w5] exI [of _ res])
      (simp add: r2 w5_def w4_def w3_def w2_def w1_def completion_trace_def)
qed

section \<open>Submission to completion\<close>

text \<open>The claim of a planned attempt, up to the call of the backend.\<close>

lemma submit_claims:
  assumes E: "quiet E" and route: "routed E b d i q"
    and r: "planned_for r d i q (bk_name b)" "pr_state r = PLANNED"
    and t: "at_state t = A_PLANNED" and s: "ok (w_repo w)" "pair_held att rec (w_repo w) t r"
    and c: "\<And>u. aware (e_now E u) \<and> \<not> dt_less (e_now E u) (pr_created_at r)"
  shows "\<exists>w1. submit R E r t None w
      = after_claim R E r (claimed_attempt t (e_now E (w_step w))) None b (bk_name b) q w1
    \<and> ok (w_repo w1) \<and> pair_held att rec (w_repo w1) (claimed_attempt t (e_now E (w_step w))) (claimed_record r (e_now E (w_step w)))
    \<and> w_step w1 = Suc (w_step w) \<and> w_events w1 = w_events w @ [Ev_claim True (at_attempt_id t)]"
proof -
  let ?a = "at_attempt_id t" and ?u = "w_step w"
  let ?t1 = "claimed_attempt t (e_now E ?u)" and ?r1 = "claimed_record r (e_now E ?u)"
  have "attempt_valid t" "record_valid r" using s by (simp_all add: pair_held_def)
  then have v: "attempt_valid ?t1" "record_valid ?r1"
    using claimed_valid [of t r "e_now E ?u"] t r(2) c by simp_all
  obtain s1 where s1: "rp_claim_attempt_for_submission R ?a (e_now E ?u) (w_repo w) = (Inr (Some ?t1), s1)"
    "ok s1" "pair_held att rec s1 ?t1 ?r1"
    using claims [OF s t r(2) v] by blast
  let ?w1 = "w\<lparr>w_step := Suc ?u, w_repo := s1, w_events := w_events w @ [Ev_claim True ?a]\<rparr>"
  have "repo_claim R E ?a w = (Inr (Some ?t1), ?w1)"
    using s1(1) by (simp add: repo_claim_run quiet_call [OF E])
  then have "submit R E r t None w = after_claim R E r ?t1 None b (bk_name b) q ?w1"
    using planned_for_reads [OF r(1)] r(1) route by (simp add: routed_def submit_def planned_for_def Let_def try_run)
  with s1 show ?thesis by (intro exI [of _ ?w1]) simp
qed

lemma submit_completes:
  assumes E: "quiet E" and run: "served E b d i q"
    and r: "planned_for r d i q (bk_name b)" "pr_state r = PLANNED" "pr_failed_at r = None"
    and t: "at_state t = A_PLANNED"
    and s: "ok (w_repo w)" "pair_held att rec (w_repo w) t r"
    and c: "\<And>u. aware (e_now E u) \<and> \<not> dt_less (e_now E u) (pr_created_at r)"
  shows "\<exists>r' w' res x. submit R E r t None w = (Inr r', w')
    \<and> pr_state r' = COMPLETED \<and> pr_completed_result r' = Some res
    \<and> outcome_of b d i q res
    \<and> pr_processing_id r' = pr_processing_id r \<and> pr_alert r' = pr_alert r
    \<and> rec (w_repo w') (pr_processing_id r) = Some r'
    \<and> w_events w' = w_events w @ [Ev_claim True (at_attempt_id t), Ev_submit (at_attempt_id t) (bk_name b) (at_operation_key t) None]
        @ completion_trace (at_attempt_id t) (bk_name b) x"
proof -
  let ?n = "bk_name b" and ?a = "at_attempt_id t" and ?p = "pr_processing_id r" and ?u = "w_step w"
  from run obtain able known where b: "serves b able known" "backend_for_name (e_orchestrator E) ?n = Some b"
    and q: "able q" "request_ok q" and route: "routed E b d i q" by (auto simp: served_def routed_def)
  have rel: "reliable_backend b able known" using b(1) by (simp add: serves_def)
  let ?t1 = "claimed_attempt t (e_now E ?u)" and ?r1 = "claimed_record r (e_now E ?u)"
  from submit_claims [OF E route r(1,2) t s c] obtain w1 where
    w1: "submit R E r t None w = after_claim R E r ?t1 None b ?n q w1"
      "w_step w1 = Suc ?u" "w_events w1 = w_events w @ [Ev_claim True ?a]"
    and s1: "ok (w_repo w1)" "pair_held att rec (w_repo w1) ?t1 ?r1" by blast
  have tv: "attempt_valid t" and v1: "attempt_valid ?t1" "record_valid ?r1"
    using s s1 by (simp_all add: pair_held_def)
  from reliable_backend.submits [OF rel q usable_timeout_None, of "Suc ?u" "at_operation_key t"] obtain so where
    so: "bk_submit b (Suc ?u) q (at_operation_key t) None = Inr (Some so)" "submitted_ok so"
      "known (so_external_operation_id so)" by blast
  define x where "x = so_external_operation_id so"
  have x: "can_text x" "nonblank x" "length x \<le> 512" "known x"
    using b(1) so(2,3) by (simp_all add: serves_def submitted_ok_def x_def)
  let ?now2 = "e_now E (Suc (Suc ?u))"
  let ?t2 = "submitted_attempt ?t1 x ?now2" and ?r2 = "submitted_record ?r1 ?now2"
  have st1: "at_state ?t1 = A_SUBMITTING" "pr_state ?r1 = SUBMITTING" "at_completed_at ?t1 = None" "at_failed_at ?t1 = None"
    "at_submitted_at ?t1 = None" "full_plan ?r1" "pr_completed_result ?r1 = None" "pr_created_at ?r1 = pr_created_at r"
    using tv t r(1) by (auto simp: claimed_attempt_def claimed_record_def attempt_valid_def attempt_state_check_def
        full_plan_def planned_for_def)
  have v2: "attempt_valid ?t2" "record_valid ?r2"
    using submitted_valid [OF v1(1) st1(1,3-5) v1(2) st1(2,6,7) _ _ x(2,3)] c st1(8) by simp_all
  obtain s2 where s2: "rp_mark_attempt_submitted R ?a x ?now2 (w_repo w1) = (Inr (Some ?t2), s2)" "ok s2"
    "pair_held att rec s2 ?t2 ?r2"
    using marks [OF s1 st1(1,2) x(1) v2] by auto
  have rec2: "rec s2 ?p = Some ?r2" using s2(3) s(2) by (simp add: pair_held_def)
  define w2 where "w2 = w1\<lparr>w_context := set_attempt_id (Some (uuid_str ?a)) (w_context w1),
    w_metrics := w_metrics w1 @ [record_transition (S ''planned'') (S ''submitting'') (S ''success'') None]\<rparr>"
  define w3 where "w3 = w2\<lparr>w_step := Suc (Suc ?u), w_events := w_events w2 @ [Ev_submit ?a ?n (at_operation_key t) None],
    w_calls := w_calls w2 @ [(Suc ?u, Ev_submit ?a ?n (at_operation_key t) None)],
    w_metrics := w_metrics w2 @ [record_backend ?n (bounded_capability (ir_required_capabilities q)) (S ''success'') None]\<rparr>"
  have B: "backend_submit ?t1 b q None w2 = (Inr (Some so), w3)"
    using so(1) w1(2) by (simp add: backend_submit_def backend_call_def try_run bind_run Let_def w2_def w3_def)
  define w4 where "w4 = w3\<lparr>w_metrics := w_metrics w3 @ [record_submission ?n (S ''success'') None]\<rparr>"
  define w5 where "w5 = w4\<lparr>w_step := Suc (w_step w4), w_repo := s2\<rparr>"
  have C: "repo_call R E (rp_mark_attempt_submitted R ?a x) w4 = (Inr (Some ?t2), w5)"
    using s2(1) by (simp add: quiet_call [OF E] w2_def w3_def w4_def w5_def)
  define w6 where "w6 = w5\<lparr>w_metrics := w_metrics w5 @ [record_transition (S ''submitting'') (S ''submitted'') (S ''success'') None],
    w_step := Suc (w_step w5)\<rparr>"
  have D: "repo_call R E (rp_get R ?p)
      (w5\<lparr>w_metrics := w_metrics w5 @ [record_transition (S ''submitting'') (S ''submitted'') (S ''success'') None]\<rparr>)
      = (Inr (Some ?r2), w6)"
    using gets [OF s2(2) rec2] by (simp add: quiet_call [OF E] w6_def w5_def)
  have after: "after_submission R E r ?t1 None ?n so w3 = poll_submitted R E ?r2 ?t2 None w6"
    using C D by (simp add: after_submission_def Let_def try_run bind_run reread_def w4_def x_def)
  have eq: "submit R E r t None w = poll_submitted R E ?r2 ?t2 None w6"
    using B after by (simp add: w1(1) after_claim_def Let_def try_run bind_run w2_def)
  have w6: "w_repo w6 = s2" "w_events w6 = w_events w @ [Ev_claim True ?a, Ev_submit ?a ?n (at_operation_key t) None]"
    by (simp_all add: w6_def w5_def w4_def w3_def w2_def w1(3))
  have st2: "at_state ?t2 = A_SUBMITTED" "pr_state ?r2 = SUBMITTED" "planned_for ?r2 d i q ?n" "pr_failed_at ?r2 = None"
    "pr_created_at ?r2 = pr_created_at r" "at_external_operation_id ?t2 = Some x" "pr_alert ?r2 = pr_alert r"
    using r by (simp_all add: submitted_attempt_def submitted_record_def claimed_record_def planned_for_def)
  have i: "incident_eq (ir_incident q) i" "in_decision i = d" "de_outcome d = INVESTIGATE"
    using route by (simp_all add: routed_def)
  have "\<exists>r' w' res. poll_submitted R E ?r2 ?t2 None w6 = (Inr r', w')
    \<and> pr_state r' = COMPLETED \<and> pr_completed_result r' = Some res
    \<and> outcome_of b d i q res
    \<and> pr_processing_id r' = pr_processing_id ?r2 \<and> pr_alert r' = pr_alert ?r2
    \<and> rec (w_repo w') (pr_processing_id ?r2) = Some r'
    \<and> w_events w' = w_events w6 @ completion_trace (at_attempt_id ?t2) ?n x"
    using s2(2,3) c st2(5) w6(1)
    by (intro poll_completes [OF E b refl q i st2(3,2,4,1,6) x(4)]) simp_all
  then show ?thesis
    unfolding eq by (fastforce simp: w6(2) st2(7))
qed

section \<open>From acceptance to completion\<close>

text \<open>What \<open>process\<close> does to the world up to the planning of a newly accepted alert.\<close>

lemma process_inner_accepts:
  assumes E: "quiet E" and s: "ok (w_repo w)" and c: "clock_from E (Suc (w_step w))" and f: "new_alert E w al key"
    and fp: "fingerprint_canonical_alert al = Inr (v, dg)" and k: "kept al = Some al'"
  defines "r \<equiv> accepted_record (e_fresh E (w_step w)) al' (sp_source (al_source al)) key v dg (e_now E (Suc (w_step w)))"
  obtains w1 where "process_inner R E al key w =
    bind (advance_accepted R E r None) (\<lambda>r'. ret \<lparr>po_record = r', po_replayed = False\<rparr>) w1"
    and "w_step w1 = Suc (Suc (w_step w))" "w_events w1 = w_events w"
    and "ok (w_repo w1)" "rec (w_repo w1) (e_fresh E (w_step w)) = Some r" "unplanned (w_repo w1) (e_fresh E (w_step w))"
    and "att (w_repo w1) = att (w_repo w)" "fresh_attempt (w_repo w1) = fresh_attempt (w_repo w)"
    and "fresh_key (w_repo w1) = fresh_key (w_repo w)"
proof -
  let ?p = "e_fresh E (w_step w)"
  have v: "v = fingerprint_version" "length dg = 32" using fingerprint_length [OF fp] by simp_all
  have a: "aware (e_now E (Suc (w_step w)))" using c by (simp add: clock_from_def)
  let ?w1 = "w\<lparr>w_step := Suc (w_step w)\<rparr>"
  from f have n: "key_visible_ascii key" "unbound (w_repo w) (sp_source (al_source al)) key" "fresh_processing (w_repo w) ?p"
    by (simp_all add: new_alert_def Let_def)
  from accepts [OF s n a v(2) k r_def [unfolded v(1), THEN meta_eq_to_obj_eq]] obtain s' where
    s': "rp_accept_processing R ?p al (sp_source (al_source al)) key fingerprint_version dg (e_now E (Suc (w_step w))) (w_repo w)
      = (Inr \<lparr>pa_record = r, pa_created = True\<rparr>, s')"
    and st: "ok s'" "rec s' ?p = Some r" "unplanned s' ?p" "att s' = att (w_repo w)"
      "fresh_attempt s' = fresh_attempt (w_repo w)" "fresh_key s' = fresh_key (w_repo w)" by auto
  have acc: "repo_call R E (rp_accept_processing R ?p al (sp_source (al_source al)) key v dg) ?w1
    = (Inr \<lparr>pa_record = r, pa_created = True\<rparr>, w\<lparr>w_step := Suc (Suc (w_step w)), w_repo := s'\<rparr>)"
    using s' by (simp add: quiet_call [OF E] v(1))
  have p: "pr_fingerprint_version r = Some v" "pr_request_fingerprint r = Some dg"
    by (simp_all add: r_def accepted_record_def)
  let ?w2 = "w\<lparr>w_step := Suc (Suc (w_step w)), w_repo := s',
       w_context := set_processing_id (Some (uuid_str (pr_processing_id r))) (w_context w),
       w_metrics := w_metrics w @ [record_persistence (S ''success'') None, record_idempotency (S ''accepted''),
         record_transition (S ''unknown'') (S ''accepted'') (S ''success'') None]\<rparr>"
  have "process_inner R E al key w =
    bind (advance_accepted R E r None) (\<lambda>r'. ret \<lparr>po_record = r', po_replayed = False\<rparr>) ?w2"
    unfolding process_inner_def
    by (simp add: bind_run [where m = "lift _"] fp try_run acc p Let_def)
  with that [of ?w2] st show ?thesis by simp
qed

text \<open>From the plan of an accepted record to the submission of its attempt.\<close>

lemma advance_accepted_plans:
  assumes E: "quiet E" and route: "routed E b d i q"
    and d: "oc_policy (e_orchestrator E) al = Inr d" "de_source d = al_source al" and i: "i = \<lparr>in_alert = al, in_decision = d\<rparr>"
    and q: "oc_request_factory (e_orchestrator E) i = Inr q" and sel: "router_select (oc_router (e_orchestrator E)) q = Inr b"
    and can: "storable_plan d i q (bk_name b)"
    and r: "r = accepted_record p al sc k fingerprint_version dg now0" "length dg = 32"
    and s: "ok (w_repo w)" "rec (w_repo w) p = Some r" "unplanned (w_repo w) p"
    and a: "fresh_attempt (w_repo w) (e_fresh E (w_step w))" "fresh_key (w_repo w) (e_fresh E (Suc (w_step w)))"
    and c: "\<And>u. aware (e_now E u) \<and> \<not> dt_less (e_now E u) now0" "aware now0"
  shows "\<exists>r1 t w3. advance_accepted R E r None w = submit R E r1 t None w3
    \<and> ok (w_repo w3) \<and> pair_held att rec (w_repo w3) t r1 \<and> planned_for r1 d i q (bk_name b) \<and> pr_state r1 = PLANNED
    \<and> pr_failed_at r1 = None \<and> pr_completed_at r1 = None \<and> pr_created_at r1 = now0 \<and> pr_processing_id r1 = p \<and> pr_alert r1 = al
    \<and> at_state t = A_PLANNED
    \<and> at_attempt_id t = e_fresh E (w_step w) \<and> at_operation_key t = e_fresh E (Suc (w_step w))
    \<and> w_events w3 = w_events w"
proof -
  let ?a = "e_fresh E (w_step w)" and ?key = "e_fresh E (Suc (w_step w))" and ?n = "bk_name b"
  let ?now = "e_now E (Suc (Suc (w_step w)))"
  let ?r1 = "plan_record r d i q ?n ?now" and ?t = "planned_attempt ?a p ?key ?n ?now"
  have out: "de_outcome d = INVESTIGATE" and e: "incident_eq (ir_incident q) i" and rq: "request_ok q"
    and n: "nonblank ?n" using route by (auto simp: routed_def)
  have pl: "plan (e_orchestrator E) al = Inr \<lparr>pl_decision = d, pl_incident = Some i,
    pl_investigation_request = Some q, pl_backend = Some b\<rparr>"
    using plan_investigate [OF d out q [unfolded i] e [unfolded i] sel] by (simp add: i)
  have v: "record_valid ?r1" "attempt_valid ?t"
    using c d(2) i n r(2) by (simp_all add: r(1) accepted_planned_valid planned_attempt_valid)
  have st: "pr_state r = ACCEPTED" "pr_alert r = al" "pr_processing_id r = p" by (simp_all add: r accepted_record_def)
  obtain s' where s': "rp_store_plan R p d i q ?n ?a ?key ?now (w_repo w)
      = (Inr (Some \<lparr>pp_record = ?r1, pp_attempt = ?t\<rparr>), s')" "ok s'" "rec s' p = Some ?r1" "att s' ?a = Some ?t"
    using plans [OF s(1,2) st(1) s(3) a out _ _ _ rq n v] i st(2) can by (auto simp: storable_plan_def)
  define w1 where "w1 = w\<lparr>w_step := Suc (Suc (w_step w))\<rparr>"
  define w2 where "w2 = w1\<lparr>w_step := Suc (Suc (Suc (w_step w))), w_repo := s'\<rparr>"
  define w3 where "w3 = w2\<lparr>w_metrics := w_metrics w2 @ [record_transition (S ''accepted'') (S ''planned'') (S ''success'') None]\<rparr>"
  have plan: "repo_call R E (rp_store_plan R p d i q ?n ?a ?key) w1 = (Inr (Some \<lparr>pp_record = ?r1, pp_attempt = ?t\<rparr>), w2)"
    using s'(1) by (simp add: quiet_call [OF E] w1_def w2_def)
  have step: "advance_accepted R E r None w = submit R E ?r1 ?t None w3"
    using pl out plan by (simp add: advance_accepted_def try_run st w3_def w1_def)
  have "pair_held att rec (w_repo w3) ?t ?r1"
    using v s'(3,4) st(3) by (simp add: pair_held_def w3_def w2_def w1_def planned_attempt_def)
  with step s'(2) show ?thesis
    by (intro exI [of _ ?r1] exI [of _ ?t] exI [of _ w3])
      (simp add: r plan_record_def accepted_record_def planned_for_def planned_attempt_def w3_def w2_def w1_def)
qed

lemma process_reaches_submit:
  assumes "quiet E" "clock_from E (Suc (w_step w))" "ok (w_repo w)" "new_alert E w al key" "kept al = Some al'"
    and "fingerprint_canonical_alert al = Inr (v, dg)" "assigned E al' d q b"
    and "storable_plan d \<lparr>in_alert = al', in_decision = d\<rparr> q (bk_name b)"
  obtains r t w3 where "ok (w_repo w3)" "pair_held att rec (w_repo w3) t r"
    and "planned_for r d \<lparr>in_alert = al', in_decision = d\<rparr> q (bk_name b)"
    and "pr_state r = PLANNED" "pr_failed_at r = None" "pr_completed_at r = None" "pr_processing_id r = e_fresh E (w_step w)"
    and "pr_alert r = al'" "\<And>u. aware (e_now E u) \<and> \<not> dt_less (e_now E u) (pr_created_at r)"
    and "at_state t = A_PLANNED" "at_attempt_id t = e_fresh E (w_step w + 2)" "at_operation_key t = e_fresh E (w_step w + 3)"
    and "w_events w3 = w_events w"
    and "\<And>r' w'. submit R E r t None w3 = (Inr r', w') \<Longrightarrow>
      \<exists>w''. process R E al key w = (Inr \<lparr>po_record = r', po_replayed = False\<rparr>, w'')
        \<and> w_repo w'' = w_repo w' \<and> w_events w'' = w_events w'"
proof -
  let ?p = "e_fresh E (w_step w)" and ?start = "e_now E (Suc (w_step w))" and ?i = "\<lparr>in_alert = al', in_decision = d\<rparr>"
  let ?r = "accepted_record ?p al' (sp_source (al_source al)) key v dg ?start"
  have v: "v = fingerprint_version" "length dg = 32" using fingerprint_length [OF assms(6)] by simp_all
  have q: "oc_request_factory (e_orchestrator E) ?i = Inr q" "router_select (oc_router (e_orchestrator E)) q = Inr b"
      "routed E b d ?i q"
    and d: "oc_policy (e_orchestrator E) al' = Inr d" "de_source d = al_source al'"
    using assms(7) by (auto simp: assigned_def)
  obtain w1 where step: "process_inner R E al key w =
      bind (advance_accepted R E ?r None) (\<lambda>r'. ret \<lparr>po_record = r', po_replayed = False\<rparr>) w1"
    and w1: "w_step w1 = Suc (Suc (w_step w))" "w_events w1 = w_events w"
      "ok (w_repo w1)" "rec (w_repo w1) ?p = Some ?r" "unplanned (w_repo w1) ?p"
      "fresh_attempt (w_repo w1) = fresh_attempt (w_repo w)" "fresh_key (w_repo w1) = fresh_key (w_repo w)"
    by (rule process_inner_accepts [OF assms(1,3,2,4,6,5)])
  have free: "fresh_attempt (w_repo w1) (e_fresh E (w_step w1))" "fresh_key (w_repo w1) (e_fresh E (Suc (w_step w1)))"
    using assms(4) w1(1,6,7) by (simp_all add: new_alert_def Let_def eval_nat_numeral)
  have c: "\<And>u. aware (e_now E u) \<and> \<not> dt_less (e_now E u) ?start" "aware ?start"
    using assms(2) by (simp_all add: clock_from_def)
  from advance_accepted_plans [OF assms(1) q(3) d refl q(1,2) assms(8) _ v(2) w1(3,4,5) free c]
  obtain r1 t w3 where a: "advance_accepted R E ?r None w1 = submit R E r1 t None w3"
    and f: "ok (w_repo w3)" "pair_held att rec (w_repo w3) t r1" "planned_for r1 d ?i q (bk_name b)"
      "pr_state r1 = PLANNED" "pr_failed_at r1 = None" "pr_completed_at r1 = None" "pr_processing_id r1 = ?p" "pr_alert r1 = al'"
      "pr_created_at r1 = ?start" "at_state t = A_PLANNED" "at_attempt_id t = e_fresh E (w_step w1)"
      "at_operation_key t = e_fresh E (Suc (w_step w1))" "w_events w3 = w_events w1"
    unfolding v(1) by blast
  have run: "\<exists>w''. process R E al key w = (Inr \<lparr>po_record = r', po_replayed = False\<rparr>, w'')
        \<and> w_repo w'' = w_repo w' \<and> w_events w'' = w_events w'"
    if "submit R E r1 t None w3 = (Inr r', w')" for r' w'
  proof (rule process_Inr)
    show "process_inner R E al key w = (Inr \<lparr>po_record = r', po_replayed = False\<rparr>, w')"
      using step a that by (simp add: bind_run)
  qed
  show thesis
    using c(1) f(9,11,12,13) w1(1,2)
    by (intro that [OF f(1-8) _ f(10) _ _ _ run]) (simp_all add: eval_nat_numeral)
qed

lemma investigation_completes:
  assumes "quiet E" "clock_from E (Suc (w_step w))" "ok (w_repo w)" "new_alert E w al key" "kept al = Some al'"
    and "fingerprint_canonical_alert al = Inr (v, dg)" "assigned E al' d q b"
    and "storable_plan d \<lparr>in_alert = al', in_decision = d\<rparr> q (bk_name b)"
    and "serves b able known" "able q"
  shows "\<exists>out w' res x. process R E al key w = (Inr out, w')
    \<and> \<not> po_replayed out \<and> pr_state (po_record out) = COMPLETED
    \<and> pr_processing_id (po_record out) = e_fresh E (w_step w) \<and> pr_alert (po_record out) = al'
    \<and> pr_completed_result (po_record out) = Some res
    \<and> outcome_of b d \<lparr>in_alert = al', in_decision = d\<rparr> q res
    \<and> rec (w_repo w') (e_fresh E (w_step w)) = Some (po_record out)
    \<and> w_events w' = w_events w @ [Ev_claim True (e_fresh E (w_step w + 2)),
        Ev_submit (e_fresh E (w_step w + 2)) (bk_name b) (e_fresh E (w_step w + 3)) None]
        @ completion_trace (e_fresh E (w_step w + 2)) (bk_name b) x"
proof (rule process_reaches_submit [OF assms(1-8)])
  let ?i = "\<lparr>in_alert = al', in_decision = d\<rparr>"
  fix r t w3
  assume f: "ok (w_repo w3)" "pair_held att rec (w_repo w3) t r" "planned_for r d ?i q (bk_name b)"
      "pr_state r = PLANNED" "pr_failed_at r = None" "pr_completed_at r = None" "pr_processing_id r = e_fresh E (w_step w)"
      "pr_alert r = al'" "\<And>u. aware (e_now E u) \<and> \<not> dt_less (e_now E u) (pr_created_at r)" "at_state t = A_PLANNED"
      "at_attempt_id t = e_fresh E (w_step w + 2)" "at_operation_key t = e_fresh E (w_step w + 3)" "w_events w3 = w_events w"
    and run: "\<And>r' w'. submit R E r t None w3 = (Inr r', w') \<Longrightarrow>
      \<exists>w''. process R E al key w = (Inr \<lparr>po_record = r', po_replayed = False\<rparr>, w'')
        \<and> w_repo w'' = w_repo w' \<and> w_events w'' = w_events w'"
  have "served E b d ?i q" using assms(7,9,10) by (auto simp: served_def assigned_def)
  from submit_completes [OF assms(1) this f(3-5,10,1,2,9)] obtain r' w' res x where
    r': "submit R E r t None w3 = (Inr r', w')" "pr_state r' = COMPLETED" "pr_completed_result r' = Some res"
      "outcome_of b d ?i q res" "pr_processing_id r' = pr_processing_id r" "pr_alert r' = pr_alert r"
      "rec (w_repo w') (pr_processing_id r) = Some r'"
      "w_events w' = w_events w3 @ [Ev_claim True (at_attempt_id t), Ev_submit (at_attempt_id t) (bk_name b) (at_operation_key t) None]
        @ completion_trace (at_attempt_id t) (bk_name b) x" by blast
  from run [OF r'(1)] obtain w'' where w'': "process R E al key w = (Inr \<lparr>po_record = r', po_replayed = False\<rparr>, w'')"
    "w_repo w'' = w_repo w'" "w_events w'' = w_events w'" by blast
  show ?thesis
    using r'(2-7) w''(2) f(7,8)
    by (intro exI [of _ "\<lparr>po_record = r', po_replayed = False\<rparr>"] exI [of _ w''] exI [of _ res] exI [of _ x])
       (simp add: w''(1,3) r'(8) f(11-13))
qed

lemma no_action_completes:
  assumes "quiet E" "clock_from E (Suc (w_step w))" "ok (w_repo w)" "new_alert E w al key" "kept al = Some al'"
    and "fingerprint_canonical_alert al = Inr (v, dg)"
    and "oc_policy (e_orchestrator E) al' = Inr d" "de_source d = al_source al'" "de_outcome d = NO_ACTION" "can_decide d"
  shows "\<exists>out w'. process R E al key w = (Inr out, w')
    \<and> \<not> po_replayed out \<and> pr_state (po_record out) = COMPLETED
    \<and> pr_processing_id (po_record out) = e_fresh E (w_step w) \<and> pr_alert (po_record out) = al'
    \<and> pr_completed_result (po_record out) = Some (no_action_result d)
    \<and> rec (w_repo w') (e_fresh E (w_step w)) = Some (po_record out)
    \<and> att (w_repo w') = att (w_repo w) \<and> w_events w' = w_events w"
proof -
  let ?p = "e_fresh E (w_step w)" and ?start = "e_now E (Suc (w_step w))"
  let ?now = "e_now E (Suc (Suc (w_step w)))"
  let ?r = "accepted_record ?p al' (sp_source (al_source al)) key v dg ?start"
  let ?r1 = "no_action_record ?r d ?now" and ?res = "no_action_result d"
  have v: "v = fingerprint_version" "length dg = 32" using fingerprint_length [OF assms(6)] by simp_all
  obtain w1 where step: "process_inner R E al key w =
      bind (advance_accepted R E ?r None) (\<lambda>r'. ret \<lparr>po_record = r', po_replayed = False\<rparr>) w1"
    and w1: "w_step w1 = Suc (Suc (w_step w))" "w_events w1 = w_events w"
      "ok (w_repo w1)" "rec (w_repo w1) ?p = Some ?r" "att (w_repo w1) = att (w_repo w)"
    by (rule process_inner_accepts [OF assms(1,3,2,4,6,5)])
  have res: "mk_orchestration_result d None None None = Inr ?res"
    using assms(9) by (simp add: mk_orchestration_result_Inr no_action_result_def result_ok_def)
  have r1v: "record_valid ?r1"
    using assms(2,8) v by (simp add: no_action_valid clock_from_def)
  have st: "pr_state ?r = ACCEPTED" "pr_alert ?r = al'" "pr_processing_id ?r = ?p" "pr_state ?r1 = COMPLETED" "pr_alert ?r1 = al'"
    "pr_processing_id ?r1 = ?p" "pr_completed_result ?r1 = Some ?res"
    by (simp_all add: accepted_record_def no_action_record_def)
  obtain s' where s': "rp_store_no_action_result R ?p ?res ?now (w_repo w1) = (Inr (Some ?r1), s')"
    "rec s' ?p = Some ?r1" "att s' = att (w_repo w1)"
    using stores_no_action [OF w1(3,4) st(1) assms(9,10) r1v] by auto
  define w2 where "w2 = w1\<lparr>w_step := Suc (w_step w1), w_repo := s',
    w_metrics := w_metrics w1 @ [record_transition (S ''accepted'') (S ''completed'') (S ''success'') None]\<rparr>"
  have "advance_accepted R E ?r None w1 = (Inr ?r1, w2)"
    using plan_no_action [of "e_orchestrator E" al' d, OF assms(7,8,9)] res s'(1) st(1-4) w1(1)
    by (simp add: advance_accepted_def complete_no_action_def try_run bind_run quiet_call [OF assms(1)]
        durable_or_reread_def or_else_def when_do_def assms(9) w2_def)
  with step have "process_inner R E al key w = (Inr \<lparr>po_record = ?r1, po_replayed = False\<rparr>, w2)" by (simp add: bind_run)
  from process_Inr [OF this] obtain w3 where w3: "process R E al key w
      = (Inr \<lparr>po_record = ?r1, po_replayed = False\<rparr>, w3)" "w_repo w3 = w_repo w2" "w_events w3 = w_events w2"
    by blast
  then show ?thesis
    using s'(2,3) w1(2,5) st(4-7)
    by (intro exI [of _ "\<lparr>po_record = ?r1, po_replayed = False\<rparr>"] exI [of _ w3]) (simp add: w2_def)
qed

end

end
