(* ===== verification/ProcessorOutcomes.thy ===== *)
theory ProcessorOutcomes
  imports ProcessorRuns MemoryBinding
begin

text \<open>
  The runs of \<open>recording_repository\<close> on the in-memory repository, and what one call of \<open>process\<close> gives
  its caller there: completion of an investigation and completion without action, idempotent replay,
  conflict, and the failure of acceptance; and what a pass of \<open>reconcile_once\<close> reports.
\<close>

section \<open>The in-memory repository records what it is told\<close>

lemma plan_success:
  assumes "de_outcome d = INVESTIGATE" "dict_get (mm_records s) p = Some r" "pr_state r = ACCEPTED"
    "dict_get (mm_attempt_by_processing s) p = None" "dict_get (mm_attempts s) a = None"
    "key \<notin> mm_operation_keys s" "record_valid (plan_record r d i q n now)"
    "attempt_valid (planned_attempt a p key n now)"
  shows "mem_store_plan p d i q n a key now s =
    (Inr (Some \<lparr>pp_record = plan_record r d i q n now, pp_attempt = planned_attempt a p key n now\<rparr>),
     (put_attempt a (planned_attempt a p key n now) (put_record p (plan_record r d i q n now) s))
                     \<lparr>mm_attempt_by_processing := dict_set p a (mm_attempt_by_processing s),
                      mm_operation_keys := insert key (mm_operation_keys s)\<rparr>)"
  using assms by (simp add: mem_store_plan_def mk_record_def mk_attempt_def plan_record_def)

text \<open>The conditions under which an alert is new to the store: its key is well formed and not yet
  bound, and the identifiers that the run will draw are fresh.\<close>

definition fresh_for :: "env \<Rightarrow> mem world \<Rightarrow> canonical_alert \<Rightarrow> ustring \<Rightarrow> bool" where
  "fresh_for E w al key \<longleftrightarrow>
     (let s = w_repo w; u = w_step w in
      key_visible_ascii key \<and> dict_get (mm_idempotency s) (sp_source (al_source al), key) = None
      \<and> dict_get (mm_records s) (e_fresh E u) = None
      \<and> dict_get (mm_attempts s) (e_fresh E (u + 2)) = None
      \<and> e_fresh E (u + 3) \<notin> mm_operation_keys s)"

lemma no_attempt_without_record:
  assumes "mem_ok s" "dict_get (mm_records s) p = None"
  shows "dict_get (mm_attempt_by_processing s) p = None"
proof (cases "dict_get (mm_attempt_by_processing s) p")
  case (Some a)
  with assms obtain t where "dict_get (mm_attempts s) a = Some t" "at_processing_id t = p"
    by (fastforce simp: mem_ok_defs)
  with assms show ?thesis by (fastforce simp: mem_ok_defs)
qed simp

abbreviation mem_record :: "mem \<Rightarrow> uuid \<Rightarrow> processing_record option" where
  "mem_record s p \<equiv> dict_get (mm_records s) p"

abbreviation mem_attempt :: "mem \<Rightarrow> uuid \<Rightarrow> execution_attempt option" where
  "mem_attempt s a \<equiv> dict_get (mm_attempts s) a"

lemma memory_pair_held: "pair_held mem_attempt mem_record s t r \<longleftrightarrow> holds_pair s t r"
  by (simp add: pair_held_def holds_pair_def)

lemma memory_pair_put:
  assumes "holds_pair s t r" "at_attempt_id t' = at_attempt_id t" "at_processing_id t' = at_processing_id t"
    and "pr_processing_id r' = pr_processing_id r" "attempt_valid t'" "record_valid r'"
    and "m s = (Inr x, put_record (pr_processing_id r) r' (put_attempt (at_attempt_id t) t' s))" "mem_ok (snd (m s))"
  shows "\<exists>s'. m s = (Inr x, s') \<and> mem_ok s' \<and> holds_pair s' t' r'"
  using holds_pair_put [OF assms(1-6)] assms(7,8) by simp

interpretation mem_runs: recording_repository memory_repository mem_ok mem_record mem_attempt
  "\<lambda>s sc k. dict_get (mm_idempotency s) (sc, k) = None" "\<lambda>s p. dict_get (mm_records s) p = None"
  "\<lambda>s a. dict_get (mm_attempts s) a = None" "\<lambda>s k. k \<notin> mm_operation_keys s"
  "\<lambda>s p. dict_get (mm_attempt_by_processing s) p = None" Some "\<lambda>_. True" "\<lambda>_ _ _. True" "\<lambda>_. True" "\<lambda>_. True"
proof (unfold_locales, unfold memory_ops memory_pair_held)
  fix s p r now
  assume "mem_ok s" "dict_get (mm_records s) p = Some r"
  then show "mem_get p now s = (Inr (Some r), s)" by (simp add: mem_get_def)
next
  fix s key al p now dg al' r
  assume s: "mem_ok s" and k: "key_visible_ascii key" "dict_get (mm_idempotency s) (sp_source (al_source al), key) = None"
    and p: "dict_get (mm_records s) p = None" and n: "aware now" "length dg = 32" and al: "Some al = Some al'"
    and r: "r = accepted_record p al' (sp_source (al_source al)) key fingerprint_version dg now"
  have "mem_ok (snd (mem_accept_processing p al (sp_source (al_source al)) key fingerprint_version dg now s))"
    using accept_evolves [OF s] by (simp add: evolves_def)
  then show "\<exists>s'. mem_accept_processing p al (sp_source (al_source al)) key fingerprint_version dg now s
      = (Inr \<lparr>pa_record = r, pa_created = True\<rparr>, s')
    \<and> mem_ok s' \<and> dict_get (mm_records s') p = Some r \<and> dict_get (mm_attempt_by_processing s') p = None
    \<and> mem_attempt s' = mem_attempt s \<and> (\<lambda>a. dict_get (mm_attempts s') a = None) = (\<lambda>a. dict_get (mm_attempts s) a = None)
    \<and> (\<lambda>k. k \<notin> mm_operation_keys s') = (\<lambda>k. k \<notin> mm_operation_keys s)"
    using accept_new [OF k p n] no_attempt_without_record [OF s p] r al by simp
next
  fix s p r d now
  assume s: "mem_ok s" and r: "dict_get (mm_records s) p = Some r" "pr_state r = ACCEPTED" and d: "de_outcome d = NO_ACTION"
    and v: "record_valid (no_action_record r d now)"
  have "mem_ok (snd (mem_store_no_action_result p (no_action_result d) now s))"
    using no_action_evolves [OF s] by (simp add: evolves_def)
  moreover have "mem_store_no_action_result p (no_action_result d) now s
      = (Inr (Some (no_action_record r d now)), put_record p (no_action_record r d now) s)"
    using r d v by (simp add: mem_store_no_action_result_def mk_record_def no_action_record_def no_action_result_def)
  ultimately show "\<exists>s'. mem_store_no_action_result p (no_action_result d) now s = (Inr (Some (no_action_record r d now)), s')
      \<and> mem_ok s' \<and> dict_get (mm_records s') p = Some (no_action_record r d now) \<and> mem_attempt s' = mem_attempt s" by simp
next
  fix s p r a op_key d i q n now
  assume s: "mem_ok s" and r: "dict_get (mm_records s) p = Some r" "pr_state r = ACCEPTED"
    and free: "dict_get (mm_attempt_by_processing s) p = None" "dict_get (mm_attempts s) a = None" "op_key \<notin> mm_operation_keys s"
    and d: "de_outcome d = INVESTIGATE"
    and v: "record_valid (plan_record r d i q n now)" "attempt_valid (planned_attempt a p op_key n now)"
  have "mem_ok (snd (mem_store_plan p d i q n a op_key now s))" using plan_evolves [OF s] by (simp add: evolves_def)
  with plan_success [OF d r free v] show "\<exists>s'. mem_store_plan p d i q n a op_key now s
      = (Inr (Some \<lparr>pp_record = plan_record r d i q n now, pp_attempt = planned_attempt a p op_key n now\<rparr>), s')
    \<and> mem_ok s' \<and> dict_get (mm_records s') p = Some (plan_record r d i q n now)
    \<and> dict_get (mm_attempts s') a = Some (planned_attempt a p op_key n now)" by simp
next
  fix s t r now
  assume s: "mem_ok s" "holds_pair s t r" "at_state t = A_PLANNED" "pr_state r = PLANNED"
    and v: "attempt_valid (claimed_attempt t now)" "record_valid (claimed_record r now)"
  have ok: "mem_ok (snd (mem_claim_attempt_for_submission (at_attempt_id t) now s))" using claim_evolves [OF s(1)] by (simp add: evolves_def)
  have "mem_claim_attempt_for_submission (at_attempt_id t) now s = (Inr (Some (claimed_attempt t now)),
      put_record (pr_processing_id r) (claimed_record r now) (put_attempt (at_attempt_id t) (claimed_attempt t now) s))"
    unfolding mem_claim_attempt_for_submission_def claimed_attempt_def claimed_record_def
    using holds_pair_mem_pair [OF s(2)] s(3,4) v by (intro step_success) (simp_all add: claimed_attempt_def claimed_record_def)
  then show "\<exists>s'. mem_claim_attempt_for_submission (at_attempt_id t) now s = (Inr (Some (claimed_attempt t now)), s')
      \<and> mem_ok s' \<and> holds_pair s' (claimed_attempt t now) (claimed_record r now)"
    using ok by (intro memory_pair_put [OF s(2)]) (simp_all add: v)
next
  fix s t r x now
  assume s: "mem_ok s" "holds_pair s t r" "at_state t = A_SUBMITTING" "pr_state r = SUBMITTING"
    and v: "attempt_valid (submitted_attempt t x now)" "record_valid (submitted_record r now)"
  have ok: "mem_ok (snd (mem_mark_attempt_submitted (at_attempt_id t) x now s))" using submitted_evolves [OF s(1)] by (simp add: evolves_def)
  have "mem_mark_attempt_submitted (at_attempt_id t) x now s = (Inr (Some (submitted_attempt t x now)),
      put_record (pr_processing_id r) (submitted_record r now) (put_attempt (at_attempt_id t) (submitted_attempt t x now) s))"
    unfolding mem_mark_attempt_submitted_def submitted_attempt_def submitted_record_def
    using holds_pair_mem_pair [OF s(2)] s(3,4) v by (intro step_success) (simp_all add: submitted_attempt_def submitted_record_def)
  then show "\<exists>s'. mem_mark_attempt_submitted (at_attempt_id t) x now s = (Inr (Some (submitted_attempt t x now)), s')
      \<and> mem_ok s' \<and> holds_pair s' (submitted_attempt t x now) (submitted_record r now)"
    using ok by (intro memory_pair_put [OF s(2)]) (simp_all add: v)
next
  fix s t r rs now
  assume s: "mem_ok s" "holds_pair s t r" "at_state t = A_SUBMITTED" "pr_state r = SUBMITTED"
    and v: "attempt_valid (polled_attempt t rs now)" "record_valid (polled_record r now)"
  have ok: "mem_ok (snd (mem_record_poll (at_attempt_id t) rs None None now s))" using poll_evolves [OF s(1)] by (simp add: evolves_def)
  have "mem_record_poll (at_attempt_id t) rs None None now s = (Inr (Some (polled_attempt t rs now)),
      put_record (pr_processing_id r) (polled_record r now) (put_attempt (at_attempt_id t) (polled_attempt t rs now) s))"
    unfolding mem_record_poll_def polled_attempt_def polled_record_def
    using holds_pair_mem_pair [OF s(2)] s(3,4) v by (intro step_success) (simp_all add: polled_attempt_def polled_record_def)
  then show "\<exists>s'. mem_record_poll (at_attempt_id t) rs None None now s = (Inr (Some (polled_attempt t rs now)), s')
      \<and> mem_ok s' \<and> holds_pair s' (polled_attempt t rs now) (polled_record r now)"
    using ok by (intro memory_pair_put [OF s(2)]) (simp_all add: v)
next
  fix s t r d i q n v res now
  assume s: "mem_ok s" "holds_pair s t r" "at_state t = A_SUBMITTED" "pr_state r = SUBMITTED"
    and d: "de_outcome d = INVESTIGATE" and res: "res = \<lparr>or_decision = d, or_incident = Some i, or_investigation_request = Some q, or_investigation_result = Some v\<rparr>"
    and v: "attempt_valid (completed_attempt t now)" "record_valid (completed_record r res now)"
  have ok: "mem_ok (snd (mem_complete_processing (at_attempt_id t) res now s))" using complete_evolves [OF s(1)] by (simp add: evolves_def)
  have "mem_pair (at_attempt_id t) A_SUBMITTED SUBMITTED s = Inr (Some (t, r))" "de_outcome (or_decision res) = INVESTIGATE"
    using holds_pair_mem_pair [OF s(2)] s(3,4) d res by simp_all
  from complete_success [OF this completed_attempt_def completed_record_def v] have
    "mem_complete_processing (at_attempt_id t) res now s = (Inr (Some (completed_record r res now)),
      put_record (pr_processing_id r) (completed_record r res now) (put_attempt (at_attempt_id t) (completed_attempt t now) s))" .
  with ok s(2) show "\<exists>s' r'. mem_complete_processing (at_attempt_id t) res now s = (Inr (Some r'), s')
      \<and> r' \<in> {completed_record r res now, forget_plan (completed_record r res now)}
      \<and> mem_ok s' \<and> dict_get (mm_records s') (at_processing_id t) = Some r'
      \<and> dict_get (mm_attempts s') (at_attempt_id t) = Some (completed_attempt t now)" by (simp add: holds_pair_def)
qed

lemma mem_new_alert: "mem_runs.new_alert E w al key \<longleftrightarrow> fresh_for E w al key"
  by (simp add: mem_runs.new_alert_def fresh_for_def Let_def)

lemma mem_storable: "mem_runs.storable_plan d i q n"
  by (simp add: mem_runs.storable_plan_def)

lemma mem_serves: "mem_runs.serves b able known \<longleftrightarrow> reliable_backend b able known"
  by (simp add: mem_runs.serves_def)

lemma sample_env_quiet [simp]: "quiet sample_env" "e_orchestrator sample_env = default_orchestrator"
  by (simp_all add: quiet_def sample_env_def)

lemma sample_env_clock: "clock_from sample_env u"
  by (simp add: clock_from_def sample_env_def)

lemma key_sample: "key_visible_ascii sample_key"
  by (simp add: sample_key_def key_visible_ascii_def S_def visible_ascii_def)

lemma sample_fresh: "fresh_for sample_env (start_world mem_empty) al sample_key"
  by (simp add: fresh_for_def key_sample start_world_def mem_empty_def dict_get_def)

section \<open>Completion\<close>

text \<open>What it takes for a new alert to be investigated: the policy, the request factory, the
  router and a backend that answers.\<close>

definition investigates :: "env \<Rightarrow> canonical_alert \<Rightarrow> decision \<Rightarrow> investigation_request \<Rightarrow> backend \<Rightarrow> bool" where
  "investigates E al d q b \<longleftrightarrow>
     oc_policy (e_orchestrator E) al = Inr d \<and> de_source d = al_source al
     \<and> oc_request_factory (e_orchestrator E) \<lparr>in_alert = al, in_decision = d\<rparr> = Inr q
     \<and> router_select (oc_router (e_orchestrator E)) q = Inr b
     \<and> runnable E b d \<lparr>in_alert = al, in_decision = d\<rparr> q"

lemma investigates_assigned: "investigates E al d q b \<Longrightarrow> assigned E al d q b"
  by (simp add: investigates_def assigned_def runnable_def)

lemma memory_investigation_completes:
  assumes "quiet E" "clock_from E (Suc (w_step w))" "mem_ok (w_repo w)" "fresh_for E w al key"
    and "fingerprint_canonical_alert al = Inr (v, dg)" "investigates E al d q b"
  shows "\<exists>out w' res x. process memory_repository E al key w = (Inr out, w')
    \<and> \<not> po_replayed out \<and> pr_state (po_record out) = COMPLETED
    \<and> pr_processing_id (po_record out) = e_fresh E (w_step w)
    \<and> pr_completed_result (po_record out) = Some res
    \<and> outcome_of b d \<lparr>in_alert = al, in_decision = d\<rparr> q res
    \<and> dict_get (mm_records (w_repo w')) (e_fresh E (w_step w)) = Some (po_record out)
    \<and> w_events w' = w_events w @ [Ev_claim True (e_fresh E (w_step w + 2)),
        Ev_submit (e_fresh E (w_step w + 2)) (bk_name b) (e_fresh E (w_step w + 3)) None]
        @ completion_trace (e_fresh E (w_step w + 2)) (bk_name b) x"
proof -
  from assms(6) obtain able known where b: "mem_runs.serves b able known" "able q"
    by (auto simp: investigates_def runnable_def mem_serves)
  from mem_runs.investigation_completes [OF assms(1-3) _ refl assms(5) investigates_assigned [OF assms(6)] mem_storable b]
  show ?thesis using assms(4) by (simp add: mem_new_alert) blast
qed

section \<open>Replay, conflict and the failure of acceptance\<close>

text \<open>A key that is bound to a record.\<close>

definition bound_to :: "mem \<Rightarrow> canonical_alert \<Rightarrow> ustring \<Rightarrow> processing_record \<Rightarrow> bool" where
  "bound_to s al key r \<longleftrightarrow> key_visible_ascii key
     \<and> dict_get (mm_idempotency s) (sp_source (al_source al), key) = Some (pr_processing_id r)
     \<and> dict_get (mm_records s) (pr_processing_id r) = Some r"

lemma accept_bound:
  "bound_to s al key r \<Longrightarrow>
   mem_accept_processing p al (sp_source (al_source al)) key v dg now s = (Inr \<lparr>pa_record = r, pa_created = False\<rparr>, s)"
  by (simp add: bound_to_def mem_accept_processing_def)

lemma process_replays:
  assumes "quiet E" "bound_to (w_repo w) al key r" "fingerprint_canonical_alert al = Inr (v, dg)"
    and "pr_fingerprint_version r = Some v" "pr_request_fingerprint r = Some dg"
  shows "\<exists>w'. process memory_repository E al key w = (Inr \<lparr>po_record = r, po_replayed = True\<rparr>, w')
    \<and> w_repo w' = w_repo w \<and> w_events w' = w_events w"
proof -
  have "\<exists>w1. process_inner memory_repository E al key w = (Inr \<lparr>po_record = r, po_replayed = True\<rparr>, w1)
      \<and> w_repo w1 = w_repo w \<and> w_events w1 = w_events w"
    using assms
    by (simp add: process_inner_def bind_run [where m = "lift _"] try_run quiet_call accept_bound Let_def)
  then show ?thesis using process_Inr by metis
qed

lemma process_refuses_conflict:
  assumes "quiet E" "bound_to (w_repo w) al key r" "fingerprint_canonical_alert al = Inr (v, dg)"
    and "pr_fingerprint_version r \<noteq> Some v \<or> pr_request_fingerprint r \<noteq> Some dg"
  shows "\<exists>w'. process memory_repository E al key w = (Inl (IdempotencyConflictError (pr_processing_id r)), w')
    \<and> w_repo w' = w_repo w \<and> w_events w' = w_events w"
proof -
  have "\<exists>w1. process_inner memory_repository E al key w = (Inl (IdempotencyConflictError (pr_processing_id r)), w1)
      \<and> w_repo w1 = w_repo w \<and> w_events w1 = w_events w"
    using assms
    by (simp add: process_inner_def bind_run [where m = "lift _"] try_run quiet_call accept_bound Let_def)
  then show ?thesis using process_Inl by metis
qed

text \<open>What others do is not on the trace of this processor's claims and submissions.\<close>

lemma claims_of_foreign: "own_claimed (claims_of R c now s) = [] \<and> submitted (claims_of R c now s) = []"
  by (cases "(R, c, now, s)" rule: claims_of.cases) (auto split: sum.splits option.splits)

lemma run_others_foreign:
  "own_claimed (w_events (run_others R cs w)) = own_claimed (w_events w)
   \<and> submitted (w_events (run_others R cs w)) = submitted (w_events w)"
  by (induction R cs w rule: run_others.induct) (simp_all add: claims_of_foreign)

lemma repo_call_foreign:
  "own_claimed (w_events (snd (repo_call R E c w))) = own_claimed (w_events w)
   \<and> submitted (w_events (snd (repo_call R E c w))) = submitted (w_events w)"
  using run_others_foreign [of R "e_others E (w_step w)" w]
  by (simp add: repo_call_def Let_def split: fault.splits prod.splits)

lemma no_execution_without_acceptance:
  assumes "fingerprint_canonical_alert al = Inr x" "e_fault E (Suc (w_step w)) \<noteq> F_none"
  shows "\<exists>w'. process R E al key w = (Inl PersistenceUnavailableError, w')
    \<and> own_claimed (w_events w') = own_claimed (w_events w) \<and> submitted (w_events w') = submitted (w_events w)"
proof -
  obtain v dg where x: "x = (v, dg)" by (cases x)
  let ?c = "rp_accept_processing R (e_fresh E (w_step w)) al (sp_source (al_source al)) key v dg"
  let ?w = "w\<lparr>w_step := Suc (w_step w)\<rparr>"
  obtain e w1 where w1: "repo_call R E ?c ?w = (Inl e, w1)"
    using assms(2) by (cases "e_fault E (Suc (w_step w))") (simp_all add: repo_call_def Let_def)
  have "\<exists>w'. process_inner R E al key w = (Inl PersistenceUnavailableError, w') \<and> w_events w' = w_events w1"
    using assms(1) x w1 by (simp add: process_inner_def bind_run [where m = "lift _"] try_run)
  with process_Inl obtain w' where
    "process R E al key w = (Inl PersistenceUnavailableError, w')" "w_events w' = w_events w1" by metis
  with repo_call_foreign [of R E ?c ?w] w1 show ?thesis by simp
qed

section \<open>Reconciliation\<close>

definition report_le :: "reconciliation_report \<Rightarrow> nat \<Rightarrow> bool" where
  "report_le rep n \<longleftrightarrow> rr_examined rep \<le> n \<and> rr_advanced rep + rr_failed rep \<le> rr_examined rep"

lemma finally_run:
  "finally_do m f w = (Inr x, w') \<Longrightarrow> \<exists>w1. m w = (Inr x, w1) \<and> w' = f w1"
  by (auto simp: finally_do_def split: prod.splits)

lemma reconcile_step_report:
  assumes "reconcile_step R E deadline r rep w = (Inr rep', w')" "report_le rep n"
  shows "report_le rep' (Suc n)"
  using assms
  by (auto simp: reconcile_step_def Let_def bind_run asks_def try_run report_le_def
      split: prod.splits sum.splits dest!: finally_run)

lemma reconcile_loop_report:
  "reconcile_loop R E deadline rs rep w = (Inr rep', w') \<Longrightarrow> report_le rep n \<Longrightarrow> report_le rep' (n + length rs)"
proof (induction rs arbitrary: rep w n)
  case (Cons r rs)
  show ?case
  proof (cases "\<exists>rep1 w1. reconcile_step R E deadline r rep (w\<lparr>w_step := Suc (w_step w)\<rparr>) = (Inr rep1, w1)")
    case True
    then obtain rep1 w1 where s: "reconcile_step R E deadline r rep (w\<lparr>w_step := Suc (w_step w)\<rparr>) = (Inr rep1, w1)"
      by blast
    have le: "report_le rep1 (Suc n)" using reconcile_step_report [OF s Cons.prems(2)] .
    have "report_le rep1 (Suc (n + length rs))" "report_le rep (Suc (n + length rs))"
      using le Cons.prems(2) by (simp_all add: report_le_def)
    with Cons.prems(1) Cons.IH [OF _ le] s show ?thesis
      by (auto simp: remaining_seconds_def bind_run report_le_def split: if_splits)
  next
    case False
    then obtain e w1 where "reconcile_step R E deadline r rep (w\<lparr>w_step := Suc (w_step w)\<rparr>) = (Inl e, w1)"
      by (metis old.sum.exhaust surj_pair)
    with Cons.prems show ?thesis
      by (auto simp: remaining_seconds_def bind_run report_le_def split: if_splits)
  qed
qed simp

lemma run_others_ok: "mem_ok (w_repo w) \<Longrightarrow> mem_ok (w_repo (run_others memory_repository cs w))"
  by (induction memory_repository cs w rule: run_others.induct) (auto simp: memory.ok_exec)

text \<open>A pass of reconciliation examines at most its limit of records, and every examined record
  counts at most once as advanced or failed.\<close>

theorem reconcile_report_bounded:
  assumes "mem_ok (w_repo w)" "reconcile_once memory_repository E limit max_seconds stale w = (Inr rep, w')"
  shows "int (rr_examined rep) \<le> limit \<and> rr_advanced rep + rr_failed rep \<le> rr_examined rep"
proof -
  let ?w = "w\<lparr>w_step := Suc (Suc (w_step w))\<rparr>"
  from assms(2) obtain before rs w1 where f: "repo_call memory_repository E (mem_find_reconcilable limit before) ?w = (Inr rs, w1)"
    and l: "reconcile_loop memory_repository E (e_monotonic E (w_step w) + max_seconds) rs
      \<lparr>rr_examined = 0, rr_advanced = 0, rr_failed = 0, rr_time_limit_reached = False\<rparr> w1 = (Inr rep, w')"
    by (auto simp: reconcile_once_def bind_run split: if_splits sum.splits prod.splits)
  define w0 where "w0 = run_others memory_repository (e_others E (w_step ?w)) ?w"
  have "mem_ok (w_repo w0)" unfolding w0_def by (rule run_others_ok) (simp add: assms(1))
  moreover have "\<exists>s' now. mem_find_reconcilable limit before now (w_repo w0) = (Inr rs, s')"
    using f by (auto simp: repo_call_def w0_def Let_def split: fault.splits prod.splits)
  ultimately have n: "int (length rs) \<le> limit" using found_mem by blast
  have "report_le rep (0 + length rs)" by (rule reconcile_loop_report [OF l]) (simp add: report_le_def)
  with n show ?thesis by (simp add: report_le_def)
qed

theorem reconcile_report_bounded_witness:
  "\<exists>rep w'. reconcile_once memory_repository sample_env 25 10 1 (start_world mem_empty) = (Inr rep, w')
     \<and> int (rr_examined rep) \<le> 25"
proof -
  have "\<exists>rep w'. reconcile_once memory_repository sample_env 25 10 1 (start_world mem_empty) = (Inr rep, w')"
  proof -
    obtain before where "dt_minus (e_wall_clock sample_env (Suc 0)) 1 = Inr before"
      by (simp add: dt_minus_def sample_env_def sample_time_def us_per_day_def max_us_def)
    then show ?thesis
      by (simp add: reconcile_once_def bind_run quiet_call mem_find_reconcilable_def start_world_def mem_empty_def)
  qed
  then obtain rep w' where r: "reconcile_once memory_repository sample_env 25 10 1 (start_world mem_empty) = (Inr rep, w')"
    by blast
  have "mem_ok (w_repo (start_world mem_empty))" by (simp add: start_world_def mem_ok_empty)
  from reconcile_report_bounded [OF this r] r show ?thesis by blast
qed

text \<open>C17: A stale submission that was started and never confirmed is handed to an operator: the record
  and the attempt go to RECOVERY_REQUIRED with the category of an unknown outcome, and no
  backend is called.\<close>

theorem stale_submission_needs_recovery:
  assumes "quiet E" "holds_pair (w_repo w) t r" "at_state t = A_SUBMITTING" "pr_state r = SUBMITTING"
    and "dict_get (mm_attempt_by_processing (w_repo w)) (pr_processing_id r) = Some (at_attempt_id t)"
    and "aware (e_now E (Suc (w_step w)))" "\<not> dt_less (e_now E (Suc (w_step w))) (pr_created_at r)"
    and "at_completed_at t = None" "at_failed_at t = None"
  shows "\<exists>r' w'. reconcile_record memory_repository E deadline r w = (Inr r', w')
    \<and> pr_state r' = RECOVERY_REQUIRED \<and> pr_error_category r' = Some (S ''backend_submission_unknown'')
    \<and> dict_get (mm_records (w_repo w')) (pr_processing_id r) = Some r'
    \<and> mem_att_state (w_repo w') (at_attempt_id t) = Some A_RECOVERY_REQUIRED
    \<and> w_events w' = w_events w"
proof -
  let ?c = "S ''backend_submission_unknown''" and ?d = "S ''stale submission has no discoverable operation''"
  let ?now = "e_now E (Suc (w_step w))" and ?a = "at_attempt_id t"
  define t1 where "t1 = t\<lparr>at_state := A_RECOVERY_REQUIRED, at_error_category := Some ?c, at_error_detail := Some ?d\<rparr>"
  define r1 where "r1 = r\<lparr>pr_state := RECOVERY_REQUIRED, pr_updated_at := ?now,
                         pr_error_category := Some ?c, pr_error_detail := Some ?d\<rparr>"
  have h: "dict_get (mm_attempts (w_repo w)) ?a = Some t" "attempt_valid t"
    "dict_get (mm_records (w_repo w)) (at_processing_id t) = Some r" "record_valid r"
    "pr_processing_id r = at_processing_id t"
    using assms(2) by (simp_all add: holds_pair_def)
  have t1: "attempt_valid t1" using h(2) assms(3,8,9)
    by (simp add: attempt_valid_def attempt_state_check_def t1_def)
  have r1: "record_valid r1"
    unfolding r1_def using h(4) assms(4,6,7) by (intro record_valid_active) simp_all
  define w1 where "w1 = w\<lparr>w_metrics := w_metrics w @ [record_stale (S ''submitting'')], w_step := Suc (w_step w)\<rparr>"
  have A: "mem_mark_recovery_required ?a {A_SUBMITTING} ?c ?d ?now (w_repo w)
      = (Inr (Some r1), put_record (pr_processing_id r) r1 (put_attempt ?a t1 (w_repo w)))"
    using h t1 r1 assms(3,4) unfolding t1_def r1_def
    by (simp add: mem_mark_recovery_required_def mem_write_pair_def mk_attempt_def mk_record_def)
  show ?thesis
    using assms(3,4,5) h A
    by (simp add: reconcile_record_def Let_def bind_run quiet_call [OF assms(1)] mem_get_attempt_for_processing_def
        mark_recovery_def durable_or_reread_def or_else_def when_do_def r1_def t1_def mem_att_state_def)
qed

theorem stale_submission_needs_recovery_witness:
  "\<exists>r' w'. reconcile_record memory_repository sample_env 10 high_submitting (start_world submitting_store) = (Inr r', w')
    \<and> pr_state r' = RECOVERY_REQUIRED \<and> w_events w' = []"
proof -
  have "holds_pair (w_repo (start_world submitting_store)) submitting_attempt high_submitting"
    by (simp add: holds_pair_def start_world_def submitting_attempt_valid high_submitting_valid)
  from stale_submission_needs_recovery [OF sample_env_quiet(1) this, of 10] show ?thesis
    by (fastforce simp: start_world_def sample_env_def)
qed

section \<open>The default configuration\<close>

text \<open>Every alert of severity high or critical is investigated by the mock; no other one is.\<close>

lemma process_list_nonblank: "nonblank process_list"
  by (simp add: process_list_def S_def is_space_def)

lemma default_request:
  "make_process_inventory_request i = Inr \<lparr>ir_incident = i, ir_desired_outcome = S ''collect process inventory'',
     ir_required_capabilities = [process_list], ir_targets = al_entities (in_alert i)\<rparr>"
proof -
  have "nonblank (S ''collect process inventory'')" by (simp add: S_def is_space_def)
  then show ?thesis
    by (simp add: make_process_inventory_request_def mk_investigation_request_Inr request_ok_def process_list_nonblank)
qed

lemma default_mock_facts [simp]: "bk_name default_mock_backend = mock_name" "bk_capabilities default_mock_backend = {process_list}"
  by (simp_all add: default_mock_backend_def)

lemma mock_able:
  "supports default_mock_backend q \<Longrightarrow> \<exists>able known. reliable_backend default_mock_backend able known \<and> able q"
  using default_mock.reliable_backend_axioms by blast

lemma default_investigates:
  assumes "e_orchestrator E = default_orchestrator" "baseline_outcome (al_severity al) = INVESTIGATE"
  obtains d q where "investigates E al d q default_mock_backend" "ir_targets q = al_entities al"
proof -
  obtain d where d: "baseline_decide al = Inr d" "de_outcome d = INVESTIGATE" "de_source d = al_source al"
    using baseline_decide_Inr [of al] assms(2) by auto
  let ?i = "\<lparr>in_alert = al, in_decision = d\<rparr>"
  define q where "q = \<lparr>ir_incident = ?i, ir_desired_outcome = S ''collect process inventory'',
     ir_required_capabilities = [process_list], ir_targets = al_entities al\<rparr>"
  have "nonblank (S ''collect process inventory'')" by (simp add: S_def is_space_def)
  then have ok: "request_ok q" by (simp add: request_ok_def q_def process_list_nonblank)
  have sup: "supports default_mock_backend q" by (simp add: supports_def q_def)
  have "runnable E default_mock_backend d ?i q"
    using assms(1) ok sup d(2) mock_able [OF sup]
    by (simp add: runnable_def routed_def backend_for_name_def default_orchestrator_def router_get_Some q_def)
  moreover have "router_select (oc_router default_orchestrator) q = Inr default_mock_backend"
    using sup by (simp add: router_select_Inr default_orchestrator_def)
  moreover have "oc_request_factory default_orchestrator ?i = Inr q"
    by (simp add: default_orchestrator_def default_request q_def)
  moreover have "oc_policy default_orchestrator al = Inr d" using d by (simp add: default_orchestrator_def)
  ultimately have "investigates E al d q default_mock_backend"
    using assms(1) d(3) by (simp add: investigates_def)
  then show ?thesis using that by (simp add: q_def)
qed

lemma default_ignores:
  assumes "e_orchestrator E = default_orchestrator" "baseline_outcome (al_severity al) = NO_ACTION"
  obtains d where "oc_policy (e_orchestrator E) al = Inr d" "de_source d = al_source al" "de_outcome d = NO_ACTION"
  using baseline_decide_Inr [of al] assms that by (auto simp: default_orchestrator_def)

section \<open>Properties\<close>

text \<open>C10: Without interference and faults, an alert that is new to the store and that the policy
  wants investigated by a backend that answers is executed to the end in the one call: the
  record is completed under the fresh identifier with the backend's result, and the backend saw
  one submission with the durable operation key, one poll and one collection, in this order.\<close>

theorem process_completes_investigation:
  assumes "quiet E" "clock_from E (Suc (w_step w))" "mem_ok (w_repo w)" "fresh_for E w al key"
    and "fingerprint_canonical_alert al = Inr (v, dg)" "investigates E al d q b"
  shows "\<exists>out w' res x. process memory_repository E al key w = (Inr out, w')
    \<and> \<not> po_replayed out \<and> pr_state (po_record out) = COMPLETED
    \<and> pr_processing_id (po_record out) = e_fresh E (w_step w)
    \<and> pr_completed_result (po_record out) = Some res
    \<and> outcome_of b d \<lparr>in_alert = al, in_decision = d\<rparr> q res
    \<and> dict_get (mm_records (w_repo w')) (e_fresh E (w_step w)) = Some (po_record out)
    \<and> w_events w' = w_events w @ [Ev_claim True (e_fresh E (w_step w + 2)),
        Ev_submit (e_fresh E (w_step w + 2)) (bk_name b) (e_fresh E (w_step w + 3)) None]
        @ completion_trace (e_fresh E (w_step w + 2)) (bk_name b) x"
  using assms by (rule memory_investigation_completes)

theorem process_completes_investigation_witness:
  "\<exists>out w' x. process memory_repository sample_env high_alert sample_key (start_world mem_empty) = (Inr out, w')
    \<and> pr_state (po_record out) = COMPLETED
    \<and> w_events w' = [Ev_claim True 2, Ev_submit 2 mock_name 3 None, Ev_poll 2 mock_name x None, Ev_collect 2 mock_name x]"
proof -
  obtain dg where fp: "fingerprint_canonical_alert high_alert = Inr (fingerprint_version, dg)"
    using sample_fingerprints(1) by blast
  obtain d q where i: "investigates sample_env high_alert d q default_mock_backend"
    by (rule default_investigates [of sample_env high_alert]) (simp_all add: sample_defs)
  have "mem_ok (w_repo (start_world mem_empty))" by (simp add: start_world_def mem_ok_empty)
  from process_completes_investigation [OF sample_env_quiet(1) sample_env_clock this sample_fresh fp i]
  show ?thesis by (fastforce simp: sample_env_def start_world_def completion_trace_def)
qed

text \<open>An alert on which the policy takes no action completes without an attempt and without any
  backend call, and its durable result says so.\<close>

theorem process_completes_no_action:
  assumes "quiet E" "clock_from E (Suc (w_step w))" "mem_ok (w_repo w)" "fresh_for E w al key"
    and "fingerprint_canonical_alert al = Inr (v, dg)"
    and "oc_policy (e_orchestrator E) al = Inr d" "de_source d = al_source al" "de_outcome d = NO_ACTION"
  shows "\<exists>out w'. process memory_repository E al key w = (Inr out, w')
    \<and> \<not> po_replayed out \<and> pr_state (po_record out) = COMPLETED
    \<and> pr_processing_id (po_record out) = e_fresh E (w_step w)
    \<and> pr_completed_result (po_record out) = Some \<lparr>or_decision = d, or_incident = None,
         or_investigation_request = None, or_investigation_result = None\<rparr>
    \<and> dict_get (mm_records (w_repo w')) (e_fresh E (w_step w)) = Some (po_record out)
    \<and> (\<forall>a. dict_get (mm_attempts (w_repo w')) a = dict_get (mm_attempts (w_repo w)) a) \<and> w_events w' = w_events w"
proof -
  have "mem_runs.new_alert E w al key" using assms(4) by (simp add: mem_new_alert)
  from mem_runs.no_action_completes [OF assms(1-3) this refl assms(5-8)]
  obtain out w' where o: "process memory_repository E al key w = (Inr out, w')" "\<not> po_replayed out"
    "pr_state (po_record out) = COMPLETED" "pr_processing_id (po_record out) = e_fresh E (w_step w)"
    "pr_completed_result (po_record out) = Some (no_action_result d)"
    "dict_get (mm_records (w_repo w')) (e_fresh E (w_step w)) = Some (po_record out)"
    "mem_attempt (w_repo w') = mem_attempt (w_repo w)" "w_events w' = w_events w" by auto
  then show ?thesis by (intro exI [of _ out] exI [of _ w']) (simp add: no_action_result_def fun_eq_iff)
qed

theorem process_completes_no_action_witness:
  "\<exists>out w'. process memory_repository sample_env low_alert sample_key (start_world mem_empty) = (Inr out, w')
    \<and> pr_state (po_record out) = COMPLETED \<and> w_events w' = []"
proof -
  obtain dg where fp: "fingerprint_canonical_alert low_alert = Inr (fingerprint_version, dg)"
    using sample_fingerprints(2) by blast
  obtain d where d: "oc_policy (e_orchestrator sample_env) low_alert = Inr d" "de_source d = al_source low_alert"
    "de_outcome d = NO_ACTION"
    by (rule default_ignores [of sample_env low_alert]) (simp_all add: sample_defs)
  have "mem_ok (w_repo (start_world mem_empty))" by (simp add: start_world_def mem_ok_empty)
  from process_completes_no_action [OF sample_env_quiet(1) sample_env_clock this sample_fresh fp d]
  show ?thesis by (auto simp: start_world_def)
qed

end
