(* ===== verification/ApiProps.thy ===== *)
theory ApiProps
  imports Api ProcessorOutcomes
begin

text \<open>
  What an HTTP caller may rely on: which keys are taken, and that conflicts, replays and a store
  that is down do not execute anything.
\<close>

section \<open>Runs of endpoints\<close>

lemma in_world_run [simp]: "in_world m ex = (case m (ex_world ex) of (r, w) \<Rightarrow> (r, ex\<lparr>ex_world := w\<rparr>))"
  by (simp add: in_world_def)

lemma then_run: "then_do m k w = (case m w of (Inl e, w') \<Rightarrow> (Inl e, w') | (Inr u, w') \<Rightarrow> k w')"
  by (simp add: then_do_def bind_def)

lemma modify_run [simp]: "modify f w = (Inr (), f w)"
  by (simp add: modify_def)

lemma emit_run [simp]: "emit m w = (Inr (), w\<lparr>w_metrics := w_metrics w @ [m]\<rparr>)"
  by (simp add: emit_def)

lemma context_run [simp]: "context_do f w = (Inr (), w\<lparr>w_context := f (w_context w)\<rparr>)"
  by (simp add: context_do_def)

lemma correlation_keeps:
  obtains ex' where "set_request_correlation p c ex = (Inr (), ex')"
    "w_repo (ex_world ex') = w_repo (ex_world ex)" "w_events (ex_world ex') = w_events (ex_world ex)"
    "ex_processing_id ex' = (case p of None \<Rightarrow> ex_processing_id ex | Some u \<Rightarrow> Some (uuid_str u))"
    "ex_error_category ex' = (case c of None \<Rightarrow> ex_error_category ex | Some x \<Rightarrow> Some (bounded_error_category x))"
  by (cases p; cases c) (simp_all add: set_request_correlation_def then_run set_error_category_def)

section \<open>A request and exchanges to exercise the properties on\<close>

definition high_body :: canonical_alert_request where
  "high_body = projr (alert_from_domain high_alert)"

definition start_exchange :: "'s \<Rightarrow> 's exchange" where
  "start_exchange s = \<lparr>ex_world = start_world s, ex_processing_id = None, ex_error_category = None\<rparr>"

text \<open>The started submission with the fingerprint of its alert.\<close>

definition matching_record :: processing_record where
  "matching_record = high_submitting\<lparr>pr_request_fingerprint := Some (snd (projr (fingerprint_canonical_alert high_alert)))\<rparr>"

definition matching_store :: mem where
  "matching_store = submitting_store\<lparr>mm_records := [(0, matching_record)]\<rparr>"

lemma start_exchange_simps [simp]:
  "ex_world (start_exchange s) = start_world s" "w_repo (start_world s) = s" "w_step (start_world s) = 0"
  "w_events (start_world s) = []"
  by (simp_all add: start_exchange_def start_world_def)

lemma high_body_to_domain: "alert_to_domain high_body = Inr high_alert"
proof -
  obtain q where "alert_from_domain high_alert = Inr q" using alert_from_domain_total [OF sample_alerts_ok(1)] by blast
  with alert_from_domain_round [OF this] show ?thesis by (simp add: high_body_def)
qed

lemma high_source [simp]: "sp_source (al_source high_alert) = S ''splunk''"
  by (simp add: sample_defs)

lemma matching_bound: "bound_to matching_store high_alert sample_key matching_record"
  by (simp add: bound_to_def key_sample matching_store_def matching_record_def submitting_store_def dict_get_def)

lemma submitting_bound: "bound_to submitting_store high_alert sample_key high_submitting"
  by (simp add: bound_to_def key_sample)

lemma matching_parts: "record_parts_ok matching_record"
proof -
  have "pr_decision matching_record = Some high_decision" "pr_incident matching_record = Some high_incident"
    "pr_investigation_request matching_record = Some high_request" "pr_completed_result matching_record = None"
    by (simp_all add: matching_record_def high_submitting_def high_accepted_def accepted_record_def pr_decision_def
        pr_incident_def pr_investigation_request_def)
  then show ?thesis
    using sample_alerts_ok(1)
    by (simp add: record_parts_ok_def high_incident_def high_request_def high_decision_facts alert_ok_def)
qed

section \<open>Keys\<close>

lemma idempotency_key_Inr: "idempotency_key values = Inr key \<longleftrightarrow> values = [key] \<and> key_visible_ascii key"
  by (auto simp: idempotency_key_def key_visible_ascii_def visible_ascii_def list_ex_iff list_all_iff not_le Suc_le_eq
      split: list.splits if_splits)

lemma idempotency_key_Inl: "idempotency_key values = Inl resp \<Longrightarrow> hr_status resp = 400"
  by (auto simp: idempotency_key_def error_response_def split: list.splits if_splits)

text \<open>A request without exactly one key of 1 to 128 visible ASCII characters - the very keys that
  the repository accepts - gets 400 before the processor is called: nothing is read, stored or
  executed, and the category of the error is left for the log.\<close>

theorem bad_key_refused:
  assumes "\<not> (\<exists>key. values = [key] \<and> key_visible_ascii key)"
  shows "\<exists>resp ex'. process_alert R E q values ex = (Inr resp, ex') \<and> hr_status resp = 400
    \<and> w_repo (ex_world ex') = w_repo (ex_world ex) \<and> w_events (ex_world ex') = w_events (ex_world ex)
    \<and> w_step (ex_world ex') = w_step (ex_world ex)
    \<and> ex_error_category ex' = Some (if values = [] then S ''idempotency_key_required'' else S ''invalid_idempotency_key'')"
proof -
  obtain resp where r: "idempotency_key values = Inl resp"
    using assms idempotency_key_Inr by (metis old.sum.exhaust)
  have k: "bounded_error_category (S ''idempotency_key_required'') = S ''idempotency_key_required''"
    "bounded_error_category (S ''invalid_idempotency_key'') = S ''invalid_idempotency_key''"
    by (simp_all add: bounded_error_category_def known_or_def known_error_categories_def)
  show ?thesis
    using idempotency_key_Inl [OF r] k
    by (auto simp: process_alert_def r then_run set_request_correlation_def set_error_category_def)
qed

theorem bad_key_refused_witness:
  "\<exists>resp ex'. process_alert memory_repository sample_env high_body [sample_key, sample_key] (start_exchange mem_empty)
      = (Inr resp, ex') \<and> hr_status resp = 400"
proof -
  have "\<not> (\<exists>key. [sample_key, sample_key] = [key] \<and> key_visible_ascii key)" by simp
  from bad_key_refused [OF this] show ?thesis by blast
qed

section \<open>Statuses\<close>

text \<open>The status says what is durable: 200 a completed processing, 202 one that is still under
  way or waits for recovery, 409 or 500 a failed one.\<close>

definition durable_status :: "processing_record \<Rightarrow> nat" where
  "durable_status r =
     (case pr_state r of COMPLETED \<Rightarrow> 200
      | FAILED \<Rightarrow> (if pr_error_category r = Some (S ''unsupported_capability'') then 409 else 500)
      | _ \<Rightarrow> 202)"

lemma public_response_status:
  assumes "public_processing_response r replayed = Inr resp"
  shows "hr_status resp = durable_status r
    \<and> dict_get (hr_headers resp) (S ''Location'') = Some (status_url (pr_processing_id r))
    \<and> (dict_get (hr_headers resp) (S ''Idempotency-Replayed'') = Some (S ''true'') \<longleftrightarrow> replayed)"
proof -
  obtain public where p: "from_application r = Inr public"
    using assms by (auto simp: public_processing_response_def and_then_Inr)
  then have url: "ps_status_url public = status_url (pr_processing_id r)"
    by (auto simp: from_application_def Let_def and_then_Inr)
  show ?thesis
    using assms url
    by (cases "pr_state r")
       (auto simp: public_processing_response_def p Let_def durable_status_def error_response_def
         durable_client_failure_def dict_get_def)
qed

lemma public_response_total:
  assumes "record_parts_ok r"
  shows "\<exists>resp. public_processing_response r replayed = Inr resp"
proof -
  obtain public where "from_application r = Inr public" using from_application_total [OF assms] by blast
  then show ?thesis
    by (cases "pr_state r"; cases "durable_client_failure (pr_error_category r)")
       (auto simp: public_processing_response_def Let_def)
qed

lemma process_alert_valid:
  "key_visible_ascii key \<Longrightarrow> alert_to_domain q = Inr al \<Longrightarrow>
   process_alert R E q [key] ex =
     try_except (in_world (process R E al key))
       (\<lambda>e. case e of
               IdempotencyConflictError p \<Rightarrow>
                 then_do (set_request_correlation (Some p) (Some (S ''idempotency_conflict'')))
                 (ret (error_response 409 (plain_error ''idempotency_conflict''
                    ''idempotency key is already bound to another request'') []))
             | PersistenceUnavailableError \<Rightarrow>
                 then_do (set_request_correlation None (Some (S ''persistence_failed'')))
                 (ret (error_response 503 (plain_error ''persistence_failed''
                    ''durable processing is temporarily unavailable'') []))
             | UnsupportedCapabilitiesError capabilities found \<Rightarrow>
                 routing_error 409 ''unsupported_capability''
                   ''no configured backend supports the required capability'' capabilities None found
             | AmbiguousBackendError capabilities backends found \<Rightarrow>
                 routing_error 500 ''backend_selection_error''
                   ''backend selection was ambiguous'' capabilities (Some backends) found
             | _ \<Rightarrow> raise e)
       (\<lambda>outcome.
               then_do (set_request_correlation (Some (pr_processing_id (po_record outcome)))
                 (pr_error_category (po_record outcome)))
               (lift (public_processing_response (po_record outcome) (po_replayed outcome)))) ex"
proof -
  assume k: "key_visible_ascii key" and al: "alert_to_domain q = Inr al"
  have "idempotency_key [key] = Inr key" using k by (simp add: idempotency_key_Inr)
  moreover have "bind (lift (alert_to_domain q)) (\<lambda>al. in_world (process R E al key)) = in_world (process R E al key)"
    by (rule ext) (simp add: bind_run al)
  ultimately show ?thesis by (simp add: process_alert_def)
qed

section \<open>Replay, conflict, and a store that is down\<close>

text \<open>C13: A repeated request - same source and key, same fingerprint - is answered from the durable
  record with the header that marks a replay; the store does not change and no backend is
  called, whatever state the processing is in.\<close>

theorem api_replays:
  assumes "quiet E" "key_visible_ascii key" "alert_to_domain q = Inr al"
    and "bound_to (w_repo (ex_world ex)) al key r" "fingerprint_canonical_alert al = Inr (v, dg)"
    and "pr_fingerprint_version r = Some v" "pr_request_fingerprint r = Some dg" "record_parts_ok r"
  shows "\<exists>resp ex'. process_alert memory_repository E q [key] ex = (Inr resp, ex')
    \<and> hr_status resp = durable_status r
    \<and> dict_get (hr_headers resp) (S ''Location'') = Some (status_url (pr_processing_id r))
    \<and> dict_get (hr_headers resp) (S ''Idempotency-Replayed'') = Some (S ''true'')
    \<and> w_repo (ex_world ex') = w_repo (ex_world ex) \<and> w_events (ex_world ex') = w_events (ex_world ex)"
proof -
  from process_replays [OF assms(1,4-7)] obtain w' where
    w': "process memory_repository E al key (ex_world ex) = (Inr \<lparr>po_record = r, po_replayed = True\<rparr>, w')"
    "w_repo w' = w_repo (ex_world ex)" "w_events w' = w_events (ex_world ex)" by blast
  obtain resp where resp: "public_processing_response r True = Inr resp"
    using public_response_total [OF assms(8)] by blast
  obtain ex' where "set_request_correlation (Some (pr_processing_id r)) (pr_error_category r) (ex\<lparr>ex_world := w'\<rparr>)
      = (Inr (), ex')" "w_repo (ex_world ex') = w_repo w'" "w_events (ex_world ex') = w_events w'"
    using correlation_keeps [of "Some (pr_processing_id r)" "pr_error_category r" "ex\<lparr>ex_world := w'\<rparr>"] by auto
  with w' resp public_response_status [OF resp] show ?thesis
    by (simp add: process_alert_valid [OF assms(2,3)] try_run then_run)
qed

theorem api_replays_witness:
  "\<exists>resp ex'. process_alert memory_repository sample_env high_body [sample_key] (start_exchange matching_store) = (Inr resp, ex')
    \<and> hr_status resp = 202 \<and> w_repo (ex_world ex') = matching_store"
proof -
  obtain dg where fp: "fingerprint_canonical_alert high_alert = Inr (fingerprint_version, dg)"
    using sample_fingerprints(1) by blast
  have r: "pr_fingerprint_version matching_record = Some fingerprint_version" "pr_request_fingerprint matching_record = Some dg"
    by (simp_all add: matching_record_def fp fingerprint_version_def)
  have b: "bound_to (w_repo (ex_world (start_exchange matching_store))) high_alert sample_key matching_record"
    by (simp add: matching_bound)
  have "durable_status matching_record = 202" by (simp add: durable_status_def matching_record_def)
  with api_replays [OF sample_env_quiet(1) key_sample high_body_to_domain b fp r matching_parts] show ?thesis
    by (simp; blast)
qed

text \<open>C14: A key that is bound to another request - one with a different fingerprint - gets 409, and
  neither the store nor any backend sees anything of it.\<close>

theorem api_refuses_conflict:
  assumes "quiet E" "key_visible_ascii key" "alert_to_domain q = Inr al"
    and "bound_to (w_repo (ex_world ex)) al key r" "fingerprint_canonical_alert al = Inr (v, dg)"
    and "pr_fingerprint_version r \<noteq> Some v \<or> pr_request_fingerprint r \<noteq> Some dg"
  shows "\<exists>resp ex'. process_alert memory_repository E q [key] ex = (Inr resp, ex') \<and> hr_status resp = 409
    \<and> w_repo (ex_world ex') = w_repo (ex_world ex) \<and> w_events (ex_world ex') = w_events (ex_world ex)"
proof -
  from process_refuses_conflict [OF assms(1,4-6)] obtain w' where
    w': "process memory_repository E al key (ex_world ex) = (Inl (IdempotencyConflictError (pr_processing_id r)), w')"
    "w_repo w' = w_repo (ex_world ex)" "w_events w' = w_events (ex_world ex)" by blast
  obtain ex' where "set_request_correlation (Some (pr_processing_id r)) (Some (S ''idempotency_conflict'')) (ex\<lparr>ex_world := w'\<rparr>)
      = (Inr (), ex')" "w_repo (ex_world ex') = w_repo w'" "w_events (ex_world ex') = w_events w'"
    using correlation_keeps [of "Some (pr_processing_id r)" _ "ex\<lparr>ex_world := w'\<rparr>"] by auto
  with w' show ?thesis
    by (simp add: process_alert_valid [OF assms(2,3)] try_run then_run error_response_def)
qed

theorem api_refuses_conflict_witness:
  "\<exists>resp ex'. process_alert memory_repository sample_env high_body [sample_key]
      (start_exchange (submitting_store\<lparr>mm_records := [(0, high_submitting\<lparr>pr_fingerprint_version := Some 2\<rparr>)]\<rparr>)) = (Inr resp, ex')
    \<and> hr_status resp = 409"
proof -
  let ?r = "high_submitting\<lparr>pr_fingerprint_version := Some 2\<rparr>"
  let ?s = "submitting_store\<lparr>mm_records := [(0, ?r)]\<rparr>"
  obtain dg where fp: "fingerprint_canonical_alert high_alert = Inr (fingerprint_version, dg)"
    using sample_fingerprints(1) by blast
  have b: "bound_to (w_repo (ex_world (start_exchange ?s))) high_alert sample_key ?r"
    by (simp add: bound_to_def key_sample submitting_store_def dict_get_def)
  have "pr_fingerprint_version ?r \<noteq> Some fingerprint_version \<or> pr_request_fingerprint ?r \<noteq> Some dg"
    by (simp add: fingerprint_version_def)
  from api_refuses_conflict [OF sample_env_quiet(1) key_sample high_body_to_domain b fp this] show ?thesis by blast
qed

text \<open>C15: When the durable acceptance of an alert fails, before or after it took effect, the caller
  gets 503 and this processor has claimed and submitted nothing, whatever the others do.\<close>

theorem api_unavailable_executes_nothing:
  assumes "key_visible_ascii key" "alert_to_domain q = Inr al" "fingerprint_canonical_alert al = Inr x"
    and "e_fault E (Suc (w_step (ex_world ex))) \<noteq> F_none"
  shows "\<exists>resp ex'. process_alert R E q [key] ex = (Inr resp, ex') \<and> hr_status resp = 503
    \<and> own_claimed (w_events (ex_world ex')) = own_claimed (w_events (ex_world ex))
    \<and> submitted (w_events (ex_world ex')) = submitted (w_events (ex_world ex))"
proof -
  from no_execution_without_acceptance [OF assms(3,4)] obtain w' where
    w': "process R E al key (ex_world ex) = (Inl PersistenceUnavailableError, w')"
    "own_claimed (w_events w') = own_claimed (w_events (ex_world ex))"
    "submitted (w_events w') = submitted (w_events (ex_world ex))" by blast
  obtain ex' where "set_request_correlation None (Some (S ''persistence_failed'')) (ex\<lparr>ex_world := w'\<rparr>)
      = (Inr (), ex')" "w_events (ex_world ex') = w_events w'"
    using correlation_keeps [of None _ "ex\<lparr>ex_world := w'\<rparr>"] by auto
  with w' show ?thesis
    by (simp add: process_alert_valid [OF assms(1,2)] try_run then_run error_response_def)
qed

theorem api_unavailable_executes_nothing_witness:
  "\<exists>resp ex'. process_alert memory_repository rough_env high_body [sample_key] (start_exchange submitting_store) = (Inr resp, ex')
    \<and> hr_status resp = 503 \<and> submitted (w_events (ex_world ex')) = []"
proof -
  obtain x where fp: "fingerprint_canonical_alert high_alert = Inr x" using sample_fingerprints(1) by blast
  have "e_fault rough_env (Suc (w_step (ex_world (start_exchange submitting_store)))) \<noteq> F_none"
    by (simp add: rough_env_def)
  from api_unavailable_executes_nothing [OF key_sample high_body_to_domain fp this] show ?thesis by (simp; blast)
qed

section \<open>The middleware\<close>

text \<open>C36: The middleware answers every request with the identifier it gave it, turns an exception of
  the endpoint into a 500, logs exactly the posts to \<open>/v1/alerts\<close> with fields that the event
  logger accepts, and the log of a server error always carries a known category.\<close>

theorem middleware_answers:
  assumes "correlate_request rid meth path duration (result, ex) = (resp, event)"
    and "ex_error_category ex = None \<or> (\<exists>c. ex_error_category ex = Some (bounded_error_category c))"
  shows "dict_get (hr_headers resp) (S ''X-Request-ID'') = Some (uuid_str rid)
    \<and> hr_status resp = (case result of Inl e \<Rightarrow> 500 | Inr r \<Rightarrow> hr_status r)
    \<and> (event = None \<longleftrightarrow> meth \<noteq> S ''POST'' \<or> path \<noteq> S ''/v1/alerts'')
    \<and> (\<forall>given. event = Some given \<longrightarrow>
         (\<exists>payload. emit_payload (S ''request.finished'') level given ctx stamp ids = Inr payload)
         \<and> (500 \<le> hr_status resp \<longrightarrow> (\<exists>c \<in> set known_error_categories. (S ''error_category'', JStr c) \<in> set given)))"
proof -
  have known: "bounded_error_category c \<in> set known_error_categories" for c
    by (simp add: bounded_error_category_def known_or_def known_error_categories_def)
  have internal: "S ''internal_error'' \<in> set known_error_categories" by (simp add: known_error_categories_def)
  have fields: "\<exists>payload. emit_payload (S ''request.finished'') level (finished_fields st c p d) ctx stamp ids = Inr payload"
    for st c p d
    by (simp add: emit_payload_def finished_fields_def event_fields_def Let_def)
  have cat: "\<exists>c' \<in> set known_error_categories. (S ''error_category'', JStr c') \<in> set (finished_fields st (finished_category st c) p d)"
    if "500 \<le> st" "c = None \<or> (\<exists>x. c = Some (bounded_error_category x))" for st c p d
    using that known internal by (auto simp: finished_fields_def finished_category_def)
  define inner where "inner = (case result of Inl e \<Rightarrow> detail_response | Inr r \<Rightarrow> r)"
  define own where "own = (case result of Inl e \<Rightarrow> set_error_category (Some (S ''internal_error'')) (request_context (uuid_str rid))
                 | Inr _ \<Rightarrow> request_context (uuid_str rid))"
  define c where "c = (case ex_error_category ex of Some c \<Rightarrow> Some c | None \<Rightarrow> cv_error_category own)"
  obtain pid where r: "resp = inner\<lparr>hr_headers := dict_set (S ''X-Request-ID'') (uuid_str rid) (hr_headers inner)\<rparr>"
    "event = (if meth = S ''POST'' \<and> path = S ''/v1/alerts''
            then Some (finished_fields (hr_status inner) (finished_category (hr_status inner) c) pid duration) else None)"
    using assms(1) unfolding correlate_request_def Let_def prod.case inner_def own_def c_def prod.inject by blast
  have "c = None \<or> (\<exists>x. c = Some (bounded_error_category x))"
    using assms(2) by (cases result) (auto simp: c_def own_def request_context_def set_error_category_def split: option.splits)
  from cat [OF _ this] have e: "500 \<le> hr_status inner \<Longrightarrow> \<exists>c' \<in> set known_error_categories. (S ''error_category'', JStr c')
      \<in> set (finished_fields (hr_status inner) (finished_category (hr_status inner) c) pid duration)" .
  have st: "hr_status inner = (case result of Inl e \<Rightarrow> 500 | Inr r \<Rightarrow> hr_status r)"
    by (simp add: inner_def detail_response_def split: sum.splits)
  have "event = None \<longleftrightarrow> meth \<noteq> S ''POST'' \<or> path \<noteq> S ''/v1/alerts''" unfolding r(2) by simp
  moreover have "\<forall>given. event = Some given \<longrightarrow>
         (\<exists>payload. emit_payload (S ''request.finished'') level given ctx stamp ids = Inr payload)
         \<and> (500 \<le> hr_status resp \<longrightarrow> (\<exists>c \<in> set known_error_categories. (S ''error_category'', JStr c) \<in> set given))"
    using fields e unfolding r by (simp split: if_splits)
  ultimately show ?thesis using st by (simp add: r(1))
qed

theorem middleware_answers_witness:
  "dict_get (hr_headers (fst (correlate_request 7 (S ''POST'') (S ''/v1/alerts'') (JInt 3)
     (Inl OtherError, start_exchange mem_empty)))) (S ''X-Request-ID'') = Some (uuid_str 7)"
proof -
  obtain resp event where r: "correlate_request 7 (S ''POST'') (S ''/v1/alerts'') (JInt 3) (Inl OtherError, start_exchange mem_empty)
      = (resp, event)" by fastforce
  have "ex_error_category (start_exchange mem_empty) = None \<or>
      (\<exists>c. ex_error_category (start_exchange mem_empty) = Some (bounded_error_category c))"
    by (simp add: start_exchange_def)
  from middleware_answers [OF r this] show ?thesis by (simp add: r)
qed

section \<open>The default deployment, end to end\<close>

lemma mock_evidence_valid:
  assumes "bk_collect default_mock_backend u q x = Inr v"
  shows "result_parts_ok v"
proof -
  have *: "traverse (\<lambda>c. mk_evidence_reference (S ''mock:'' @ c) (Some (S ''mock-result''))) cs = Inr es \<Longrightarrow>
      list_all evidence_ok es" for cs es
    by (induction cs arbitrary: es) (auto simp: and_then_Inr mk_evidence_reference_Inr)
  with assms show ?thesis
    by (auto simp: default_mock_backend_def mock_collect_result_def mk_investigation_result_def and_then_Inr
        result_parts_ok_def)
qed

lemma outcome_parts_ok:
  assumes "outcome_of default_mock_backend d \<lparr>in_alert = al, in_decision = d\<rparr> q res" "alert_ok al"
    and "de_source d = al_source al" "ir_targets q = al_entities al" "pr_completed_result r = Some res"
  shows "record_parts_ok r"
  using assms mock_evidence_valid
  by (auto simp: outcome_of_def record_parts_ok_def pr_decision_def pr_incident_def pr_investigation_request_def alert_ok_def)

end
