(* ===== verification/ComponentProps.thy ===== *)
theory ComponentProps
  imports ApiProps
begin

text \<open>Properties of single components: routing, planning, the in-memory store, telemetry and the
  schemas of the HTTP boundary.\<close>

section \<open>Routing and planning\<close>

text \<open>C34: The router selects a backend exactly when it is the only configured one that supports all
  required capabilities; otherwise it raises one of its two errors, which say how many do.\<close>

theorem router_selects_the_only_supporter:
  "case router_select bs q of
     Inr b \<Rightarrow> (\<exists>i < length bs. bs ! i = b \<and> supports b q \<and> (\<forall>j < length bs. j \<noteq> i \<longrightarrow> \<not> supports (bs ! j) q))
   | Inl e \<Rightarrow> (e = UnsupportedCapabilitiesError (ir_required_capabilities q) None \<and> (\<forall>b \<in> set bs. \<not> supports b q))
       \<or> (\<exists>names. e = AmbiguousBackendError (ir_required_capabilities q) names None \<and> 2 \<le> length names
            \<and> names = map bk_name (filter (\<lambda>b. supports b q) bs))"
proof (cases "router_select bs q")
  case (Inr b)
  then have "filter (\<lambda>b. supports b q) bs = [b]" by (simp add: router_select_Inr)
  then show ?thesis
    unfolding Inr sum.case using filter_singleton_iff [of "\<lambda>b. supports b q" bs b] by simp
next
  case (Inl e)
  then show ?thesis
    by (auto simp: router_select_def Let_def filter_empty_conv split: if_splits)
qed

theorem router_selects_the_only_supporter_witness:
  "router_select [default_mock_backend, default_mock_backend] high_request
     = Inl (AmbiguousBackendError [process_list] [mock_name, mock_name] None)"
proof -
  have s: "supports default_mock_backend high_request" by (simp add: supports_def high_request_def)
  then obtain e where e: "router_select [default_mock_backend, default_mock_backend] high_request = Inl e"
    by (simp add: router_select_def)
  from router_selects_the_only_supporter [where bs = "[default_mock_backend, default_mock_backend]" and q = high_request] s e
  show ?thesis by (simp add: high_request_def)
qed

text \<open>A plan is all or nothing: without action it has a decision only; with an investigation it
  has the incident of the alert, a request for that incident, and the one backend the router
  selects, which supports the request. Its decision names the source of the alert.\<close>

theorem plan_all_or_nothing:
  assumes "plan orch al = Inr p"
  shows "de_source (pl_decision p) = al_source al
    \<and> (case de_outcome (pl_decision p) of
         NO_ACTION \<Rightarrow> pl_incident p = None \<and> pl_investigation_request p = None \<and> pl_backend p = None
       | INVESTIGATE \<Rightarrow> (\<exists>i q b. pl_incident p = Some i \<and> pl_investigation_request p = Some q \<and> pl_backend p = Some b
           \<and> i = \<lparr>in_alert = al, in_decision = pl_decision p\<rparr> \<and> incident_eq (ir_incident q) i
           \<and> b \<in> set (oc_router orch) \<and> supports b q))"
using assms
proof (cases rule: plan_Inr_cases)
  case (investigate i q b)
  from investigate(9) have "b \<in> set (filter (\<lambda>b. supports b q) (oc_router orch))" by (simp add: router_select_Inr)
  with investigate show ?thesis by simp
qed simp

theorem plan_all_or_nothing_witness:
  "\<exists>p. plan default_orchestrator high_alert = Inr p \<and> (\<exists>b. pl_backend p = Some b \<and> b \<in> {default_mock_backend})"
proof -
  obtain d q where i: "investigates sample_env high_alert d q default_mock_backend"
    by (rule default_investigates [of sample_env high_alert]) (simp_all add: sample_defs)
  then have "\<exists>p. plan default_orchestrator high_alert = Inr p \<and> de_outcome (pl_decision p) = INVESTIGATE"
    using plan_investigate [of default_orchestrator high_alert d q default_mock_backend]
    by (auto simp: investigates_def runnable_def routed_def)
  then obtain p where p: "plan default_orchestrator high_alert = Inr p" "de_outcome (pl_decision p) = INVESTIGATE" by blast
  from plan_all_or_nothing [OF p(1)] p(2) have "\<exists>b. pl_backend p = Some b \<and> b \<in> set (oc_router default_orchestrator)"
    by auto
  with p show ?thesis by (auto simp: default_orchestrator_def)
qed

text \<open>The mock honours the contract of a backend: what it supports it submits, reports as
  succeeded and collects, at any times and with any positive budgets, and the result is its own.\<close>

theorem mock_completes_what_it_supports:
  assumes "supports default_mock_backend q" "request_ok q" "usable_timeout to1" "usable_timeout to2"
  shows "\<exists>s st res. bk_submit default_mock_backend t1 q key to1 = Inr (Some s)
    \<and> bk_poll default_mock_backend t2 q (so_external_operation_id s) to2 = Inr (Some st) \<and> os_state st = Some SUCCEEDED
    \<and> bk_collect default_mock_backend t3 q (so_external_operation_id s) = Inr res
    \<and> rs_backend res = bk_name default_mock_backend"
  using assms by (rule default_mock.full_run)

theorem mock_completes_what_it_supports_witness:
  "\<exists>s. bk_submit default_mock_backend 0 high_request 3 None = Inr (Some s)"
proof -
  have "nonblank (S ''collect process inventory'')" by (simp add: S_def is_space_def)
  then have "supports default_mock_backend high_request" "request_ok high_request"
    by (simp_all add: supports_def high_request_def request_ok_def process_list_nonblank)
  from mock_completes_what_it_supports [OF this usable_timeout_None usable_timeout_None] show ?thesis by blast
qed

section \<open>The in-memory store\<close>

text \<open>C20: While the clock does not go back, every sequence of operations as the application makes
  them leaves attempts and records in step: every attempt belongs to the record that names it,
  and the two are in the state of the same name.\<close>

theorem attempts_and_records_agree:
  assumes "list_all (\<lambda>(c, now). op_safe c \<and> aware now \<and> 0 \<le> instant now) cs" "sorted (map (instant \<circ> snd) cs)"
  shows "mem_synced (run_ops cs mem_empty)"
proof (rule run_ops_synced [OF mem_synced_empty, of 0])
  show "created_by mem_empty 0" by (simp add: created_by_def mem_empty_def dict_get_def)
  show "list_all (\<lambda>(c, now). op_safe c \<and> aware now) cs" using assms(1) by (auto simp: list_all_iff)
  show "sorted (0 # map (instant \<circ> snd) cs)" using assms by (auto simp: list_all_iff)
qed

theorem attempts_and_records_agree_witness:
  "mem_synced (run_ops [(Op_accept 0 high_alert (S ''splunk'') sample_key 1 (replicate 32 0), sample_time 1),
     (Op_plan 0 high_decision high_incident high_request mock_name 2 3, sample_time 2), (Op_claim 2, sample_time 3)] mem_empty)"
  by (rule attempts_and_records_agree) (simp_all add: us_per_day_def)

text \<open>An attempt that one caller has claimed is claimed by no other, whatever operations run in
  between, at whatever times.\<close>

theorem claim_is_exclusive:
  assumes "mem_ok s" "mem_claim_attempt_for_submission a now s = (Inr (Some x), s')"
  shows "\<not> (\<exists>y s''. mem_claim_attempt_for_submission a now' (memory.run cs s') = (Inr (Some y), s''))"
  using memory.claim_once [of s a now x s' now' cs] assms by simp

definition planned_store :: mem where
  "planned_store = submitting_store
     \<lparr>mm_records := [(0, high_submitting\<lparr>pr_state := PLANNED, pr_updated_at := sample_time 2\<rparr>)],
      mm_attempts := [(2, planned_attempt 2 0 3 mock_name (sample_time 2))]\<rparr>"

lemma planned_store_pair:
  "mem_pair 2 A_PLANNED PLANNED planned_store = Inr (Some (planned_attempt 2 0 3 mock_name (sample_time 2),
     high_submitting\<lparr>pr_state := PLANNED, pr_updated_at := sample_time 2\<rparr>))"
  by (simp add: mem_pair_Some planned_store_def dict_get_def planned_attempt_def)

lemma planned_store_ok: "mem_ok planned_store"
proof -
  have r: "record_valid (high_submitting\<lparr>pr_state := PLANNED, pr_updated_at := sample_time 2\<rparr>)"
    by (simp add: high_submitting_def high_accepted_def accepted_record_def record_valid_def record_common_def
        record_state_check_def full_plan_def record_graph_check_def high_decision_facts high_incident_def)
  have t: "attempt_valid (planned_attempt 2 0 3 mock_name (sample_time 2))"
    by (simp add: planned_attempt_valid)
  have g: "dict_get (mm_records planned_store) p =
      (if p = 0 then Some (high_submitting\<lparr>pr_state := PLANNED, pr_updated_at := sample_time 2\<rparr>) else None)"
    "dict_get (mm_attempts planned_store) a = (if a = 2 then Some (planned_attempt 2 0 3 mock_name (sample_time 2)) else None)"
    "dict_get (mm_attempt_by_processing planned_store) p = (if p = 0 then Some 2 else None)"
    "dict_get (mm_idempotency planned_store) k = (if k = (S ''splunk'', sample_key) then Some 0 else None)" for p a k
    by (simp_all add: planned_store_def dict_get_def submitting_store_def)
  have "distinct (map fst (mm_records planned_store))" by (simp add: planned_store_def)
  with r t g show ?thesis
    by (simp add: mem_ok_def records_ok_def attempts_ok_def idempotency_ok_def) (simp add: planned_attempt_def)
qed

theorem claim_is_exclusive_witness:
  "\<exists>x s'. mem_claim_attempt_for_submission 2 (sample_time 3) planned_store = (Inr (Some x), s')
     \<and> \<not> (\<exists>y s''. mem_claim_attempt_for_submission 2 (sample_time 4) s' = (Inr (Some y), s''))"
proof -
  have "(planned_attempt 2 0 3 mock_name (sample_time 2))\<lparr>at_state := A_SUBMITTING, at_started_at := Some (sample_time 3)\<rparr>
      = submitting_attempt"
    "high_submitting\<lparr>pr_state := SUBMITTING, pr_updated_at := sample_time 3\<rparr> = high_submitting"
    by (simp_all add: submitting_attempt_def high_submitting_def)
  then have "\<exists>x s'. mem_claim_attempt_for_submission 2 (sample_time 3) planned_store = (Inr (Some x), s')"
    unfolding mem_claim_attempt_for_submission_def
    using step_success [OF planned_store_pair, of "\<lambda>t. t\<lparr>at_state := A_SUBMITTING, at_started_at := Some (sample_time 3)\<rparr>"
        "\<lambda>r. r\<lparr>pr_state := SUBMITTING, pr_updated_at := sample_time 3\<rparr>"] submitting_attempt_valid high_submitting_valid
    by simp
  then obtain x s' where x: "mem_claim_attempt_for_submission 2 (sample_time 3) planned_store = (Inr (Some x), s')" by blast
  from claim_is_exclusive [OF planned_store_ok this, of "sample_time 4" "[]"] x show ?thesis by simp
qed

text \<open>What reconciliation is given: at most the limit, oldest update first and by identifier, and
  when nothing is cut off exactly the records in a nonterminal state other than
  RECOVERY_REQUIRED, where a SUBMITTING one counts only when its submission started before
  the bound.\<close>

theorem reconcilable_records:
  assumes "mem_find_reconcilable n before now s = (Inr rs, s')"
  shows "s' = s \<and> int (length rs) \<le> n \<and> sorted (map reconcile_key rs)
    \<and> set rs \<subseteq> {r \<in> snd ` set (mm_records s). reconcilable before s r = Inr True}
    \<and> (int (length (mm_records s)) \<le> n \<longrightarrow> set rs = {r \<in> snd ` set (mm_records s). reconcilable before s r = Inr True})"
proof -
  from assms obtain xs where n: "\<not> n < 1" and xs: "select_reconcilable before s (map snd (mm_records s)) = Inr xs"
    and rs: "rs = take (nat n) (sort_key reconcile_key xs)"
    by (auto simp: mem_find_reconcilable_def and_then_Inr split: if_splits)
  have s': "s' = s" using assms by (simp add: mem_find_reconcilable_def split: if_splits)
  have f: "xs = filter (\<lambda>r. reconcilable before s r = Inr True) (map snd (mm_records s))"
    using select_reconcilable_Inr [OF xs] by blast
  have all: "rs = sort_key reconcile_key xs" if "int (length (mm_records s)) \<le> n"
  proof -
    have "length xs \<le> length (mm_records s)" unfolding f by (rule order_trans [OF length_filter_le]) simp
    with that n show ?thesis by (simp add: rs)
  qed
  have sub: "set rs \<subseteq> set xs" using set_take_subset [of "nat n" "sort_key reconcile_key xs"] by (simp add: rs)
  have "sorted (map reconcile_key rs)" by (simp add: rs take_map [symmetric] sorted_wrt_take)
  moreover have "set rs \<subseteq> {r \<in> snd ` set (mm_records s). reconcilable before s r = Inr True}"
    using sub by (auto simp: f)
  moreover have "int (length rs) \<le> n" using n by (simp add: rs)
  moreover have "set rs = {r \<in> snd ` set (mm_records s). reconcilable before s r = Inr True}"
    if "int (length (mm_records s)) \<le> n"
    using all [OF that] by (auto simp: f)
  ultimately show ?thesis using s' by blast
qed

theorem reconcilable_records_witness:
  "\<exists>rs. mem_find_reconcilable 25 (sample_time 4) (sample_time 4) submitting_store = (Inr rs, submitting_store)
     \<and> set rs = {high_submitting}"
proof -
  have rec: "mm_records submitting_store = [(0, high_submitting)]" by (simp add: submitting_store_def)
  have r: "reconcilable (sample_time 4) submitting_store high_submitting = Inr True"
    by (simp add: reconcilable_def mem_get_attempt_for_processing_def stale_attempt_def)
       (simp add: submitting_attempt_def planned_attempt_def)
  then have "\<exists>rs. mem_find_reconcilable 25 (sample_time 4) (sample_time 4) submitting_store = (Inr rs, submitting_store)"
    by (simp add: mem_find_reconcilable_def rec)
  then obtain rs where rs: "mem_find_reconcilable 25 (sample_time 4) (sample_time 4) submitting_store = (Inr rs, submitting_store)"
    by blast
  from reconcilable_records [OF rs] rs r show ?thesis by (auto simp: rec)
qed

text \<open>C35: When the clock has gone back behind the creation of a record, a claim raises after it has
  written the attempt: the attempt is SUBMITTING, its record still PLANNED.\<close>

theorem claim_with_clock_back_diverges:
  assumes "dict_get (mm_attempts s) a = Some t" "at_state t = A_PLANNED" "attempt_valid t"
    and "dict_get (mm_records s) (at_processing_id t) = Some r" "pr_state r = PLANNED"
    and "aware now" "dt_less now (pr_created_at r)"
  shows "\<exists>s'. mem_claim_attempt_for_submission a now s = (Inl ValueError, s')
    \<and> mem_att_state s' a = Some A_SUBMITTING \<and> mem_rec_state s' (at_processing_id t) = Some PLANNED"
proof -
  have "mem_pair a A_PLANNED PLANNED s = Inr (Some (t, r))" using assms by (simp add: mem_pair_Some)
  moreover have "attempt_valid (t\<lparr>at_state := A_SUBMITTING, at_started_at := Some now\<rparr>)"
    using assms by (simp add: attempt_valid_def attempt_state_check_def)
  moreover have "\<not> record_valid (r\<lparr>pr_state := SUBMITTING, pr_updated_at := now\<rparr>)"
    using assms by (simp add: record_valid_def record_common_def)
  ultimately show ?thesis
    using assms(4,5)
    by (simp add: mem_claim_attempt_for_submission_def mem_attempt_step_def mem_write_pair_def mk_attempt_def
        mk_record_def mem_att_state_def mem_rec_state_def)
qed

theorem claim_with_clock_back_diverges_witness:
  "\<exists>s'. mem_claim_attempt_for_submission 2 (sample_time 0) planned_store = (Inl ValueError, s')
     \<and> mem_att_state s' 2 = Some A_SUBMITTING \<and> mem_rec_state s' 0 = Some PLANNED"
proof -
  let ?t = "planned_attempt 2 0 3 mock_name (sample_time 2)"
  let ?r = "high_submitting\<lparr>pr_state := PLANNED, pr_updated_at := sample_time 2\<rparr>"
  have "dict_get (mm_attempts planned_store) 2 = Some ?t" "dict_get (mm_records planned_store) (at_processing_id ?t) = Some ?r"
    using planned_store_pair by (simp_all add: mem_pair_Some)
  moreover have "attempt_valid ?t" by (simp add: planned_attempt_valid)
  ultimately show ?thesis
    using claim_with_clock_back_diverges [of planned_store 2 ?t ?r "sample_time 0"] by (simp add: planned_attempt_def)
qed

section \<open>Telemetry\<close>

text \<open>Every error is given a known category, and never \<open>backend_target\<close>: the class it is meant
  for is a subclass of the rejected submission that is tested before it.\<close>

theorem error_categories_known:
  "classify_error e stage \<in> set known_error_categories \<and> classify_error e stage \<noteq> S ''backend_target''"
  using classify_error_known [of e stage] by (cases e) (simp_all add: classify_error_def)

lemma dict_set_keys: "fst ` set (dict_set k v d) = insert k (fst ` set d)"
  by (induction d) (auto simp: dict_set_def)

lemma foldl_set_keys: "set (map fst (foldl (\<lambda>d (k, v). dict_set k v d) d kvs)) = set (map fst d) \<union> set (map fst kvs)"
proof (induction kvs arbitrary: d)
  case (Cons kv kvs)
  obtain k v where "kv = (k, v)" by fastforce
  with Cons.IH [of "dict_set k v d"] show ?case by (simp add: dict_set_keys)
qed simp

definition envelope_keys :: "ustring set" where
  "envelope_keys = set (map S [''schema_version'', ''timestamp'', ''level'', ''event'', ''request_id'',
     ''processing_id'', ''attempt_id'', ''trace_id'', ''span_id''])"

text \<open>A log event has no key but the fixed ones of its envelope and the allowed fields that were
  given a value, and it is refused altogether when a field is not allowed.\<close>

theorem log_keys_allowed:
  "case emit_payload event level given ctx stamp ids of
     Inl e \<Rightarrow> e = ValueError \<and> \<not> set (map fst given) \<subseteq> set event_fields
   | Inr payload \<Rightarrow> set (map fst given) \<subseteq> set event_fields \<and> set (map fst payload)
       \<subseteq> envelope_keys \<union> {k \<in> set event_fields. \<exists>v. (k, v) \<in> set given \<and> v \<noteq> JNull}"
proof -
  have opt: "set (map fst (opt_member k v d)) \<subseteq> insert k (set (map fst d))" for k v d
    by (simp add: opt_member_def dict_set_keys subset_insertI split: option.splits)
  define base where "base = [(S ''schema_version'', JStr (S ''1'')), (S ''timestamp'', JStr stamp),
                    (S ''level'', JStr level), (S ''event'', JStr event)]"
  define c where "c = opt_member (S ''attempt_id'') (cv_attempt_id ctx)
              (opt_member (S ''processing_id'') (cv_processing_id ctx)
              (opt_member (S ''request_id'') (cv_request_id ctx) base))"
  define tr where "tr = (case ids of None \<Rightarrow> c
              | Some (trace_id, span_id) \<Rightarrow>
                  dict_set (S ''span_id'') (JStr (hex_fix 16 span_id))
                    (dict_set (S ''trace_id'') (JStr (hex_fix 32 trace_id)) c))"
  have "set (map fst c) \<subseteq> envelope_keys"
  proof -
    have "set (map fst c) \<subseteq> insert (S ''attempt_id'') (insert (S ''processing_id'') (insert (S ''request_id'') (set (map fst base))))"
      unfolding c_def by (blast dest: subsetD [OF opt])
    then show ?thesis by (auto simp: base_def envelope_keys_def)
  qed
  then have "set (map fst tr) \<subseteq> envelope_keys"
    unfolding tr_def by (auto simp: dict_set_keys envelope_keys_def split: option.splits prod.splits)
  moreover define out where "out = foldl (\<lambda>d (k, v). dict_set k v d) tr (filter (\<lambda>(k, v). v \<noteq> JNull) given)"
  moreover have "set (map fst out) = set (map fst tr) \<union> set (map fst (filter (\<lambda>(k, v). v \<noteq> JNull) given))"
    unfolding out_def by (rule foldl_set_keys)
  ultimately have o: "set (map fst out) \<subseteq> envelope_keys \<union> {k. \<exists>v. (k, v) \<in> set given \<and> v \<noteq> JNull}" by fastforce
  have eq: "emit_payload event level given ctx stamp ids
      = (if \<not> set (map fst given) \<subseteq> set event_fields then Inl ValueError else Inr out)"
    unfolding emit_payload_def base_def [symmetric] Let_def c_def [symmetric] tr_def [symmetric] out_def [symmetric] ..
  show ?thesis
  proof (cases "set (map fst given) \<subseteq> set event_fields")
    case True
    have "k \<in> set event_fields" if "(k, v) \<in> set given" for k v using True that by force
    with o have "set (map fst out) \<subseteq> envelope_keys \<union> {k \<in> set event_fields. \<exists>v. (k, v) \<in> set given \<and> v \<noteq> JNull}"
      by blast
    with True show ?thesis unfolding eq by simp
  qed (simp add: eq)
qed

theorem log_keys_allowed_witness:
  "emit_payload (S ''request.finished'') (S ''INFO'') [(S ''password'', JNull)] empty_context [] None = Inl ValueError"
proof -
  have "S ''password'' \<notin> set event_fields" by (simp add: event_fields_def)
  then show ?thesis
    using log_keys_allowed [where event = "S ''request.finished''" and level = "S ''INFO''" and given = "[(S ''password'', JNull)]"
        and ctx = empty_context and stamp = "[]" and ids = None]
    by (simp split: sum.splits)
qed

section \<open>Schemas\<close>

text \<open>A valid alert survives the trip through the models of the HTTP boundary unchanged.\<close>

theorem alert_round_trips:
  assumes "alert_ok a"
  shows "\<exists>q. alert_from_domain a = Inr q \<and> alert_to_domain q = Inr a"
  using alert_from_domain_total [OF assms] alert_from_domain_round by blast

theorem alert_round_trips_witness:
  "\<exists>q. alert_from_domain low_alert = Inr q \<and> alert_to_domain q = Inr low_alert"
  by (rule alert_round_trips [OF sample_alerts_ok(2)])

text \<open>A durable record of valid parts always has a public response; its status, location and
  replay header say the state, the identifier and whether this was a replay.\<close>

theorem public_response_faithful:
  assumes "record_parts_ok r"
  shows "\<exists>resp. public_processing_response r replayed = Inr resp \<and> hr_status resp = durable_status r
    \<and> dict_get (hr_headers resp) (S ''Location'') = Some (status_url (pr_processing_id r))
    \<and> (dict_get (hr_headers resp) (S ''Idempotency-Replayed'') = Some (S ''true'') \<longleftrightarrow> replayed)"
  using public_response_total [OF assms] public_response_status by blast

theorem public_response_faithful_witness:
  "\<exists>resp. public_processing_response matching_record True = Inr resp \<and> hr_status resp = 202"
  using public_response_faithful [OF matching_parts, of True]
  by (auto simp: durable_status_def matching_record_def)

end
