(* ===== verification/ProcessorDeadline.thy ===== *)
theory ProcessorDeadline
  imports ProcessorSafety
begin

text \<open>
  The time budget of a reconciliation pass. The deadline is fixed by the first reading of the
  monotonic clock; every backend call of the pass directly follows another reading that is before
  the deadline, and a submission or a poll is given exactly the time that is left at that reading.
\<close>

section \<open>Calls within the budget\<close>

text \<open>A call at step \<open>u\<close>, with the reading at the step before, in a pass that started at \<open>start\<close>.\<close>

definition call_in_budget :: "env \<Rightarrow> rat \<Rightarrow> nat \<Rightarrow> nat \<times> event \<Rightarrow> bool" where
  "call_in_budget E deadline start c \<longleftrightarrow>
     (let reading = e_monotonic E (fst c - 1) in
      start + 1 < fst c \<and> reading < deadline
      \<and> (case snd c of
           Ev_submit a b k timeout \<Rightarrow> timeout = Some (deadline - reading)
         | Ev_poll a b x timeout \<Rightarrow> timeout = Some (deadline - reading)
         | Ev_collect a b x \<Rightarrow> True
         | Ev_claim own a \<Rightarrow> False))"

definition in_budget :: "env \<Rightarrow> rat \<Rightarrow> nat \<Rightarrow> (nat \<times> event) list \<Rightarrow> 's world \<Rightarrow> bool" where
  "in_budget E deadline start before w \<longleftrightarrow>
     start < w_step w \<and> (\<exists>calls. w_calls w = before @ calls \<and> list_all (call_in_budget E deadline start) calls)"

text \<open>The clock has just been read, with \<open>left\<close> seconds left.\<close>

definition just_read :: "env \<Rightarrow> rat \<Rightarrow> nat \<Rightarrow> (nat \<times> event) list \<Rightarrow> rat option \<Rightarrow> 's world \<Rightarrow> bool" where
  "just_read E deadline start before left w \<longleftrightarrow>
     in_budget E deadline start before w
     \<and> (\<exists>u. w_step w = Suc u \<and> start < u \<and> left = Some (deadline - e_monotonic E u))"

lemma just_read_in_budget: "just_read E d s C t w \<Longrightarrow> in_budget E d s C w"
  by (simp add: just_read_def)

section \<open>Primitive actions\<close>

lemma run_others_calls [simp]:
  "w_calls (run_others R cs w) = w_calls w" "w_step (run_others R cs w) = w_step w"
  by (induction R cs w rule: run_others.induct) simp_all

lemma repo_call_calls: "repo_call R E c w = (r, w') \<Longrightarrow> w_calls w' = w_calls w \<and> w_step w' = Suc (w_step w)"
  by (auto simp: repo_call_def Let_def split: fault.splits prod.splits)

lemma in_budget_repo_call [keeps_intro]: "keeps (in_budget E d s C) (repo_call R E c)"
  by (rule keepsI) (auto simp: in_budget_def dest: repo_call_calls)

lemma in_budget_primitive [keeps_intro]:
  "keeps (in_budget E d s C) (emit m)" "keeps (in_budget E d s C) (context_do f)" "keeps (in_budget E d s C) (observe g)"
  "keeps (in_budget E d s C) (trace ev)"
  by (auto simp: keeps_def emit_def context_do_def observe_def trace_def modify_def in_budget_def)

lemma just_read_primitive [keeps_intro]:
  "keeps (just_read E d s C t) (emit m)" "keeps (just_read E d s C t) (context_do f)"
  by (auto simp: keeps_def emit_def context_do_def modify_def just_read_def in_budget_def)

lemma remaining_reads:
  "yields (in_budget E d s C) (remaining_seconds E (Some d)) (just_read E d s C) (\<lambda>_. in_budget E d s C)"
  by (rule yieldsI) (auto simp: remaining_seconds_def bind_def observe_def ret_def just_read_def in_budget_def)

lemma backend_call_in_budget:
  assumes "\<not> used_up t"
    "(\<exists>a b k. ev = Ev_submit a b k t) \<or> (\<exists>a b x. ev = Ev_poll a b x t) \<or> (\<exists>a b x. ev = Ev_collect a b x)"
  shows "yields (just_read E d s C t) (backend_call ev f) (\<lambda>_. in_budget E d s C) (\<lambda>_. in_budget E d s C)"
proof -
  have "in_budget E d s C w'" if w: "just_read E d s C t w" and run: "backend_call ev f w = (r, w')" for w r w'
  proof -
    from w obtain u where u: "w_step w = Suc u" "s < u" "t = Some (d - e_monotonic E u)" "in_budget E d s C w"
      by (auto simp: just_read_def)
    have w': "w_calls w' = w_calls w @ [(Suc u, ev)]" "w_step w' = Suc (Suc u)"
      using run u(1)
      by (auto simp: backend_call_def then_do_def trace_call_def modify_def bind_def observe_def lift_def)
    have "call_in_budget E d s (Suc u, ev)"
      using assms u by (auto simp: call_in_budget_def used_up_def)
    moreover obtain calls where "w_calls w = C @ calls" "list_all (call_in_budget E d s) calls"
      using u(4) by (auto simp: in_budget_def)
    ultimately show ?thesis
      using u(2) w' by (auto simp: in_budget_def intro!: exI [of _ "calls @ [(Suc u, ev)]"])
  qed
  then show ?thesis by (intro yieldsI)
qed

lemma budget_keeps: "keeps (in_budget E d s C) m \<Longrightarrow> yields (just_read E d s C t) m (\<lambda>_. in_budget E d s C) (\<lambda>_. in_budget E d s C)"
  by (erule yields_keeps) (rule just_read_in_budget)

text \<open>The three calls: read the clock, stop when no time is left, call.\<close>

lemma checked_call:
  assumes "\<And>t. keeps (in_budget E d s C) (stop t)"
    and "\<And>t. \<not> used_up t \<Longrightarrow> yields (just_read E d s C t) (call t) (\<lambda>_. in_budget E d s C) (\<lambda>_. in_budget E d s C)"
  shows "keeps (in_budget E d s C) (bind (remaining_seconds E (Some d)) (\<lambda>t. if used_up t then stop t else call t))"
  unfolding keeps_iff_yields
proof (rule yields_bind [OF remaining_reads])
  fix t
  show "yields (just_read E d s C t) (if used_up t then stop t else call t) (\<lambda>_. in_budget E d s C) (\<lambda>_. in_budget E d s C)"
    using assms(1) [THEN budget_keeps] assms(2) by simp
qed

lemma tried_call:
  assumes "yields P m (\<lambda>_. in_budget E d s C) (\<lambda>_. in_budget E d s C)"
    and "\<And>e. keeps (in_budget E d s C) (h e)" "\<And>x. keeps (in_budget E d s C) (k x)"
  shows "yields P (try_except m h k) (\<lambda>_. in_budget E d s C) (\<lambda>_. in_budget E d s C)"
  by (rule yields_try [OF assms(1)]) (rule assms(2,3) [unfolded keeps_iff_yields])+

lemma bound_call:
  assumes "yields P m (\<lambda>_. in_budget E d s C) (\<lambda>_. in_budget E d s C)" "\<And>x. keeps (in_budget E d s C) (k x)"
  shows "yields P (bind m k) (\<lambda>_. in_budget E d s C) (\<lambda>_. in_budget E d s C)"
  by (rule yields_bind [OF assms(1)]) (rule assms(2) [unfolded keeps_iff_yields])

section \<open>The methods\<close>

lemma in_budget_emit_all [keeps_intro]:
  "keeps (in_budget E d s C) (foldr (\<lambda>m k. then_do (emit m) k) ms (ret ()))"
  by (induction ms) (auto intro!: keeps_intro)

lemma in_budget_reread [keeps_intro]: "keeps (in_budget E d s C) (reread R E p)"
  unfolding reread_def by (intro keeps_intro)

lemma in_budget_durable [keeps_intro]: "keeps (in_budget E d s C) (durable_or_reread R E r p st ms)"
  unfolding durable_or_reread_def by (intro keeps_intro)

lemma in_budget_recovery [keeps_intro]: "keeps (in_budget E d s C) (mark_recovery R E a st c dt p ms)"
  unfolding mark_recovery_def by (intro keeps_intro)

lemma in_budget_claim [keeps_intro]: "keeps (in_budget E d s C) (repo_claim R E a)"
  unfolding repo_claim_def by (intro keeps_intro)

lemma collect_in_budget:
  "\<not> used_up t \<Longrightarrow>
   yields (just_read E d s C t) (collect_result r a b n q x) (\<lambda>_. in_budget E d s C) (\<lambda>_. in_budget E d s C)"
  unfolding collect_result_def backend_collect_def
  by (rule bound_call [OF backend_call_in_budget]) (auto intro!: keeps_intro split: option.splits)

lemma in_budget_status [keeps_intro]:
  "keeps (in_budget E d s C) (handle_status R E r a (Some d) b n q x st)"
proof -
  have collect: "keeps (in_budget E d s C) (bind (remaining_seconds E (Some d)) (\<lambda>t. if used_up t then reread R E p
      else try_except (collect_result r a b n q x) h k))"
    if "\<And>e. keeps (in_budget E d s C) (h e)" "\<And>y. keeps (in_budget E d s C) (k y)" for p h k
    using that by (intro checked_call tried_call collect_in_budget keeps_intro)
  show ?thesis
    unfolding handle_status_def Let_def
    by (cases "os_state st"; simp; (cases "the (os_state st)"; simp)?)
      (intro collect keeps_intro)+
qed

lemma in_budget_poll [keeps_intro]: "keeps (in_budget E d s C) (poll_submitted R E r a (Some d))"
proof -
  have poll: "keeps (in_budget E d s C) (bind (remaining_seconds E (Some d)) (\<lambda>t. if used_up t then ret r
      else try_except (bind (backend_poll a b q x t) (\<lambda>status. case status of None \<Rightarrow> raise TypeError | Some st \<Rightarrow> ret st)) h k))"
    if "\<And>e. keeps (in_budget E d s C) (h e)" "\<And>y. keeps (in_budget E d s C) (k y)" for b q x h k
    unfolding backend_poll_def using that
    by (intro checked_call tried_call bound_call backend_call_in_budget keeps_intro)
      (auto intro!: keeps_intro split: option.splits)
  show ?thesis
    unfolding poll_submitted_def Let_def
    by (simp split: option.split; intro conjI allI impI poll keeps_intro)
qed

lemma submit_in_budget:
  "\<not> used_up t \<Longrightarrow> yields (just_read E d s C t) (backend_submit c b q t) (\<lambda>_. in_budget E d s C) (\<lambda>_. in_budget E d s C)"
  unfolding backend_submit_def Let_def
  by (rule tried_call [OF backend_call_in_budget]) (auto intro!: keeps_intro)

lemma in_budget_after_submission [keeps_intro]:
  "keeps (in_budget E d s C) (after_submission R E r c (Some d) n x)"
  unfolding after_submission_def Let_def by (intro keeps_intro)

lemma in_budget_after_claim [keeps_intro]: "keeps (in_budget E d s C) (after_claim R E r c (Some d) b n q)"
  unfolding after_claim_def Let_def
  by (intro keeps_then keeps_intro checked_call tried_call bound_call submit_in_budget)
    (auto intro!: keeps_intro split: option.splits)

lemma in_budget_submit [keeps_intro]: "keeps (in_budget E d s C) (submit R E r a (Some d))"
proof -
  have claim: "keeps (in_budget E d s C) (bind (remaining_seconds E (Some d)) (\<lambda>t. if used_up t then ret r
      else try_except (repo_claim R E (at_attempt_id a)) (\<lambda>e. raise PersistenceUnavailableError)
        (case_option (reread R E p) (\<lambda>c. after_claim R E r c (Some d) b n q))))" for p b n q
    by (intro checked_call budget_keeps keeps_intro)
  show ?thesis
    unfolding submit_def Let_def
    by (simp split: option.split; intro conjI allI impI claim keeps_intro)
qed

lemma in_budget_planning_failed [keeps_intro]: "keeps (in_budget E d s C) (planning_failed R E r e)"
  unfolding planning_failed_def fail_without_attempt_def Let_def
  by (cases e; simp; intro keeps_intro)

lemma in_budget_advance [keeps_intro]: "keeps (in_budget E d s C) (advance_accepted R E r (Some d))"
  unfolding advance_accepted_def complete_no_action_def
  by (auto split: option.splits intro!: keeps_intro)

lemma in_budget_record [keeps_intro]: "keeps (in_budget E d s C) (reconcile_record R E d r)"
  unfolding reconcile_record_def Let_def
  by (cases "pr_state r"; simp; intro keeps_intro)

lemma in_budget_step [keeps_intro]: "keeps (in_budget E d s C) (reconcile_step R E d r rep)"
  unfolding reconcile_step_def Let_def by (intro keeps_intro) (simp_all add: in_budget_def)

lemma in_budget_remaining [keeps_intro]: "keeps (in_budget E d s C) (remaining_seconds E dl)"
  unfolding remaining_seconds_def by (intro keeps_intro)

lemma in_budget_loop [keeps_intro]: "keeps (in_budget E d s C) (reconcile_loop R E d rs rep)"
  by (induction rs arbitrary: rep) (auto intro!: keeps_intro)

section \<open>Property\<close>

text \<open>C18: In a pass of reconciliation over any repository, with any interference and faults, every
  submission, poll and collection directly follows a reading of the monotonic clock that is before
  the deadline of the pass, its first reading plus the limit; and a submission or a poll is given
  exactly the time that is left at that reading.\<close>

theorem reconciliation_calls_in_budget:
  "\<exists>calls. w_calls (snd (reconcile_once R E limit max_seconds stale w)) = w_calls w @ calls
     \<and> list_all (call_in_budget E (e_monotonic E (w_step w) + max_seconds) (w_step w)) calls"
proof (cases "limit < 1 \<or> max_seconds \<le> 0")
  case True
  then show ?thesis by (simp add: reconcile_once_def raise_def)
next
  case False
  let ?d = "e_monotonic E (w_step w) + max_seconds" and ?w = "w\<lparr>w_step := Suc (w_step w)\<rparr>"
  define rest where "rest = bind (observe (e_wall_clock E)) (\<lambda>wall. bind (lift (dt_minus wall stale)) (\<lambda>stale_before.
    bind (repo_call R E (rp_find_reconcilable R limit stale_before)) (\<lambda>records.
    reconcile_loop R E ?d records
      \<lparr>rr_examined = 0, rr_advanced = 0, rr_failed = 0, rr_time_limit_reached = False\<rparr>)))"
  have "keeps (in_budget E ?d (w_step w) (w_calls w)) rest" unfolding rest_def by (intro keeps_intro)
  moreover have "in_budget E ?d (w_step w) (w_calls w) ?w" by (simp add: in_budget_def)
  ultimately have "in_budget E ?d (w_step w) (w_calls w) (snd (rest ?w))" by (simp add: keeps_def)
  moreover have "reconcile_once R E limit max_seconds stale w = rest ?w"
    using False by (simp add: reconcile_once_def rest_def bind_def observe_def)
  ultimately show ?thesis by (simp add: in_budget_def)
qed

end
