(* ===== verification/PyNumber.thy ===== *)
theory PyNumber
  imports Pytime
begin

text \<open>
  What the Splunk integration uses of Python's number and text library beyond \<open>Pystr\<close>:
  \<open>isprintable\<close>, the reading of decimal and hexadecimal integers, \<open>UUID(text)\<close>, \<open>Decimal\<close>
  with its context precision of 28 digits, and binary64 floats with the shortest decimal that
  \<open>repr\<close> prints for them.
\<close>

section \<open>The Unicode database\<close>

text \<open>
  Two tables of the interpreter's Unicode data are arguments: \<open>str.isprintable\<close> of a code point
  and its value as a decimal digit. \<open>unicode_ok\<close> is what the code relies on: the ASCII rows,
  and that surrogates are not printable.
\<close>

record unicode_db =
  ud_printable :: "nat \<Rightarrow> bool"
  ud_decimal :: "nat \<Rightarrow> nat option"

definition unicode_ok :: "unicode_db \<Rightarrow> bool" where
  "unicode_ok u \<longleftrightarrow>
     (\<forall>c < 128. ud_printable u c \<longleftrightarrow> 32 \<le> c \<and> c \<le> 126)
     \<and> (\<forall>c. ud_printable u c \<longrightarrow> c < 0x110000 \<and> \<not> (0xD800 \<le> c \<and> c \<le> 0xDFFF))"

text \<open>The rows of ASCII alone.\<close>

definition ascii_db :: unicode_db where
  "ascii_db = \<lparr>ud_printable = (\<lambda>c. 32 \<le> c \<and> c \<le> 126),
     ud_decimal = (\<lambda>c. if is_digit c then Some (c - 48) else None)\<rparr>"

lemma ascii_db_ok: "unicode_ok ascii_db"
  by (simp add: unicode_ok_def ascii_db_def)

definition isprintable :: "unicode_db \<Rightarrow> ustring \<Rightarrow> bool" where
  "isprintable u s \<longleftrightarrow> list_all (ud_printable u) s"

lemma isprintable_simps [simp]:
  "isprintable u []" "isprintable u (c # s) \<longleftrightarrow> ud_printable u c \<and> isprintable u s"
  "isprintable u (s @ t) \<longleftrightarrow> isprintable u s \<and> isprintable u t"
  by (simp_all add: isprintable_def)

lemma printable_ascii: "unicode_ok u \<Longrightarrow> c < 128 \<Longrightarrow> ud_printable u c \<longleftrightarrow> 32 \<le> c \<and> c \<le> 126"
  by (simp add: unicode_ok_def)

section \<open>Reading digits\<close>

definition digits_value :: "ustring \<Rightarrow> nat" where
  "digits_value s = foldl (\<lambda>a c. a * 10 + (c - 48)) 0 s"

definition all_digits :: "ustring \<Rightarrow> bool" where
  "all_digits s \<longleftrightarrow> s \<noteq> [] \<and> list_all is_digit s"

text \<open>\<open>int(text)\<close> of digits gives up above 4300 of them.\<close>

definition int_digits_limit :: nat where "int_digits_limit = 4300"

lemma digits_value_dec [simp]: "digits_value (dec_nat n) = n"
proof (induction n rule: dec_nat.induct)
  case (1 n)
  show ?case
  proof (cases "n < 10")
    case True
    then show ?thesis by (simp add: dec_nat.simps [of n] digits_value_def)
  next
    case False
    then have "digits_value (dec_nat (n div 10)) = n div 10" using 1 by simp
    with False show ?thesis by (simp add: dec_nat.simps [of n] digits_value_def)
  qed
qed

lemma all_digits_dec [simp]: "all_digits (dec_nat n)"
  by (auto simp: all_digits_def list_all_iff dest: dec_nat_digits)

lemma dec_nat_length: "n < 10 ^ k \<Longrightarrow> 0 < k \<Longrightarrow> length (dec_nat n) \<le> k"
proof (induction k arbitrary: n)
  case (Suc k)
  show ?case
  proof (cases "n < 10")
    case True
    then show ?thesis by (simp add: dec_nat.simps [of n])
  next
    case False
    then have "0 < k" using Suc.prems by (cases k) auto
    moreover have "n div 10 < 10 ^ k" using Suc.prems by (simp add: less_mult_imp_div_less mult.commute)
    ultimately have "length (dec_nat (n div 10)) \<le> k" by (rule Suc.IH [rotated])
    with False show ?thesis by (simp add: dec_nat.simps [of n])
  qed
qed simp

definition is_hex :: "nat \<Rightarrow> bool" where
  "is_hex c \<longleftrightarrow> is_digit c \<or> 65 \<le> c \<and> c \<le> 70 \<or> 97 \<le> c \<and> c \<le> 102"

definition hex_digit :: "nat \<Rightarrow> nat" where
  "hex_digit c = (if c \<le> 57 then c - 48 else if c \<le> 70 then c - 55 else c - 87)"

definition hex_text_value :: "ustring \<Rightarrow> nat" where
  "hex_text_value s = foldl (\<lambda>a c. a * 16 + hex_digit c) 0 s"

text \<open>Hexadecimal digits with single underscores between them.\<close>

fun underscored :: "ustring \<Rightarrow> bool" where
  "underscored [] = False"
| "underscored [c] = is_hex c"
| "underscored (c # d # s) = (is_hex c \<and> (if d = 95 then underscored s else underscored (d # s)))"

definition strip_chars :: "(nat \<Rightarrow> bool) \<Rightarrow> ustring \<Rightarrow> ustring" where
  "strip_chars p s = rev (dropWhile p (rev (dropWhile p s)))"

definition int_space :: "nat \<Rightarrow> bool" where
  "int_space c \<longleftrightarrow> 9 \<le> c \<and> c \<le> 13 \<or> c = 32"

text \<open>\<open>int(text, 16)\<close>. Text that is not ASCII first gets its decimal digits and spaces mapped to
  ASCII ones; what is left is not a number. The sign of the result is kept apart.\<close>

definition ascii_number :: "unicode_db \<Rightarrow> ustring \<Rightarrow> ustring" where
  "ascii_number u s =
     (if is_ascii s then s
      else map (\<lambda>c. if c < 127 then c else if is_space c then 32
                else case ud_decimal u c of Some d \<Rightarrow> 48 + d | None \<Rightarrow> 63) s)"

definition int_base16 :: "unicode_db \<Rightarrow> ustring \<Rightarrow> (bool \<times> nat) option" where
  "int_base16 u s =
     (let t = strip_chars int_space (ascii_number u s);
          neg = (take 1 t = [45]);
          d = (if take 1 t = [45] \<or> take 1 t = [43] then drop 1 t else t);
          e = (if take 2 d = [48, 120] \<or> take 2 d = [48, 88]
               then (if take 1 (drop 2 d) = [95] then drop 3 d else drop 2 d) else d)
      in if underscored e then Some (neg, hex_text_value (filter (\<lambda>c. c \<noteq> 95) e)) else None)"

text \<open>\<open>UUID(text)\<close>; None is its ValueError.\<close>

definition uuid_of_text :: "unicode_db \<Rightarrow> ustring \<Rightarrow> uuid option" where
  "uuid_of_text u s =
     (let h = replace_text (S ''-'') [] (strip_chars (\<lambda>c. c = 123 \<or> c = 125)
                (replace_text (S ''uuid:'') [] (replace_text (S ''urn:'') [] s)))
      in if length h \<noteq> 32 then None
         else case int_base16 u h of
                None \<Rightarrow> None
              | Some (neg, n) \<Rightarrow> if (neg \<and> n \<noteq> 0) \<or> 2 ^ 128 \<le> n then None else Some (of_nat n))"

lemma hex_digit_char: "d < 16 \<Longrightarrow> hex_digit (hex_char d) = d" "d < 16 \<Longrightarrow> is_hex (hex_char d)"
  by (auto simp: hex_digit_def hex_char_def is_hex_def is_digit_def)

lemma hex_text_value_fix: "n < 16 ^ w \<Longrightarrow> hex_text_value (hex_fix w n) = n"
proof (induction w arbitrary: n)
  case 0
  then show ?case by (simp add: hex_text_value_def hex_fix_def)
next
  case (Suc w)
  then have "n div 16 < 16 ^ w" by (simp add: less_mult_imp_div_less mult.commute)
  then have "hex_text_value (hex_fix w (n div 16)) = n div 16" by (rule Suc.IH)
  then show ?case by (simp add: hex_text_value_def hex_fix_def hex_digit_char)
qed

lemma hex_fix_chars: "c \<in> set (hex_fix w n) \<Longrightarrow> is_hex c \<and> c \<noteq> 45"
proof -
  have "is_hex (hex_char d) \<and> hex_char d \<noteq> 45" if "d < 16" for d
    using that hex_digit_char(2) [OF that] by (auto simp: hex_char_def)
  then show "c \<in> set (hex_fix w n) \<Longrightarrow> is_hex c \<and> c \<noteq> 45"
    using fix_digits_less [of 16 _ w n] by (auto simp: hex_fix_def)
qed

lemma underscored_hex: "s \<noteq> [] \<Longrightarrow> \<forall>c \<in> set s. is_hex c \<Longrightarrow> underscored s"
  by (induction s rule: underscored.induct) (auto simp: is_hex_def is_digit_def)

lemma strip_chars_none: "\<forall>c \<in> set s. \<not> p c \<Longrightarrow> strip_chars p s = s"
proof -
  assume "\<forall>c \<in> set s. \<not> p c"
  then have "dropWhile p t = t" if "set t \<subseteq> set s" for t
    using that by (cases t) auto
  from this [of s] this [of "rev s"] show ?thesis by (simp add: strip_chars_def)
qed

lemma replace_text_none: "\<forall>c \<in> set s. c \<noteq> hd old \<Longrightarrow> old \<noteq> [] \<Longrightarrow> replace_text old new s = s"
  using replace_text_skip [of s old new "[]"] by simp

lemma replace_dash: "replace_text [45] [] s = filter (\<lambda>c. c \<noteq> 45) s"
  by (induction s) simp_all

lemma take_drop_pieces: "take 8 s @ take 4 (drop 8 s) @ take 4 (drop 12 s) @ take 4 (drop 16 s) @ drop 20 s = s"
proof -
  have step: "take m (drop n s) @ drop (m + n) s = drop n s" for m n
    using append_take_drop_id [of m "drop n s"] by simp
  show ?thesis using step [of 8 0] step [of 4 8] step [of 4 12] step [of 4 16] by simp
qed

lemma uuid_str_chars: "c \<in> set (uuid_str x) \<Longrightarrow> c = 45 \<or> is_hex c"
  by (auto simp: uuid_str_def Let_def dest!: in_set_takeD in_set_dropD dest: hex_fix_chars)

lemma uuid_str_digits: "filter (\<lambda>c. c \<noteq> 45) (uuid_str x) = hex_fix 32 (unat x)"
proof -
  have keep: "filter (\<lambda>c. c \<noteq> 45) s = s" if "set s \<subseteq> set (hex_fix 32 (unat x))" for s
    using that hex_fix_chars [of _ 32 "unat x"] by (intro filter_True) auto
  note sub = order_trans [OF set_take_subset set_drop_subset]
  show ?thesis
    using take_drop_pieces [of "hex_fix 32 (unat x)"]
    by (simp add: uuid_str_def Let_def keep [OF set_take_subset] keep [OF set_drop_subset] keep [OF sub])
qed

text \<open>Reading a printed UUID gives it back.\<close>

lemma int_base16_hex:
  assumes "\<forall>c \<in> set h. is_hex c" "2 \<le> length h"
  shows "int_base16 u h = Some (False, hex_text_value h)"
proof -
  have a: "is_ascii h"
    using assms(1) by (auto simp: is_ascii_def list_all_iff is_hex_def is_digit_def)
  have s: "strip_chars int_space h = h"
    using assms(1) by (intro strip_chars_none) (auto simp: int_space_def is_hex_def is_digit_def)
  have f: "filter (\<lambda>c. c \<noteq> 95) h = h"
    using assms(1) by (intro filter_True) (auto simp: is_hex_def is_digit_def)
  have h: "underscored h" using assms by (intro underscored_hex) auto
  obtain p q r where pqr: "h = p # q # r" using assms(2) by (cases h; cases "tl h") auto
  then have "is_hex p" "is_hex q" using assms(1) by auto
  then have t: "take 1 h \<noteq> [45]" "take 1 h \<noteq> [43]" "take 2 h \<noteq> [48, 120]" "take 2 h \<noteq> [48, 88]"
    unfolding pqr by (auto simp: is_hex_def is_digit_def)
  show ?thesis unfolding int_base16_def ascii_number_def Let_def using t a s f h by simp
qed

lemma uuid_round_trip [simp]: "uuid_of_text u (uuid_str x) = Some x"
proof -
  define h where "h = hex_fix 32 (unat x)"
  have c: "\<forall>c \<in> set (uuid_str x). c \<noteq> 117 \<and> c \<noteq> 123 \<and> c \<noteq> 125"
    by (auto dest!: uuid_str_chars simp: is_hex_def is_digit_def)
  have a: "replace_text (S ''urn:'') [] (uuid_str x) = uuid_str x" "replace_text (S ''uuid:'') [] (uuid_str x) = uuid_str x"
    by (rule replace_text_none; use c in \<open>simp add: S_def\<close>)+
  have b: "strip_chars (\<lambda>c. c = 123 \<or> c = 125) (uuid_str x) = uuid_str x"
    using c by (intro strip_chars_none) auto
  have d: "replace_text (S ''-'') [] (uuid_str x) = h"
    using uuid_str_digits [of x] by (simp add: S_def replace_dash h_def)
  have l: "length h = 32" by (simp add: h_def)
  have i: "int_base16 u h = Some (False, hex_text_value h)"
    using hex_fix_chars l by (intro int_base16_hex) (auto simp: h_def)
  have x: "unat x < 2 ^ 128" using unsigned_less [of x] by simp
  have "hex_text_value h = unat x"
    unfolding h_def by (rule hex_text_value_fix) (use x in simp)
  with i l x show ?thesis unfolding uuid_of_text_def a b d Let_def by simp
qed

section \<open>Decimals\<close>

text \<open>\<open>Decimal c e\<close> is \<open>c\<close> times ten to the \<open>e\<close>.\<close>

datatype pydecimal = Decimal int int

definition round_half_even :: "nat \<Rightarrow> nat \<Rightarrow> nat" where
  "round_half_even a b =
     (let q = a div b; r = a mod b
      in if 2 * r < b then q else if b < 2 * r then q + 1 else if even q then q else q + 1)"

fun decimal_le :: "int \<Rightarrow> pydecimal \<Rightarrow> bool" where
  "decimal_le b (Decimal c e) \<longleftrightarrow> (if 0 \<le> e then b \<le> c * 10 ^ nat e else b * 10 ^ nat (- e) \<le> c)"

fun decimal_less :: "pydecimal \<Rightarrow> int \<Rightarrow> bool" where
  "decimal_less (Decimal c e) b \<longleftrightarrow> (if 0 \<le> e then c * 10 ^ nat e < b else c < b * 10 ^ nat (- e))"

text \<open>Multiplication by an integer in the default context: the exact product, rounded half to
  even to 28 digits when it has more.\<close>

definition context_precision :: nat where "context_precision = 28"

fun decimal_times :: "pydecimal \<Rightarrow> int \<Rightarrow> pydecimal" where
  "decimal_times (Decimal c e) k =
     (let p = c * k; n = length (dec_nat (nat \<bar>p\<bar>))
      in if n \<le> context_precision then Decimal p e
         else let d = n - context_precision
              in Decimal (sgn p * int (round_half_even (nat \<bar>p\<bar>) (10 ^ d))) (e + int d))"

text \<open>\<open>int(d.to_integral_value(rounding=ROUND_FLOOR))\<close>.\<close>

fun decimal_floor :: "pydecimal \<Rightarrow> int" where
  "decimal_floor (Decimal c e) = (if 0 \<le> e then c * 10 ^ nat e else c div 10 ^ nat (- e))"

text \<open>\<open>Decimal(text)\<close> of text that matches the numeric timestamp pattern.\<close>

definition decimal_of_text :: "ustring \<Rightarrow> pydecimal" where
  "decimal_of_text s =
     (let neg = (take 1 s = [45]);
          t = (if take 1 s = [45] \<or> take 1 s = [43] then drop 1 s else s);
          whole = takeWhile is_digit t; frac = drop 1 (dropWhile is_digit t);
          c = int (digits_value (whole @ frac))
      in Decimal (if neg then - c else c) (- int (length frac)))"

section \<open>Floats\<close>

text \<open>\<open>Finite neg m q\<close> is \<open>m\<close> times two to the \<open>q\<close>, with a sign.\<close>

datatype pyfloat = Finite bool nat int | Infinite bool | NotANumber

fun bit_length :: "nat \<Rightarrow> nat" where
  "bit_length n = (if n = 0 then 0 else Suc (bit_length (n div 2)))"

declare bit_length.simps [simp del]

text \<open>The binary64 number nearest to the fraction \<open>a / b\<close>, ties to even.\<close>

definition binary64 :: "bool \<Rightarrow> nat \<Rightarrow> nat \<Rightarrow> pyfloat" where
  "binary64 neg a b =
     (if a = 0 then Finite neg 0 0
      else let l = int (bit_length a) - int (bit_length b);
               e = (if (if 0 \<le> l then b * 2 ^ nat l \<le> a else b \<le> a * 2 ^ nat (- l)) then l else l - 1);
               q = max (- 1074) (e - 52);
               m = (if 0 \<le> q then round_half_even a (b * 2 ^ nat q) else round_half_even (a * 2 ^ nat (- q)) b)
           in if 971 \<le> q \<and> 2 ^ 1024 \<le> m * 2 ^ nat q then Infinite neg
              else if m = 2 ^ 53 then Finite neg (2 ^ 52) (q + 1) else Finite neg m q)"

definition float_of_decimal :: "bool \<Rightarrow> nat \<Rightarrow> int \<Rightarrow> pyfloat" where
  "float_of_decimal neg c e =
     (if 0 \<le> e then binary64 neg (c * 10 ^ nat e) 1 else binary64 neg c (10 ^ nat (- e)))"

text \<open>\<open>float(text)\<close>; None is its ValueError. An underscore stands between two digits.\<close>

fun underscores_ok :: "bool \<Rightarrow> ustring \<Rightarrow> bool" where
  "underscores_ok after_digit [] = True"
| "underscores_ok after_digit (c # s) =
     (if c = 95 then after_digit \<and> s \<noteq> [] \<and> is_digit (hd s) \<and> underscores_ok False s
      else underscores_ok (is_digit c) s)"

definition float_of_text :: "unicode_db \<Rightarrow> ustring \<Rightarrow> pyfloat option" where
  "float_of_text u s =
     (let a = strip_chars int_space (ascii_number u s);
          t = filter (\<lambda>c. c \<noteq> 95) a;
          neg = (take 1 t = [45]);
          b = lower (if take 1 t = [45] \<or> take 1 t = [43] then drop 1 t else t);
          whole = takeWhile is_digit b; r = dropWhile is_digit b;
          point = (take 1 r = [46]);
          frac = (if point then takeWhile is_digit (drop 1 r) else []);
          r1 = (if point then dropWhile is_digit (drop 1 r) else r);
          eneg = (take 2 r1 = [101, 45]);
          e = (if take 2 r1 = [101, 45] \<or> take 2 r1 = [101, 43] then drop 2 r1 else drop 1 r1);
          m = digits_value (whole @ frac)
      in if \<not> underscores_ok False a then None
         else if b = S ''inf'' \<or> b = S ''infinity'' then Some (Infinite neg)
         else if b = S ''nan'' then Some NotANumber
         else if whole @ frac = [] then None
         else if r1 = [] then Some (float_of_decimal neg m (- int (length frac)))
         else if hd r1 = 101 \<and> all_digits e
           then Some (float_of_decimal neg m ((if eneg then - int (digits_value e) else int (digits_value e)) - int (length frac)))
         else None)"

text \<open>
  \<open>Decimal(repr(x))\<close> of a finite float: among the decimals with the fewest digits that read back
  as \<open>x\<close>, the nearest. Seventeen digits are always enough.
\<close>

definition decimal_exponent :: "nat \<Rightarrow> nat \<Rightarrow> int" where
  \<comment> \<open>the place of the first digit of \<open>a / b\<close>, for \<open>a / b\<close> at least ten to the -400\<close>
  "decimal_exponent a b =
     (if b \<le> a then int (length (dec_nat (a div b))) - 1
      else - int (hd (filter (\<lambda>k. b \<le> a * 10 ^ k) [0..<400])))"

definition shortest_candidates :: "bool \<Rightarrow> nat \<Rightarrow> int \<Rightarrow> nat \<Rightarrow> (nat \<times> int) list" where
  "shortest_candidates neg m q n =
     (let a = (if 0 \<le> q then m * 2 ^ nat q else m); b = (if 0 \<le> q then 1 else 2 ^ nat (- q));
          p = decimal_exponent a b - int n + 1;
          x = (if 0 \<le> p then a else a * 10 ^ nat (- p)); y = (if 0 \<le> p then b * 10 ^ nat p else b);
          low = x div y; near = round_half_even x y; far = (if near = low then low + 1 else low)
      in filter (\<lambda>(c, e). float_of_decimal neg c e = binary64 neg a b) [(near, p), (far, p)])"

fun shortest_from :: "bool \<Rightarrow> nat \<Rightarrow> int \<Rightarrow> nat \<Rightarrow> nat \<Rightarrow> pydecimal" where
  "shortest_from neg m q n 0 = Decimal 0 0"
| "shortest_from neg m q n (Suc k) =
     (case shortest_candidates neg m q n of
        (c, e) # _ \<Rightarrow> Decimal (if neg then - int c else int c) e
      | [] \<Rightarrow> shortest_from neg m q (Suc n) k)"

definition shortest_decimal :: "bool \<Rightarrow> nat \<Rightarrow> int \<Rightarrow> pydecimal" where
  "shortest_decimal neg m q = (if m = 0 then Decimal 0 0 else shortest_from neg m q 1 17)"

text \<open>\<open>int(x)\<close> of a finite float truncates toward zero.\<close>

definition float_trunc :: "bool \<Rightarrow> nat \<Rightarrow> int \<Rightarrow> int" where
  "float_trunc neg m q =
     (let n = int (if 0 \<le> q then m * 2 ^ nat q else m div 2 ^ nat (- q)) in if neg then - n else n)"

section \<open>Instants as numbers\<close>

text \<open>Microseconds from year 1 to the Unix epoch.\<close>

definition unix_epoch_us :: int where "unix_epoch_us = 719162 * us_per_day"

text \<open>\<open>int(d.timestamp())\<close> of an aware datetime: the quotient of two integers as a float, truncated.\<close>

definition timestamp_seconds :: "datetime \<Rightarrow> int" where
  "timestamp_seconds d =
     (let us = instant d - unix_epoch_us
      in case binary64 (us < 0) (nat \<bar>us\<bar>) 1000000 of
           Finite neg m q \<Rightarrow> float_trunc neg m q
         | _ \<Rightarrow> 0)"

end
