(* ===== verification/JsonRead.thy ===== *)
theory JsonRead
  imports Json PyNumber
begin

text \<open>
  \<open>json.loads\<close> on bytes: detection of the encoding, decoding with surrogates passed through, and
  the standard scanner in strict mode. A decoded value is what the source can tell apart of it:
  \<open>bool\<close>, \<open>int\<close>, \<open>float\<close>, \<open>str\<close>, \<open>list\<close>, \<open>dict\<close> or \<open>None\<close>. None as a result stands for the
  ValueError (JSONDecodeError, UnicodeDecodeError) of the decoder; the interpreter's recursion
  limit is not modelled. What \<open>dumps\<close> writes is read back (\<open>loads_dumps\<close>).
\<close>

datatype pyvalue =
    PNone
  | PBool bool
  | PInt int
  | PFloat pyfloat
  | PStr ustring
  | PList "pyvalue list"
  | PDict "(ustring \<times> pyvalue) list"

text \<open>\<open>d.get(k)\<close>, with None for a missing key.\<close>

definition get_value :: "(ustring \<times> pyvalue) list \<Rightarrow> string \<Rightarrow> pyvalue" where
  "get_value d k = (case dict_get d (S k) of Some v \<Rightarrow> v | None \<Rightarrow> PNone)"

section \<open>Bytes to text\<close>

text \<open>The bytes at the front that encode one code point in its shortest form.\<close>

definition utf8_front :: "nat list \<Rightarrow> nat list" where
  "utf8_front s = take (utf8_width (hd s)) s"

definition utf8_valid :: "nat list \<Rightarrow> bool" where
  "utf8_valid us \<longleftrightarrow> length us = utf8_width (hd us) \<and> utf8_value us < 0x110000 \<and> utf8_units (utf8_value us) = us"

fun decode_utf8 :: "nat list \<Rightarrow> ustring option" where
  "decode_utf8 [] = Some []"
| "decode_utf8 (a # s) =
     (if utf8_valid (utf8_front (a # s))
      then map_option ((#) (utf8_value (utf8_front (a # s)))) (decode_utf8 (drop (utf8_width a - 1) s)) else None)"

fun joined :: "nat \<Rightarrow> nat \<Rightarrow> bool" where
  "joined u v \<longleftrightarrow> 0xD800 \<le> u \<and> u < 0xDC00 \<and> 0xDC00 \<le> v \<and> v < 0xE000"

definition join_surrogates :: "nat \<Rightarrow> nat \<Rightarrow> nat" where
  "join_surrogates u v = 0x10000 + (u - 0xD800) * 0x400 + (v - 0xDC00)"

fun decode_utf16 :: "nat list \<Rightarrow> ustring" where
  "decode_utf16 [] = []"
| "decode_utf16 [u] = [u]"
| "decode_utf16 (u # v # s) =
     (if joined u v then join_surrogates u v # decode_utf16 s else u # decode_utf16 (v # s))"

text \<open>Code units of \<open>w\<close> bytes; \<open>big\<close> puts the most significant byte first.\<close>

fun code_units :: "bool \<Rightarrow> nat \<Rightarrow> nat list \<Rightarrow> nat list option" where
  "code_units big w [] = Some []"
| "code_units big w (a # s) =
     (let us = take w (a # s); n = foldl (\<lambda>x b. x * 256 + b) 0 (if big then us else rev us)
      in if length us < w then None else map_option ((#) n) (code_units big w (drop (w - 1) s)))"

definition decode_wide :: "bool \<Rightarrow> nat \<Rightarrow> nat list \<Rightarrow> ustring option" where
  "decode_wide big w bs =
     (case code_units big w bs of
        None \<Rightarrow> None
      | Some us \<Rightarrow> if w = 2 then Some (decode_utf16 us)
                   else if list_all (\<lambda>c. c < 0x110000) us then Some us else None)"

text \<open>\<open>s.decode(detect_encoding(s), 'surrogatepass')\<close>.\<close>

definition json_text :: "bytes \<Rightarrow> ustring option" where
  "json_text bs =
     (let b = map unat bs; n = length b in
      if take 4 b = [0, 0, 0xFE, 0xFF] then decode_wide True 4 (drop 4 b)
      else if take 4 b = [0xFF, 0xFE, 0, 0] then decode_wide False 4 (drop 4 b)
      else if take 2 b = [0xFE, 0xFF] then decode_wide True 2 (drop 2 b)
      else if take 2 b = [0xFF, 0xFE] then decode_wide False 2 (drop 2 b)
      else if take 3 b = [0xEF, 0xBB, 0xBF] then decode_utf8 (drop 3 b)
      else if 4 \<le> n \<and> b ! 0 = 0 then decode_wide True (if b ! 1 \<noteq> 0 then 2 else 4) b
      else if 4 \<le> n \<and> b ! 1 = 0 then decode_wide False (if b ! 2 \<noteq> 0 \<or> b ! 3 \<noteq> 0 then 2 else 4) b
      else if n = 2 \<and> b ! 0 = 0 then decode_wide True 2 b
      else if n = 2 \<and> b ! 1 = 0 then decode_wide False 2 b
      else decode_utf8 b)"

section \<open>Strings\<close>

definition json_ws :: "nat \<Rightarrow> bool" where
  "json_ws c \<longleftrightarrow> c = 32 \<or> c = 9 \<or> c = 10 \<or> c = 13"

definition skip_ws :: "ustring \<Rightarrow> ustring" where
  "skip_ws s = dropWhile json_ws s"

definition hex4 :: "ustring \<Rightarrow> nat option" where
  "hex4 s = (if 4 \<le> length s \<and> list_all is_hex (take 4 s) then Some (hex_text_value (take 4 s)) else None)"

definition simple_escape :: "nat \<Rightarrow> nat option" where
  "simple_escape c =
     (if c = 34 \<or> c = 92 \<or> c = 47 then Some c
      else if c = 98 then Some 8 else if c = 102 then Some 12 else if c = 110 then Some 10
      else if c = 114 then Some 13 else if c = 116 then Some 9 else None)"

definition cons_fst :: "'a \<Rightarrow> ('a list \<times> 'b) option \<Rightarrow> ('a list \<times> 'b) option" where
  "cons_fst x r = map_option (\<lambda>(xs, s). (x # xs, s)) r"

text \<open>The text after an opening quote, up to and without the closing one.\<close>

fun scan_string :: "ustring \<Rightarrow> (ustring \<times> ustring) option" where
  "scan_string [] = None"
| "scan_string (c # s) =
     (if c = 34 then Some ([], s)
      else if c < 32 then None
      else if c \<noteq> 92 then cons_fst c (scan_string s)
      else case s of
          [] \<Rightarrow> None
        | e # t \<Rightarrow>
            if e \<noteq> 117 then
              (case simple_escape e of None \<Rightarrow> None | Some x \<Rightarrow> cons_fst x (scan_string t))
            else
              (case hex4 t of
                 None \<Rightarrow> None
               | Some u \<Rightarrow>
                   (case (if take 2 (drop 4 t) = [92, 117] then hex4 (drop 6 t) else None) of
                      Some v \<Rightarrow> if joined u v then cons_fst (join_surrogates u v) (scan_string (drop 10 t))
                                else cons_fst u (scan_string (drop 4 t))
                    | None \<Rightarrow> cons_fst u (scan_string (drop 4 t)))))"

section \<open>Numbers\<close>

text \<open>\<open>-?(0|[1-9][0-9]*)(\.[0-9]+)?([eE][-+]?[0-9]+)?\<close>: the longest match.\<close>

definition scan_fraction :: "ustring \<Rightarrow> ustring \<times> ustring" where
  "scan_fraction s =
     (case s of c # t \<Rightarrow> if c = 46 \<and> takeWhile is_digit t \<noteq> [] then (takeWhile is_digit t, dropWhile is_digit t) else ([], s)
      | [] \<Rightarrow> ([], s))"

definition scan_exponent :: "ustring \<Rightarrow> (int \<times> ustring) option" where
  "scan_exponent s =
     (case s of
        [] \<Rightarrow> None
      | c # t \<Rightarrow>
          if c \<noteq> 101 \<and> c \<noteq> 69 then None
          else let neg = (take 1 t = [45]);
                   d = (if take 1 t = [45] \<or> take 1 t = [43] then drop 1 t else t);
                   n = takeWhile is_digit d
               in if n = [] then None
                  else Some (if neg then - int (digits_value n) else int (digits_value n), dropWhile is_digit d))"

definition scan_whole :: "ustring \<Rightarrow> ustring" where
  "scan_whole s = (if take 1 s = [48] then [48] else takeWhile is_digit s)"

definition scan_number :: "ustring \<Rightarrow> (pyvalue \<times> ustring) option" where
  "scan_number s =
     (let neg = (take 1 s = [45]);
          t = (if neg then drop 1 s else s);
          whole = scan_whole t;
          r = drop (length whole) t
      in if whole = [] then None
         else case scan_fraction r of (frac, r1) \<Rightarrow>
           (case (frac, scan_exponent r1) of
              ([], None) \<Rightarrow>
                (if int_digits_limit < length whole then None
                 else Some (PInt (if neg then - int (digits_value whole) else int (digits_value whole)), r1))
            | (_, None) \<Rightarrow> Some (PFloat (float_of_decimal neg (digits_value (whole @ frac)) (- int (length frac))), r1)
            | (_, Some (e, r2)) \<Rightarrow>
                Some (PFloat (float_of_decimal neg (digits_value (whole @ frac)) (e - int (length frac))), r2)))"

section \<open>Values\<close>

text \<open>A keyword at the front of the text.\<close>

definition keyword :: "string \<Rightarrow> ustring \<Rightarrow> bool" where
  "keyword k s \<longleftrightarrow> take (length k) s = S k"

text \<open>The constants outside the standard are read, or passed to a \<open>parse_constant\<close> that raises:
  \<open>strict\<close> says which.\<close>

definition scan_constant :: "bool \<Rightarrow> ustring \<Rightarrow> (pyvalue \<times> ustring) option" where
  "scan_constant strict s =
     (if keyword ''null'' s then Some (PNone, drop 4 s)
      else if keyword ''true'' s then Some (PBool True, drop 4 s)
      else if keyword ''false'' s then Some (PBool False, drop 5 s)
      else if keyword ''NaN'' s then (if strict then None else Some (PFloat NotANumber, drop 3 s))
      else if keyword ''Infinity'' s then (if strict then None else Some (PFloat (Infinite False), drop 8 s))
      else if keyword ''-Infinity'' s then (if strict then None else Some (PFloat (Infinite True), drop 9 s))
      else scan_number s)"

text \<open>The fuel bounds the calls; twice the length of the text and two are enough.\<close>

fun scan_value :: "bool \<Rightarrow> nat \<Rightarrow> ustring \<Rightarrow> (pyvalue \<times> ustring) option"
  and scan_elems :: "bool \<Rightarrow> nat \<Rightarrow> pyvalue list \<Rightarrow> ustring \<Rightarrow> (pyvalue \<times> ustring) option"
  and scan_members :: "bool \<Rightarrow> nat \<Rightarrow> (ustring \<times> pyvalue) list \<Rightarrow> ustring \<Rightarrow> (pyvalue \<times> ustring) option"
where
  "scan_value strict 0 s = None"
| "scan_value strict (Suc n) s =
     (case s of
        [] \<Rightarrow> None
      | c # t \<Rightarrow>
          if c = 34 then map_option (\<lambda>(x, r). (PStr x, r)) (scan_string t)
          else if c = 123 then
            (if take 1 (skip_ws t) = [125] then Some (PDict [], drop 1 (skip_ws t))
             else scan_members strict n [] (skip_ws t))
          else if c = 91 then
            (if take 1 (skip_ws t) = [93] then Some (PList [], drop 1 (skip_ws t))
             else scan_elems strict n [] (skip_ws t))
          else scan_constant strict s)"
| "scan_elems strict 0 acc s = None"
| "scan_elems strict (Suc n) acc s =
     (case scan_value strict n s of
        None \<Rightarrow> None
      | Some (v, r) \<Rightarrow>
          (case skip_ws r of
             [] \<Rightarrow> None
           | c # t \<Rightarrow> if c = 93 then Some (PList (acc @ [v]), t)
                      else if c = 44 then scan_elems strict n (acc @ [v]) (skip_ws t) else None))"
| "scan_members strict 0 acc s = None"
| "scan_members strict (Suc n) acc s =
     (if take 1 s \<noteq> [34] then None
      else case scan_string (drop 1 s) of
        None \<Rightarrow> None
      | Some (k, r) \<Rightarrow>
          (if take 1 (skip_ws r) \<noteq> [58] then None
           else case scan_value strict n (skip_ws (drop 1 (skip_ws r))) of
             None \<Rightarrow> None
           | Some (v, r1) \<Rightarrow>
               (case skip_ws r1 of
                  [] \<Rightarrow> None
                | c # t \<Rightarrow> if c = 125 then Some (PDict (dict_set k v acc), t)
                           else if c = 44 then scan_members strict n (dict_set k v acc) (skip_ws t) else None)))"

definition json_loads :: "bool \<Rightarrow> bytes \<Rightarrow> pyvalue option" where
  "json_loads strict bs =
     (case json_text bs of
        None \<Rightarrow> None
      | Some s \<Rightarrow>
          (case scan_value strict (2 * length s + 2) (skip_ws s) of
             None \<Rightarrow> None
           | Some (v, r) \<Rightarrow> if skip_ws r = [] then Some v else None))"

text \<open>\<open>json.loads\<close> of a text that is decoded already.\<close>

definition loads_text :: "ustring \<Rightarrow> pyvalue option" where
  "loads_text s =
     (case scan_value False (2 * length s + 2) (skip_ws s) of
        None \<Rightarrow> None
      | Some (v, r) \<Rightarrow> if skip_ws r = [] then Some v else None)"

section \<open>Reading back what was written\<close>

lemma hex4_fix: "c < 16 ^ 4 \<Longrightarrow> hex4 (hex_fix 4 c @ s) = Some c"
proof -
  assume c: "c < 16 ^ 4"
  have "list_all is_hex (hex_fix 4 c)"
    using fix_digits_less [of 16 _ 4 c] by (auto simp: hex_fix_def list_all_iff hex_digit_char)
  with hex_text_value_fix [OF c] show ?thesis by (simp add: hex4_def)
qed

lemma cons_fst_Some [simp]: "cons_fst x (Some (xs, s)) = Some (x # xs, s)"
  by (simp add: cons_fst_def)

lemma scan_escaped: "scan_string (escape_cp c @ s) = cons_fst c (scan_string s)"
proof (cases "c < 32 \<and> c \<notin> {8, 12, 10, 13, 9}")
  case True
  then have esc: "escape_cp c = 92 # 117 # hex_fix 4 c" by (auto simp: escape_cp_def)
  have h: "hex4 (hex_fix 4 c @ s) = Some c" using True by (intro hex4_fix) simp
  show ?thesis using True by (simp add: esc h split: option.split)
next
  case False
  then have "32 \<le> c \<and> c \<noteq> 34 \<and> c \<noteq> 92 \<or> c \<in> {34, 92, 8, 12, 10, 13, 9}" by auto
  then consider "32 \<le> c" "c \<noteq> 34" "c \<noteq> 92" | "c \<in> {34, 92, 8, 12, 10, 13, 9}" by blast
  then show ?thesis
    by cases (auto simp: escape_cp_def simple_escape_def)
qed

lemma scan_string_quoted: "scan_string (concat (map escape_cp s) @ 34 # r) = Some (s, r)"
  by (induction s) (simp_all add: scan_escaped)

text \<open>What may follow a number: not a digit, a point or an exponent.\<close>

definition number_end :: "ustring \<Rightarrow> bool" where
  "number_end s \<longleftrightarrow> (case s of [] \<Rightarrow> True | c # _ \<Rightarrow> \<not> is_digit c \<and> c \<noteq> 46 \<and> c \<noteq> 101 \<and> c \<noteq> 69)"

lemma number_end_simps [simp]:
  "number_end []" "number_end (c # s) \<longleftrightarrow> \<not> is_digit c \<and> c \<noteq> 46 \<and> c \<noteq> 101 \<and> c \<noteq> 69"
  by (simp_all add: number_end_def)

lemma digits_end:
  assumes "number_end s" "list_all is_digit d"
  shows "takeWhile is_digit (d @ s) = d" "dropWhile is_digit (d @ s) = s"
  using assms by (induction d) (auto simp: number_end_def split: list.splits)

lemma dec_nat_zero_hd: "hd (dec_nat n) = 48 \<longleftrightarrow> n = 0"
proof (induction n rule: dec_nat.induct)
  case (1 n)
  show ?case
  proof (cases "n < 10")
    case True
    then show ?thesis by (simp add: dec_nat.simps [of n])
  next
    case False
    then have "hd (dec_nat n) = hd (dec_nat (n div 10))" by (simp add: dec_nat.simps [of n])
    with 1 False show ?thesis by simp
  qed
qed

lemma dec_nat_zero: "dec_nat 0 = [48]"
  by (simp add: dec_nat.simps [of 0])

lemma scan_number_nat:
  assumes "number_end s" "length (dec_nat n) \<le> int_digits_limit" "hd (sign @ dec_nat n @ s) \<noteq> 45 \<or> sign = [45]"
    and "sign = [] \<or> sign = [45]"
  shows "scan_number (sign @ dec_nat n @ s) = Some (PInt (if sign = [] then int n else - int n), s)"
proof -
  have d: "list_all is_digit (dec_nat n)" using all_digits_dec by (simp add: all_digits_def)
  have neg: "take 1 (sign @ dec_nat n @ s) = [45] \<longleftrightarrow> sign = [45]"
    using assms(3,4) by (cases "dec_nat n") auto
  have w: "scan_whole (dec_nat n @ s) = dec_nat n"
    using digits_end(1) [OF assms(1) d] dec_nat_zero_hd [of n] dec_nat_zero
    by (cases "dec_nat n") (auto simp: scan_whole_def)
  have f: "scan_fraction s = ([], s)" "scan_exponent s = None"
    using assms(1) by (cases s; simp add: scan_fraction_def scan_exponent_def)+
  show ?thesis
    using assms(2,4) neg w f by (auto simp: scan_number_def Let_def)
qed

lemma scan_number_int:
  assumes "number_end s" "length (dec_nat (nat \<bar>i\<bar>)) \<le> int_digits_limit"
  shows "scan_number (dec_int i @ s) = Some (PInt i, s)"
proof -
  have "hd (dec_nat n @ t) \<noteq> 45" for n t
    using dec_nat_hd [of n] by (auto simp: is_digit_def)
  then show ?thesis
    using assms scan_number_nat [of s "nat i" "[]"] scan_number_nat [of s "nat (- i)" "[45]"]
    by (auto simp: dec_int_def)
qed

lemma keyword_hd: "keyword (c # k) s \<Longrightarrow> \<exists>t. s = of_char c # t"
  by (cases s) (auto simp: keyword_def S_def)

text \<open>Values that the scanner reads back: distinct member names, no integer beyond the limit.\<close>

fun json_readable :: "json \<Rightarrow> bool" where
  "json_readable (JInt i) \<longleftrightarrow> length (dec_nat (nat \<bar>i\<bar>)) \<le> int_digits_limit"
| "json_readable (JArr vs) \<longleftrightarrow> (\<forall>v \<in> set vs. json_readable v)"
| "json_readable (JObj ms) \<longleftrightarrow> distinct (map fst ms) \<and> (\<forall>(k, v) \<in> set ms. json_readable v)"
| "json_readable _ \<longleftrightarrow> True"

fun py_of_json :: "json \<Rightarrow> pyvalue" where
  "py_of_json JNull = PNone"
| "py_of_json (JBool b) = PBool b"
| "py_of_json (JInt i) = PInt i"
| "py_of_json (JStr s) = PStr s"
| "py_of_json (JArr vs) = PList (map py_of_json vs)"
| "py_of_json (JObj ms) = PDict (map (\<lambda>(k, v). (k, py_of_json v)) ms)"

lemma dict_set_new: "k \<notin> fst ` set d \<Longrightarrow> dict_set k v d = d @ [(k, v)]"
  by (induction d) (auto simp: dict_set_def)

lemma scan_constant_int:
  assumes "number_end s" "length (dec_nat (nat \<bar>i\<bar>)) \<le> int_digits_limit"
  shows "scan_constant strict (dec_int i @ s) = Some (PInt i, s)"
proof -
  obtain c t where c: "dec_int i @ s = c # t" "c = 45 \<or> is_digit c" "c = 45 \<Longrightarrow> t \<noteq> [] \<and> is_digit (hd t)"
  proof (cases "i < 0")
    case True
    obtain h r where "dec_nat (nat (- i)) = h # r" "is_digit h" using dec_nat_hd by blast
    with True that [of 45 "h # r @ s"] show ?thesis by (simp add: dec_int_def)
  next
    case False
    obtain h r where "dec_nat (nat i) = h # r" "is_digit h" using dec_nat_hd by blast
    with False that [of h "r @ s"] show ?thesis by (auto simp: dec_int_def is_digit_def)
  qed
  have k: "\<not> keyword ''null'' (c # t)" "\<not> keyword ''true'' (c # t)" "\<not> keyword ''false'' (c # t)"
    "\<not> keyword ''NaN'' (c # t)" "\<not> keyword ''Infinity'' (c # t)" "\<not> keyword ''-Infinity'' (c # t)"
    using c(2,3) by (cases t; auto simp: keyword_def S_def is_digit_def)+
  with scan_number_int [OF assms] c(1) show ?thesis by (simp add: scan_constant_def)
qed

lemma skip_ws_simps [simp]: "skip_ws [] = []" "skip_ws (c # s) = (if json_ws c then skip_ws s else c # s)"
  by (simp_all add: skip_ws_def)

lemma print_json_skip: "skip_ws (print_json v @ s) = print_json v @ s"
proof (rule print_json_hd [of v])
  fix c t assume "print_json v = c # t" "json_head v c"
  then show ?thesis by (cases v) (auto simp: json_ws_def is_digit_def split: if_splits)
qed

lemma print_json_nonempty: "0 < length (print_json v)"
  by (rule print_json_hd [of v]) simp

lemma foldl_dict_set:
  "distinct (map fst d @ map fst ms) \<Longrightarrow>
   foldl (\<lambda>d (k, v). dict_set k (f v) d) d ms = d @ map (\<lambda>(k, v). (k, f v)) ms"
proof (induction ms arbitrary: d)
  case (Cons m ms)
  obtain k v where m: "m = (k, v)" by (cases m)
  have "dict_set k (f v) d = d @ [(k, f v)]" using Cons.prems m by (intro dict_set_new) auto
  with Cons m show ?case by simp
qed simp

abbreviation put_member :: "(ustring \<times> pyvalue) list \<Rightarrow> ustring \<times> json \<Rightarrow> (ustring \<times> pyvalue) list" where
  "put_member d \<equiv> \<lambda>(k, v). dict_set k (py_of_json v) d"

lemma scan_printed:
  "json_readable v \<Longrightarrow> number_end s \<Longrightarrow> 2 * length (print_json v) \<le> n \<Longrightarrow>
     scan_value strict n (print_json v @ s) = Some (py_of_json v, s)"
  "\<forall>v \<in> set vs. json_readable v \<Longrightarrow> vs \<noteq> [] \<Longrightarrow> 2 * length (print_elems vs) < n \<Longrightarrow>
     scan_elems strict n acc (print_elems vs @ 93 # s) = Some (PList (acc @ map py_of_json vs), s)"
  "\<forall>(k, v) \<in> set ms. json_readable v \<Longrightarrow> ms \<noteq> [] \<Longrightarrow> 2 * length (print_members ms) < n \<Longrightarrow>
     scan_members strict n d (print_members ms @ 125 # s) = Some (PDict (foldl put_member d ms), s)"
proof (induction v and vs and ms arbitrary: n s and n s acc and n s d
    rule: print_json_print_elems_print_members.induct)
  case 1
  then obtain k where "n = Suc k" by (cases n) (auto simp: S_def)
  then show ?case by (simp add: S_def scan_constant_def keyword_def)
next
  case (2 b)
  then obtain k where "n = Suc k" by (cases n) (auto simp: S_def split: if_splits)
  then show ?case by (simp add: S_def scan_constant_def keyword_def)
next
  case (3 i)
  obtain h r where h: "dec_int i = h # r" "h = 45 \<or> is_digit h" using dec_int_hd [of i] by blast
  then obtain k where k: "n = Suc k" using 3 by (cases n) auto
  have "scan_constant strict (h # r @ s) = Some (PInt i, s)"
    using scan_constant_int [of s i strict] 3 h by simp
  then show ?case using h k by (auto simp: is_digit_def)
next
  case (4 x)
  then obtain k where "n = Suc k" by (cases n) (auto simp: quote_def)
  then show ?case by (simp add: quote_def scan_string_quoted)
next
  case (5 vs)
  then obtain k where k: "n = Suc k" by (cases n) auto
  show ?case
  proof (cases vs)
    case Nil
    with k show ?thesis by (simp add: json_ws_def)
  next
    case (Cons v us)
    obtain h r where "print_json v = h # r" "json_head v h" by (rule print_json_hd)
    with Cons obtain t where h: "print_elems vs = h # t" "json_head v h" by (cases us) simp_all
    have "\<not> json_ws h" "h \<noteq> 93" using h(2) by (cases v; auto simp: json_ws_def is_digit_def split: if_splits)+
    with h 5(1) [of k "[]" s] 5(2-) k Cons show ?thesis by simp
  qed
next
  case (6 ms)
  then obtain k where k: "n = Suc k" by (cases n) auto
  show ?case
  proof (cases ms)
    case Nil
    with k show ?thesis by (simp add: json_ws_def)
  next
    case (Cons m ns)
    then obtain t where h: "print_members ms = 34 # t"
      by (cases m; cases ns; simp add: quote_def)
    have "foldl put_member [] ms = map (\<lambda>(k, v). (k, py_of_json v)) ms"
      using 6 foldl_dict_set [of "[]" ms py_of_json] by simp
    with h 6(1) [of k "[]" s] 6(2-) k Cons show ?thesis by (simp add: json_ws_def)
  qed
next
  case 7
  then show ?case by simp
next
  case (8 v)
  then obtain k where k: "n = Suc k" by (cases n) auto
  have "scan_value strict k (print_json v @ 93 # s) = Some (py_of_json v, 93 # s)"
    using 8 k by (intro 8(1)) (auto simp: is_digit_def)
  with k show ?case by (simp add: json_ws_def)
next
  case (9 v u us)
  then obtain k where k: "n = Suc k" by (cases n) auto
  have a: "scan_value strict k (print_json v @ 44 # print_elems (u # us) @ 93 # s)
    = Some (py_of_json v, 44 # print_elems (u # us) @ 93 # s)"
    using 9(3-) k by (intro 9(1)) (auto simp: is_digit_def)
  have b: "scan_elems strict k (acc @ [py_of_json v]) (print_elems (u # us) @ 93 # s)
    = Some (PList ((acc @ [py_of_json v]) @ map py_of_json (u # us)), s)"
    using 9(3-) k by (intro 9(2)) auto
  have c: "skip_ws (print_elems (u # us) @ 93 # s) = print_elems (u # us) @ 93 # s"
    using print_json_skip [of u "93 # s"] print_json_skip [of u "44 # print_elems (tl us @ []) @ 93 # s"]
    by (cases us) (simp_all add: print_json_skip)
  from a b c k show ?case by (simp add: json_ws_def)
next
  case 10
  then show ?case by simp
next
  case (11 k v)
  then obtain j where j: "n = Suc j" by (cases n) auto
  have "scan_value strict j (print_json v @ 125 # s) = Some (py_of_json v, 125 # s)"
    using 11 j by (intro 11(1)) (auto simp: is_digit_def)
  with j show ?case by (simp add: json_ws_def quote_def scan_string_quoted print_json_skip)
next
  case (12 k v m ms)
  then obtain j where j: "n = Suc j" by (cases n) auto
  have a: "scan_value strict j (print_json v @ 44 # print_members (m # ms) @ 125 # s)
    = Some (py_of_json v, 44 # print_members (m # ms) @ 125 # s)"
    using 12(3-) j by (intro 12(1)) (auto simp: is_digit_def)
  have b: "scan_members strict j (dict_set k (py_of_json v) d) (print_members (m # ms) @ 125 # s)
    = Some (PDict (foldl put_member (dict_set k (py_of_json v) d) (m # ms)), s)"
    using 12(3-) j by (intro 12(2)) auto
  have c: "skip_ws (print_members (m # ms) @ 125 # s) = print_members (m # ms) @ 125 # s"
    by (cases m; cases ms) (simp_all add: quote_def json_ws_def)
  from a b c j show ?case
    by (simp add: json_ws_def quote_def scan_string_quoted print_json_skip)
qed

section \<open>Bytes\<close>

lemma decode_utf8_units: "list_all (\<lambda>c. c < 0x110000) s \<Longrightarrow> decode_utf8 (concat (map utf8_units s)) = Some s"
proof (induction s)
  case (Cons c s)
  then have c: "c < 0x110000" by simp
  obtain a t where u: "utf8_units c = a # t" using utf8_units_not_Nil [of c] by (cases "utf8_units c") auto
  have w: "utf8_width a = Suc (length t)" using utf8_width_units [OF c] u by simp
  have v: "utf8_value (a # t) = c" using utf8_value_units [OF c, of "[]"] u by simp
  have f: "utf8_front (a # t @ r) = a # t" for r by (simp add: utf8_front_def w)
  show ?case using Cons f v w c u by (simp add: utf8_valid_def)
qed simp

lemma utf8_units_pos: "0 < c \<Longrightarrow> u \<in> set (utf8_units c) \<Longrightarrow> 0 < u"
  by (auto simp: utf8_units_def split: if_splits)

lemma json_text_plain:
  assumes "map unat bs = c # t" "c < 128" "\<forall>x \<in> set (c # t). 0 < x"
  shows "json_text bs = decode_utf8 (c # t)"
proof -
  have "c \<noteq> 0" "t \<noteq> [] \<Longrightarrow> t ! 0 \<noteq> 0" using assms(3) by (cases t; auto)+
  then show ?thesis
    using assms(2) unfolding json_text_def Let_def assms(1) by (cases t) auto
qed

lemma json_text_utf8:
  assumes "list_all encodable (c # s)" "c < 128" "\<forall>x \<in> set (c # s). 0 < x"
  shows "json_text (utf8_bytes (c # s)) = Some (c # s)"
proof -
  let ?b = "concat (map utf8_units (c # s))"
  have less: "\<forall>x \<in> set (c # s). x < 0x110000" using assms(1) by (auto simp: list_all_iff dest: encodable_less)
  have bound: "\<forall>u \<in> set ?b. u < 256" using less by (fastforce dest: utf8_units_bound)
  have "map (unat \<circ> (of_nat :: nat \<Rightarrow> byte)) ?b = ?b"
    by (rule map_idI) (use bound in \<open>simp add: unat_of_nat\<close>)
  then have b: "map unat (utf8_bytes (c # s)) = ?b"
    unfolding utf8_bytes_def map_map .
  have one: "?b = c # concat (map utf8_units s)" using assms(2) by (simp add: utf8_units_def)
  have "\<forall>u \<in> set ?b. 0 < u" using assms(3) by (fastforce dest: utf8_units_pos)
  then have "json_text (utf8_bytes (c # s)) = decode_utf8 ?b"
    using b assms(2) unfolding one by (intro json_text_plain)
  also have "\<dots> = Some (c # s)" using less by (intro decode_utf8_units) (simp add: list_all_iff)
  finally show ?thesis .
qed

lemma escape_pos: "x \<in> set (escape_cp c) \<Longrightarrow> 0 < x"
  by (auto simp: escape_cp_def hex_fix_def hex_char_def split: if_splits)

lemma print_json_pos:
  "x \<in> set (print_json v) \<Longrightarrow> 0 < x"
  "x \<in> set (print_elems vs) \<Longrightarrow> 0 < x"
  "x \<in> set (print_members ms) \<Longrightarrow> 0 < x"
proof (induction v and vs and ms rule: print_json_print_elems_print_members.induct)
  case (3 i)
  then show ?case using dec_nat_digits by (fastforce simp: dec_int_def is_digit_def split: if_splits)
qed (auto simp: S_def quote_def dest: escape_pos split: if_splits)

lemma loads_print:
  assumes "json_readable v" "list_all encodable (print_json v)"
  shows "json_loads strict (utf8_bytes (print_json v)) = Some (py_of_json v)"
proof (rule print_json_hd [of v])
  fix h r assume h: "print_json v = h # r" "json_head v h"
  have "h < 128" using h(2) by (cases v) (auto simp: is_digit_def split: if_splits)
  then have "json_text (utf8_bytes (print_json v)) = Some (print_json v)"
    using json_text_utf8 [of h r] assms(2) h(1) print_json_pos(1) [of _ v] by auto
  then show ?thesis
    using scan_printed(1) [of v "[]" "2 * length (print_json v) + 2" strict] print_json_skip [of v "[]"] assms(1)
    by (simp add: json_loads_def)
qed

lemma loads_printed: "json_readable v \<Longrightarrow> loads_text (print_json v) = Some (py_of_json v)"
  using scan_printed(1) [of v "[]" "2 * length (print_json v) + 2" False] print_json_skip [of v "[]"]
  by (simp add: loads_text_def)

end
