(* ===== verification/SplunkModels.thy ===== *)
theory SplunkModels
  imports Domain JsonRead
begin

text \<open>
  \<open>adapters/splunk/models.py\<close>: the bounded values of the Splunk boundary. A model is validated
  from a decoded JSON value by \<open>validate_*\<close>: the declared types, lengths, aliases and treatment
  of extra members, and the validators that the file adds. Every failure is pydantic's
  ValidationError, a ValueError.
\<close>

section \<open>Bounds\<close>

definition splunk_finding_schema :: ustring where
  "splunk_finding_schema = S ''alert2ir.splunk-finding.v1''"

definition rule_title_max_length :: nat where "rule_title_max_length = 256"
definition hostname_max_length :: nat where "hostname_max_length = 255"
definition channel_max_length :: nat where "channel_max_length = 128"
definition source_max_length :: nat where "source_max_length = 512"
definition sourcetype_max_length :: nat where "sourcetype_max_length = 128"
definition process_guid_max_length :: nat where "process_guid_max_length = 128"
definition image_max_length :: nat where "image_max_length = 1024"
definition parent_image_max_length :: nat where "parent_image_max_length = 1024"
definition target_filename_max_length :: nat where "target_filename_max_length = 1024"
definition timestamp_string_max_length :: nat where "timestamp_string_max_length = 64"
definition evidence_reference_max_length :: nat where "evidence_reference_max_length = 1024"
definition event_code_maximum :: int where "event_code_maximum = 65535"
definition record_id_maximum :: int where "record_id_maximum = 2 ^ 63 - 1"

lemmas splunk_bounds =
  rule_title_max_length_def hostname_max_length_def channel_max_length_def source_max_length_def
  sourcetype_max_length_def process_guid_max_length_def image_max_length_def parent_image_max_length_def
  target_filename_max_length_def timestamp_string_max_length_def evidence_reference_max_length_def
  event_code_maximum_def record_id_maximum_def

section \<open>Values\<close>

datatype sigma_level = SIGMA_INFORMATIONAL | SIGMA_LOW | SIGMA_MEDIUM | SIGMA_HIGH | SIGMA_CRITICAL

fun sigma_level_value :: "sigma_level \<Rightarrow> ustring" where
  "sigma_level_value SIGMA_INFORMATIONAL = S ''informational''"
| "sigma_level_value SIGMA_LOW = S ''low''"
| "sigma_level_value SIGMA_MEDIUM = S ''medium''"
| "sigma_level_value SIGMA_HIGH = S ''high''"
| "sigma_level_value SIGMA_CRITICAL = S ''critical''"

definition sigma_levels :: "sigma_level list" where
  "sigma_levels = [SIGMA_INFORMATIONAL, SIGMA_LOW, SIGMA_MEDIUM, SIGMA_HIGH, SIGMA_CRITICAL]"

datatype timestamp_input =
    TS_str ustring
  | TS_int int
  | TS_float pyfloat
  | TS_datetime datetime

record splunk_detection_metadata =
  sd_rule_id :: ustring
  sd_rule_title :: ustring
  sd_sigma_level :: sigma_level

record splunk_event =
  se_detected_at :: timestamp_input
  se_computer :: "ustring option"
  se_host :: "ustring option"
  se_channel :: ustring
  se_source :: "ustring option"
  se_sourcetype :: "ustring option"
  se_event_code :: int
  se_record_id :: int
  se_process_guid :: "ustring option"
  se_image :: "ustring option"
  se_parent_image :: "ustring option"
  se_target_filename :: "ustring option"

record splunk_finding =
  sf_detection :: splunk_detection_metadata
  sf_event :: splunk_event

record normalized_splunk_finding =
  ns_rule_id :: ustring
  ns_rule_title :: ustring
  ns_sigma_level :: sigma_level
  ns_detected_at :: datetime
  ns_computer :: ustring
  ns_channel :: ustring
  ns_event_code :: int
  ns_record_id :: int
  ns_source :: "ustring option"
  ns_sourcetype :: "ustring option"
  ns_process_guid :: "ustring option"
  ns_image :: "ustring option"
  ns_parent_image :: "ustring option"
  ns_target_filename :: "ustring option"

record canonicalized_splunk_finding =
  cz_alert :: canonical_alert
  cz_idempotency_key :: ustring

section \<open>Validators\<close>

definition require_nonblank :: "ustring \<Rightarrow> exn + ustring" where
  "require_nonblank v = (if strip v = [] then Inl ValueError else Inr v)"

lemma require_nonblank_Inr [simp]: "require_nonblank v = Inr w \<longleftrightarrow> nonblank v \<and> w = v"
  by (auto simp: require_nonblank_def nonblank_def)

fun parse_positive_integer :: "pyvalue \<Rightarrow> int \<Rightarrow> exn + int" where
  "parse_positive_integer (PStr s) maximum =
     (if \<not> all_digits s \<or> int_digits_limit < length s then Inl ValueError
      else if int (digits_value s) < 1 \<or> maximum < int (digits_value s) then Inl ValueError
      else Inr (int (digits_value s)))"
| "parse_positive_integer (PInt i) maximum = (if i < 1 \<or> maximum < i then Inl ValueError else Inr i)"
| "parse_positive_integer _ maximum = Inl ValueError"

text \<open>\<open>StrictStr\<close> of a length from 1 to \<open>n\<close>; pydantic refuses text that is not valid Unicode.\<close>

fun bounded_str :: "nat \<Rightarrow> pyvalue \<Rightarrow> exn + ustring" where
  "bounded_str n (PStr s) = (if 1 \<le> length s \<and> length s \<le> n \<and> list_all encodable s then Inr s else Inl ValueError)"
| "bounded_str n _ = Inl ValueError"

text \<open>A required member, and an optional string member that is not blank.\<close>

definition required :: "pyvalue option \<Rightarrow> (pyvalue \<Rightarrow> exn + 'a) \<Rightarrow> exn + 'a" where
  "required v f = (case v of None \<Rightarrow> Inl ValueError | Some x \<Rightarrow> f x)"

definition optional_str :: "nat \<Rightarrow> pyvalue option \<Rightarrow> exn + ustring option" where
  "optional_str n v =
     (case v of
        None \<Rightarrow> Inr None
      | Some PNone \<Rightarrow> Inr None
      | Some x \<Rightarrow> and_then (bounded_str n x) (\<lambda>s. and_then (require_nonblank s) (\<lambda>t. Inr (Some t))))"

definition member_names :: "(ustring \<times> pyvalue) list \<Rightarrow> string list \<Rightarrow> bool" where
  \<comment> \<open>\<open>extra="forbid"\<close>\<close>
  "member_names d ks \<longleftrightarrow> list_all (\<lambda>(k, v). k \<in> set (map S ks)) d"

fun validate_rule_id :: "unicode_db \<Rightarrow> pyvalue \<Rightarrow> exn + ustring" where
  "validate_rule_id u (PStr s) = (case uuid_of_text u s of Some x \<Rightarrow> Inr (uuid_str x) | None \<Rightarrow> Inl ValueError)"
| "validate_rule_id u _ = Inl ValueError"

fun validate_sigma_level :: "pyvalue \<Rightarrow> exn + sigma_level" where
  "validate_sigma_level (PStr s) =
     (case filter (\<lambda>l. sigma_level_value l = s) sigma_levels of l # _ \<Rightarrow> Inr l | [] \<Rightarrow> Inl ValueError)"
| "validate_sigma_level _ = Inl ValueError"

fun validate_detection_metadata :: "unicode_db \<Rightarrow> pyvalue \<Rightarrow> exn + splunk_detection_metadata" where
  "validate_detection_metadata u (PDict d) =
     (if \<not> member_names d [''rule_id'', ''rule_title'', ''sigma_level''] then Inl ValueError
      else and_then (required (dict_get d (S ''rule_id'')) (validate_rule_id u)) (\<lambda>rule_id.
           and_then (required (dict_get d (S ''rule_title''))
             (\<lambda>v. and_then (bounded_str rule_title_max_length v) require_nonblank)) (\<lambda>rule_title.
           and_then (required (dict_get d (S ''sigma_level'')) validate_sigma_level) (\<lambda>level.
           Inr \<lparr>sd_rule_id = rule_id, sd_rule_title = rule_title, sd_sigma_level = level\<rparr>))))"
| "validate_detection_metadata u _ = Inl ValueError"

fun validate_timestamp_shape :: "pyvalue \<Rightarrow> exn + timestamp_input" where
  "validate_timestamp_shape (PStr s) =
     (if timestamp_string_max_length < length s then Inl ValueError else Inr (TS_str s))"
| "validate_timestamp_shape (PInt i) = Inr (TS_int i)"
| "validate_timestamp_shape (PFloat x) = Inr (TS_float x)"
| "validate_timestamp_shape _ = Inl ValueError"

definition validate_channel :: "unicode_db \<Rightarrow> ustring \<Rightarrow> exn + ustring" where
  "validate_channel u v = (if v \<noteq> strip v \<or> \<not> is_ascii v \<or> \<not> isprintable u v then Inl ValueError else Inr v)"

text \<open>A member under its alias or else, with \<open>populate_by_name\<close>, under the field's name.\<close>

definition event_member :: "(ustring \<times> pyvalue) list \<Rightarrow> string \<Rightarrow> string \<Rightarrow> pyvalue option" where
  "event_member d al name = (case dict_get d (S al) of Some v \<Rightarrow> Some v | None \<Rightarrow> dict_get d (S name))"

definition event_hostname_present :: "splunk_event \<Rightarrow> exn + splunk_event" where
  "event_hostname_present ev = (if se_computer ev = None \<and> se_host ev = None then Inl ValueError else Inr ev)"

fun validate_event :: "unicode_db \<Rightarrow> pyvalue \<Rightarrow> exn + splunk_event" where
  "validate_event u (PDict d) =
     and_then (required (event_member d ''_time'' ''detected_at'') validate_timestamp_shape) (\<lambda>detected_at.
     and_then (optional_str hostname_max_length (event_member d ''Computer'' ''computer'')) (\<lambda>computer.
     and_then (optional_str hostname_max_length (dict_get d (S ''host''))) (\<lambda>host.
     and_then (required (dict_get d (S ''channel''))
       (\<lambda>v. and_then (bounded_str channel_max_length v) (\<lambda>s. and_then (require_nonblank s) (validate_channel u)))) (\<lambda>channel.
     and_then (optional_str source_max_length (dict_get d (S ''source''))) (\<lambda>source.
     and_then (optional_str sourcetype_max_length (dict_get d (S ''sourcetype''))) (\<lambda>sourcetype.
     and_then (required (event_member d ''EventCode'' ''event_code'') (\<lambda>v. parse_positive_integer v event_code_maximum)) (\<lambda>event_code.
     and_then (required (event_member d ''RecordID'' ''record_id'') (\<lambda>v. parse_positive_integer v record_id_maximum)) (\<lambda>record_id.
     and_then (optional_str process_guid_max_length (event_member d ''ProcessGuid'' ''process_guid'')) (\<lambda>process_guid.
     and_then (optional_str image_max_length (event_member d ''Image'' ''image'')) (\<lambda>image.
     and_then (optional_str parent_image_max_length (event_member d ''ParentImage'' ''parent_image'')) (\<lambda>parent_image.
     and_then (optional_str target_filename_max_length (event_member d ''TargetFilename'' ''target_filename'')) (\<lambda>target_filename.
     event_hostname_present
       \<lparr>se_detected_at = detected_at, se_computer = computer, se_host = host, se_channel = channel, se_source = source,
        se_sourcetype = sourcetype, se_event_code = event_code, se_record_id = record_id,
        se_process_guid = process_guid, se_image = image, se_parent_image = parent_image,
        se_target_filename = target_filename\<rparr>))))))))))))"
| "validate_event u _ = Inl ValueError"

fun validate_finding :: "unicode_db \<Rightarrow> pyvalue \<Rightarrow> exn + splunk_finding" where
  "validate_finding u (PDict d) =
     (if \<not> member_names d [''schema'', ''detection'', ''event''] then Inl ValueError
      else if dict_get d (S ''schema'') \<noteq> Some (PStr splunk_finding_schema) then Inl ValueError
      else and_then (required (dict_get d (S ''detection'')) (validate_detection_metadata u)) (\<lambda>detection.
           and_then (required (dict_get d (S ''event'')) (validate_event u)) (\<lambda>event.
           Inr \<lparr>sf_detection = detection, sf_event = event\<rparr>)))"
| "validate_finding u _ = Inl ValueError"

section \<open>What a validated finding guarantees\<close>

definition optional_ok :: "nat \<Rightarrow> ustring option \<Rightarrow> bool" where
  "optional_ok n v \<longleftrightarrow>
     (case v of None \<Rightarrow> True | Some s \<Rightarrow> nonblank s \<and> length s \<le> n \<and> list_all encodable s)"

definition event_ok :: "unicode_db \<Rightarrow> splunk_event \<Rightarrow> bool" where
  "event_ok u ev \<longleftrightarrow>
     (case se_detected_at ev of TS_str s \<Rightarrow> length s \<le> timestamp_string_max_length | TS_datetime _ \<Rightarrow> False | _ \<Rightarrow> True)
     \<and> optional_ok hostname_max_length (se_computer ev) \<and> optional_ok hostname_max_length (se_host ev)
     \<and> (se_computer ev \<noteq> None \<or> se_host ev \<noteq> None)
     \<and> nonblank (se_channel ev) \<and> length (se_channel ev) \<le> channel_max_length \<and> is_ascii (se_channel ev)
     \<and> isprintable u (se_channel ev)
     \<and> 1 \<le> se_event_code ev \<and> se_event_code ev \<le> event_code_maximum
     \<and> 1 \<le> se_record_id ev \<and> se_record_id ev \<le> record_id_maximum
     \<and> optional_ok source_max_length (se_source ev) \<and> optional_ok sourcetype_max_length (se_sourcetype ev)
     \<and> optional_ok process_guid_max_length (se_process_guid ev) \<and> optional_ok image_max_length (se_image ev)
     \<and> optional_ok parent_image_max_length (se_parent_image ev)
     \<and> optional_ok target_filename_max_length (se_target_filename ev)"

definition metadata_ok :: "splunk_detection_metadata \<Rightarrow> bool" where
  "metadata_ok m \<longleftrightarrow> (\<exists>x. sd_rule_id m = uuid_str x) \<and> nonblank (sd_rule_title m)
     \<and> length (sd_rule_title m) \<le> rule_title_max_length \<and> list_all encodable (sd_rule_title m)"

definition finding_ok :: "unicode_db \<Rightarrow> splunk_finding \<Rightarrow> bool" where
  "finding_ok u f \<longleftrightarrow> metadata_ok (sf_detection f) \<and> event_ok u (sf_event f)"

lemma bounded_str_Inr:
  "bounded_str n v = Inr s \<longleftrightarrow> v = PStr s \<and> 1 \<le> length s \<and> length s \<le> n \<and> list_all encodable s"
  by (cases v) auto

lemma required_Inr: "required v f = Inr x \<longleftrightarrow> (\<exists>y. v = Some y \<and> f y = Inr x)"
  by (auto simp: required_def split: option.splits)

lemma optional_str_ok: "optional_str n v = Inr s \<Longrightarrow> optional_ok n s"
  by (auto simp: optional_str_def optional_ok_def and_then_Inr bounded_str_Inr split: option.splits pyvalue.splits if_splits)

lemma parse_positive_bounds: "parse_positive_integer v m = Inr i \<Longrightarrow> 1 \<le> i \<and> i \<le> m"
  by (cases v) (auto split: if_splits)

lemma validate_metadata_ok: "validate_detection_metadata u v = Inr m \<Longrightarrow> metadata_ok m"
proof (cases v)
  case (PDict d)
  assume "validate_detection_metadata u v = Inr m"
  with PDict obtain i t l a where p: "m = \<lparr>sd_rule_id = i, sd_rule_title = t, sd_sigma_level = l\<rparr>"
    "validate_rule_id u a = Inr i" "nonblank t" "length t \<le> rule_title_max_length" "list_all encodable t"
    by (auto simp: and_then_Inr required_Inr bounded_str_Inr split: if_splits)
  from p(2) have "\<exists>x. i = uuid_str x" by (cases a) (auto split: option.splits)
  with p show ?thesis by (auto simp: metadata_ok_def)
qed simp_all

lemma validate_event_ok:
  assumes "validate_event u v = Inr ev"
  shows "event_ok u ev"
proof (cases v)
  case (PDict d)
  have t: "case t of TS_str s \<Rightarrow> length s \<le> timestamp_string_max_length | TS_datetime _ \<Rightarrow> False | _ \<Rightarrow> True"
    if "validate_timestamp_shape a = Inr t" for a t
    using that by (cases a) (auto split: if_splits)
  show ?thesis
    using assms PDict
    by (auto simp: and_then_Inr required_Inr bounded_str_Inr validate_channel_def event_hostname_present_def event_ok_def
        dest!: t optional_str_ok parse_positive_bounds split: if_splits)
qed (use assms in simp_all)

lemma validate_finding_ok:
  assumes "validate_finding u v = Inr f"
  shows "finding_ok u f"
  using assms by (cases v) (auto simp: and_then_Inr required_Inr finding_ok_def split: if_splits
    dest: validate_metadata_ok validate_event_ok)

end
