(* ===== verification/SplunkMapping.thy ===== *)
theory SplunkMapping
  imports SplunkModels Fingerprint
begin

text \<open>
  \<open>adapters/splunk/mapping.py\<close> and \<open>adapters/splunk/idempotency.py\<close>: the normalization of a
  validated finding, its logical identity and idempotency key, and the canonical alert made of it.
\<close>

section \<open>Host names\<close>

text \<open>The pattern \<open>[A-Za-z0-9_-]+(?:\.[A-Za-z0-9_-]+)*\<close> on the whole text.\<close>

definition host_char :: "nat \<Rightarrow> bool" where
  "host_char c \<longleftrightarrow> is_digit c \<or> 65 \<le> c \<and> c \<le> 90 \<or> 97 \<le> c \<and> c \<le> 122 \<or> c = 95 \<or> c = 45"

fun host_match :: "bool \<Rightarrow> ustring \<Rightarrow> bool" where
  "host_match in_label [] = in_label"
| "host_match in_label (c # s) =
     (if host_char c then host_match True s else c = 46 \<and> in_label \<and> host_match False s)"

definition hostname_pattern :: "ustring \<Rightarrow> bool" where
  "hostname_pattern s = host_match False s"

definition strip_final_dot :: "ustring \<Rightarrow> ustring" where
  "strip_final_dot s = (if s \<noteq> [] \<and> last s = 46 then butlast s else s)"

definition normalize_one_hostname :: "ustring \<Rightarrow> exn + ustring" where
  "normalize_one_hostname v =
     (let n = strip_final_dot (strip v)
      in if n = [] then Inl ValueError
         else if hostname_max_length < length n then Inl ValueError
         else if \<not> is_ascii n then Inl ValueError
         else if \<not> hostname_pattern n then Inl ValueError
         else Inr (lower n))"

definition normalize_optional :: "ustring option \<Rightarrow> exn + ustring option" where
  "normalize_optional v =
     (case v of None \<Rightarrow> Inr None | Some s \<Rightarrow> and_then (normalize_one_hostname s) (\<lambda>n. Inr (Some n)))"

definition normalize_hostname :: "ustring option \<Rightarrow> ustring option \<Rightarrow> exn + ustring" where
  "normalize_hostname computer host =
     and_then (normalize_optional computer) (\<lambda>nc.
     and_then (normalize_optional host) (\<lambda>nh.
     case (nc, nh) of
       (Some c, Some h) \<Rightarrow> if c \<noteq> h then Inl ValueError else Inr c
     | (Some c, None) \<Rightarrow> Inr c
     | (None, Some h) \<Rightarrow> Inr h
     | (None, None) \<Rightarrow> Inl ValueError))"

section \<open>Timestamps\<close>

definition minimum_unix_epoch :: int where "minimum_unix_epoch = - 62135596800"
definition maximum_unix_epoch_exclusive :: int where "maximum_unix_epoch_exclusive = 253402300800"

text \<open>The decimal of \<open>Decimal(str(value))\<close>, when it is finite.\<close>

fun epoch_decimal :: "timestamp_input \<Rightarrow> pydecimal option" where
  "epoch_decimal (TS_int i) = (if int_digits_limit < length (dec_nat (nat \<bar>i\<bar>)) then None else Some (Decimal i 0))"
| "epoch_decimal (TS_float (Finite neg m q)) = Some (shortest_decimal neg m q)"
| "epoch_decimal (TS_float _) = None"
| "epoch_decimal (TS_str s) = Some (decimal_of_text s)"
| "epoch_decimal (TS_datetime d) = None"

text \<open>The sum of the epoch and a timedelta, which raises OverflowError beyond the years 1 to 9999.\<close>

definition epoch_plus :: "int \<Rightarrow> exn + datetime" where
  "epoch_plus us =
     (if 0 \<le> unix_epoch_us + us \<and> unix_epoch_us + us < max_us then Inr (utc (unix_epoch_us + us))
      else Inl OverflowError)"

definition normalize_epoch :: "timestamp_input \<Rightarrow> exn + datetime" where
  "normalize_epoch v =
     (case epoch_decimal v of
        None \<Rightarrow> Inl ValueError
      | Some d \<Rightarrow>
          if \<not> (decimal_le minimum_unix_epoch d \<and> decimal_less d maximum_unix_epoch_exclusive) then Inl ValueError
          else epoch_plus (decimal_floor (decimal_times d 1000000)))"

text \<open>The pattern \<open>[+-]?(?:[0-9]+(?:\.[0-9]*)?|\.[0-9]+)\<close>.\<close>

definition numeric_timestamp_pattern :: "ustring \<Rightarrow> bool" where
  "numeric_timestamp_pattern s =
     (let t = (if take 1 s = [43] \<or> take 1 s = [45] then drop 1 s else s);
          r = dropWhile is_digit t
      in if takeWhile is_digit t \<noteq> []
         then r = [] \<or> (hd r = 46 \<and> list_all is_digit (tl r))
         else r \<noteq> [] \<and> hd r = 46 \<and> all_digits (tl r))"

text \<open>The pattern of RFC 3339: the fixed part of 19 characters, a fraction, and a zone.\<close>

definition digits_in :: "nat \<Rightarrow> nat \<Rightarrow> ustring \<Rightarrow> bool" where
  "digits_in i n s = list_all is_digit (take n (drop i s))"

definition rfc_fraction :: "ustring \<Rightarrow> ustring" where
  "rfc_fraction s = (case drop 19 s of c # t \<Rightarrow> if c = 46 then takeWhile is_digit t else [] | [] \<Rightarrow> [])"

definition rfc_zone :: "ustring \<Rightarrow> ustring" where
  "rfc_zone s = (case drop 19 s of c # t \<Rightarrow> if c = 46 then dropWhile is_digit t else c # t | [] \<Rightarrow> [])"

definition rfc3339_pattern :: "ustring \<Rightarrow> bool" where
  "rfc3339_pattern s \<longleftrightarrow>
     20 \<le> length s
     \<and> digits_in 0 4 s \<and> s ! 4 = 45 \<and> digits_in 5 2 s \<and> s ! 7 = 45 \<and> digits_in 8 2 s \<and> s ! 10 = 84
     \<and> digits_in 11 2 s \<and> s ! 13 = 58 \<and> digits_in 14 2 s \<and> s ! 16 = 58 \<and> digits_in 17 2 s
     \<and> (s ! 19 = 46 \<longrightarrow> rfc_fraction s \<noteq> [])
     \<and> (let z = rfc_zone s
        in z = [90] \<or> (length z = 6 \<and> (z ! 0 = 43 \<or> z ! 0 = 45) \<and> digits_in 1 2 z \<and> z ! 3 = 58 \<and> digits_in 4 2 z))"

text \<open>\<open>datetime.fromisoformat(s.replace("Z", "+00:00"))\<close> of text of that pattern: the fraction is
  truncated to microseconds, the minutes of the offset are not checked on their own.\<close>

definition field_value :: "nat \<Rightarrow> nat \<Rightarrow> ustring \<Rightarrow> nat" where
  "field_value i n s = digits_value (take n (drop i s))"

definition days_of_month :: "nat \<Rightarrow> nat \<Rightarrow> nat" where
  "days_of_month y m = days_in_month m + (if m = 2 \<and> is_leap y then 1 else 0)"

definition zone_offset :: "ustring \<Rightarrow> int" where
  "zone_offset z =
     (if z = [90] then 0
      else (if z ! 0 = 45 then - 1 else 1) * int (field_value 1 2 z * 3600 + field_value 4 2 z * 60) * 1000000)"

definition rfc3339_datetime :: "ustring \<Rightarrow> exn + datetime" where
  "rfc3339_datetime s =
     (let y = field_value 0 4 s; m = field_value 5 2 s; d = field_value 8 2 s;
          h = field_value 11 2 s; mi = field_value 14 2 s; sec = field_value 17 2 s;
          us = digits_value (take 6 (rfc_fraction s @ replicate 6 48));
          off = zone_offset (rfc_zone s)
      in if \<not> (1 \<le> y \<and> 1 \<le> m \<and> m \<le> 12 \<and> 1 \<le> d \<and> d \<le> days_of_month y m \<and> h < 24 \<and> mi < 60 \<and> sec < 60)
         then Inl ValueError
         else if \<not> (- us_per_day < off \<and> off < us_per_day) then Inl ValueError
         else Inr \<lparr>dt_local = int (((day_number y m d * 86400 + h * 3600 + mi * 60 + sec) * 1000000) + us),
                   dt_offset = Some off\<rparr>)"

fun normalize_timestamp :: "timestamp_input \<Rightarrow> exn + datetime" where
  "normalize_timestamp (TS_datetime d) = (if \<not> aware d then Inl ValueError else astimezone_utc OverflowError d)"
| "normalize_timestamp (TS_int i) = normalize_epoch (TS_int i)"
| "normalize_timestamp (TS_float x) = normalize_epoch (TS_float x)"
| "normalize_timestamp (TS_str s) =
     (if s = [] \<or> s \<noteq> strip s then Inl ValueError
      else if numeric_timestamp_pattern s then normalize_epoch (TS_str s)
      else if \<not> rfc3339_pattern s then Inl ValueError
      else and_then (rfc3339_datetime s) (astimezone_utc OverflowError))"

section \<open>Normalization\<close>

fun normalize_sigma_severity :: "sigma_level \<Rightarrow> severity" where
  "normalize_sigma_severity SIGMA_INFORMATIONAL = LOW"
| "normalize_sigma_severity SIGMA_LOW = LOW"
| "normalize_sigma_severity SIGMA_MEDIUM = MEDIUM"
| "normalize_sigma_severity SIGMA_HIGH = HIGH"
| "normalize_sigma_severity SIGMA_CRITICAL = CRITICAL"

definition normalize_splunk_finding :: "splunk_finding \<Rightarrow> exn + normalized_splunk_finding" where
  "normalize_splunk_finding f =
     (let m = sf_detection f; ev = sf_event f in
      and_then (normalize_timestamp (se_detected_at ev)) (\<lambda>detected_at.
      and_then (normalize_hostname (se_computer ev) (se_host ev)) (\<lambda>computer.
      Inr \<lparr>ns_rule_id = sd_rule_id m, ns_rule_title = sd_rule_title m, ns_sigma_level = sd_sigma_level m,
           ns_detected_at = detected_at, ns_computer = computer, ns_channel = se_channel ev,
           ns_event_code = se_event_code ev, ns_record_id = se_record_id ev, ns_source = se_source ev,
           ns_sourcetype = se_sourcetype ev, ns_process_guid = se_process_guid ev, ns_image = se_image ev,
           ns_parent_image = se_parent_image ev, ns_target_filename = se_target_filename ev\<rparr>)))"

section \<open>Logical identity (\<open>idempotency.py\<close>)\<close>

definition finding_identity_schema :: ustring where
  "finding_identity_schema = S ''alert2ir.splunk-finding-id.v1''"

definition idempotency_key_prefix :: ustring where "idempotency_key_prefix = S ''splunk-v1-''"

definition finding_utc_timestamp :: "normalized_splunk_finding \<Rightarrow> exn + ustring" where
  "finding_utc_timestamp n =
     (if \<not> aware (ns_detected_at n) then Inl ValueError
      else and_then (astimezone_utc OverflowError (ns_detected_at n)) (\<lambda>d. Inr (utc_text d)))"

definition finding_identity_document :: "normalized_splunk_finding \<Rightarrow> exn + json" where
  "finding_identity_document n =
     and_then (finding_utc_timestamp n) (\<lambda>detected_at.
     Inr (JObj
       [(S ''schema'', JStr finding_identity_schema),
        (S ''detection_id'', JStr (ns_rule_id n)),
        (S ''event'', JObj
          [(S ''channel'', JStr (ns_channel n)),
           (S ''computer'', JStr (ns_computer n)),
           (S ''detected_at'', JStr detected_at),
           (S ''event_code'', JInt (ns_event_code n)),
           (S ''record_id'', JInt (ns_record_id n))])]))"

definition finding_identity_bytes :: "normalized_splunk_finding \<Rightarrow> exn + bytes" where
  "finding_identity_bytes n =
     and_then (finding_identity_document n) (\<lambda>d. encode_utf8 UnicodeEncodeError (dumps d))"

definition finding_identity_digest :: "normalized_splunk_finding \<Rightarrow> exn + ustring" where
  "finding_identity_digest n = and_then (finding_identity_bytes n) (\<lambda>b. Inr (hex_bytes (sha256 b)))"

definition finding_idempotency_key :: "normalized_splunk_finding \<Rightarrow> exn + ustring" where
  "finding_idempotency_key n = and_then (finding_identity_digest n) (\<lambda>h. Inr (idempotency_key_prefix @ h))"

section \<open>The canonical alert\<close>

definition canonical_source :: ustring where "canonical_source = S ''splunk''"
definition sigma_level_mapping_schema :: ustring where
  "sigma_level_mapping_schema = S ''alert2ir.splunk.sigma-level.v1''"

text \<open>\<open>urllib.parse.quote(s, safe='-._~')\<close>: letters, digits and the safe characters stay, every other
  byte of the UTF-8 encoding becomes \<open>%XX\<close>.\<close>

definition quote_safe :: "nat \<Rightarrow> bool" where
  "quote_safe c \<longleftrightarrow> host_char c \<or> c = 46 \<or> c = 126"

definition upper_hex_char :: "nat \<Rightarrow> nat" where
  "upper_hex_char d = (if d < 10 then 48 + d else 55 + d)"

definition url_quote :: "ustring \<Rightarrow> exn + ustring" where
  "url_quote s =
     and_then (encode_utf8 UnicodeEncodeError s) (\<lambda>bs.
     Inr (concat (map (\<lambda>b. let c = unat b in
       if quote_safe c then [c] else [37, upper_hex_char (c div 16), upper_hex_char (c mod 16)]) bs)))"

definition mk_evidence :: "ustring \<Rightarrow> string \<Rightarrow> exn + evidence_reference" where
  "mk_evidence reference kind =
     (if evidence_reference_max_length < length reference then Inl ValueError
      else mk_evidence_reference reference (Some (S kind)))"

definition optional_evidence :: "normalized_splunk_finding \<Rightarrow> (ustring \<times> string) list" where
  "optional_evidence n =
     concat (map (\<lambda>(v, kind). case v of Some s \<Rightarrow> [(s, kind)] | None \<Rightarrow> [])
       [(ns_process_guid n, ''process-guid''), (ns_image n, ''process-image''),
        (ns_parent_image n, ''parent-process-image''), (ns_target_filename n, ''target-file'')])"

definition build_evidence :: "normalized_splunk_finding \<Rightarrow> severity \<Rightarrow> exn + evidence_reference list" where
  "build_evidence n sev =
     and_then (mk_evidence (sigma_level_mapping_schema @ S '':'' @ sigma_level_value (ns_sigma_level n) @ S ''->''
       @ severity_value sev) ''normalization-policy'') (\<lambda>policy.
     and_then (url_quote (ns_computer n)) (\<lambda>computer.
     and_then (url_quote (ns_channel n)) (\<lambda>channel.
     and_then (mk_evidence (S ''windows-event://'' @ computer @ S ''/'' @ channel @ S ''/'' @ dec_int (ns_record_id n)
       @ S ''?event_code='' @ dec_int (ns_event_code n)) ''source-event'') (\<lambda>event.
     and_then (traverse (\<lambda>(s, kind). mk_evidence s kind) (optional_evidence n)) (\<lambda>others.
     Inr (policy # event # others))))))"

definition finding_to_alert :: "normalized_splunk_finding \<Rightarrow> ustring \<Rightarrow> exn + canonical_alert" where
  "finding_to_alert n key =
     (let sev = normalize_sigma_severity (ns_sigma_level n) in
      and_then (mk_detection_identity (ns_rule_id n) (Some (ns_rule_title n))) (\<lambda>detection.
      and_then (mk_source_provenance canonical_source (Some key)) (\<lambda>source.
      and_then (mk_entity (S ''host'') (ns_computer n)) (\<lambda>host.
      and_then (build_evidence n sev) (\<lambda>evidence.
      mk_canonical_alert detection (ns_detected_at n) source [host] sev evidence)))))"

definition canonicalize :: "splunk_finding \<Rightarrow> exn + canonicalized_splunk_finding" where
  "canonicalize f =
     and_then (normalize_splunk_finding f) (\<lambda>n.
     and_then (finding_idempotency_key n) (\<lambda>key.
     and_then (finding_to_alert n key) (\<lambda>al.
     Inr \<lparr>cz_alert = al, cz_idempotency_key = key\<rparr>)))"

end
