(* ===== verification/SplunkMappingProps.thy ===== *)
theory SplunkMappingProps
  imports SplunkMapping Api
begin

text \<open>
  What the mapping of \<open>SplunkMapping\<close> guarantees: normalized host names and timestamps, the bounds
  of the evidence, the form of the idempotency key, the equality of identities, and that every
  validated finding either fails to normalize or yields an alert and a key that the API accepts.
\<close>

section \<open>Host names\<close>

definition host_text :: "ustring \<Rightarrow> bool" where
  "host_text s \<longleftrightarrow> s \<noteq> [] \<and> length s \<le> hostname_max_length \<and> list_all (\<lambda>c. host_char c \<or> c = 46) s"

lemma host_match_chars: "host_match b s \<Longrightarrow> list_all (\<lambda>c. host_char c \<or> c = 46) s"
  by (induction b s rule: host_match.induct) (auto split: if_splits)

lemma host_char_lower: "host_char c \<Longrightarrow> host_char (lower_cp c)" "lower_cp 46 = 46"
  by (auto simp: host_char_def lower_cp_def is_digit_def)

lemma host_char_facts: "host_char c \<Longrightarrow> c < 128" "host_char c \<Longrightarrow> \<not> is_space c"
  by (auto simp: host_char_def is_digit_def is_space_def)

lemma normalize_one_hostname_text: "normalize_one_hostname v = Inr h \<Longrightarrow> host_text h"
  by (auto simp: normalize_one_hostname_def Let_def host_text_def hostname_pattern_def lower_def list_all_iff
      host_char_lower dest!: host_match_chars split: if_splits) (auto simp: host_char_lower)

lemma normalize_hostname_text: "normalize_hostname c h = Inr n \<Longrightarrow> host_text n"
  by (auto simp: normalize_hostname_def normalize_optional_def and_then_Inr
      dest: normalize_one_hostname_text split: option.splits if_splits)

lemma normalize_hostname_error: "normalize_hostname c h = Inl e \<Longrightarrow> e = ValueError"
  by (auto simp: normalize_hostname_def normalize_optional_def normalize_one_hostname_def Let_def
      split: option.splits if_splits)

lemma host_text_facts:
  assumes "host_text h"
  shows "nonblank h" "is_ascii h" "list_all encodable h"
proof -
  have c: "c < 128 \<and> \<not> is_space c" if "c \<in> set h" for c
    using that assms host_char_facts [of c] by (auto simp: host_text_def list_all_iff is_space_def)
  moreover obtain c where "c \<in> set h" using assms by (cases h) (auto simp: host_text_def)
  ultimately show "nonblank h" by (auto simp: nonblank_iff)
  show "is_ascii h" "list_all encodable h" using c by (auto simp: is_ascii_def list_all_iff ascii_encodable)
qed

section \<open>Timestamps\<close>

lemma astimezone_utc_cases:
  "astimezone_utc e d = Inr x \<Longrightarrow> \<exists>t. x = utc t \<and> 0 \<le> t \<and> t < max_us"
  "astimezone_utc e d = Inl f \<Longrightarrow> f = e"
  by (auto simp: astimezone_utc_def split: if_splits)

lemma normalize_epoch_cases:
  "normalize_epoch v = Inr d \<Longrightarrow> \<exists>t. d = utc t \<and> 0 \<le> t \<and> t < max_us"
  "normalize_epoch v = Inl e \<Longrightarrow> e = ValueError \<or> e = OverflowError"
  by (auto simp: normalize_epoch_def epoch_plus_def split: option.splits if_splits)

lemma rfc3339_error: "rfc3339_datetime s = Inl e \<Longrightarrow> e = ValueError"
  by (auto simp: rfc3339_datetime_def Let_def split: if_splits)

lemma normalize_timestamp_utc:
  "normalize_timestamp v = Inr d \<Longrightarrow> \<exists>t. d = utc t \<and> 0 \<le> t \<and> t < max_us"
  by (cases v rule: normalize_timestamp.cases)
     (auto simp: and_then_Inr split: if_splits dest: astimezone_utc_cases normalize_epoch_cases)

lemma normalize_timestamp_error:
  "normalize_timestamp v = Inl e \<Longrightarrow> e = ValueError \<or> e = OverflowError"
  by (cases v rule: normalize_timestamp.cases)
     (auto simp: and_then_def split: if_splits sum.splits dest: astimezone_utc_cases normalize_epoch_cases rfc3339_error)

section \<open>Identity\<close>

text \<open>The parts of a normalized finding that make its identity.\<close>

definition same_finding :: "normalized_splunk_finding \<Rightarrow> normalized_splunk_finding \<Rightarrow> bool" where
  "same_finding m n \<longleftrightarrow> ns_rule_id m = ns_rule_id n \<and> ns_channel m = ns_channel n \<and> ns_computer m = ns_computer n
     \<and> instant (ns_detected_at m) = instant (ns_detected_at n) \<and> ns_event_code m = ns_event_code n
     \<and> ns_record_id m = ns_record_id n"

lemma identity_document_eq:
  assumes "finding_identity_document m = Inr x" "finding_identity_document n = Inr y"
  shows "sort_json x = sort_json y \<longleftrightarrow> same_finding m n"
proof -
  obtain tm where tm: "astimezone_utc OverflowError (ns_detected_at m) = Inr tm" "finding_utc_timestamp m = Inr (utc_text tm)"
    using assms(1) by (auto simp: finding_identity_document_def finding_utc_timestamp_def and_then_Inr split: if_splits)
  obtain tn where tn: "astimezone_utc OverflowError (ns_detected_at n) = Inr tn" "finding_utc_timestamp n = Inr (utc_text tn)"
    using assms(2) by (auto simp: finding_identity_document_def finding_utc_timestamp_def and_then_Inr split: if_splits)
  show ?thesis
    using assms isoformat_utc_inj [OF tm(1) tn(1)] unfolding finding_identity_document_def tm(2) tn(2) and_then_simps
    by (auto simp: sort_json_obj_eq same_finding_def simp del: sort_json.simps(6))
qed

text \<open>When a finding has an identity: its time is in range and its strings are encodable.\<close>

lemma identity_bytes_total:
  assumes "aware (ns_detected_at n)" "utc_in_range (ns_detected_at n)" "list_all encodable (ns_rule_id n)"
    "list_all encodable (ns_channel n)" "list_all encodable (ns_computer n)"
  shows "\<exists>b. finding_identity_bytes n = Inr b"
proof -
  have u: "astimezone_utc OverflowError (ns_detected_at n) = Inr (utc (instant (ns_detected_at n)))"
    using assms(2) by (simp add: astimezone_utc_def utc_in_range_def)
  then show ?thesis
    using assms utc_text_encodable [of "instant (ns_detected_at n)"]
    by (simp add: finding_identity_bytes_def finding_identity_document_def finding_utc_timestamp_def encode_utf8_def
        dumps_encodable finding_identity_schema_def)
qed

section \<open>The key\<close>

lemma hex_bytes_visible: "c \<in> set (hex_bytes bs) \<Longrightarrow> 48 \<le> c \<and> c \<le> 102"
proof -
  have "48 \<le> hex_char d \<and> hex_char d \<le> 102" if "d < 16" for d using that by (auto simp: hex_char_def)
  then show "c \<in> set (hex_bytes bs) \<Longrightarrow> 48 \<le> c \<and> c \<le> 102"
    using fix_digits_less [of 16 _ 2] by (fastforce simp: hex_bytes_def hex_fix_def)
qed

definition delivery_key :: "ustring \<Rightarrow> bool" where
  "delivery_key k \<longleftrightarrow> (\<exists>b. k = idempotency_key_prefix @ hex_bytes (sha256 b))"

lemma finding_key_form: "finding_idempotency_key n = Inr k \<Longrightarrow> delivery_key k"
  by (auto simp: finding_idempotency_key_def finding_identity_digest_def and_then_Inr delivery_key_def)

lemma delivery_key_facts:
  assumes "delivery_key k"
  shows "length k = 74" "\<forall>c \<in> set k. 33 \<le> c \<and> c \<le> 126" "nonblank k" "list_all encodable k" "idempotency_key [k] = Inr k"
proof -
  obtain b where k: "k = idempotency_key_prefix @ hex_bytes (sha256 b)" using assms by (auto simp: delivery_key_def)
  show len: "length k = 74" by (simp add: k idempotency_key_prefix_def)
  show vis: "\<forall>c \<in> set k. 33 \<le> c \<and> c \<le> 126"
    using hex_bytes_visible [of _ "sha256 b"] by (fastforce simp: k idempotency_key_prefix_def S_def)
  have "k \<noteq> []" using len by auto
  then have "hd k \<in> set k" by simp
  with vis have "\<not> is_space (hd k)" by (fastforce simp: is_space_def)
  with \<open>hd k \<in> set k\<close> show "nonblank k" by (auto simp: nonblank_iff)
  show "list_all encodable k" using vis by (fastforce simp: list_all_iff encodable_def)
  have "\<not> list_ex (\<lambda>c. \<not> (0x21 \<le> c \<and> c \<le> 0x7E)) k" using vis by (auto simp: list_ex_iff)
  then show "idempotency_key [k] = Inr k" using len by (simp add: idempotency_key_def)
qed

section \<open>Evidence\<close>

lemma url_quote_ascii:
  assumes "is_ascii s"
  shows "\<exists>t. url_quote s = Inr t \<and> length t \<le> 3 * length s \<and> list_all encodable t
    \<and> (list_all quote_safe s \<longrightarrow> t = s)"
proof -
  let ?q = "\<lambda>b :: byte. let c = unat b in if quote_safe c then [c] else [37, upper_hex_char (c div 16), upper_hex_char (c mod 16)]"
  have b: "unat (of_nat c :: byte) = c" if "c \<in> set s" for c
  proof -
    have "c < 128" using that assms by (auto simp: is_ascii_def list_all_iff)
    then show ?thesis by (simp add: unat_of_nat)
  qed
  have len: "length (concat (map ?q bs)) \<le> 3 * length bs" for bs
    by (induction bs) (auto simp: Let_def)
  have enc: "list_all encodable (?q b)" for b
  proof -
    have "unat b < 256" using unsigned_less [of b] by simp
    then have "unat b div 16 < 16" by (simp add: less_mult_imp_div_less)
    then show ?thesis by (auto simp: Let_def upper_hex_char_def quote_safe_def host_char_def is_digit_def encodable_def)
  qed
  have safe: "concat (map ?q (map of_nat s)) = s" if "list_all quote_safe s"
    using that b by (induction s) (auto simp: Let_def)
  show ?thesis
    using len [of "map of_nat s"] enc safe
    by (simp add: url_quote_def utf8_ascii [OF assms] list_all_iff)
qed

lemma dec_int_length: "0 \<le> i \<Longrightarrow> nat i < 10 ^ k \<Longrightarrow> 0 < k \<Longrightarrow> length (dec_int i) \<le> k"
  by (simp add: dec_int_def dec_nat_length)

lemma mk_evidence_ok:
  "mk_evidence s kind = Inr e \<Longrightarrow> evidence_ok e \<and> e = \<lparr>er_reference = s, er_kind = Some (S kind)\<rparr>"
  by (auto simp: mk_evidence_def mk_evidence_reference_Inr split: if_splits)

definition normalized_ok :: "normalized_splunk_finding \<Rightarrow> bool" where
  "normalized_ok n \<longleftrightarrow>
     (\<exists>x. ns_rule_id n = uuid_str x) \<and> nonblank (ns_rule_title n) \<and> list_all encodable (ns_rule_title n)
     \<and> (\<exists>t. ns_detected_at n = utc t \<and> 0 \<le> t \<and> t < max_us) \<and> host_text (ns_computer n)
     \<and> nonblank (ns_channel n) \<and> length (ns_channel n) \<le> channel_max_length \<and> is_ascii (ns_channel n)
     \<and> 1 \<le> ns_event_code n \<and> ns_event_code n \<le> event_code_maximum
     \<and> 1 \<le> ns_record_id n \<and> ns_record_id n \<le> record_id_maximum
     \<and> optional_ok process_guid_max_length (ns_process_guid n) \<and> optional_ok image_max_length (ns_image n)
     \<and> optional_ok parent_image_max_length (ns_parent_image n)
     \<and> optional_ok target_filename_max_length (ns_target_filename n)"

lemma normalize_finding_ok:
  assumes "finding_ok u f" "normalize_splunk_finding f = Inr n"
  shows "normalized_ok n"
  using assms
  by (auto simp: normalize_splunk_finding_def Let_def and_then_Inr normalized_ok_def finding_ok_def metadata_ok_def
      event_ok_def dest: normalize_hostname_text normalize_timestamp_utc)

lemma normalize_finding_error:
  "normalize_splunk_finding f = Inl e \<Longrightarrow> e = ValueError \<or> e = OverflowError"
  by (auto simp: normalize_splunk_finding_def Let_def and_then_def split: sum.splits
      dest: normalize_hostname_error normalize_timestamp_error)

lemma optional_evidence_parts:
  assumes "normalized_ok n" "(s, kind) \<in> set (optional_evidence n)"
  shows "nonblank s" "length s \<le> evidence_reference_max_length" "list_all encodable s"
    "kind \<in> {''process-guid'', ''process-image'', ''parent-process-image'', ''target-file''}"
  using assms
  by (auto simp: optional_evidence_def normalized_ok_def optional_ok_def splunk_bounds split: option.splits)

lemma optional_evidence_length: "length (optional_evidence n) \<le> 4"
  by (auto simp: optional_evidence_def split: option.splits)

lemma kind_text: "nonblank (S ''normalization-policy'')" "nonblank (S ''source-event'')" "nonblank (S ''process-guid'')"
  "nonblank (S ''process-image'')" "nonblank (S ''parent-process-image'')" "nonblank (S ''target-file'')"
  by (simp_all add: S_def is_space_def)

definition evidence_fine :: "evidence_reference \<Rightarrow> bool" where
  "evidence_fine e \<longleftrightarrow> evidence_ok e \<and> length (er_reference e) \<le> evidence_reference_max_length
     \<and> list_all encodable (er_reference e) \<and> opt_encodable (er_kind e)"

lemma mk_evidence_total:
  assumes "nonblank s" "length s \<le> evidence_reference_max_length" "nonblank (S kind)" "list_all encodable s"
  shows "\<exists>e. mk_evidence s kind = Inr e \<and> evidence_fine e"
  using assms
  by (simp add: mk_evidence_def mk_evidence_reference_Inr evidence_ok_def evidence_fine_def opt_encodable_def)

lemma build_evidence_total:
  assumes "normalized_ok n"
  shows "\<exists>vs. build_evidence n (normalize_sigma_severity (ns_sigma_level n)) = Inr vs \<and> list_all evidence_fine vs
    \<and> 2 \<le> length vs \<and> length vs \<le> 6"
proof -
  let ?policy = "sigma_level_mapping_schema @ S '':'' @ sigma_level_value (ns_sigma_level n) @ S ''->''
       @ severity_value (normalize_sigma_severity (ns_sigma_level n))"
  have "nonblank ?policy" "length ?policy \<le> evidence_reference_max_length" "list_all encodable ?policy"
    by (simp_all add: sigma_level_mapping_schema_def nonblank_S is_space_def splunk_bounds)
       (cases "ns_sigma_level n"; simp)+
  then obtain p where p: "mk_evidence ?policy ''normalization-policy'' = Inr p" "evidence_fine p"
    using mk_evidence_total kind_text(1) by blast
  have host: "host_text (ns_computer n)" and chan: "is_ascii (ns_channel n)" "length (ns_channel n) \<le> 128"
    using assms by (simp_all add: normalized_ok_def splunk_bounds)
  have "list_all quote_safe (ns_computer n)"
    using host by (auto simp: host_text_def list_all_iff quote_safe_def)
  then have c: "url_quote (ns_computer n) = Inr (ns_computer n)"
    using url_quote_ascii [OF host_text_facts(2) [OF host]] by auto
  obtain ch where ch: "url_quote (ns_channel n) = Inr ch" "length ch \<le> 3 * length (ns_channel n)" "list_all encodable ch"
    using url_quote_ascii [OF chan(1)] by blast
  let ?event = "S ''windows-event://'' @ ns_computer n @ S ''/'' @ ch @ S ''/'' @ dec_int (ns_record_id n)
       @ S ''?event_code='' @ dec_int (ns_event_code n)"
  have "length (dec_int (ns_record_id n)) \<le> 19" "length (dec_int (ns_event_code n)) \<le> 5"
    using assms by (intro dec_int_length; simp add: normalized_ok_def splunk_bounds nat_less_iff)+
  moreover have "length (ns_computer n) \<le> 255" using host by (simp add: host_text_def splunk_bounds)
  ultimately have "length ?event \<le> evidence_reference_max_length" using ch(2) chan(2) by (simp add: splunk_bounds)
  moreover have "nonblank ?event" by (simp add: nonblank_S is_space_def)
  moreover have "list_all encodable ?event"
    using ch(3) host_text_facts(3) [OF host] dec_int_encodable by simp
  ultimately obtain e where e: "mk_evidence ?event ''source-event'' = Inr e" "evidence_fine e"
    using mk_evidence_total kind_text(2) by blast
  have "\<exists>v. mk_evidence s kind = Inr v \<and> evidence_fine v" if "(s, kind) \<in> set (optional_evidence n)" for s kind
    using optional_evidence_parts [OF assms that] kind_text by (intro mk_evidence_total) auto
  then have "\<exists>vs. traverse (\<lambda>(s, kind). mk_evidence s kind) xs = Inr vs \<and> list_all evidence_fine vs \<and> length vs = length xs"
    if "set xs \<subseteq> set (optional_evidence n)" for xs
    using that
  proof (induction xs)
    case (Cons x xs)
    then obtain v vs where "(case x of (s, kind) \<Rightarrow> mk_evidence s kind) = Inr v" "evidence_fine v"
      "traverse (\<lambda>(s, kind). mk_evidence s kind) xs = Inr vs" "list_all evidence_fine vs" "length vs = length xs"
      by (cases x) fastforce
    then show ?case by simp
  qed simp
  then obtain os where "traverse (\<lambda>(s, kind). mk_evidence s kind) (optional_evidence n) = Inr os"
    "list_all evidence_fine os" "length os = length (optional_evidence n)" by blast
  with p e c ch(1) optional_evidence_length [of n] show ?thesis
    by (simp add: build_evidence_def)
qed

section \<open>The canonical alert\<close>

lemma uuid_str_text: "nonblank (uuid_str x)" "list_all encodable (uuid_str x)"
proof -
  have sub: "c \<in> set (uuid_str x) \<Longrightarrow> c = 45 \<or> c \<in> set (hex_fix 32 (unat x))" for c
    by (auto simp: uuid_str_def Let_def dest: in_set_takeD in_set_dropD)
  show "nonblank (uuid_str x)"
    by (auto simp: uuid_str_def Let_def is_space_def)
  show "list_all encodable (uuid_str x)"
  proof -
    have "encodable c" if "c \<in> set (uuid_str x)" for c
      using sub [OF that] hex_fix_encodable [of 32 "unat x"] by (auto simp: list_all_iff ascii_encodable)
    then show ?thesis by (simp add: list_all_iff)
  qed
qed

lemma canonical_source_text: "nonblank canonical_source" "list_all encodable canonical_source"
  by (simp_all add: canonical_source_def nonblank_S is_space_def)

text \<open>The alert of a normalized finding: valid, with a fingerprint, and traceable to the finding.\<close>

definition alert_of_finding :: "normalized_splunk_finding \<Rightarrow> ustring \<Rightarrow> canonical_alert \<Rightarrow> bool" where
  "alert_of_finding n key al \<longleftrightarrow>
     alert_ok al \<and> alert_encodable al \<and> utc_in_range (al_detected_at al)
     \<and> al_detection al = \<lparr>di_identifier = ns_rule_id n, di_name = Some (ns_rule_title n)\<rparr>
     \<and> al_detected_at al = ns_detected_at n
     \<and> al_source al = \<lparr>sp_source = canonical_source, sp_source_alert_id = Some key\<rparr>
     \<and> al_entities al = [\<lparr>en_kind = S ''host'', en_value = ns_computer n\<rparr>]
     \<and> al_severity al = normalize_sigma_severity (ns_sigma_level n)
     \<and> 2 \<le> length (al_evidence al) \<and> length (al_evidence al) \<le> 6
     \<and> list_all (\<lambda>e. length (er_reference e) \<le> evidence_reference_max_length) (al_evidence al)"

lemma finding_key_total:
  assumes "normalized_ok n"
  shows "\<exists>k. finding_idempotency_key n = Inr k"
proof -
  obtain t x where t: "ns_detected_at n = utc t" "0 \<le> t" "t < max_us" and x: "ns_rule_id n = uuid_str x"
    and h: "host_text (ns_computer n)" "is_ascii (ns_channel n)"
    using assms by (auto simp: normalized_ok_def)
  have "list_all encodable (ns_channel n)" using h(2) by (auto simp: is_ascii_def list_all_iff ascii_encodable)
  then obtain b where "finding_identity_bytes n = Inr b"
    using identity_bytes_total [of n] t x h host_text_facts(3) [OF h(1)] uuid_str_text(2) [of x]
    by (auto simp: utc_in_range_def)
  then show ?thesis by (simp add: finding_idempotency_key_def finding_identity_digest_def)
qed

lemma finding_to_alert_total:
  assumes "normalized_ok n" "delivery_key k"
  shows "\<exists>al. finding_to_alert n k = Inr al \<and> alert_of_finding n k al"
proof -
  obtain vs where vs: "build_evidence n (normalize_sigma_severity (ns_sigma_level n)) = Inr vs"
    "list_all evidence_fine vs" "2 \<le> length vs" "length vs \<le> 6"
    using build_evidence_total [OF assms(1)] by blast
  obtain t x where t: "ns_detected_at n = utc t" "0 \<le> t" "t < max_us" and x: "ns_rule_id n = uuid_str x"
    and h: "host_text (ns_computer n)" and title: "nonblank (ns_rule_title n)" "list_all encodable (ns_rule_title n)"
    using assms(1) by (auto simp: normalized_ok_def)
  note key = delivery_key_facts [OF assms(2)]
  have host: "nonblank (S ''host'')" by (simp add: nonblank_S is_space_def)
  have range: "dt_ok (utc t)" using t by (simp add: dt_ok_def utc_def us_per_day_def)
  let ?al = "\<lparr>al_detection = \<lparr>di_identifier = ns_rule_id n, di_name = Some (ns_rule_title n)\<rparr>, al_detected_at = utc t,
     al_source = \<lparr>sp_source = canonical_source, sp_source_alert_id = Some k\<rparr>,
     al_entities = [\<lparr>en_kind = S ''host'', en_value = ns_computer n\<rparr>],
     al_severity = normalize_sigma_severity (ns_sigma_level n), al_evidence = vs\<rparr>"
  have "finding_to_alert n k = Inr ?al"
    using vs(1) key(3) title x t host host_text_facts(1) [OF h] uuid_str_text(1) [of x] canonical_source_text(1)
    by (simp add: finding_to_alert_def Let_def mk_detection_identity_def mk_source_provenance_def mk_entity_def
        mk_canonical_alert_def and_then_def require_non_empty_def require_optional_non_empty_def nonblank_def)
  moreover have "alert_ok ?al"
    using vs(2) key(3) title x host host_text_facts(1) [OF h] uuid_str_text(1) [of x] canonical_source_text(1) range
    by (auto simp: alert_ok_def detection_ok_def source_ok_def entity_ok_def list_all_iff evidence_fine_def)
  moreover have "alert_encodable ?al"
    using vs(2) key(4) title x host_text_facts(3) [OF h] uuid_str_text(2) [of x] canonical_source_text(2)
    by (auto simp: alert_encodable_def opt_encodable_def list_all_iff evidence_fine_def)
  ultimately show ?thesis
    using vs t by (auto simp: alert_of_finding_def utc_in_range_def list_all_iff evidence_fine_def)
qed

lemma canonicalize_cases:
  assumes "finding_ok u f"
  shows "case canonicalize f of
     Inl e \<Rightarrow> normalize_splunk_finding f = Inl e \<and> (e = ValueError \<or> e = OverflowError)
   | Inr c \<Rightarrow> (\<exists>n. normalize_splunk_finding f = Inr n \<and> finding_idempotency_key n = Inr (cz_idempotency_key c)
       \<and> delivery_key (cz_idempotency_key c) \<and> alert_of_finding n (cz_idempotency_key c) (cz_alert c))"
proof (cases "normalize_splunk_finding f")
  case (Inl e)
  then show ?thesis using normalize_finding_error [OF Inl] by (simp add: canonicalize_def)
next
  case (Inr n)
  note ok = normalize_finding_ok [OF assms Inr]
  obtain k where k: "finding_idempotency_key n = Inr k" using finding_key_total [OF ok] by blast
  note dk = finding_key_form [OF k]
  obtain al where "finding_to_alert n k = Inr al" "alert_of_finding n k al"
    using finding_to_alert_total [OF ok dk] by blast
  then show ?thesis using Inr k dk by (simp add: canonicalize_def)
qed

end
