(* ===== verification/SplunkAuth.thy ===== *)
theory SplunkAuth
  imports Sha256 PyNumber Vocabulary
begin

text \<open>
  \<open>adapters/splunk/auth.py\<close>: the HMAC authentication of the Splunk gateway. \<open>verify_signature_iff\<close>
  says what it accepts: a well-formed timestamp within the window and exactly the signature of the
  body under that timestamp.
\<close>

text \<open>\<open>AuthenticationError\<close> is told apart from the other ValueErrors that the functions raise.\<close>

datatype auth_exn = AuthenticationError | AuthValueError

definition signing_context :: bytes where
  "signing_context = map of_nat (S ''alert2ir-splunk-v1'') @ [10]"

definition default_allowed_skew_seconds :: int where "default_allowed_skew_seconds = 300"
definition minimum_shared_secret_bytes :: nat where "minimum_shared_secret_bytes = 32"

text \<open>The pattern \<open>0|[1-9][0-9]{0,11}\<close>.\<close>

definition auth_timestamp_pattern :: "ustring \<Rightarrow> bool" where
  "auth_timestamp_pattern s \<longleftrightarrow>
     s = [48] \<or> (s \<noteq> [] \<and> hd s \<noteq> 48 \<and> list_all is_digit s \<and> length s \<le> 12)"

definition lower_hex :: "nat \<Rightarrow> bool" where
  "lower_hex c \<longleftrightarrow> is_digit c \<or> 97 \<le> c \<and> c \<le> 102"

text \<open>The pattern \<open>v1=([0-9a-f]{64})\<close>.\<close>

definition auth_signature_pattern :: "ustring \<Rightarrow> bool" where
  "auth_signature_pattern s \<longleftrightarrow> take 3 s = S ''v1='' \<and> length s = 67 \<and> list_all lower_hex (drop 3 s)"

definition validate_shared_secret :: "bytes \<Rightarrow> auth_exn + bytes" where
  "validate_shared_secret secret =
     (if length secret < minimum_shared_secret_bytes then Inl AuthValueError else Inr secret)"

definition parse_auth_timestamp :: "ustring option \<Rightarrow> auth_exn + int" where
  "parse_auth_timestamp v =
     (case v of
        None \<Rightarrow> Inl AuthenticationError
      | Some s \<Rightarrow> if auth_timestamp_pattern s then Inr (int (digits_value s)) else Inl AuthenticationError)"

definition signing_input :: "ustring \<Rightarrow> bytes \<Rightarrow> auth_exn + bytes" where
  "signing_input timestamp raw_body =
     and_then (parse_auth_timestamp (Some timestamp)) (\<lambda>_.
     Inr (signing_context @ map of_nat timestamp @ [10] @ raw_body))"

definition compute_signature :: "bytes \<Rightarrow> ustring \<Rightarrow> bytes \<Rightarrow> auth_exn + ustring" where
  "compute_signature secret timestamp raw_body =
     and_then (validate_shared_secret secret) (\<lambda>s.
     and_then (signing_input timestamp raw_body) (\<lambda>m. Inr (hex_bytes (hmac_sha256 s m))))"

definition verify_signature ::
  "bytes \<Rightarrow> ustring option \<Rightarrow> ustring option \<Rightarrow> bytes \<Rightarrow> datetime \<Rightarrow> int \<Rightarrow> auth_exn + unit"
where
  "verify_signature secret timestamp_header signature raw_body now allowed_skew_seconds =
     (if allowed_skew_seconds < 0 then Inl AuthValueError
      else if \<not> aware now then Inl AuthValueError
      else and_then (parse_auth_timestamp timestamp_header) (\<lambda>timestamp.
        case signature of
          None \<Rightarrow> Inl AuthenticationError
        | Some sig \<Rightarrow>
            if \<not> auth_signature_pattern sig then Inl AuthenticationError
            else if allowed_skew_seconds < \<bar>timestamp_seconds now - timestamp\<bar> then Inl AuthenticationError
            else and_then (compute_signature secret (case timestamp_header of Some s \<Rightarrow> s | None \<Rightarrow> []) raw_body) (\<lambda>expected.
                 if expected \<noteq> drop 3 sig then Inl AuthenticationError else Inr ())))"

section \<open>What is accepted\<close>

text \<open>The signature of a body under a timestamp.\<close>

definition request_signature :: "bytes \<Rightarrow> ustring \<Rightarrow> bytes \<Rightarrow> ustring" where
  "request_signature secret timestamp raw_body =
     hex_bytes (hmac_sha256 secret (signing_context @ map of_nat timestamp @ [10] @ raw_body))"

lemma hex_char_lower: "d < 16 \<Longrightarrow> lower_hex (hex_char d)"
  by (auto simp: lower_hex_def hex_char_def is_digit_def)

lemma hex_bytes_lower: "list_all lower_hex (hex_bytes bs)"
proof -
  have "lower_hex c" if "c \<in> set (hex_fix 2 n)" for c n
    using that fix_digits_less [of 16 _ 2 n] by (auto simp: hex_fix_def intro: hex_char_lower)
  then show ?thesis by (auto simp: hex_bytes_def list_all_iff)
qed

lemma request_signature_pattern: "auth_signature_pattern (S ''v1='' @ request_signature k t b)"
  by (simp add: auth_signature_pattern_def request_signature_def hex_bytes_lower)

lemma verify_signature_iff:
  assumes "minimum_shared_secret_bytes \<le> length secret" "aware now" "0 \<le> skew"
  shows "verify_signature secret timestamp signature body now skew = Inr () \<longleftrightarrow>
    (\<exists>ts. timestamp = Some ts \<and> auth_timestamp_pattern ts \<and> signature = Some (S ''v1='' @ request_signature secret ts body)
      \<and> \<bar>timestamp_seconds now - int (digits_value ts)\<bar> \<le> skew)"
proof (cases timestamp)
  case None
  with assms show ?thesis by (simp add: verify_signature_def parse_auth_timestamp_def)
next
  case (Some ts)
  show ?thesis
  proof (cases "auth_timestamp_pattern ts")
    case False
    with Some assms show ?thesis by (simp add: verify_signature_def parse_auth_timestamp_def)
  next
    case True
    have c: "compute_signature secret ts body = Inr (request_signature secret ts body)"
      using assms(1) True
      by (simp add: compute_signature_def validate_shared_secret_def signing_input_def parse_auth_timestamp_def
          request_signature_def)
    have split: "sig = S ''v1='' @ drop 3 sig" if "auth_signature_pattern sig" for sig
      using that append_take_drop_id [of 3 sig] by (simp add: auth_signature_pattern_def)
    show ?thesis
    proof (cases signature)
      case None
      with Some True assms show ?thesis by (simp add: verify_signature_def parse_auth_timestamp_def)
    next
      case sig: (Some sig)
      show ?thesis
      proof (cases "auth_signature_pattern sig")
        case True
        have "sig = S ''v1='' @ request_signature secret ts body \<longleftrightarrow> drop 3 sig = request_signature secret ts body"
          using split [OF True] by (metis append_eq_conv_conj length_S list.size(3,4) numeral_3_eq_3 plus_1_eq_Suc
              add.commute One_nat_def)
        with True Some sig \<open>auth_timestamp_pattern ts\<close> assms c show ?thesis
          by (auto simp: verify_signature_def parse_auth_timestamp_def)
      next
        case False
        then have "sig \<noteq> S ''v1='' @ request_signature secret ts body" using request_signature_pattern by metis
        with False Some sig \<open>auth_timestamp_pattern ts\<close> assms show ?thesis
          by (simp add: verify_signature_def parse_auth_timestamp_def)
      qed
    qed
  qed
qed

lemma verify_signature_Inl:
  assumes "minimum_shared_secret_bytes \<le> length secret" "aware now" "0 \<le> skew"
    and "verify_signature secret timestamp signature body now skew = Inl e"
  shows "e = AuthenticationError"
  using assms
  by (auto simp: verify_signature_def parse_auth_timestamp_def compute_signature_def validate_shared_secret_def
      signing_input_def split: option.splits if_splits)

end
