(* ===== verification/SplunkClient.thy ===== *)
theory SplunkClient
  imports Schemas SplunkModels
begin

text \<open>
  \<open>adapters/splunk/client.py\<close>: one request to Alert2IR per canonical alert, and the bounded result
  made of its answer. The HTTP library is an argument: what a POST of an alert under a key comes
  to. The wire records the posts. A JSON member that pydantic prints of the request is not modelled;
  the request is the model.
\<close>

section \<open>Results\<close>

datatype delivery_classification =
  D_COMPLETED | D_ACCEPTED | D_PERMANENT_FAILURE | D_DURABLE_FAILURE | D_TRANSIENT_FAILURE

fun delivery_classification_value :: "delivery_classification \<Rightarrow> ustring" where
  "delivery_classification_value D_COMPLETED = S ''completed''"
| "delivery_classification_value D_ACCEPTED = S ''accepted''"
| "delivery_classification_value D_PERMANENT_FAILURE = S ''permanent_failure''"
| "delivery_classification_value D_DURABLE_FAILURE = S ''durable_failure''"
| "delivery_classification_value D_TRANSIENT_FAILURE = S ''transient_failure''"

record delivery_result =
  dr_classification :: delivery_classification
  dr_upstream_status :: "int option"
  dr_processing_id :: "uuid option"
  dr_state :: "ustring option"
  dr_status_url :: "ustring option"
  dr_replayed :: bool
  dr_decision_outcome :: "ustring option"
  dr_error_code :: "ustring option"
  dr_retryable :: bool
  dr_acceptance_unknown :: bool

definition maximum_upstream_response_bytes :: nat where "maximum_upstream_response_bytes = 65536"
definition maximum_status_url_length :: nat where "maximum_status_url_length = 2048"

definition upstream_processing_states :: "ustring list" where
  "upstream_processing_states =
     map S [''accepted'', ''planned'', ''submitting'', ''submitted'', ''completed'', ''failed'', ''recovery_required'']"

text \<open>The pattern \<open>[a-z][a-z0-9_]{0,63}\<close>.\<close>

definition safe_error_code :: "ustring \<Rightarrow> bool" where
  "safe_error_code s \<longleftrightarrow>
     s \<noteq> [] \<and> length s \<le> 64 \<and> 97 \<le> hd s \<and> hd s \<le> 122
     \<and> list_all (\<lambda>c. is_digit c \<or> 97 \<le> c \<and> c \<le> 122 \<or> c = 95) s"

text \<open>The model's constructor, with the constraints of its fields.\<close>

definition mk_delivery_result :: "delivery_result \<Rightarrow> exn + delivery_result" where
  "mk_delivery_result r =
     (if (case dr_upstream_status r of Some s \<Rightarrow> 100 \<le> s \<and> s \<le> 599 | None \<Rightarrow> True)
         \<and> (case dr_status_url r of Some s \<Rightarrow> length s \<le> maximum_status_url_length | None \<Rightarrow> True)
         \<and> (case dr_error_code r of Some s \<Rightarrow> safe_error_code s | None \<Rightarrow> True)
      then Inr r else Inl ValueError)"

section \<open>Reading the answer\<close>

record upstream_response =
  ur_status :: int
  ur_content :: bytes
  ur_headers :: "(ustring \<times> ustring) list"

text \<open>The values of a header; names are compared without regard to case.\<close>

definition header_values :: "(ustring \<times> ustring) list \<Rightarrow> string \<Rightarrow> ustring list" where
  "header_values hs name = map snd (filter (\<lambda>(k, v). lower k = lower (S name)) hs)"

definition bounded_json_object :: "upstream_response \<Rightarrow> (ustring \<times> pyvalue) list" where
  "bounded_json_object r =
     (if maximum_upstream_response_bytes < length (ur_content r) then []
      else case json_loads False (ur_content r) of Some (PDict d) \<Rightarrow> d | _ \<Rightarrow> [])"

fun processing_id_of :: "unicode_db \<Rightarrow> pyvalue \<Rightarrow> uuid option" where
  "processing_id_of u (PStr s) = uuid_of_text u s"
| "processing_id_of u _ = None"

fun bounded_visible :: "unicode_db \<Rightarrow> pyvalue \<Rightarrow> nat \<Rightarrow> ustring option" where
  "bounded_visible u (PStr s) maximum =
     (if \<not> (1 \<le> length s \<and> length s \<le> maximum) \<or> \<not> isprintable u s then None else Some s)"
| "bounded_visible u _ maximum = None"

definition status_url_of :: "unicode_db \<Rightarrow> upstream_response \<Rightarrow> (ustring \<times> pyvalue) list \<Rightarrow> ustring option" where
  "status_url_of u r body =
     (case bounded_visible u (get_value body ''status_url'') maximum_status_url_length of
        Some s \<Rightarrow> Some s
      | None \<Rightarrow>
          (case header_values (ur_headers r) ''Location'' of
             [l] \<Rightarrow> bounded_visible u (PStr l) maximum_status_url_length
           | _ \<Rightarrow> None))"

definition state_of :: "(ustring \<times> pyvalue) list \<Rightarrow> ustring option" where
  "state_of body =
     (case get_value body ''state'' of
        PStr s \<Rightarrow> if s \<in> set upstream_processing_states then Some s else None
      | _ \<Rightarrow> None)"

text \<open>Looking a list or a dictionary up in a set raises TypeError: it has no hash.\<close>

definition decision_outcome_of :: "(ustring \<times> pyvalue) list \<Rightarrow> exn + ustring option" where
  "decision_outcome_of body =
     (case get_value body ''decision'' of
        PDict d \<Rightarrow>
          (case get_value d ''outcome'' of
             PStr s \<Rightarrow> if s = S ''no_action'' \<or> s = S ''investigate'' then Inr (Some s) else Inr None
           | PList vs \<Rightarrow> Inl TypeError
           | PDict ms \<Rightarrow> Inl TypeError
           | _ \<Rightarrow> Inr None)
      | _ \<Rightarrow> Inr None)"

definition error_code_at :: "(ustring \<times> pyvalue) list \<Rightarrow> string \<Rightarrow> ustring option" where
  "error_code_at body name =
     (case get_value body name of PStr s \<Rightarrow> if safe_error_code s then Some s else None | _ \<Rightarrow> None)"

definition error_code_of :: "(ustring \<times> pyvalue) list \<Rightarrow> ustring option" where
  "error_code_of body =
     (case error_code_at body ''code'' of Some c \<Rightarrow> Some c | None \<Rightarrow> error_code_at body ''error_category'')"

definition replayed_of :: "upstream_response \<Rightarrow> bool" where
  "replayed_of r =
     (case header_values (ur_headers r) ''Idempotency-Replayed'' of [v] \<Rightarrow> lower v = S ''true'' | _ \<Rightarrow> False)"

text \<open>The fields of the result that the answer gives, before its classification.\<close>

definition response_fields :: "unicode_db \<Rightarrow> upstream_response \<Rightarrow> exn + delivery_result" where
  "response_fields u r =
     (let body = bounded_json_object r in
      and_then (decision_outcome_of body) (\<lambda>outcome.
      Inr \<lparr>dr_classification = D_TRANSIENT_FAILURE, dr_upstream_status = Some (ur_status r),
           dr_processing_id = processing_id_of u (get_value body ''processing_id''), dr_state = state_of body,
           dr_status_url = status_url_of u r body, dr_replayed = replayed_of r, dr_decision_outcome = outcome,
           dr_error_code = error_code_of body, dr_retryable = True, dr_acceptance_unknown = True\<rparr>))"

definition classified :: "delivery_classification \<Rightarrow> bool \<Rightarrow> bool \<Rightarrow> delivery_result \<Rightarrow> exn + delivery_result" where
  "classified c retryable unknown f =
     mk_delivery_result (f\<lparr>dr_classification := c, dr_retryable := retryable, dr_acceptance_unknown := unknown\<rparr>)"

definition classify_response :: "unicode_db \<Rightarrow> upstream_response \<Rightarrow> exn + delivery_result" where
  "classify_response u r =
     and_then (response_fields u r) (\<lambda>f.
     let status = ur_status r in
     if status = 200 then classified D_COMPLETED False False f
     else if status = 202 then classified D_ACCEPTED False False f
     else if status = 400 \<or> status = 409 \<or> status = 422 then classified D_PERMANENT_FAILURE False False f
     else if status = 500 then
       (if dr_processing_id f \<noteq> None \<or> dr_status_url f \<noteq> None then classified D_DURABLE_FAILURE False False f
        else classified D_TRANSIENT_FAILURE True True (f\<lparr>dr_error_code := Some (S ''upstream_internal_failure'')\<rparr>))
     else if status = 503 then
       classified D_TRANSIENT_FAILURE True False
         (f\<lparr>dr_error_code := (case dr_error_code f of None \<Rightarrow> Some (S ''upstream_unavailable'') | Some c \<Rightarrow> Some c)\<rparr>)
     else classified D_TRANSIENT_FAILURE True True (f\<lparr>dr_error_code := Some (S ''unexpected_upstream_status'')\<rparr>))"

section \<open>The client\<close>

text \<open>What \<open>urllib.parse.urlsplit\<close> finds in a URL.\<close>

record split_url =
  su_scheme :: ustring
  su_path :: ustring
  su_query :: ustring
  su_fragment :: ustring
  su_hostname :: "ustring option"
  su_username :: "ustring option"
  su_password :: "ustring option"

text \<open>The checks of \<open>Alert2IRClient.__init__\<close>; \<open>urlsplit\<close> raises ValueError on a malformed authority.\<close>

definition positive_finite :: "pyvalue \<Rightarrow> bool" where
  "positive_finite t =
     (case t of PInt i \<Rightarrow> 0 < i | PFloat (Finite neg m q) \<Rightarrow> \<not> neg \<and> 0 < m | _ \<Rightarrow> False)"

definition check_client :: "(ustring \<Rightarrow> split_url option) \<Rightarrow> ustring \<Rightarrow> pyvalue \<Rightarrow> exn + unit" where
  "check_client urlsplit base_url timeout_seconds =
     (case urlsplit base_url of
        None \<Rightarrow> Inl ValueError
      | Some p \<Rightarrow>
          if (su_scheme p \<noteq> S ''http'' \<and> su_scheme p \<noteq> S ''https'') \<or> su_hostname p = None \<or> su_username p \<noteq> None
             \<or> su_password p \<noteq> None \<or> su_query p \<noteq> [] \<or> su_fragment p \<noteq> []
             \<or> (su_path p \<noteq> [] \<and> su_path p \<noteq> S ''/'')
          then Inl ValueError
          else if \<not> positive_finite timeout_seconds then Inl ValueError else Inr ())"

datatype post_outcome =
    Post_timeout
  | Post_connect_error
  | Post_request_error
  | Post_response upstream_response

text \<open>The posts so far, the latest first; the transport may answer every post differently.\<close>

type_synonym wire = "(canonical_alert_request \<times> ustring) list"
type_synonym transport = "wire \<Rightarrow> post_outcome"

definition post_once :: "transport \<Rightarrow> canonical_alert_request \<Rightarrow> ustring \<Rightarrow> (wire, exn, post_outcome) prog" where
  "post_once T payload key w = (let w' = (payload, key) # w in (Inr (T w'), w'))"

definition no_response :: "string \<Rightarrow> bool \<Rightarrow> delivery_result" where
  "no_response code unknown =
     \<lparr>dr_classification = D_TRANSIENT_FAILURE, dr_upstream_status = None, dr_processing_id = None, dr_state = None,
      dr_status_url = None, dr_replayed = False, dr_decision_outcome = None, dr_error_code = Some (S code),
      dr_retryable = True, dr_acceptance_unknown = unknown\<rparr>"

definition client_key_ok :: "ustring \<Rightarrow> bool" where
  "client_key_ok key \<longleftrightarrow>
     1 \<le> length key \<and> length key \<le> 128 \<and> \<not> list_ex (\<lambda>c. \<not> (0x21 \<le> c \<and> c \<le> 0x7E)) key"

definition submit_alert ::
  "unicode_db \<Rightarrow> transport \<Rightarrow> canonical_alert \<Rightarrow> ustring \<Rightarrow> (wire, exn, delivery_result) prog"
where
  "submit_alert u T al key =
     (if \<not> client_key_ok key then raise ValueError
      else bind (lift (alert_from_domain al)) (\<lambda>payload.
           bind (post_once T payload key) (\<lambda>outcome.
           lift (case outcome of
             Post_timeout \<Rightarrow> mk_delivery_result (no_response ''upstream_timeout'' True)
           | Post_connect_error \<Rightarrow> mk_delivery_result (no_response ''upstream_connection_failed'' False)
           | Post_request_error \<Rightarrow> mk_delivery_result (no_response ''upstream_transport_failure'' True)
           | Post_response r \<Rightarrow> classify_response u r))))"

section \<open>The contract of a submitter\<close>

text \<open>What the gateway relies on: the class of a result, its status and whether it may be retried
  agree.\<close>

definition result_consistent :: "delivery_result \<Rightarrow> bool" where
  "result_consistent r \<longleftrightarrow>
     (dr_retryable r \<longleftrightarrow> dr_classification r = D_TRANSIENT_FAILURE)
     \<and> (dr_classification r = D_COMPLETED \<longrightarrow> dr_upstream_status r = Some 200)
     \<and> (dr_classification r = D_ACCEPTED \<longrightarrow> dr_upstream_status r = Some 202)
     \<and> (dr_classification r = D_PERMANENT_FAILURE \<longrightarrow> dr_upstream_status r \<in> Some ` {400, 409, 422})
     \<and> (dr_classification r = D_DURABLE_FAILURE \<longrightarrow> dr_upstream_status r = Some 500)
     \<and> (dr_acceptance_unknown r \<longrightarrow> dr_retryable r)"

lemma classified_Inr:
  "classified c rt un f = Inr r \<Longrightarrow>
   r = f\<lparr>dr_classification := c, dr_retryable := rt, dr_acceptance_unknown := un\<rparr> \<and> mk_delivery_result r = Inr r"
  by (auto simp: classified_def mk_delivery_result_def split: if_splits)

lemma response_fields_Inr:
  "response_fields u r = Inr f \<Longrightarrow> dr_upstream_status f = Some (ur_status r)"
  by (auto simp: response_fields_def Let_def and_then_Inr)

lemma classified_fields:
  "classified c rt un f = Inr r \<Longrightarrow>
   dr_classification r = c \<and> dr_retryable r = rt \<and> dr_acceptance_unknown r = un
   \<and> dr_upstream_status r = dr_upstream_status f"
  by (auto dest!: classified_Inr)

lemma classify_response_consistent:
  assumes "classify_response u r = Inr x"
  shows "result_consistent x"
proof -
  from assms obtain f where f: "response_fields u r = Inr f"
    by (auto simp: classify_response_def and_then_Inr)
  note s = response_fields_Inr [OF f]
  show ?thesis
    using assms unfolding classify_response_def f and_then_simps Let_def
    by (simp add: result_consistent_def s split: if_splits) (drule classified_fields, simp add: s)+
qed

end
