(* ===== verification/SplunkAdapter.thy ===== *)
theory SplunkAdapter
  imports SplunkMappingProps SplunkAuth SplunkClient
begin

text \<open>
  \<open>adapters/splunk/app.py\<close> and \<open>adapters/splunk/runtime.py\<close>: the gateway in front of Alert2IR, which
  authenticates a finding, canonicalizes it and submits it, and the checks of its configuration.
  A request is the chunks of its body and its headers. Routing, and the response to an exception
  that the handler does not catch, are FastAPI's.
\<close>

section \<open>Requests and responses\<close>

definition max_request_body_bytes :: nat where "max_request_body_bytes = 65536"

record finding_request =
  fr_chunks :: "bytes list"
  fr_headers :: "(ustring \<times> ustring) list"

record adapter_response =
  ad_status :: int
  ad_body :: json

definition adapter_error :: "int \<Rightarrow> string \<Rightarrow> adapter_response" where
  "adapter_error status_code err = \<lparr>ad_status = status_code, ad_body = JObj [(S ''error'', JStr (S err))]\<rparr>"

fun bounded_body_from :: "bytes \<Rightarrow> bytes list \<Rightarrow> bytes option" where
  "bounded_body_from body [] = Some body"
| "bounded_body_from body (chunk # rest_chunks) =
     (if max_request_body_bytes < length body + length chunk then None
      else bounded_body_from (body @ chunk) rest_chunks)"

definition bounded_body :: "finding_request \<Rightarrow> bytes option" where
  "bounded_body req = bounded_body_from [] (fr_chunks req)"

definition single_header :: "finding_request \<Rightarrow> string \<Rightarrow> ustring option" where
  "single_header req name = (case header_values (fr_headers req) name of [v] \<Rightarrow> Some v | _ \<Rightarrow> None)"

definition is_json_request :: "finding_request \<Rightarrow> bool" where
  "is_json_request req =
     (case header_values (fr_headers req) ''content-type'' of
        [v] \<Rightarrow> lower (strip (takeWhile (\<lambda>c. c \<noteq> 59) v)) = S ''application/json''
      | _ \<Rightarrow> False)"

definition adapter_status :: "delivery_result \<Rightarrow> int" where
  "adapter_status r =
     (case dr_classification r of
        D_COMPLETED \<Rightarrow> 200
      | D_ACCEPTED \<Rightarrow> 202
      | D_PERMANENT_FAILURE \<Rightarrow>
          (case dr_upstream_status r of
             Some s \<Rightarrow> if s = 400 \<or> s = 409 \<or> s = 422 then s else 502
           | None \<Rightarrow> 502)
      | D_DURABLE_FAILURE \<Rightarrow> 500
      | D_TRANSIENT_FAILURE \<Rightarrow>
          if dr_error_code r = Some (S ''upstream_timeout'') then 504
          else if dr_upstream_status r = Some 503 then 503
          else 502)"

text \<open>\<open>result.model_dump(mode="json", exclude_none=True)\<close>.\<close>

definition result_json :: "delivery_result \<Rightarrow> json" where
  "result_json r =
     JObj ([(S ''classification'', JStr (delivery_classification_value (dr_classification r)))]
       @ json_member ''upstream_status'' (map_option JInt (dr_upstream_status r))
       @ json_member ''processing_id'' (map_option (\<lambda>p. JStr (uuid_str p)) (dr_processing_id r))
       @ json_member ''state'' (map_option JStr (dr_state r))
       @ json_member ''status_url'' (map_option JStr (dr_status_url r))
       @ [(S ''replayed'', JBool (dr_replayed r))]
       @ json_member ''decision_outcome'' (map_option JStr (dr_decision_outcome r))
       @ json_member ''error_code'' (map_option JStr (dr_error_code r))
       @ [(S ''retryable'', JBool (dr_retryable r)), (S ''acceptance_unknown'', JBool (dr_acceptance_unknown r))])"

section \<open>The handler\<close>

text \<open>A submitter is what \<open>AlertSubmitter\<close> declares: an effect on the wire and a result.\<close>

type_synonym submitter = "canonical_alert \<Rightarrow> ustring \<Rightarrow> (wire, exn, delivery_result) prog"

definition finding_of_body :: "unicode_db \<Rightarrow> bytes \<Rightarrow> (exn + canonicalized_splunk_finding) option" where
  \<comment> \<open>None when the body is not JSON\<close>
  "finding_of_body u raw_body =
     (case json_loads True raw_body of
        None \<Rightarrow> None
      | Some decoded \<Rightarrow> Some (and_then (validate_finding u decoded) canonicalize))"

definition submit_finding ::
  "unicode_db \<Rightarrow> bytes \<Rightarrow> submitter \<Rightarrow> datetime \<Rightarrow> finding_request \<Rightarrow> (wire, exn, adapter_response) prog"
where
  "submit_finding u secret submitter now req =
     (case bounded_body req of
        None \<Rightarrow> ret (adapter_error 413 ''request_too_large'')
      | Some raw_body \<Rightarrow>
          (case verify_signature secret (single_header req ''x-alert2ir-timestamp'')
                  (single_header req ''x-alert2ir-signature'') raw_body now default_allowed_skew_seconds of
             Inl AuthenticationError \<Rightarrow> ret (adapter_error 401 ''authentication_failed'')
           | Inl AuthValueError \<Rightarrow> raise ValueError
           | Inr _ \<Rightarrow>
               if \<not> is_json_request req then ret (adapter_error 415 ''unsupported_media_type'')
               else case finding_of_body u raw_body of
                 None \<Rightarrow> ret (adapter_error 400 ''invalid_json'')
               | Some (Inl e) \<Rightarrow>
                   if is_value_error e \<or> e = TypeError then ret (adapter_error 422 ''invalid_splunk_finding'')
                   else raise e
               | Some (Inr c) \<Rightarrow>
                   bind (submitter (cz_alert c) (cz_idempotency_key c)) (\<lambda>result.
                   ret \<lparr>ad_status = adapter_status result, ad_body = result_json result\<rparr>)))"

section \<open>Configuration (\<open>runtime.py\<close>)\<close>

definition maximum_secret_file_bytes :: nat where "maximum_secret_file_bytes = 4096"

definition core_url_variable :: ustring where "core_url_variable = S ''ALERT2IR_SPLUNK_ADAPTER_CORE_URL''"
definition secret_file_variable :: ustring where "secret_file_variable = S ''ALERT2IR_SPLUNK_ADAPTER_SECRET_FILE''"
definition request_timeout_variable :: ustring where
  "request_timeout_variable = S ''ALERT2IR_SPLUNK_ADAPTER_REQUEST_TIMEOUT_SECONDS''"

text \<open>RuntimeConfigurationError is a ValueError and the only error of this part.\<close>

definition required_environment_value :: "(ustring, ustring) dict \<Rightarrow> ustring \<Rightarrow> exn + ustring" where
  "required_environment_value env name =
     (case dict_get env name of
        None \<Rightarrow> Inl ValueError
      | Some v \<Rightarrow> if v = [] \<or> v \<noteq> strip v then Inl ValueError else Inr v)"

definition request_timeout :: "unicode_db \<Rightarrow> (ustring, ustring) dict \<Rightarrow> exn + pyfloat" where
  "request_timeout u env =
     (case float_of_text u (case dict_get env request_timeout_variable of Some v \<Rightarrow> v | None \<Rightarrow> S ''5.0'') of
        None \<Rightarrow> Inl ValueError
      | Some t \<Rightarrow> if \<not> positive_finite (PFloat t) then Inl ValueError else Inr t)"

text \<open>What the file system says of a path: unreadable, or a file of some kind, size and content.\<close>

datatype file_state = Unreadable | Readable bool nat bytes

definition strip_line_end :: "bytes \<Rightarrow> bytes" where
  "strip_line_end s =
     (if 2 \<le> length s \<and> drop (length s - 2) s = [13, 10] then take (length s - 2) s
      else if s \<noteq> [] \<and> last s = 10 then butlast s else s)"

definition load_shared_secret :: "(ustring \<Rightarrow> file_state) \<Rightarrow> ustring \<Rightarrow> exn + bytes" where
  "load_shared_secret files path =
     (if take 1 path \<noteq> [47] then Inl ValueError
      else case files path of
        Unreadable \<Rightarrow> Inl ValueError
      | Readable regular st_size content \<Rightarrow>
          if \<not> regular then Inl ValueError
          else if maximum_secret_file_bytes + 2 < st_size then Inl ValueError
          else let secret = strip_line_end (take (maximum_secret_file_bytes + 2) content)
               in if maximum_secret_file_bytes < length secret then Inl ValueError
                  else case validate_shared_secret secret of Inl _ \<Rightarrow> Inl ValueError | Inr s \<Rightarrow> Inr s)"

record adapter_configuration =
  ac_core_url :: ustring
  ac_timeout :: pyfloat
  ac_secret :: bytes

definition adapter_from_environment ::
  "unicode_db \<Rightarrow> (ustring \<Rightarrow> split_url option) \<Rightarrow> (ustring \<Rightarrow> file_state) \<Rightarrow>
   (ustring, ustring) dict \<Rightarrow> exn + adapter_configuration"
where
  "adapter_from_environment u urlsplit files env =
     and_then (required_environment_value env core_url_variable) (\<lambda>core_url.
     and_then (required_environment_value env secret_file_variable) (\<lambda>secret_path.
     and_then (request_timeout u env) (\<lambda>timeout.
     and_then (load_shared_secret files secret_path) (\<lambda>secret.
     and_then (check_client urlsplit core_url (PFloat timeout)) (\<lambda>_.
     Inr \<lparr>ac_core_url = core_url, ac_timeout = timeout, ac_secret = secret\<rparr>)))))"

end
