(* ===== verification/SplunkGatewayProps.thy ===== *)
theory SplunkGatewayProps
  imports SplunkAdapter
begin

text \<open>
  The gateway between the Splunk host and Alert2IR. Its contract with the submitter is the locale
  \<open>alert_submitter\<close>, interpreted for the client; from it follow what the handler posts, and when,
  and the statuses and results of its answers.
\<close>

section \<open>Well-formed results\<close>

definition result_well_formed :: "unicode_db \<Rightarrow> delivery_result \<Rightarrow> bool" where
  "result_well_formed u r \<longleftrightarrow>
     result_consistent r \<and> mk_delivery_result r = Inr r
     \<and> (case dr_state r of None \<Rightarrow> True | Some s \<Rightarrow> s \<in> set upstream_processing_states)
     \<and> (case dr_status_url r of None \<Rightarrow> True | Some s \<Rightarrow> isprintable u s)
     \<and> (case dr_decision_outcome r of None \<Rightarrow> True | Some s \<Rightarrow> s \<in> {S ''no_action'', S ''investigate''})"

lemma bounded_visible_Some:
  "bounded_visible u v n = Some s \<Longrightarrow> length s \<le> n \<and> isprintable u s"
  by (cases v) (auto split: if_splits)

lemma status_url_visible: "status_url_of u r b = Some s \<Longrightarrow> isprintable u s"
  by (auto simp: status_url_of_def dest: bounded_visible_Some split: option.splits list.splits if_splits)

lemma decision_outcome_known:
  "decision_outcome_of b = Inr (Some s) \<Longrightarrow> s \<in> {S ''no_action'', S ''investigate''}"
  by (auto simp: decision_outcome_of_def split: pyvalue.splits if_splits)

lemma response_fields_parts:
  assumes "response_fields u r = Inr f"
  shows "case dr_state f of None \<Rightarrow> True | Some s \<Rightarrow> s \<in> set upstream_processing_states"
    and "case dr_status_url f of None \<Rightarrow> True | Some s \<Rightarrow> isprintable u s"
    and "case dr_decision_outcome f of None \<Rightarrow> True | Some s \<Rightarrow> s \<in> {S ''no_action'', S ''investigate''}"
proof -
  obtain b oc where f: "decision_outcome_of b = Inr oc" "dr_decision_outcome f = oc" "dr_state f = state_of b"
    "dr_status_url f = status_url_of u r b"
    using assms by (auto simp: response_fields_def Let_def and_then_Inr)
  show "case dr_state f of None \<Rightarrow> True | Some s \<Rightarrow> s \<in> set upstream_processing_states"
    by (simp add: f state_of_def split: option.split pyvalue.split)
  show "case dr_status_url f of None \<Rightarrow> True | Some s \<Rightarrow> isprintable u s"
    using status_url_visible [of u r b] by (simp add: f split: option.split)
  show "case dr_decision_outcome f of None \<Rightarrow> True | Some s \<Rightarrow> s \<in> {S ''no_action'', S ''investigate''}"
    using f(1,2) decision_outcome_known [of b] by (auto split: option.split)
qed

lemma classified_parts:
  "classified c rt un f = Inr r \<Longrightarrow>
   mk_delivery_result r = Inr r \<and> dr_state r = dr_state f \<and> dr_status_url r = dr_status_url f
   \<and> dr_decision_outcome r = dr_decision_outcome f"
  by (auto dest!: classified_Inr)

lemma classify_response_well_formed:
  assumes "classify_response u r = Inr x"
  shows "result_well_formed u x"
proof -
  from assms obtain f where f: "response_fields u r = Inr f"
    by (auto simp: classify_response_def and_then_Inr)
  have "mk_delivery_result x = Inr x \<and> dr_state x = dr_state f \<and> dr_status_url x = dr_status_url f
     \<and> dr_decision_outcome x = dr_decision_outcome f"
    using assms unfolding classify_response_def f and_then_simps Let_def
    by (auto split: if_splits dest!: classified_parts)
  with response_fields_parts [OF f] classify_response_consistent [OF assms] show ?thesis
    by (simp add: result_well_formed_def)
qed

lemma no_response_well_formed:
  "mk_delivery_result (no_response c b) = Inr x \<Longrightarrow> result_well_formed u x"
  by (auto simp: mk_delivery_result_def no_response_def result_well_formed_def result_consistent_def split: if_splits)

section \<open>Refused findings\<close>

text \<open>Validation fails with a ValueError only, along its whole structure.\<close>

definition only_value_error :: "exn + 'a \<Rightarrow> bool" where
  "only_value_error r \<longleftrightarrow> (case r of Inl e \<Rightarrow> e = ValueError | Inr _ \<Rightarrow> True)"

lemma only_value_error_simps [simp]:
  "only_value_error (Inr x)" "only_value_error (Inl e) \<longleftrightarrow> e = ValueError"
  by (simp_all add: only_value_error_def)

lemma only_value_error_and_then [intro!]:
  "only_value_error r \<Longrightarrow> (\<And>x. only_value_error (f x)) \<Longrightarrow> only_value_error (and_then r f)"
  by (cases r) simp_all

lemma only_value_error_required [intro!]: "(\<And>x. only_value_error (f x)) \<Longrightarrow> only_value_error (required v f)"
  by (simp add: required_def split: option.split)

lemma only_value_error_if [intro!]:
  "only_value_error r \<Longrightarrow> only_value_error s \<Longrightarrow> only_value_error (if b then r else s)"
  by simp

lemma validators_value_error [intro!]:
  "only_value_error (require_nonblank s)" "only_value_error (bounded_str n v)" "only_value_error (optional_str n w)"
  "only_value_error (parse_positive_integer v i)" "only_value_error (validate_rule_id u v)"
  "only_value_error (validate_sigma_level v)" "only_value_error (validate_timestamp_shape v)"
  "only_value_error (validate_channel u s)" "only_value_error (event_hostname_present ev)"
proof -
  show n: "only_value_error (require_nonblank s)" for s by (simp add: require_nonblank_def)
  show b: "only_value_error (bounded_str n v)" for v by (cases v) simp_all
  show "only_value_error (optional_str n w)"
    using n b by (auto simp: optional_str_def simp del: bounded_str.simps split: option.split pyvalue.split)
  show "only_value_error (parse_positive_integer v i)" by (cases v) simp_all
  show "only_value_error (validate_rule_id u v)" by (cases v) (simp_all split: option.split)
  show "only_value_error (validate_sigma_level v)" by (cases v) (simp_all split: list.split)
  show "only_value_error (validate_timestamp_shape v)" by (cases v) simp_all
  show "only_value_error (validate_channel u s)" by (simp add: validate_channel_def)
  show "only_value_error (event_hostname_present ev)" by (simp add: event_hostname_present_def)
qed

lemma validate_event_value_error [intro!]: "only_value_error (validate_event u v)"
proof (cases v)
  case (PDict d)
  show ?thesis unfolding PDict validate_event.simps by (intro only_value_error_and_then only_value_error_required validators_value_error)
qed simp_all

lemma validate_metadata_value_error [intro!]: "only_value_error (validate_detection_metadata u v)"
proof (cases v)
  case (PDict d)
  show ?thesis
    unfolding PDict validate_detection_metadata.simps
    by (intro only_value_error_if only_value_error_and_then only_value_error_required validators_value_error) simp_all
qed simp_all

lemma validate_finding_error: "validate_finding u v = Inl e \<Longrightarrow> e = ValueError"
proof -
  have "only_value_error (validate_finding u v)"
  proof (cases v)
    case (PDict d)
    show ?thesis
      unfolding PDict validate_finding.simps
      by (intro only_value_error_if only_value_error_and_then only_value_error_required validate_event_value_error
          validate_metadata_value_error) simp_all
  qed simp_all
  then show "validate_finding u v = Inl e \<Longrightarrow> e = ValueError" by simp
qed

lemma only_value_error_traverse [intro!]:
  "(\<And>x. only_value_error (f x)) \<Longrightarrow> only_value_error (traverse f xs)"
  by (induction xs) auto

lemma requests_value_error [intro!]:
  "only_value_error (detection_from_domain d)" "only_value_error (source_from_domain s)"
  "only_value_error (entity_from_domain n)" "only_value_error (evidence_from_domain v)"
proof -
  have n: "only_value_error (validate_non_empty x)" for x by (simp add: validate_non_empty_def)
  moreover have o: "only_value_error (validate_optional x)" for x
    using n by (auto simp: validate_optional_def split: option.split)
  ultimately show "only_value_error (detection_from_domain d)" "only_value_error (source_from_domain s)"
    "only_value_error (entity_from_domain n)" "only_value_error (evidence_from_domain v)"
    by (auto simp: detection_from_domain_def mk_detection_identity_request_def source_from_domain_def
        mk_source_provenance_request_def entity_from_domain_def mk_entity_request_def evidence_from_domain_def
        mk_evidence_reference_request_def)
qed

lemma alert_from_domain_error: "alert_from_domain al = Inl e \<Longrightarrow> e = ValueError"
proof -
  have "only_value_error (alert_from_domain al)"
    unfolding alert_from_domain_def
    by (intro only_value_error_and_then only_value_error_traverse requests_value_error)
       (simp add: mk_canonical_alert_request_def)
  then show "alert_from_domain al = Inl e \<Longrightarrow> e = ValueError" by simp
qed

lemma finding_of_body_error:
  assumes "finding_of_body u body = Some (Inl e)"
  shows "e = ValueError \<or> e = OverflowError"
proof -
  obtain d where d: "and_then (validate_finding u d) canonicalize = Inl e"
    using assms by (auto simp: finding_of_body_def split: option.splits)
  show ?thesis
  proof (cases "validate_finding u d")
    case (Inl x)
    with d validate_finding_error [OF Inl] show ?thesis by simp
  next
    case (Inr f)
    with d canonicalize_cases [OF validate_finding_ok [OF Inr]] show ?thesis by auto
  qed
qed

section \<open>Refusals\<close>

definition refusals :: "(int \<times> string) list" where
  "refusals = [(413, ''request_too_large''), (401, ''authentication_failed''), (415, ''unsupported_media_type''),
     (400, ''invalid_json''), (422, ''invalid_splunk_finding'')]"

definition refusal :: "adapter_response \<Rightarrow> bool" where
  "refusal resp \<longleftrightarrow> (\<exists>(s, e) \<in> set refusals. resp = adapter_error s e)"

lemma refusalI [simp]:
  "refusal (adapter_error 413 ''request_too_large'')" "refusal (adapter_error 401 ''authentication_failed'')"
  "refusal (adapter_error 415 ''unsupported_media_type'')" "refusal (adapter_error 400 ''invalid_json'')"
  "refusal (adapter_error 422 ''invalid_splunk_finding'')"
  by (auto simp: refusal_def refusals_def)

lemma refusalE:
  assumes "refusal resp"
  obtains s e where "resp = adapter_error s e" "s \<in> {400, 401, 413, 415, 422}" "length e \<le> 1000"
proof -
  from assms obtain s e where se: "(s, e) \<in> set refusals" "resp = adapter_error s e" by (auto simp: refusal_def)
  then show thesis by (intro that [of s e]) (auto simp: refusals_def)
qed

section \<open>The contract of a submitter\<close>

text \<open>A submitter posts at most once, only under a key that the API accepts, and its result is
  well formed.\<close>

locale alert_submitter =
  fixes u :: unicode_db and submit :: submitter
  assumes submit_posts:
      "submit al k w = (r, w') \<Longrightarrow> w' = w \<or> (\<exists>q. alert_from_domain al = Inr q \<and> client_key_ok k \<and> w' = (q, k) # w)"
    and submit_result: "submit al k w = (Inr x, w') \<Longrightarrow> result_well_formed u x \<and> w' \<noteq> w"
begin

lemma handler_posts:
  assumes "submit_finding u secret submit now req w = (r, w')"
  shows "w' = w \<or> (\<exists>body c q. bounded_body req = Some body
     \<and> verify_signature secret (single_header req ''x-alert2ir-timestamp'')
         (single_header req ''x-alert2ir-signature'') body now default_allowed_skew_seconds = Inr ()
     \<and> is_json_request req \<and> finding_of_body u body = Some (Inr c)
     \<and> alert_from_domain (cz_alert c) = Inr q \<and> w' = (q, cz_idempotency_key c) # w)"
  using assms
  by (auto simp: submit_finding_def ret_def raise_def bind_def split: option.splits sum.splits auth_exn.splits
      if_splits prod.splits dest!: submit_posts)

text \<open>What leaves the handler as an exception, with the posts of that run.\<close>

lemma handler_raises:
  assumes "submit_finding u secret submit now req w = (Inl e, w')" "aware now" "minimum_shared_secret_bytes \<le> length secret"
  shows "e = OverflowError \<and> w' = w
    \<or> (\<exists>al k. submit al k w = (Inl e, w'))"
proof -
  have "verify_signature secret h i body now default_allowed_skew_seconds \<noteq> Inl AuthValueError" for h i body
    using verify_signature_Inl [OF assms(3,2), of default_allowed_skew_seconds h i body AuthValueError]
    by (auto simp: default_allowed_skew_seconds_def)
  then show ?thesis
    using assms(1)
    by (auto simp: submit_finding_def ret_def raise_def bind_def split: option.splits sum.splits auth_exn.splits
        if_splits prod.splits dest: finding_of_body_error)
qed

lemma handler_response:
  assumes "submit_finding u secret submit now req w = (Inr resp, w')"
  shows "refusal resp \<and> w' = w
    \<or> (\<exists>x. result_well_formed u x \<and> resp = \<lparr>ad_status = adapter_status x, ad_body = result_json x\<rparr> \<and> w' \<noteq> w)"
  using assms
  by (auto simp: submit_finding_def ret_def raise_def bind_def split: option.splits sum.splits auth_exn.splits
      if_splits prod.splits dest!: submit_result)

end

lemma submit_alert_cases:
  assumes "submit_alert u T al k w = (r, w')"
  shows "w' = w \<and> (\<exists>e. r = Inl e) \<or> (\<exists>q. alert_from_domain al = Inr q \<and> client_key_ok k \<and> w' = (q, k) # w)"
  using assms
  by (auto simp: submit_alert_def raise_def bind_def lift_def post_once_def Let_def split: if_splits sum.splits prod.splits)

lemma submit_alert_result:
  assumes "submit_alert u T al k w = (Inr x, w')"
  shows "result_well_formed u x"
  using assms
  by (auto simp: submit_alert_def raise_def bind_def lift_def post_once_def Let_def split: if_splits sum.splits prod.splits
      post_outcome.splits dest: classify_response_well_formed no_response_well_formed)

lemma mk_delivery_result_error: "mk_delivery_result x = Inl e \<Longrightarrow> e = ValueError"
  by (simp add: mk_delivery_result_def split: if_splits)

lemma classified_error: "classified c rt un f = Inl e \<Longrightarrow> e = ValueError"
  unfolding classified_def by (rule mk_delivery_result_error)

lemma classify_response_error:
  assumes "classify_response u r = Inl e"
  shows "e = TypeError \<or> e = ValueError"
proof (cases "response_fields u r")
  case (Inl x)
  then have "x = TypeError"
    by (auto simp: response_fields_def decision_outcome_of_def Let_def split: pyvalue.splits if_splits)
  with Inl assms show ?thesis by (simp add: classify_response_def)
next
  case (Inr f)
  with assms show ?thesis
    by (auto simp: classify_response_def Let_def split: if_splits dest: classified_error)
qed

lemma submit_alert_error:
  assumes "submit_alert u T al k w = (Inl e, w')"
  shows "e = ValueError \<and> w' = w \<or> (e = TypeError \<or> e = ValueError) \<and> (\<exists>p. w' = p # w)"
  using assms
  by (auto simp: submit_alert_def raise_def bind_def lift_def post_once_def Let_def split: if_splits sum.splits prod.splits
      post_outcome.splits dest: classify_response_error mk_delivery_result_error alert_from_domain_error)

interpretation client: alert_submitter u "submit_alert u T"
proof
  fix al k w r w'
  assume "submit_alert u T al k w = (r, w')"
  then show "w' = w \<or> (\<exists>q. alert_from_domain al = Inr q \<and> client_key_ok k \<and> w' = (q, k) # w)"
    using submit_alert_cases by blast
next
  fix al k w x w'
  assume "submit_alert u T al k w = (Inr x, w')"
  then show "result_well_formed u x \<and> w' \<noteq> w"
    using submit_alert_cases submit_alert_result by fastforce
qed

section \<open>Statuses\<close>

lemma adapter_status_cases:
  assumes "result_consistent x"
  shows "adapter_status x \<in> (case dr_classification x of
      D_COMPLETED \<Rightarrow> {200} | D_ACCEPTED \<Rightarrow> {202} | D_PERMANENT_FAILURE \<Rightarrow> {400, 409, 422}
    | D_DURABLE_FAILURE \<Rightarrow> {500} | D_TRANSIENT_FAILURE \<Rightarrow> {502, 503, 504})"
  using assms by (auto simp: result_consistent_def adapter_status_def split: delivery_classification.split)

lemma retryable_statuses:
  "result_consistent x \<Longrightarrow> dr_retryable x \<longleftrightarrow> adapter_status x \<in> {502, 503, 504}"
  using adapter_status_cases [of x]
  by (cases "dr_classification x") (auto simp: result_consistent_def)

end
