(* ===== verification/SplunkAction.thy ===== *)
theory SplunkAction
  imports SplunkMapping SplunkAuth SplunkAdapter
begin

text \<open>
  \<open>integrations/splunk/alert2ir_delivery/bin/alert2ir_delivery.py\<close>: the custom alert action that
  runs on the Splunk host. It reads one result row, builds and signs a finding and delivers it to
  the gateway with at most three attempts. The file system, gzip, the CSV reader, \<open>urlsplit\<close> and
  the HTTP library are arguments; the clock may return anything.
\<close>

section \<open>Errors and bounds\<close>

text \<open>The ActionErrors of the file, the AssertionError after the loop of attempts, and other Python
  exceptions, which \<open>main\<close> does not handle.\<close>

datatype action_exn =
    ActionInputError
  | ActionConfigurationError
  | ConnectionFailure
  | RequestTimeout
  | Assertion_error
  | Uncaught exn

fun is_action_error :: "action_exn \<Rightarrow> bool" where
  "is_action_error (Uncaught e) = False"
| "is_action_error Assertion_error = False"
| "is_action_error _ = True"

definition windows_sysmon_channel :: ustring where
  "windows_sysmon_channel = S ''Microsoft-Windows-Sysmon/Operational''"

definition maximum_secret_bytes :: nat where "maximum_secret_bytes = 4096"
definition maximum_invocation_bytes :: nat where "maximum_invocation_bytes = 65536"
definition max_compressed_results_bytes :: nat where "max_compressed_results_bytes = 65536"
definition max_decompressed_results_bytes :: nat where "max_decompressed_results_bytes = 65536"
definition maximum_finding_body_bytes :: nat where "maximum_finding_body_bytes = 65536"
definition maximum_adapter_response_bytes :: nat where "maximum_adapter_response_bytes = 65536"
definition maximum_url_length :: nat where "maximum_url_length = 2048"
definition maximum_path_length :: nat where "maximum_path_length = 4096"
definition maximum_attempts :: nat where "maximum_attempts = 3"
definition retry_delays_seconds :: "nat list" where "retry_delays_seconds = [1, 2]"

lemmas action_bounds =
  maximum_secret_bytes_def maximum_invocation_bytes_def max_compressed_results_bytes_def
  max_decompressed_results_bytes_def maximum_finding_body_bytes_def maximum_adapter_response_bytes_def
  maximum_url_length_def maximum_path_length_def

definition expected_result_fields :: "ustring list" where
  "expected_result_fields = map S [''_time'', ''Computer'', ''host'', ''source'', ''sourcetype'', ''EventCode'',
     ''RecordID'', ''ProcessGuid'', ''Image'', ''ParentImage'', ''TargetFilename'']"

definition splunk_multivalue_result_fields :: "ustring list" where
  "splunk_multivalue_result_fields = map (\<lambda>f. S ''__mv_'' @ f) expected_result_fields"

section \<open>Configuration\<close>

definition require_string :: "unicode_db \<Rightarrow> action_exn \<Rightarrow> nat \<Rightarrow> pyvalue \<Rightarrow> action_exn + ustring" where
  "require_string u err maximum v =
     (case v of
        PStr s \<Rightarrow> if s = [] \<or> strip s = [] \<or> maximum < length s \<or> \<not> isprintable u s then Inl err else Inr s
      | _ \<Rightarrow> Inl err)"

definition canonical_uuid :: "unicode_db \<Rightarrow> pyvalue \<Rightarrow> action_exn + ustring" where
  "canonical_uuid u v =
     and_then (require_string u ActionConfigurationError 36 v) (\<lambda>s.
     case uuid_of_text u s of Some x \<Rightarrow> Inr (uuid_str x) | None \<Rightarrow> Inl ActionConfigurationError)"

text \<open>A malformed authority makes \<open>urlsplit\<close> raise a ValueError, which is not handled.\<close>

definition validate_adapter_url :: "unicode_db \<Rightarrow> (ustring \<Rightarrow> split_url option) \<Rightarrow> pyvalue \<Rightarrow> action_exn + ustring" where
  "validate_adapter_url u urlsplit v =
     and_then (require_string u ActionConfigurationError maximum_url_length v) (\<lambda>url.
     case urlsplit url of
       None \<Rightarrow> Inl (Uncaught ValueError)
     | Some p \<Rightarrow>
         if (su_scheme p \<noteq> S ''http'' \<and> su_scheme p \<noteq> S ''https'') \<or> su_hostname p = None \<or> su_username p \<noteq> None
            \<or> su_password p \<noteq> None \<or> su_query p \<noteq> [] \<or> su_fragment p \<noteq> []
            \<or> su_path p \<noteq> S ''/v1/splunk/findings''
         then Inl ActionConfigurationError else Inr url)"

record action_configuration =
  cf_adapter_url :: ustring
  cf_secret_file :: ustring
  cf_rule_id :: ustring
  cf_rule_title :: ustring
  cf_sigma_level :: ustring
  cf_channel :: ustring

text \<open>Membership in a frozenset: an unhashable value raises TypeError.\<close>

definition known_sigma_level :: "pyvalue \<Rightarrow> action_exn + ustring" where
  "known_sigma_level v =
     (case v of
        PStr s \<Rightarrow> if s \<in> set (map sigma_level_value sigma_levels) then Inr s else Inl ActionConfigurationError
      | PList vs \<Rightarrow> Inl (Uncaught TypeError)
      | PDict d \<Rightarrow> Inl (Uncaught TypeError)
      | _ \<Rightarrow> Inl ActionConfigurationError)"

definition mk_action_configuration ::
  "unicode_db \<Rightarrow> (ustring \<Rightarrow> split_url option) \<Rightarrow> pyvalue \<Rightarrow> pyvalue \<Rightarrow> pyvalue \<Rightarrow> pyvalue \<Rightarrow> pyvalue \<Rightarrow> pyvalue \<Rightarrow>
   action_exn + action_configuration"
where
  "mk_action_configuration u urlsplit adapter_url secret_file rule_id rule_title sigma_level channel =
     and_then (validate_adapter_url u urlsplit adapter_url) (\<lambda>url.
     and_then (canonical_uuid u rule_id) (\<lambda>rid.
     and_then (require_string u ActionConfigurationError maximum_path_length secret_file) (\<lambda>path.
     if 0 \<in> set path \<or> take 1 path \<noteq> [47] then Inl ActionConfigurationError
     else and_then (require_string u ActionConfigurationError rule_title_max_length rule_title) (\<lambda>title.
     and_then (known_sigma_level sigma_level) (\<lambda>level.
     if channel \<noteq> PStr windows_sysmon_channel then Inl ActionConfigurationError
     else Inr \<lparr>cf_adapter_url = url, cf_secret_file = path, cf_rule_id = rid, cf_rule_title = title,
               cf_sigma_level = level, cf_channel = windows_sysmon_channel\<rparr>)))))"

definition parse_invocation :: "bytes \<Rightarrow> action_exn + (ustring \<times> pyvalue) list" where
  "parse_invocation raw_payload =
     (if maximum_invocation_bytes < length raw_payload then Inl ActionInputError
      else case json_loads True raw_payload of Some (PDict d) \<Rightarrow> Inr d | _ \<Rightarrow> Inl ActionInputError)"

definition results_file_from_invocation :: "unicode_db \<Rightarrow> (ustring \<times> pyvalue) list \<Rightarrow> action_exn + ustring" where
  "results_file_from_invocation u invocation =
     and_then (require_string u ActionInputError maximum_path_length (get_value invocation ''results_file'')) (\<lambda>path.
     if 0 \<in> set path then Inl ActionInputError else Inr path)"

definition parse_configuration ::
  "unicode_db \<Rightarrow> (ustring \<Rightarrow> split_url option) \<Rightarrow> (ustring \<times> pyvalue) list \<Rightarrow> action_exn + action_configuration"
where
  "parse_configuration u urlsplit invocation =
     (case get_value invocation ''configuration'' of
        PDict d \<Rightarrow>
          if list_ex (\<lambda>k. dict_get d (S k) = None)
               [''adapter_url'', ''secret_file'', ''rule_id'', ''rule_title'', ''sigma_level'', ''channel'']
          then Inl ActionConfigurationError
          else (case mk_action_configuration u urlsplit (get_value d ''adapter_url'') (get_value d ''secret_file'')
                       (get_value d ''rule_id'') (get_value d ''rule_title'') (get_value d ''sigma_level'')
                       (get_value d ''channel'') of
                  Inl (Uncaught TypeError) \<Rightarrow> Inl ActionConfigurationError
                | r \<Rightarrow> r)
      | _ \<Rightarrow> Inl ActionConfigurationError)"

section \<open>The result row\<close>

text \<open>What opening and unpacking the artifact comes to. Corrupt compressed data raises \<open>zlib.error\<close>,
  which is neither an OSError nor an EOFError.\<close>

datatype unpacked = Unpacked bytes | Unpack_os_error | Unpack_zlib_error
datatype results_file = No_results_file | Results_file nat unpacked

text \<open>The CSV reader's records, in order; \<open>Inl\<close> is a \<open>csv.Error\<close> at that place.\<close>

type_synonym csv_reader = "ustring \<Rightarrow> (unit + ustring list) list"

definition decode_utf8_sig :: "bytes \<Rightarrow> ustring option" where
  "decode_utf8_sig bs =
     (let b = map unat bs
      in case decode_utf8 (if take 3 b = [0xEF, 0xBB, 0xBF] then drop 3 b else b) of
           Some s \<Rightarrow> if list_all encodable s then Some s else None
         | None \<Rightarrow> None)"

text \<open>\<open>next(reader, None)\<close> of a DictReader skips empty records.\<close>

fun next_row :: "(unit + ustring list) list \<Rightarrow> (action_exn + ustring list option) \<times> (unit + ustring list) list" where
  "next_row [] = (Inr None, [])"
| "next_row (Inl e # rs) = (Inl ActionInputError, rs)"
| "next_row (Inr row # rs) = (if row = [] then next_row rs else (Inr (Some row), rs))"

definition single_row :: "ustring list \<Rightarrow> (unit + ustring list) list \<Rightarrow> action_exn + (ustring, ustring) dict" where
  "single_row fieldnames records =
     (case next_row records of
        (Inl e, _) \<Rightarrow> Inl e
      | (Inr row1, rs) \<Rightarrow>
          (case next_row rs of
             (Inl e, _) \<Rightarrow> Inl e
           | (Inr row2, _) \<Rightarrow>
               (case (row1, row2) of
                  (Some row, None) \<Rightarrow>
                    if length row \<noteq> length fieldnames then Inl ActionInputError
                    else Inr (filter (\<lambda>(k, v). k \<in> set expected_result_fields) (zip fieldnames row))
                | _ \<Rightarrow> Inl ActionInputError)))"

definition read_single_result ::
  "(ustring \<Rightarrow> results_file) \<Rightarrow> csv_reader \<Rightarrow> ustring \<Rightarrow> action_exn + (ustring, ustring) dict"
where
  "read_single_result results csv path =
     (case results path of
        No_results_file \<Rightarrow> Inl ActionInputError
      | Results_file st_size unpacked \<Rightarrow>
          if max_compressed_results_bytes < st_size then Inl ActionInputError
          else case unpacked of
            Unpack_os_error \<Rightarrow> Inl ActionInputError
          | Unpack_zlib_error \<Rightarrow> Inl (Uncaught OtherError)
          | Unpacked content \<Rightarrow>
              let payload = take (max_decompressed_results_bytes + 1) content in
              if max_decompressed_results_bytes < length payload then Inl ActionInputError
              else case decode_utf8_sig payload of
                None \<Rightarrow> Inl ActionInputError
              | Some s \<Rightarrow>
                  (case csv s of
                     Inr fieldnames # records \<Rightarrow>
                       if fieldnames \<noteq> expected_result_fields
                          \<and> fieldnames \<noteq> expected_result_fields @ splunk_multivalue_result_fields
                       then Inl ActionInputError else single_row fieldnames records
                   | _ \<Rightarrow> Inl ActionInputError))"

section \<open>The finding\<close>

definition normalize_hostname_for_comparison :: "ustring \<Rightarrow> action_exn + ustring" where
  "normalize_hostname_for_comparison v =
     (let n = strip_final_dot (strip v)
      in if n = [] \<or> hostname_max_length < length n \<or> \<not> is_ascii n \<or> \<not> hostname_pattern n
         then Inl ActionInputError else Inr (lower n))"

definition compare_optional :: "ustring option \<Rightarrow> action_exn + ustring option" where
  "compare_optional v =
     (case v of None \<Rightarrow> Inr None | Some s \<Rightarrow> and_then (normalize_hostname_for_comparison s) (\<lambda>n. Inr (Some n)))"

definition validate_hostnames :: "ustring option \<Rightarrow> ustring option \<Rightarrow> action_exn + unit" where
  "validate_hostnames computer host =
     and_then (compare_optional computer) (\<lambda>nc.
     and_then (compare_optional host) (\<lambda>nh.
     if nc = None \<and> nh = None then Inl ActionInputError
     else if nc \<noteq> None \<and> nh \<noteq> None \<and> nc \<noteq> nh then Inl ActionInputError
     else Inr ()))"

definition row_value :: "(ustring, ustring) dict \<Rightarrow> string \<Rightarrow> pyvalue" where
  "row_value row k = (case dict_get row (S k) of Some s \<Rightarrow> PStr s | None \<Rightarrow> PNone)"

definition validate_event_time :: "unicode_db \<Rightarrow> pyvalue \<Rightarrow> action_exn + ustring" where
  "validate_event_time u v =
     and_then (require_string u ActionInputError 64 v) (\<lambda>s.
     if numeric_timestamp_pattern s then
       (if \<not> (decimal_le minimum_unix_epoch (decimal_of_text s)
               \<and> decimal_less (decimal_of_text s) maximum_unix_epoch_exclusive)
        then Inl ActionInputError else Inr s)
     else if \<not> rfc3339_pattern s then Inl ActionInputError
     else case rfc3339_datetime s of Inl e \<Rightarrow> Inl ActionInputError | Inr d \<Rightarrow> Inr s)"

definition decimal_integer :: "unicode_db \<Rightarrow> pyvalue \<Rightarrow> int \<Rightarrow> action_exn + ustring" where
  "decimal_integer u v maximum =
     and_then (require_string u ActionInputError 32 v) (\<lambda>s.
     if \<not> all_digits s then Inl ActionInputError
     else if int (digits_value s) < 1 \<or> maximum < int (digits_value s) then Inl ActionInputError
     else Inr (dec_nat (digits_value s)))"

definition optional_result_value ::
  "unicode_db \<Rightarrow> (ustring, ustring) dict \<Rightarrow> string \<Rightarrow> nat \<Rightarrow> action_exn + ustring option"
where
  "optional_result_value u row name maximum =
     (case dict_get row (S name) of
        None \<Rightarrow> Inr None
      | Some s \<Rightarrow> if s = [] then Inr None
                  else and_then (require_string u ActionInputError maximum (PStr s)) (\<lambda>t. Inr (Some t)))"

definition finding_json :: "action_configuration \<Rightarrow> (ustring \<times> json) list \<Rightarrow> json" where
  "finding_json config event =
     JObj [(S ''schema'', JStr splunk_finding_schema),
       (S ''detection'', JObj
         [(S ''rule_id'', JStr (cf_rule_id config)),
          (S ''rule_title'', JStr (cf_rule_title config)),
          (S ''sigma_level'', JStr (cf_sigma_level config))]),
       (S ''event'', JObj event)]"

definition build_finding :: "unicode_db \<Rightarrow> (ustring, ustring) dict \<Rightarrow> action_configuration \<Rightarrow> action_exn + json" where
  "build_finding u row config =
     and_then (optional_result_value u row ''Computer'' hostname_max_length) (\<lambda>computer.
     and_then (optional_result_value u row ''host'' hostname_max_length) (\<lambda>host.
     and_then (validate_hostnames computer host) (\<lambda>_.
     and_then (validate_event_time u (row_value row ''_time'')) (\<lambda>detected_at.
     and_then (decimal_integer u (row_value row ''EventCode'') event_code_maximum) (\<lambda>event_code.
     and_then (decimal_integer u (row_value row ''RecordID'') record_id_maximum) (\<lambda>record_id.
     and_then (optional_result_value u row ''source'' source_max_length) (\<lambda>source.
     and_then (optional_result_value u row ''sourcetype'' sourcetype_max_length) (\<lambda>sourcetype.
     and_then (optional_result_value u row ''ProcessGuid'' process_guid_max_length) (\<lambda>process_guid.
     and_then (optional_result_value u row ''Image'' image_max_length) (\<lambda>image.
     and_then (optional_result_value u row ''ParentImage'' image_max_length) (\<lambda>parent_image.
     and_then (optional_result_value u row ''TargetFilename'' image_max_length) (\<lambda>target_filename.
     Inr (finding_json config
       ([(S ''detected_at'', JStr detected_at), (S ''channel'', JStr (cf_channel config)),
         (S ''event_code'', JStr event_code), (S ''record_id'', JStr record_id)]
        @ json_member ''computer'' (map_option JStr computer) @ json_member ''host'' (map_option JStr host)
        @ json_member ''source'' (map_option JStr source) @ json_member ''sourcetype'' (map_option JStr sourcetype)
        @ json_member ''process_guid'' (map_option JStr process_guid) @ json_member ''image'' (map_option JStr image)
        @ json_member ''parent_image'' (map_option JStr parent_image)
        @ json_member ''target_filename'' (map_option JStr target_filename)))))))))))))))"

definition serialize_finding :: "json \<Rightarrow> action_exn + bytes" where
  "serialize_finding finding =
     and_then (encode_utf8 ActionInputError (dumps finding)) (\<lambda>body.
     if maximum_finding_body_bytes < length body then Inl ActionInputError else Inr body)"

section \<open>The secret and the signature\<close>

definition validate_secret :: "bytes \<Rightarrow> action_exn + bytes" where
  "validate_secret secret =
     (if \<not> (minimum_shared_secret_bytes \<le> length secret \<and> length secret \<le> maximum_secret_bytes)
      then Inl ActionConfigurationError else Inr secret)"

definition load_secret :: "(ustring \<Rightarrow> file_state) \<Rightarrow> ustring \<Rightarrow> action_exn + bytes" where
  "load_secret files path =
     (case files path of
        Unreadable \<Rightarrow> Inl ActionConfigurationError
      | Readable regular st_size content \<Rightarrow>
          if \<not> regular \<or> maximum_secret_bytes + 2 < st_size then Inl ActionConfigurationError
          else validate_secret (strip_line_end (take (maximum_secret_bytes + 3) content)))"

definition signature_header :: "bytes \<Rightarrow> ustring \<Rightarrow> bytes \<Rightarrow> action_exn + ustring" where
  "signature_header secret timestamp body =
     and_then (validate_secret secret) (\<lambda>_.
     if \<not> auth_timestamp_pattern timestamp then Inl ActionConfigurationError
     else Inr (S ''v1='' @ hex_bytes (hmac_sha256 secret (signing_context @ map of_nat timestamp @ [10] @ body))))"

section \<open>Reading the gateway's answer\<close>

record gateway_answer =
  ga_status :: int
  ga_body :: bytes

record adapter_disposition =
  di_category :: ustring
  di_retryable :: bool
  di_success :: bool
  di_status :: "int option"
  di_processing_id :: "uuid option"
  di_replayed :: bool
  di_error_code :: "ustring option"

definition disposition :: "string \<Rightarrow> bool \<Rightarrow> bool \<Rightarrow> int option \<Rightarrow> string option \<Rightarrow> adapter_disposition" where
  "disposition category retryable success status code =
     \<lparr>di_category = S category, di_retryable = retryable, di_success = success, di_status = status,
      di_processing_id = None, di_replayed = False, di_error_code = map_option S code\<rparr>"

definition bounded_response_object :: "gateway_answer \<Rightarrow> (ustring \<times> pyvalue) list option" where
  "bounded_response_object r =
     (if maximum_adapter_response_bytes < length (ga_body r) then None
      else case json_loads True (ga_body r) of Some (PDict d) \<Rightarrow> Some d | _ \<Rightarrow> None)"

definition fallback_disposition :: "int \<Rightarrow> adapter_disposition" where
  "fallback_disposition status =
     (if status = 200 \<or> status = 202 then disposition ''success'' False True (Some status) None
      else if 300 \<le> status \<and> status \<le> 499
        then disposition ''permanent_failure'' False False (Some status) (Some ''unexpected_adapter_response'')
      else disposition ''transient_failure'' True False (Some status) (Some ''unexpected_adapter_response''))"

text \<open>The contract of a classification: its statuses, whether it is retryable, category, success.\<close>

definition gateway_contract :: "ustring \<Rightarrow> (int list \<times> bool \<times> string \<times> bool) option" where
  "gateway_contract c =
     map_of
       [(S ''completed'', ([200], False, ''success'', True)),
        (S ''accepted'', ([202], False, ''success'', True)),
        (S ''permanent_failure'', ([400, 409, 422], False, ''permanent_failure'', False)),
        (S ''durable_failure'', ([500], False, ''durable_failure'', False)),
        (S ''transient_failure'', ([502, 503, 504], True, ''transient_failure'', False))] c"

definition classify_adapter_response :: "unicode_db \<Rightarrow> gateway_answer \<Rightarrow> action_exn + adapter_disposition" where
  "classify_adapter_response u r =
     (if \<not> (100 \<le> ga_status r \<and> ga_status r \<le> 599) then Inl ActionInputError
      else case bounded_response_object r of
        None \<Rightarrow> Inr (fallback_disposition (ga_status r))
      | Some body \<Rightarrow>
          (case get_value body ''classification'' of
             PList vs \<Rightarrow> Inl (Uncaught TypeError)
           | PDict d \<Rightarrow> Inl (Uncaught TypeError)
           | PStr c \<Rightarrow>
               (case gateway_contract c of
                  None \<Rightarrow> Inr (fallback_disposition (ga_status r))
                | Some (statuses, expected_retryable, category, success) \<Rightarrow>
                    if ga_status r \<notin> set statuses \<or> get_value body ''retryable'' \<noteq> PBool expected_retryable
                    then Inr (fallback_disposition (ga_status r))
                    else Inr \<lparr>di_category = S category, di_retryable = expected_retryable, di_success = success,
                              di_status = Some (ga_status r),
                              di_processing_id = processing_id_of u (get_value body ''processing_id''),
                              di_replayed = (get_value body ''replayed'' = PBool True),
                              di_error_code = error_code_at body ''error_code''\<rparr>)
           | _ \<Rightarrow> Inr (fallback_disposition (ga_status r))))"

section \<open>Delivery\<close>

text \<open>What opening the URL and reading the answer come to: a response, an HTTP error whose body may
  fail to be read, or an exception of the library. While the body of an HTTP error is read, an
  exception that is not an OSError is not handled.\<close>

datatype body_read = Body bytes | Body_timeout | Body_os_error | Body_other_error

datatype opened =
    Opened int bytes
  | Open_http_error int body_read
  | Open_timeout
  | Open_url_error bool
  | Open_http_exception
  | Open_os_error
  | Open_other_error

definition read_http_body :: "bytes \<Rightarrow> bytes" where
  "read_http_body content =
     (let body = take (maximum_adapter_response_bytes + 1) content
      in if length body \<le> maximum_adapter_response_bytes then body else [])"

definition http_post_result :: "opened \<Rightarrow> action_exn + gateway_answer" where
  "http_post_result r =
     (case r of
        Opened status content \<Rightarrow> Inr \<lparr>ga_status = status, ga_body = read_http_body content\<rparr>
      | Open_http_error status body \<Rightarrow>
          (case body of
             Body content \<Rightarrow> Inr \<lparr>ga_status = status, ga_body = read_http_body content\<rparr>
           | Body_timeout \<Rightarrow> Inl RequestTimeout
           | Body_os_error \<Rightarrow> Inl ConnectionFailure
           | Body_other_error \<Rightarrow> Inl (Uncaught OtherError))
      | Open_timeout \<Rightarrow> Inl RequestTimeout
      | Open_url_error timed_out \<Rightarrow> Inl (if timed_out then RequestTimeout else ConnectionFailure)
      | Open_http_exception \<Rightarrow> Inl ConnectionFailure
      | Open_os_error \<Rightarrow> Inl ConnectionFailure
      | Open_other_error \<Rightarrow> Inl (Uncaught OtherError))"

text \<open>The posts with their headers and the sleeps, latest first. The clock and the transport see
  them, so every reading and every answer may differ.\<close>

record delivery_post =
  dp_url :: ustring
  dp_body :: bytes
  dp_headers :: "(ustring \<times> ustring) list"

record delivery_world =
  dw_posts :: "delivery_post list"
  dw_sleeps :: "nat list"

record delivery_env =
  dv_clock :: "delivery_world \<Rightarrow> pyvalue"
  dv_open :: "delivery_world \<Rightarrow> opened"

type_synonym 'a delivery = "(delivery_world, action_exn, 'a) prog"

definition timestamp_from_clock :: "pyvalue \<Rightarrow> action_exn + ustring" where
  "timestamp_from_clock v =
     and_then (case v of
         PInt i \<Rightarrow> if i < 0 then Inl ActionConfigurationError else Inr i
       | PFloat (Finite neg m q) \<Rightarrow>
           if neg \<and> m \<noteq> 0 then Inl ActionConfigurationError else Inr (float_trunc neg m q)
       | _ \<Rightarrow> Inl ActionConfigurationError) (\<lambda>i.
     let timestamp = dec_int i
     in if \<not> auth_timestamp_pattern timestamp then Inl ActionConfigurationError else Inr timestamp)"

definition transport_post :: "delivery_env \<Rightarrow> ustring \<Rightarrow> bytes \<Rightarrow> (ustring \<times> ustring) list \<Rightarrow> gateway_answer delivery" where
  "transport_post E url body headers w =
     (let w' = w\<lparr>dw_posts := \<lparr>dp_url = url, dp_body = body, dp_headers = headers\<rparr> # dw_posts w\<rparr>
      in (http_post_result (dv_open E w'), w'))"

definition transient_exception_disposition :: "action_exn \<Rightarrow> adapter_disposition" where
  "transient_exception_disposition e =
     disposition ''transient_failure'' True False None
       (Some (if e = RequestTimeout then ''adapter_timeout'' else ''adapter_connection_failed''))"

record delivery_outcome =
  do_success :: bool
  do_attempts :: nat
  do_category :: ustring
  do_status :: "int option"
  do_processing_id :: "uuid option"
  do_replayed :: bool
  do_error_code :: "ustring option"

text \<open>One attempt: a fresh timestamp and signature, one post, and its disposition.\<close>

definition delivery_attempt ::
  "unicode_db \<Rightarrow> delivery_env \<Rightarrow> action_configuration \<Rightarrow> bytes \<Rightarrow> bytes \<Rightarrow> adapter_disposition delivery"
where
  "delivery_attempt u E config secret body =
     bind (bind (asks (dv_clock E)) (\<lambda>now. lift (timestamp_from_clock now))) (\<lambda>timestamp.
     bind (lift (signature_header secret timestamp body)) (\<lambda>signature.
     bind (attempt (bind (transport_post E (cf_adapter_url config) body
              [(S ''Content-Type'', S ''application/json''), (S ''X-Alert2IR-Timestamp'', timestamp),
               (S ''X-Alert2IR-Signature'', signature)])
              (\<lambda>r. lift (classify_adapter_response u r)))) (\<lambda>r.
     case r of
       Inr d \<Rightarrow> ret d
     | Inl e \<Rightarrow> if e = ConnectionFailure \<or> e = RequestTimeout then ret (transient_exception_disposition e)
                else raise e)))"

text \<open>The loop over \<open>n\<close> remaining attempts; running out of them is an AssertionError.\<close>

primrec delivery_loop ::
  "unicode_db \<Rightarrow> delivery_env \<Rightarrow> action_configuration \<Rightarrow> bytes \<Rightarrow> bytes \<Rightarrow> nat \<Rightarrow> delivery_outcome delivery"
where
  "delivery_loop u E config secret body 0 = raise Assertion_error"
| "delivery_loop u E config secret body (Suc n) =
     (let number = maximum_attempts - n in
      bind (delivery_attempt u E config secret body) (\<lambda>d.
      if di_success d \<or> \<not> di_retryable d \<or> number = maximum_attempts
      then ret \<lparr>do_success = di_success d, do_attempts = number, do_category = di_category d, do_status = di_status d,
                do_processing_id = di_processing_id d, do_replayed = di_replayed d, do_error_code = di_error_code d\<rparr>
      else then_do (modify (\<lambda>w. w\<lparr>dw_sleeps := retry_delays_seconds ! (number - 1) # dw_sleeps w\<rparr>))
           (delivery_loop u E config secret body n)))"

definition deliver ::
  "unicode_db \<Rightarrow> delivery_env \<Rightarrow> action_configuration \<Rightarrow> bytes \<Rightarrow> bytes \<Rightarrow> delivery_outcome delivery"
where
  "deliver u E config secret body =
     (if maximum_finding_body_bytes < length body then raise ActionInputError
      else bind (lift (validate_secret secret)) (\<lambda>_. delivery_loop u E config secret body maximum_attempts))"

text \<open>What the host gives the action: the library functions and files, and the network.\<close>

record host =
  ho_unicode :: unicode_db
  ho_urlsplit :: "ustring \<Rightarrow> split_url option"
  ho_results :: "ustring \<Rightarrow> results_file"
  ho_csv :: csv_reader
  ho_files :: "ustring \<Rightarrow> file_state"
  ho_delivery :: delivery_env

definition prepare_delivery ::
  "host \<Rightarrow> (ustring \<times> pyvalue) list \<Rightarrow> action_exn + action_configuration \<times> bytes \<times> bytes"
where
  "prepare_delivery H invocation =
     and_then (parse_configuration (ho_unicode H) (ho_urlsplit H) invocation) (\<lambda>config.
     and_then (results_file_from_invocation (ho_unicode H) invocation) (\<lambda>path.
     and_then (read_single_result (ho_results H) (ho_csv H) path) (\<lambda>row.
     and_then (build_finding (ho_unicode H) row config) (\<lambda>finding.
     and_then (serialize_finding finding) (\<lambda>body.
     and_then (load_secret (ho_files H) (cf_secret_file config)) (\<lambda>secret.
     Inr (config, body, secret)))))))"

definition execute_invocation :: "host \<Rightarrow> (ustring \<times> pyvalue) list \<Rightarrow> delivery_outcome delivery" where
  "execute_invocation H invocation =
     bind (lift (prepare_delivery H invocation)) (\<lambda>(config, body, secret).
     deliver (ho_unicode H) (ho_delivery H) config secret body)"

text \<open>\<open>main\<close>: the exit code. An exception that is not an ActionError ends the interpreter.\<close>

definition run_action :: "host \<Rightarrow> ustring list \<Rightarrow> bytes \<Rightarrow> int delivery" where
  "run_action H arguments stdin =
     (if arguments \<noteq> [S ''--execute''] then ret 1
      else bind (attempt (
          bind (lift (let v = take (maximum_invocation_bytes + 1) stdin
                      in if maximum_invocation_bytes < length v then Inl ActionInputError else parse_invocation v))
            (execute_invocation H))) (\<lambda>r.
        case r of
          Inl e \<Rightarrow> if is_action_error e then ret 1 else raise e
        | Inr outcome \<Rightarrow> ret (if do_success outcome then 0 else 1)))"

end
