(* ===== verification/SplunkDeliveryProps.thy ===== *)
theory SplunkDeliveryProps
  imports SplunkGatewayProps SplunkAction
begin

text \<open>
  The delivery action against the gateway: the loop of attempts, the reading of the gateway's
  answers, and the acceptance of the findings it builds by the gateway's validation.
\<close>

section \<open>Lookup in printed objects\<close>

lemma dict_get_append: "dict_get (xs @ ys) k = (case dict_get xs k of Some v \<Rightarrow> Some v | None \<Rightarrow> dict_get ys k)"
  by (auto simp: dict_get_def map_add_def split: option.splits)

lemma dict_get_Cons: "dict_get ((k', v) # xs) k = (if k = k' then Some v else dict_get xs k)"
  by (simp add: dict_get_def)

lemma dict_get_map: "dict_get (map (\<lambda>(k, v). (k, f v)) xs) k = map_option f (dict_get xs k)"
  by (simp add: dict_get_def map_of_map)

lemma dict_get_map_prod: "dict_get (map (map_prod id f) xs) k = map_option f (dict_get xs k)"
  by (induction xs) (auto simp: dict_get_def)

lemma dict_get_member: "dict_get (json_member k v) (S k') = (if k' = k then v else None)"
  by (cases v) (auto simp: json_member_def dict_get_def)

lemmas dict_gets = dict_get_append dict_get_Cons dict_get_map dict_get_member

lemma dict_get_sorted:
  fixes ms :: "(ustring \<times> json) list"
  assumes "distinct (map fst ms)"
  shows "dict_get (sort_key fst ms) k = dict_get ms k"
proof -
  have "distinct (map fst (sort_key fst ms))"
    using assms by (metis distinct_map distinct_sort set_sort)
  then show ?thesis
    using assms by (metis dict_get_def map_of_eqI map_of_inject_set set_sort set_map)
qed

text \<open>What the receiver of a printed object sees: the members, looked up by name.\<close>

definition sent_object :: "(ustring \<times> json) list \<Rightarrow> (ustring \<times> pyvalue) list" where
  "sent_object ms = map (\<lambda>(k, v). (k, py_of_json v)) (sort_key fst (map (map_prod id sort_json) ms))"

lemma sent_object_py: "py_of_json (sort_json (JObj ms)) = PDict (sent_object ms)"
  by (simp add: sent_object_def)

lemma sent_object_get:
  assumes "distinct (map fst ms)"
  shows "dict_get (sent_object ms) k = map_option (\<lambda>v. py_of_json (sort_json v)) (dict_get ms k)"
proof -
  have "distinct (map fst (map (map_prod id sort_json) ms))" using assms by (simp add: comp_def)
  then show ?thesis
    unfolding sent_object_def dict_get_map
    by (subst dict_get_sorted) (simp_all add: dict_get_map_prod option.map_comp comp_def)
qed

lemma sent_object_names: "member_names (sent_object ms) ks \<longleftrightarrow> list_all (\<lambda>(k, v). k \<in> set (map S ks)) ms"
  by (auto simp: member_names_def sent_object_def list_all_iff)

lemma json_readable_sorted: "json_readable v \<Longrightarrow> json_readable (sort_json v)"
proof (induction v)
  case (JObj ms)
  have "distinct (map fst (map (map_prod id sort_json) ms))" using JObj by (simp add: comp_def)
  then have "distinct (map fst (sort_key fst (map (map_prod id sort_json) ms)))"
    by (metis distinct_map distinct_sort set_sort)
  with JObj show ?case by auto
qed auto

section \<open>Sizes of printed text\<close>

lemma length_escape: "length (escape_cp c) \<le> 6"
  by (simp add: escape_cp_def)

lemma length_quote: "length (quote s) \<le> 2 + 6 * length s"
proof -
  have "length (concat (map escape_cp s)) \<le> 6 * length s"
    by (induction s) (use length_escape in \<open>auto intro: add_mono\<close>)
  then show ?thesis by (simp add: quote_def)
qed

lemma length_utf8: "length (utf8_bytes s) \<le> 4 * length s"
proof -
  have "length (utf8_units c) \<le> 4" for c by (simp add: utf8_units_def)
  then have "length (concat (map utf8_units s)) \<le> 4 * length s"
    by (induction s) (auto intro: add_mono)
  then show ?thesis by (simp add: utf8_bytes_def)
qed

definition member_size :: "ustring \<times> json \<Rightarrow> nat" where
  "member_size m = length (quote (fst m)) + length (print_json (snd m)) + 2"

lemma length_members: "length (print_members ms) \<le> sum_list (map member_size ms)"
proof (induction ms rule: induct_list012)
  case (2 m)
  then show ?case by (cases m) (simp add: member_size_def)
next
  case (3 m n ns)
  then show ?case by (cases m) (simp add: member_size_def)
qed simp

section \<open>The gateway's answers\<close>

lemma json_member_simps [simp]: "json_member k None = []" "json_member k (Some v) = [(S k, v)]"
  by (simp_all add: json_member_def)

lemma states_text: "s \<in> set upstream_processing_states \<Longrightarrow> length s \<le> 17 \<and> list_all encodable s"
  by (auto simp: upstream_processing_states_def)

lemma safe_error_code_encodable: "safe_error_code s \<Longrightarrow> list_all encodable s"
  by (auto simp: safe_error_code_def list_all_iff encodable_def is_digit_def)

lemma printable_encodable: "unicode_ok u \<Longrightarrow> isprintable u s \<Longrightarrow> list_all encodable s"
  by (auto simp: unicode_ok_def isprintable_def list_all_iff encodable_def)

lemma classification_text: "length (delivery_classification_value c) \<le> 17" "list_all encodable (delivery_classification_value c)"
  by (cases c; simp)+

lemma uuid_str_encodable: "list_all encodable (uuid_str x)"
  using uuid_str_text(2) .

text \<open>The facts of a well-formed result that bound its text.\<close>

lemma well_formed_parts:
  assumes "result_well_formed u r" "unicode_ok u"
  shows "dr_upstream_status r = Some s \<Longrightarrow> 100 \<le> s \<and> s \<le> 599"
    and "dr_state r = Some t \<Longrightarrow> length t \<le> 17 \<and> list_all encodable t"
    and "dr_status_url r = Some t \<Longrightarrow> length t \<le> 2048 \<and> list_all encodable t"
    and "dr_decision_outcome r = Some t \<Longrightarrow> length t \<le> 11 \<and> list_all encodable t"
    and "dr_error_code r = Some t \<Longrightarrow> length t \<le> 64 \<and> list_all encodable t \<and> safe_error_code t"
  using assms states_text printable_encodable [OF assms(2)] safe_error_code_encodable
  by (auto simp: result_well_formed_def mk_delivery_result_def maximum_status_url_length_def safe_error_code_def
      split: if_splits)

lemma dec_int_small: "100 \<le> s \<Longrightarrow> s \<le> 599 \<Longrightarrow> length (dec_int s) \<le> 3"
  by (rule dec_int_length) simp_all

lemma str_member_size: "member_size (S k, JStr s) \<le> 6 * (length k + length s) + 6"
  using length_quote [of s] length_quote [of "S k"] by (simp add: member_size_def)

lemma bool_member_size: "member_size (S k, JBool b) \<le> 6 * length k + 9"
  using length_quote [of "S k"] by (simp add: member_size_def)

lemma int_member_size: "length (dec_int i) \<le> n \<Longrightarrow> member_size (S k, JInt i) \<le> 6 * length k + n + 4"
  using length_quote [of "S k"] by (simp add: member_size_def)

lemma result_members_size:
  assumes "result_well_formed u r" "unicode_ok u"
  shows "length (print_json (result_json r)) \<le> 15000"
proof -
  note p = well_formed_parts [OF assms]
  have a: "member_size (S ''classification'', JStr (delivery_classification_value c)) \<le> 200" for c
    using str_member_size [of "''classification''" "delivery_classification_value c"] classification_text(1) [of c] by simp
  have b: "sum_list (map member_size (json_member ''upstream_status'' (map_option JInt (dr_upstream_status r)))) \<le> 100"
  proof (cases "dr_upstream_status r")
    case (Some s)
    with int_member_size [OF dec_int_small, of s "''upstream_status''"] p(1) show ?thesis by simp
  qed simp
  have c: "sum_list (map member_size (json_member ''processing_id'' (map_option (\<lambda>x. JStr (uuid_str x)) (dr_processing_id r)))) \<le> 300"
  proof (cases "dr_processing_id r")
    case (Some x)
    with str_member_size [of "''processing_id''" "uuid_str x"] show ?thesis by simp
  qed simp
  have str: "sum_list (map member_size (json_member k (map_option JStr v))) \<le> 6 * (length k + n) + 6"
    if "\<And>s. v = Some s \<Longrightarrow> length s \<le> n" for k v n
  proof (cases v)
    case (Some s)
    with str_member_size [of k s] that [OF Some] show ?thesis by simp
  qed simp
  note d = str [of "dr_state r" 17 "''state''"] and e = str [of "dr_status_url r" 2048 "''status_url''"]
    and f = str [of "dr_decision_outcome r" 11 "''decision_outcome''"] and g = str [of "dr_error_code r" 64 "''error_code''"]
  have h: "member_size (S ''replayed'', JBool x) \<le> 60" "member_size (S ''retryable'', JBool y) \<le> 64"
    "member_size (S ''acceptance_unknown'', JBool z) \<le> 120" for x y z
    using bool_member_size [of "''replayed''" x] bool_member_size [of "''retryable''" y]
      bool_member_size [of "''acceptance_unknown''" z] by simp_all
  obtain ms where ms: "result_json r = JObj ms" "sum_list (map member_size ms) \<le> 14900"
    using a [of "dr_classification r"] b c d [OF p(2) [THEN conjunct1]] e [OF p(3) [THEN conjunct1]]
      f [OF p(4) [THEN conjunct1]] g [OF p(5) [THEN conjunct1]] h(1) [of "dr_replayed r"]
      h(2) [of "dr_retryable r"] h(3) [of "dr_acceptance_unknown r"]
    by (simp add: result_json_def)
  then show ?thesis using length_members [of ms] by simp
qed

lemma member_facts:
  "distinct (map fst (json_member k v))"
  "x \<in> fst ` set (json_member k v) \<longleftrightarrow> v \<noteq> None \<and> x = S k"
  "(x, y) \<in> set (json_member k v) \<longleftrightarrow> x = S k \<and> v = Some y"
  "(\<forall>m \<in> set (json_member k v). P m) \<longleftrightarrow> (case v of None \<Rightarrow> True | Some x \<Rightarrow> P (S k, x))"
  by (cases v; auto)+

lemma result_json_readable:
  assumes "result_well_formed u r" "unicode_ok u"
  shows "json_readable (result_json r)" "json_encodable (result_json r)"
proof -
  note p = well_formed_parts [OF assms]
  have i: "length (dec_nat (nat \<bar>s\<bar>)) \<le> int_digits_limit" if "dr_upstream_status r = Some s" for s
    using dec_nat_length [of "nat \<bar>s\<bar>" 3] p(1) [OF that] by (simp add: int_digits_limit_def nat_less_iff)
  show "json_readable (result_json r)"
    using i by (auto simp: result_json_def member_facts split: option.split)
  show "json_encodable (result_json r)"
    using p(2-) by (auto simp: result_json_def member_facts classification_text uuid_str_encodable split: option.split)
qed

section \<open>How the action reads them\<close>

text \<open>The answer as it arrives: FastAPI prints the content in compact form as UTF-8.\<close>

definition answer_of :: "adapter_response \<Rightarrow> gateway_answer" where
  "answer_of resp = \<lparr>ga_status = ad_status resp, ga_body = utf8_bytes (print_json (ad_body resp))\<rparr>"

lemma answer_object:
  assumes "json_readable j" "json_encodable j" "length (print_json j) \<le> 15000" "ad_body resp = j" "j = JObj ms"
  shows "bounded_response_object (answer_of resp) = Some (map (\<lambda>(k, v). (k, py_of_json v)) ms)"
  using assms length_utf8 [of "print_json j"] loads_print [of j True] print_json_encodable(1) [of j]
  by (auto simp: bounded_response_object_def answer_of_def maximum_adapter_response_bytes_def)

text \<open>What the action makes of a result: its class becomes the category.\<close>

fun action_category :: "delivery_classification \<Rightarrow> ustring" where
  "action_category D_PERMANENT_FAILURE = S ''permanent_failure''"
| "action_category D_DURABLE_FAILURE = S ''durable_failure''"
| "action_category D_TRANSIENT_FAILURE = S ''transient_failure''"
| "action_category _ = S ''success''"

definition disposition_of :: "delivery_result \<Rightarrow> adapter_disposition" where
  "disposition_of x =
     \<lparr>di_category = action_category (dr_classification x), di_retryable = dr_retryable x,
      di_success = (dr_classification x = D_COMPLETED \<or> dr_classification x = D_ACCEPTED),
      di_status = Some (adapter_status x), di_processing_id = dr_processing_id x, di_replayed = dr_replayed x,
      di_error_code = dr_error_code x\<rparr>"

lemma contract_of_class:
  "gateway_contract (delivery_classification_value c) =
     Some (case c of D_COMPLETED \<Rightarrow> [200] | D_ACCEPTED \<Rightarrow> [202] | D_PERMANENT_FAILURE \<Rightarrow> [400, 409, 422]
       | D_DURABLE_FAILURE \<Rightarrow> [500] | D_TRANSIENT_FAILURE \<Rightarrow> [502, 503, 504],
       c = D_TRANSIENT_FAILURE,
       case c of D_PERMANENT_FAILURE \<Rightarrow> ''permanent_failure'' | D_DURABLE_FAILURE \<Rightarrow> ''durable_failure''
         | D_TRANSIENT_FAILURE \<Rightarrow> ''transient_failure'' | _ \<Rightarrow> ''success'',
       c = D_COMPLETED \<or> c = D_ACCEPTED)"
  by (cases c) (simp_all add: gateway_contract_def)

lemma action_category_simp:
  "action_category c = S (case c of D_PERMANENT_FAILURE \<Rightarrow> ''permanent_failure'' | D_DURABLE_FAILURE \<Rightarrow> ''durable_failure''
         | D_TRANSIENT_FAILURE \<Rightarrow> ''transient_failure'' | _ \<Rightarrow> ''success'')"
  by (cases c) simp_all

lemma action_reads_result:
  assumes "result_well_formed u x" "unicode_ok u"
  shows "classify_adapter_response v (answer_of \<lparr>ad_status = adapter_status x, ad_body = result_json x\<rparr>)
    = Inr (disposition_of x)"
proof -
  have cons: "result_consistent x" using assms(1) by (simp add: result_well_formed_def)
  note st = adapter_status_cases [OF cons]
  let ?r = "answer_of \<lparr>ad_status = adapter_status x, ad_body = result_json x\<rparr>"
  obtain ms where ms: "result_json x = JObj ms" by (simp add: result_json_def)
  let ?d = "map (\<lambda>(k, v). (k, py_of_json v)) ms"
  have o: "bounded_response_object ?r = Some ?d"
    using result_json_readable [OF assms] result_members_size [OF assms] ms by (intro answer_object) simp_all
  have get: "get_value ?d ''classification'' = PStr (delivery_classification_value (dr_classification x))"
    "get_value ?d ''retryable'' = PBool (dr_retryable x)" "get_value ?d ''replayed'' = PBool (dr_replayed x)"
    "get_value ?d ''processing_id'' = (case dr_processing_id x of Some p \<Rightarrow> PStr (uuid_str p) | None \<Rightarrow> PNone)"
    "get_value ?d ''error_code'' = (case dr_error_code x of Some c \<Rightarrow> PStr c | None \<Rightarrow> PNone)"
    using ms by (cases "dr_processing_id x"; cases "dr_error_code x"; auto simp: get_value_def dict_gets result_json_def)+
  have s: "100 \<le> adapter_status x \<and> adapter_status x \<le> 599"
    using st by (auto split: delivery_classification.splits)
  have r: "dr_retryable x = (dr_classification x = D_TRANSIENT_FAILURE)" using cons by (simp add: result_consistent_def)
  have e: "error_code_at ?d ''error_code'' = dr_error_code x"
    using well_formed_parts(5) [OF assms] by (auto simp: error_code_at_def get(5) split: option.split)
  have p: "processing_id_of v (get_value ?d ''processing_id'') = dr_processing_id x"
    by (simp add: get(4) split: option.split)
  have in_contract: "adapter_status x \<in> set (case dr_classification x of D_COMPLETED \<Rightarrow> [200] | D_ACCEPTED \<Rightarrow> [202]
      | D_PERMANENT_FAILURE \<Rightarrow> [400, 409, 422] | D_DURABLE_FAILURE \<Rightarrow> [500] | D_TRANSIENT_FAILURE \<Rightarrow> [502, 503, 504])"
    using st by (cases "dr_classification x") auto
  have a: "ga_status ?r = adapter_status x" by (simp add: answer_of_def)
  show ?thesis
    using s in_contract
    by (simp add: classify_adapter_response_def o a get(1,2,3) contract_of_class r e p disposition_of_def
        action_category_simp)
qed

lemma action_reads_error:
  assumes "s \<in> {400, 401, 413, 415, 422}" "length e \<le> 1000"
  shows "classify_adapter_response v (answer_of (adapter_error s e))
    = Inr (disposition ''permanent_failure'' False False (Some s) (Some ''unexpected_adapter_response''))"
proof -
  let ?j = "JObj [(S ''error'', JStr (S e))]"
  have "length (print_json ?j) \<le> 15000"
    using length_quote [of "S e"] length_quote [of "S ''error''"] assms(2) by simp
  then have o: "bounded_response_object (answer_of (adapter_error s e)) = Some [(S ''error'', PStr (S e))]"
    using answer_object [of ?j "adapter_error s e"] by (simp add: adapter_error_def)
  have g: "get_value [(S ''error'', PStr (S e))] ''classification'' = PNone"
    by (simp add: get_value_def dict_gets(2))
  have r: "ga_status (answer_of (adapter_error s e)) = s" by (simp add: answer_of_def adapter_error_def)
  have s: "400 \<le> s" "s \<le> 422" using assms(1) by auto
  then have f: "fallback_disposition s = disposition ''permanent_failure'' False False (Some s) (Some ''unexpected_adapter_response'')"
    by (simp add: fallback_disposition_def)
  show ?thesis using s by (simp add: classify_adapter_response_def o g r f)
qed

section \<open>The loop of attempts\<close>

text \<open>Every post carries the same body, signed under a timestamp of its own.\<close>

definition signed_headers :: "bytes \<Rightarrow> bytes \<Rightarrow> ustring \<Rightarrow> (ustring \<times> ustring) list" where
  "signed_headers secret body ts =
     [(S ''Content-Type'', S ''application/json''), (S ''X-Alert2IR-Timestamp'', ts),
      (S ''X-Alert2IR-Signature'', S ''v1='' @ request_signature secret ts body)]"

definition signed_post :: "action_configuration \<Rightarrow> bytes \<Rightarrow> bytes \<Rightarrow> delivery_post \<Rightarrow> bool" where
  "signed_post config secret body p \<longleftrightarrow>
     dp_url p = cf_adapter_url config \<and> dp_body p = body
     \<and> (\<exists>ts. auth_timestamp_pattern ts \<and> dp_headers p = signed_headers secret body ts)"

definition disposition_ok :: "adapter_disposition \<Rightarrow> bool" where
  "disposition_ok d \<longleftrightarrow>
     (di_retryable d \<longleftrightarrow> di_category d = S ''transient_failure'') \<and> (di_success d \<longleftrightarrow> di_category d = S ''success'')"

lemma fallback_ok: "disposition_ok (fallback_disposition s)"
  by (simp add: fallback_disposition_def disposition_def disposition_ok_def)

lemma contract_ok:
  "gateway_contract c = Some (ss, rt, cat, ok) \<Longrightarrow> (rt \<longleftrightarrow> cat = ''transient_failure'') \<and> (ok \<longleftrightarrow> cat = ''success'')"
  by (auto simp: gateway_contract_def split: if_splits)

lemma classify_ok:
  assumes "classify_adapter_response u r = Inr d"
  shows "disposition_ok d"
proof (cases "bounded_response_object r")
  case None
  with assms fallback_ok show ?thesis by (auto simp: classify_adapter_response_def split: if_splits)
next
  case (Some b)
  show ?thesis
  proof (cases "get_value b ''classification''")
    case (PStr c)
    with Some assms fallback_ok show ?thesis
      by (auto simp: classify_adapter_response_def disposition_ok_def dest!: contract_ok split: if_splits option.splits)
  qed (use Some assms fallback_ok in \<open>auto simp: classify_adapter_response_def split: if_splits\<close>)
qed

lemma classify_error:
  assumes "classify_adapter_response u r = Inl e"
  shows "e = ActionInputError \<or> e = Uncaught TypeError"
  using assms by (auto simp: classify_adapter_response_def split: if_splits option.splits pyvalue.splits)

lemma signature_header_Inr:
  "signature_header secret ts body = Inr h \<Longrightarrow>
   auth_timestamp_pattern ts \<and> h = S ''v1='' @ request_signature secret ts body"
  by (auto simp: signature_header_def and_then_Inr request_signature_def split: if_splits)

lemma signature_header_Inl: "signature_header secret ts body = Inl e \<Longrightarrow> e = ActionConfigurationError"
  by (auto simp: signature_header_def validate_secret_def split: if_splits)

lemma timestamp_from_clock_Inl: "timestamp_from_clock v = Inl e \<Longrightarrow> e = ActionConfigurationError"
  by (auto simp: timestamp_from_clock_def Let_def split: pyvalue.splits pyfloat.splits if_splits)

definition loop_error :: "action_exn \<Rightarrow> bool" where
  "loop_error e \<longleftrightarrow> e \<in> {ActionConfigurationError, ActionInputError, Uncaught TypeError, Uncaught OtherError}"

lemma delivery_attempt_cases:
  assumes "delivery_attempt u E config secret body w = (r, w')"
  shows "w' = w \<and> r = Inl ActionConfigurationError
    \<or> (\<exists>p. signed_post config secret body p \<and> w' = w\<lparr>dw_posts := p # dw_posts w\<rparr>
        \<and> (case r of Inr d \<Rightarrow> disposition_ok d | Inl e \<Rightarrow> loop_error e))"
proof (cases "timestamp_from_clock (dv_clock E w)")
  case (Inl e)
  with assms timestamp_from_clock_Inl [OF Inl] show ?thesis
    by (simp add: delivery_attempt_def bind_def asks_def lift_def)
next
  case (Inr ts)
  show ?thesis
  proof (cases "signature_header secret ts body")
    case (Inl e)
    with assms \<open>timestamp_from_clock (dv_clock E w) = Inr ts\<close> signature_header_Inl [OF Inl] show ?thesis
      by (simp add: delivery_attempt_def bind_def asks_def lift_def)
  next
    case h: (Inr h)
    note sig = signature_header_Inr [OF h]
    define p where "p = \<lparr>dp_url = cf_adapter_url config, dp_body = body, dp_headers = signed_headers secret body ts\<rparr>"
    define w1 where "w1 = w\<lparr>dw_posts := p # dw_posts w\<rparr>"
    have sp: "signed_post config secret body p" using sig by (auto simp: signed_post_def p_def)
    have post: "transport_post E (cf_adapter_url config) body
        [(S ''Content-Type'', S ''application/json''), (S ''X-Alert2IR-Timestamp'', ts), (S ''X-Alert2IR-Signature'', h)] w
      = (http_post_result (dv_open E w1), w1)"
      using sig by (simp add: transport_post_def Let_def w1_def p_def signed_headers_def)
    have "w' = w1 \<and> (case r of Inr d \<Rightarrow> disposition_ok d | Inl e \<Rightarrow> loop_error e)"
      using assms Inr h
      by (auto simp: delivery_attempt_def bind_def asks_def lift_def attempt_def ret_def raise_def post loop_error_def
          transient_exception_disposition_def disposition_def disposition_ok_def http_post_result_def
          split: sum.splits if_splits opened.splits body_read.splits dest: classify_ok classify_error)
    with sp show ?thesis by (auto simp: w1_def)
  qed
qed

text \<open>What a run of the loop with \<open>n\<close> attempts left does.\<close>

definition loop_result :: "action_configuration \<Rightarrow> bytes \<Rightarrow> bytes \<Rightarrow> nat \<Rightarrow> delivery_world \<Rightarrow>
    action_exn + delivery_outcome \<Rightarrow> delivery_world \<Rightarrow> bool" where
  "loop_result config secret body n w r w' \<longleftrightarrow>
     (\<exists>ps ss. dw_posts w' = ps @ dw_posts w \<and> dw_sleeps w' = ss @ dw_sleeps w \<and> length ps \<le> n
       \<and> list_all (signed_post config secret body) ps
       \<and> rev ss = take (length ss) (drop (maximum_attempts - n) retry_delays_seconds)
       \<and> (case r of
            Inl e \<Rightarrow> loop_error e \<and> length ss \<le> length ps
          | Inr oc \<Rightarrow> length ps = Suc (length ss) \<and> do_attempts oc = maximum_attempts - n + length ps
              \<and> (do_success oc \<longleftrightarrow> do_category oc = S ''success'')
              \<and> (do_attempts oc < maximum_attempts \<longrightarrow> do_category oc \<noteq> S ''transient_failure'')))"

lemma delivery_loop_result:
  "0 < n \<Longrightarrow> n \<le> maximum_attempts \<Longrightarrow> delivery_loop u E config secret body n w = (r, w') \<Longrightarrow>
   loop_result config secret body n w r w'"
proof (induction n arbitrary: w r w')
  case (Suc n)
  let ?number = "maximum_attempts - n"
  have number: "?number = Suc (maximum_attempts - Suc n)" using Suc.prems by simp
  obtain x w1 where a: "delivery_attempt u E config secret body w = (x, w1)" by (meson surj_pair)
  consider (err) e where "x = Inl e" | (stop) d where "x = Inr d" "di_success d \<or> \<not> di_retryable d \<or> ?number = maximum_attempts"
    | (again) d where "x = Inr d" "\<not> di_success d" "di_retryable d" "?number \<noteq> maximum_attempts"
    by (cases x) auto
  then show ?case
  proof cases
    case err
    with Suc.prems a have rw: "r = Inl e" "w' = w1" by (simp_all add: bind_def Let_def)
    from delivery_attempt_cases [OF a] err show ?thesis
    proof (elim disjE exE conjE)
      assume "w1 = w" "x = Inl ActionConfigurationError"
      with err rw show ?thesis by (auto simp: loop_result_def loop_error_def intro!: exI [of _ "[]"])
    next
      fix p assume "signed_post config secret body p" "w1 = w\<lparr>dw_posts := p # dw_posts w\<rparr>"
        "case x of Inl e \<Rightarrow> loop_error e | Inr d \<Rightarrow> disposition_ok d"
      with err rw show ?thesis by (auto simp: loop_result_def intro!: exI [of _ "[p]"] exI [of _ "[]"])
    qed
  next
    case stop
    from delivery_attempt_cases [OF a] stop(1) obtain p where p: "signed_post config secret body p"
      "w1 = w\<lparr>dw_posts := p # dw_posts w\<rparr>" "disposition_ok d" by auto
    from Suc.prems a stop have rw: "w' = w1" "r = Inr \<lparr>do_success = di_success d, do_attempts = ?number,
        do_category = di_category d, do_status = di_status d, do_processing_id = di_processing_id d,
        do_replayed = di_replayed d, do_error_code = di_error_code d\<rparr>"
      by (simp_all add: bind_def Let_def ret_def)
    show ?thesis
      using p stop(2) number unfolding rw loop_result_def
      by (intro exI [of _ "[p]"] exI [of _ "[]"]) (auto simp: disposition_ok_def)
  next
    case again
    from delivery_attempt_cases [OF a] again(1) obtain p where p: "signed_post config secret body p"
      "w1 = w\<lparr>dw_posts := p # dw_posts w\<rparr>" by auto
    define delay where "delay = retry_delays_seconds ! (?number - 1)"
    define w2 where "w2 = w1\<lparr>dw_sleeps := delay # dw_sleeps w1\<rparr>"
    from Suc.prems a again have l: "delivery_loop u E config secret body n w2 = (r, w')"
      by (simp add: bind_def Let_def then_do_def modify_def w2_def delay_def)
    have n: "0 < n" using again(4) by (cases n) auto
    then have "loop_result config secret body n w2 r w'" using Suc.IH [OF _ _ l] Suc.prems by simp
    then obtain ps ss where ps: "dw_posts w' = ps @ p # dw_posts w" "dw_sleeps w' = ss @ delay # dw_sleeps w"
      "length ps \<le> n" "list_all (signed_post config secret body) ps"
      "rev ss = take (length ss) (drop ?number retry_delays_seconds)"
      and rr: "case r of Inl e \<Rightarrow> loop_error e \<and> length ss \<le> length ps
        | Inr oc \<Rightarrow> length ps = Suc (length ss) \<and> do_attempts oc = ?number + length ps
              \<and> (do_success oc \<longleftrightarrow> do_category oc = S ''success'')
              \<and> (do_attempts oc < maximum_attempts \<longrightarrow> do_category oc \<noteq> S ''transient_failure'')"
      by (auto simp: loop_result_def w2_def p(2))
    have "drop (maximum_attempts - Suc n) retry_delays_seconds = delay # drop ?number retry_delays_seconds"
    proof -
      have "n = 1 \<or> n = 2" using n Suc.prems(2) by (auto simp: maximum_attempts_def)
      then show ?thesis by (auto simp: delay_def maximum_attempts_def retry_delays_seconds_def)
    qed
    then have "rev (ss @ [delay]) = take (length (ss @ [delay])) (drop (maximum_attempts - Suc n) retry_delays_seconds)"
      using ps(5) by simp
    then show ?thesis
      using ps p(1) rr number unfolding loop_result_def
      by (intro exI [of _ "ps @ [p]"] exI [of _ "ss @ [delay]"]) (auto split: sum.splits)
  qed
qed simp

text \<open>A success is the reading of the answer to the last post.\<close>

lemma contract_success: "gateway_contract c = Some (ss, rt, cat, True) \<Longrightarrow> s \<in> set ss \<Longrightarrow> s = 200 \<or> s = 202"
  by (auto simp: gateway_contract_def split: if_splits)

lemma classify_success:
  assumes "classify_adapter_response u a = Inr d" "di_success d"
  shows "ga_status a \<in> {200, 202}"
proof -
  have f: "di_success (fallback_disposition s) \<Longrightarrow> s \<in> {200, 202}" for s
    by (simp add: fallback_disposition_def disposition_def split: if_splits)
  show ?thesis
    using assms
    by (auto simp: classify_adapter_response_def split: if_splits option.splits pyvalue.splits
        dest!: f) (metis contract_success)
qed

lemma delivery_attempt_success:
  assumes "delivery_attempt u E config secret body w = (Inr d, w')" "di_success d"
  shows "dw_posts w' \<noteq> dw_posts w \<and> (\<exists>a. http_post_result (dv_open E w') = Inr a \<and> classify_adapter_response u a = Inr d)"
  using assms
  by (auto simp: delivery_attempt_def bind_def asks_def lift_def attempt_def ret_def raise_def transport_post_def Let_def
      transient_exception_disposition_def disposition_def split: sum.splits if_splits prod.splits)

lemma delivery_loop_posts:
  "delivery_loop u E config secret body n w = (r, w') \<Longrightarrow> \<exists>qs. dw_posts w' = qs @ dw_posts w"
proof (induction n arbitrary: w)
  case (Suc n)
  obtain x w1 where a: "delivery_attempt u E config secret body w = (x, w1)" by (meson surj_pair)
  obtain ps where ps: "dw_posts w1 = ps @ dw_posts w" using delivery_attempt_cases [OF a] by fastforce
  show ?case
    using Suc.prems a ps Suc.IH
    by (cases x) (fastforce simp: bind_def Let_def then_do_def modify_def ret_def split: if_splits)+
qed (simp add: raise_def)

lemma delivery_loop_success:
  "delivery_loop u E config secret body n w = (Inr oc, w') \<Longrightarrow> do_success oc \<Longrightarrow>
   dw_posts w' \<noteq> dw_posts w
   \<and> (\<exists>a d. http_post_result (dv_open E w') = Inr a \<and> classify_adapter_response u a = Inr d \<and> di_success d
        \<and> ga_status a \<in> {200, 202})"
proof (induction n arbitrary: w)
  case (Suc n)
  obtain x w1 where a: "delivery_attempt u E config secret body w = (x, w1)" by (meson surj_pair)
  with Suc.prems(1) obtain d where x: "x = Inr d" by (cases x) (auto simp: bind_def Let_def)
  obtain ps where ps: "dw_posts w1 = ps @ dw_posts w" using delivery_attempt_cases [OF a] by fastforce
  show ?case
  proof (cases "di_success d")
    case True
    with Suc.prems a x have "w' = w1" by (simp add: bind_def Let_def ret_def)
    then show ?thesis
      using delivery_attempt_success [OF a [unfolded x] True] classify_success True by blast
  next
    case False
    then have again: "di_retryable d" "maximum_attempts - n \<noteq> maximum_attempts"
      using Suc.prems a x by (auto simp: bind_def Let_def ret_def split: if_splits)
    let ?w = "w1\<lparr>dw_sleeps := retry_delays_seconds ! (maximum_attempts - n - 1) # dw_sleeps w1\<rparr>"
    have l: "delivery_loop u E config secret body n ?w = (Inr oc, w')"
      using Suc.prems(1) a x False again by (simp add: bind_def Let_def then_do_def modify_def)
    have n: "0 < n" using again(2) by (cases n) auto
    have "\<exists>qs. dw_posts w' = qs @ dw_posts ?w \<and> qs \<noteq> []"
      using Suc.IH [OF l Suc.prems(2)] delivery_loop_posts [OF l] by fastforce
    then have "dw_posts w' \<noteq> dw_posts w" using ps by auto
    then show ?thesis using Suc.IH [OF l Suc.prems(2)] by blast
  qed
qed (simp add: raise_def)

end
