(* ===== verification/TimestampRange.thy ===== *)
theory TimestampRange
  imports SplunkMapping
begin

text \<open>
  Which event times the mapping can place between the years 1 and 9999. A numeric time is
  multiplied by a million in the decimal context, so its microseconds are rounded to 28 digits
  before they are added to the epoch: the last instants of the year 9999 round up to the year
  10000. The property \<open>time_overflows\<close> states that boundary over the digits of the text alone;
  \<open>epoch_overflow\<close> and \<open>timestamp_overflow\<close> show that it is where \<open>normalize_timestamp\<close> raises.
\<close>

section \<open>The boundary\<close>

text \<open>A numeric time overflows when it is less than or equal to 5 * 10^(-17) seconds before
  253402300800, the first second of the year 10000; another time when its instant is outside the
  years 1 to 9999 in UTC.\<close>

definition time_overflows :: "ustring \<Rightarrow> bool" where
  "time_overflows t \<longleftrightarrow>
     (if numeric_timestamp_pattern t
      then (case decimal_of_text t of Decimal c e \<Rightarrow>
             20000000000000000 * (253402300800 * 10 ^ nat (- e) - c) \<le> 10 ^ nat (- e))
      else (\<exists>d. rfc3339_datetime t = Inr d \<and> \<not> utc_in_range d))"

section \<open>Rounding half to even\<close>

lemma round_half_even_one [simp]: "round_half_even a 1 = a" "round_half_even a (Suc 0) = a"
  by (simp_all add: round_half_even_def)

lemma round_half_even_bounds: "a div b \<le> round_half_even a b" "round_half_even a b \<le> a div b + 1"
  by (simp_all add: round_half_even_def Let_def)

lemma round_half_even_upto:
  assumes "a \<le> N * b" "0 < b"
  shows "round_half_even a b \<le> N"
proof (cases "a = N * b")
  case True
  then show ?thesis using assms(2) by (simp add: round_half_even_def)
next
  case False
  then have "a div b < N" using assms by (simp add: less_mult_imp_div_less)
  then show ?thesis using round_half_even_bounds(2) [of a b] by simp
qed

text \<open>An even number is reached from half below it.\<close>

lemma round_half_even_below:
  assumes "even N" "0 < N" "0 < b"
  shows "round_half_even a b < N \<longleftrightarrow> 2 * a + b < 2 * N * b"
proof -
  define q r where "q = a div b" and "r = a mod b"
  have a: "a = q * b + r" and r: "r < b" using assms(3) by (simp_all add: q_def r_def)
  consider "N \<le> q" | "q + 1 < N" | "q + 1 = N" by linarith
  then show ?thesis
  proof cases
    case 1
    then have "N * b \<le> a" using assms(3) by (simp add: q_def less_eq_div_iff_mult_less_eq)
    then have "\<not> 2 * a + b < 2 * N * b" by (simp add: mult.assoc)
    moreover have "N \<le> round_half_even a b" using round_half_even_bounds(1) [of a b] 1 by (simp add: q_def)
    ultimately show ?thesis by simp
  next
    case 2
    then have "(q + 2) * b \<le> N * b" by (intro mult_right_mono) simp_all
    moreover have "round_half_even a b < N" using round_half_even_bounds(2) [of a b] 2 by (simp add: q_def)
    ultimately show ?thesis using a r by (simp add: algebra_simps)
  next
    case 3
    then have "odd q" using assms(1) by auto
    moreover have "round_half_even a b = (if 2 * r < b then q else if b < 2 * r then q + 1 else if even q then q else q + 1)"
      by (simp add: round_half_even_def Let_def q_def r_def)
    moreover have "2 * N * b = 2 * (q * b) + 2 * b" using 3 by (simp add: algebra_simps flip: 3)
    then have "2 * a + b < 2 * N * b \<longleftrightarrow> 2 * r < b" unfolding a by auto
    ultimately show ?thesis using 3 by simp
  qed
qed

lemma dec_nat_length_above: "10 ^ k \<le> n \<Longrightarrow> k < length (dec_nat n)"
proof (induction k arbitrary: n)
  case 0
  show ?case by (simp add: dec_nat.simps [of n])
next
  case (Suc k)
  then have "10 \<le> n" by (simp add: order_trans [of 10 "10 * 10 ^ k"])
  moreover have "10 ^ k \<le> n div 10" using Suc.prems by (simp add: less_eq_div_iff_mult_less_eq mult.commute)
  then have "k < length (dec_nat (n div 10))" by (rule Suc.IH)
  ultimately show ?case by (simp add: dec_nat.simps [of n])
qed

section \<open>The microseconds of a numeric time\<close>

text \<open>A product rounded to the precision of the context: \<open>d\<close> digits are dropped.\<close>

lemma decimal_times_rounds:
  "decimal_times (Decimal c e) k =
     (let a = nat \<bar>c * k\<bar>; d = length (dec_nat a) - context_precision
      in Decimal (sgn (c * k) * int (round_half_even a (10 ^ d))) (e + int d))"
  by (simp add: Let_def sgn_mult_abs)

lemma decimal_floor_scaled:
  assumes "d \<le> k"
  shows "decimal_floor (Decimal x (- int k + int d)) = x div 10 ^ (k - d)"
proof (cases "d = k")
  case False
  then have "nat (- (- int k + int d)) = k - d" using assms by simp
  then show ?thesis using False assms by simp
qed simp

text \<open>A magnitude below a bound that has at most 28 digits of its own stays below it.\<close>

lemma rounded_upto:
  assumes "a \<le> B * 10 ^ k" "B < 10 ^ m" "0 < m" "m \<le> 28"
    "d = length (dec_nat a) - context_precision"
  shows "d \<le> k" "round_half_even a (10 ^ d) \<le> B * 10 ^ (k - d)"
proof -
  have "B * 10 ^ k < 10 ^ m * 10 ^ k" using assms(2) by simp
  with assms(1) have "a < 10 ^ (m + k)" unfolding power_add by (rule le_less_trans)
  then have "length (dec_nat a) \<le> m + k" using assms(3) by (intro dec_nat_length) simp_all
  then show d: "d \<le> k" using assms(4,5) by (simp add: context_precision_def)
  have "(10 :: nat) ^ k = 10 ^ (k - d) * 10 ^ d" using d by (simp flip: power_add)
  then show "round_half_even a (10 ^ d) \<le> B * 10 ^ (k - d)"
    using assms(1) by (intro round_half_even_upto) (simp_all add: mult.assoc)
qed

lemma int_le_div: "0 < b \<Longrightarrow> L \<le> x div b \<longleftrightarrow> L * b \<le> x" for L x b :: int
proof -
  assume b: "0 < b"
  show ?thesis
  proof
    assume "L \<le> x div b"
    then have "L * b \<le> x div b * b" using b by simp
    also have "\<dots> \<le> x" using b by (simp add: pos_mod_sign flip: minus_mod_eq_div_mult)
    finally show "L * b \<le> x" .
  next
    assume "L * b \<le> x"
    from zdiv_mono1 [OF this b] show "L \<le> x div b" using b by simp
  qed
qed

lemma int_div_less: "0 < b \<Longrightarrow> x div b < L \<longleftrightarrow> x < L * b" for L x b :: int
  using int_le_div [of b L x] by linarith

text \<open>The first instant of the year 1 is kept, and the year 10000 is reached as
  \<open>time_overflows\<close> says.\<close>

lemma microseconds_from:
  assumes "- 62135596800 * 10 ^ k \<le> c"
  shows "- 62135596800000000 \<le> decimal_floor (decimal_times (Decimal c (- int k)) 1000000)"
proof -
  define a d where "a = nat \<bar>c * 1000000\<bar>" and "d = length (dec_nat a) - context_precision"
  have times: "decimal_times (Decimal c (- int k)) 1000000
      = Decimal (sgn (c * 1000000) * int (round_half_even a (10 ^ d))) (- int k + int d)"
    by (simp only: decimal_times_rounds Let_def a_def d_def)
  show ?thesis
  proof (cases "c < 0")
    case True
    then have "int a = - c * 1000000" by (simp add: a_def)
    then have "int a \<le> int (62135596800000000 * 10 ^ k)" using assms by simp
    then have "a \<le> 62135596800000000 * 10 ^ k" by linarith
    from rounded_upto [OF this, of 17 d]
    have k: "d \<le> k" and r: "round_half_even a (10 ^ d) \<le> 62135596800000000 * 10 ^ (k - d)" by (simp_all add: d_def)
    have "int (round_half_even a (10 ^ d)) \<le> int (62135596800000000 * 10 ^ (k - d))"
      using r by (simp only: of_nat_le_iff)
    then have "- 62135596800000000 * 10 ^ (k - d) \<le> - int (round_half_even a (10 ^ d))" by simp
    then have "- 62135596800000000 \<le> - int (round_half_even a (10 ^ d)) div 10 ^ (k - d)"
      by (subst int_le_div) simp_all
    moreover have "sgn (c * 1000000) * int (round_half_even a (10 ^ d)) = - int (round_half_even a (10 ^ d))"
      using True by (simp add: sgn_mult)
    ultimately show ?thesis by (simp only: times decimal_floor_scaled [OF k])
  next
    case False
    then have "0 \<le> sgn (c * 1000000) * int (round_half_even a (10 ^ d))" by (simp add: sgn_if)
    moreover have "0 \<le> decimal_floor (Decimal x e)" if "0 \<le> x" for x e
      using that by (simp add: pos_imp_zdiv_nonneg_iff)
    ultimately have "0 \<le> decimal_floor (decimal_times (Decimal c (- int k)) 1000000)"
      by (simp only: times)
    then show ?thesis by linarith
  qed
qed

lemma microseconds_before:
  assumes "c < 253402300800 * 10 ^ k"
  shows "decimal_floor (decimal_times (Decimal c (- int k)) 1000000) < 253402300800000000
    \<longleftrightarrow> \<not> 20000000000000000 * (253402300800 * 10 ^ k - c) \<le> 10 ^ k"
proof -
  define a d where "a = nat \<bar>c * 1000000\<bar>" and "d = length (dec_nat a) - context_precision"
  have times: "decimal_times (Decimal c (- int k)) 1000000
      = Decimal (sgn (c * 1000000) * int (round_half_even a (10 ^ d))) (- int k + int d)"
    by (simp only: decimal_times_rounds Let_def a_def d_def)
  have P: "(1 :: int) \<le> 10 ^ k" by simp
  have gap: "1 \<le> p \<Longrightarrow> p \<le> g \<Longrightarrow> \<not> 20000000000000000 * g \<le> p" for p g :: int by linarith
  show ?thesis
  proof (cases "0 < c")
    case False
    then have "sgn (c * 1000000) * int (round_half_even a (10 ^ d)) \<le> 0" by (simp add: sgn_if)
    moreover have "decimal_floor (Decimal x e) \<le> 0" if "x \<le> 0" for x e
      using that int_div_less [of "10 ^ nat (- e)" x 1] le_less_trans [OF that zero_less_power, of 10 "nat (- e)"]
      by (auto simp: mult_nonpos_nonneg)
    ultimately have "decimal_floor (decimal_times (Decimal c (- int k)) 1000000) \<le> 0" by (simp only: times)
    then have "decimal_floor (decimal_times (Decimal c (- int k)) 1000000) < 253402300800000000" by linarith
    moreover have "10 ^ k \<le> 253402300800 * 10 ^ k - c" using False by (simp add: order_trans [of c 0])
    note gap [OF P this]
    ultimately show ?thesis by blast
  next
    case True
    then have a: "int a = c * 1000000" by (simp add: a_def)
    have scaled: "decimal_floor (decimal_times (Decimal c (- int k)) 1000000) = int (round_half_even a (10 ^ d)) div 10 ^ (k - d)"
      if "d \<le> k"
      using True by (simp only: times decimal_floor_scaled [OF that]) simp
    show ?thesis
    proof (cases "a \<le> 100000000000000000 * 10 ^ k")
      case small: True
      from rounded_upto [OF small, of 18 d]
      have k: "d \<le> k" and r: "round_half_even a (10 ^ d) \<le> 100000000000000000 * 10 ^ (k - d)" by (simp_all add: d_def)
      have "int (round_half_even a (10 ^ d)) \<le> int (100000000000000000 * 10 ^ (k - d))" using r by (simp only: of_nat_le_iff)
      also have "\<dots> < 253402300800000000 * 10 ^ (k - d)" by simp
      finally have "int (round_half_even a (10 ^ d)) div 10 ^ (k - d) < 253402300800000000"
        by (subst int_div_less) simp_all
      moreover have "int a \<le> int (100000000000000000 * 10 ^ k)" using small by (simp only: of_nat_le_iff)
      then have "c \<le> 100000000000 * 10 ^ k" using a by simp
      then have "10 ^ k \<le> 253402300800 * 10 ^ k - c"
        by (simp add: order_trans [of c "100000000000 * 10 ^ k"])
      note gap [OF P this]
      ultimately show ?thesis unfolding scaled [OF k] by blast
    next
      case False
      have "int a < int (253402300800000000 * 10 ^ k)" using a assms by simp
      then have "a < 253402300800000000 * 10 ^ k" by (simp only: of_nat_less_iff)
      then have "a < 10 ^ (18 + k)" by (simp add: power_add)
      then have "length (dec_nat a) \<le> 18 + k" by (intro dec_nat_length) simp_all
      moreover have "17 + k < length (dec_nat a)"
        using False by (intro dec_nat_length_above) (simp add: power_add)
      ultimately have d: "d = 18 + k - 28" by (simp add: d_def context_precision_def)
      show ?thesis
      proof (cases "k \<le> 10")
        case True
        then have "d = 0" by (simp add: d)
        moreover have "int a div 10 ^ k < 253402300800000000" using a assms by (subst int_div_less) simp_all
        ultimately have "decimal_floor (decimal_times (Decimal c (- int k)) 1000000) < 253402300800000000"
          using scaled by simp
        moreover have "(10 :: int) ^ k \<le> 10 ^ 10" using True by (intro power_increasing) simp_all
        then have "\<not> 20000000000000000 * (253402300800 * 10 ^ k - c) \<le> 10 ^ k" using assms by simp
        ultimately show ?thesis by simp
      next
        case False
        then have k: "k = 10 + d" by (simp add: d)
        have "int (round_half_even a (10 ^ d)) div 10 ^ (k - d) < 253402300800000000
            \<longleftrightarrow> int (round_half_even a (10 ^ d)) < int 2534023008000000000000000000"
          by (subst int_div_less) (simp_all add: k)
        also have "\<dots> \<longleftrightarrow> round_half_even a (10 ^ d) < 2534023008000000000000000000" by (simp only: of_nat_less_iff)
        also have "\<dots> \<longleftrightarrow> 2 * a + 10 ^ d < 2 * 2534023008000000000000000000 * 10 ^ d"
          by (rule round_half_even_below) simp_all
        also have "\<dots> \<longleftrightarrow> int (2 * a + 10 ^ d) < int (2 * 2534023008000000000000000000 * 10 ^ d)" by (simp only: of_nat_less_iff)
        also have "\<dots> \<longleftrightarrow> 2 * (c * 1000000) + 10 ^ d < 5068046016000000000000000000 * 10 ^ d" by (simp add: a)
        also have "\<dots> \<longleftrightarrow> \<not> 20000000000000000 * (253402300800 * 10 ^ k - c) \<le> 10 ^ k"
        proof -
          have "(10 :: int) ^ k = 10000000000 * 10 ^ d" by (simp add: k power_add)
          then show ?thesis by simp linarith
        qed
        finally show ?thesis using scaled k by simp
      qed
    qed
  qed
qed

section \<open>The times that overflow\<close>

lemma decimal_of_text_scale: "\<exists>c k. decimal_of_text t = Decimal c (- int k)"
  by (auto simp: decimal_of_text_def Let_def)

lemma decimal_bounds_scaled:
  "decimal_le b (Decimal c (- int k)) \<longleftrightarrow> b * 10 ^ k \<le> c" "decimal_less (Decimal c (- int k)) b \<longleftrightarrow> c < b * 10 ^ k"
  by (cases "k = 0"; simp)+

lemma epoch_overflow:
  assumes "numeric_timestamp_pattern t" "decimal_le minimum_unix_epoch (decimal_of_text t)"
    "decimal_less (decimal_of_text t) maximum_unix_epoch_exclusive"
  shows "normalize_epoch (TS_str t) = Inl OverflowError \<longleftrightarrow> time_overflows t"
proof -
  obtain c k where d: "decimal_of_text t = Decimal c (- int k)" using decimal_of_text_scale by blast
  let ?us = "decimal_floor (decimal_times (Decimal c (- int k)) 1000000)"
  have c: "- 62135596800 * 10 ^ k \<le> c" "c < 253402300800 * 10 ^ k"
    using assms(2,3) by (simp_all only: d decimal_bounds_scaled minimum_unix_epoch_def maximum_unix_epoch_exclusive_def)
  have lower: "0 \<le> unix_epoch_us + ?us"
    using microseconds_from [OF c(1)] unfolding unix_epoch_us_def us_per_day_def by linarith
  have upper: "unix_epoch_us + ?us < max_us \<longleftrightarrow> ?us < 253402300800000000"
    unfolding unix_epoch_us_def us_per_day_def max_us_def by linarith
  have "normalize_epoch (TS_str t) = epoch_plus ?us"
    using assms(2,3) by (simp only: normalize_epoch_def epoch_decimal.simps option.case d simp_thms if_False)
  also have "\<dots> = Inl OverflowError \<longleftrightarrow> \<not> ?us < 253402300800000000"
    using lower upper by (simp only: epoch_plus_def split: if_split) blast
  also have "\<dots> \<longleftrightarrow> 20000000000000000 * (253402300800 * 10 ^ k - c) \<le> 10 ^ k"
    using microseconds_before [OF c(2)] by blast
  also have "\<dots> \<longleftrightarrow> time_overflows t"
    using assms(1) by (simp only: time_overflows_def d if_True pydecimal.case minus_minus nat_int)
  finally show ?thesis .
qed

lemma timestamp_overflow:
  assumes "t \<noteq> []" "strip t = t"
    "numeric_timestamp_pattern t \<Longrightarrow>
       decimal_le minimum_unix_epoch (decimal_of_text t) \<and> decimal_less (decimal_of_text t) maximum_unix_epoch_exclusive"
    "\<not> numeric_timestamp_pattern t \<Longrightarrow> rfc3339_pattern t"
  shows "normalize_timestamp (TS_str t) = Inl OverflowError \<longleftrightarrow> time_overflows t"
proof (cases "numeric_timestamp_pattern t")
  case True
  then show ?thesis using epoch_overflow [OF True] assms(1-3) by simp
next
  case False
  have "rfc3339_datetime t \<noteq> Inl OverflowError" by (auto simp: rfc3339_datetime_def Let_def)
  then show ?thesis
    using False assms
    by (cases "rfc3339_datetime t") (auto simp: time_overflows_def astimezone_utc_def utc_in_range_def)
qed

text \<open>The boundary on numbers of seconds: 10^(-16) before the year 10000 is kept, 10^(-17) is not.\<close>

lemma overflow_boundary:
  "\<not> time_overflows (S ''253402300799.9999999999999999'')" "time_overflows (S ''253402300799.99999999999999999'')"
  by (simp_all add: time_overflows_def numeric_timestamp_pattern_def decimal_of_text_def digits_value_def is_digit_def Let_def S_def)

end
