(* ===== verification/SplunkAcceptance.thy ===== *)
theory SplunkAcceptance
  imports SplunkDeliveryProps TimestampRange
begin

text \<open>
  The two ends agree: a finding that the action builds is one that the gateway's validation and
  normalization accept, up to a time that overflows. Both sides check the same row
  with their own code; the lemmas follow the checks one by one.
\<close>

section \<open>What the checks of the action guarantee\<close>

lemma require_string_Inr:
  "require_string u e n v = Inr s \<longleftrightarrow> v = PStr s \<and> s \<noteq> [] \<and> nonblank s \<and> length s \<le> n \<and> isprintable u s"
  by (cases v) (auto simp: require_string_def nonblank_def)

definition config_ok :: "unicode_db \<Rightarrow> action_configuration \<Rightarrow> bool" where
  "config_ok u c \<longleftrightarrow>
     (\<exists>x. cf_rule_id c = uuid_str x) \<and> nonblank (cf_rule_title c) \<and> length (cf_rule_title c) \<le> rule_title_max_length
     \<and> isprintable u (cf_rule_title c) \<and> (\<exists>l. cf_sigma_level c = sigma_level_value l)
     \<and> cf_channel c = windows_sysmon_channel"

lemma known_sigma_level_Inr: "known_sigma_level v = Inr s \<Longrightarrow> \<exists>l. s = sigma_level_value l"
  by (cases v) (auto simp: known_sigma_level_def split: if_splits)

lemma mk_action_configuration_ok: "mk_action_configuration u sp a b c d e f = Inr cfg \<Longrightarrow> config_ok u cfg"
  by (auto simp: mk_action_configuration_def canonical_uuid_def and_then_Inr require_string_Inr config_ok_def
      dest: known_sigma_level_Inr split: if_splits option.splits)

lemma parse_configuration_ok: "parse_configuration u sp invocation = Inr cfg \<Longrightarrow> config_ok u cfg"
  by (auto simp: parse_configuration_def dest: mk_action_configuration_ok
      split: pyvalue.splits if_splits sum.splits action_exn.splits exn.splits)

lemma optional_result_value_Inr:
  "optional_result_value u row k n = Inr v \<Longrightarrow>
   case v of None \<Rightarrow> True | Some s \<Rightarrow> s \<noteq> [] \<and> nonblank s \<and> length s \<le> n \<and> isprintable u s"
  by (auto simp: optional_result_value_def and_then_Inr require_string_Inr split: option.splits if_splits)

lemma decimal_integer_Inr:
  "decimal_integer u v m = Inr s \<Longrightarrow> \<exists>n. s = dec_nat n \<and> 1 \<le> n \<and> int n \<le> m"
  by (auto simp: decimal_integer_def and_then_Inr split: if_splits intro!: exI)

section \<open>Host names\<close>

lemma comparison_agrees:
  "normalize_hostname_for_comparison s = Inr n \<longleftrightarrow> normalize_one_hostname s = Inr n"
  by (auto simp: normalize_hostname_for_comparison_def normalize_one_hostname_def Let_def)

lemma compare_optional_agrees: "compare_optional v = Inr n \<longleftrightarrow> normalize_optional v = Inr n"
  by (auto simp: compare_optional_def normalize_optional_def and_then_Inr comparison_agrees split: option.splits)

lemma validated_hostnames_normalize:
  assumes "validate_hostnames computer host = Inr ()"
  shows "\<exists>n. normalize_hostname computer host = Inr n" "computer \<noteq> None \<or> host \<noteq> None"
proof -
  obtain c h where n: "normalize_optional computer = Inr c" "normalize_optional host = Inr h"
    and ch: "\<not> (c = None \<and> h = None)" "\<not> (c \<noteq> None \<and> h \<noteq> None \<and> c \<noteq> h)"
    using assms by (auto simp: validate_hostnames_def and_then_Inr compare_optional_agrees split: if_splits)
  then show "\<exists>n. normalize_hostname computer host = Inr n"
    by (auto simp: normalize_hostname_def split: option.splits)
  show "computer \<noteq> None \<or> host \<noteq> None"
    using n ch(1) by (auto simp: normalize_optional_def)
qed

section \<open>Times\<close>

lemma strip_id:
  assumes "s \<noteq> []" "\<not> is_space (hd s)" "\<not> is_space (last s)"
  shows "strip s = s"
proof -
  have "dropWhile is_space s = s" using assms(1,2) by (cases s) auto
  moreover have "dropWhile is_space (rev s) = rev s" using assms(1,3) by (cases s rule: rev_cases) auto
  ultimately show ?thesis by (simp add: strip_def)
qed

lemma digit_not_space: "is_digit c \<Longrightarrow> \<not> is_space c"
  by (auto simp: is_digit_def is_space_def)

lemma numeric_chars:
  assumes "numeric_timestamp_pattern s"
  shows "s \<noteq> []" "c \<in> set s \<Longrightarrow> is_digit c \<or> c \<in> {43, 45, 46}"
proof -
  define t where "t = (if take 1 s = [43] \<or> take 1 s = [45] then drop 1 s else s)"
  define r where "r = dropWhile is_digit t"
  have p: "if takeWhile is_digit t \<noteq> [] then r = [] \<or> (hd r = 46 \<and> list_all is_digit (tl r))
    else r \<noteq> [] \<and> hd r = 46 \<and> all_digits (tl r)"
    using assms by (simp only: numeric_timestamp_pattern_def Let_def t_def r_def)
  have t: "t = takeWhile is_digit t @ r" by (simp add: r_def)
  have chars: "is_digit c \<or> c = 46" if "c \<in> set t" for c
  proof -
    from that t have "c \<in> set (takeWhile is_digit t) \<or> c \<in> set r" by (metis Un_iff set_append)
    then show ?thesis
    proof
      assume "c \<in> set r"
      with p show ?thesis by (cases r) (auto simp: all_digits_def list_all_iff split: if_splits)
    qed (auto dest: set_takeWhileD)
  qed
  have "t \<noteq> []" using p by (auto simp: r_def)
  then show "s \<noteq> []" by (auto simp: t_def)
  show "c \<in> set s \<Longrightarrow> is_digit c \<or> c \<in> {43, 45, 46}"
    using chars [of c] unfolding t_def by (cases s; cases "hd s = 43 \<or> hd s = 45"; force)
qed

lemma numeric_stripped:
  assumes "numeric_timestamp_pattern s"
  shows "strip s = s"
proof -
  note n = numeric_chars [OF assms]
  have "\<not> is_space c" if "c \<in> set s" for c
    using n(2) [OF that] digit_not_space [of c] by (auto simp: is_space_def)
  with n(1) show ?thesis by (intro strip_id) simp_all
qed

lemma rfc_suffix: "\<exists>p. s = p @ rfc_zone s"
proof (cases "drop 19 s")
  case (Cons c t)
  have "drop 19 s = (if c = 46 then 46 # takeWhile is_digit t else []) @ rfc_zone s"
    using Cons by (auto simp: rfc_zone_def)
  then show ?thesis by (metis append_assoc append_take_drop_id)
qed (simp add: rfc_zone_def)

lemma rfc_stripped:
  assumes "rfc3339_pattern s"
  shows "strip s = s"
proof -
  from assms have len: "20 \<le> length s" and first: "digits_in 0 4 s"
    and z: "rfc_zone s = [90] \<or> (length (rfc_zone s) = 6 \<and> digits_in 4 2 (rfc_zone s))"
    by (auto simp: rfc3339_pattern_def Let_def)
  have s: "s \<noteq> []" using len by auto
  then obtain a r where a: "s = a # r" by (cases s) auto
  with first have "is_digit a" by (simp add: digits_in_def)
  then have hd: "\<not> is_space (hd s)" using a digit_not_space by simp
  obtain p where "s = p @ rfc_zone s" using rfc_suffix by blast
  moreover have zn: "rfc_zone s \<noteq> []" using z by auto
  ultimately have l: "last s = last (rfc_zone s)" by (metis last_appendR)
  have "\<not> is_space (last (rfc_zone s))"
  proof (cases "rfc_zone s = [90]")
    case False
    with z have six: "length (rfc_zone s) = 6" and d: "list_all is_digit (drop 4 (rfc_zone s))"
      by (auto simp: digits_in_def)
    have "last (rfc_zone s) \<in> set (drop 4 (rfc_zone s))"
      using six last_in_set [of "drop 4 (rfc_zone s)"] by fastforce
    then have "is_digit (last (rfc_zone s))" using d by (simp add: list_all_iff)
    then show ?thesis by (rule digit_not_space)
  qed (simp add: is_space_def)
  with l hd s show ?thesis by (intro strip_id) simp_all
qed

lemma validated_time_normalizes:
  assumes "validate_event_time u v = Inr t"
  shows "v = PStr t" "length t \<le> 64"
    "(\<exists>d. normalize_timestamp (TS_str t) = Inr d) \<or> normalize_timestamp (TS_str t) = Inl OverflowError"
proof -
  from assms have rs: "require_string u ActionInputError 64 v = Inr t"
    by (auto simp: validate_event_time_def and_then_Inr split: if_splits sum.splits)
  then show "v = PStr t" "length t \<le> 64" by (simp_all add: require_string_Inr)
  note time = assms [unfolded validate_event_time_def rs and_then_simps]
  show "(\<exists>d. normalize_timestamp (TS_str t) = Inr d) \<or> normalize_timestamp (TS_str t) = Inl OverflowError"
  proof (cases "numeric_timestamp_pattern t")
    case True
    with time have "decimal_le minimum_unix_epoch (decimal_of_text t)" "decimal_less (decimal_of_text t) maximum_unix_epoch_exclusive"
      by (auto split: if_splits)
    with True numeric_stripped [OF True] numeric_chars(1) [OF True] show ?thesis
      by (simp add: normalize_epoch_def epoch_plus_def)
  next
    case False
    with time obtain d where r: "rfc3339_pattern t" "rfc3339_datetime t = Inr d"
      by (auto split: if_splits sum.splits)
    then have "t \<noteq> []" by (auto simp: rfc3339_pattern_def)
    with False r rfc_stripped [OF r(1)] show ?thesis by (simp add: astimezone_utc_def)
  qed
qed

lemma validated_time_overflow:
  assumes "validate_event_time u v = Inr t"
  shows "normalize_timestamp (TS_str t) = Inl OverflowError \<longleftrightarrow> time_overflows t"
proof -
  from assms have rs: "require_string u ActionInputError 64 v = Inr t"
    by (auto simp: validate_event_time_def and_then_Inr split: if_splits sum.splits)
  note time = assms [unfolded validate_event_time_def rs and_then_simps]
  have rfc: "rfc3339_pattern t" if "\<not> numeric_timestamp_pattern t"
    using that time by (auto split: if_splits)
  show ?thesis
  proof (rule timestamp_overflow)
    show "t \<noteq> []" using rs by (simp add: require_string_Inr)
    show "strip t = t" using rfc rfc_stripped numeric_stripped by blast
    show "decimal_le minimum_unix_epoch (decimal_of_text t) \<and> decimal_less (decimal_of_text t) maximum_unix_epoch_exclusive"
      if "numeric_timestamp_pattern t"
      using that time by (auto split: if_splits)
  qed (rule rfc)
qed

section \<open>The finding as it is sent\<close>

text \<open>The parts of a built finding, with what their checks guarantee.\<close>

definition text_ok :: "unicode_db \<Rightarrow> nat \<Rightarrow> ustring option \<Rightarrow> bool" where
  "text_ok u n v \<longleftrightarrow>
     (case v of None \<Rightarrow> True | Some s \<Rightarrow> s \<noteq> [] \<and> nonblank s \<and> length s \<le> n \<and> isprintable u s)"

record sent_event =
  sn_time :: ustring
  sn_code :: nat
  sn_record :: nat
  sn_computer :: "ustring option"
  sn_host :: "ustring option"
  sn_source :: "ustring option"
  sn_sourcetype :: "ustring option"
  sn_process_guid :: "ustring option"
  sn_image :: "ustring option"
  sn_parent_image :: "ustring option"
  sn_target_filename :: "ustring option"

definition event_members :: "sent_event \<Rightarrow> (ustring \<times> json) list" where
  "event_members v =
     [(S ''detected_at'', JStr (sn_time v)), (S ''channel'', JStr windows_sysmon_channel),
      (S ''event_code'', JStr (dec_nat (sn_code v))), (S ''record_id'', JStr (dec_nat (sn_record v)))]
     @ json_member ''computer'' (map_option JStr (sn_computer v)) @ json_member ''host'' (map_option JStr (sn_host v))
     @ json_member ''source'' (map_option JStr (sn_source v)) @ json_member ''sourcetype'' (map_option JStr (sn_sourcetype v))
     @ json_member ''process_guid'' (map_option JStr (sn_process_guid v)) @ json_member ''image'' (map_option JStr (sn_image v))
     @ json_member ''parent_image'' (map_option JStr (sn_parent_image v))
     @ json_member ''target_filename'' (map_option JStr (sn_target_filename v))"

definition sent_ok :: "unicode_db \<Rightarrow> sent_event \<Rightarrow> bool" where
  "sent_ok u v \<longleftrightarrow>
     (\<exists>x. validate_event_time u x = Inr (sn_time v))
     \<and> 1 \<le> sn_code v \<and> int (sn_code v) \<le> event_code_maximum
     \<and> 1 \<le> sn_record v \<and> int (sn_record v) \<le> record_id_maximum
     \<and> validate_hostnames (sn_computer v) (sn_host v) = Inr ()
     \<and> text_ok u hostname_max_length (sn_computer v) \<and> text_ok u hostname_max_length (sn_host v)
     \<and> text_ok u source_max_length (sn_source v) \<and> text_ok u sourcetype_max_length (sn_sourcetype v)
     \<and> text_ok u process_guid_max_length (sn_process_guid v) \<and> text_ok u image_max_length (sn_image v)
     \<and> text_ok u image_max_length (sn_parent_image v) \<and> text_ok u image_max_length (sn_target_filename v)"

lemma optional_text_ok: "optional_result_value u row k n = Inr v \<Longrightarrow> text_ok u n v"
  using optional_result_value_Inr [of u row k n v] by (simp add: text_ok_def)

lemma build_finding_parts:
  assumes "build_finding u row c = Inr j" "config_ok u c"
  shows "\<exists>v. sent_ok u v \<and> j = finding_json c (event_members v)
    \<and> validate_event_time u (row_value row ''_time'') = Inr (sn_time v)"
proof -
  obtain computer host t ec ri so st pg im pa ta where p:
    "optional_result_value u row ''Computer'' hostname_max_length = Inr computer"
    "optional_result_value u row ''host'' hostname_max_length = Inr host"
    "validate_hostnames computer host = Inr ()"
    "validate_event_time u (row_value row ''_time'') = Inr t"
    "decimal_integer u (row_value row ''EventCode'') event_code_maximum = Inr ec"
    "decimal_integer u (row_value row ''RecordID'') record_id_maximum = Inr ri"
    "optional_result_value u row ''source'' source_max_length = Inr so"
    "optional_result_value u row ''sourcetype'' sourcetype_max_length = Inr st"
    "optional_result_value u row ''ProcessGuid'' process_guid_max_length = Inr pg"
    "optional_result_value u row ''Image'' image_max_length = Inr im"
    "optional_result_value u row ''ParentImage'' image_max_length = Inr pa"
    "optional_result_value u row ''TargetFilename'' image_max_length = Inr ta"
    and j: "j = finding_json c ([(S ''detected_at'', JStr t), (S ''channel'', JStr (cf_channel c)),
         (S ''event_code'', JStr ec), (S ''record_id'', JStr ri)]
        @ json_member ''computer'' (map_option JStr computer) @ json_member ''host'' (map_option JStr host)
        @ json_member ''source'' (map_option JStr so) @ json_member ''sourcetype'' (map_option JStr st)
        @ json_member ''process_guid'' (map_option JStr pg) @ json_member ''image'' (map_option JStr im)
        @ json_member ''parent_image'' (map_option JStr pa) @ json_member ''target_filename'' (map_option JStr ta))"
    using assms(1) unfolding build_finding_def and_then_Inr
    by (elim exE conjE) (rule that, assumption, assumption, simp, assumption+, simp)
  obtain n m where n: "ec = dec_nat n" "1 \<le> n" "int n \<le> event_code_maximum"
    and m: "ri = dec_nat m" "1 \<le> m" "int m \<le> record_id_maximum"
    using decimal_integer_Inr [OF p(5)] decimal_integer_Inr [OF p(6)] by blast
  let ?v = "\<lparr>sn_time = t, sn_code = n, sn_record = m, sn_computer = computer, sn_host = host, sn_source = so,
    sn_sourcetype = st, sn_process_guid = pg, sn_image = im, sn_parent_image = pa, sn_target_filename = ta\<rparr>"
  have "sent_ok u ?v"
    using p(3,4) n(2,3) m(2,3) p(1,2,7-12) [THEN optional_text_ok] by (auto simp: sent_ok_def)
  moreover have "j = finding_json c (event_members ?v)"
    using j n(1) m(1) assms(2) by (simp add: event_members_def config_ok_def)
  moreover have "validate_event_time u (row_value row ''_time'') = Inr (sn_time ?v)" using p(4) by simp
  ultimately show ?thesis by blast
qed

lemma event_members_distinct: "distinct (map fst (event_members v))"
proof -
  have names: "map fst (json_member k w) = (if w = None then [] else [S k])" for k and w :: "json option"
    by (cases w) simp_all
  show ?thesis by (simp add: event_members_def names)
qed

lemma event_members_readable: "json_readable (JObj (event_members v))"
  using event_members_distinct [of v] by (auto simp: event_members_def member_facts split: option.split)

section \<open>The gateway's validation of it\<close>

lemma require_nonblank_simp [simp]: "nonblank v \<Longrightarrow> require_nonblank v = Inr v"
  by simp

lemma validate_metadata_lookup:
  "member_names d [''rule_id'', ''rule_title'', ''sigma_level''] \<Longrightarrow>
   dict_get d (S ''rule_id'') = Some (PStr (uuid_str x)) \<Longrightarrow> dict_get d (S ''rule_title'') = Some (PStr title) \<Longrightarrow>
   dict_get d (S ''sigma_level'') = Some (PStr (sigma_level_value l)) \<Longrightarrow>
   nonblank title \<Longrightarrow> length title \<le> rule_title_max_length \<Longrightarrow> list_all encodable title \<Longrightarrow>
   validate_detection_metadata u (PDict d) = Inr \<lparr>sd_rule_id = uuid_str x, sd_rule_title = title, sd_sigma_level = l\<rparr>"
proof -
  assume a: "member_names d [''rule_id'', ''rule_title'', ''sigma_level'']"
    "dict_get d (S ''rule_id'') = Some (PStr (uuid_str x))" "dict_get d (S ''rule_title'') = Some (PStr title)"
    "dict_get d (S ''sigma_level'') = Some (PStr (sigma_level_value l))"
    "nonblank title" "length title \<le> rule_title_max_length" "list_all encodable title"
  have "validate_sigma_level (PStr (sigma_level_value l)) = Inr l"
    by (cases l) (simp_all add: sigma_levels_def)
  moreover have "Suc 0 \<le> length title" using a(5) by (cases title) simp_all
  ultimately show ?thesis using a by (simp add: required_def del: validate_sigma_level.simps)
qed

lemma text_ok_optional:
  assumes "text_ok u n v" "unicode_ok u"
  shows "optional_str n (map_option PStr v) = Inr v"
proof (cases v)
  case (Some s)
  with assms have "1 \<le> length s" "length s \<le> n" "nonblank s" "list_all encodable s"
    by (auto simp: text_ok_def Suc_le_eq intro: printable_encodable)
  with Some show ?thesis by (simp add: optional_str_def)
qed (simp add: optional_str_def)

lemma positive_decimal:
  assumes "1 \<le> n" "int n \<le> m" "n < 10 ^ 19"
  shows "parse_positive_integer (PStr (dec_nat n)) m = Inr (int n)"
  using assms dec_nat_length [OF assms(3)] by (simp add: int_digits_limit_def)

definition received_event :: "sent_event \<Rightarrow> splunk_event" where
  "received_event v =
     \<lparr>se_detected_at = TS_str (sn_time v), se_computer = sn_computer v, se_host = sn_host v,
      se_channel = windows_sysmon_channel, se_source = sn_source v, se_sourcetype = sn_sourcetype v,
      se_event_code = int (sn_code v), se_record_id = int (sn_record v), se_process_guid = sn_process_guid v,
      se_image = sn_image v, se_parent_image = sn_parent_image v, se_target_filename = sn_target_filename v\<rparr>"

lemma sysmon_channel_valid:
  assumes "unicode_ok u"
  shows "validate_channel u windows_sysmon_channel = Inr windows_sysmon_channel"
  by (simp add: validate_channel_def windows_sysmon_channel_def S_def strip_def is_space_def is_ascii_def
      printable_ascii [OF assms])

lemma sent_event_validates:
  assumes "sent_ok u v" "unicode_ok u" "unicode_ok g"
  shows "validate_event g (PDict (sent_object (event_members v))) = Inr (received_event v)"
proof -
  have get: "dict_get (sent_object (event_members v)) k
      = map_option (\<lambda>j. py_of_json (sort_json j)) (dict_get (event_members v) k)" for k
    by (rule sent_object_get [OF event_members_distinct])
  note time = validated_time_normalizes(2)
  have t: "length (sn_time v) \<le> 64" using assms(1) time by (auto simp: sent_ok_def)
  have code: "sn_code v < 10 ^ 19" "sn_record v < 10 ^ 19"
    using assms(1) by (simp_all add: sent_ok_def splunk_bounds)
  have opt: "optional_str n (map_option (\<lambda>j. py_of_json (sort_json j)) (map_option JStr w)) = Inr w"
    if "text_ok u n w" for n w
    using text_ok_optional [OF that assms(2)] by (simp add: option.map_comp comp_def)
  have chan: "bounded_str channel_max_length (PStr windows_sysmon_channel) = Inr windows_sysmon_channel"
    "nonblank windows_sysmon_channel"
    by (simp_all add: windows_sysmon_channel_def splunk_bounds nonblank_S is_space_def)
  have hosts: "sn_computer v \<noteq> None \<or> sn_host v \<noteq> None"
    using assms(1) validated_hostnames_normalize(2) by (auto simp: sent_ok_def)
  have look: "dict_get (event_members v) (S ''_time'') = None" "dict_get (event_members v) (S ''detected_at'') = Some (JStr (sn_time v))"
    "dict_get (event_members v) (S ''Computer'') = None" "dict_get (event_members v) (S ''computer'') = map_option JStr (sn_computer v)"
    "dict_get (event_members v) (S ''host'') = map_option JStr (sn_host v)"
    "dict_get (event_members v) (S ''channel'') = Some (JStr windows_sysmon_channel)"
    "dict_get (event_members v) (S ''source'') = map_option JStr (sn_source v)"
    "dict_get (event_members v) (S ''sourcetype'') = map_option JStr (sn_sourcetype v)"
    "dict_get (event_members v) (S ''EventCode'') = None" "dict_get (event_members v) (S ''event_code'') = Some (JStr (dec_nat (sn_code v)))"
    "dict_get (event_members v) (S ''RecordID'') = None" "dict_get (event_members v) (S ''record_id'') = Some (JStr (dec_nat (sn_record v)))"
    "dict_get (event_members v) (S ''ProcessGuid'') = None" "dict_get (event_members v) (S ''process_guid'') = map_option JStr (sn_process_guid v)"
    "dict_get (event_members v) (S ''Image'') = None" "dict_get (event_members v) (S ''image'') = map_option JStr (sn_image v)"
    "dict_get (event_members v) (S ''ParentImage'') = None" "dict_get (event_members v) (S ''parent_image'') = map_option JStr (sn_parent_image v)"
    "dict_get (event_members v) (S ''TargetFilename'') = None" "dict_get (event_members v) (S ''target_filename'') = map_option JStr (sn_target_filename v)"
    by (simp_all add: event_members_def dict_gets split: option.split)
  have int: "parse_positive_integer (PStr (dec_nat (sn_code v))) event_code_maximum = Inr (int (sn_code v))"
    "parse_positive_integer (PStr (dec_nat (sn_record v))) record_id_maximum = Inr (int (sn_record v))"
    using assms(1) code by (intro positive_decimal; simp add: sent_ok_def)+
  have texts: "text_ok u hostname_max_length (sn_computer v)" "text_ok u hostname_max_length (sn_host v)"
    "text_ok u source_max_length (sn_source v)" "text_ok u sourcetype_max_length (sn_sourcetype v)"
    "text_ok u process_guid_max_length (sn_process_guid v)" "text_ok u image_max_length (sn_image v)"
    "text_ok u parent_image_max_length (sn_parent_image v)" "text_ok u target_filename_max_length (sn_target_filename v)"
    using assms(1) by (simp_all add: sent_ok_def splunk_bounds)
  show ?thesis
    using t hosts chan
    by (simp add: event_member_def get look required_def texts [THEN opt] int sysmon_channel_valid [OF assms(3)]
        timestamp_string_max_length_def event_hostname_present_def received_event_def
        del: parse_positive_integer.simps bounded_str.simps)
qed

lemma sent_finding_validates:
  assumes "sent_ok u v" "config_ok u c" "unicode_ok u"
  shows "\<exists>f. (\<forall>g. unicode_ok g \<longrightarrow> validate_finding g (py_of_json (sort_json (finding_json c (event_members v)))) = Inr f)
    \<and> sf_event f = received_event v"
proof -
  obtain x l where c: "cf_rule_id c = uuid_str x" "cf_sigma_level c = sigma_level_value l" "nonblank (cf_rule_title c)"
    "length (cf_rule_title c) \<le> rule_title_max_length" "list_all encodable (cf_rule_title c)"
    using assms(2,3) by (auto simp: config_ok_def intro: printable_encodable)
  let ?det = "[(S ''rule_id'', JStr (cf_rule_id c)), (S ''rule_title'', JStr (cf_rule_title c)),
    (S ''sigma_level'', JStr (cf_sigma_level c))]"
  let ?top = "[(S ''schema'', JStr splunk_finding_schema), (S ''detection'', JObj ?det), (S ''event'', JObj (event_members v))]"
  have j: "finding_json c (event_members v) = JObj ?top" by (simp add: finding_json_def)
  have det: "validate_detection_metadata g (PDict (sent_object ?det))
      = Inr \<lparr>sd_rule_id = uuid_str x, sd_rule_title = cf_rule_title c, sd_sigma_level = l\<rparr>" for g
    using c by (intro validate_metadata_lookup) (simp_all add: sent_object_get sent_object_names dict_gets)
  have top: "dict_get (sent_object ?top) (S ''schema'') = Some (PStr splunk_finding_schema)"
    "dict_get (sent_object ?top) (S ''detection'') = Some (PDict (sent_object ?det))"
    "dict_get (sent_object ?top) (S ''event'') = Some (PDict (sent_object (event_members v)))"
    by (simp_all add: sent_object_get dict_gets sent_object_py del: sort_json.simps(6))
  have names: "member_names (sent_object ?top) [''schema'', ''detection'', ''event'']" by (simp add: sent_object_names)
  have "validate_finding g (PDict (sent_object ?top))
      = Inr \<lparr>sf_detection = \<lparr>sd_rule_id = uuid_str x, sd_rule_title = cf_rule_title c, sd_sigma_level = l\<rparr>,
             sf_event = received_event v\<rparr>" if "unicode_ok g" for g
    using names sent_event_validates [OF assms(1,3) that]
    by (simp add: required_def top det del: validate_detection_metadata.simps validate_event.simps)
  then show ?thesis unfolding j sent_object_py by auto
qed

lemma sent_finding_normalizes:
  assumes "sent_ok u v" "sf_event f = received_event v"
  shows "normalize_splunk_finding f \<noteq> Inl ValueError"
proof -
  obtain n where "normalize_hostname (sn_computer v) (sn_host v) = Inr n"
    using assms(1) validated_hostnames_normalize(1) by (auto simp: sent_ok_def)
  moreover obtain x where "validate_event_time u x = Inr (sn_time v)" using assms(1) by (auto simp: sent_ok_def)
  ultimately show ?thesis
    using validated_time_normalizes(3) [of u x "sn_time v"] assms(2)
    by (auto simp: normalize_splunk_finding_def Let_def received_event_def simp del: normalize_timestamp.simps)
qed

lemma serialized_reads_back:
  assumes "serialize_finding j = Inr body" "json_readable j"
  shows "json_loads True body = Some (py_of_json (sort_json j))" "length body \<le> 65536"
proof -
  from assms(1) have e: "encode_utf8 ActionInputError (dumps j) = Inr body" "length body \<le> 65536"
    by (auto simp: serialize_finding_def and_then_Inr maximum_finding_body_bytes_def split: if_splits)
  then show "length body \<le> 65536" by simp
  from e(1) have "list_all encodable (print_json (sort_json j))" "body = utf8_bytes (print_json (sort_json j))"
    by (auto simp: encode_utf8_def dumps_def split: if_splits)
  then show "json_loads True body = Some (py_of_json (sort_json j))"
    using loads_print [of "sort_json j" True] json_readable_sorted [OF assms(2)] by simp
qed

text \<open>What the gateway makes of a body that the action has built.\<close>

lemma sent_finding_accepted:
  assumes "sent_ok u v" "serialize_finding (finding_json c (event_members v)) = Inr body" "config_ok u c" "unicode_ok u"
  shows "\<exists>f d. finding_ok u f \<and> sf_event f = received_event v \<and> canonicalize f \<noteq> Inl ValueError
    \<and> json_loads True body = Some d \<and> (\<forall>g. unicode_ok g \<longrightarrow> validate_finding g d = Inr f)"
proof -
  let ?j = "finding_json c (event_members v)"
  obtain f where f: "\<forall>g. unicode_ok g \<longrightarrow> validate_finding g (py_of_json (sort_json ?j)) = Inr f"
    "sf_event f = received_event v"
    using sent_finding_validates [OF assms(1,3,4)] by blast
  have "json_readable ?j" using event_members_readable [of v] by (simp add: finding_json_def)
  note loads = serialized_reads_back(1) [OF assms(2) this]
  have ok: "finding_ok u f" using f(1) assms(4) validate_finding_ok by blast
  have "canonicalize f \<noteq> Inl ValueError"
    using canonicalize_cases [OF ok] sent_finding_normalizes [OF assms(1) f(2)] by auto
  then show ?thesis using ok f loads by auto
qed

lemma sent_finding_overflow:
  assumes "sent_ok u v" "sf_event f = received_event v" "finding_ok g f"
  shows "canonicalize f = Inl OverflowError \<longleftrightarrow> time_overflows (sn_time v)"
proof -
  obtain x where x: "validate_event_time u x = Inr (sn_time v)" using assms(1) by (auto simp: sent_ok_def)
  obtain n where "normalize_hostname (sn_computer v) (sn_host v) = Inr n"
    using assms(1) validated_hostnames_normalize(1) by (auto simp: sent_ok_def)
  then have "normalize_splunk_finding f = Inl OverflowError \<longleftrightarrow> normalize_timestamp (TS_str (sn_time v)) = Inl OverflowError"
    using assms(2)
    by (cases "normalize_timestamp (TS_str (sn_time v))")
       (simp_all add: normalize_splunk_finding_def Let_def received_event_def del: normalize_timestamp.simps)
  moreover have "canonicalize f = Inl OverflowError \<longleftrightarrow> normalize_splunk_finding f = Inl OverflowError"
    using canonicalize_cases [OF assms(3)] by (cases "canonicalize f") auto
  ultimately show ?thesis using validated_time_overflow [OF x] by blast
qed

lemma built_finding_accepted:
  assumes "build_finding u row c = Inr j" "serialize_finding j = Inr body" "config_ok u c" "unicode_ok u"
  shows "\<exists>f t. finding_ok u f \<and> (\<forall>g. unicode_ok g \<longrightarrow> finding_of_body g body = Some (canonicalize f))
    \<and> canonicalize f \<noteq> Inl ValueError
    \<and> row_value row ''_time'' = PStr t \<and> (canonicalize f = Inl OverflowError \<longleftrightarrow> time_overflows t)"
proof -
  obtain v where v: "sent_ok u v" "j = finding_json c (event_members v)"
    and t: "validate_event_time u (row_value row ''_time'') = Inr (sn_time v)"
    using build_finding_parts [OF assms(1,3)] by blast
  obtain f d where f: "finding_ok u f" "sf_event f = received_event v" "canonicalize f \<noteq> Inl ValueError"
    "json_loads True body = Some d" "\<forall>g. unicode_ok g \<longrightarrow> validate_finding g d = Inr f"
    using sent_finding_accepted [OF v(1) assms(2) [unfolded v(2)] assms(3,4)] by blast
  then have "\<forall>g. unicode_ok g \<longrightarrow> finding_of_body g body = Some (canonicalize f)" by (simp add: finding_of_body_def)
  then show ?thesis
    using f validated_time_normalizes(1) [OF t] sent_finding_overflow [OF v(1) f(2,1)] by blast
qed

section \<open>Requests that carry a post\<close>

text \<open>A request carries a post when its chunks make up the body and each header of the post is there
  once, in whatever case; a server may add others.\<close>

definition carries :: "finding_request \<Rightarrow> delivery_post \<Rightarrow> bool" where
  "carries req p \<longleftrightarrow>
     concat (fr_chunks req) = dp_body p
     \<and> (\<forall>(k, v) \<in> set (dp_headers p). map snd (filter (\<lambda>(k', _). lower k' = lower k) (fr_headers req)) = [v])"

lemma bounded_body_concat:
  "length b + length (concat cs) \<le> max_request_body_bytes \<Longrightarrow> bounded_body_from b cs = Some (b @ concat cs)"
  by (induction b cs rule: bounded_body_from.induct) auto

lemma carried_body:
  "carries req p \<Longrightarrow> length (dp_body p) \<le> 65536 \<Longrightarrow> bounded_body req = Some (dp_body p)"
  using bounded_body_concat [of "[]" "fr_chunks req"] by (simp add: bounded_body_def carries_def max_request_body_bytes_def)

lemma carried_header:
  assumes "carries req p" "dp_headers p = signed_headers secret body ts"
  shows "single_header req ''x-alert2ir-timestamp'' = Some ts"
    "single_header req ''x-alert2ir-signature'' = Some (S ''v1='' @ request_signature secret ts body)"
    "is_json_request req"
proof -
  have l: "lower (S ''X-Alert2IR-Timestamp'') = lower (S ''x-alert2ir-timestamp'')"
    "lower (S ''X-Alert2IR-Signature'') = lower (S ''x-alert2ir-signature'')"
    "lower (S ''Content-Type'') = lower (S ''content-type'')"
    by (simp_all add: lower_def lower_cp_def S_def)
  have h: "header_values (fr_headers req) ''x-alert2ir-timestamp'' = [ts]"
    "header_values (fr_headers req) ''x-alert2ir-signature'' = [S ''v1='' @ request_signature secret ts body]"
    "header_values (fr_headers req) ''content-type'' = [S ''application/json'']"
    using assms by (simp_all add: carries_def signed_headers_def header_values_def l)
  show "single_header req ''x-alert2ir-timestamp'' = Some ts"
    "single_header req ''x-alert2ir-signature'' = Some (S ''v1='' @ request_signature secret ts body)"
    by (simp_all add: single_header_def h)
  have "lower (strip (takeWhile (\<lambda>c. c \<noteq> 59) (S ''application/json''))) = S ''application/json''"
    by (simp add: S_def strip_def is_space_def lower_def lower_cp_def)
  then show "is_json_request req" by (simp add: is_json_request_def h)
qed

text \<open>A carried post is authentic to a gateway with the same secret whose clock is within the window.\<close>

lemma carried_authentic:
  assumes "carries req p" "dp_headers p = signed_headers secret (dp_body p) ts" "auth_timestamp_pattern ts"
    "minimum_shared_secret_bytes \<le> length secret" "aware now"
    "\<bar>timestamp_seconds now - int (digits_value ts)\<bar> \<le> default_allowed_skew_seconds"
  shows "verify_signature secret (single_header req ''x-alert2ir-timestamp'')
    (single_header req ''x-alert2ir-signature'') (dp_body p) now default_allowed_skew_seconds = Inr ()"
  unfolding carried_header [OF assms(1,2)]
  using verify_signature_iff [OF assms(4,5), of default_allowed_skew_seconds] assms(3,6)
  by (simp add: default_allowed_skew_seconds_def)

lemma authentic_request_runs:
  assumes "bounded_body req = Some body"
    "verify_signature secret (single_header req ''x-alert2ir-timestamp'')
      (single_header req ''x-alert2ir-signature'') body now default_allowed_skew_seconds = Inr ()"
    "is_json_request req" "finding_of_body g body = Some r"
  shows "submit_finding g secret sub now req w =
    (case r of
       Inl e \<Rightarrow> if is_value_error e \<or> e = TypeError then (Inr (adapter_error 422 ''invalid_splunk_finding''), w) else (Inl e, w)
     | Inr c \<Rightarrow> bind (sub (cz_alert c) (cz_idempotency_key c))
         (\<lambda>x. ret \<lparr>ad_status = adapter_status x, ad_body = result_json x\<rparr>) w)"
  using assms by (simp add: submit_finding_def ret_def raise_def split: sum.split)

text \<open>The client posts every canonicalized finding, under its key.\<close>

lemma client_posts:
  assumes "alert_ok al" "delivery_key k"
  shows "\<exists>q. alert_from_domain al = Inr q \<and> (\<forall>T w. \<exists>r. submit_alert g T al k w = (r, (q, k) # w))"
proof -
  obtain q where q: "alert_from_domain al = Inr q" using alert_from_domain_total [OF assms(1)] by blast
  have "client_key_ok k"
    using delivery_key_facts(1,2) [OF assms(2)] by (auto simp: client_key_ok_def list_ex_iff)
  with q show ?thesis
    by (auto simp: submit_alert_def bind_def lift_def post_once_def Let_def)
qed

section \<open>The body always fits\<close>

text \<open>A bound on the bytes of a printed value, which does not depend on the order of members.\<close>

fun byte_bound :: "json \<Rightarrow> nat" where
  "byte_bound (JInt i) = length (dec_int i)"
| "byte_bound (JStr s) = 2 + 6 * length s"
| "byte_bound (JArr vs) = 2 + sum_list (map (\<lambda>v. byte_bound v + 1) vs)"
| "byte_bound (JObj ms) = 2 + sum_list (map (\<lambda>(k, v). 6 * length k + byte_bound v + 4) ms)"
| "byte_bound _ = 5"

lemma length_utf8_append [simp]: "length (utf8_bytes (s @ t)) = length (utf8_bytes s) + length (utf8_bytes t)"
  by (simp add: utf8_bytes_def)

lemma length_utf8_ascii: "is_ascii s \<Longrightarrow> length (utf8_bytes s) = length s"
  using utf8_ascii [of s "()"] by (auto simp: encode_utf8_def split: if_splits)

lemma length_utf8_Cons: "c < 128 \<Longrightarrow> length (utf8_bytes (c # s)) = Suc (length (utf8_bytes s))"
  by (simp add: utf8_bytes_def utf8_units_def)

lemma length_utf8_Nil [simp]: "length (utf8_bytes []) = 0"
  by (simp add: utf8_bytes_def)

lemma quote_bytes: "length (utf8_bytes (quote s)) \<le> 2 + 6 * length s"
proof -
  have e: "length (utf8_bytes (escape_cp c)) \<le> 6" for c
  proof (cases "c < 32")
    case True
    have "is_ascii (hex_fix 4 c)"
      using hex_fix_chars [of _ 4 c] by (fastforce simp: is_ascii_def list_all_iff is_hex_def is_digit_def)
    with True show ?thesis by (simp add: escape_cp_def length_utf8_Cons length_utf8_ascii)
  next
    case False
    have "length (utf8_bytes [c]) \<le> 4" by (simp add: utf8_bytes_def utf8_units_def)
    with False show ?thesis by (simp add: escape_cp_def length_utf8_Cons)
  qed
  have "length (utf8_bytes (concat (map escape_cp s))) \<le> 6 * length s"
    by (induction s) (use e in \<open>auto intro: add_mono\<close>)
  then show ?thesis by (simp add: quote_def length_utf8_Cons)
qed

lemma print_json_bytes:
  "length (utf8_bytes (print_json v)) \<le> byte_bound v"
  "length (utf8_bytes (print_elems vs)) \<le> sum_list (map (\<lambda>v. byte_bound v + 1) vs)"
  "length (utf8_bytes (print_members ms)) \<le> sum_list (map (\<lambda>(k, v). 6 * length k + byte_bound v + 4) ms)"
proof (induction v and vs and ms rule: print_json_print_elems_print_members.induct)
  case (3 i)
  have "is_ascii (dec_int i)"
    using dec_nat_digits by (fastforce simp: dec_int_def is_ascii_def list_all_iff is_digit_def)
  then show ?case by (simp add: length_utf8_ascii)
next
  case (11 k v)
  then show ?case using quote_bytes [of k] by (simp add: length_utf8_Cons)
next
  case (12 k v m ms)
  then show ?case using quote_bytes [of k] by (simp add: length_utf8_Cons)
next
  case (4 s)
  then show ?case using quote_bytes [of s] by simp
qed (simp_all add: length_utf8_Cons length_utf8_ascii is_ascii_def S_def)

lemma sum_list_sorted: "sum_list (map f (sort_key g xs)) = sum_list (map f xs)" for f :: "'a \<Rightarrow> nat"
proof -
  have "sum_list (map f (insort_key g x ys)) = f x + sum_list (map f ys)" for x ys by (induction ys) auto
  then show ?thesis by (induction xs) simp_all
qed

lemma byte_bound_sorted [simp]: "byte_bound (sort_json v) = byte_bound v"
proof (induction v)
  case (JArr vs)
  then have "map (\<lambda>v. byte_bound (sort_json v) + 1) vs = map (\<lambda>v. byte_bound v + 1) vs" by simp
  then show ?case by (simp add: comp_def cong: map_cong)
next
  case (JObj ms)
  then have "map ((\<lambda>(k, v). 6 * length k + byte_bound v + 4) \<circ> map_prod id sort_json) ms
      = map (\<lambda>(k, v). 6 * length k + byte_bound v + 4) ms"
    by auto
  then show ?case by (simp add: sum_list_sorted del: map_eq_conv)
qed simp_all

lemma member_bound:
  assumes "text_ok u n v"
  shows "sum_list (map (\<lambda>(k, v). 6 * length k + byte_bound v + 4) (json_member k (map_option JStr v))) \<le> 6 * (length k + n) + 6"
  using assms by (cases v) (auto simp: text_ok_def)

lemma event_bound:
  assumes "sent_ok u v"
  shows "byte_bound (JObj (event_members v)) \<le> 32000"
proof -
  have t: "length (sn_time v) \<le> 64" using assms validated_time_normalizes(2) by (auto simp: sent_ok_def)
  have n: "length (dec_nat (sn_code v)) \<le> 19" "length (dec_nat (sn_record v)) \<le> 19"
    using assms by (intro dec_nat_length; simp add: sent_ok_def splunk_bounds)+
  have m: "text_ok u 255 (sn_computer v)" "text_ok u 255 (sn_host v)" "text_ok u 512 (sn_source v)"
    "text_ok u 128 (sn_sourcetype v)" "text_ok u 128 (sn_process_guid v)" "text_ok u 1024 (sn_image v)"
    "text_ok u 1024 (sn_parent_image v)" "text_ok u 1024 (sn_target_filename v)"
    using assms by (simp_all add: sent_ok_def splunk_bounds)
  show ?thesis
    using t n m(1) [THEN member_bound, of "''computer''"] m(2) [THEN member_bound, of "''host''"]
      m(3) [THEN member_bound, of "''source''"] m(4) [THEN member_bound, of "''sourcetype''"]
      m(5) [THEN member_bound, of "''process_guid''"] m(6) [THEN member_bound, of "''image''"]
      m(7) [THEN member_bound, of "''parent_image''"] m(8) [THEN member_bound, of "''target_filename''"]
    by (simp add: event_members_def windows_sysmon_channel_def)
qed

lemma text_ok_encodable:
  "unicode_ok u \<Longrightarrow> text_ok u n v \<Longrightarrow> case v of None \<Rightarrow> True | Some s \<Rightarrow> list_all encodable s"
  by (auto simp: text_ok_def printable_encodable split: option.split)

lemma validated_time_encodable:
  "unicode_ok u \<Longrightarrow> validate_event_time u x = Inr t \<Longrightarrow> list_all encodable t"
  by (auto simp: validate_event_time_def and_then_Inr require_string_Inr printable_encodable split: if_splits sum.splits)

lemma event_encodable:
  assumes "sent_ok u v" "unicode_ok u"
  shows "json_encodable (JObj (event_members v))"
proof -
  have d: "list_all encodable (dec_nat n)" for n
    using dec_nat_digits by (fastforce simp: list_all_iff is_digit_def encodable_def)
  have m: "json_encodable (JObj (json_member k (map_option JStr w)))" if "text_ok u n w" for k n w
    using text_ok_encodable [OF assms(2) that] by (cases w) auto
  have t: "list_all encodable (sn_time v)"
    using assms validated_time_encodable by (auto simp: sent_ok_def)
  have a: "json_encodable (JObj (xs @ ys)) \<longleftrightarrow> json_encodable (JObj xs) \<and> json_encodable (JObj ys)" for xs ys
    by auto
  have c: "json_encodable (JObj [(S ''detected_at'', JStr (sn_time v)), (S ''channel'', JStr windows_sysmon_channel),
      (S ''event_code'', JStr (dec_nat (sn_code v))), (S ''record_id'', JStr (dec_nat (sn_record v)))])"
    using t d by (simp add: windows_sysmon_channel_def)
  show ?thesis
    using assms(1) c unfolding event_members_def a by (auto simp: sent_ok_def intro!: m simp del: json_encodable.simps)
qed

text \<open>So every finding that is built is serialized: the check of its size never fires.\<close>

lemma sent_finding_serializes:
  assumes "sent_ok u v" "config_ok u c" "unicode_ok u"
  shows "serialize_finding (finding_json c (event_members v)) = Inr (utf8_bytes (dumps (finding_json c (event_members v))))"
proof -
  let ?j = "finding_json c (event_members v)"
  obtain x l where c: "cf_rule_id c = uuid_str x" "cf_sigma_level c = sigma_level_value l"
    "length (cf_rule_title c) \<le> 256" "list_all encodable (cf_rule_title c)"
    using assms(2,3) by (auto simp: config_ok_def splunk_bounds intro: printable_encodable)
  have l: "length (sigma_level_value l) \<le> 13 \<and> list_all encodable (sigma_level_value l)" by (cases l) simp_all
  have "byte_bound ?j \<le> 65536"
    using event_bound [OF assms(1)] c(3) l by (simp add: finding_json_def c(1,2) splunk_finding_schema_def)
  then have "length (utf8_bytes (dumps ?j)) \<le> 65536"
    using print_json_bytes(1) [of "sort_json ?j"] by (simp add: dumps_def)
  moreover have "json_encodable ?j"
    using event_encodable [OF assms(1,3)] c(4) l uuid_str_encodable
    by (simp add: finding_json_def c(1,2) splunk_finding_schema_def)
  ultimately show ?thesis
    by (simp add: serialize_finding_def encode_utf8_def dumps_def print_json_encodable sort_json_encodable
        maximum_finding_body_bytes_def)
qed

lemma built_finding_serializes:
  "build_finding u row c = Inr j \<Longrightarrow> config_ok u c \<Longrightarrow> unicode_ok u \<Longrightarrow>
   serialize_finding j = Inr (utf8_bytes (dumps j))"
  using build_finding_parts sent_finding_serializes by blast

end
