(* ===== verification/SplunkSamples.thy ===== *)
theory SplunkSamples
  imports SplunkAcceptance
begin

text \<open>
  Concrete values of the Splunk path for the witnesses: a configuration, findings with a usual time
  and with one before the year 1 in UTC, and the signed requests that carry them.
\<close>

section \<open>Sample data\<close>

definition sample_secret :: bytes where "sample_secret = replicate 32 65"

definition sample_config :: action_configuration where
  "sample_config =
     \<lparr>cf_adapter_url = S ''http://gateway/v1/splunk/findings'', cf_secret_file = S ''/etc/secret'',
      cf_rule_id = uuid_str 7, cf_rule_title = S ''Suspicious child'', cf_sigma_level = S ''high'',
      cf_channel = windows_sysmon_channel\<rparr>"

definition usual_time :: string where "usual_time = ''2026-01-02T03:04:05.678+01:00''"
definition early_time :: string where "early_time = ''0001-01-01T00:00:00+00:01''"

definition sample_sent :: "string \<Rightarrow> sent_event" where
  "sample_sent t =
     \<lparr>sn_time = S t, sn_code = 1, sn_record = 42, sn_computer = Some (S ''WS1.corp''), sn_host = None, sn_source = None,
      sn_sourcetype = None, sn_process_guid = None, sn_image = Some (S ''C:/a.exe''), sn_parent_image = None,
      sn_target_filename = None\<rparr>"

definition sample_json :: "string \<Rightarrow> json" where
  "sample_json t = finding_json sample_config (event_members (sample_sent t))"

definition sample_body :: "string \<Rightarrow> bytes" where
  "sample_body t = utf8_bytes (dumps (sample_json t))"

lemma sample_secret_length: "minimum_shared_secret_bytes \<le> length sample_secret" "length sample_secret \<le> 4096"
  by (simp_all add: sample_secret_def minimum_shared_secret_bytes_def)

lemma sample_config_ok: "config_ok ascii_db sample_config"
proof -
  have "\<exists>l. S ''high'' = sigma_level_value l" by (rule exI [of _ SIGMA_HIGH]) simp
  then show ?thesis
    unfolding config_ok_def sample_config_def
    by (auto simp: nonblank_S is_space_def splunk_bounds) (simp add: isprintable_def ascii_db_def S_def)
qed

lemmas time_evaluation =
  S_def validate_event_time_def require_string_def ascii_db_def is_space_def strip_def numeric_timestamp_pattern_def
  is_digit_def Let_def rfc3339_pattern_def digits_in_def rfc_fraction_def rfc_zone_def rfc3339_datetime_def
  field_value_def digits_value_def zone_offset_def days_of_month_def days_in_month_def is_leap_def us_per_day_def

lemma sample_times:
  "validate_event_time ascii_db (PStr (S usual_time)) = Inr (S usual_time)"
  "validate_event_time ascii_db (PStr (S early_time)) = Inr (S early_time)"
  by (simp_all add: usual_time_def early_time_def time_evaluation)

lemma sample_host: "validate_hostnames (Some (S ''WS1.corp'')) None = Inr ()"
  by (simp add: validate_hostnames_def compare_optional_def normalize_hostname_for_comparison_def strip_final_dot_def
      strip_def is_space_def S_def Let_def hostname_max_length_def is_ascii_def hostname_pattern_def host_char_def is_digit_def)

lemma sample_sent_ok:
  "t = usual_time \<or> t = early_time \<Longrightarrow> sent_ok ascii_db (sample_sent t)"
proof -
  assume "t = usual_time \<or> t = early_time"
  then have "\<exists>x. validate_event_time ascii_db x = Inr (S t)" using sample_times by auto
  moreover have "text_ok ascii_db hostname_max_length (Some (S ''WS1.corp''))"
    "text_ok ascii_db image_max_length (Some (S ''C:/a.exe''))"
    by (simp_all add: text_ok_def nonblank_S is_space_def splunk_bounds) (simp_all add: isprintable_def ascii_db_def S_def)
  ultimately show ?thesis
    using sample_host by (simp add: sent_ok_def sample_sent_def) (simp add: splunk_bounds text_ok_def)
qed

lemma sample_serialized:
  "t = usual_time \<or> t = early_time \<Longrightarrow> serialize_finding (sample_json t) = Inr (sample_body t)"
  using sent_finding_serializes [OF sample_sent_ok sample_config_ok ascii_db_ok] by (simp add: sample_json_def sample_body_def)

lemma sample_body_small: "t = usual_time \<or> t = early_time \<Longrightarrow> length (sample_body t) \<le> 65536"
  using serialized_reads_back(2) [OF sample_serialized, of t] event_members_readable
  by (simp add: sample_json_def finding_json_def)

text \<open>The requests that carry a sample body, at the time of its signature.\<close>

definition sample_post :: "string \<Rightarrow> delivery_post" where
  "sample_post t =
     \<lparr>dp_url = cf_adapter_url sample_config, dp_body = sample_body t,
      dp_headers = signed_headers sample_secret (sample_body t) (S ''1767323045'')\<rparr>"

definition sample_request :: "string \<Rightarrow> finding_request" where
  "sample_request t =
     \<lparr>fr_chunks = [sample_body t], fr_headers = (S ''host'', S ''gateway'') # dp_headers (sample_post t)\<rparr>"

definition sample_now :: datetime where "sample_now = utc (unix_epoch_us + 1767323045 * 1000000)"

lemma sample_now_facts: "aware sample_now" "timestamp_seconds sample_now = 1767323045"
  by (simp_all add: sample_now_def timestamp_seconds_def unix_epoch_us_def us_per_day_def binary64_def bit_length.simps
      Let_def round_half_even_def float_trunc_def)

lemma sample_timestamp: "auth_timestamp_pattern (S ''1767323045'')" "digits_value (S ''1767323045'') = 1767323045"
  by (simp_all add: auth_timestamp_pattern_def is_digit_def digits_value_def S_def)

lemma sample_carries: "carries (sample_request t) (sample_post t)"
  by (simp add: carries_def sample_request_def sample_post_def signed_headers_def)
     (simp add: lower_def lower_cp_def S_def)

lemma zeros: "replicate 3 c = [c, c, c]" "replicate 6 c = [c, c, c, c, c, c]"
  by (simp_all add: numeral_eq_Suc)

lemma sample_normal_times:
  "normalize_timestamp (TS_str (S usual_time)) = Inr (utc 63902916245678000)"
  "rfc3339_pattern (S early_time)" "\<not> numeric_timestamp_pattern (S early_time)"
  "rfc3339_datetime (S early_time) = Inr \<lparr>dt_local = 0, dt_offset = Some 60000000\<rparr>"
  "strip (S early_time) = S early_time" "S early_time \<noteq> []"
  by (simp_all add: usual_time_def early_time_def time_evaluation astimezone_utc_def instant_def utc_def max_us_def
      day_number_def days_before_year_def days_before_month_def zeros)

section \<open>A host\<close>

definition sample_invocation :: json where
  "sample_invocation =
     JObj [(S ''results_file'', JStr (S ''/r'')),
       (S ''configuration'', JObj
         [(S ''adapter_url'', JStr (S ''http://gateway/v1/splunk/findings'')), (S ''secret_file'', JStr (S ''/etc/secret'')),
          (S ''rule_id'', JStr (uuid_str 7)), (S ''rule_title'', JStr (S ''Suspicious child'')),
          (S ''sigma_level'', JStr (S ''high'')), (S ''channel'', JStr windows_sysmon_channel)])]"

definition sample_row :: "ustring list" where
  "sample_row = [S usual_time, S ''WS1.corp'', [], [], [], S ''1'', S ''42'', [], S ''C:/a.exe'', [], []]"

definition splunk_host :: host where
  "splunk_host =
     \<lparr>ho_unicode = ascii_db,
      ho_urlsplit = (\<lambda>_. Some \<lparr>su_scheme = S ''http'', su_path = S ''/v1/splunk/findings'', su_query = [], su_fragment = [],
        su_hostname = Some (S ''gateway''), su_username = None, su_password = None\<rparr>),
      ho_results = (\<lambda>_. Results_file 10 (Unpacked [])), ho_csv = (\<lambda>_. [Inr expected_result_fields, Inr sample_row]),
      ho_files = (\<lambda>_. Readable True 32 sample_secret),
      ho_delivery = \<lparr>dv_clock = (\<lambda>_. PInt 1767323045), dv_open = (\<lambda>_. Opened 200 [])\<rparr>\<rparr>"

definition sample_members :: "(ustring \<times> pyvalue) list" where
  "sample_members = (case py_of_json sample_invocation of PDict d \<Rightarrow> d)"

lemma sample_row_value: 
  "read_single_result (ho_results splunk_host) (ho_csv splunk_host) p = Inr (zip expected_result_fields sample_row)"
  by (simp add: read_single_result_def splunk_host_def max_compressed_results_bytes_def max_decompressed_results_bytes_def
    decode_utf8_sig_def Let_def single_row_def sample_row_def expected_result_fields_def)

lemma sample_texts:
  "require_string ascii_db e n (PStr (S ''http://gateway/v1/splunk/findings'')) = (if 33 \<le> n then Inr (S ''http://gateway/v1/splunk/findings'') else Inl e)"
  "require_string ascii_db e n (PStr (S ''/etc/secret'')) = (if 11 \<le> n then Inr (S ''/etc/secret'') else Inl e)"
  "require_string ascii_db e n (PStr (S ''Suspicious child'')) = (if 16 \<le> n then Inr (S ''Suspicious child'') else Inl e)"
  "require_string ascii_db e n (PStr (S ''/r'')) = (if 2 \<le> n then Inr (S ''/r'') else Inl e)"
  "require_string ascii_db e n (PStr (S ''WS1.corp'')) = (if 8 \<le> n then Inr (S ''WS1.corp'') else Inl e)"
  "require_string ascii_db e n (PStr (S ''C:/a.exe'')) = (if 8 \<le> n then Inr (S ''C:/a.exe'') else Inl e)"
  "require_string ascii_db e n (PStr (S ''1'')) = (if 1 \<le> n then Inr (S ''1'') else Inl e)"
  "require_string ascii_db e n (PStr (S ''42'')) = (if 2 \<le> n then Inr (S ''42'') else Inl e)"
  by (simp_all add: require_string_def S_def ascii_db_def strip_def is_space_def)

lemma uuid_required: "require_string ascii_db e 36 (PStr (uuid_str x)) = Inr (uuid_str x)"
proof -
  have "ud_printable ascii_db c" if "c \<in> set (uuid_str x)" for c
    using uuid_str_chars [OF that] by (auto simp: ascii_db_def is_hex_def is_digit_def)
  then show ?thesis using uuid_str_text(1) [of x] by (auto simp: require_string_Inr isprintable_def list_all_iff)
qed

lemma sample_configuration: "parse_configuration ascii_db (ho_urlsplit splunk_host) sample_members = Inr sample_config"
  apply (simp add: parse_configuration_def sample_members_def sample_invocation_def get_value_def dict_gets mk_action_configuration_def
     validate_adapter_url_def sample_texts maximum_url_length_def maximum_path_length_def canonical_uuid_def uuid_required splunk_host_def
     splunk_bounds known_sigma_level_def sigma_levels_def sample_config_def)
  apply (simp add: S_def)
  done


lemma sample_digits: "all_digits (S ''1'')" "digits_value (S ''1'') = 1" "all_digits (S ''42'')" "digits_value (S ''42'') = 42"
  by (simp_all add: S_def all_digits_def is_digit_def digits_value_def)

lemma sample_built: "build_finding ascii_db (zip expected_result_fields sample_row) sample_config = Inr (sample_json usual_time)"
proof -
  have o: "optional_result_value ascii_db (zip expected_result_fields sample_row) ''Computer'' hostname_max_length = Inr (Some (S ''WS1.corp''))"
    "optional_result_value ascii_db (zip expected_result_fields sample_row) ''host'' hostname_max_length = Inr None"
    "optional_result_value ascii_db (zip expected_result_fields sample_row) ''source'' source_max_length = Inr None"
    "optional_result_value ascii_db (zip expected_result_fields sample_row) ''sourcetype'' sourcetype_max_length = Inr None"
    "optional_result_value ascii_db (zip expected_result_fields sample_row) ''ProcessGuid'' process_guid_max_length = Inr None"
    "optional_result_value ascii_db (zip expected_result_fields sample_row) ''Image'' image_max_length = Inr (Some (S ''C:/a.exe''))"
    "optional_result_value ascii_db (zip expected_result_fields sample_row) ''ParentImage'' image_max_length = Inr None"
    "optional_result_value ascii_db (zip expected_result_fields sample_row) ''TargetFilename'' image_max_length = Inr None"
    by (simp_all add: optional_result_value_def expected_result_fields_def sample_row_def dict_gets sample_texts splunk_bounds)
  have r: "row_value (zip expected_result_fields sample_row) ''_time'' = PStr (S usual_time)"
    "row_value (zip expected_result_fields sample_row) ''EventCode'' = PStr (S ''1'')"
    "row_value (zip expected_result_fields sample_row) ''RecordID'' = PStr (S ''42'')"
    by (simp_all add: row_value_def expected_result_fields_def sample_row_def dict_gets)
  have d: "decimal_integer ascii_db (PStr (S ''1'')) event_code_maximum = Inr (dec_nat 1)"
    "decimal_integer ascii_db (PStr (S ''42'')) record_id_maximum = Inr (dec_nat 42)"
    by (simp_all add: decimal_integer_def sample_texts sample_digits splunk_bounds)
  have c: "cf_channel sample_config = windows_sysmon_channel" by (simp add: sample_config_def)
  show ?thesis
    by (simp add: build_finding_def o r d sample_host sample_times c sample_json_def event_members_def sample_sent_def)
qed

lemma two: "replicate 2 c = [c, c]"
  by (simp add: numeral_eq_Suc)

lemma sample_secret_loaded: "load_secret (ho_files splunk_host) p = Inr sample_secret"
proof -
  have "take (maximum_secret_bytes + 3) sample_secret = sample_secret"
    by (simp add: sample_secret_def maximum_secret_bytes_def)
  moreover have "strip_line_end sample_secret = sample_secret"
    by (simp add: strip_line_end_def sample_secret_def two)
  ultimately show ?thesis
    using sample_secret_length by (simp add: load_secret_def splunk_host_def maximum_secret_bytes_def validate_secret_def)
qed

lemma sample_prepared: "prepare_delivery splunk_host sample_members = Inr (sample_config, sample_body usual_time, sample_secret)"
proof -
  have u: "ho_unicode splunk_host = ascii_db" by (simp add: splunk_host_def)
  have f: "results_file_from_invocation ascii_db sample_members = Inr (S ''/r'')"
    by (simp add: results_file_from_invocation_def sample_members_def sample_invocation_def get_value_def dict_gets sample_texts
        maximum_path_length_def) (simp add: S_def)
  show ?thesis
    using sample_serialized [of usual_time] by (simp add: prepare_delivery_def u sample_configuration f sample_row_value sample_built sample_secret_loaded)
qed

lemma sample_invocation_loads: "json_loads True (utf8_bytes (print_json sample_invocation)) = Some (PDict sample_members)"
proof -
  have "json_readable sample_invocation" "json_encodable sample_invocation"
    by (simp_all add: sample_invocation_def uuid_str_encodable windows_sysmon_channel_def)
  then have "json_loads True (utf8_bytes (print_json sample_invocation)) = Some (py_of_json sample_invocation)"
    using loads_print [of sample_invocation] print_json_encodable(1) [of sample_invocation] by simp
  then show ?thesis by (simp add: sample_members_def sample_invocation_def)
qed

lemma sample_invocation_small: "length (utf8_bytes (print_json sample_invocation)) \<le> 65536"
  using print_json_bytes(1) [of sample_invocation] by (simp add: sample_invocation_def windows_sysmon_channel_def)

end
