(* ===== verification/SplunkProps.thy ===== *)
theory SplunkProps
  imports SplunkSamples
begin

text \<open>
  The properties of the Splunk path: the identity of findings, what the gateway posts, answers and
  refuses, what the delivery action does with its attempts and what it makes of the answers, and
  that every attempt reaches Alert2IR as one alert under one key.
\<close>

section \<open>Identity\<close>

text \<open>C28: The logical identity of two findings is the same document exactly when the detection, the
  channel, the computer, the instant, the event code and the record number agree; then the
  idempotency keys agree. The title, the level, the evidence and the zone of the time do not count.\<close>

theorem finding_identity_decides:
  assumes "finding_identity_bytes m = Inr a" "finding_identity_bytes n = Inr b"
  shows "(a = b \<longleftrightarrow> same_finding m n) \<and> (same_finding m n \<longrightarrow> finding_idempotency_key m = finding_idempotency_key n)"
proof -
  obtain x where x: "finding_identity_document m = Inr x" "encode_utf8 UnicodeEncodeError (dumps x) = Inr a"
    using assms(1) by (auto simp: finding_identity_bytes_def and_then_Inr)
  obtain y where y: "finding_identity_document n = Inr y" "encode_utf8 UnicodeEncodeError (dumps y) = Inr b"
    using assms(2) by (auto simp: finding_identity_bytes_def and_then_Inr)
  have "a = b \<longleftrightarrow> dumps x = dumps y" using x(2) y(2) encode_utf8_inj by fastforce
  then have "a = b \<longleftrightarrow> same_finding m n" using identity_document_eq [OF x(1) y(1)] by (simp add: dumps_eq_iff)
  then show ?thesis using assms by (auto simp: finding_idempotency_key_def finding_identity_digest_def)
qed

definition sample_normalized :: "ustring \<Rightarrow> datetime \<Rightarrow> int \<Rightarrow> normalized_splunk_finding" where
  "sample_normalized title d i =
     \<lparr>ns_rule_id = uuid_str 7, ns_rule_title = title, ns_sigma_level = SIGMA_HIGH, ns_detected_at = d,
      ns_computer = S ''ws1.corp'', ns_channel = windows_sysmon_channel, ns_event_code = 1, ns_record_id = i,
      ns_source = None, ns_sourcetype = None, ns_process_guid = None, ns_image = None, ns_parent_image = None,
      ns_target_filename = None\<rparr>"

theorem finding_identity_decides_witness:
  "\<exists>a b c. finding_identity_bytes (sample_normalized (S ''A'') (utc 0) 42) = Inr a
     \<and> finding_identity_bytes (sample_normalized (S ''B'') \<lparr>dt_local = 60000000, dt_offset = Some 60000000\<rparr> 42) = Inr b
     \<and> finding_identity_bytes (sample_normalized (S ''A'') (utc 0) 43) = Inr c \<and> a = b \<and> a \<noteq> c"
proof -
  let ?m = "sample_normalized (S ''A'') (utc 0) 42"
    and ?n = "sample_normalized (S ''B'') \<lparr>dt_local = 60000000, dt_offset = Some 60000000\<rparr> 42"
    and ?o = "sample_normalized (S ''A'') (utc 0) 43"
  have t: "\<exists>x. finding_identity_bytes (sample_normalized t d i) = Inr x" if "aware d" "instant d = 0" for t d i
    using that uuid_str_encodable
    by (intro identity_bytes_total) (simp_all add: sample_normalized_def utc_in_range_def max_us_def us_per_day_def windows_sysmon_channel_def)
  obtain a b c where b: "finding_identity_bytes ?m = Inr a" "finding_identity_bytes ?n = Inr b" "finding_identity_bytes ?o = Inr c"
    using t [of "utc 0"] t [of "\<lparr>dt_local = 60000000, dt_offset = Some 60000000\<rparr>"]
    by (metis (no_types, lifting) aware_def datetime.select_convs instant_def option.simps(3,5) utc_simps diff_self)
  have "same_finding ?m ?n" "\<not> same_finding ?m ?o"
    by (simp_all add: same_finding_def sample_normalized_def) (simp add: instant_def)
  then show ?thesis using b finding_identity_decides [OF b(1,2)] finding_identity_decides [OF b(1,3)] by simp
qed

section \<open>The canonical alert\<close>

text \<open>C29: A validated finding either fails to normalize, with a ValueError or an OverflowError, or yields
  a key that the API accepts and a valid alert of the normalized finding under that key, which
  survives the trip through the request models and has a fingerprint.\<close>

theorem canonical_finding_accepted:
  assumes "validate_finding u v = Inr f"
  shows "case canonicalize f of
     Inl e \<Rightarrow> e = ValueError \<or> e = OverflowError
   | Inr c \<Rightarrow> idempotency_key [cz_idempotency_key c] = Inr (cz_idempotency_key c)
       \<and> (\<exists>n. normalize_splunk_finding f = Inr n \<and> finding_idempotency_key n = Inr (cz_idempotency_key c)
            \<and> alert_of_finding n (cz_idempotency_key c) (cz_alert c))
       \<and> (\<exists>q. alert_from_domain (cz_alert c) = Inr q \<and> alert_to_domain q = Inr (cz_alert c))
       \<and> (\<exists>dg. fingerprint_canonical_alert (cz_alert c) = Inr (fingerprint_version, dg) \<and> length dg = 32)"
proof (cases "canonicalize f")
  case (Inl e)
  then show ?thesis using canonicalize_cases [OF validate_finding_ok [OF assms]] by auto
next
  case (Inr c)
  then obtain n where n: "normalize_splunk_finding f = Inr n" "finding_idempotency_key n = Inr (cz_idempotency_key c)"
    "delivery_key (cz_idempotency_key c)" "alert_of_finding n (cz_idempotency_key c) (cz_alert c)"
    using canonicalize_cases [OF validate_finding_ok [OF assms]] by auto
  then have al: "alert_ok (cz_alert c)" "alert_encodable (cz_alert c)" "utc_in_range (al_detected_at (cz_alert c))"
    unfolding alert_of_finding_def by blast+
  obtain q where q: "alert_from_domain (cz_alert c) = Inr q" using alert_from_domain_total [OF al(1)] by blast
  show ?thesis
    using Inr n delivery_key_facts(5) [OF n(3)] q alert_from_domain_round [OF q] fingerprint_defined [OF al(3,2)] by auto
qed

lemma sample_canonicalized:
  "\<exists>f c d. finding_ok ascii_db f \<and> canonicalize f = Inr c \<and> json_loads True (sample_body usual_time) = Some d
    \<and> (\<forall>g. unicode_ok g \<longrightarrow> validate_finding g d = Inr f)"
proof -
  obtain f d where f: "finding_ok ascii_db f" "sf_event f = received_event (sample_sent usual_time)" "canonicalize f \<noteq> Inl ValueError"
    "json_loads True (sample_body usual_time) = Some d" "\<forall>g. unicode_ok g \<longrightarrow> validate_finding g d = Inr f"
    using sent_finding_accepted [OF sample_sent_ok sample_serialized [unfolded sample_json_def] sample_config_ok ascii_db_ok]
    by blast
  have "normalize_splunk_finding f \<noteq> Inl OverflowError"
    using f(2) sample_normal_times(1) normalize_hostname_error [of "sn_computer (sample_sent usual_time)" "sn_host (sample_sent usual_time)"]
    by (auto simp: normalize_splunk_finding_def Let_def received_event_def sample_sent_def and_then_def
        simp del: normalize_timestamp.simps split: sum.splits)
  then obtain c where "canonicalize f = Inr c"
    using canonicalize_cases [OF f(1)] f(3) by (auto split: sum.splits)
  with f(1,4,5) show ?thesis by blast
qed

theorem canonical_finding_accepted_witness:
  "\<exists>d f c. json_loads True (sample_body usual_time) = Some d \<and> validate_finding ascii_db d = Inr f \<and> canonicalize f = Inr c
     \<and> idempotency_key [cz_idempotency_key c] = Inr (cz_idempotency_key c)
     \<and> (\<exists>dg. fingerprint_canonical_alert (cz_alert c) = Inr (fingerprint_version, dg))"
proof -
  obtain f c d where f: "json_loads True (sample_body usual_time) = Some d" "validate_finding ascii_db d = Inr f"
    "canonicalize f = Inr c"
    using sample_canonicalized ascii_db_ok by blast
  with canonical_finding_accepted [OF f(2)] show ?thesis by auto
qed

section \<open>The gateway\<close>

text \<open>C7: Whatever a request holds and whatever Alert2IR answers, the gateway posts at most once, and only
  when the body is within its limit, exactly one timestamp header within the window and exactly one
  signature header with the HMAC of that body under that timestamp are there, the body is a JSON
  finding that validates and normalizes; what it posts is the canonical alert of the finding under
  the finding's own key.\<close>

theorem gateway_posts_authentic_findings:
  assumes "submit_finding u secret (submit_alert u T) now req w = (r, w')" "w' \<noteq> w"
    and "minimum_shared_secret_bytes \<le> length secret" "aware now"
  shows "\<exists>body ts c q. bounded_body req = Some body
    \<and> single_header req ''x-alert2ir-timestamp'' = Some ts \<and> auth_timestamp_pattern ts
    \<and> \<bar>timestamp_seconds now - int (digits_value ts)\<bar> \<le> default_allowed_skew_seconds
    \<and> single_header req ''x-alert2ir-signature'' = Some (S ''v1='' @ request_signature secret ts body)
    \<and> is_json_request req \<and> finding_of_body u body = Some (Inr c) \<and> alert_from_domain (cz_alert c) = Inr q
    \<and> w' = (q, cz_idempotency_key c) # w"
proof -
  obtain body c q where p: "bounded_body req = Some body"
    "verify_signature secret (single_header req ''x-alert2ir-timestamp'') (single_header req ''x-alert2ir-signature'')
       body now default_allowed_skew_seconds = Inr ()"
    "is_json_request req" "finding_of_body u body = Some (Inr c)" "alert_from_domain (cz_alert c) = Inr q"
    "w' = (q, cz_idempotency_key c) # w"
    using client.handler_posts [OF assms(1)] assms(2) by blast
  have "0 \<le> default_allowed_skew_seconds" by (simp add: default_allowed_skew_seconds_def)
  from p(2) [unfolded verify_signature_iff [OF assms(3,4) this]] p(1,3-) show ?thesis by blast
qed

text \<open>Authentic requests that carry the sample bodies.\<close>

lemma sample_request_facts:
  assumes "t = usual_time \<or> t = early_time"
  shows "bounded_body (sample_request t) = Some (sample_body t)"
    "verify_signature sample_secret (single_header (sample_request t) ''x-alert2ir-timestamp'')
       (single_header (sample_request t) ''x-alert2ir-signature'') (sample_body t) sample_now default_allowed_skew_seconds
     = Inr ()"
    "is_json_request (sample_request t)"
proof -
  have h: "dp_headers (sample_post t) = signed_headers sample_secret (dp_body (sample_post t)) (S ''1767323045'')"
    by (simp add: sample_post_def)
  have b: "dp_body (sample_post t) = sample_body t" by (simp add: sample_post_def)
  show "bounded_body (sample_request t) = Some (sample_body t)"
    using carried_body [OF sample_carries] sample_body_small [OF assms] b by metis
  show "verify_signature sample_secret (single_header (sample_request t) ''x-alert2ir-timestamp'')
       (single_header (sample_request t) ''x-alert2ir-signature'') (sample_body t) sample_now default_allowed_skew_seconds
     = Inr ()"
    using carried_authentic [OF sample_carries h sample_timestamp(1) sample_secret_length(1) sample_now_facts(1)]
    by (simp add: b sample_now_facts sample_timestamp default_allowed_skew_seconds_def)
  show "is_json_request (sample_request t)" using carried_header(3) [OF sample_carries h] .
qed

text \<open>Alert2IR that does not answer in time.\<close>

definition silent :: transport where "silent w = Post_timeout"

lemma sample_gateway_run:
  "\<exists>x :: delivery_result. \<exists>q k. submit_finding ascii_db sample_secret (submit_alert ascii_db silent) sample_now (sample_request usual_time) [] =
     (Inr \<lparr>ad_status = adapter_status x, ad_body = result_json x\<rparr>, [(q, k)])
   \<and> adapter_status x = 504 \<and> dr_classification x = D_TRANSIENT_FAILURE"
proof -
  obtain f c d where f: "finding_ok ascii_db f" "canonicalize f = Inr c" "json_loads True (sample_body usual_time) = Some d"
    "validate_finding ascii_db d = Inr f"
    using sample_canonicalized ascii_db_ok by blast
  have fb: "finding_of_body ascii_db (sample_body usual_time) = Some (Inr c)" using f by (simp add: finding_of_body_def)
  obtain n where k: "delivery_key (cz_idempotency_key c)" "alert_of_finding n (cz_idempotency_key c) (cz_alert c)"
    using canonicalize_cases [OF f(1)] f(2) by auto
  have "alert_ok (cz_alert c)" using k(2) by (simp add: alert_of_finding_def)
  then obtain q where q: "alert_from_domain (cz_alert c) = Inr q" using alert_from_domain_total by blast
  have key: "client_key_ok (cz_idempotency_key c)"
    using delivery_key_facts(1,2) [OF k(1)] by (auto simp: client_key_ok_def list_ex_iff)
  let ?x = "no_response ''upstream_timeout'' True"
  have x: "mk_delivery_result ?x = Inr ?x"
    by (simp add: mk_delivery_result_def no_response_def safe_error_code_def S_def is_digit_def)
  have "submit_alert ascii_db silent (cz_alert c) (cz_idempotency_key c) [] = (Inr ?x, [(q, cz_idempotency_key c)])"
    using key q x by (simp add: submit_alert_def bind_def lift_def post_once_def Let_def silent_def)
  then have "submit_finding ascii_db sample_secret (submit_alert ascii_db silent) sample_now (sample_request usual_time) [] =
     (Inr \<lparr>ad_status = adapter_status ?x, ad_body = result_json ?x\<rparr>, [(q, cz_idempotency_key c)])"
    using authentic_request_runs [OF sample_request_facts fb] by (simp add: bind_def ret_def)
  moreover have "adapter_status ?x = 504" "dr_classification ?x = D_TRANSIENT_FAILURE"
    by (simp_all add: adapter_status_def no_response_def)
  ultimately show ?thesis by blast
qed

theorem gateway_posts_authentic_findings_witness:
  "\<exists>r p. submit_finding ascii_db sample_secret (submit_alert ascii_db silent) sample_now (sample_request usual_time) [] = (r, [p])
     \<and> (\<exists>body c. bounded_body (sample_request usual_time) = Some body \<and> finding_of_body ascii_db body = Some (Inr c)
          \<and> snd p = cz_idempotency_key c)"
proof -
  obtain r p where r: "submit_finding ascii_db sample_secret (submit_alert ascii_db silent) sample_now (sample_request usual_time) [] = (r, [p])"
    using sample_gateway_run by blast
  from gateway_posts_authentic_findings [OF r _ sample_secret_length(1) sample_now_facts(1)]
  obtain body c q where "bounded_body (sample_request usual_time) = Some body" "finding_of_body ascii_db body = Some (Inr c)"
    "[p] = (q, cz_idempotency_key c) # []"
    by auto
  with r show ?thesis by auto
qed

text \<open>C30: Every answer of the gateway is a refusal with 400, 401, 413, 415 or 422 and nothing posted, or,
  after exactly one post, the printed result of the delivery under the status of its class. An
  exception leaves the handler only as the OverflowError of a time out of range, before anything is
  posted, or, after the post, as a TypeError or a ValueError of reading the answer of Alert2IR.\<close>

theorem gateway_outcomes:
  assumes "submit_finding u secret (submit_alert u T) now req w = (r, w')"
    and "minimum_shared_secret_bytes \<le> length secret" "aware now"
  shows "case r of
     Inr resp \<Rightarrow>
       refusal resp \<and> w' = w
       \<or> (\<exists>x p. result_well_formed u x \<and> resp = \<lparr>ad_status = adapter_status x, ad_body = result_json x\<rparr>
            \<and> adapter_status x \<in> {200, 202, 400, 409, 422, 500, 502, 503, 504} \<and> w' = p # w)
   | Inl e \<Rightarrow> (e = OverflowError \<or> e = ValueError) \<and> w' = w \<or> (e = TypeError \<or> e = ValueError) \<and> (\<exists>p. w' = p # w)"
proof (cases r)
  case (Inl e)
  consider "e = OverflowError" "w' = w" | al k where "submit_alert u T al k w = (Inl e, w')"
    using client.handler_raises [OF assms(1) [unfolded Inl] assms(3,2)] by blast
  then show ?thesis
  proof cases
    case 1
    with Inl show ?thesis by simp
  next
    case 2
    have "e = ValueError \<and> w' = w \<or> (e = TypeError \<or> e = ValueError) \<and> (\<exists>p. w' = p # w)"
      using submit_alert_error [OF 2] .
    with Inl show ?thesis by auto
  qed
next
  case (Inr resp)
  consider "refusal resp" "w' = w"
    | x where "result_well_formed u x" "resp = \<lparr>ad_status = adapter_status x, ad_body = result_json x\<rparr>" "w' \<noteq> w"
    using client.handler_response [OF assms(1) [unfolded Inr]] by blast
  then show ?thesis
  proof cases
    case 1
    with Inr show ?thesis by auto
  next
    case 2
    have "adapter_status x \<in> {200, 202, 400, 409, 422, 500, 502, 503, 504}"
      using adapter_status_cases [of x] 2(1) by (auto simp: result_well_formed_def split: delivery_classification.splits)
    moreover obtain p where "w' = p # w" using client.handler_posts [OF assms(1)] 2(3) by blast
    ultimately show ?thesis using Inr 2 by auto
  qed
qed

theorem gateway_outcomes_witness:
  "\<exists>x p. submit_finding ascii_db sample_secret (submit_alert ascii_db silent) sample_now (sample_request usual_time) [] =
     (Inr \<lparr>ad_status = 504, ad_body = result_json x\<rparr>, [p]) \<and> result_well_formed ascii_db x"
proof -
  obtain x :: delivery_result and q k where x: "submit_finding ascii_db sample_secret (submit_alert ascii_db silent) sample_now
      (sample_request usual_time) [] = (Inr \<lparr>ad_status = adapter_status x, ad_body = result_json x\<rparr>, [(q, k)])"
    "adapter_status x = 504"
    using sample_gateway_run by blast
  from gateway_outcomes [OF x(1) sample_secret_length(1) sample_now_facts(1)] obtain y where
    "result_well_formed ascii_db y" "result_json y = result_json x"
    by (auto simp: adapter_error_def)
  with x show ?thesis by metis
qed

text \<open>C32: A finding that passes validation, with a time that Python's datetime can hold but whose instant
  in UTC is before the year 1 or after the year 9999, is not refused with 422: the OverflowError
  leaves the handler.\<close>

theorem gateway_overflow_uncaught:
  assumes "bounded_body req = Some body"
    and "verify_signature secret (single_header req ''x-alert2ir-timestamp'')
      (single_header req ''x-alert2ir-signature'') body now default_allowed_skew_seconds = Inr ()"
    and "is_json_request req" "json_loads True body = Some d" "validate_finding u d = Inr f"
    and "se_detected_at (sf_event f) = TS_str s" "s \<noteq> []" "strip s = s" "\<not> numeric_timestamp_pattern s"
    and "rfc3339_pattern s" "rfc3339_datetime s = Inr t" "\<not> utc_in_range t"
  shows "submit_finding u secret sub now req w = (Inl OverflowError, w)"
proof -
  have "normalize_timestamp (TS_str s) = Inl OverflowError"
    using assms(7-12) by (simp add: astimezone_utc_def utc_in_range_def)
  then have "canonicalize f = Inl OverflowError"
    using assms(6) by (simp add: canonicalize_def normalize_splunk_finding_def Let_def del: normalize_timestamp.simps)
  then have "finding_of_body u body = Some (Inl OverflowError)" using assms(4,5) by (simp add: finding_of_body_def)
  then show ?thesis using authentic_request_runs [OF assms(1-3)] by simp
qed

theorem gateway_overflow_uncaught_witness:
  "submit_finding ascii_db sample_secret (submit_alert ascii_db silent) sample_now (sample_request early_time) []
   = (Inl OverflowError, [])"
proof -
  obtain f d where f: "sf_event f = received_event (sample_sent early_time)" "json_loads True (sample_body early_time) = Some d"
    "validate_finding ascii_db d = Inr f"
    using sent_finding_accepted [OF sample_sent_ok sample_serialized [unfolded sample_json_def] sample_config_ok ascii_db_ok]
      ascii_db_ok by blast
  have "\<not> utc_in_range \<lparr>dt_local = 0, dt_offset = Some 60000000\<rparr>" by (simp add: utc_in_range_def instant_def)
  then show ?thesis
    using sample_normal_times(2-6) f
    by (intro gateway_overflow_uncaught [OF sample_request_facts f(2,3)])
       (auto simp: received_event_def sample_sent_def)
qed

section \<open>The delivery action\<close>

text \<open>C8: The action reads every answer of the gateway as it was meant. After a post, what it makes of the
  printed result is the abstraction of that result: its class as the category, its processing
  identifier, its replay mark and its error code. A refusal is a permanent failure. It counts an
  answer as a success exactly with 200 or 202 and retries exactly with 502, 503 or 504.\<close>

theorem sender_reads_gateway_answer:
  assumes "submit_finding u secret (submit_alert u T) now req w = (Inr resp, w')" "unicode_ok u"
  shows "\<exists>d. classify_adapter_response v (answer_of resp) = Inr d
    \<and> (if w' = w then d = disposition ''permanent_failure'' False False (Some (ad_status resp)) (Some ''unexpected_adapter_response'')
       else \<exists>x. resp = \<lparr>ad_status = adapter_status x, ad_body = result_json x\<rparr> \<and> d = disposition_of x)
    \<and> (di_success d \<longleftrightarrow> ad_status resp \<in> {200, 202}) \<and> (di_retryable d \<longleftrightarrow> ad_status resp \<in> {502, 503, 504})"
proof -
  consider s e where "resp = adapter_error s e" "s \<in> {400, 401, 413, 415, 422}" "length e \<le> 1000" "w' = w"
    | x where "result_well_formed u x" "resp = \<lparr>ad_status = adapter_status x, ad_body = result_json x\<rparr>" "w' \<noteq> w"
    using client.handler_response [OF assms(1)] by (blast elim: refusalE)
  then show ?thesis
  proof cases
    case 1
    then show ?thesis
      using action_reads_error [OF 1(2,3), of v] by (auto simp: adapter_error_def disposition_def)
  next
    case 2
    have c: "result_consistent x" using 2(1) by (simp add: result_well_formed_def)
    have "di_success (disposition_of x) \<longleftrightarrow> adapter_status x \<in> {200, 202}"
      using adapter_status_cases [OF c] by (cases "dr_classification x") (auto simp: disposition_of_def)
    moreover have "di_retryable (disposition_of x) \<longleftrightarrow> adapter_status x \<in> {502, 503, 504}"
      using retryable_statuses [OF c] by (simp add: disposition_of_def)
    ultimately show ?thesis using 2 action_reads_result [OF 2(1) assms(2), of v] by auto
  qed
qed

theorem sender_reads_gateway_answer_witness:
  "\<exists>resp p d. submit_finding ascii_db sample_secret (submit_alert ascii_db silent) sample_now (sample_request usual_time) []
       = (Inr resp, [p])
     \<and> classify_adapter_response ascii_db (answer_of resp) = Inr d \<and> di_retryable d \<and> \<not> di_success d"
proof -
  obtain x :: delivery_result and q k where x: "submit_finding ascii_db sample_secret (submit_alert ascii_db silent) sample_now
      (sample_request usual_time) [] = (Inr \<lparr>ad_status = adapter_status x, ad_body = result_json x\<rparr>, [(q, k)])"
    "adapter_status x = 504"
    using sample_gateway_run by blast
  from sender_reads_gateway_answer [OF x(1) ascii_db_ok, of ascii_db] x show ?thesis by auto
qed

text \<open>C9: A delivery ends: whatever the clock, the network and the gateway do, at most three posts are
  made, each of the same body to the configured URL and signed under its own timestamp, with the
  pauses of one and two seconds between them, in this order. The loop never runs past its last
  attempt; it returns after the first attempt that is not to be retried, and reports the number of
  attempts it made.\<close>

theorem delivery_bounded:
  assumes "deliver u E config secret body w = (r, w')"
  shows "\<exists>ps ss. dw_posts w' = ps @ dw_posts w \<and> dw_sleeps w' = ss @ dw_sleeps w \<and> length ps \<le> 3
    \<and> list_all (signed_post config secret body) ps \<and> rev ss = take (length ss) [1, 2]
    \<and> (case r of
         Inl e \<Rightarrow> e \<noteq> Assertion_error \<and> length ss \<le> length ps
       | Inr oc \<Rightarrow> do_attempts oc = length ps \<and> length ps = Suc (length ss)
           \<and> (do_success oc \<longleftrightarrow> do_category oc = S ''success'')
           \<and> (length ps < 3 \<longrightarrow> do_category oc \<noteq> S ''transient_failure''))"
proof -
  consider (refused) e where "r = Inl e" "w' = w" "e \<noteq> Assertion_error"
    | (loop) "delivery_loop u E config secret body maximum_attempts w = (r, w')"
    using assms by (auto simp: deliver_def raise_def bind_def lift_def validate_secret_def split: if_splits)
  then show ?thesis
  proof cases
    case refused
    then show ?thesis by auto
  next
    case loop
    have "loop_result config secret body maximum_attempts w r w'"
      using delivery_loop_result [OF _ _ loop] by (simp add: maximum_attempts_def)
    then show ?thesis
      by (auto simp: loop_result_def maximum_attempts_def retry_delays_seconds_def loop_error_def split: sum.splits)
  qed
qed

text \<open>A network that never answers.\<close>

definition dead_env :: delivery_env where
  "dead_env = \<lparr>dv_clock = (\<lambda>_. PInt 1767323045), dv_open = (\<lambda>_. Open_timeout)\<rparr>"

definition start_delivery :: delivery_world where "start_delivery = \<lparr>dw_posts = [], dw_sleeps = []\<rparr>"

lemma sample_attempt:
  assumes "dv_clock E = (\<lambda>_. PInt 1767323045)"
  shows "delivery_attempt u E sample_config sample_secret (sample_body t) w =
    (let w' = w\<lparr>dw_posts := sample_post t # dw_posts w\<rparr>
     in (case and_then (http_post_result (dv_open E w')) (classify_adapter_response u) of
           Inr d \<Rightarrow> Inr d
         | Inl e \<Rightarrow> if e = ConnectionFailure \<or> e = RequestTimeout then Inr (transient_exception_disposition e) else Inl e, w'))"
proof -
  have t: "dec_int 1767323045 = S ''1767323045''" by (simp add: dec_int_def S_def dec_nat.simps)
  have s: "validate_secret sample_secret = Inr sample_secret"
    using sample_secret_length by (simp add: validate_secret_def maximum_secret_bytes_def)
  have h: "signature_header sample_secret (S ''1767323045'') b
      = Inr (S ''v1='' @ request_signature sample_secret (S ''1767323045'') b)" for b
    by (simp add: signature_header_def s sample_timestamp request_signature_def)
  show ?thesis
    using sample_timestamp(1)
    by (simp add: delivery_attempt_def assms bind_def asks_def lift_def timestamp_from_clock_def Let_def t h
        transport_post_def attempt_def ret_def raise_def sample_post_def signed_headers_def and_then_def split: sum.split)
qed

lemma sample_deliver:
  "deliver u E config sample_secret (sample_body usual_time) w =
   delivery_loop u E config sample_secret (sample_body usual_time) maximum_attempts w"
  using sample_body_small [of usual_time] sample_secret_length
  by (simp add: deliver_def maximum_finding_body_bytes_def validate_secret_def maximum_secret_bytes_def bind_def lift_def)

lemma dead_delivery:
  "\<exists>oc w'. deliver u dead_env sample_config sample_secret (sample_body usual_time) start_delivery = (Inr oc, w')
     \<and> do_attempts oc = 3 \<and> do_category oc = S ''transient_failure'' \<and> dw_posts w' = replicate 3 (sample_post usual_time)
     \<and> dw_sleeps w' = [2, 1]"
proof -
  have p: "delivery_attempt u dead_env sample_config sample_secret (sample_body usual_time) w =
     (Inr (transient_exception_disposition RequestTimeout), w\<lparr>dw_posts := sample_post usual_time # dw_posts w\<rparr>)" for w
    using sample_attempt [of dead_env u usual_time] by (simp add: dead_env_def http_post_result_def Let_def)
  show ?thesis
    by (simp add: sample_deliver bind_def lift_def maximum_attempts_def numeral_3_eq_3 p Let_def
        transient_exception_disposition_def disposition_def then_do_def modify_def ret_def retry_delays_seconds_def
        start_delivery_def)
qed

theorem delivery_bounded_witness:
  "\<exists>oc w' ps ss. deliver ascii_db dead_env sample_config sample_secret (sample_body usual_time) start_delivery = (Inr oc, w')
     \<and> do_attempts oc = 3 \<and> dw_posts w' = ps \<and> length ps = 3 \<and> dw_sleeps w' = ss \<and> rev ss = [1, 2]
     \<and> list_all (signed_post sample_config sample_secret (sample_body usual_time)) ps"
proof -
  obtain oc w' where d: "deliver ascii_db dead_env sample_config sample_secret (sample_body usual_time) start_delivery = (Inr oc, w')"
    "do_attempts oc = 3" "dw_posts w' = replicate 3 (sample_post usual_time)" "dw_sleeps w' = [2, 1]"
    using dead_delivery by blast
  from delivery_bounded [OF d(1)] d show ?thesis by (auto simp: start_delivery_def)
qed

text \<open>C31: The action ends with exit code 0 only when it was called with exactly \<open>--execute\<close>, has posted, and
  the answer to its last post was read as a success, under 200 or 202.\<close>

theorem exit_zero_means_acknowledged:
  assumes "run_action H arguments stdin w = (Inr 0, w')"
  shows "arguments = [S ''--execute''] \<and> dw_posts w' \<noteq> dw_posts w
    \<and> (\<exists>a d. http_post_result (dv_open (ho_delivery H) w') = Inr a
         \<and> classify_adapter_response (ho_unicode H) a = Inr d \<and> di_success d \<and> ga_status a \<in> {200, 202})"
proof -
  obtain config body secret oc where d: "arguments = [S ''--execute'']"
    "deliver (ho_unicode H) (ho_delivery H) config secret body w = (Inr oc, w')" "do_success oc"
    using assms
    by (auto simp: run_action_def execute_invocation_def bind_def attempt_def lift_def ret_def raise_def Let_def
        split: if_splits sum.splits prod.splits)
  then have "delivery_loop (ho_unicode H) (ho_delivery H) config secret body maximum_attempts w = (Inr oc, w')"
    by (auto simp: deliver_def raise_def bind_def lift_def split: if_splits sum.splits)
  from delivery_loop_success [OF this d(3)] d(1) show ?thesis by blast
qed

lemma acknowledged_delivery:
  "\<exists>w'. run_action splunk_host [S ''--execute''] (utf8_bytes (print_json sample_invocation)) start_delivery = (Inr 0, w')"
proof -
  let ?b = "sample_body usual_time" and ?E = "ho_delivery splunk_host"
  have empty: "json_loads True [] = None"
    by (simp add: json_loads_def json_text_def)
  have u: "ho_unicode splunk_host = ascii_db" by (simp add: splunk_host_def)
  have c: "http_post_result (dv_open ?E w) = Inr \<lparr>ga_status = 200, ga_body = []\<rparr>" for w
    by (simp add: splunk_host_def http_post_result_def read_http_body_def Let_def)
  have d: "classify_adapter_response ascii_db \<lparr>ga_status = 200, ga_body = []\<rparr> = Inr (disposition ''success'' False True (Some 200) None)"
    by (simp add: classify_adapter_response_def bounded_response_object_def maximum_adapter_response_bytes_def empty
        fallback_disposition_def)
  have "dv_clock ?E = (\<lambda>_. PInt 1767323045)" by (simp add: splunk_host_def)
  then have p: "delivery_attempt ascii_db ?E sample_config sample_secret ?b w =
     (Inr (disposition ''success'' False True (Some 200) None), w\<lparr>dw_posts := sample_post usual_time # dw_posts w\<rparr>)" for w
    using sample_attempt [of ?E ascii_db usual_time w] by (simp add: c d Let_def)
  have t: "take (Suc maximum_invocation_bytes) (utf8_bytes (print_json sample_invocation)) = utf8_bytes (print_json sample_invocation)"
    "\<not> maximum_invocation_bytes < length (utf8_bytes (print_json sample_invocation))"
    using sample_invocation_small by (simp_all add: maximum_invocation_bytes_def)
  have pi: "parse_invocation (utf8_bytes (print_json sample_invocation)) = Inr sample_members"
    using t(2) by (simp add: parse_invocation_def sample_invocation_loads)
  show ?thesis
    by (simp add: run_action_def t pi execute_invocation_def sample_prepared u bind_def lift_def attempt_def ret_def Let_def
        sample_deliver maximum_attempts_def numeral_3_eq_3 p disposition_def)
qed

theorem exit_zero_means_acknowledged_witness:
  "\<exists>w' a. run_action splunk_host [S ''--execute''] (utf8_bytes (print_json sample_invocation)) start_delivery = (Inr 0, w')
     \<and> dw_posts w' \<noteq> [] \<and> http_post_result (dv_open (ho_delivery splunk_host) w') = Inr a \<and> ga_status a = 200"
proof -
  obtain w' where r: "run_action splunk_host [S ''--execute''] (utf8_bytes (print_json sample_invocation)) start_delivery = (Inr 0, w')"
    using acknowledged_delivery ..
  from exit_zero_means_acknowledged [OF r] have "dw_posts w' \<noteq> []" by (simp add: start_delivery_def)
  moreover have "http_post_result (dv_open (ho_delivery splunk_host) w') = Inr \<lparr>ga_status = 200, ga_body = []\<rparr>"
    by (simp add: splunk_host_def http_post_result_def read_http_body_def Let_def)
  ultimately show ?thesis using r by simp
qed

section \<open>From the result row to Alert2IR\<close>

text \<open>The posts that the action can make of a prepared delivery, over all clocks and networks, and the
  times at which a post is still within the window of the gateway.\<close>

definition sent_by :: "host \<Rightarrow> action_configuration \<Rightarrow> bytes \<Rightarrow> bytes \<Rightarrow> delivery_post \<Rightarrow> bool" where
  "sent_by H config secret body p \<longleftrightarrow>
     (\<exists>E r w. deliver (ho_unicode H) E config secret body start_delivery = (r, w) \<and> p \<in> set (dw_posts w))"

definition on_time :: "datetime \<Rightarrow> delivery_post \<Rightarrow> bool" where
  "on_time now p \<longleftrightarrow> aware now
     \<and> (\<forall>v. (S ''X-Alert2IR-Timestamp'', v) \<in> set (dp_headers p) \<longrightarrow>
          \<bar>timestamp_seconds now - int (digits_value v)\<bar> \<le> default_allowed_skew_seconds)"

lemma sent_by_signed:
  assumes "sent_by H config secret body p"
  shows "signed_post config secret body p" "minimum_shared_secret_bytes \<le> length secret" "length body \<le> 65536"
proof -
  obtain E r w where d: "deliver (ho_unicode H) E config secret body start_delivery = (r, w)" "p \<in> set (dw_posts w)"
    using assms by (auto simp: sent_by_def)
  have "dw_posts w \<noteq> dw_posts start_delivery" using d(2) by (auto simp: start_delivery_def)
  then have l: "delivery_loop (ho_unicode H) E config secret body maximum_attempts start_delivery = (r, w)"
    and b: "minimum_shared_secret_bytes \<le> length secret" "length body \<le> 65536"
    using d(1) by (auto simp: deliver_def raise_def bind_def lift_def validate_secret_def maximum_finding_body_bytes_def
        split: if_splits)
  then show "minimum_shared_secret_bytes \<le> length secret" "length body \<le> 65536" by blast+
  have "loop_result config secret body maximum_attempts start_delivery r w"
    using delivery_loop_result [OF _ _ l] by (simp add: maximum_attempts_def)
  then show "signed_post config secret body p"
    using d(2) by (auto simp: loop_result_def start_delivery_def list_all_iff)
qed

text \<open>C6: A row that the action has accepted, with a time that does not overflow, reaches Alert2IR as
  one alert under one key: whichever of the attempts of whichever run arrives in time at a gateway
  with the same secret, in whatever chunks and among whatever other headers, the gateway posts the
  same alert under the same key, which the API accepts. When the time of the row overflows, every
  attempt ends in the gateway's OverflowError and nothing is posted. A time overflows when its instant
  in UTC is outside the years 1 to 9999 or, for a number of seconds, when it is at most 5 * 10^(-17)
  seconds short of the year 10000: the microseconds are rounded to 28 digits.\<close>

theorem attempts_reach_one_key:
  assumes "prepare_delivery H invocation = Inr (config, body, secret)" "unicode_ok (ho_unicode H)" "unicode_ok g"
    and "results_file_from_invocation (ho_unicode H) invocation = Inr path"
    and "read_single_result (ho_results H) (ho_csv H) path = Inr row" "row_value row ''_time'' = PStr t"
  shows "if time_overflows t
    then \<forall>p req now T w. sent_by H config secret body p \<and> carries req p \<and> on_time now p \<longrightarrow>
           submit_finding g secret (submit_alert g T) now req w = (Inl OverflowError, w)
    else \<exists>q key. idempotency_key [key] = Inr key
      \<and> (\<forall>p req now T w. sent_by H config secret body p \<and> carries req p \<and> on_time now p \<longrightarrow>
           snd (submit_finding g secret (submit_alert g T) now req w) = (q, key) # w)"
proof -
  obtain j where p: "parse_configuration (ho_unicode H) (ho_urlsplit H) invocation = Inr config"
    "build_finding (ho_unicode H) row config = Inr j" "serialize_finding j = Inr body"
    using assms(1,4,5) by (auto simp: prepare_delivery_def and_then_Inr)
  note cfg = parse_configuration_ok [OF p(1)]
  obtain f where f: "finding_ok (ho_unicode H) f" "finding_of_body g body = Some (canonicalize f)" "canonicalize f \<noteq> Inl ValueError"
    "canonicalize f = Inl OverflowError \<longleftrightarrow> time_overflows t"
    using built_finding_accepted [OF p(2,3) cfg assms(2)] assms(3,6) by auto
  have run: "submit_finding g secret sub now req w =
      (case canonicalize f of
         Inl e \<Rightarrow> if is_value_error e \<or> e = TypeError then (Inr (adapter_error 422 ''invalid_splunk_finding''), w) else (Inl e, w)
       | Inr c \<Rightarrow> bind (sub (cz_alert c) (cz_idempotency_key c)) (\<lambda>x. ret \<lparr>ad_status = adapter_status x, ad_body = result_json x\<rparr>) w)"
    if s: "sent_by H config secret body p" "carries req p" "on_time now p" for p req now sub w
  proof -
    obtain ts where ts: "auth_timestamp_pattern ts" "dp_headers p = signed_headers secret (dp_body p) ts" "dp_body p = body"
      using sent_by_signed(1) [OF s(1)] by (auto simp: signed_post_def)
    have n: "aware now" "\<bar>timestamp_seconds now - int (digits_value ts)\<bar> \<le> default_allowed_skew_seconds"
      using s(3) ts(2) by (auto simp: on_time_def signed_headers_def)
    note a = carried_authentic [OF s(2) ts(2,1) sent_by_signed(2) [OF s(1)] n, unfolded ts(3)]
    have "bounded_body req = Some body" using carried_body [OF s(2)] sent_by_signed(3) [OF s(1)] ts(3) by simp
    from authentic_request_runs [OF this a carried_header(3) [OF s(2) ts(2)] f(2)] show ?thesis .
  qed
  show ?thesis
  proof (cases "canonicalize f")
    case (Inl e)
    with canonicalize_cases [OF f(1)] f(3) have e: "e = OverflowError" by auto
    then have "time_overflows t" using Inl f(4) by simp
    moreover from Inl e run have "\<And>p req now sub w. sent_by H config secret body p \<Longrightarrow> carries req p \<Longrightarrow> on_time now p \<Longrightarrow>
        submit_finding g secret sub now req w = (Inl OverflowError, w)"
      by simp
    ultimately show ?thesis by auto
  next
    case (Inr c)
    then have "\<not> time_overflows t" using f(4) by auto
    from Inr obtain n where k: "delivery_key (cz_idempotency_key c)" "alert_of_finding n (cz_idempotency_key c) (cz_alert c)"
      using canonicalize_cases [OF f(1)] by auto
    have "alert_ok (cz_alert c)" using k(2) by (simp add: alert_of_finding_def)
    then obtain q where q: "\<And>T w. \<exists>r. submit_alert g T (cz_alert c) (cz_idempotency_key c) w = (r, (q, cz_idempotency_key c) # w)"
      using client_posts [OF _ k(1)] by blast
    have "snd (bind (submit_alert g T (cz_alert c) (cz_idempotency_key c)) (\<lambda>x. ret \<lparr>ad_status = adapter_status x, ad_body = result_json x\<rparr>) w)
        = (q, cz_idempotency_key c) # w" for T w
      using q [of T w] by (auto simp: bind_def ret_def split: sum.split)
    then have "snd (submit_finding g secret (submit_alert g T) now req w) = (q, cz_idempotency_key c) # w"
      if "sent_by H config secret body p" "carries req p" "on_time now p" for p req now T w
      by (simp add: run [OF that] Inr)
    then show ?thesis
      unfolding if_not_P [OF \<open>\<not> time_overflows t\<close>] using delivery_key_facts(5) [OF k(1)] by blast
  qed
qed

theorem attempts_reach_one_key_witness:
  "\<not> time_overflows (S usual_time)
   \<and> sent_by splunk_host sample_config sample_secret (sample_body usual_time) (sample_post usual_time)
   \<and> (\<exists>q key. idempotency_key [key] = Inr key
        \<and> snd (submit_finding ascii_db sample_secret (submit_alert ascii_db silent) sample_now (sample_request usual_time) [])
          = [(q, key)])"
proof -
  obtain oc w' where d: "deliver (ho_unicode splunk_host) dead_env sample_config sample_secret (sample_body usual_time) start_delivery
      = (Inr oc, w')" "dw_posts w' = replicate 3 (sample_post usual_time)"
    using dead_delivery by blast
  have "sample_post usual_time \<in> set (dw_posts w')" using d(2) by simp
  with d(1) have s: "sent_by splunk_host sample_config sample_secret (sample_body usual_time) (sample_post usual_time)"
    unfolding sent_by_def by blast
  have o: "on_time sample_now (sample_post usual_time)"
    by (auto simp: on_time_def sample_post_def signed_headers_def sample_now_facts sample_timestamp default_allowed_skew_seconds_def)
  have u: "unicode_ok (ho_unicode splunk_host)" using ascii_db_ok by (simp add: splunk_host_def)
  obtain path where path: "results_file_from_invocation (ho_unicode splunk_host) sample_members = Inr path"
    using sample_prepared by (auto simp: prepare_delivery_def and_then_Inr)
  have "\<not> time_overflows (S usual_time)"
    using validated_time_overflow sample_times sample_normal_times(1) by fastforce
  moreover have "row_value (zip expected_result_fields sample_row) ''_time'' = PStr (S usual_time)"
    by (simp add: row_value_def sample_row_def expected_result_fields_def dict_gets)
  note attempts_reach_one_key [OF sample_prepared u ascii_db_ok path sample_row_value this]
  ultimately show ?thesis using s o sample_carries by fastforce
qed

end
