(* ===== verification/PgSchema.thy ===== *)
theory PgSchema
  imports Lifecycle Json
begin

text \<open>
  The tables of \<open>migrations/versions/0001_processing_records.py\<close> and
  \<open>0002_durable_execution.py\<close>: their rows as records, with a nullable column as an option, and
  their CHECK constraints in the three-valued logic of SQL: a row violates a constraint only when
  it evaluates to FALSE, not when it is NULL. A text column holds any string; the constraints
  restrict it. Times are those that the driver reads back in the time zone of the session.

  What the database and the driver do with values is the parameter \<open>pgsql\<close>.
\<close>

section \<open>Three-valued logic\<close>

type_synonym tv = "bool option"

fun sql_and :: "tv \<Rightarrow> tv \<Rightarrow> tv" where
  "sql_and (Some False) b = Some False"
| "sql_and (Some True) b = b"
| "sql_and None (Some False) = Some False"
| "sql_and None _ = None"

fun sql_or :: "tv \<Rightarrow> tv \<Rightarrow> tv" where
  "sql_or (Some True) b = Some True"
| "sql_or (Some False) b = b"
| "sql_or None (Some True) = Some True"
| "sql_or None _ = None"

definition sql_all :: "tv list \<Rightarrow> tv" where "sql_all cs = foldr sql_and cs (Some True)"
definition sql_any :: "tv list \<Rightarrow> tv" where "sql_any cs = foldr sql_or cs (Some False)"

definition sql_null :: "'a option \<Rightarrow> tv" where "sql_null v = Some (v = None)"
definition sql_not_null :: "'a option \<Rightarrow> tv" where "sql_not_null v = Some (v \<noteq> None)"
definition sql_test :: "('a \<Rightarrow> bool) \<Rightarrow> 'a option \<Rightarrow> tv" where "sql_test f v = map_option f v"
definition sql_in :: "'a option \<Rightarrow> 'a list \<Rightarrow> tv" where "sql_in v xs = sql_test (\<lambda>x. x \<in> set xs) v"

text \<open>\<open>jsonb_typeof(v) = 'array'\<close> and \<open>jsonb_array_length(v) > 0\<close>; the length of anything but
  an array is an error, which fails the statement as a violation does.\<close>

definition sql_array :: "json option \<Rightarrow> tv" where
  "sql_array v = sql_test (\<lambda>j. case j of JArr _ \<Rightarrow> True | _ \<Rightarrow> False) v"

definition sql_nonempty_array :: "json option \<Rightarrow> tv" where
  "sql_nonempty_array v = sql_test (\<lambda>j. case j of JArr xs \<Rightarrow> xs \<noteq> [] | _ \<Rightarrow> False) v"

definition check_holds :: "tv \<Rightarrow> bool" where "check_holds c \<longleftrightarrow> c \<noteq> Some False"

lemma sql_and_iff: "sql_and a b = Some True \<longleftrightarrow> a = Some True \<and> b = Some True"
  by (cases "(a, b)" rule: sql_and.cases) auto

lemma sql_and_False: "sql_and a b = Some False \<longleftrightarrow> a = Some False \<or> b = Some False"
  by (cases "(a, b)" rule: sql_and.cases) auto

lemma sql_or_False: "sql_or a b = Some False \<longleftrightarrow> a = Some False \<and> b = Some False"
  by (cases "(a, b)" rule: sql_or.cases) auto

lemma sql_all_False: "sql_all cs = Some False \<longleftrightarrow> Some False \<in> set cs"
  by (induction cs) (auto simp: sql_all_def sql_and_False)

lemma sql_any_False: "sql_any cs = Some False \<longleftrightarrow> set cs \<subseteq> {Some False}"
  by (induction cs) (auto simp: sql_any_def sql_or_False)

lemma check_holds_simps [simp]:
  "check_holds None" "check_holds (Some b) = b"
  "check_holds (sql_null v) \<longleftrightarrow> v = None" "check_holds (sql_not_null v) \<longleftrightarrow> v \<noteq> None"
  "check_holds (sql_test f v) \<longleftrightarrow> (case v of None \<Rightarrow> True | Some x \<Rightarrow> f x)"
  by (auto simp: check_holds_def sql_null_def sql_not_null_def sql_test_def split: option.splits)

lemma check_all [simp]: "check_holds (sql_all cs) \<longleftrightarrow> list_all check_holds cs"
  by (auto simp: check_holds_def sql_all_False list_all_iff)

lemma check_any [simp]: "check_holds (sql_any cs) \<longleftrightarrow> list_ex check_holds cs"
  by (auto simp: check_holds_def sql_any_False list_ex_iff)

section \<open>The database and its driver\<close>

text \<open>
  \<open>pg_text\<close>: the error of sending a text, if any; \<open>pg_jsonb\<close>: what a JSONB column gives back of
  a document; \<open>pg_time\<close>: what a TIMESTAMPTZ column gives back of a time, \<open>pg_instant\<close>: the
  instant that a time parameter stands for; \<open>pg_blank\<close>: the match of \<open>^[[:space:]]*$\<close>.
\<close>

record pgsql =
  pg_text :: "ustring \<Rightarrow> exn option"
  pg_jsonb :: "json \<Rightarrow> exn + json"
  pg_time :: "datetime \<Rightarrow> exn + datetime"
  pg_instant :: "datetime \<Rightarrow> int"
  pg_blank :: "ustring \<Rightarrow> bool"

definition sql_not_blank :: "pgsql \<Rightarrow> ustring option \<Rightarrow> tv" where
  "sql_not_blank P v = sql_test (\<lambda>s. \<not> pg_blank P s) v"

definition sql_max_length :: "nat \<Rightarrow> ustring option \<Rightarrow> tv" where
  "sql_max_length n v = sql_test (\<lambda>s. length s \<le> n) v"

lemma check_not_blank [simp]:
  "check_holds (sql_not_blank P v) \<longleftrightarrow> (case v of None \<Rightarrow> True | Some s \<Rightarrow> \<not> pg_blank P s)"
  by (simp add: sql_not_blank_def)

section \<open>The rows\<close>

text \<open>0002 extends the table of 0001 by columns, and the record of its rows by fields.\<close>

record base_row =
  rw_id :: uuid
  rw_created_at :: datetime
  rw_snapshot_version :: int
  rw_detection_identifier :: ustring
  rw_detection_name :: "ustring option"
  rw_detected_at :: datetime
  rw_source :: ustring
  rw_source_alert_id :: "ustring option"
  rw_severity :: ustring
  rw_entities :: json
  rw_alert_evidence :: json
  rw_decision_outcome :: "ustring option"
  rw_policy_id :: "ustring option"
  rw_decision_reasons :: "json option"
  rw_request_desired_outcome :: "ustring option"
  rw_request_capabilities :: "json option"
  rw_request_targets :: "json option"
  rw_result_backend :: "ustring option"
  rw_result_completed_capabilities :: "json option"
  rw_result_evidence :: "json option"

record processing_row = base_row +
  rw_idempotency_scope :: "ustring option"
  rw_idempotency_key :: "ustring option"
  rw_fingerprint_version :: "int option"
  rw_request_fingerprint :: "bytes option"
  rw_state :: ustring
  rw_selected_backend :: "ustring option"
  rw_updated_at :: datetime
  rw_completed_at :: "datetime option"
  rw_failed_at :: "datetime option"
  rw_error_category :: "ustring option"
  rw_error_detail :: "ustring option"

record attempt_row =
  ta_attempt_id :: uuid
  ta_processing_id :: uuid
  ta_attempt_number :: int
  ta_operation_key :: uuid
  ta_backend :: ustring
  ta_state :: ustring
  ta_external_operation_id :: "ustring option"
  ta_created_at :: datetime
  ta_started_at :: "datetime option"
  ta_submitted_at :: "datetime option"
  ta_last_polled_at :: "datetime option"
  ta_completed_at :: "datetime option"
  ta_failed_at :: "datetime option"
  ta_last_remote_state :: "ustring option"
  ta_error_category :: "ustring option"
  ta_error_detail :: "ustring option"

section \<open>The constraints of 0001\<close>

definition ck_snapshot_version :: "'a base_row_scheme \<Rightarrow> tv" where
  "ck_snapshot_version r = Some (rw_snapshot_version r = 1)"

definition ck_severity :: "'a base_row_scheme \<Rightarrow> tv" where
  "ck_severity r = sql_in (Some (rw_severity r)) [S ''low'', S ''medium'', S ''high'', S ''critical'']"

definition ck_decision_outcome :: "'a base_row_scheme \<Rightarrow> tv" where
  "ck_decision_outcome r = sql_in (rw_decision_outcome r) [S ''investigate'', S ''no_action'']"

definition ck_required_strings :: "pgsql \<Rightarrow> 'a base_row_scheme \<Rightarrow> tv" where
  "ck_required_strings P r =
     sql_all [sql_not_blank P (Some (rw_detection_identifier r)), sql_not_blank P (Some (rw_source r)),
       sql_not_blank P (rw_policy_id r)]"

definition null_or :: "('a option \<Rightarrow> tv) \<Rightarrow> 'a option \<Rightarrow> tv" where
  "null_or c v = sql_or (sql_null v) (c v)"

definition ck_optional_strings :: "pgsql \<Rightarrow> 'a base_row_scheme \<Rightarrow> tv" where
  "ck_optional_strings P r =
     sql_all [null_or (sql_not_blank P) (rw_detection_name r), null_or (sql_not_blank P) (rw_source_alert_id r),
       null_or (sql_not_blank P) (rw_request_desired_outcome r), null_or (sql_not_blank P) (rw_result_backend r)]"

definition ck_required_json_arrays :: "'a base_row_scheme \<Rightarrow> tv" where
  "ck_required_json_arrays r =
     sql_all [sql_array (Some (rw_entities r)), sql_array (Some (rw_alert_evidence r)),
       sql_array (rw_decision_reasons r), sql_nonempty_array (rw_decision_reasons r)]"

definition ck_aggregate_coherence :: "'a base_row_scheme \<Rightarrow> tv" where
  "ck_aggregate_coherence r =
     sql_any
       [sql_all [sql_in (rw_decision_outcome r) [S ''no_action''], sql_null (rw_request_desired_outcome r),
          sql_null (rw_request_capabilities r), sql_null (rw_request_targets r), sql_null (rw_result_backend r),
          sql_null (rw_result_completed_capabilities r), sql_null (rw_result_evidence r)],
        sql_all [sql_in (rw_decision_outcome r) [S ''investigate''], sql_not_null (rw_request_desired_outcome r),
          sql_not_null (rw_request_capabilities r), sql_array (rw_request_capabilities r),
          sql_nonempty_array (rw_request_capabilities r), sql_not_null (rw_request_targets r),
          sql_array (rw_request_targets r), sql_not_null (rw_result_backend r),
          sql_not_null (rw_result_completed_capabilities r), sql_array (rw_result_completed_capabilities r),
          sql_not_null (rw_result_evidence r), sql_array (rw_result_evidence r)]]"

text \<open>What 0001 demands of a row; the columns that are NOT NULL until 0002 are tests here.\<close>

definition holds_0001 :: "pgsql \<Rightarrow> 'a base_row_scheme \<Rightarrow> bool" where
  "holds_0001 P r \<longleftrightarrow>
     rw_decision_outcome r \<noteq> None \<and> rw_policy_id r \<noteq> None \<and> rw_decision_reasons r \<noteq> None
     \<and> list_all check_holds
         [ck_snapshot_version r, ck_severity r, ck_decision_outcome r, ck_required_strings P r,
          ck_optional_strings P r, ck_required_json_arrays r, ck_aggregate_coherence r]"

section \<open>The constraints of 0002\<close>

definition processing_states_sql :: "ustring list" where
  "processing_states_sql =
     [S ''accepted'', S ''planned'', S ''submitting'', S ''submitted'', S ''completed'', S ''failed'', S ''recovery_required'']"

definition ck_state :: "processing_row \<Rightarrow> tv" where
  "ck_state r = sql_in (Some (rw_state r)) processing_states_sql"

definition ck_idempotency_coherence :: "processing_row \<Rightarrow> tv" where
  "ck_idempotency_coherence r =
     sql_any
       [sql_all [sql_null (rw_idempotency_scope r), sql_null (rw_idempotency_key r),
          sql_null (rw_fingerprint_version r), sql_null (rw_request_fingerprint r)],
        sql_all [sql_not_null (rw_idempotency_scope r), sql_in (rw_idempotency_scope r) [rw_source r],
          sql_not_null (rw_idempotency_key r), sql_not_null (rw_fingerprint_version r),
          sql_not_null (rw_request_fingerprint r)]]"

definition ck_idempotency_key :: "processing_row \<Rightarrow> tv" where
  "ck_idempotency_key r =
     null_or (\<lambda>v. sql_all [sql_test (\<lambda>k. 1 \<le> length k \<and> length k \<le> 128) v,
       sql_test (\<lambda>k. k \<noteq> [] \<and> list_all visible_ascii k) v]) (rw_idempotency_key r)"

definition ck_fingerprint :: "processing_row \<Rightarrow> tv" where
  "ck_fingerprint r =
     null_or (\<lambda>v. sql_all [sql_in (rw_fingerprint_version r) [1], sql_test (\<lambda>d. length d = 32) v])
       (rw_request_fingerprint r)"

definition ck_bounded :: "pgsql \<Rightarrow> nat \<Rightarrow> ustring option \<Rightarrow> tv" where
  "ck_bounded P n v = null_or (\<lambda>v. sql_all [sql_not_blank P v, sql_max_length n v]) v"

definition ck_together :: "'a option \<Rightarrow> 'b option \<Rightarrow> tv" where
  "ck_together a b = sql_any [sql_all [sql_null a, sql_null b], sql_all [sql_not_null a, sql_not_null b]]"

definition ck_lifecycle_strings :: "pgsql \<Rightarrow> processing_row \<Rightarrow> tv" where
  "ck_lifecycle_strings P r =
     sql_all [null_or (sql_not_blank P) (rw_selected_backend r), ck_bounded P 256 (rw_error_category r),
       ck_bounded P 256 (rw_error_detail r), ck_together (rw_error_category r) (rw_error_detail r)]"

text \<open>The parts that the branches of \<open>ck_processing_records_lifecycle_coherence\<close> share.\<close>

definition ck_no_request :: "processing_row \<Rightarrow> tv list" where
  "ck_no_request r = [sql_null (rw_request_desired_outcome r), sql_null (rw_request_capabilities r),
     sql_null (rw_request_targets r), sql_null (rw_selected_backend r)]"

definition ck_no_result :: "processing_row \<Rightarrow> tv list" where
  "ck_no_result r = [sql_null (rw_result_backend r), sql_null (rw_result_completed_capabilities r),
     sql_null (rw_result_evidence r)]"

definition ck_decided :: "processing_row \<Rightarrow> tv list" where
  "ck_decided r = [sql_not_null (rw_policy_id r), sql_not_null (rw_decision_reasons r),
     sql_array (rw_decision_reasons r), sql_nonempty_array (rw_decision_reasons r)]"

definition ck_requested :: "processing_row \<Rightarrow> tv list" where
  "ck_requested r = [sql_not_null (rw_request_desired_outcome r), sql_not_null (rw_request_capabilities r),
     sql_array (rw_request_capabilities r), sql_nonempty_array (rw_request_capabilities r),
     sql_not_null (rw_request_targets r), sql_array (rw_request_targets r)]"

definition ck_lifecycle_coherence :: "processing_row \<Rightarrow> tv" where
  "ck_lifecycle_coherence r =
     sql_any
       [sql_all ([sql_in (Some (rw_state r)) [S ''accepted''], sql_null (rw_decision_outcome r),
            sql_null (rw_policy_id r), sql_null (rw_decision_reasons r)]
          @ ck_no_request r @ ck_no_result r
          @ [sql_null (rw_completed_at r), sql_null (rw_failed_at r), sql_null (rw_error_category r),
             sql_null (rw_error_detail r)]),
        sql_all ([sql_in (Some (rw_state r)) [S ''planned'', S ''submitting'', S ''submitted'', S ''recovery_required''],
            sql_in (rw_decision_outcome r) [S ''investigate'']]
          @ ck_decided r @ ck_requested r @ [sql_not_null (rw_selected_backend r)] @ ck_no_result r
          @ [sql_null (rw_completed_at r), sql_null (rw_failed_at r),
             sql_any [sql_test (\<lambda>st. st \<noteq> S ''recovery_required'') (Some (rw_state r)),
               sql_all [sql_not_null (rw_error_category r), sql_not_null (rw_error_detail r)]]]),
        sql_all ([sql_in (Some (rw_state r)) [S ''completed''],
            sql_in (rw_decision_outcome r) [S ''investigate'', S ''no_action'']]
          @ ck_decided r
          @ [sql_not_null (rw_completed_at r), sql_null (rw_failed_at r),
             sql_any
               [sql_all ([sql_in (rw_decision_outcome r) [S ''no_action'']] @ ck_no_request r @ ck_no_result r),
                sql_all ([sql_in (rw_decision_outcome r) [S ''investigate'']] @ ck_requested r
                  @ [sql_any [sql_not_null (rw_selected_backend r), sql_null (rw_idempotency_key r)],
                     sql_not_null (rw_result_backend r), sql_not_null (rw_result_completed_capabilities r),
                     sql_array (rw_result_completed_capabilities r), sql_not_null (rw_result_evidence r),
                     sql_array (rw_result_evidence r)])]]),
        sql_all ([sql_in (Some (rw_state r)) [S ''failed''], sql_null (rw_completed_at r), sql_not_null (rw_failed_at r)]
          @ ck_no_result r @ [sql_not_null (rw_error_category r), sql_not_null (rw_error_detail r)])]"

definition processing_checks :: "pgsql \<Rightarrow> processing_row \<Rightarrow> bool" where
  "processing_checks P r \<longleftrightarrow>
     list_all check_holds
       [ck_snapshot_version r, ck_severity r, ck_decision_outcome r, ck_required_strings P r,
        ck_optional_strings P r, ck_required_json_arrays r, ck_state r, ck_idempotency_coherence r,
        ck_idempotency_key r, ck_fingerprint r, ck_lifecycle_strings P r, ck_lifecycle_coherence r]"

text \<open>The constraints of \<open>execution_attempts\<close>.\<close>

definition ck_attempt_strings :: "pgsql \<Rightarrow> attempt_row \<Rightarrow> tv" where
  "ck_attempt_strings P t =
     sql_all [sql_not_blank P (Some (ta_backend t)), ck_bounded P 512 (ta_external_operation_id t),
       ck_bounded P 256 (ta_last_remote_state t), ck_bounded P 256 (ta_error_category t),
       ck_bounded P 256 (ta_error_detail t), ck_together (ta_error_category t) (ta_error_detail t)]"

definition ck_attempt_coherence :: "attempt_row \<Rightarrow> tv" where
  "ck_attempt_coherence t =
     sql_any
       [sql_all [sql_in (Some (ta_state t)) [S ''planned''], sql_null (ta_started_at t), sql_null (ta_submitted_at t),
          sql_null (ta_external_operation_id t), sql_null (ta_completed_at t), sql_null (ta_failed_at t)],
        sql_all [sql_in (Some (ta_state t)) [S ''submitting''], sql_not_null (ta_started_at t),
          sql_null (ta_submitted_at t), sql_null (ta_external_operation_id t), sql_null (ta_completed_at t),
          sql_null (ta_failed_at t)],
        sql_all [sql_in (Some (ta_state t)) [S ''submitted''], sql_not_null (ta_started_at t),
          sql_not_null (ta_submitted_at t), sql_not_null (ta_external_operation_id t),
          sql_null (ta_completed_at t), sql_null (ta_failed_at t)],
        sql_all [sql_in (Some (ta_state t)) [S ''completed''], sql_not_null (ta_started_at t),
          sql_not_null (ta_submitted_at t), sql_not_null (ta_external_operation_id t),
          sql_not_null (ta_completed_at t), sql_null (ta_failed_at t)],
        sql_all [sql_in (Some (ta_state t)) [S ''failed''], sql_null (ta_completed_at t), sql_not_null (ta_failed_at t),
          sql_not_null (ta_error_category t), sql_not_null (ta_error_detail t)],
        sql_all [sql_in (Some (ta_state t)) [S ''recovery_required''], sql_not_null (ta_started_at t),
          sql_null (ta_completed_at t), sql_null (ta_failed_at t), sql_not_null (ta_error_category t),
          sql_not_null (ta_error_detail t)]]"

definition attempt_checks :: "pgsql \<Rightarrow> attempt_row \<Rightarrow> bool" where
  "attempt_checks P t \<longleftrightarrow>
     list_all check_holds
       [Some (0 < ta_attempt_number t),
        sql_in (Some (ta_state t)) [S ''planned'', S ''submitting'', S ''submitted'', S ''completed'', S ''failed'',
          S ''recovery_required''],
        ck_attempt_strings P t, ck_attempt_coherence t]"

text \<open>The partial unique index: at most one active attempt of a processing.\<close>

definition active_row :: "attempt_row \<Rightarrow> bool" where
  "active_row t \<longleftrightarrow> ta_state t \<in> {S ''planned'', S ''submitting'', S ''submitted'', S ''recovery_required''}"

section \<open>The data step of 0002\<close>

text \<open>A row of 0001 is given the new columns, NULL at first, and then the UPDATE of the migration;
  the migration fails when a row violates the constraints that it then adds.\<close>

definition upgrade_row :: "base_row \<Rightarrow> processing_row" where
  "upgrade_row r =
     base_row.extend r (processing_row.fields None None None None (S ''completed'') None (rw_created_at r)
       (Some (rw_created_at r)) None None None)"

definition upgrade_0002 :: "pgsql \<Rightarrow> base_row list \<Rightarrow> processing_row list option" where
  "upgrade_0002 P rs =
     (let rows = map upgrade_row rs in if list_all (processing_checks P) rows then Some rows else None)"

end
