(* ===== verification/PgCodec.thy ===== *)
theory PgCodec
  imports PgSchema
begin

text \<open>
  The mapping between rows and durable records of \<open>persistence/postgres.py\<close>: the values that the
  operations send, and \<open>_deserialize_processing\<close>, \<open>_deserialize_attempt\<close> with every exception on
  their way. A column that must not be NULL where it is read raises AttributeError in the check of
  the value class (\<open>None.strip()\<close>).
\<close>

definition snapshot_version :: int where "snapshot_version = 1"

definition schema_revision :: ustring where "schema_revision = S ''0002_durable_execution''"

section \<open>Enumerations by value\<close>

definition severity_of :: "ustring \<Rightarrow> exn + severity" where
  "severity_of s =
     (case List.find (\<lambda>x. severity_value x = s) [LOW, MEDIUM, HIGH, CRITICAL] of
        Some x \<Rightarrow> Inr x | None \<Rightarrow> Inl ValueError)"

definition decision_outcome_of_text :: "ustring \<Rightarrow> exn + decision_outcome" where
  "decision_outcome_of_text s =
     (case List.find (\<lambda>x. decision_outcome_value x = s) [INVESTIGATE, NO_ACTION] of
        Some x \<Rightarrow> Inr x | None \<Rightarrow> Inl ValueError)"

definition processing_states :: "processing_state list" where
  "processing_states = [ACCEPTED, PLANNED, SUBMITTING, SUBMITTED, COMPLETED, FAILED, RECOVERY_REQUIRED]"

definition processing_state_of :: "ustring \<Rightarrow> exn + processing_state" where
  "processing_state_of s =
     (case List.find (\<lambda>x. processing_state_value x = s) processing_states of
        Some x \<Rightarrow> Inr x | None \<Rightarrow> Inl ValueError)"

definition attempt_states :: "attempt_state list" where
  "attempt_states = [A_PLANNED, A_SUBMITTING, A_SUBMITTED, A_COMPLETED, A_FAILED, A_RECOVERY_REQUIRED]"

definition attempt_state_of :: "ustring \<Rightarrow> exn + attempt_state" where
  "attempt_state_of s =
     (case List.find (\<lambda>x. attempt_state_value x = s) attempt_states of
        Some x \<Rightarrow> Inr x | None \<Rightarrow> Inl ValueError)"

lemma find_holds: "List.find Q xs = Some x \<Longrightarrow> Q x \<and> x \<in> set xs"
  by (induction xs) (auto split: if_splits)

lemma find_value_Inr:
  assumes "\<And>x y. f x = f y \<longleftrightarrow> x = y" "y \<in> set xs"
  shows "(case List.find (\<lambda>x. f x = s) xs of Some x \<Rightarrow> Inr x | None \<Rightarrow> Inl e) = Inr y \<longleftrightarrow> s = f y"
  using assms(2) by (induction xs) (auto simp: assms(1) split: option.splits dest: find_holds)

lemma all_values:
  "st \<in> set processing_states" "ast \<in> set attempt_states" "sv \<in> set [LOW, MEDIUM, HIGH, CRITICAL]"
  "oc \<in> set [INVESTIGATE, NO_ACTION]"
  by (cases st, simp_all add: processing_states_def) (cases ast, simp_all add: attempt_states_def,
      cases sv, simp_all, cases oc, simp_all)

lemma states_of_Inr [simp]:
  "processing_state_of s = Inr st \<longleftrightarrow> s = processing_state_value st"
  "attempt_state_of s = Inr ast \<longleftrightarrow> s = attempt_state_value ast"
  "severity_of s = Inr sv \<longleftrightarrow> s = severity_value sv"
  "decision_outcome_of_text s = Inr oc \<longleftrightarrow> s = decision_outcome_value oc"
  unfolding processing_state_of_def attempt_state_of_def severity_of_def decision_outcome_of_text_def
  by (rule find_value_Inr, simp, rule all_values)+

lemma states_of_values [simp]:
  "processing_state_of (processing_state_value st) = Inr st"
  "attempt_state_of (attempt_state_value ast) = Inr ast"
  "severity_of (severity_value sv) = Inr sv"
  "decision_outcome_of_text (decision_outcome_value oc) = Inr oc"
  by simp_all

section \<open>Documents\<close>

definition encode_entities :: "entity list \<Rightarrow> json" where
  "encode_entities es =
     JArr (map (\<lambda>e. JObj [(S ''kind'', JStr (en_kind e)), (S ''value'', JStr (en_value e))]) es)"

definition json_optional :: "ustring option \<Rightarrow> json" where
  "json_optional s = (case s of None \<Rightarrow> JNull | Some t \<Rightarrow> JStr t)"

definition encode_evidence :: "evidence_reference list \<Rightarrow> json" where
  "encode_evidence es =
     JArr (map (\<lambda>e. JObj [(S ''reference'', JStr (er_reference e)), (S ''kind'', json_optional (er_kind e))]) es)"

definition encode_strings :: "ustring list \<Rightarrow> json" where
  "encode_strings ss = JArr (map JStr ss)"

definition require_array :: "json option \<Rightarrow> exn + json list" where
  "require_array v = (case v of Some (JArr xs) \<Rightarrow> Inr xs | _ \<Rightarrow> Inl ValueError)"

definition require_object :: "ustring set \<Rightarrow> json \<Rightarrow> exn + (ustring \<times> json) list" where
  "require_object names v =
     (case v of
        JObj ms \<Rightarrow> (if set (map fst ms) \<noteq> names then Inl ValueError else Inr ms)
      | _ \<Rightarrow> Inl ValueError)"

text \<open>\<open>item[k]\<close> for a key that is there, and \<open>strip\<close> on what may not be a string.\<close>

definition json_member :: "(ustring \<times> json) list \<Rightarrow> ustring \<Rightarrow> json" where
  "json_member ms k = (case map_of ms k of Some v \<Rightarrow> v | None \<Rightarrow> JNull)"

definition required_text :: "json \<Rightarrow> exn + ustring" where
  "required_text v = (case v of JStr s \<Rightarrow> and_then (require_non_empty s) (\<lambda>_. Inr s) | _ \<Rightarrow> Inl AttributeError)"

definition optional_text :: "json \<Rightarrow> exn + ustring option" where
  "optional_text v = (case v of JNull \<Rightarrow> Inr None | _ \<Rightarrow> and_then (required_text v) (\<lambda>s. Inr (Some s)))"

definition decode_entity :: "json \<Rightarrow> exn + entity" where
  "decode_entity v =
     and_then (require_object {S ''kind'', S ''value''} v) (\<lambda>item.
     and_then (required_text (json_member item (S ''kind''))) (\<lambda>kind.
     and_then (required_text (json_member item (S ''value''))) (\<lambda>text.
     mk_entity kind text)))"

definition decode_entities :: "json option \<Rightarrow> exn + entity list" where
  "decode_entities v = and_then (require_array v) (traverse decode_entity)"

definition decode_reference :: "json \<Rightarrow> exn + evidence_reference" where
  "decode_reference v =
     and_then (require_object {S ''reference'', S ''kind''} v) (\<lambda>item.
     and_then (required_text (json_member item (S ''reference''))) (\<lambda>reference.
     and_then (optional_text (json_member item (S ''kind''))) (\<lambda>kind.
     mk_evidence_reference reference kind)))"

definition decode_evidence :: "json option \<Rightarrow> exn + evidence_reference list" where
  "decode_evidence v = and_then (require_array v) (traverse decode_reference)"

definition decode_string :: "json \<Rightarrow> exn + ustring" where
  "decode_string v = (case v of JStr s \<Rightarrow> Inr s | _ \<Rightarrow> Inl ValueError)"

definition decode_strings :: "json option \<Rightarrow> exn + ustring list" where
  "decode_strings v = and_then (require_array v) (traverse decode_string)"

section \<open>Rows to records\<close>

definition not_null_text :: "ustring option \<Rightarrow> exn + ustring" where
  "not_null_text v = (case v of None \<Rightarrow> Inl AttributeError | Some s \<Rightarrow> Inr s)"

definition deserialize_alert :: "processing_row \<Rightarrow> exn + canonical_alert" where
  "deserialize_alert r =
     and_then (mk_source_provenance (rw_source r) (rw_source_alert_id r)) (\<lambda>src.
     and_then (mk_detection_identity (rw_detection_identifier r) (rw_detection_name r)) (\<lambda>det.
     and_then (decode_entities (Some (rw_entities r))) (\<lambda>entities.
     and_then (severity_of (rw_severity r)) (\<lambda>sev.
     and_then (decode_evidence (Some (rw_alert_evidence r))) (\<lambda>evidence.
     mk_canonical_alert det (rw_detected_at r) src entities sev evidence)))))"

definition deserialize_decision :: "processing_row \<Rightarrow> source_provenance \<Rightarrow> exn + decision option" where
  "deserialize_decision r src =
     (case rw_decision_outcome r of
        None \<Rightarrow> Inr None
      | Some oc \<Rightarrow>
          and_then (decision_outcome_of_text oc) (\<lambda>outcome.
          and_then (decode_strings (rw_decision_reasons r)) (\<lambda>reasons.
          and_then (not_null_text (rw_policy_id r)) (\<lambda>policy_id.
          and_then (mk_decision outcome policy_id reasons src) (\<lambda>d. Inr (Some d))))))"

definition deserialize_request ::
  "processing_row \<Rightarrow> canonical_alert \<Rightarrow> decision option \<Rightarrow> exn + (incident \<times> investigation_request) option"
where
  "deserialize_request r al decision =
     (case (decision, rw_request_desired_outcome r) of
        (Some d, Some desired) \<Rightarrow>
          (if de_outcome d \<noteq> INVESTIGATE then Inr None
           else and_then (mk_incident al d) (\<lambda>inc.
                and_then (decode_strings (rw_request_capabilities r)) (\<lambda>capabilities.
                and_then (decode_entities (rw_request_targets r)) (\<lambda>targets.
                and_then (mk_investigation_request inc desired capabilities targets) (\<lambda>q. Inr (Some (inc, q)))))))
      | _ \<Rightarrow> Inr None)"

definition deserialize_result ::
  "processing_row \<Rightarrow> processing_state \<Rightarrow> decision option \<Rightarrow> (incident \<times> investigation_request) option \<Rightarrow>
   exn + orchestration_result option"
where
  "deserialize_result r st decision planned =
     (if st \<noteq> COMPLETED then Inr None
      else case decision of
        None \<Rightarrow> Inl ValueError
      | Some d \<Rightarrow>
          and_then
            (if de_outcome d = NO_ACTION then mk_orchestration_result d None None None
             else case planned of
               None \<Rightarrow> Inl ValueError
             | Some (inc, q) \<Rightarrow>
                 and_then (decode_strings (rw_result_completed_capabilities r)) (\<lambda>capabilities.
                 and_then (decode_evidence (rw_result_evidence r)) (\<lambda>evidence.
                 and_then (not_null_text (rw_result_backend r)) (\<lambda>b.
                 and_then (mk_investigation_result b capabilities evidence) (\<lambda>res.
                 mk_orchestration_result d (Some inc) (Some q) (Some res))))))
            (\<lambda>x. Inr (Some x)))"

definition deserialize_processing :: "processing_row \<Rightarrow> exn + processing_record" where
  "deserialize_processing r =
     (if rw_snapshot_version r \<noteq> snapshot_version then Inl ValueError
      else and_then (deserialize_alert r) (\<lambda>al.
      and_then (deserialize_decision r (al_source al)) (\<lambda>decision.
      and_then (deserialize_request r al decision) (\<lambda>planned.
      and_then (processing_state_of (rw_state r)) (\<lambda>st.
      and_then (deserialize_result r st decision planned) (\<lambda>result.
      mk_record
        \<lparr>pr_processing_id = rw_id r, pr_created_at = rw_created_at r, pr_updated_at = rw_updated_at r,
         pr_alert = al, pr_state = st, pr_idempotency_scope = rw_idempotency_scope r,
         pr_idempotency_key = rw_idempotency_key r, pr_fingerprint_version = rw_fingerprint_version r,
         pr_request_fingerprint = rw_request_fingerprint r,
         pr_planned_decision = (if result = None then decision else None),
         pr_planned_incident = (if result = None then map_option fst planned else None),
         pr_planned_request = (if result = None then map_option snd planned else None),
         pr_selected_backend = rw_selected_backend r, pr_completed_result = result,
         pr_completed_at = rw_completed_at r, pr_failed_at = rw_failed_at r,
         pr_error_category = rw_error_category r, pr_error_detail = rw_error_detail r\<rparr>))))))"

definition deserialize_attempt :: "attempt_row \<Rightarrow> exn + execution_attempt" where
  "deserialize_attempt t =
     and_then (attempt_state_of (ta_state t)) (\<lambda>st.
     mk_attempt
       \<lparr>at_attempt_id = ta_attempt_id t, at_processing_id = ta_processing_id t,
        at_attempt_number = ta_attempt_number t, at_operation_key = ta_operation_key t, at_backend = ta_backend t,
        at_state = st, at_created_at = ta_created_at t, at_started_at = ta_started_at t,
        at_submitted_at = ta_submitted_at t, at_last_polled_at = ta_last_polled_at t,
        at_completed_at = ta_completed_at t, at_failed_at = ta_failed_at t,
        at_external_operation_id = ta_external_operation_id t, at_last_remote_state = ta_last_remote_state t,
        at_error_category = ta_error_category t, at_error_detail = ta_error_detail t\<rparr>)"

definition validate_error :: "ustring \<Rightarrow> ustring \<Rightarrow> exn + unit" where
  "validate_error category detail =
     (if category = [] \<or> 256 < length category \<or> detail = [] \<or> 256 < length detail then Inl ValueError else Inr ())"

lemma deserialize_processing_parts:
  "deserialize_processing r = Inr x \<Longrightarrow> pr_processing_id x = rw_id r \<and> rw_state r = processing_state_value (pr_state x)
     \<and> record_valid x"
  by (auto simp: deserialize_processing_def and_then_Inr split: if_splits)

lemma deserialize_attempt_parts:
  "deserialize_attempt t = Inr x \<Longrightarrow> at_attempt_id x = ta_attempt_id t \<and> at_processing_id x = ta_processing_id t
     \<and> ta_state t = attempt_state_value (at_state x) \<and> attempt_valid x"
  by (auto simp: deserialize_attempt_def and_then_Inr)

end
