(* ===== verification/Postgres.thy ===== *)
theory Postgres
  imports PgCodec
begin

text \<open>
  \<open>persistence/postgres.py\<close>: the durable repository. A store is the contents of the two tables
  and of the revision table of Alembic. The statements of the operations are the functions
  \<open>insert_*\<close>, \<open>update_*\<close> and \<open>select_*\<close>: they evaluate the WHERE clause on every row, check the
  constraints of the new rows and give back the rows of RETURNING. An operation is one
  \<open>transaction\<close>, which an exception rolls back; what follows the transaction - reading the row
  into a record - happens after the commit.

  An operation is one step here: under READ COMMITTED a guard that waited for another
  transaction is evaluated again on the row as that transaction left it.
\<close>

record pg_store =
  db_processing :: "processing_row list"
  db_attempts :: "attempt_row list"
  db_revisions :: "ustring list"

type_synonym 'a tx = "(pg_store, exn, 'a) prog"

section \<open>Transactions and statements\<close>

definition transaction :: "'a tx \<Rightarrow> 'a tx" where
  "transaction m s = (case m s of (Inl e, _) \<Rightarrow> (Inl e, s) | (Inr x, s') \<Rightarrow> (Inr x, s'))"

primrec text_error :: "pgsql \<Rightarrow> ustring option list \<Rightarrow> exn option" where
  "text_error P [] = None"
| "text_error P (v # vs) =
     (case Option.bind v (pg_text P) of Some e \<Rightarrow> Some e | None \<Rightarrow> text_error P vs)"

definition send_texts :: "pgsql \<Rightarrow> ustring option list \<Rightarrow> exn + unit" where
  "send_texts P vs = (case text_error P vs of Some e \<Rightarrow> Inl e | None \<Rightarrow> Inr ())"

text \<open>Violated CHECK and foreign key constraints are errors of the driver that nobody handles by
  name.\<close>

definition upd :: "('r \<Rightarrow> bool) \<Rightarrow> ('r \<Rightarrow> 'r) \<Rightarrow> 'r list \<Rightarrow> 'r list" where
  "upd matches f rows = map (\<lambda>r. if matches r then f r else r) rows"

definition update_processing ::
  "pgsql \<Rightarrow> (processing_row \<Rightarrow> bool) \<Rightarrow> (processing_row \<Rightarrow> processing_row) \<Rightarrow> processing_row list tx"
where
  "update_processing P matches f s =
     (let rows = map f (filter matches (db_processing s)) in
      if list_all (processing_checks P) rows
      then (Inr rows, s\<lparr>db_processing := upd matches f (db_processing s)\<rparr>)
      else (Inl OtherError, s))"

definition update_attempts ::
  "pgsql \<Rightarrow> (attempt_row \<Rightarrow> bool) \<Rightarrow> (attempt_row \<Rightarrow> attempt_row) \<Rightarrow> attempt_row list tx"
where
  "update_attempts P matches f s =
     (let rows = map f (filter matches (db_attempts s));
          table = upd matches f (db_attempts s) in
      if \<not> list_all (attempt_checks P) rows then (Inl OtherError, s)
      else if \<not> distinct (map ta_processing_id (filter active_row table)) then (Inl PsycopgUniqueViolation, s)
      else (Inr rows, s\<lparr>db_attempts := table\<rparr>))"

definition same_key :: "processing_row \<Rightarrow> processing_row \<Rightarrow> bool" where
  "same_key r q \<longleftrightarrow> rw_idempotency_scope r \<noteq> None \<and> rw_idempotency_key r \<noteq> None
     \<and> rw_idempotency_scope r = rw_idempotency_scope q \<and> rw_idempotency_key r = rw_idempotency_key q"

text \<open>\<open>INSERT ... ON CONFLICT (idempotency_scope, idempotency_key) DO NOTHING RETURNING ...\<close>\<close>

definition insert_processing :: "pgsql \<Rightarrow> processing_row \<Rightarrow> processing_row list tx" where
  "insert_processing P r s =
     (if \<not> processing_checks P r then (Inl OtherError, s)
      else if list_ex (same_key r) (db_processing s) then (Inr [], s)
      else if rw_id r \<in> rw_id ` set (db_processing s) then (Inl PsycopgUniqueViolation, s)
      else (Inr [r], s\<lparr>db_processing := db_processing s @ [r]\<rparr>))"

definition insert_attempt :: "pgsql \<Rightarrow> attempt_row \<Rightarrow> attempt_row list tx" where
  "insert_attempt P t s =
     (if \<not> attempt_checks P t then (Inl OtherError, s)
      else if list_ex (\<lambda>q. ta_attempt_id q = ta_attempt_id t \<or> ta_operation_key q = ta_operation_key t
                \<or> ta_processing_id q = ta_processing_id t
                   \<and> (ta_attempt_number q = ta_attempt_number t \<or> active_row q \<and> active_row t)) (db_attempts s)
        then (Inl PsycopgUniqueViolation, s)
      else if ta_processing_id t \<notin> rw_id ` set (db_processing s) then (Inl OtherError, s)
      else (Inr [t], s\<lparr>db_attempts := db_attempts s @ [t]\<rparr>))"

definition select_processing :: "uuid \<Rightarrow> processing_row option tx" where
  "select_processing p = asks (\<lambda>s. List.find (\<lambda>r. rw_id r = p) (db_processing s))"

definition select_idempotency :: "ustring \<Rightarrow> ustring \<Rightarrow> processing_row option tx" where
  "select_idempotency scope key =
     asks (\<lambda>s. List.find (\<lambda>r. rw_idempotency_scope r = Some scope \<and> rw_idempotency_key r = Some key) (db_processing s))"

definition select_attempt :: "uuid \<Rightarrow> attempt_row option tx" where
  "select_attempt a = asks (\<lambda>s. List.find (\<lambda>t. ta_attempt_id t = a) (db_attempts s))"

definition first_row :: "'a list \<Rightarrow> 'a option" where
  "first_row rows = (case rows of [] \<Rightarrow> None | r # _ \<Rightarrow> Some r)"

definition select_processing_attempt :: "uuid \<Rightarrow> attempt_row option tx" where
  "select_processing_attempt p =
     asks (\<lambda>s. first_row (sort_key (\<lambda>t. - ta_attempt_number t) (filter (\<lambda>t. ta_processing_id t = p) (db_attempts s))))"

text \<open>\<open>None if row is None else _deserialize(row)\<close>, after the transaction.\<close>

definition read_row :: "('r \<Rightarrow> exn + 'a) \<Rightarrow> 'r option \<Rightarrow> 'a option tx" where
  "read_row f row = (case row of None \<Rightarrow> ret None | Some r \<Rightarrow> lift (and_then (f r) (\<lambda>x. Inr (Some x))))"

section \<open>Acceptance and reading\<close>

definition stored_time :: "pgsql \<Rightarrow> datetime \<Rightarrow> datetime" where
  "stored_time P d = (case pg_time P d of Inr t \<Rightarrow> t | Inl _ \<Rightarrow> d)"

definition canonical_row ::
  "uuid \<Rightarrow> canonical_alert \<Rightarrow> ustring \<Rightarrow> ustring \<Rightarrow> int \<Rightarrow> bytes \<Rightarrow> datetime \<Rightarrow> json \<Rightarrow> json \<Rightarrow> datetime \<Rightarrow> processing_row"
where
  "canonical_row p al scope key version digest detected entities evidence now =
     \<lparr>rw_id = p, rw_created_at = now, rw_snapshot_version = snapshot_version,
      rw_detection_identifier = di_identifier (al_detection al), rw_detection_name = di_name (al_detection al),
      rw_detected_at = detected, rw_source = sp_source (al_source al),
      rw_source_alert_id = sp_source_alert_id (al_source al), rw_severity = severity_value (al_severity al),
      rw_entities = entities, rw_alert_evidence = evidence,
      rw_decision_outcome = None, rw_policy_id = None, rw_decision_reasons = None,
      rw_request_desired_outcome = None, rw_request_capabilities = None, rw_request_targets = None,
      rw_result_backend = None, rw_result_completed_capabilities = None, rw_result_evidence = None,
      rw_idempotency_scope = Some scope, rw_idempotency_key = Some key, rw_fingerprint_version = Some version,
      rw_request_fingerprint = Some digest, rw_state = S ''accepted'', rw_selected_backend = None,
      rw_updated_at = now, rw_completed_at = None, rw_failed_at = None, rw_error_category = None,
      rw_error_detail = None\<rparr>"

definition accept_texts :: "canonical_alert \<Rightarrow> ustring \<Rightarrow> ustring \<Rightarrow> ustring option list" where
  "accept_texts al scope key =
     [Some (di_identifier (al_detection al)), di_name (al_detection al), Some (sp_source (al_source al)),
      sp_source_alert_id (al_source al), Some scope, Some key]"

definition pg_accept_processing ::
  "pgsql \<Rightarrow> uuid \<Rightarrow> canonical_alert \<Rightarrow> ustring \<Rightarrow> ustring \<Rightarrow> int \<Rightarrow> bytes \<Rightarrow> (pg_store, processing_acceptance) op"
where
  "pg_accept_processing P p al scope key version digest now =
     bind (transaction
       (bind (lift (send_texts P (accept_texts al scope key))) (\<lambda>_.
        bind (lift (pg_jsonb P (encode_entities (al_entities al)))) (\<lambda>entities.
        bind (lift (pg_jsonb P (encode_evidence (al_evidence al)))) (\<lambda>evidence.
        bind (insert_processing P
          (canonical_row p al scope key version digest (stored_time P (al_detected_at al)) entities evidence now)) (\<lambda>rows.
        case rows of
          row # _ \<Rightarrow> bind (lift (pg_time P (al_detected_at al))) (\<lambda>_. ret (row, True))
        | [] \<Rightarrow>
            bind (select_idempotency scope key) (\<lambda>found.
            case found of None \<Rightarrow> raise RuntimeError | Some row \<Rightarrow> ret (row, False))))))))
     (\<lambda>(row, created).
       bind (lift (deserialize_processing row)) (\<lambda>r. ret \<lparr>pa_record = r, pa_created = created\<rparr>))"

definition pg_get :: "uuid \<Rightarrow> (pg_store, processing_record option) op" where
  "pg_get p now = bind (transaction (select_processing p)) (read_row deserialize_processing)"

definition pg_get_by_idempotency :: "pgsql \<Rightarrow> ustring \<Rightarrow> ustring \<Rightarrow> (pg_store, processing_record option) op" where
  "pg_get_by_idempotency P scope key now =
     bind (transaction (bind (lift (send_texts P [Some scope, Some key])) (\<lambda>_. select_idempotency scope key)))
       (read_row deserialize_processing)"

definition pg_get_attempt :: "uuid \<Rightarrow> (pg_store, execution_attempt option) op" where
  "pg_get_attempt a now = bind (transaction (select_attempt a)) (read_row deserialize_attempt)"

definition pg_get_attempt_for_processing :: "uuid \<Rightarrow> (pg_store, execution_attempt option) op" where
  "pg_get_attempt_for_processing p now =
     bind (transaction (select_processing_attempt p)) (read_row deserialize_attempt)"

definition pg_check_readiness :: "(pg_store, unit) op" where
  "pg_check_readiness now s = (if db_revisions s \<noteq> [schema_revision] then (Inl RuntimeError, s) else (Inr (), s))"

section \<open>The SET clauses\<close>

named_theorems pg_sets "the assignments of the UPDATE statements"

definition set_no_action :: "decision \<Rightarrow> json \<Rightarrow> datetime \<Rightarrow> processing_row \<Rightarrow> processing_row" where [pg_sets]:
  "set_no_action d reasons now r =
     r\<lparr>rw_state := S ''completed'', rw_updated_at := now, rw_completed_at := Some now,
       rw_decision_outcome := Some (decision_outcome_value (de_outcome d)),
       rw_policy_id := Some (de_policy_id d), rw_decision_reasons := Some reasons\<rparr>"

definition set_planned ::
  "decision \<Rightarrow> investigation_request \<Rightarrow> ustring \<Rightarrow> json \<Rightarrow> json \<Rightarrow> json \<Rightarrow> datetime \<Rightarrow> processing_row \<Rightarrow> processing_row"
where [pg_sets]:
  "set_planned d q b reasons capabilities targets now r =
     r\<lparr>rw_state := S ''planned'', rw_updated_at := now, rw_selected_backend := Some b,
       rw_decision_outcome := Some (decision_outcome_value (de_outcome d)),
       rw_policy_id := Some (de_policy_id d), rw_decision_reasons := Some reasons,
       rw_request_desired_outcome := Some (ir_desired_outcome q),
       rw_request_capabilities := Some capabilities, rw_request_targets := Some targets\<rparr>"

definition set_state :: "ustring \<Rightarrow> datetime \<Rightarrow> processing_row \<Rightarrow> processing_row" where [pg_sets]:
  "set_state st now r = r\<lparr>rw_state := st, rw_updated_at := now\<rparr>"

definition set_polled :: "ustring option \<Rightarrow> ustring option \<Rightarrow> datetime \<Rightarrow> processing_row \<Rightarrow> processing_row" where [pg_sets]:
  "set_polled category detail now r = r\<lparr>rw_updated_at := now, rw_error_category := category, rw_error_detail := detail\<rparr>"

definition set_completed :: "investigation_result \<Rightarrow> json \<Rightarrow> json \<Rightarrow> datetime \<Rightarrow> processing_row \<Rightarrow> processing_row" where [pg_sets]:
  "set_completed x capabilities evidence now r =
     r\<lparr>rw_state := S ''completed'', rw_updated_at := now, rw_completed_at := Some now,
       rw_result_backend := Some (rs_backend x), rw_result_completed_capabilities := Some capabilities,
       rw_result_evidence := Some evidence, rw_error_category := None, rw_error_detail := None\<rparr>"

definition set_failed :: "ustring \<Rightarrow> ustring \<Rightarrow> datetime \<Rightarrow> processing_row \<Rightarrow> processing_row" where [pg_sets]:
  "set_failed category detail now r =
     r\<lparr>rw_state := S ''failed'', rw_updated_at := now, rw_failed_at := Some now,
       rw_error_category := Some category, rw_error_detail := Some detail\<rparr>"

definition set_recovery :: "ustring \<Rightarrow> ustring \<Rightarrow> datetime \<Rightarrow> processing_row \<Rightarrow> processing_row" where [pg_sets]:
  "set_recovery category detail now r =
     r\<lparr>rw_state := S ''recovery_required'', rw_updated_at := now, rw_error_category := Some category,
       rw_error_detail := Some detail\<rparr>"

definition attempt_submitting :: "datetime \<Rightarrow> attempt_row \<Rightarrow> attempt_row" where [pg_sets]:
  "attempt_submitting now t = t\<lparr>ta_state := S ''submitting'', ta_started_at := Some now\<rparr>"

definition attempt_submitted :: "ustring \<Rightarrow> datetime \<Rightarrow> attempt_row \<Rightarrow> attempt_row" where [pg_sets]:
  "attempt_submitted x now t =
     t\<lparr>ta_state := S ''submitted'', ta_external_operation_id := Some x, ta_submitted_at := Some now\<rparr>"

definition attempt_polled ::
  "ustring \<Rightarrow> ustring option \<Rightarrow> ustring option \<Rightarrow> datetime \<Rightarrow> attempt_row \<Rightarrow> attempt_row"
where [pg_sets]:
  "attempt_polled remote_state category detail now t =
     t\<lparr>ta_last_polled_at := Some now, ta_last_remote_state := Some remote_state,
       ta_error_category := category, ta_error_detail := detail\<rparr>"

definition attempt_completed :: "datetime \<Rightarrow> attempt_row \<Rightarrow> attempt_row" where [pg_sets]:
  "attempt_completed now t =
     t\<lparr>ta_state := S ''completed'', ta_completed_at := Some now, ta_last_polled_at := Some now,
       ta_last_remote_state := Some (S ''succeeded''), ta_error_category := None, ta_error_detail := None\<rparr>"

definition attempt_failed :: "ustring \<Rightarrow> ustring \<Rightarrow> datetime \<Rightarrow> attempt_row \<Rightarrow> attempt_row" where [pg_sets]:
  "attempt_failed category detail now t =
     t\<lparr>ta_state := S ''failed'', ta_failed_at := Some now, ta_error_category := Some category,
       ta_error_detail := Some detail\<rparr>"

definition attempt_recovery :: "ustring \<Rightarrow> ustring \<Rightarrow> attempt_row \<Rightarrow> attempt_row" where [pg_sets]:
  "attempt_recovery category detail t =
     t\<lparr>ta_state := S ''recovery_required'', ta_error_category := Some category, ta_error_detail := Some detail\<rparr>"

section \<open>Completion without action, and the plan\<close>

definition pg_store_no_action_result ::
  "pgsql \<Rightarrow> uuid \<Rightarrow> orchestration_result \<Rightarrow> (pg_store, processing_record option) op"
where
  "pg_store_no_action_result P p res now =
     (let d = or_decision res in
      if de_outcome d \<noteq> NO_ACTION then raise ValueError
      else bind (transaction
        (bind (lift (send_texts P [Some (de_policy_id d)])) (\<lambda>_.
         bind (lift (pg_jsonb P (encode_strings (de_reasons d)))) (\<lambda>reasons.
         bind (update_processing P (\<lambda>r. rw_id r = p \<and> rw_state r = S ''accepted'')
           (set_no_action d reasons now)) (\<lambda>rows.
         ret (first_row rows))))))
      (read_row deserialize_processing))"

definition planned_row :: "uuid \<Rightarrow> uuid \<Rightarrow> uuid \<Rightarrow> ustring \<Rightarrow> datetime \<Rightarrow> attempt_row" where
  "planned_row a p key b now =
     \<lparr>ta_attempt_id = a, ta_processing_id = p, ta_attempt_number = 1, ta_operation_key = key, ta_backend = b,
      ta_state = S ''planned'', ta_external_operation_id = None, ta_created_at = now, ta_started_at = None,
      ta_submitted_at = None, ta_last_polled_at = None, ta_completed_at = None, ta_failed_at = None,
      ta_last_remote_state = None, ta_error_category = None, ta_error_detail = None\<rparr>"

definition pg_store_plan ::
  "pgsql \<Rightarrow> uuid \<Rightarrow> decision \<Rightarrow> incident \<Rightarrow> investigation_request \<Rightarrow> ustring \<Rightarrow> uuid \<Rightarrow> uuid \<Rightarrow>
   (pg_store, planned_processing option) op"
where
  "pg_store_plan P p d i q b a key now =
     (if de_outcome d \<noteq> INVESTIGATE then raise ValueError
      else if al_source (in_alert i) \<noteq> de_source d \<or> \<not> incident_eq (ir_incident q) i then raise ValueError
      else bind (transaction
        (bind (lift (send_texts P [Some b, Some (de_policy_id d), Some (ir_desired_outcome q)])) (\<lambda>_.
         bind (lift (pg_jsonb P (encode_strings (de_reasons d)))) (\<lambda>reasons.
         bind (lift (pg_jsonb P (encode_strings (ir_required_capabilities q)))) (\<lambda>capabilities.
         bind (lift (pg_jsonb P (encode_entities (ir_targets q)))) (\<lambda>targets.
         bind (update_processing P (\<lambda>r. rw_id r = p \<and> rw_state r = S ''accepted'')
           (set_planned d q b reasons capabilities targets now)) (\<lambda>rows.
         if rows = [] then ret None
         else bind (insert_attempt P (planned_row a p key b now)) (\<lambda>attempts.
              bind (select_processing p) (\<lambda>row. ret (Some (first_row attempts, row)))))))))))
      (\<lambda>stored. case stored of
          None \<Rightarrow> ret None
        | Some (Some t, Some r) \<Rightarrow>
            bind (lift (deserialize_processing r)) (\<lambda>record.
            bind (lift (deserialize_attempt t)) (\<lambda>att.
            ret (Some \<lparr>pp_record = record, pp_attempt = att\<rparr>)))
        | Some _ \<Rightarrow> raise RuntimeError))"

section \<open>Steps of an attempt\<close>

text \<open>What the operations on an attempt share: the matching attempt is updated, \<open>None\<close> when there
  is none; then the parameters of the second statement are sent and the matching record of the
  attempt is updated; when there is none, RuntimeError rolls both back.\<close>

definition update_pair ::
  "pgsql \<Rightarrow> (attempt_row \<Rightarrow> bool) \<Rightarrow> (attempt_row \<Rightarrow> attempt_row) \<Rightarrow> ustring set \<Rightarrow>
   exn + (processing_row \<Rightarrow> processing_row) \<Rightarrow> (attempt_row \<times> processing_row) option tx"
where
  "update_pair P matches next_attempt states next_record =
     bind (update_attempts P matches next_attempt) (\<lambda>rows.
     case rows of
       [] \<Rightarrow> ret None
     | t # _ \<Rightarrow>
         bind (lift next_record) (\<lambda>f.
         bind (update_processing P (\<lambda>r. rw_id r = ta_processing_id t \<and> rw_state r \<in> states) f) (\<lambda>updated.
         case updated of [] \<Rightarrow> raise RuntimeError | r # _ \<Rightarrow> ret (Some (t, r)))))"

text \<open>Claiming, marking as submitted and recording a poll.\<close>

definition pg_attempt_step ::
  "pgsql \<Rightarrow> uuid \<Rightarrow> ustring \<Rightarrow> ustring option list \<Rightarrow> (attempt_row \<Rightarrow> attempt_row) \<Rightarrow>
   (processing_row \<Rightarrow> processing_row) \<Rightarrow> execution_attempt option tx"
where
  "pg_attempt_step P a state texts next_attempt next_record =
     bind (transaction
       (bind (lift (send_texts P texts)) (\<lambda>_.
        update_pair P (\<lambda>t. ta_attempt_id t = a \<and> ta_state t = state) next_attempt {state} (Inr next_record))))
     (\<lambda>pair. read_row deserialize_attempt (map_option fst pair))"

definition pg_claim_attempt_for_submission :: "pgsql \<Rightarrow> uuid \<Rightarrow> (pg_store, execution_attempt option) op" where
  "pg_claim_attempt_for_submission P a now =
     pg_attempt_step P a (S ''planned'') []
       (attempt_submitting now) (set_state (S ''submitting'') now)"

definition pg_mark_attempt_submitted :: "pgsql \<Rightarrow> uuid \<Rightarrow> ustring \<Rightarrow> (pg_store, execution_attempt option) op" where
  "pg_mark_attempt_submitted P a x now =
     pg_attempt_step P a (S ''submitting'') [Some x]
       (attempt_submitted x now) (set_state (S ''submitted'') now)"

definition check_poll_error :: "ustring option \<Rightarrow> ustring option \<Rightarrow> exn + unit" where
  "check_poll_error category detail =
     (case (category, detail) of
        (None, None) \<Rightarrow> Inr ()
      | (Some c, Some d) \<Rightarrow> validate_error c d
      | _ \<Rightarrow> Inl ValueError)"

definition pg_record_poll ::
  "pgsql \<Rightarrow> uuid \<Rightarrow> ustring \<Rightarrow> ustring option \<Rightarrow> ustring option \<Rightarrow> (pg_store, execution_attempt option) op"
where
  "pg_record_poll P a remote_state category detail now =
     bind (lift (check_poll_error category detail)) (\<lambda>_.
     pg_attempt_step P a (S ''submitted'') [Some remote_state, category, detail]
       (attempt_polled remote_state category detail now) (set_polled category detail now))"

section \<open>Completion, failure and recovery\<close>

text \<open>\<open>==\<close> of two terminal results.\<close>

definition opt_request_eq :: "investigation_request option \<Rightarrow> investigation_request option \<Rightarrow> bool" where
  "opt_request_eq p q \<longleftrightarrow> (case (p, q) of (None, None) \<Rightarrow> True | (Some a, Some b) \<Rightarrow> request_eq a b | _ \<Rightarrow> False)"

definition result_eq :: "orchestration_result \<Rightarrow> orchestration_result \<Rightarrow> bool" where
  "result_eq x y \<longleftrightarrow> or_decision x = or_decision y \<and> opt_incident_eq (or_incident x) (or_incident y)
     \<and> opt_request_eq (or_investigation_request x) (or_investigation_request y)
     \<and> or_investigation_result x = or_investigation_result y"

definition pg_complete_processing ::
  "pgsql \<Rightarrow> uuid \<Rightarrow> orchestration_result \<Rightarrow> (pg_store, processing_record option) op"
where
  "pg_complete_processing P a res now =
     (case or_investigation_result res of
        None \<Rightarrow> raise ValueError
      | Some x \<Rightarrow>
          if de_outcome (or_decision res) \<noteq> INVESTIGATE then raise ValueError
          else bind (transaction
            (update_pair P (\<lambda>t. ta_attempt_id t = a \<and> ta_state t = S ''submitted'')
               (attempt_completed now) {S ''submitted''}
               (and_then (send_texts P [Some (rs_backend x)]) (\<lambda>_.
                and_then (pg_jsonb P (encode_strings (rs_completed_capabilities x))) (\<lambda>capabilities.
                and_then (pg_jsonb P (encode_evidence (rs_evidence x))) (\<lambda>evidence.
                Inr (set_completed x capabilities evidence now)))))))
          (\<lambda>stored. case stored of
              None \<Rightarrow> ret None
            | Some (_, r) \<Rightarrow>
                bind (lift (deserialize_processing r)) (\<lambda>completed.
                case pr_completed_result completed of
                  None \<Rightarrow> raise ValueError
                | Some y \<Rightarrow> if \<not> result_eq y res then raise ValueError else ret (Some completed))))"

definition pg_fail_processing ::
  "pgsql \<Rightarrow> uuid \<Rightarrow> processing_state set \<Rightarrow> ustring \<Rightarrow> ustring \<Rightarrow> uuid option \<Rightarrow>
   (pg_store, processing_record option) op"
where
  "pg_fail_processing P p expected category detail aid now =
     bind (lift (validate_error category detail)) (\<lambda>_.
     if expected = {} then raise ValueError
     else bind (transaction
       (bind (lift (send_texts P [Some category, Some detail])) (\<lambda>_.
        let states = processing_state_value ` expected; failed = set_failed category detail now in
        case aid of
             None \<Rightarrow>
               bind (update_processing P (\<lambda>r. rw_id r = p \<and> rw_state r \<in> states) failed) (\<lambda>rows.
               ret (first_row rows))
           | Some a \<Rightarrow>
               bind (update_pair P (\<lambda>t. ta_attempt_id t = a \<and> ta_processing_id t = p \<and> active_row t)
                 (attempt_failed category detail now) states (Inr failed)) (\<lambda>pair.
               ret (map_option snd pair)))))
     (read_row deserialize_processing))"

definition pg_mark_recovery_required ::
  "pgsql \<Rightarrow> uuid \<Rightarrow> attempt_state set \<Rightarrow> ustring \<Rightarrow> ustring \<Rightarrow> (pg_store, processing_record option) op"
where
  "pg_mark_recovery_required P a expected category detail now =
     bind (lift (validate_error category detail)) (\<lambda>_.
     if expected = {} \<or> \<not> expected \<subseteq> {A_SUBMITTING, A_SUBMITTED} then raise ValueError
     else bind (transaction
       (bind (lift (send_texts P [Some category, Some detail])) (\<lambda>_.
        update_pair P (\<lambda>t. ta_attempt_id t = a \<and> ta_state t \<in> attempt_state_value ` expected)
          (attempt_recovery category detail) (attempt_state_value ` expected)
          (Inr (set_recovery category detail now)))))
     (\<lambda>pair. read_row deserialize_processing (map_option snd pair)))"

section \<open>Reconcilable records\<close>

text \<open>The LEFT JOIN: a row per attempt of a processing, one without when it has none.\<close>

definition join_attempts :: "attempt_row list \<Rightarrow> processing_row \<Rightarrow> (processing_row \<times> attempt_row option) list" where
  "join_attempts ts r =
     (case filter (\<lambda>t. ta_processing_id t = rw_id r) ts of
        [] \<Rightarrow> [(r, None)]
      | matching \<Rightarrow> map (\<lambda>t. (r, Some t)) matching)"

definition reconcilable_row :: "pgsql \<Rightarrow> datetime \<Rightarrow> processing_row \<times> attempt_row option \<Rightarrow> bool" where
  "reconcilable_row P before j \<longleftrightarrow>
     rw_state (fst j) \<in> {S ''accepted'', S ''planned'', S ''submitted''}
     \<or> rw_state (fst j) = S ''submitting''
       \<and> (case snd j of
            None \<Rightarrow> False
          | Some t \<Rightarrow> ta_state t = S ''submitting''
              \<and> (case ta_started_at t of None \<Rightarrow> False | Some x \<Rightarrow> instant x \<le> pg_instant P before))"

text \<open>ORDER BY \<open>p.updated_at, p.id\<close>: a stable sort by the second key, then by the first.\<close>

definition order_rows :: "processing_row list \<Rightarrow> processing_row list" where
  "order_rows rs = sort_key (\<lambda>r. instant (rw_updated_at r)) (sort_key rw_id rs)"

definition pg_find_reconcilable :: "pgsql \<Rightarrow> int \<Rightarrow> datetime \<Rightarrow> (pg_store, processing_record list) op" where
  "pg_find_reconcilable P limit before now =
     (if limit < 1 then raise ValueError
      else bind (asks (\<lambda>s. take (nat limit) (order_rows
          (map fst (filter (reconcilable_row P before) (concat (map (join_attempts (db_attempts s)) (db_processing s))))))))
        (\<lambda>rows. lift (traverse deserialize_processing rows)))"

definition postgres_repository :: "pgsql \<Rightarrow> pg_store repository" where
  "postgres_repository P =
     \<lparr>rp_check_readiness = pg_check_readiness, rp_accept_processing = pg_accept_processing P,
      rp_get = pg_get, rp_get_by_idempotency = pg_get_by_idempotency P,
      rp_store_no_action_result = pg_store_no_action_result P, rp_store_plan = pg_store_plan P,
      rp_get_attempt = pg_get_attempt, rp_get_attempt_for_processing = pg_get_attempt_for_processing,
      rp_claim_attempt_for_submission = pg_claim_attempt_for_submission P,
      rp_mark_attempt_submitted = pg_mark_attempt_submitted P, rp_record_poll = pg_record_poll P,
      rp_complete_processing = pg_complete_processing P, rp_fail_processing = pg_fail_processing P,
      rp_mark_recovery_required = pg_mark_recovery_required P,
      rp_find_reconcilable = pg_find_reconcilable P\<rparr>"

end
