(* ===== verification/PostgresProps.thy ===== *)
theory PostgresProps
  imports Postgres ProcessorSafety
begin

text \<open>
  The PostgreSQL repository keeps its tables consistent (\<open>pg_ok\<close>) and satisfies the laws of
  \<open>processing_repository\<close>, whatever the database and the driver do with values: the interpretation
  \<open>postgres\<close> at the end carries the theorems of the locale over to it.
\<close>

section \<open>Tables under updates\<close>

named_theorems pg_rows "what a statement does to the tables"

lemma upd_none: "filter m xs = [] \<Longrightarrow> upd m f xs = xs"
  by (induction xs) (auto simp: upd_def split: if_splits)

lemma map_upd [pg_rows]: "(\<And>r. g (f r) = g r) \<Longrightarrow> map g (upd m f xs) = map g xs"
  by (simp add: upd_def)

lemma set_upd: "r \<in> set (upd m f xs) \<Longrightarrow> (r \<in> set xs \<and> \<not> m r) \<or> (\<exists>q \<in> set xs. m q \<and> r = f q)"
  by (auto simp: upd_def)

lemma find_upd [pg_rows]:
  "(\<And>r. g (f r) = g r) \<Longrightarrow>
   List.find (\<lambda>r. g r = k) (upd m f xs) = map_option (\<lambda>r. if m r then f r else r) (List.find (\<lambda>r. g r = k) xs)"
  by (induction xs) (auto simp: upd_def)

lemma find_append: "List.find Q (xs @ ys) = (case List.find Q xs of None \<Rightarrow> List.find Q ys | Some x \<Rightarrow> Some x)"
  by (induction xs) auto

lemma find_distinct: "distinct (map g xs) \<Longrightarrow> r \<in> set xs \<Longrightarrow> List.find (\<lambda>q. g q = g r) xs = Some r"
  by (induction xs) auto

lemma find_None: "List.find Q xs = None \<longleftrightarrow> (\<forall>x \<in> set xs. \<not> Q x)"
  by (induction xs) auto

section \<open>Consistency\<close>

definition pg_processing :: "pg_store \<Rightarrow> uuid \<Rightarrow> processing_row option" where
  "pg_processing s p = List.find (\<lambda>r. rw_id r = p) (db_processing s)"

definition pg_attempt :: "pg_store \<Rightarrow> uuid \<Rightarrow> attempt_row option" where
  "pg_attempt s a = List.find (\<lambda>t. ta_attempt_id t = a) (db_attempts s)"

definition processing_table_ok :: "pgsql \<Rightarrow> processing_row list \<Rightarrow> bool" where
  "processing_table_ok P rs \<longleftrightarrow> distinct (map rw_id rs) \<and> list_all (processing_checks P) rs
     \<and> (\<forall>r \<in> set rs. \<forall>q \<in> set rs. same_key r q \<longrightarrow> rw_id r = rw_id q)"

definition attempt_table_ok :: "pgsql \<Rightarrow> attempt_row list \<Rightarrow> bool" where
  "attempt_table_ok P ts \<longleftrightarrow> distinct (map ta_attempt_id ts) \<and> distinct (map ta_operation_key ts)
     \<and> distinct (map (\<lambda>t. (ta_processing_id t, ta_attempt_number t)) ts)
     \<and> distinct (map ta_processing_id (filter active_row ts)) \<and> list_all (attempt_checks P) ts"

definition pg_ok :: "pgsql \<Rightarrow> pg_store \<Rightarrow> bool" where
  "pg_ok P s \<longleftrightarrow> processing_table_ok P (db_processing s) \<and> attempt_table_ok P (db_attempts s)
     \<and> ta_processing_id ` set (db_attempts s) \<subseteq> rw_id ` set (db_processing s)"

definition pg_empty :: pg_store where
  "pg_empty = \<lparr>db_processing = [], db_attempts = [], db_revisions = [schema_revision]\<rparr>"

lemma pg_ok_empty: "pg_ok P pg_empty"
  by (simp add: pg_ok_def pg_empty_def processing_table_ok_def attempt_table_ok_def)

text \<open>What no statement changes of a row.\<close>

definition same_record :: "processing_row \<Rightarrow> processing_row \<Rightarrow> bool" where
  "same_record r q \<longleftrightarrow> rw_id q = rw_id r \<and> rw_created_at q = rw_created_at r
     \<and> rw_detection_identifier q = rw_detection_identifier r \<and> rw_detection_name q = rw_detection_name r
     \<and> rw_detected_at q = rw_detected_at r \<and> rw_source q = rw_source r \<and> rw_source_alert_id q = rw_source_alert_id r
     \<and> rw_severity q = rw_severity r \<and> rw_entities q = rw_entities r \<and> rw_alert_evidence q = rw_alert_evidence r
     \<and> rw_idempotency_scope q = rw_idempotency_scope r \<and> rw_idempotency_key q = rw_idempotency_key r
     \<and> rw_fingerprint_version q = rw_fingerprint_version r \<and> rw_request_fingerprint q = rw_request_fingerprint r"

definition same_attempt :: "attempt_row \<Rightarrow> attempt_row \<Rightarrow> bool" where
  "same_attempt t q \<longleftrightarrow> ta_attempt_id q = ta_attempt_id t \<and> ta_processing_id q = ta_processing_id t
     \<and> ta_attempt_number q = ta_attempt_number t \<and> ta_operation_key q = ta_operation_key t \<and> ta_backend q = ta_backend t"

lemma same_record_refl [simp]: "same_record r r" by (simp add: same_record_def)
lemma same_attempt_refl [simp]: "same_attempt t t" by (simp add: same_attempt_def)

lemma same_record_trans: "same_record a b \<Longrightarrow> same_record b c \<Longrightarrow> same_record a c"
  by (simp add: same_record_def)

lemma processing_table_upd:
  assumes "processing_table_ok P rs" "\<And>r. same_record r (f r)" "list_all (processing_checks P) (map f (filter m rs))"
  shows "processing_table_ok P (upd m f rs)"
proof -
  have id: "rw_id (f r) = rw_id r" for r using assms(2) [of r] by (simp add: same_record_def)
  have key: "rw_idempotency_scope (f r) = rw_idempotency_scope r" "rw_idempotency_key (f r) = rw_idempotency_key r" for r
    using assms(2) [of r] by (simp_all add: same_record_def)
  have "list_all (processing_checks P) (upd m f rs)"
    using assms(1,3) by (auto simp: list_all_iff processing_table_ok_def dest!: set_upd)
  moreover have "same_key r q \<longrightarrow> rw_id r = rw_id q" if rq: "r \<in> set (upd m f rs)" "q \<in> set (upd m f rs)" for r q
  proof -
    have "\<exists>r' \<in> set rs. rw_id r = rw_id r' \<and> (\<forall>z. same_key r z = same_key r' z) \<and> (\<forall>z. same_key z r = same_key z r')"
      if "r \<in> set (upd m f rs)" for r
      using set_upd [OF that] by (auto simp: same_key_def id key)
    then obtain r' q' where "r' \<in> set rs" "rw_id r = rw_id r'" "\<And>z. same_key r z = same_key r' z"
      "q' \<in> set rs" "rw_id q = rw_id q'" "\<And>z. same_key z q = same_key z q'"
      using rq by meson
    then show ?thesis using assms(1) by (simp add: processing_table_ok_def)
  qed
  ultimately show ?thesis using assms(1) by (simp add: processing_table_ok_def map_upd id)
qed

lemma attempt_table_upd:
  assumes "attempt_table_ok P ts" "\<And>t. same_attempt t (f t)" "list_all (attempt_checks P) (map f (filter m ts))"
    "distinct (map ta_processing_id (filter active_row (upd m f ts)))"
  shows "attempt_table_ok P (upd m f ts)"
proof -
  have id: "ta_attempt_id (f t) = ta_attempt_id t" "ta_operation_key (f t) = ta_operation_key t"
    "ta_processing_id (f t) = ta_processing_id t" "ta_attempt_number (f t) = ta_attempt_number t" for t
    using assms(2) [of t] by (simp_all add: same_attempt_def)
  have "list_all (attempt_checks P) (upd m f ts)"
    using assms(1,3) by (auto simp: list_all_iff attempt_table_ok_def dest!: set_upd)
  then show ?thesis using assms(1,4) by (simp add: attempt_table_ok_def map_upd id)
qed

section \<open>Evolution\<close>

text \<open>\<open>evolved tr\<close>: the store stays consistent, no row disappears, nothing of a request or a key
  changes, an attempt that has left PLANNED does not come back, and a record keeps its state or
  moves by a transition of \<open>tr\<close>.\<close>

definition moved_by :: "(processing_state \<Rightarrow> processing_state \<Rightarrow> bool) \<Rightarrow> processing_row \<Rightarrow> processing_row \<Rightarrow> bool" where
  "moved_by tr r q \<longleftrightarrow> rw_state q = rw_state r
     \<or> (\<exists>a b. rw_state r = processing_state_value a \<and> rw_state q = processing_state_value b \<and> tr a b)"

definition records_evolve :: "(processing_state \<Rightarrow> processing_state \<Rightarrow> bool) \<Rightarrow> pg_store \<Rightarrow> pg_store \<Rightarrow> bool" where
  "records_evolve tr s s' \<longleftrightarrow>
     (\<forall>p r. pg_processing s p = Some r \<longrightarrow> (\<exists>q. pg_processing s' p = Some q \<and> same_record r q \<and> moved_by tr r q))"

definition attempts_evolve :: "pg_store \<Rightarrow> pg_store \<Rightarrow> bool" where
  "attempts_evolve s s' \<longleftrightarrow>
     (\<forall>a t. pg_attempt s a = Some t \<longrightarrow> (\<exists>q. pg_attempt s' a = Some q \<and> same_attempt t q
        \<and> (ta_state t \<noteq> S ''planned'' \<longrightarrow> ta_state q \<noteq> S ''planned'')))"

definition evolved ::
  "pgsql \<Rightarrow> (processing_state \<Rightarrow> processing_state \<Rightarrow> bool) \<Rightarrow> pg_store \<Rightarrow> pg_store \<Rightarrow> bool"
where
  "evolved P tr s s' \<longleftrightarrow> pg_ok P s' \<and> records_evolve tr s s' \<and> attempts_evolve s s'"

lemma moved_by_refl [simp]: "moved_by tr r r"
  by (simp add: moved_by_def)

lemma evolved_refl [simp]: "pg_ok P s \<Longrightarrow> evolved P tr s s"
  by (auto simp: evolved_def records_evolve_def attempts_evolve_def)

lemma evolved_write:
  assumes ok: "pg_ok P s"
    and f: "\<And>t. same_attempt t (f t)" "list_all (attempt_checks P) (map f (filter m (db_attempts s)))"
      "distinct (map ta_processing_id (filter active_row (upd m f (db_attempts s))))"
      "\<And>t. m t \<Longrightarrow> ta_state (f t) \<noteq> S ''planned''"
    and g: "\<And>r. same_record r (g r)" "list_all (processing_checks P) (map g (filter k (db_processing s)))"
      "\<And>r. k r \<Longrightarrow> moved_by tr r (g r)"
  shows "evolved P tr s (s\<lparr>db_attempts := upd m f (db_attempts s), db_processing := upd k g (db_processing s)\<rparr>)"
proof -
  have id: "rw_id (g r) = rw_id r" "ta_attempt_id (f t) = ta_attempt_id t" "ta_processing_id (f t) = ta_processing_id t" for r t
    using g(1) [of r] f(1) [of t] by (simp_all add: same_record_def same_attempt_def)
  have "rw_id ` set (upd k g (db_processing s)) = rw_id ` set (db_processing s)"
    "ta_processing_id ` set (upd m f (db_attempts s)) = ta_processing_id ` set (db_attempts s)"
    by (simp_all only: set_map [symmetric] map_upd [of rw_id, OF id(1)] map_upd [of ta_processing_id, OF id(3)])
  then have "pg_ok P (s\<lparr>db_attempts := upd m f (db_attempts s), db_processing := upd k g (db_processing s)\<rparr>)"
    using ok processing_table_upd [OF _ g(1,2)] attempt_table_upd [OF _ f(1,2,3)] by (simp add: pg_ok_def)
  moreover have "records_evolve tr s (s\<lparr>db_attempts := upd m f (db_attempts s), db_processing := upd k g (db_processing s)\<rparr>)"
    using g(1,3) by (auto simp: records_evolve_def pg_processing_def find_upd [of rw_id, OF id(1)])
  moreover have "attempts_evolve s (s\<lparr>db_attempts := upd m f (db_attempts s), db_processing := upd k g (db_processing s)\<rparr>)"
    using f(1,4) by (auto simp: attempts_evolve_def pg_attempt_def find_upd [of ta_attempt_id, OF id(2)])
  ultimately show ?thesis by (simp add: evolved_def)
qed

lemma upd_False: "upd (\<lambda>_. False) f xs = xs"
  by (simp add: upd_def)

text \<open>The same for an UPDATE of the records alone.\<close>

lemma evolved_processing:
  assumes ok: "pg_ok P s"
    and g: "\<And>r. same_record r (g r)" "list_all (processing_checks P) (map g (filter k (db_processing s)))"
      "\<And>r. k r \<Longrightarrow> moved_by tr r (g r)"
  shows "evolved P tr s (s\<lparr>db_processing := upd k g (db_processing s)\<rparr>)"
proof -
  have "distinct (map ta_processing_id (filter active_row (db_attempts s)))"
    using ok by (simp add: pg_ok_def attempt_table_ok_def)
  with evolved_write [OF ok _ _ _ _ g, of "\<lambda>t. t" "\<lambda>_. False"] show ?thesis by (simp add: upd_False)
qed

lemma evolved_insert:
  assumes ok: "pg_ok P s" and r: "processing_checks P r" "rw_id r \<notin> rw_id ` set (db_processing s)"
    "\<not> list_ex (same_key r) (db_processing s)"
  shows "evolved P tr s (s\<lparr>db_processing := db_processing s @ [r]\<rparr>)"
proof -
  have sym: "same_key a b \<Longrightarrow> same_key b a" for a b by (auto simp: same_key_def)
  have "processing_table_ok P (db_processing s @ [r])"
    using ok r sym [of _ r] by (auto simp: pg_ok_def processing_table_ok_def list_ex_iff)
  then have "pg_ok P (s\<lparr>db_processing := db_processing s @ [r]\<rparr>)"
    using ok by (auto simp: pg_ok_def)
  then show ?thesis
    by (auto simp: evolved_def records_evolve_def attempts_evolve_def pg_processing_def pg_attempt_def find_append)
qed

lemma evolved_insert_attempt:
  assumes e: "evolved P tr s s'" and t: "attempt_checks P t" "ta_processing_id t \<in> rw_id ` set (db_processing s')"
    "\<not> list_ex (\<lambda>q. ta_attempt_id q = ta_attempt_id t \<or> ta_operation_key q = ta_operation_key t
        \<or> ta_processing_id q = ta_processing_id t
           \<and> (ta_attempt_number q = ta_attempt_number t \<or> active_row q \<and> active_row t)) (db_attempts s')"
  shows "evolved P tr s (s'\<lparr>db_attempts := db_attempts s' @ [t]\<rparr>)"
proof -
  have "attempt_table_ok P (db_attempts s' @ [t])"
    using e t by (auto simp: evolved_def pg_ok_def attempt_table_ok_def list_ex_iff)
  then have "pg_ok P (s'\<lparr>db_attempts := db_attempts s' @ [t]\<rparr>)"
    using e t(2) by (auto simp: evolved_def pg_ok_def)
  then show ?thesis
    using e by (fastforce simp: evolved_def records_evolve_def attempts_evolve_def pg_processing_def pg_attempt_def find_append)
qed

section \<open>Statements and operations\<close>

lemma transaction_cases:
  "transaction m s = (r, s') \<longleftrightarrow> (\<exists>s1. m s = (r, s1) \<and> s' = (case r of Inl _ \<Rightarrow> s | Inr _ \<Rightarrow> s1))"
  by (auto simp: transaction_def split: prod.splits sum.splits)

lemma update_processing_Inr:
  "update_processing P m f s = (Inr rows, s') \<longleftrightarrow> rows = map f (filter m (db_processing s))
     \<and> list_all (processing_checks P) rows \<and> s' = s\<lparr>db_processing := upd m f (db_processing s)\<rparr>"
  by (auto simp: update_processing_def Let_def)

lemma update_attempts_Inr:
  "update_attempts P m f s = (Inr rows, s') \<longleftrightarrow> rows = map f (filter m (db_attempts s))
     \<and> list_all (attempt_checks P) rows \<and> distinct (map ta_processing_id (filter active_row (upd m f (db_attempts s))))
     \<and> s' = s\<lparr>db_attempts := upd m f (db_attempts s)\<rparr>"
  by (auto simp: update_attempts_def Let_def)

text \<open>What a pair of updates has done when it returns.\<close>

definition pair_written ::
  "pgsql \<Rightarrow> (attempt_row \<Rightarrow> bool) \<Rightarrow> (attempt_row \<Rightarrow> attempt_row) \<Rightarrow> ustring set \<Rightarrow>
   (processing_row \<Rightarrow> processing_row) \<Rightarrow> pg_store \<Rightarrow> attempt_row \<times> processing_row \<Rightarrow> pg_store \<Rightarrow> bool"
where
  "pair_written P m f states g s w s' \<longleftrightarrow>
     (\<exists>t q. t \<in> set (db_attempts s) \<and> m t \<and> q \<in> set (db_processing s) \<and> rw_id q = ta_processing_id (f t)
        \<and> rw_state q \<in> states \<and> w = (f t, g q)
        \<and> list_all (attempt_checks P) (map f (filter m (db_attempts s)))
        \<and> distinct (map ta_processing_id (filter active_row (upd m f (db_attempts s))))
        \<and> list_all (processing_checks P)
            (map g (filter (\<lambda>r. rw_id r = ta_processing_id (f t) \<and> rw_state r \<in> states) (db_processing s)))
        \<and> s' = s\<lparr>db_attempts := upd m f (db_attempts s),
                db_processing := upd (\<lambda>r. rw_id r = ta_processing_id (f t) \<and> rw_state r \<in> states) g (db_processing s)\<rparr>)"

lemma map_eq_Cons_filter:
  "map f (filter m xs) = y # ys \<Longrightarrow> \<exists>x \<in> set xs. m x \<and> y = f x"
  by (induction xs) (auto split: if_splits)

lemma update_pair_Inr:
  assumes "update_pair P m f states next s = (Inr w, s')"
  shows "(w = None \<and> s' = s) \<or> (\<exists>g x. next = Inr g \<and> w = Some x \<and> pair_written P m f states g s x s')"
proof -
  obtain rows s1 where a: "update_attempts P m f s = (Inr rows, s1)"
    "(case rows of [] \<Rightarrow> ret None
      | t # _ \<Rightarrow> bind (lift next) (\<lambda>f. bind (update_processing P (\<lambda>r. rw_id r = ta_processing_id t \<and> rw_state r \<in> states) f)
          (\<lambda>updated. case updated of [] \<Rightarrow> raise RuntimeError | r # _ \<Rightarrow> ret (Some (t, r))))) s1 = (Inr w, s')"
    using assms unfolding update_pair_def bind_eq_Inr by blast
  show ?thesis
  proof (cases rows)
    case Nil
    then show ?thesis using a by (simp add: update_attempts_Inr upd_none ret_def)
  next
    case (Cons t ts)
    then obtain g updated where b: "next = Inr g"
      "update_processing P (\<lambda>r. rw_id r = ta_processing_id t \<and> rw_state r \<in> states) g s1 = (Inr updated, s')"
      "(case updated of [] \<Rightarrow> raise RuntimeError | r # _ \<Rightarrow> ret (Some (t, r))) s' = (Inr w, s')"
      using a(2) by (fastforce simp: bind_eq_Inr lift_def raise_def ret_def split: list.splits)
    then obtain r rs where r: "updated = r # rs" "w = Some (t, r)"
      by (cases updated) (auto simp: raise_def ret_def)
    obtain x where x: "x \<in> set (db_attempts s)" "m x" "t = f x"
      using a(1) Cons map_eq_Cons_filter [of f m "db_attempts s" t ts] by (auto simp: update_attempts_Inr)
    have p: "map g (filter (\<lambda>r. rw_id r = ta_processing_id t \<and> rw_state r \<in> states) (db_processing s)) = r # rs"
      using a(1) b(2) r(1) by (auto simp: update_attempts_Inr update_processing_Inr)
    obtain q where q: "q \<in> set (db_processing s)" "rw_id q = ta_processing_id t" "rw_state q \<in> states" "r = g q"
      using map_eq_Cons_filter [OF p] by blast
    have "pair_written P m f states g s (t, r) s'"
      unfolding pair_written_def using x q a(1) b(2) by (auto simp: update_attempts_Inr update_processing_Inr)
    with b r show ?thesis by simp
  qed
qed

lemma evolved_pair:
  assumes "pg_ok P s" "pair_written P m f states g s w s'"
    and "\<And>t. same_attempt t (f t)" "\<And>t. m t \<Longrightarrow> ta_state (f t) \<noteq> S ''planned''"
    and "\<And>r. same_record r (g r)" "\<And>r. rw_state r \<in> states \<Longrightarrow> moved_by tr r (g r)"
  shows "evolved P tr s s'"
  using assms by (auto simp: pair_written_def intro!: evolved_write)

text \<open>A transaction around a pair of updates, with what is sent before and read after it.\<close>

lemma tx_pair_evolved:
  assumes "bind (transaction (bind (lift c) (\<lambda>_. bind (update_pair P m f states next) (\<lambda>w. ret (h w))))) k s = (r, s')"
    and k: "\<And>x w. snd (k x w) = w" and ok: "pg_ok P s"
    and "\<And>t. same_attempt t (f t)" "\<And>t. m t \<Longrightarrow> ta_state (f t) \<noteq> S ''planned''"
    and "\<And>g r. next = Inr g \<Longrightarrow> same_record r (g r)"
    and "\<And>g r. next = Inr g \<Longrightarrow> rw_state r \<in> states \<Longrightarrow> moved_by tr r (g r)"
  shows "evolved P tr s s'"
proof -
  let ?m = "bind (lift c) (\<lambda>_. bind (update_pair P m f states next) (\<lambda>w. ret (h w)))"
  obtain y s1 where y: "?m s = (y, s1)" by fastforce
  show ?thesis
  proof (cases y)
    case (Inl e)
    then have "s' = s" using assms(1) y by (simp add: bind_def transaction_def)
    with ok show ?thesis by simp
  next
    case (Inr z)
    then have "k z s1 = (r, s')" using assms(1) y by (simp add: bind_def transaction_def)
    then have "s' = s1" using k [of z s1] by simp
    moreover obtain w where "update_pair P m f states next s = (Inr w, s1)"
      using y Inr by (auto simp: bind_eq_Inr lift_def ret_def)
    ultimately show ?thesis using update_pair_Inr evolved_pair [OF ok] assms(4-7) ok by (metis evolved_refl)
  qed
qed

lemma read_row_state [simp]: "snd (read_row f x w) = w"
  by (simp add: read_row_def ret_def lift_def split: option.split)

lemmas tx_update_evolved = tx_pair_evolved [where h = "\<lambda>w. w", unfolded bind_simps(3)]

lemma moved_byI: "tr a b \<Longrightarrow> rw_state r = processing_state_value a \<Longrightarrow> rw_state q = processing_state_value b \<Longrightarrow> moved_by tr r q"
  by (auto simp: moved_by_def)

lemma step_evolved:
  assumes "pg_attempt_step P a state texts f g s = (r, s')" "pg_ok P s"
    and "\<And>t. same_attempt t (f t)" "\<And>t. ta_state t = state \<Longrightarrow> ta_state (f t) \<noteq> S ''planned''"
    and "\<And>r. same_record r (g r)" "\<And>r. rw_state r = state \<Longrightarrow> moved_by tr r (g r)"
  shows "evolved P tr s s'"
  by (rule tx_update_evolved [OF assms(1) [unfolded pg_attempt_step_def] _ assms(2)]) (use assms(3-6) in auto)

lemma claim_evolved:
  assumes "pg_ok P s" "tr PLANNED SUBMITTING"
  shows "evolved P tr s (snd (pg_claim_attempt_for_submission P a now s))"
proof -
  obtain r s' where e: "pg_claim_attempt_for_submission P a now s = (r, s')" by fastforce
  have "evolved P tr s s'"
    by (rule step_evolved [OF e [unfolded pg_claim_attempt_for_submission_def] assms(1)])
      (auto simp: pg_sets same_attempt_def same_record_def intro!: moved_byI [of tr PLANNED SUBMITTING] assms(2))
  then show ?thesis by (simp add: e)
qed

lemma submitted_evolved:
  assumes "pg_ok P s" "tr SUBMITTING SUBMITTED"
  shows "evolved P tr s (snd (pg_mark_attempt_submitted P a x now s))"
proof -
  obtain r s' where e: "pg_mark_attempt_submitted P a x now s = (r, s')" by fastforce
  have "evolved P tr s s'"
    by (rule step_evolved [OF e [unfolded pg_mark_attempt_submitted_def] assms(1)])
      (auto simp: pg_sets same_attempt_def same_record_def intro!: moved_byI [of tr SUBMITTING SUBMITTED] assms(2))
  then show ?thesis by (simp add: e)
qed

lemma poll_evolved:
  assumes "pg_ok P s"
  shows "evolved P tr s (snd (pg_record_poll P a st c d now s))"
proof (cases "check_poll_error c d")
  case (Inl e)
  then show ?thesis using assms by (simp add: pg_record_poll_def bind_def lift_def)
next
  case (Inr u)
  obtain r s' where e: "pg_record_poll P a st c d now s = (r, s')" by fastforce
  have "pg_attempt_step P a (S ''submitted'') [Some st, c, d]
       (attempt_polled st c d now) (set_polled c d now) s = (r, s')"
    using e Inr by (simp add: pg_record_poll_def bind_def lift_def)
  from step_evolved [OF this assms] have "evolved P tr s s'"
    by (simp add: pg_sets same_attempt_def same_record_def moved_by_def)
  then show ?thesis by (simp add: e)
qed

text \<open>A transaction that only sends and updates the records.\<close>

lemma tx_processing_evolved:
  assumes "bind (transaction (bind (lift c) (\<lambda>x. bind (update_processing P m (g x)) (\<lambda>rows. ret (h rows))))) k s = (r, s')"
    and k: "\<And>x w. snd (k x w) = w" and ok: "pg_ok P s"
    and "\<And>x r. same_record r (g x r)" "\<And>x r. m r \<Longrightarrow> moved_by tr r (g x r)"
  shows "evolved P tr s s'"
proof (cases "bind (lift c) (\<lambda>x. bind (update_processing P m (g x)) (\<lambda>rows. ret (h rows))) s")
  case (Pair y s1)
  show ?thesis
  proof (cases y)
    case (Inl e)
    then have "s' = s" using assms(1) Pair by (simp add: bind_def transaction_def)
    with ok show ?thesis by simp
  next
    case (Inr z)
    then have "k z s1 = (r, s')" using assms(1) Pair by (simp add: bind_def transaction_def)
    then have "s' = s1" using k [of z s1] by simp
    moreover obtain x rows where "update_processing P m (g x) s = (Inr rows, s1)"
      using Pair Inr by (auto simp: bind_eq_Inr lift_def ret_def)
    ultimately show ?thesis
      using evolved_processing [OF ok assms(4) _ assms(5)] by (auto simp: update_processing_Inr)
  qed
qed

lemma lift_and_then: "bind (lift c) (\<lambda>x. bind (lift (d x)) f) = bind (lift (and_then c (\<lambda>x. and_then (d x) (\<lambda>y. Inr (x, y))))) (\<lambda>(x, y). f y)"
  by (auto simp: bind_def lift_def and_then_def fun_eq_iff split: sum.split)

lemma no_action_evolved:
  assumes "pg_ok P s" "tr ACCEPTED COMPLETED"
  shows "evolved P tr s (snd (pg_store_no_action_result P p res now s))"
proof (cases "de_outcome (or_decision res) = NO_ACTION")
  case False
  then show ?thesis using assms(1) by (simp add: pg_store_no_action_result_def Let_def raise_def)
next
  case True
  obtain r s' where e: "pg_store_no_action_result P p res now s = (r, s')" by fastforce
  have "evolved P tr s s'"
    by (rule tx_processing_evolved [OF e [unfolded pg_store_no_action_result_def Let_def lift_and_then case_prod_unfold, simplified True, simplified] _ assms(1)])
      (auto simp: pg_sets True same_record_def intro!: moved_byI [of tr ACCEPTED COMPLETED] assms(2))
  then show ?thesis by (simp add: e)
qed

lemma lift_Inr: "bind (lift (Inr x)) f = f x"
  by (simp add: bind_def lift_def fun_eq_iff)

lemmas tx_plain_evolved = tx_update_evolved [where c = "Inr ()", unfolded lift_Inr]

lemma complete_evolved:
  assumes "pg_ok P s" "tr SUBMITTED COMPLETED"
  shows "evolved P tr s (snd (pg_complete_processing P a res now s))"
proof (cases "or_investigation_result res = None \<or> de_outcome (or_decision res) \<noteq> INVESTIGATE")
  case True
  then show ?thesis using assms(1) by (auto simp: pg_complete_processing_def raise_def split: option.split)
next
  case False
  then obtain x where x: "or_investigation_result res = Some x" "de_outcome (or_decision res) = INVESTIGATE"
    by (cases "de_outcome (or_decision res)") auto
  obtain r s' where e: "pg_complete_processing P a res now s = (r, s')" by fastforce
  have "evolved P tr s s'"
    by (rule tx_plain_evolved [OF e [unfolded pg_complete_processing_def x option.case, simplified]])
      (auto simp: assms(1) and_then_Inr pg_sets same_attempt_def same_record_def bind_def lift_def ret_def raise_def
        split: option.split sum.split intro!: moved_byI [of tr SUBMITTED COMPLETED] assms(2))
  then show ?thesis by (simp add: e)
qed

lemma recovery_evolved:
  assumes "pg_ok P s" "tr SUBMITTING RECOVERY_REQUIRED" "tr SUBMITTED RECOVERY_REQUIRED"
  shows "evolved P tr s (snd (pg_mark_recovery_required P a es c d now s))"
proof (cases "validate_error c d = Inr () \<and> es \<noteq> {} \<and> es \<subseteq> {A_SUBMITTING, A_SUBMITTED}")
  case False
  then show ?thesis using assms(1)
    by (cases "validate_error c d") (auto simp: pg_mark_recovery_required_def bind_def lift_def raise_def)
next
  case True
  obtain r s' where e: "pg_mark_recovery_required P a es c d now s = (r, s')" by fastforce
  have m: "moved_by tr r q" if "rw_state r \<in> attempt_state_value ` es" "rw_state q = S ''recovery_required''" for r q
  proof -
    from that(1) True consider "rw_state r = S ''submitting''" | "rw_state r = S ''submitted''" by auto
    then show ?thesis
      by cases (simp_all add: moved_byI [of tr SUBMITTING RECOVERY_REQUIRED] moved_byI [of tr SUBMITTED RECOVERY_REQUIRED]
        assms(2,3) that(2))
  qed
  have v: "validate_error c d = Inr ()" "(es = {} \<or> \<not> es \<subseteq> {A_SUBMITTING, A_SUBMITTED}) = False" using True by auto
  have "evolved P tr s s'"
    by (rule tx_update_evolved [OF e [unfolded pg_mark_recovery_required_def v lift_Inr if_False] _ assms(1)])
      (use m in \<open>auto simp: pg_sets same_attempt_def same_record_def\<close>)
  then show ?thesis by (simp add: e)
qed

lemma fail_evolved:
  assumes "pg_ok P s" "\<And>st. st \<in> es \<Longrightarrow> tr st FAILED"
  shows "evolved P tr s (snd (pg_fail_processing P p es c d aid now s))"
proof (cases "validate_error c d = Inr () \<and> es \<noteq> {}")
  case False
  then show ?thesis using assms(1)
    by (cases "validate_error c d") (auto simp: pg_fail_processing_def bind_def lift_def raise_def)
next
  case True
  obtain r s' where e: "pg_fail_processing P p es c d aid now s = (r, s')" by fastforce
  have m: "moved_by tr r q" if "rw_state r \<in> processing_state_value ` es" "rw_state q = S ''failed''" for r q
    using that by (auto intro: moved_byI [of tr _ FAILED] assms(2))
  have v: "validate_error c d = Inr ()" "(es = {}) = False" using True by auto
  note e' = e [unfolded pg_fail_processing_def v lift_Inr if_False Let_def]
  have "evolved P tr s s'"
  proof (cases aid)
    case None
    show ?thesis
      by (rule tx_processing_evolved [OF e' [unfolded None option.case] _ assms(1)])
        (use m in \<open>auto simp: pg_sets same_record_def\<close>)
  next
    case (Some a)
    show ?thesis
      by (rule tx_pair_evolved [OF e' [unfolded Some option.case] _ assms(1)])
        (use m in \<open>auto simp: pg_sets same_record_def same_attempt_def\<close>)
  qed
  then show ?thesis by (simp add: e)
qed

lemma tx_state:
  assumes "bind (transaction m) k s = (r, s')" "\<And>x w. snd (k x w) = w"
  shows "s' = s \<or> (\<exists>x. m s = (Inr x, s'))"
proof (cases "m s")
  case (Pair y s1)
  then show ?thesis using assms by (cases y) (auto simp: bind_def transaction_def, metis snd_conv)
qed

lemma accept_effect:
  assumes "pg_accept_processing P p al sc k v d now s = (r, s')"
  shows "s' = s \<or> (\<exists>entities evidence r. r = canonical_row p al sc k v d (stored_time P (al_detected_at al)) entities evidence now
    \<and> s' = s\<lparr>db_processing := db_processing s @ [r]\<rparr> \<and> processing_checks P r
    \<and> p \<notin> rw_id ` set (db_processing s) \<and> \<not> list_ex (same_key r) (db_processing s))"
proof -
  have c: "rw_id (canonical_row p al sc k v d t x y now) = p" for t x y by (simp add: canonical_row_def)
  have k: "snd ((case x of (row, created) \<Rightarrow> bind (lift (deserialize_processing row)) (\<lambda>r. ret \<lparr>pa_record = r, pa_created = created\<rparr>)) w) = w"
    for x :: "processing_row \<times> bool" and w :: pg_store
    by (cases x) (simp add: bind_def lift_def ret_def split: sum.split)
  from tx_state [OF assms [unfolded pg_accept_processing_def] k] show ?thesis
    by (auto simp: bind_eq_Inr lift_def insert_processing_def select_idempotency_def asks_def raise_def ret_def c
        split: if_splits list.splits option.splits)
qed

lemma accept_evolved:
  assumes ok: "pg_ok P s"
  shows "evolved P tr s (snd (pg_accept_processing P p al sc k v d now s))"
proof -
  obtain r s' where e: "pg_accept_processing P p al sc k v d now s = (r, s')" by fastforce
  from accept_effect [OF e] have "evolved P tr s s'"
    by (auto simp: ok canonical_row_def intro!: evolved_insert)
  then show ?thesis by (simp add: e)
qed

text \<open>The plan: nothing, or the record planned and the attempt inserted.\<close>

definition plan_written ::
  "pgsql \<Rightarrow> uuid \<Rightarrow> decision \<Rightarrow> investigation_request \<Rightarrow> ustring \<Rightarrow> uuid \<Rightarrow> uuid \<Rightarrow> datetime \<Rightarrow> pg_store \<Rightarrow> pg_store \<Rightarrow> bool"
where
  "plan_written P p d q b a key now s s' \<longleftrightarrow>
     (\<exists>x y z r s1. pg_jsonb P (encode_strings (de_reasons d)) = Inr x
        \<and> pg_jsonb P (encode_strings (ir_required_capabilities q)) = Inr y
        \<and> pg_jsonb P (encode_entities (ir_targets q)) = Inr z
        \<and> r \<in> set (db_processing s) \<and> rw_id r = p \<and> rw_state r = S ''accepted''
        \<and> list_all (processing_checks P)
            (map (set_planned d q b x y z now) (filter (\<lambda>r. rw_id r = p \<and> rw_state r = S ''accepted'') (db_processing s)))
        \<and> s1 = s\<lparr>db_processing := upd (\<lambda>r. rw_id r = p \<and> rw_state r = S ''accepted'') (set_planned d q b x y z now) (db_processing s)\<rparr>
        \<and> insert_attempt P (planned_row a p key b now) s1 = (Inr [planned_row a p key b now], s'))"

lemma plan_effect:
  assumes "pg_store_plan P p d i q b a key now s = (r, s')"
  shows "s' = s \<or> (de_outcome d = INVESTIGATE \<and> plan_written P p d q b a key now s s')"
proof (cases "de_outcome d = INVESTIGATE \<and> al_source (in_alert i) = de_source d \<and> incident_eq (ir_incident q) i")
  case False
  then show ?thesis using assms by (auto simp: pg_store_plan_def raise_def split: if_splits)
next
  case True
  let ?m = "\<lambda>r. rw_id r = p \<and> rw_state r = S ''accepted''"
  have k: "snd ((case stored of None \<Rightarrow> ret None | Some (Some t, Some r) \<Rightarrow>
      bind (lift (deserialize_processing r)) (\<lambda>record. bind (lift (deserialize_attempt t)) (\<lambda>att.
        ret (Some \<lparr>pp_record = record, pp_attempt = att\<rparr>))) | Some _ \<Rightarrow> raise RuntimeError) w) = w"
    for stored and w :: pg_store
    by (auto simp: bind_def lift_def ret_def raise_def split: sum.split option.split prod.split)
  note e = assms [unfolded pg_store_plan_def, simplified True simp_thms if_True if_False]
  have "s' = s \<or> (\<exists>x y z rows s1 w. pg_jsonb P (encode_strings (de_reasons d)) = Inr x
      \<and> pg_jsonb P (encode_strings (ir_required_capabilities q)) = Inr y
      \<and> pg_jsonb P (encode_entities (ir_targets q)) = Inr z
      \<and> update_processing P ?m (set_planned d q b x y z now) s = (Inr rows, s1)
      \<and> (if rows = [] then ret None
         else bind (insert_attempt P (planned_row a p key b now)) (\<lambda>attempts.
           bind (select_processing p) (\<lambda>row. ret (Some (first_row attempts, row))))) s1 = (Inr w, s'))"
    using tx_state [OF e k] unfolding bind_eq_Inr lift_def by blast
  then show ?thesis
  proof (elim disjE exE conjE)
    fix x y z rows s1 w
    assume j: "pg_jsonb P (encode_strings (de_reasons d)) = Inr x"
        "pg_jsonb P (encode_strings (ir_required_capabilities q)) = Inr y"
        "pg_jsonb P (encode_entities (ir_targets q)) = Inr z"
      and u: "update_processing P ?m (set_planned d q b x y z now) s = (Inr rows, s1)"
      and i: "(if rows = [] then ret None
         else bind (insert_attempt P (planned_row a p key b now)) (\<lambda>attempts.
           bind (select_processing p) (\<lambda>row. ret (Some (first_row attempts, row))))) s1 = (Inr w, s')"
    show ?thesis
    proof (cases rows)
      case Nil
      then show ?thesis using u i by (auto simp: update_processing_Inr upd_none ret_def)
    next
      case (Cons row rest)
      from i Cons have w: "insert_attempt P (planned_row a p key b now) s1 = (Inr [planned_row a p key b now], s')"
        by (auto simp: bind_eq_Inr select_processing_def asks_def ret_def insert_attempt_def split: if_splits)
      have c: "map (set_planned d q b x y z now) (filter ?m (db_processing s)) = row # rest"
        "list_all (processing_checks P) (map (set_planned d q b x y z now) (filter ?m (db_processing s)))"
        and s1: "s1 = s\<lparr>db_processing := upd ?m (set_planned d q b x y z now) (db_processing s)\<rparr>"
        using u Cons by (auto simp: update_processing_Inr)
      obtain r where r: "r \<in> set (db_processing s)" "?m r"
        using map_eq_Cons_filter [OF c(1)] by blast
      have "plan_written P p d q b a key now s s'"
        unfolding plan_written_def
        by (rule exI [of _ x], rule exI [of _ y], rule exI [of _ z], rule exI [of _ r], rule exI [of _ s1])
          (use j c(2) s1 r w in simp)
      with True show ?thesis by blast
    qed
  qed simp
qed

lemma plan_evolved:
  assumes ok: "pg_ok P s" and tr: "tr ACCEPTED PLANNED"
  shows "evolved P tr s (snd (pg_store_plan P p d i q b a key now s))"
proof -
  obtain r s' where e: "pg_store_plan P p d i q b a key now s = (r, s')" by fastforce
  have "evolved P tr s s'" if w: "plan_written P p d q b a key now s s'"
  proof -
    from w obtain x y z s1 where
      c: "list_all (processing_checks P) (map (set_planned d q b x y z now) (filter (\<lambda>r. rw_id r = p \<and> rw_state r = S ''accepted'') (db_processing s)))"
      and s1: "s1 = s\<lparr>db_processing := upd (\<lambda>r. rw_id r = p \<and> rw_state r = S ''accepted'') (set_planned d q b x y z now) (db_processing s)\<rparr>"
      and i: "insert_attempt P (planned_row a p key b now) s1 = (Inr [planned_row a p key b now], s')"
      unfolding plan_written_def by blast
    have "moved_by tr r (set_planned d q b x y z now r)" if "rw_state r = S ''accepted''" for r
      using that tr by (auto simp: pg_sets intro: moved_byI [of tr ACCEPTED PLANNED])
    with c have "evolved P tr s s1"
      unfolding s1 by (intro evolved_processing [OF ok]) (simp_all add: pg_sets same_record_def)
    with i show ?thesis
      using evolved_insert_attempt [of P tr s s1 "planned_row a p key b now"]
      by (auto simp: insert_attempt_def split: if_splits)
  qed
  with plan_effect [OF e] ok show ?thesis by (auto simp: e)
qed

section \<open>The laws of the interface\<close>

definition pg_att_state :: "pg_store \<Rightarrow> uuid \<Rightarrow> attempt_state option" where
  "pg_att_state s a =
     (case pg_attempt s a of None \<Rightarrow> None
      | Some t \<Rightarrow> (case attempt_state_of (ta_state t) of Inr st \<Rightarrow> Some st | Inl _ \<Rightarrow> None))"

definition pg_rec_state :: "pg_store \<Rightarrow> uuid \<Rightarrow> processing_state option" where
  "pg_rec_state s p =
     (case pg_processing s p of None \<Rightarrow> None
      | Some r \<Rightarrow> (case processing_state_of (rw_state r) of Inr st \<Rightarrow> Some st | Inl _ \<Rightarrow> None))"

lemma pg_rec_state_Some:
  "pg_rec_state s p = Some st \<longleftrightarrow> (\<exists>r. pg_processing s p = Some r \<and> rw_state r = processing_state_value st)"
  by (auto simp: pg_rec_state_def split: option.splits sum.splits)

lemma pg_att_state_Some:
  "pg_att_state s a = Some st \<longleftrightarrow> (\<exists>t. pg_attempt s a = Some t \<and> ta_state t = attempt_state_value st)"
  by (auto simp: pg_att_state_def split: option.splits sum.splits)

lemma attempt_value_planned [simp]: "attempt_state_value st = S ''planned'' \<longleftrightarrow> st = A_PLANNED"
  by (cases st) simp_all

lemma attempt_states_checked:
  assumes "attempt_checks P t"
  shows "\<exists>st. ta_state t = attempt_state_value st"
proof -
  have "ta_state t \<in> attempt_state_value ` {A_PLANNED, A_SUBMITTING, A_SUBMITTED, A_COMPLETED, A_FAILED, A_RECOVERY_REQUIRED}"
    using assms by (auto simp: attempt_checks_def sql_in_def)
  then show ?thesis by blast
qed

lemma processing_states_checked:
  assumes "processing_checks P r"
  shows "\<exists>st. rw_state r = processing_state_value st"
proof -
  have "rw_state r \<in> processing_state_value ` set processing_states"
    using assms by (auto simp: processing_checks_def ck_state_def sql_in_def processing_states_sql_def processing_states_def)
  then show ?thesis by blast
qed

lemma pg_found:
  "pg_processing s p = Some r \<Longrightarrow> r \<in> set (db_processing s) \<and> rw_id r = p"
  "pg_attempt s a = Some t \<Longrightarrow> t \<in> set (db_attempts s) \<and> ta_attempt_id t = a"
  by (auto simp: pg_processing_def pg_attempt_def dest: find_holds)

lemma pg_find:
  "pg_ok P s \<Longrightarrow> r \<in> set (db_processing s) \<Longrightarrow> pg_processing s (rw_id r) = Some r"
  "pg_ok P s \<Longrightarrow> t \<in> set (db_attempts s) \<Longrightarrow> pg_attempt s (ta_attempt_id t) = Some t"
  by (auto simp: pg_ok_def pg_processing_def pg_attempt_def processing_table_ok_def attempt_table_ok_def find_distinct)

lemma exec_evolved:
  assumes "pg_ok P s"
  shows "evolved P (\<lambda>a b. op_safe c \<longrightarrow> processing_transition_allowed a b) s (exec_op (postgres_repository P) c now s)"
proof (cases c)
  case (Op_fail p es cat det aid)
  then show ?thesis
    using fail_evolved [OF assms, of es "\<lambda>a b. op_safe c \<longrightarrow> processing_transition_allowed a b"]
    by (auto simp: postgres_repository_def processing_transition_allowed_def split: option.splits;
        metis allowed_processing_transitions.simps insertCI processing_state.exhaust)
qed (simp_all add: postgres_repository_def assms accept_evolved no_action_evolved plan_evolved claim_evolved submitted_evolved
  poll_evolved complete_evolved recovery_evolved processing_transition_allowed_def)

lemma evolved_states:
  assumes "evolved P tr s s'"
  shows "pg_rec_state s p = Some st \<Longrightarrow> \<exists>st'. pg_rec_state s' p = Some st' \<and> (st' = st \<or> tr st st')"
    and "pg_ok P s \<Longrightarrow> pg_att_state s a = Some ast \<Longrightarrow> ast \<noteq> A_PLANNED \<Longrightarrow>
      \<exists>ast'. pg_att_state s' a = Some ast' \<and> ast' \<noteq> A_PLANNED"
proof -
  show "\<exists>st'. pg_rec_state s' p = Some st' \<and> (st' = st \<or> tr st st')" if st: "pg_rec_state s p = Some st"
  proof -
    obtain r where r: "pg_processing s p = Some r" "rw_state r = processing_state_value st"
      using st by (auto simp: pg_rec_state_Some)
    then obtain q where q: "pg_processing s' p = Some q" "moved_by tr r q"
      using assms by (auto simp: evolved_def records_evolve_def)
    then show ?thesis using r by (auto simp: pg_rec_state_Some moved_by_def)
  qed
  show "\<exists>ast'. pg_att_state s' a = Some ast' \<and> ast' \<noteq> A_PLANNED" if st: "pg_att_state s a = Some ast" "ast \<noteq> A_PLANNED"
  proof -
    obtain t where t: "pg_attempt s a = Some t" "ta_state t = attempt_state_value ast"
      using st by (auto simp: pg_att_state_Some)
    have "ta_state t \<noteq> S ''planned''" using t(2) st(2) by simp
    then obtain q where q: "pg_attempt s' a = Some q" "ta_state q \<noteq> S ''planned''"
      using assms t(1) unfolding evolved_def attempts_evolve_def by blast
    have "attempt_checks P q"
      using assms pg_found(2) [OF q(1)] by (auto simp: evolved_def pg_ok_def attempt_table_ok_def list_all_iff)
    with q show ?thesis using attempt_states_checked [of P q] by (auto simp: pg_att_state_Some)
  qed
qed

lemma step_Some:
  assumes "pg_attempt_step P a state texts f g s = (Inr (Some x), s')"
  shows "\<exists>t q. pair_written P (\<lambda>t. ta_attempt_id t = a \<and> ta_state t = state) f {state} g s (f t, g q) s'
    \<and> deserialize_attempt (f t) = Inr x"
proof -
  obtain w s1 where w: "transaction (bind (lift (send_texts P texts)) (\<lambda>_.
      update_pair P (\<lambda>t. ta_attempt_id t = a \<and> ta_state t = state) f {state} (Inr g))) s = (Inr w, s1)"
    "read_row deserialize_attempt (map_option fst w) s1 = (Inr (Some x), s')"
    using assms unfolding pg_attempt_step_def bind_eq_Inr by blast
  then have u: "update_pair P (\<lambda>t. ta_attempt_id t = a \<and> ta_state t = state) f {state} (Inr g) s = (Inr w, s1)"
    by (auto simp: transaction_cases bind_eq_Inr lift_def)
  from w(2) obtain y where y: "w = Some y" "deserialize_attempt (fst y) = Inr x" "s' = s1"
    by (auto simp: read_row_def ret_def lift_def and_then_Inr split: option.splits)
  from update_pair_Inr [OF u] y(1) have p: "pair_written P (\<lambda>t. ta_attempt_id t = a \<and> ta_state t = state) f {state} g s y s1"
    by simp
  then obtain t q where "y = (f t, g q)" by (auto simp: pair_written_def)
  with p y show ?thesis by auto
qed

lemma claim_success_pg:
  assumes "pg_claim_attempt_for_submission P a now s = (Inr (Some x), s')" "pg_ok P s"
  shows "pg_att_state s a = Some A_PLANNED \<and> pg_att_state s' a = Some A_SUBMITTING \<and> at_attempt_id x = a
    \<and> pg_rec_state s' (at_processing_id x) = Some SUBMITTING"
proof -
  let ?f = "attempt_submitting now" and ?g = "set_state (S ''submitting'') now"
  obtain t q where w: "pair_written P (\<lambda>t. ta_attempt_id t = a \<and> ta_state t = S ''planned'') ?f {S ''planned''} ?g s (?f t, ?g q) s'"
    "deserialize_attempt (?f t) = Inr x"
    using step_Some [OF assms(1) [unfolded pg_claim_attempt_for_submission_def]] by blast
  moreover have "ta_processing_id (?f t) = ta_processing_id t" for t by (simp add: attempt_submitting_def)
  ultimately obtain t' q' where t': "t' \<in> set (db_attempts s)" "ta_attempt_id t' = a" "ta_state t' = S ''planned''"
    "q' \<in> set (db_processing s)" "rw_id q' = ta_processing_id t'" "rw_state q' = S ''planned''" "?f t = ?f t'"
    "s' = s\<lparr>db_attempts := upd (\<lambda>t. ta_attempt_id t = a \<and> ta_state t = S ''planned'') ?f (db_attempts s),
       db_processing := upd (\<lambda>r. rw_id r = ta_processing_id t' \<and> rw_state r = S ''planned'') ?g (db_processing s)\<rparr>"
    by (auto simp: pair_written_def)
  from w(2) have "deserialize_attempt (?f t') = Inr x" by (simp only: t'(7))
  from deserialize_attempt_parts [OF this]
  have d: "at_attempt_id x = a" "at_processing_id x = ta_processing_id t'"
    using t'(2) by (auto simp: pg_sets)
  have "pg_attempt s a = Some t'" "pg_processing s (ta_processing_id t') = Some q'"
    using pg_find(2) [OF assms(2) t'(1)] pg_find(1) [OF assms(2) t'(4)] t'(2,5) by simp_all
  then show ?thesis
    using t'(2,3,5,6) d
    by (auto simp: t'(8) pg_att_state_Some pg_rec_state_Some pg_attempt_def pg_processing_def find_upd pg_sets)
qed

lemma accept_replay_pg:
  assumes "pg_accept_processing P p al sc k v d now s = (Inr acc, s')" "\<not> pa_created acc"
  shows "s' = s"
  using assms
  by (auto simp: pg_accept_processing_def bind_eq_Inr transaction_cases lift_def insert_processing_def
      select_idempotency_def asks_def raise_def ret_def split: if_splits list.splits option.splits)

lemma sort_keys_set: "set (order_rows rs) = set rs" "length (order_rows rs) = length rs"
  by (simp_all add: order_rows_def)

lemma join_attempts_fst: "j \<in> set (join_attempts ts r) \<Longrightarrow> fst j = r"
  by (auto simp: join_attempts_def split: list.splits)

lemma list_all2_member: "list_all2 R xs ys \<Longrightarrow> y \<in> set ys \<Longrightarrow> \<exists>x \<in> set xs. R x y"
  by (induction rule: list_all2_induct) auto

lemma found_pg:
  assumes ok: "pg_ok P s" and f: "pg_find_reconcilable P n before now s = (Inr rs, s')"
  shows "int (length rs) \<le> n \<and> (\<forall>r \<in> set rs. pg_rec_state s (pr_processing_id r) = Some (pr_state r)
    \<and> pr_state r \<in> {ACCEPTED, PLANNED, SUBMITTING, SUBMITTED})"
proof -
  let ?sel = "map fst (filter (reconcilable_row P before) (concat (map (join_attempts (db_attempts s)) (db_processing s))))"
  have n: "1 \<le> n" and t: "traverse deserialize_processing (take (nat n) (order_rows ?sel)) = Inr rs"
    using f by (auto simp: pg_find_reconcilable_def raise_def bind_def asks_def lift_def split: if_splits sum.splits)
  from t have l: "list_all2 (\<lambda>x y. deserialize_processing x = Inr y) (take (nat n) (order_rows ?sel)) rs"
    by (simp add: traverse_Inr_iff)
  have "pg_rec_state s (pr_processing_id r) = Some (pr_state r) \<and> pr_state r \<in> {ACCEPTED, PLANNED, SUBMITTING, SUBMITTED}"
    if "r \<in> set rs" for r
  proof -
    obtain x where x: "x \<in> set (take (nat n) (order_rows ?sel))" "deserialize_processing x = Inr r"
      using list_all2_member [OF l \<open>r \<in> set rs\<close>] by blast
    have "x \<in> set ?sel" using in_set_takeD [OF x(1)] by (simp only: sort_keys_set(1))
    then obtain j q where j: "x = fst j" "reconcilable_row P before j" "q \<in> set (db_processing s)"
      "j \<in> set (join_attempts (db_attempts s) q)"
      by auto
    note q = join_attempts_fst [OF j(4)]
    from deserialize_processing_parts [OF x(2)] have r: "pr_processing_id r = rw_id x" "rw_state x = processing_state_value (pr_state r)"
      by blast+
    have "pr_state r \<in> {ACCEPTED, PLANNED, SUBMITTING, SUBMITTED}"
      using j(1,2) r(2) by (cases "pr_state r") (auto simp: reconcilable_row_def)
    with pg_find(1) [OF ok j(3)] r j(1) q show ?thesis by (simp add: pg_rec_state_Some)
  qed
  moreover have "int (length rs) \<le> n" using list_all2_lengthD [OF l] n by simp
  ultimately show ?thesis by blast
qed

interpretation postgres: processing_repository "postgres_repository P" "pg_ok P" pg_att_state pg_rec_state for P
proof unfold_locales
  fix s c now assume ok: "pg_ok P s"
  note e = exec_evolved [OF ok, of c now]
  show "pg_ok P (exec_op (postgres_repository P) c now s)" using e by (simp add: evolved_def)
  show "\<exists>st'. pg_att_state (exec_op (postgres_repository P) c now s) a = Some st' \<and> st' \<noteq> A_PLANNED"
    if "pg_att_state s a = Some st" "st \<noteq> A_PLANNED" for a st
    using evolved_states(2) [OF e ok that] .
  show "\<exists>ps'. pg_rec_state (exec_op (postgres_repository P) c now s) p = Some ps' \<and> (ps' = ps \<or> processing_transition_allowed ps ps')"
    if "op_safe c" "pg_rec_state s p = Some ps" for p ps
    using evolved_states(1) [OF e that(2)] that(1) by blast
next
  fix s a now x s'
  assume "pg_ok P s" "rp_claim_attempt_for_submission (postgres_repository P) a now s = (Inr (Some x), s')"
  then show "pg_att_state s a = Some A_PLANNED \<and> pg_att_state s' a = Some A_SUBMITTING \<and> at_attempt_id x = a
      \<and> pg_rec_state s' (at_processing_id x) = Some SUBMITTING"
    using claim_success_pg by (simp add: postgres_repository_def)
next
  fix s n before now rs s'
  assume "pg_ok P s" "rp_find_reconcilable (postgres_repository P) n before now s = (Inr rs, s')"
  then show "int (length rs) \<le> n \<and> (\<forall>r \<in> set rs. pg_rec_state s (pr_processing_id r) = Some (pr_state r)
      \<and> pr_state r \<in> {ACCEPTED, PLANNED, SUBMITTING, SUBMITTED})"
    unfolding postgres_repository_def repository.select_convs by (rule found_pg)
qed (auto simp: postgres_repository_def accept_replay_pg pg_get_def pg_get_by_idempotency_def
    pg_get_attempt_def pg_get_attempt_for_processing_def pg_find_reconcilable_def pg_check_readiness_def
    select_processing_def select_idempotency_def select_attempt_def select_processing_attempt_def transaction_def
    bind_def asks_def lift_def raise_def split: sum.split)

end
