(* ===== verification/PostgresSync.thy ===== *)
theory PostgresSync
  imports PostgresProps
begin

text \<open>
  Attempts and records stay in step in PostgreSQL: the two updates of an operation are one
  transaction, so no clock and no failure can separate them. In a store that is in step no
  operation ends in "states diverged", with the exception of a failure that lost a race.
\<close>

section \<open>In step\<close>

definition active_texts :: "ustring set" where
  "active_texts = {S ''planned'', S ''submitting'', S ''submitted'', S ''recovery_required''}"

definition pg_synced :: "pg_store \<Rightarrow> bool" where
  "pg_synced s \<longleftrightarrow>
     distinct (map ta_processing_id (db_attempts s))
     \<and> (\<forall>t \<in> set (db_attempts s). \<forall>r \<in> set (db_processing s). rw_id r = ta_processing_id t \<longrightarrow> ta_state t = rw_state r)
     \<and> (\<forall>r \<in> set (db_processing s). rw_state r \<in> active_texts \<longrightarrow>
          (\<exists>t \<in> set (db_attempts s). ta_processing_id t = rw_id r))"

lemma pg_synced_empty: "pg_synced pg_empty"
  by (simp add: pg_synced_def pg_empty_def)

lemma active_row_texts: "active_row t \<longleftrightarrow> ta_state t \<in> active_texts"
  by (simp add: active_row_def active_texts_def)

lemma same_processing_attempt:
  "distinct (map ta_processing_id ts) \<Longrightarrow> t \<in> set ts \<Longrightarrow> u \<in> set ts \<Longrightarrow> ta_processing_id t = ta_processing_id u \<Longrightarrow> t = u"
  by (simp add: distinct_map inj_on_def)

lemma same_id_row:
  "pg_ok P s \<Longrightarrow> r \<in> set (db_processing s) \<Longrightarrow> q \<in> set (db_processing s) \<Longrightarrow> rw_id r = rw_id q \<Longrightarrow> r = q"
  by (simp add: pg_ok_def processing_table_ok_def distinct_map inj_on_def)

lemma same_id_attempt:
  "pg_ok P s \<Longrightarrow> t \<in> set (db_attempts s) \<Longrightarrow> u \<in> set (db_attempts s) \<Longrightarrow> ta_attempt_id t = ta_attempt_id u \<Longrightarrow> t = u"
  by (simp add: pg_ok_def attempt_table_ok_def distinct_map inj_on_def)

text \<open>A pair of updates that gives both rows the same state, or leaves both states alone.\<close>

lemma pair_synced:
  assumes ok: "pg_ok P s" and sy: "pg_synced s" and w: "pair_written P m f states g s w s'"
    and m: "\<And>t. m t \<Longrightarrow> ta_attempt_id t = a"
    and same: "\<And>t. same_attempt t (f t)" "\<And>r. same_record r (g r)"
    and eq: "(\<forall>t r. ta_state (f t) = ta_state t \<and> rw_state (g r) = rw_state r) \<or> (\<forall>t r. ta_state (f t) = rw_state (g r))"
  shows "pg_synced s'"
proof -
  obtain t q where t: "t \<in> set (db_attempts s)" "m t" and q: "q \<in> set (db_processing s)" "rw_id q = ta_processing_id t"
    "rw_state q \<in> states"
    and s': "s' = s\<lparr>db_attempts := upd m f (db_attempts s),
      db_processing := upd (\<lambda>r. rw_id r = ta_processing_id t \<and> rw_state r \<in> states) g (db_processing s)\<rparr>"
    using w same(1) by (auto simp: pair_written_def same_attempt_def)
  let ?k = "\<lambda>r. rw_id r = ta_processing_id t \<and> rw_state r \<in> states"
  have only_t: "u = t" if "u \<in> set (db_attempts s)" "m u" for u
    using same_id_attempt [OF ok that(1) t(1)] m [OF that(2)] m [OF t(2)] by simp
  have only_q: "r = q" if "r \<in> set (db_processing s)" "rw_id r = ta_processing_id t" for r
    using same_id_row [OF ok that(1) q(1)] that(2) q(2) by simp
  have ids: "ta_processing_id (f u) = ta_processing_id u" "rw_id (g r) = rw_id r" for u r
    using same(1) [of u] same(2) [of r] by (simp_all add: same_attempt_def same_record_def)
  have match: "ta_state u = rw_state r" if "u \<in> set (db_attempts s)" "r \<in> set (db_processing s)" "rw_id r = ta_processing_id u" for u r
    using sy that by (simp add: pg_synced_def)
  have "ta_state u' = rw_state r'" if "u' \<in> set (upd m f (db_attempts s))" "r' \<in> set (upd ?k g (db_processing s))"
    "rw_id r' = ta_processing_id u'" for u' r'
  proof -
    from that(1) obtain u where u: "u \<in> set (db_attempts s)" "u' = (if m u then f u else u)" by (auto simp: upd_def)
    from that(2) obtain r where r: "r \<in> set (db_processing s)" "r' = (if ?k r then g r else r)" by (auto simp: upd_def)
    have id: "rw_id r = ta_processing_id u" using that(3) u(2) r(2) ids by (auto split: if_splits)
    show ?thesis
    proof (cases "u = t")
      case True
      with id have "r = q" using only_q r(1) by simp
      with True u(2) r(2) t(2) q(2,3) have "u' = f t" "r' = g q" by simp_all
      with eq match [OF t(1) q(1) q(2)] show ?thesis by auto
    next
      case False
      then have "\<not> m u" using only_t u(1) by blast
      moreover have "\<not> ?k r"
        using False same_processing_attempt [OF _ u(1) t(1)] id sy by (auto simp: pg_synced_def)
      ultimately have "u' = u" "r' = r" using u(2) r(2) by (simp_all only: if_False)
      with match [OF u(1) r(1) id] show ?thesis by simp
    qed
  qed
  moreover have "\<exists>u' \<in> set (upd m f (db_attempts s)). ta_processing_id u' = rw_id r'"
    if "r' \<in> set (upd ?k g (db_processing s))" "rw_state r' \<in> active_texts" for r'
  proof -
    from that(1) obtain r where r: "r \<in> set (db_processing s)" "r' = (if ?k r then g r else r)" by (auto simp: upd_def)
    have "\<exists>u \<in> set (db_attempts s). ta_processing_id u = rw_id r"
    proof (cases "?k r")
      case True
      with t(1) show ?thesis by auto
    next
      case False
      then have "r' = r" using r(2) by (simp only: if_False)
      with r(1) that(2) sy show ?thesis by (simp add: pg_synced_def)
    qed
    then obtain u where u: "u \<in> set (db_attempts s)" "ta_processing_id u = rw_id r" by blast
    then have "(if m u then f u else u) \<in> set (upd m f (db_attempts s))" by (auto simp: upd_def)
    moreover have "ta_processing_id (if m u then f u else u) = rw_id r'" using u(2) r(2) ids by simp
    ultimately show ?thesis by blast
  qed
  moreover have "distinct (map ta_processing_id (upd m f (db_attempts s)))"
    using sy by (simp add: map_upd ids pg_synced_def)
  ultimately show ?thesis unfolding pg_synced_def s' by simp
qed

text \<open>The effect of a transaction around a pair of updates, and around an UPDATE of records.\<close>

lemma tx_pair_effect:
  assumes "bind (transaction (bind (lift c) (\<lambda>_. bind (update_pair P m f states next) (\<lambda>w. ret (h w))))) k s = (r, s')"
    and "\<And>x w. snd (k x w) = w"
  shows "s' = s \<or> (\<exists>g w. next = Inr g \<and> pair_written P m f states g s w s')"
proof -
  from tx_state [OF assms] consider "s' = s" | x where
    "bind (lift c) (\<lambda>_. bind (update_pair P m f states next) (\<lambda>w. ret (h w))) s = (Inr x, s')"
    by blast
  then show ?thesis
  proof cases
    case 2
    then obtain w where "update_pair P m f states next s = (Inr w, s')"
      by (auto simp: bind_eq_Inr lift_def ret_def)
    from update_pair_Inr [OF this] show ?thesis by blast
  qed simp
qed

lemmas tx_update_effect = tx_pair_effect [where h = "\<lambda>w. w", unfolded bind_simps(3)]
lemmas tx_plain_effect = tx_update_effect [where c = "Inr ()", unfolded lift_Inr]

lemma step_effect:
  assumes "pg_attempt_step P a state texts f g s = (r, s')"
  shows "s' = s \<or> (\<exists>w. pair_written P (\<lambda>t. ta_attempt_id t = a \<and> ta_state t = state) f {state} g s w s')"
  using tx_update_effect [OF assms [unfolded pg_attempt_step_def]] by auto

lemma claim_stays_synced:
  assumes "pg_ok P s" "pg_synced s"
  shows "pg_synced (snd (pg_claim_attempt_for_submission P a now s))"
proof -
  obtain r s' where e: "pg_claim_attempt_for_submission P a now s = (r, s')" by fastforce
  have "pg_synced s'"
    using step_effect [OF e [unfolded pg_claim_attempt_for_submission_def]] pair_synced [OF assms] assms(2)
    by (fastforce simp: pg_sets same_attempt_def same_record_def)
  then show ?thesis by (simp add: e)
qed

lemma submitted_stays_synced:
  assumes "pg_ok P s" "pg_synced s"
  shows "pg_synced (snd (pg_mark_attempt_submitted P a x now s))"
proof -
  obtain r s' where e: "pg_mark_attempt_submitted P a x now s = (r, s')" by fastforce
  have "pg_synced s'"
    using step_effect [OF e [unfolded pg_mark_attempt_submitted_def]] pair_synced [OF assms] assms(2)
    by (fastforce simp: pg_sets same_attempt_def same_record_def)
  then show ?thesis by (simp add: e)
qed

lemma poll_stays_synced:
  assumes "pg_ok P s" "pg_synced s"
  shows "pg_synced (snd (pg_record_poll P a st c d now s))"
proof (cases "check_poll_error c d")
  case (Inl e)
  then show ?thesis using assms(2) by (simp add: pg_record_poll_def bind_def lift_def)
next
  case (Inr u)
  obtain r s' where e: "pg_attempt_step P a (S ''submitted'') [Some st, c, d]
      (attempt_polled st c d now) (set_polled c d now) s = (r, s')" by fastforce
  have "pg_synced s'"
    using step_effect [OF e] pair_synced [OF assms] assms(2)
    by (fastforce simp: pg_sets same_attempt_def same_record_def)
  then show ?thesis using Inr e by (simp add: pg_record_poll_def bind_def lift_def)
qed

lemma recovery_stays_synced:
  assumes "pg_ok P s" "pg_synced s"
  shows "pg_synced (snd (pg_mark_recovery_required P a es c d now s))"
proof (cases "validate_error c d = Inr () \<and> es \<noteq> {} \<and> es \<subseteq> {A_SUBMITTING, A_SUBMITTED}")
  case False
  then show ?thesis using assms(2)
    by (cases "validate_error c d") (auto simp: pg_mark_recovery_required_def bind_def lift_def raise_def)
next
  case True
  then have v: "validate_error c d = Inr ()" "(es = {} \<or> \<not> es \<subseteq> {A_SUBMITTING, A_SUBMITTED}) = False" by auto
  obtain r s' where e: "pg_mark_recovery_required P a es c d now s = (r, s')" by fastforce
  have "pg_synced s'"
    using tx_update_effect [OF e [unfolded pg_mark_recovery_required_def v lift_Inr if_False]] pair_synced [OF assms] assms(2)
    by (fastforce simp: pg_sets same_attempt_def same_record_def)
  then show ?thesis by (simp add: e)
qed

lemma complete_effect:
  assumes "pg_complete_processing P a res now s = (r, s')"
  shows "s' = s \<or> (\<exists>x capabilities evidence w. or_investigation_result res = Some x
    \<and> pair_written P (\<lambda>t. ta_attempt_id t = a \<and> ta_state t = S ''submitted'') (attempt_completed now) {S ''submitted''}
        (set_completed x capabilities evidence now) s w s')"
proof (cases "or_investigation_result res = None \<or> de_outcome (or_decision res) \<noteq> INVESTIGATE")
  case True
  then show ?thesis using assms by (auto simp: pg_complete_processing_def raise_def split: option.splits)
next
  case False
  then obtain x where x: "or_investigation_result res = Some x" "de_outcome (or_decision res) = INVESTIGATE"
    by (cases "de_outcome (or_decision res)") auto
  have "s' = s \<or> (\<exists>g w. and_then (send_texts P [Some (rs_backend x)]) (\<lambda>_.
      and_then (pg_jsonb P (encode_strings (rs_completed_capabilities x))) (\<lambda>capabilities.
      and_then (pg_jsonb P (encode_evidence (rs_evidence x))) (\<lambda>evidence.
      Inr (set_completed x capabilities evidence now)))) = Inr g
    \<and> pair_written P (\<lambda>t. ta_attempt_id t = a \<and> ta_state t = S ''submitted'') (attempt_completed now) {S ''submitted''} g s w s')"
    by (rule tx_plain_effect [OF assms [unfolded pg_complete_processing_def x option.case, simplified]])
      (auto simp: bind_def lift_def ret_def raise_def split: option.split sum.split)
  with x(1) show ?thesis by (auto simp: and_then_Inr)
qed

lemma complete_stays_synced:
  assumes "pg_ok P s" "pg_synced s"
  shows "pg_synced (snd (pg_complete_processing P a res now s))"
proof -
  obtain r s' where e: "pg_complete_processing P a res now s = (r, s')" by fastforce
  have "pg_synced s'"
    using complete_effect [OF e] pair_synced [OF assms] assms(2)
    by (fastforce simp: pg_sets same_attempt_def same_record_def)
  then show ?thesis by (simp add: e)
qed

text \<open>Records in ACCEPTED have no attempt, so an UPDATE of these alone takes nothing out of step.\<close>

lemma no_attempt_of_accepted:
  assumes "pg_ok P s" "pg_synced s" "r \<in> set (db_processing s)" "rw_state r = S ''accepted''" "t \<in> set (db_attempts s)"
  shows "ta_processing_id t \<noteq> rw_id r"
proof
  assume "ta_processing_id t = rw_id r"
  with assms have "ta_state t = S ''accepted''" by (simp add: pg_synced_def)
  moreover have "attempt_checks P t"
    using assms(1,5) by (simp add: pg_ok_def attempt_table_ok_def list_all_iff)
  ultimately show False by (simp add: attempt_checks_def sql_in_def)
qed

lemma accepted_synced:
  assumes ok: "pg_ok P s" and sy: "pg_synced s" and m: "\<And>r. m r \<Longrightarrow> rw_state r = S ''accepted''"
    and g: "\<And>r. same_record r (g r)" "\<And>r. rw_state (g r) \<notin> active_texts"
  shows "pg_synced (s\<lparr>db_processing := upd m g (db_processing s)\<rparr>)"
proof -
  have id: "rw_id (g r) = rw_id r" for r using g(1) [of r] by (simp add: same_record_def)
  have "ta_state t = rw_state r'" if "t \<in> set (db_attempts s)" "r' \<in> set (upd m g (db_processing s))"
    "rw_id r' = ta_processing_id t" for t r'
  proof -
    from that(2) obtain r where r: "r \<in> set (db_processing s)" "r' = (if m r then g r else r)" by (auto simp: upd_def)
    with that(3) id have "rw_id r = ta_processing_id t" by (auto split: if_splits)
    moreover from this have "\<not> m r" using no_attempt_of_accepted [OF ok sy r(1) m that(1)] by auto
    ultimately show ?thesis using r sy that(1) by (simp add: pg_synced_def)
  qed
  moreover have "\<exists>t \<in> set (db_attempts s). ta_processing_id t = rw_id r'"
    if "r' \<in> set (upd m g (db_processing s))" "rw_state r' \<in> active_texts" for r'
  proof -
    have "r' \<in> set (db_processing s)" using set_upd [OF that(1)] that(2) g(2) by auto
    with that(2) sy show ?thesis by (simp add: pg_synced_def)
  qed
  ultimately show ?thesis using sy by (simp add: pg_synced_def)
qed

lemma tx_processing_effect:
  assumes "bind (transaction (bind (lift c) (\<lambda>x. bind (update_processing P m (g x)) (\<lambda>rows. ret (h rows))))) k s = (r, s')"
    and "\<And>x w. snd (k x w) = w"
  shows "s' = s \<or> (\<exists>x. c = Inr x \<and> s' = s\<lparr>db_processing := upd m (g x) (db_processing s)\<rparr>)"
proof -
  from tx_state [OF assms] consider "s' = s" | z where
    "bind (lift c) (\<lambda>x. bind (update_processing P m (g x)) (\<lambda>rows. ret (h rows))) s = (Inr z, s')"
    by blast
  then show ?thesis
    by cases (auto simp: bind_eq_Inr lift_def ret_def update_processing_Inr)
qed

lemma no_action_stays_synced:
  assumes "pg_ok P s" "pg_synced s"
  shows "pg_synced (snd (pg_store_no_action_result P p res now s))"
proof (cases "de_outcome (or_decision res) = NO_ACTION")
  case False
  then show ?thesis using assms(2) by (simp add: pg_store_no_action_result_def Let_def raise_def)
next
  case True
  obtain r s' where e: "pg_store_no_action_result P p res now s = (r, s')" by fastforce
  have "s' = s \<or> (\<exists>x. s' = s\<lparr>db_processing := upd (\<lambda>r. rw_id r = p \<and> rw_state r = S ''accepted'')
      (set_no_action (or_decision res) x now) (db_processing s)\<rparr>)"
    using tx_processing_effect [OF e [unfolded pg_store_no_action_result_def Let_def lift_and_then case_prod_unfold,
        simplified True, simplified]] by auto
  then have "pg_synced s'"
    using accepted_synced [OF assms] assms(2) by (fastforce simp: pg_sets same_record_def active_texts_def)
  then show ?thesis by (simp add: e)
qed

lemma fail_stays_synced:
  assumes "pg_ok P s" "pg_synced s" "aid = None \<Longrightarrow> es \<subseteq> {ACCEPTED}"
  shows "pg_synced (snd (pg_fail_processing P p es c d aid now s))"
proof (cases "validate_error c d = Inr () \<and> es \<noteq> {}")
  case False
  then show ?thesis using assms(2)
    by (cases "validate_error c d") (auto simp: pg_fail_processing_def bind_def lift_def raise_def)
next
  case True
  then have v: "validate_error c d = Inr ()" "(es = {}) = False" by auto
  obtain r s' where e: "pg_fail_processing P p es c d aid now s = (r, s')" by fastforce
  note e' = e [unfolded pg_fail_processing_def v lift_Inr if_False Let_def]
  have "pg_synced s'"
  proof (cases aid)
    case None
    have "s' = s \<or> s' = s\<lparr>db_processing := upd (\<lambda>r. rw_id r = p \<and> rw_state r \<in> processing_state_value ` es)
        (set_failed c d now) (db_processing s)\<rparr>"
      using tx_processing_effect [OF e' [unfolded None option.case]] by auto
    moreover have "pg_synced (s\<lparr>db_processing := upd (\<lambda>r. rw_id r = p \<and> rw_state r \<in> processing_state_value ` es)
        (set_failed c d now) (db_processing s)\<rparr>)"
      using assms(3) [OF None] by (intro accepted_synced [OF assms(1,2)]) (auto simp: pg_sets same_record_def active_texts_def)
    ultimately show ?thesis using assms(2) by auto
  next
    case (Some a)
    show ?thesis
      using tx_pair_effect [OF e' [unfolded Some option.case]] pair_synced [OF assms(1,2), where a = a] assms(2)
      by (fastforce simp: pg_sets same_attempt_def same_record_def)
  qed
  then show ?thesis by (simp add: e)
qed

lemma accept_stays_synced:
  assumes ok: "pg_ok P s" and sy: "pg_synced s"
  shows "pg_synced (snd (pg_accept_processing P p al sc k v d now s))"
proof -
  obtain r s' where e: "pg_accept_processing P p al sc k v d now s = (r, s')" by fastforce
  have "pg_synced (s\<lparr>db_processing := db_processing s @ [r]\<rparr>)"
    if new: "rw_id r \<notin> rw_id ` set (db_processing s)" "rw_state r = S ''accepted''" for r
  proof -
    have "ta_processing_id t \<in> rw_id ` set (db_processing s)" if "t \<in> set (db_attempts s)" for t
      using that ok unfolding pg_ok_def by blast
    then have "\<forall>t \<in> set (db_attempts s). ta_processing_id t \<noteq> rw_id r"
      using new(1) by metis
    with sy new(2) show ?thesis by (auto simp: pg_synced_def active_texts_def)
  qed
  then have "pg_synced s'"
    using accept_effect [OF e] sy by (auto simp: canonical_row_def)
  then show ?thesis by (simp add: e)
qed

lemma plan_stays_synced:
  assumes ok: "pg_ok P s" and sy: "pg_synced s"
  shows "pg_synced (snd (pg_store_plan P p d i q b a key now s))"
proof -
  obtain r s' where e: "pg_store_plan P p d i q b a key now s = (r, s')" by fastforce
  have "pg_synced s'" if w: "plan_written P p d q b a key now s s'"
  proof -
    let ?m = "\<lambda>r. rw_id r = p \<and> rw_state r = S ''accepted''"
    from w obtain g r where r: "r \<in> set (db_processing s)" "rw_id r = p" "rw_state r = S ''accepted''"
      and s': "s' = s\<lparr>db_processing := upd ?m g (db_processing s), db_attempts := db_attempts s @ [planned_row a p key b now]\<rparr>"
      and g: "\<And>r. rw_id (g r) = rw_id r" "\<And>r. rw_state (g r) = S ''planned''"
      by (auto simp: plan_written_def insert_attempt_def set_planned_def split: if_splits)
    have new: "ta_processing_id (planned_row a p key b now) = p" "ta_state (planned_row a p key b now) = S ''planned''"
      by (simp_all add: planned_row_def)
    have old: "ta_processing_id t \<noteq> p" if "t \<in> set (db_attempts s)" for t
      using no_attempt_of_accepted [OF ok sy r(1,3) that] r(2) by simp
    have only: "x = r" if "x \<in> set (db_processing s)" "rw_id x = p" for x
      using same_id_row [OF ok that(1) r(1)] that(2) r(2) by simp
    have "ta_state t = rw_state x'" if "t \<in> set (db_attempts s')" "x' \<in> set (db_processing s')" "rw_id x' = ta_processing_id t" for t x'
    proof -
      from that(2) s' obtain x where x: "x \<in> set (db_processing s)" "x' = (if ?m x then g x else x)"
        by (auto simp: upd_def)
      then have id: "rw_id x = ta_processing_id t" using that(3) g(1) by (auto split: if_splits)
      show ?thesis
      proof (cases "t \<in> set (db_attempts s)")
        case True
        with old id x have "x' = x" by auto
        with True id x(1) sy show ?thesis by (simp add: pg_synced_def)
      next
        case False
        with that(1) s' have "t = planned_row a p key b now" by simp
        with id new only x r(3) g(2) show ?thesis by auto
      qed
    qed
    moreover have "\<exists>t \<in> set (db_attempts s'). ta_processing_id t = rw_id x'"
      if "x' \<in> set (db_processing s')" "rw_state x' \<in> active_texts" for x'
    proof -
      from that(1) s' obtain x where x: "x \<in> set (db_processing s)" "x' = (if ?m x then g x else x)"
        by (auto simp: upd_def)
      show ?thesis
      proof (cases "?m x")
        case True
        with x(2) g(1) new(1) s' show ?thesis by simp
      next
        case False
        with x(2) have "x' = x" by (simp only: if_False)
        with x(1) that(2) sy s' show ?thesis by (auto simp: pg_synced_def)
      qed
    qed
    ultimately show ?thesis using sy old new s' by (auto simp: pg_synced_def)
  qed
  with plan_effect [OF e] sy show ?thesis by (auto simp: e)
qed

lemma exec_stays_synced:
  assumes "pg_ok P s" "pg_synced s" "op_safe c"
  shows "pg_synced (exec_op (postgres_repository P) c now s)"
proof (cases c)
  case (Op_fail p es cat det aid)
  then have "aid = None \<Longrightarrow> es \<subseteq> {ACCEPTED}" using assms(3) by simp
  with Op_fail fail_stays_synced [OF assms(1,2)] show ?thesis by (simp add: postgres_repository_def)
qed (simp_all add: postgres_repository_def accept_stays_synced [OF assms(1,2)] no_action_stays_synced [OF assms(1,2)]
  plan_stays_synced [OF assms(1,2)] claim_stays_synced [OF assms(1,2)] submitted_stays_synced [OF assms(1,2)]
  poll_stays_synced [OF assms(1,2)] complete_stays_synced [OF assms(1,2)] recovery_stays_synced [OF assms(1,2)])

section \<open>No divergence\<close>

text \<open>What the driver raises is its own error or an encoding error, never a RuntimeError.\<close>

definition driver_errors :: "pgsql \<Rightarrow> bool" where
  "driver_errors P \<longleftrightarrow> (\<forall>s. pg_text P s \<noteq> Some RuntimeError) \<and> (\<forall>j. pg_jsonb P j \<noteq> Inl RuntimeError)
     \<and> (\<forall>t. pg_time P t \<noteq> Inl RuntimeError)"

definition no_runtime_error :: "exn + 'a \<Rightarrow> bool" where
  "no_runtime_error r \<longleftrightarrow> r \<noteq> Inl RuntimeError"

named_theorems quiet "computations that raise no RuntimeError"

lemma no_runtime_simps [quiet]:
  "no_runtime_error (Inr x)" "no_runtime_error (Inl ValueError)" "no_runtime_error (Inl AttributeError)"
  "no_runtime_error r \<Longrightarrow> (\<And>x. r = Inr x \<Longrightarrow> no_runtime_error (f x)) \<Longrightarrow> no_runtime_error (and_then r f)"
  "(b \<Longrightarrow> no_runtime_error r) \<Longrightarrow> (\<not> b \<Longrightarrow> no_runtime_error r') \<Longrightarrow> no_runtime_error (if b then r else r')"
  by (cases r; auto simp: no_runtime_error_def)+

lemma no_runtime_traverse [quiet]: "(\<And>x. no_runtime_error (f x)) \<Longrightarrow> no_runtime_error (traverse f xs)"
  by (induction xs) (auto intro: quiet)

lemma require_quiet [quiet]:
  "no_runtime_error (require_non_empty t)" "no_runtime_error (require_optional_non_empty ot)"
  "no_runtime_error (require_all_non_empty ts)"
  by (auto simp: require_non_empty_def require_optional_non_empty_def no_runtime_error_def split: option.split)
    (induction ts, auto simp: require_non_empty_def split: if_splits)

lemma constructors_quiet [quiet]:
  "no_runtime_error (mk_entity k v)" "no_runtime_error (mk_evidence_reference k ov)"
  "no_runtime_error (mk_source_provenance k ov)" "no_runtime_error (mk_detection_identity k ov)"
  "no_runtime_error (mk_canonical_alert det t src en sv ev)" "no_runtime_error (mk_decision oc p rs src)"
  "no_runtime_error (mk_incident al d)" "no_runtime_error (mk_investigation_request i dd cs ts)"
  "no_runtime_error (mk_investigation_result b cs ev)" "no_runtime_error (mk_record r)" "no_runtime_error (mk_attempt a)"
  unfolding mk_entity_def mk_evidence_reference_def mk_source_provenance_def mk_detection_identity_def
    mk_canonical_alert_def mk_decision_def mk_incident_def mk_investigation_request_def mk_investigation_result_def
    mk_record_def mk_attempt_def
  by (intro quiet)+

lemma orchestration_quiet [quiet]: "no_runtime_error (mk_orchestration_result d i q res)"
  by (auto simp: mk_orchestration_result_def Let_def no_runtime_error_def split: decision_outcome.split)

lemma decoders_quiet [quiet]:
  "no_runtime_error (require_array j)" "no_runtime_error (require_object ns v)" "no_runtime_error (required_text v)"
  "no_runtime_error (decode_string v)" "no_runtime_error (not_null_text ot)" "no_runtime_error (processing_state_of t)"
  "no_runtime_error (attempt_state_of t)" "no_runtime_error (severity_of t)" "no_runtime_error (decision_outcome_of_text t)"
  by (auto simp: require_array_def require_object_def required_text_def decode_string_def not_null_text_def
      processing_state_of_def attempt_state_of_def severity_of_def decision_outcome_of_text_def
      split: option.split json.split intro: quiet)

lemma optional_quiet [quiet]: "no_runtime_error (optional_text v)"
  by (auto simp: optional_text_def split: json.split intro!: quiet)

lemma deserialize_quiet [quiet]:
  "no_runtime_error (decode_entities j)" "no_runtime_error (decode_evidence j)" "no_runtime_error (decode_strings j)"
  "no_runtime_error (deserialize_alert r)" "no_runtime_error (deserialize_decision r src)"
  "no_runtime_error (deserialize_request r al dd)" "no_runtime_error (deserialize_result r st dd planned)"
  "no_runtime_error (deserialize_processing r)" "no_runtime_error (deserialize_attempt t)"
proof -
  show e: "no_runtime_error (decode_entities j)" "no_runtime_error (decode_evidence j)" "no_runtime_error (decode_strings j)" for j
    by (auto simp: decode_entities_def decode_entity_def decode_evidence_def decode_reference_def decode_strings_def intro!: quiet)
  show a: "no_runtime_error (deserialize_alert r)"
    by (auto simp: deserialize_alert_def intro!: quiet e)
  show d: "no_runtime_error (deserialize_decision r src)" for src
    by (auto simp: deserialize_decision_def split: option.split intro!: quiet e)
  show q: "no_runtime_error (deserialize_request r al dd)" for al dd
    by (auto simp: deserialize_request_def split: option.split intro!: quiet e)
  show x: "no_runtime_error (deserialize_result r st dd planned)" for st dd planned
    by (auto simp: deserialize_result_def split: option.split intro!: quiet e)
  show "no_runtime_error (deserialize_processing r)"
    unfolding deserialize_processing_def by (intro quiet a d q x)
  show "no_runtime_error (deserialize_attempt t)"
    unfolding deserialize_attempt_def by (intro quiet)
qed

text \<open>The exception of one call, if any.\<close>

definition error_of :: "('s, exn, 'a) prog \<Rightarrow> 's \<Rightarrow> exn option" where
  "error_of m s = (case fst (m s) of Inl e \<Rightarrow> Some e | Inr _ \<Rightarrow> None)"

fun op_raises :: "'s repository \<Rightarrow> repo_op \<Rightarrow> datetime \<Rightarrow> 's \<Rightarrow> exn option" where
  "op_raises R (Op_accept p al sc k v d) now = error_of (rp_accept_processing R p al sc k v d now)"
| "op_raises R (Op_no_action p res) now = error_of (rp_store_no_action_result R p res now)"
| "op_raises R (Op_plan p d i q b a k) now = error_of (rp_store_plan R p d i q b a k now)"
| "op_raises R (Op_claim a) now = error_of (rp_claim_attempt_for_submission R a now)"
| "op_raises R (Op_submitted a x) now = error_of (rp_mark_attempt_submitted R a x now)"
| "op_raises R (Op_poll a st c d) now = error_of (rp_record_poll R a st c d now)"
| "op_raises R (Op_complete a res) now = error_of (rp_complete_processing R a res now)"
| "op_raises R (Op_fail p es c d a) now = error_of (rp_fail_processing R p es c d a now)"
| "op_raises R (Op_recovery a es c d) now = error_of (rp_mark_recovery_required R a es c d now)"

definition calm :: "('s, exn, 'a) prog \<Rightarrow> 's \<Rightarrow> bool" where
  "calm m s \<longleftrightarrow> no_runtime_error (fst (m s))"

lemma calm_iff: "calm m s \<longleftrightarrow> error_of m s \<noteq> Some RuntimeError"
  by (auto simp: calm_def error_of_def no_runtime_error_def split: sum.split)

lemma calm_bind:
  "calm m s \<Longrightarrow> (\<And>x s'. m s = (Inr x, s') \<Longrightarrow> calm (f x) s') \<Longrightarrow> calm (bind m f) s"
  by (auto simp: calm_def bind_def no_runtime_error_def split: prod.split sum.split)

lemma calm_simps [quiet]:
  "calm (ret x) s" "no_runtime_error r \<Longrightarrow> calm (lift r) s" "calm (asks g) s"
  "calm m s \<Longrightarrow> calm (transaction m) s" "calm (raise ValueError) s"
  "(b \<Longrightarrow> calm m s) \<Longrightarrow> (\<not> b \<Longrightarrow> calm m' s) \<Longrightarrow> calm (if b then m else m') s"
  by (auto simp: calm_def ret_def lift_def asks_def transaction_def raise_def no_runtime_error_def split: prod.split sum.split)

lemma calm_statements [quiet]:
  "calm (update_processing P m f) s" "calm (update_attempts P m' f') s" "calm (insert_processing P r) s"
  "calm (insert_attempt P t) s" "calm (select_processing p) s" "calm (select_idempotency sc k) s"
  by (auto simp: calm_def update_processing_def update_attempts_def insert_processing_def insert_attempt_def
      select_processing_def select_idempotency_def asks_def no_runtime_error_def Let_def)

lemma calm_read [quiet]: "(\<And>x. no_runtime_error (f x)) \<Longrightarrow> calm (read_row f v) s"
  by (auto simp: read_row_def split: option.split intro!: quiet)

lemma driver_quiet:
  assumes "driver_errors P"
  shows "no_runtime_error (send_texts P vs)" "no_runtime_error (pg_jsonb P j)" "no_runtime_error (pg_time P t)"
proof -
  show "no_runtime_error (send_texts P vs)"
    using assms by (induction vs) (auto simp: send_texts_def driver_errors_def no_runtime_error_def bind_eq_Some_conv
      split: option.splits)
qed (use assms in \<open>auto simp: driver_errors_def no_runtime_error_def\<close>)

lemma calm_pair:
  assumes ok: "pg_ok P s" and sy: "pg_synced s" and n: "no_runtime_error next"
    and m: "\<And>t. t \<in> set (db_attempts s) \<Longrightarrow> m t \<Longrightarrow> ta_state t \<in> states" and f: "\<And>t. same_attempt t (f t)"
  shows "calm (update_pair P m f states next) s"
  unfolding update_pair_def
proof (intro calm_bind quiet)
  fix rows s1 assume u: "update_attempts P m f s = (Inr rows, s1)"
  show "calm (case rows of [] \<Rightarrow> ret None | t # _ \<Rightarrow>
      bind (lift next) (\<lambda>f. bind (update_processing P (\<lambda>r. rw_id r = ta_processing_id t \<and> rw_state r \<in> states) f)
        (\<lambda>updated. case updated of [] \<Rightarrow> raise RuntimeError | r # _ \<Rightarrow> ret (Some (t, r))))) s1"
  proof (cases rows)
    case (Cons t ts)
    have "map f (filter m (db_attempts s)) = t # ts" using u Cons by (simp add: update_attempts_Inr)
    from map_eq_Cons_filter [OF this] obtain t0 where t0: "t0 \<in> set (db_attempts s)" "m t0" "t = f t0" by blast
    then have "ta_processing_id t0 \<in> rw_id ` set (db_processing s)" using ok by (auto simp: pg_ok_def)
    then obtain r where r: "r \<in> set (db_processing s)" "rw_id r = ta_processing_id t0" by auto
    then have "ta_state t0 = rw_state r" using sy t0(1) by (simp add: pg_synced_def)
    with m [OF t0(1,2)] have "rw_state r \<in> states" by simp
    with r have "filter (\<lambda>r. rw_id r = ta_processing_id t \<and> rw_state r \<in> states) (db_processing s) \<noteq> []"
      using f [of t0] t0(3) by (auto simp: filter_empty_conv same_attempt_def)
    moreover have "db_processing s1 = db_processing s" using u by (auto simp: update_attempts_Inr)
    ultimately show ?thesis
      unfolding Cons list.case by (intro calm_bind quiet n) (auto simp: lift_def update_processing_Inr quiet split: list.split)
  qed (simp add: quiet)
qed

lemma calm_step:
  assumes "pg_ok P s" "pg_synced s" "driver_errors P" "\<And>t. same_attempt t (f t)"
  shows "calm (pg_attempt_step P a state texts f g) s"
  unfolding pg_attempt_step_def
  by (intro calm_bind quiet driver_quiet [OF assms(3)])
    (auto simp: lift_def intro!: calm_pair [OF assms(1,2)] quiet assms(4))

lemma calm_accept:
  assumes "driver_errors P"
  shows "calm (pg_accept_processing P p al sc k v d now) s"
  unfolding pg_accept_processing_def
proof (intro calm_bind quiet driver_quiet [OF assms])
  fix entities evidence rows s1 x1 s2 x2 s3 x3 s4
  assume i: "insert_processing P (canonical_row p al sc k v d (stored_time P (al_detected_at al)) entities evidence now) s3 = (Inr rows, s4)"
  show "calm (case rows of [] \<Rightarrow> bind (select_idempotency sc k)
        (\<lambda>found. case found of None \<Rightarrow> raise RuntimeError | Some row \<Rightarrow> ret (row, False))
      | row # _ \<Rightarrow> bind (lift (pg_time P (al_detected_at al))) (\<lambda>_. ret (row, True))) s4"
  proof (cases rows)
    case Nil
    with i obtain r where "r \<in> set (db_processing s4)" "rw_idempotency_scope r = Some sc" "rw_idempotency_key r = Some k"
      by (auto simp: insert_processing_def list_ex_iff same_key_def canonical_row_def split: if_splits)
    then have "List.find (\<lambda>r. rw_idempotency_scope r = Some sc \<and> rw_idempotency_key r = Some k) (db_processing s4) \<noteq> None"
      by (auto simp: find_None)
    with Nil show ?thesis
      by (auto simp: select_idempotency_def asks_def intro!: calm_bind quiet split: option.split)
  qed (auto intro!: calm_bind quiet driver_quiet [OF assms])
qed (auto intro!: calm_bind quiet)

lemma calm_no_action:
  assumes "driver_errors P"
  shows "calm (pg_store_no_action_result P p res now) s"
  unfolding pg_store_no_action_result_def Let_def
  by (intro calm_bind quiet driver_quiet [OF assms])

lemma calm_plan:
  assumes "pg_ok P s" "driver_errors P"
  shows "calm (pg_store_plan P p d i q b a key now) s"
proof -
  have new: "ta_processing_id (planned_row a p key b now) = p" by (simp add: planned_row_def)
  show ?thesis
    unfolding pg_store_plan_def
  proof (intro calm_bind quiet driver_quiet [OF assms(2)])
    fix stored s1
    assume t: "transaction (bind (lift (send_texts P [Some b, Some (de_policy_id d), Some (ir_desired_outcome q)])) (\<lambda>_.
        bind (lift (pg_jsonb P (encode_strings (de_reasons d)))) (\<lambda>reasons.
        bind (lift (pg_jsonb P (encode_strings (ir_required_capabilities q)))) (\<lambda>capabilities.
        bind (lift (pg_jsonb P (encode_entities (ir_targets q)))) (\<lambda>targets.
        bind (update_processing P (\<lambda>r. rw_id r = p \<and> rw_state r = S ''accepted'')
          (set_planned d q b reasons capabilities targets now)) (\<lambda>rows.
        if rows = [] then ret None
        else bind (insert_attempt P (planned_row a p key b now)) (\<lambda>attempts.
             bind (select_processing p) (\<lambda>row. ret (Some (first_row attempts, row)))))))))) s = (Inr stored, s1)"
    have "stored = None \<or> (\<exists>t r. stored = Some (Some t, Some r))"
      using t by (auto simp: transaction_cases bind_eq_Inr lift_def select_processing_def asks_def ret_def
          insert_attempt_def first_row_def find_None new split: if_splits)
    then show "calm (case stored of None \<Rightarrow> ret None
        | Some (Some t, Some r) \<Rightarrow> bind (lift (deserialize_processing r)) (\<lambda>record.
            bind (lift (deserialize_attempt t)) (\<lambda>att. ret (Some \<lparr>pp_record = record, pp_attempt = att\<rparr>)))
        | Some _ \<Rightarrow> raise RuntimeError) s1"
      by (auto intro!: calm_bind quiet)
  qed
qed

lemma calm_complete:
  assumes "pg_ok P s" "pg_synced s" "driver_errors P"
  shows "calm (pg_complete_processing P a res now) s"
  unfolding pg_complete_processing_def
  by (auto split: option.split
      intro!: calm_bind quiet calm_pair [OF assms(1,2)] driver_quiet [OF assms(3)])
    (auto simp: pg_sets same_attempt_def)

lemma calm_recovery:
  assumes "pg_ok P s" "pg_synced s" "driver_errors P"
  shows "calm (pg_mark_recovery_required P a es c d now) s"
  unfolding pg_mark_recovery_required_def validate_error_def
  by (intro calm_bind quiet driver_quiet [OF assms(3)])
    (auto simp: lift_def pg_sets same_attempt_def intro!: calm_pair [OF assms(1,2)] quiet)

lemma calm_fail:
  assumes "pg_ok P s" "pg_synced s" "driver_errors P"
    and race: "\<And>a t. aid = Some a \<Longrightarrow> t \<in> set (db_attempts s) \<Longrightarrow> ta_attempt_id t = a \<Longrightarrow> ta_processing_id t = p \<Longrightarrow> active_row t
      \<Longrightarrow> ta_state t \<in> processing_state_value ` es"
  shows "calm (pg_fail_processing P p es c d aid now) s"
  unfolding pg_fail_processing_def validate_error_def Let_def
  by (intro calm_bind quiet driver_quiet [OF assms(3)])
    (auto simp: lift_def pg_sets same_attempt_def split: option.split
      intro!: calm_bind calm_pair [OF assms(1,2)] quiet race)

lemma calm_attempt_steps:
  assumes "pg_ok P s" "pg_synced s" "driver_errors P"
  shows "calm (pg_claim_attempt_for_submission P a now) s" "calm (pg_mark_attempt_submitted P a x now) s"
    "calm (pg_record_poll P a rs c d now) s"
  unfolding pg_claim_attempt_for_submission_def pg_mark_attempt_submitted_def pg_record_poll_def
    check_poll_error_def validate_error_def
  by (auto simp: pg_sets same_attempt_def lift_def split: option.split intro!: calm_step [OF assms] calm_bind quiet)

end
