(* ===== verification/PostgresData.thy ===== *)
theory PostgresData
  imports PostgresSync MemoryProps
begin

text \<open>
  What is stored is read back: the documented behaviour of the database and the driver on values
  that it can hold (\<open>pg_documented\<close>), the decoding of stored documents, and how reading a row
  commutes with the SET clauses of the statements - each changes the record as the in-memory
  repository changes its record.
\<close>

section \<open>Documented behaviour\<close>

text \<open>Text without NUL and without surrogates is stored as it is. A JSONB array of texts and of flat
  objects keeps its order and its values; the members of an object may come back in another order.
  A time comes back as the same instant in the zone of the session. What \<open>[[:space:]]\<close> matches,
  Python's \<open>strip\<close> removes.\<close>

definition portable :: "ustring \<Rightarrow> bool" where
  "portable s \<longleftrightarrow> list_all (\<lambda>c. c \<noteq> 0 \<and> encodable c) s"

definition portable_opt :: "ustring option \<Rightarrow> bool" where
  "portable_opt v \<longleftrightarrow> (case v of None \<Rightarrow> True | Some s \<Rightarrow> portable s)"

fun portable_scalar :: "json \<Rightarrow> bool" where
  "portable_scalar JNull = True"
| "portable_scalar (JStr s) = portable s"
| "portable_scalar _ = False"

fun portable_item :: "json \<Rightarrow> bool" where
  "portable_item (JObj ms) \<longleftrightarrow> distinct (map fst ms) \<and> list_all (\<lambda>(k, v). portable k \<and> portable_scalar v) ms"
| "portable_item v = portable_scalar v"

definition item_stored :: "json \<Rightarrow> json \<Rightarrow> bool" where
  "item_stored x y \<longleftrightarrow>
     (case x of
        JObj ms \<Rightarrow> (case y of JObj ns \<Rightarrow> distinct (map fst ns) \<and> set ns = set ms | _ \<Rightarrow> False)
      | _ \<Rightarrow> y = x)"

definition array_stored :: "json \<Rightarrow> json \<Rightarrow> bool" where
  "array_stored x y \<longleftrightarrow> (case (x, y) of (JArr xs, JArr ys) \<Rightarrow> list_all2 item_stored xs ys | _ \<Rightarrow> False)"

definition pg_documented :: "pgsql \<Rightarrow> bool" where
  "pg_documented P \<longleftrightarrow>
     (\<forall>s. portable s \<longrightarrow> pg_text P s = None)
     \<and> (\<forall>xs. list_all portable_item xs \<longrightarrow> (\<exists>y. pg_jsonb P (JArr xs) = Inr y \<and> array_stored (JArr xs) y))
     \<and> (\<forall>t u. aware t \<longrightarrow> pg_time P t = Inr u \<longrightarrow> aware u \<and> instant u = instant t \<and> (dt_ok t \<longrightarrow> dt_ok u))
     \<and> (\<forall>t. aware t \<longrightarrow> us_per_day \<le> instant t \<longrightarrow> instant t < max_us - us_per_day \<longrightarrow> (\<exists>u. pg_time P t = Inr u))
     \<and> (\<forall>t. aware t \<longrightarrow> pg_instant P t = instant t)
     \<and> (\<forall>s. nonblank s \<longrightarrow> \<not> pg_blank P s)"

lemma documentedD:
  assumes "pg_documented P"
  shows "portable s \<Longrightarrow> pg_text P s = None"
    and "list_all portable_item xs \<Longrightarrow> \<exists>y. pg_jsonb P (JArr xs) = Inr y \<and> array_stored (JArr xs) y"
    and "aware t \<Longrightarrow> pg_time P t = Inr u \<Longrightarrow> aware u \<and> instant u = instant t \<and> (dt_ok t \<longrightarrow> dt_ok u)"
    and "aware t \<Longrightarrow> pg_instant P t = instant t"
    and "nonblank s \<Longrightarrow> \<not> pg_blank P s"
    and "aware t \<Longrightarrow> us_per_day \<le> instant t \<Longrightarrow> instant t < max_us - us_per_day \<Longrightarrow> \<exists>u. pg_time P t = Inr u"
  using assms by (auto simp: pg_documented_def)

section \<open>Documents\<close>

lemma array_stored_JArr: "array_stored (JArr xs) y \<longleftrightarrow> (\<exists>ys. y = JArr ys \<and> list_all2 item_stored xs ys)"
  by (auto simp: array_stored_def split: json.splits)

lemma traverse_stored:
  assumes "list_all2 item_stored (map enc es) ys" "\<And>e y. e \<in> set es \<Longrightarrow> item_stored (enc e) y \<Longrightarrow> dec y = Inr e"
  shows "traverse dec ys = Inr es"
  using assms
proof (induction es arbitrary: ys)
  case (Cons e es)
  then obtain z zs where z: "ys = z # zs" "item_stored (enc e) z" "list_all2 item_stored (map enc es) zs"
    by (auto simp: list_all2_Cons1)
  have "dec z = Inr e" "traverse dec zs = Inr es"
    using Cons.prems(2) [of e z] z(2) Cons.IH [OF z(3)] Cons.prems(2) by simp_all
  with z(1) show ?case by simp
qed simp

lemma stored_object:
  assumes "item_stored (JObj [(k, u), (l, v)]) y" "k \<noteq> l"
  shows "\<exists>ms. y = JObj ms \<and> set (map fst ms) = {k, l} \<and> json_member ms k = u \<and> json_member ms l = v"
proof -
  obtain ms where ms: "y = JObj ms" "distinct (map fst ms)" "set ms = {(k, u), (l, v)}"
    using assms(1) by (auto simp: item_stored_def split: json.splits)
  have "map_of ms k = Some u" "map_of ms l = Some v" using ms(2) by (simp_all add: ms(3))
  then have "json_member ms k = u" "json_member ms l = v" by (simp_all only: json_member_def option.case)
  with ms show ?thesis by auto
qed

lemma required_text_JStr [simp]: "nonblank s \<Longrightarrow> required_text (JStr s) = Inr s"
  by (simp add: required_text_def and_then_Inr)

lemma optional_text_json [simp]: "opt_nonblank v \<Longrightarrow> optional_text (json_optional v) = Inr v"
  by (cases v) (simp_all add: optional_text_def json_optional_def)

lemma decode_entities_stored:
  assumes "array_stored (encode_entities es) y" "list_all entity_ok es"
  shows "decode_entities (Some y) = Inr es"
proof -
  from assms(1) obtain ys where ys: "y = JArr ys"
    "list_all2 item_stored (map (\<lambda>e. JObj [(S ''kind'', JStr (en_kind e)), (S ''value'', JStr (en_value e))]) es) ys"
    by (auto simp: encode_entities_def array_stored_JArr)
  have "decode_entity y = Inr e"
    if "e \<in> set es" "item_stored (JObj [(S ''kind'', JStr (en_kind e)), (S ''value'', JStr (en_value e))]) y" for e y
    using stored_object [OF that(2)] assms(2) that(1)
    by (auto simp: decode_entity_def require_object_def list_all_iff entity_ok_def mk_entity_Inr)
  from traverse_stored [OF ys(2) this] ys(1) show ?thesis by (simp add: decode_entities_def require_array_def)
qed

lemma decode_evidence_stored:
  assumes "array_stored (encode_evidence es) y" "list_all evidence_ok es"
  shows "decode_evidence (Some y) = Inr es"
proof -
  from assms(1) obtain ys where ys: "y = JArr ys"
    "list_all2 item_stored (map (\<lambda>e. JObj [(S ''reference'', JStr (er_reference e)), (S ''kind'', json_optional (er_kind e))]) es) ys"
    by (auto simp: encode_evidence_def array_stored_JArr)
  have "decode_reference y = Inr e"
    if "e \<in> set es" "item_stored (JObj [(S ''reference'', JStr (er_reference e)), (S ''kind'', json_optional (er_kind e))]) y" for e y
    using stored_object [OF that(2)] assms(2) that(1)
    by (auto simp: decode_reference_def require_object_def list_all_iff evidence_ok_def mk_evidence_reference_Inr)
  from traverse_stored [OF ys(2) this] ys(1) show ?thesis by (simp add: decode_evidence_def require_array_def)
qed

lemma decode_strings_stored:
  assumes "array_stored (encode_strings ss) y"
  shows "decode_strings (Some y) = Inr ss"
proof -
  from assms obtain ys where ys: "y = JArr ys" "list_all2 item_stored (map JStr ss) ys"
    by (auto simp: encode_strings_def array_stored_JArr)
  have "decode_string y = Inr s" if "s \<in> set ss" "item_stored (JStr s) y" for s y
    using that(2) by (simp add: item_stored_def decode_string_def)
  from traverse_stored [OF ys(2) this] ys(1) show ?thesis by (simp add: decode_strings_def require_array_def)
qed

lemma stored_arrays:
  "array_stored (encode_entities es) y \<Longrightarrow> \<exists>ys. y = JArr ys \<and> length ys = length es"
  "array_stored (encode_evidence ev) y \<Longrightarrow> \<exists>ys. y = JArr ys \<and> length ys = length ev"
  "array_stored (encode_strings ss) y \<Longrightarrow> \<exists>ys. y = JArr ys \<and> length ys = length ss"
  by (auto simp: encode_entities_def encode_evidence_def encode_strings_def array_stored_JArr dest: list_all2_lengthD)

section \<open>Reading a row\<close>

text \<open>The parts of a row that a record is read from.\<close>

lemma deserialize_processing_Inr:
  "deserialize_processing r = Inr x \<longleftrightarrow>
   (\<exists>al d planned st res. rw_snapshot_version r = snapshot_version \<and> deserialize_alert r = Inr al
      \<and> deserialize_decision r (al_source al) = Inr d \<and> deserialize_request r al d = Inr planned
      \<and> rw_state r = processing_state_value st \<and> deserialize_result r st d planned = Inr res
      \<and> record_valid x
      \<and> x = \<lparr>pr_processing_id = rw_id r, pr_created_at = rw_created_at r, pr_updated_at = rw_updated_at r,
             pr_alert = al, pr_state = st, pr_idempotency_scope = rw_idempotency_scope r,
             pr_idempotency_key = rw_idempotency_key r, pr_fingerprint_version = rw_fingerprint_version r,
             pr_request_fingerprint = rw_request_fingerprint r,
             pr_planned_decision = (if res = None then d else None),
             pr_planned_incident = (if res = None then map_option fst planned else None),
             pr_planned_request = (if res = None then map_option snd planned else None),
             pr_selected_backend = rw_selected_backend r, pr_completed_result = res,
             pr_completed_at = rw_completed_at r, pr_failed_at = rw_failed_at r,
             pr_error_category = rw_error_category r, pr_error_detail = rw_error_detail r\<rparr>)"
  unfolding deserialize_processing_def
  by (auto simp: and_then_Inr; blast)

text \<open>The columns of a decision and of the request that was planned for it.\<close>

definition same_plan :: "processing_row \<Rightarrow> processing_row \<Rightarrow> bool" where
  "same_plan r q \<longleftrightarrow> rw_snapshot_version q = rw_snapshot_version r
     \<and> rw_decision_outcome q = rw_decision_outcome r \<and> rw_policy_id q = rw_policy_id r
     \<and> rw_decision_reasons q = rw_decision_reasons r \<and> rw_request_desired_outcome q = rw_request_desired_outcome r
     \<and> rw_request_capabilities q = rw_request_capabilities r \<and> rw_request_targets q = rw_request_targets r
     \<and> rw_selected_backend q = rw_selected_backend r"

lemma deserialize_kept:
  "same_record r q \<Longrightarrow> deserialize_alert q = deserialize_alert r"
  "same_plan r q \<Longrightarrow> deserialize_decision q src = deserialize_decision r src"
  "same_plan r q \<Longrightarrow> deserialize_request q al d = deserialize_request r al d"
  by (simp_all add: same_record_def same_plan_def deserialize_alert_def deserialize_decision_def deserialize_request_def
      cong: option.case_cong if_cong)

lemma result_of_open [simp]: "st \<noteq> COMPLETED \<Longrightarrow> deserialize_result r st d planned = Inr None"
  by (simp add: deserialize_result_def)

lemma result_of_row:
  assumes "deserialize_processing r = Inr x"
  shows "pr_completed_result x = None \<longleftrightarrow> pr_state x \<noteq> COMPLETED"
  using assms by (auto simp: deserialize_processing_Inr record_valid_def record_state_check_def split: processing_state.splits)

text \<open>Each SET clause changes the record as the in-memory repository does.\<close>

lemma read_open:
  assumes x: "deserialize_processing r = Inr x" "pr_state x \<noteq> COMPLETED" "st \<noteq> COMPLETED"
    and kept: "same_record r q" "same_plan r q" "rw_state q = processing_state_value st"
  shows "deserialize_processing q = mk_record
    (x\<lparr>pr_updated_at := rw_updated_at q, pr_state := st, pr_completed_at := rw_completed_at q,
       pr_failed_at := rw_failed_at q, pr_error_category := rw_error_category q, pr_error_detail := rw_error_detail q\<rparr>)"
proof -
  note same = kept(1)[unfolded same_record_def] kept(2)[unfolded same_plan_def]
  from x(1) obtain al d planned st0 res where *: "rw_snapshot_version r = snapshot_version" "deserialize_alert r = Inr al"
    "deserialize_decision r (al_source al) = Inr d" "deserialize_request r al d = Inr planned"
    "deserialize_result r st0 d planned = Inr res" and
    X: "x = \<lparr>pr_processing_id = rw_id r, pr_created_at = rw_created_at r, pr_updated_at = rw_updated_at r,
             pr_alert = al, pr_state = st0, pr_idempotency_scope = rw_idempotency_scope r,
             pr_idempotency_key = rw_idempotency_key r, pr_fingerprint_version = rw_fingerprint_version r,
             pr_request_fingerprint = rw_request_fingerprint r,
             pr_planned_decision = (if res = None then d else None),
             pr_planned_incident = (if res = None then map_option fst planned else None),
             pr_planned_request = (if res = None then map_option snd planned else None),
             pr_selected_backend = rw_selected_backend r, pr_completed_result = res,
             pr_completed_at = rw_completed_at r, pr_failed_at = rw_failed_at r,
             pr_error_category = rw_error_category r, pr_error_detail = rw_error_detail r\<rparr>"
    unfolding deserialize_processing_Inr by blast
  have "res = None" using *(5) X x(2) by simp
  then show ?thesis using * x(3) same
    by (simp add: X deserialize_processing_def deserialize_kept(1) [OF kept(1)] deserialize_kept(2,3) [OF kept(2)] kept(3))
qed

section \<open>The constraints\<close>

named_theorems pg_checks "the constraints of a row"

lemmas check_unfold [pg_checks] =
  ck_snapshot_version_def ck_severity_def ck_decision_outcome_def ck_required_strings_def ck_optional_strings_def
  ck_required_json_arrays_def ck_state_def ck_idempotency_coherence_def ck_idempotency_key_def ck_fingerprint_def
  ck_lifecycle_strings_def ck_together_def ck_bounded_def

lemma check_null_or [simp]: "check_holds (null_or c v) \<longleftrightarrow> v = None \<or> check_holds (c v)"
  by (auto simp: null_or_def check_holds_def sql_or_False sql_null_def)

lemma check_in: "check_holds (sql_in v xs) \<longleftrightarrow> (\<forall>x. v = Some x \<longrightarrow> x \<in> set xs)"
  by (cases v) (simp_all add: sql_in_def)

lemma check_in_Some [simp]: "check_holds (sql_in (Some x) xs) \<longleftrightarrow> x \<in> set xs" "check_holds (sql_in None xs)"
  by (simp_all add: check_in)

lemma check_array [simp]:
  "check_holds (sql_array (Some (JArr xs)))" "check_holds (sql_nonempty_array (Some (JArr xs))) \<longleftrightarrow> xs \<noteq> []"
  "check_holds (sql_array None)" "check_holds (sql_nonempty_array None)" "check_holds (sql_max_length n v) \<longleftrightarrow> (case v of None \<Rightarrow> True | Some s \<Rightarrow> length s \<le> n)"
  by (simp_all add: sql_array_def sql_nonempty_array_def sql_max_length_def)

text \<open>The branch of the lifecycle constraint that a state selects.\<close>

lemma lifecycle_accepted:
  assumes "rw_state r = S ''accepted''"
  shows "check_holds (ck_lifecycle_coherence r) \<longleftrightarrow>
    rw_decision_outcome r = None \<and> rw_policy_id r = None \<and> rw_decision_reasons r = None
    \<and> list_all check_holds (ck_no_request r @ ck_no_result r) \<and> rw_completed_at r = None \<and> rw_failed_at r = None
    \<and> rw_error_category r = None \<and> rw_error_detail r = None"
  using assms by (simp add: ck_lifecycle_coherence_def conj_assoc)

lemma lifecycle_active:
  assumes "rw_state r \<in> active_texts"
  shows "check_holds (ck_lifecycle_coherence r) \<longleftrightarrow>
    check_holds (sql_in (rw_decision_outcome r) [S ''investigate''])
    \<and> list_all check_holds (ck_decided r @ ck_requested r) \<and> rw_selected_backend r \<noteq> None
    \<and> list_all check_holds (ck_no_result r)
    \<and> rw_completed_at r = None \<and> rw_failed_at r = None
    \<and> (rw_state r = S ''recovery_required'' \<longrightarrow> rw_error_category r \<noteq> None \<and> rw_error_detail r \<noteq> None)"
  using assms unfolding active_texts_def by (elim insertE emptyE) (simp_all add: ck_lifecycle_coherence_def conj_assoc)

lemma lifecycle_completed:
  assumes "rw_state r = S ''completed''"
  shows "check_holds (ck_lifecycle_coherence r) \<longleftrightarrow>
    check_holds (sql_in (rw_decision_outcome r) [S ''investigate'', S ''no_action''])
    \<and> list_all check_holds (ck_decided r) \<and> rw_completed_at r \<noteq> None \<and> rw_failed_at r = None
    \<and> (check_holds (sql_in (rw_decision_outcome r) [S ''no_action''])
         \<and> list_all check_holds (ck_no_request r @ ck_no_result r)
       \<or> check_holds (sql_in (rw_decision_outcome r) [S ''investigate''])
         \<and> list_all check_holds (ck_requested r) \<and> (rw_selected_backend r \<noteq> None \<or> rw_idempotency_key r = None)
         \<and> rw_result_backend r \<noteq> None \<and> rw_result_completed_capabilities r \<noteq> None
         \<and> check_holds (sql_array (rw_result_completed_capabilities r)) \<and> rw_result_evidence r \<noteq> None
         \<and> check_holds (sql_array (rw_result_evidence r)))"
  using assms by (simp add: ck_lifecycle_coherence_def conj_assoc)

lemma lifecycle_failed:
  assumes "rw_state r = S ''failed''"
  shows "check_holds (ck_lifecycle_coherence r) \<longleftrightarrow>
    rw_completed_at r = None \<and> rw_failed_at r \<noteq> None \<and> list_all check_holds (ck_no_result r)
    \<and> rw_error_category r \<noteq> None \<and> rw_error_detail r \<noteq> None"
  using assms by (simp add: ck_lifecycle_coherence_def conj_assoc)

text \<open>The constraints that an update of the lifecycle has to establish again.\<close>

definition error_checks :: "pgsql \<Rightarrow> ustring option \<Rightarrow> ustring option \<Rightarrow> bool" where
  "error_checks P c d \<longleftrightarrow> check_holds (ck_bounded P 256 c) \<and> check_holds (ck_bounded P 256 d) \<and> check_holds (ck_together c d)"

lemma check_null [simp]: "check_holds (null_or (sql_not_blank P) v) \<longleftrightarrow> (\<forall>s. v = Some s \<longrightarrow> \<not> pg_blank P s)"
  by (cases v) simp_all

lemma error_checks_simps [simp]:
  "error_checks P None None"
  "error_checks P (Some c) (Some d) \<longleftrightarrow> \<not> pg_blank P c \<and> \<not> pg_blank P d \<and> length c \<le> 256 \<and> length d \<le> 256"
  by (auto simp: error_checks_def ck_bounded_def ck_together_def)

lemma checks_moved:
  assumes r: "processing_checks P r" and q: "same_record r q" "same_plan r q" "rw_state q = processing_state_value st"
    and res: "\<And>s. rw_result_backend q = Some s \<Longrightarrow> \<not> pg_blank P s"
    and err: "error_checks P (rw_error_category q) (rw_error_detail q)"
    and life: "check_holds (ck_lifecycle_coherence q)"
  shows "processing_checks P q"
proof -
  have st: "check_holds (ck_state q)" unfolding ck_state_def q(3)
    by (cases st) (simp_all add: processing_states_sql_def)
  note cols = q(1)[unfolded same_record_def] q(2)[unfolded same_plan_def]
  have same: "ck_snapshot_version q = ck_snapshot_version r" "ck_severity q = ck_severity r"
    "ck_decision_outcome q = ck_decision_outcome r" "ck_required_strings P q = ck_required_strings P r"
    "ck_required_json_arrays q = ck_required_json_arrays r" "ck_idempotency_coherence q = ck_idempotency_coherence r"
    "ck_idempotency_key q = ck_idempotency_key r" "ck_fingerprint q = ck_fingerprint r"
    using cols by (simp_all add: ck_snapshot_version_def ck_severity_def ck_decision_outcome_def ck_required_strings_def
        ck_required_json_arrays_def ck_idempotency_coherence_def ck_idempotency_key_def ck_fingerprint_def)
  have "check_holds (ck_optional_strings P q)" "check_holds (ck_lifecycle_strings P q)"
    using r res err cols
    by (simp_all add: processing_checks_def ck_optional_strings_def ck_lifecycle_strings_def error_checks_def del: check_null_or)
  with r same st life show ?thesis by (simp add: processing_checks_def)
qed

lemma accepted_checks:
  assumes P: "pg_documented P" and al: "alert_ok al" and k: "key_visible_ascii key" and d: "length digest = 32"
    and a: "array_stored (encode_entities (al_entities al)) en" "array_stored (encode_evidence (al_evidence al)) ev"
  shows "processing_checks P (canonical_row p al (sp_source (al_source al)) key 1 digest t en ev now)"
proof -
  note blank = documentedD(5) [OF P]
  from stored_arrays(1) [OF a(1)] stored_arrays(2) [OF a(2)] obtain xs ys where "en = JArr xs" "ev = JArr ys" by blast
  moreover have "severity_value (al_severity al) \<in> {S ''low'', S ''medium'', S ''high'', S ''critical''}"
    by (cases "al_severity al") simp_all
  moreover have "key \<noteq> []" using k by (auto simp: key_visible_ascii_def)
  ultimately show ?thesis
    using al k d blank
    by (simp add: processing_checks_def pg_checks canonical_row_def lifecycle_accepted ck_no_request_def ck_no_result_def
        snapshot_version_def alert_ok_def detection_ok_def source_ok_def key_visible_ascii_def processing_states_sql_def
        opt_nonblank_def split: option.splits)
qed

text \<open>The updates that decide: the constraints of the alert and of the key are those of the row before.\<close>

lemma checks_decided:
  assumes r: "processing_checks P r" and q: "same_record r q" "rw_snapshot_version q = rw_snapshot_version r"
      "rw_state q = processing_state_value st"
    and dec: "rw_decision_outcome q = Some (decision_outcome_value oc)" "rw_policy_id q = Some pid" "\<not> pg_blank P pid"
      "rw_decision_reasons q = Some (JArr (x # xs))"
    and ts: "\<And>s. rw_request_desired_outcome q = Some s \<Longrightarrow> \<not> pg_blank P s" "\<And>s. rw_selected_backend q = Some s \<Longrightarrow> \<not> pg_blank P s"
      "rw_result_backend q = None"
    and err: "error_checks P (rw_error_category q) (rw_error_detail q)"
    and life: "check_holds (ck_lifecycle_coherence q)"
  shows "processing_checks P q"
proof -
  have st: "check_holds (ck_state q)" unfolding ck_state_def q(3)
    by (cases st) (simp_all add: processing_states_sql_def)
  note cols = q(1)[unfolded same_record_def]
  have same: "ck_snapshot_version q = ck_snapshot_version r" "ck_severity q = ck_severity r"
    "ck_idempotency_coherence q = ck_idempotency_coherence r"
    "ck_idempotency_key q = ck_idempotency_key r" "ck_fingerprint q = ck_fingerprint r"
    using cols q(2) by (simp_all add: ck_snapshot_version_def ck_severity_def
        ck_idempotency_coherence_def ck_idempotency_key_def ck_fingerprint_def)
  have "check_holds (ck_decision_outcome q)" using dec(1) by (cases oc) (simp_all add: ck_decision_outcome_def)
  moreover have "check_holds (ck_required_strings P q)" "check_holds (ck_required_json_arrays q)"
    using r cols dec(2-4) by (simp_all add: processing_checks_def ck_required_strings_def ck_required_json_arrays_def)
  moreover have "check_holds (ck_optional_strings P q)" "check_holds (ck_lifecycle_strings P q)"
    using r ts err cols
    by (simp_all add: processing_checks_def ck_optional_strings_def ck_lifecycle_strings_def error_checks_def del: check_null_or)
  ultimately show ?thesis using r same st life by (simp add: processing_checks_def)
qed

lemma stored_strings:
  assumes "array_stored (encode_strings ss) y" "ss \<noteq> []"
  shows "\<exists>x xs. y = JArr (x # xs)"
  using stored_arrays(3) [OF assms(1)] assms(2) by (auto simp: neq_Nil_conv length_Suc_conv)

lemma planned_checks:
  assumes P: "pg_documented P" and r: "processing_checks P r" "rw_state r = S ''accepted''"
    and ok: "decision_ok d" "de_outcome d = INVESTIGATE" "request_ok q" "nonblank b"
    and a: "array_stored (encode_strings (de_reasons d)) x" "array_stored (encode_strings (ir_required_capabilities q)) y"
      "array_stored (encode_entities (ir_targets q)) z"
  shows "processing_checks P (set_planned d q b x y z now r)" "attempt_checks P (planned_row a p key b now)"
proof -
  note blank = documentedD(5) [OF P]
  from stored_strings [OF a(1)] stored_strings [OF a(2)] stored_arrays(1) [OF a(3)] ok(1,3) obtain xa xs ya ys zs
    where A: "x = JArr (xa # xs)" "y = JArr (ya # ys)" "z = JArr zs" unfolding decision_ok_def request_ok_def by blast
  have life: "check_holds (ck_lifecycle_coherence r)" using r(1) by (simp add: processing_checks_def)
  then have life': "check_holds (ck_lifecycle_coherence (set_planned d q b x y z now r))"
    unfolding lifecycle_accepted [OF r(2)]
    by (subst lifecycle_active)
      (simp_all add: set_planned_def active_texts_def ok(2) A ck_no_result_def ck_decided_def ck_requested_def)
  show "processing_checks P (set_planned d q b x y z now r)"
    by (rule checks_decided [OF r(1), where st = PLANNED and oc = "de_outcome d" and pid = "de_policy_id d" and x = xa and xs = xs])
      (use ok blank A life life' in \<open>simp_all add: same_record_def set_planned_def decision_ok_def request_ok_def
        lifecycle_accepted [OF r(2)] ck_no_result_def\<close>)
  show "attempt_checks P (planned_row a p key b now)"
    using blank ok(4) by (simp add: attempt_checks_def planned_row_def ck_attempt_strings_def ck_bounded_def ck_together_def
        ck_attempt_coherence_def)
qed

end
