(* ===== verification/PostgresHistory.thy ===== *)
theory PostgresHistory
  imports PostgresData ProcessorSafety
begin

text \<open>
  The processor on PostgreSQL: what \<open>ProcessorSafety\<close> shows of the in-memory repository over whole
  histories holds on the tables, too, whatever the driver and the database do with values; and
  what the two repositories do differently.
\<close>

definition pg_history :: "env \<Rightarrow> pgsql \<Rightarrow> pg_store \<Rightarrow> call list \<Rightarrow> pg_store world" where
  "pg_history E P s calls = run_calls (postgres_repository P) E calls (start_world s)"

text \<open>A row that lasts: its request and key are the same, its state has moved along the table.\<close>

definition row_lasts :: "pg_store \<Rightarrow> pg_store \<Rightarrow> bool" where
  "row_lasts s s' \<longleftrightarrow>
     (\<forall>p r st. pg_processing s p = Some r \<longrightarrow> rw_state r = processing_state_value st \<longrightarrow>
        (\<exists>q st'. pg_processing s' p = Some q \<and> same_record r q \<and> rw_state q = processing_state_value st'
           \<and> (st, st') \<in> {(a, b). processing_transition_allowed a b}\<^sup>*))"

lemma row_lasts_refl: "row_lasts s s"
  by (auto simp: row_lasts_def)

lemma row_lasts_exec:
  assumes ok: "pg_ok P s'" and m: "row_lasts s s'" and c: "op_safe c"
  shows "row_lasts s (exec_op (postgres_repository P) c now s')"
  unfolding row_lasts_def
proof (intro allI impI)
  fix p r st assume "pg_processing s p = Some r" "rw_state r = processing_state_value st"
  with m obtain q st' where q: "pg_processing s' p = Some q" "same_record r q" "rw_state q = processing_state_value st'"
    "(st, st') \<in> {(a, b). processing_transition_allowed a b}\<^sup>*"
    by (meson row_lasts_def)
  from exec_evolved [OF ok, of c now] q(1) obtain q' where
    q': "pg_processing (exec_op (postgres_repository P) c now s') p = Some q'" "same_record q q'"
      "moved_by (\<lambda>a b. op_safe c \<longrightarrow> processing_transition_allowed a b) q q'"
    unfolding evolved_def records_evolve_def by blast
  from q'(3) q(3) c obtain st'' where "rw_state q' = processing_state_value st''"
    "st'' = st' \<or> processing_transition_allowed st' st''"
    unfolding moved_by_def by (metis processing_state_value_inj)
  with q'(1) same_record_trans [OF q(2) q'(2)] q(4)
  show "\<exists>q st'. pg_processing (exec_op (postgres_repository P) c now s') p = Some q \<and> same_record r q
      \<and> rw_state q = processing_state_value st' \<and> (st, st') \<in> {(a, b). processing_transition_allowed a b}\<^sup>*"
    by (auto intro: rtrancl_into_rtrancl)
qed

section \<open>A database and a row\<close>

text \<open>A database that stores every value as it is sent.\<close>

definition plain_pg :: pgsql where
  "plain_pg = \<lparr>pg_text = (\<lambda>_. None), pg_jsonb = Inr, pg_time = Inr, pg_instant = instant, pg_blank = (\<lambda>s. \<not> nonblank s)\<rparr>"

definition sample_pg_row :: processing_row where
  "sample_pg_row = canonical_row 7 high_alert (sp_source (al_source high_alert)) sample_key 1 (replicate 32 0)
     (al_detected_at high_alert) (encode_entities (al_entities high_alert)) (encode_evidence (al_evidence high_alert))
     (sample_time 1)"

definition sample_pg :: pg_store where
  "sample_pg = pg_empty\<lparr>db_processing := [sample_pg_row]\<rparr>"

lemma plain_pg_simps [simp]:
  "pg_text plain_pg s = None" "pg_jsonb plain_pg j = Inr j" "pg_time plain_pg t = Inr t"
  "pg_instant plain_pg t = instant t" "pg_blank plain_pg s \<longleftrightarrow> \<not> nonblank s"
  by (simp_all add: plain_pg_def)

lemma plain_driver: "driver_errors plain_pg"
  by (simp add: driver_errors_def)

lemma item_stored_refl: "portable_item x \<Longrightarrow> item_stored x x"
  by (cases x) (simp_all add: item_stored_def)

lemma plain_stored: "list_all portable_item xs \<Longrightarrow> array_stored (JArr xs) (JArr xs)"
  by (induction xs) (auto simp: array_stored_def item_stored_refl)

lemma plain_documented: "pg_documented plain_pg"
  by (simp add: pg_documented_def plain_stored)

text \<open>The row planned at second 2 and claimed at 3, with its attempt.\<close>

definition planned_pg_row :: processing_row where
  "planned_pg_row = set_planned high_decision high_request mock_name (encode_strings (de_reasons high_decision))
     (encode_strings (ir_required_capabilities high_request)) (encode_entities (ir_targets high_request)) (sample_time 2)
     sample_pg_row"

definition planned_pg :: pg_store where
  "planned_pg = sample_pg\<lparr>db_processing := [planned_pg_row],
     db_attempts := [planned_row 2 7 3 mock_name (sample_time 2)]\<rparr>"

lemma strings_stored [simp]: "array_stored (encode_strings ss) (encode_strings ss)"
  by (induction ss) (auto simp: encode_strings_def array_stored_def item_stored_def)

lemma entities_stored [simp]: "array_stored (encode_entities es) (encode_entities es)"
  by (induction es) (auto simp: encode_entities_def array_stored_def item_stored_def S_def)

lemma evidence_stored [simp]: "array_stored (encode_evidence es) (encode_evidence es)"
  by (induction es) (auto simp: encode_evidence_def array_stored_def item_stored_def S_def)

lemma sample_row_checks: "processing_checks plain_pg sample_pg_row"
  unfolding sample_pg_row_def
  by (rule accepted_checks [OF plain_documented sample_alerts_ok(1)])
    (simp_all add: sample_key_def key_visible_ascii_def S_def visible_ascii_def)

lemma sample_pg_ok: "pg_ok plain_pg sample_pg"
  by (simp add: pg_ok_def sample_pg_def pg_empty_def processing_table_ok_def attempt_table_ok_def sample_row_checks)

lemma sample_pg_synced: "pg_synced sample_pg"
  by (simp add: pg_synced_def sample_pg_def pg_empty_def active_texts_def sample_pg_row_def canonical_row_def)

lemma planned_row_checks: "processing_checks plain_pg planned_pg_row"
  "attempt_checks plain_pg (planned_row 2 7 3 mock_name (sample_time 2))"
proof -
  have "decision_ok high_decision" using baseline_decide_Inr [of high_alert] high_decision_facts(1) by simp
  moreover have "request_ok high_request"
    by (simp add: request_ok_def high_request_def process_list_def S_def is_space_def)
  moreover have "nonblank mock_name" by (simp add: mock_name_def S_def is_space_def)
  moreover have "rw_state sample_pg_row = S ''accepted''" by (simp add: sample_pg_row_def canonical_row_def)
  ultimately show "processing_checks plain_pg planned_pg_row"
    "attempt_checks plain_pg (planned_row 2 7 3 mock_name (sample_time 2))"
    unfolding planned_pg_row_def
    using planned_checks(1) [OF plain_documented sample_row_checks]
      planned_checks(2) [OF plain_documented sample_row_checks _ _ _ _ _ strings_stored strings_stored entities_stored]
      high_decision_facts(2) by simp_all
qed

lemma planned_pg_ok: "pg_ok plain_pg planned_pg"
  by (simp add: pg_ok_def planned_pg_def sample_pg_def pg_empty_def processing_table_ok_def attempt_table_ok_def planned_row_checks)
    (simp add: planned_row_def planned_pg_row_def set_planned_def sample_pg_row_def canonical_row_def)

lemma planned_pg_synced: "pg_synced planned_pg"
  by (simp add: pg_synced_def planned_pg_def sample_pg_def active_texts_def planned_pg_row_def set_planned_def
      sample_pg_row_def canonical_row_def planned_row_def)

section \<open>Properties of every history\<close>

text \<open>C4: On PostgreSQL, too, every execution attempt is claimed at most once by anyone and submitted
  to a backend at most once, and only by the processor that claimed it, over any history of process
  and reconcile calls, with any interference and faults and whatever the driver does with values.\<close>

theorem postgres_submits_at_most_once:
  assumes "pg_ok P s"
  shows "distinct (submitted (w_events (pg_history E P s calls)))
    \<and> set (submitted (w_events (pg_history E P s calls))) \<subseteq> set (own_claimed (w_events (pg_history E P s calls)))
    \<and> distinct (claimed (w_events (pg_history E P s calls)))"
proof -
  have "postgres.safe_world P (\<lambda>_. True) {} (pg_history E P s calls)"
    unfolding pg_history_def using assms
    by (intro postgres.run_calls_safe [OF postgres.admits_any] postgres.start_world_safe) simp_all
  then show ?thesis by (simp add: postgres.safe_world_def postgres.safe_events_def)
qed

theorem postgres_submits_at_most_once_witness:
  "distinct (submitted (w_events (pg_history rough_env plain_pg planned_pg sample_calls)))"
  using postgres_submits_at_most_once [OF planned_pg_ok] by blast

text \<open>C5: When the others, too, record failures the way the application does, the tables keep every
  constraint, a processing and its attempt keep the same state, and no row is lost: its alert, key
  and fingerprint stay the same and its state only moves along the table of allowed transitions.\<close>

theorem postgres_rows_durable:
  assumes "pg_ok P s" "pg_synced s" "\<And>t. list_all (\<lambda>(c, _). op_safe c) (e_others E t)"
  shows "pg_ok P (w_repo (pg_history E P s calls)) \<and> pg_synced (w_repo (pg_history E P s calls))
    \<and> row_lasts s (w_repo (pg_history E P s calls))"
proof -
  have "postgres.admits P E (\<lambda>s'. pg_synced s' \<and> row_lasts s s') (Collect op_safe)"
    unfolding postgres.admits_def using assms(3) exec_stays_synced row_lasts_exec by (fastforce simp: list_all_iff)
  then have "postgres.safe_world P (\<lambda>s'. pg_synced s' \<and> row_lasts s s') {} (pg_history E P s calls)"
    unfolding pg_history_def using assms(1,2) row_lasts_refl
    by (intro postgres.run_calls_safe postgres.start_world_safe) simp_all
  then show ?thesis by (simp add: postgres.safe_world_def)
qed

theorem postgres_rows_durable_witness:
  "row_lasts planned_pg (w_repo (pg_history rough_env plain_pg planned_pg sample_calls))"
proof -
  have "list_all (\<lambda>(c, _). op_safe c) (e_others rough_env t)" for t by (simp add: rough_env_def)
  from postgres_rows_durable [OF planned_pg_ok planned_pg_synced this] show ?thesis by blast
qed

section \<open>A lost race\<close>

lemma rolled_back:
  assumes "bind (transaction m) (read_row f) s = (Inl RuntimeError, s')" "\<And>x. no_runtime_error (f x)"
  shows "s' = s"
proof -
  have "calm (read_row f v) w" for v w using assms(2) by (rule quiet)
  then have *: "fst (read_row f v w) \<noteq> Inl RuntimeError" for v w by (simp add: calm_def no_runtime_error_def)
  show ?thesis
  proof (cases "transaction m s")
    case (Pair y w)
    with assms(1) * [of _ w] show ?thesis
      by (cases y) (auto simp: bind_def transaction_cases, metis fst_conv)
  qed
qed

text \<open>C37: On tables that are in step, the checks for divergence of a processing and its attempt never
  fire, with one exception: a failure that is to be recorded for an active attempt that another
  worker has moved to a state outside the expected ones raises RuntimeError and is rolled back,
  where the in-memory repository answers that nothing was changed.\<close>

theorem divergence_is_a_lost_race:
  assumes "pg_ok P s" "pg_synced s" "driver_errors P"
    and "op_raises (postgres_repository P) c now s = Some RuntimeError"
  shows "\<exists>p es cat det a t. c = Op_fail p es cat det (Some a) \<and> pg_attempt s a = Some t \<and> ta_processing_id t = p
    \<and> active_row t \<and> ta_state t \<notin> processing_state_value ` es \<and> exec_op (postgres_repository P) c now s = s
    \<and> (\<forall>m r. dict_get (mm_records m) p = Some r \<longrightarrow> processing_state_value (pr_state r) = ta_state t
         \<longrightarrow> mem_fail_processing p es cat det (Some a) now m = (Inr None, m))"
proof (cases c)
  case (Op_fail p es cat det aid)
  have e: "error_of (pg_fail_processing P p es cat det aid now) s = Some RuntimeError"
    using assms(4) by (simp add: Op_fail postgres_repository_def)
  then obtain a t where t: "aid = Some a" "t \<in> set (db_attempts s)" "ta_attempt_id t = a" "ta_processing_id t = p"
    "active_row t" "ta_state t \<notin> processing_state_value ` es"
    using calm_fail [OF assms(1-3), of aid p es cat det now] by (auto simp: calm_iff)
  obtain s' where s': "pg_fail_processing P p es cat det aid now s = (Inl RuntimeError, s')"
    using e by (cases "pg_fail_processing P p es cat det aid now s") (auto simp: error_of_def split: sum.splits)
  have "mem_fail_processing p es cat det (Some a) now m = (Inr None, m)"
    if "dict_get (mm_records m) p = Some r" "processing_state_value (pr_state r) = ta_state t" for m r
  proof -
    have "pr_state r \<notin> es" using that(2) t(6) by (metis imageI)
    with that(1) show ?thesis by (simp add: mem_fail_processing_def)
  qed
  moreover have "pg_attempt s a = Some t" using pg_find(2) [OF assms(1) t(2)] t(3) by simp
  moreover have "exec_op (postgres_repository P) c now s = s"
  proof -
    have "s' = s"
    proof (cases "validate_error cat det")
      case (Inl e)
      with s' show ?thesis by (simp add: pg_fail_processing_def bind_def lift_def)
    next
      case (Inr u)
      with s' show ?thesis
        by (auto simp: pg_fail_processing_def lift_Inr raise_def intro!: quiet dest!: rolled_back split: if_splits)
    qed
    with s' show ?thesis by (simp add: Op_fail postgres_repository_def t(1))
  qed
  ultimately show ?thesis using Op_fail t by blast
qed (use assms(4) calm_accept [OF assms(3)] calm_no_action [OF assms(3)] calm_plan [OF assms(1,3)] calm_complete [OF assms(1-3)]
  calm_recovery [OF assms(1-3)] calm_attempt_steps [OF assms(1-3)] in \<open>auto simp: postgres_repository_def calm_iff\<close>)

theorem divergence_is_a_lost_race_witness:
  "exec_op (postgres_repository plain_pg) (Op_fail 7 {SUBMITTING} (S ''c'') (S ''d'') (Some 2)) (sample_time 5) planned_pg
     = planned_pg
   \<and> op_raises (postgres_repository plain_pg) (Op_fail 7 {SUBMITTING} (S ''c'') (S ''d'') (Some 2)) (sample_time 5) planned_pg
     = Some RuntimeError"
proof -
  let ?c = "Op_fail 7 {SUBMITTING} (S ''c'') (S ''d'') (Some 2)"
  have s: "db_attempts planned_pg = [planned_row 2 7 3 mock_name (sample_time 2)]"
    "db_processing planned_pg = [planned_pg_row]" "rw_state planned_pg_row = S ''planned''"
    by (simp_all add: planned_pg_def planned_pg_row_def set_planned_def)
  have "attempt_checks plain_pg (attempt_failed (S ''c'') (S ''d'') (sample_time 5) (planned_row 2 7 3 mock_name (sample_time 2)))"
    using planned_row_checks(2)
    by (simp add: attempt_checks_def attempt_failed_def planned_row_def ck_attempt_strings_def ck_attempt_coherence_def
      ck_bounded_def ck_together_def) (simp add: S_def is_space_def)
  then have "op_raises (postgres_repository plain_pg) ?c (sample_time 5) planned_pg = Some RuntimeError"
    by (simp add: postgres_repository_def pg_fail_processing_def error_of_def validate_error_def lift_Inr transaction_def
        send_texts_def update_pair_def update_attempts_def update_processing_def s bind_def raise_def Let_def lift_def
        active_row_def upd_def ret_def)
      (simp add: planned_row_def)
  with divergence_is_a_lost_race [OF planned_pg_ok planned_pg_synced plain_driver, of ?c "sample_time 5"]
  show ?thesis by blast
qed

end
