(* ===== verification/PgMigration.thy ===== *)
theory PgMigration
  imports PostgresHistory
begin

text \<open>
  The data step of \<open>0002_durable_execution.py\<close>: every table that satisfies the constraints of 0001
  is accepted by the constraints of 0002; and what these do not exclude.
\<close>

lemma upgrade_columns [simp]:
  "rw_state (upgrade_row r) = S ''completed''" "rw_idempotency_scope (upgrade_row r) = None"
  "rw_idempotency_key (upgrade_row r) = None" "rw_fingerprint_version (upgrade_row r) = None"
  "rw_request_fingerprint (upgrade_row r) = None" "rw_selected_backend (upgrade_row r) = None"
  "rw_completed_at (upgrade_row r) = Some (rw_created_at r)" "rw_failed_at (upgrade_row r) = None"
  "rw_error_category (upgrade_row r) = None" "rw_error_detail (upgrade_row r) = None"
  "base_row.truncate (upgrade_row r) = r" "rw_updated_at (upgrade_row r) = rw_created_at r"
  by (cases r; simp add: upgrade_row_def base_row.extend_def processing_row.fields_def base_row.truncate_def)+

lemma upgrade_kept [simp]:
  "rw_id (upgrade_row r) = rw_id r" "rw_created_at (upgrade_row r) = rw_created_at r"
  "rw_snapshot_version (upgrade_row r) = rw_snapshot_version r"
  "rw_detection_identifier (upgrade_row r) = rw_detection_identifier r"
  "rw_detection_name (upgrade_row r) = rw_detection_name r" "rw_detected_at (upgrade_row r) = rw_detected_at r"
  "rw_source (upgrade_row r) = rw_source r" "rw_source_alert_id (upgrade_row r) = rw_source_alert_id r"
  "rw_severity (upgrade_row r) = rw_severity r" "rw_entities (upgrade_row r) = rw_entities r"
  "rw_alert_evidence (upgrade_row r) = rw_alert_evidence r" "rw_decision_outcome (upgrade_row r) = rw_decision_outcome r"
  "rw_policy_id (upgrade_row r) = rw_policy_id r" "rw_decision_reasons (upgrade_row r) = rw_decision_reasons r"
  "rw_request_desired_outcome (upgrade_row r) = rw_request_desired_outcome r"
  "rw_request_capabilities (upgrade_row r) = rw_request_capabilities r"
  "rw_request_targets (upgrade_row r) = rw_request_targets r" "rw_result_backend (upgrade_row r) = rw_result_backend r"
  "rw_result_completed_capabilities (upgrade_row r) = rw_result_completed_capabilities r"
  "rw_result_evidence (upgrade_row r) = rw_result_evidence r"
  by (simp_all add: upgrade_row_def base_row.extend_def)

text \<open>A row of 0001 has a decision, and what the completed branch of 0002 asks of it.\<close>

lemma upgrade_lifecycle:
  assumes "holds_0001 P r"
  shows "check_holds (ck_lifecycle_coherence (upgrade_row r))"
proof -
  have n: "rw_policy_id r \<noteq> None" "rw_decision_reasons r \<noteq> None" "check_holds (sql_array (rw_decision_reasons r))"
    "check_holds (sql_nonempty_array (rw_decision_reasons r))" "check_holds (ck_decision_outcome r)"
    "check_holds (ck_aggregate_coherence r)"
    using assms by (simp_all add: holds_0001_def ck_required_json_arrays_def)
  then show ?thesis
    by (subst lifecycle_completed) (auto simp: ck_decided_def ck_requested_def ck_no_request_def ck_no_result_def
        ck_decision_outcome_def ck_aggregate_coherence_def)
qed

lemma upgrade_checks:
  assumes "holds_0001 P r"
  shows "processing_checks P (upgrade_row r)"
proof -
  have same: "ck_snapshot_version (upgrade_row r) = ck_snapshot_version r" "ck_severity (upgrade_row r) = ck_severity r"
    "ck_decision_outcome (upgrade_row r) = ck_decision_outcome r"
    "ck_required_strings P (upgrade_row r) = ck_required_strings P r"
    "ck_optional_strings P (upgrade_row r) = ck_optional_strings P r"
    "ck_required_json_arrays (upgrade_row r) = ck_required_json_arrays r"
    by (simp_all add: ck_snapshot_version_def ck_severity_def ck_decision_outcome_def ck_required_strings_def
        ck_optional_strings_def ck_required_json_arrays_def)
  show ?thesis
    using assms upgrade_lifecycle [OF assms]
    by (simp add: processing_checks_def holds_0001_def same ck_state_def processing_states_sql_def
        ck_idempotency_coherence_def ck_idempotency_key_def ck_fingerprint_def ck_lifecycle_strings_def ck_bounded_def
        ck_together_def)
qed

text \<open>C38: The migration 0002 never fails on a table that satisfies the constraints of 0001: every row
  keeps its columns, becomes COMPLETED without a key at the time it was created, and satisfies
  every new constraint.\<close>

theorem migration_accepts_every_row:
  assumes "list_all (holds_0001 P) rs"
  shows "\<exists>rows. upgrade_0002 P rs = Some rows \<and> map base_row.truncate rows = rs
    \<and> list_all (\<lambda>r. processing_checks P r \<and> rw_state r = processing_state_value COMPLETED
         \<and> rw_idempotency_key r = None \<and> rw_completed_at r = Some (rw_created_at r)) rows"
proof -
  have "upgrade_0002 P rs = Some (map upgrade_row rs)"
    using assms upgrade_checks by (auto simp: upgrade_0002_def Let_def list_all_iff)
  moreover have "map base_row.truncate (map upgrade_row rs) = rs" by (simp add: map_idI)
  ultimately show ?thesis using assms upgrade_checks by (auto simp: list_all_iff)
qed

definition sample_base_row :: base_row where
  "sample_base_row =
     \<lparr>rw_id = 7, rw_created_at = sample_time 1, rw_snapshot_version = 1, rw_detection_identifier = S ''R1'',
      rw_detection_name = None, rw_detected_at = sample_time 0, rw_source = S ''splunk'', rw_source_alert_id = None,
      rw_severity = S ''low'', rw_entities = JArr [], rw_alert_evidence = JArr [],
      rw_decision_outcome = Some (S ''no_action''), rw_policy_id = Some (S ''p''),
      rw_decision_reasons = Some (JArr [JStr (S ''r'')]), rw_request_desired_outcome = None,
      rw_request_capabilities = None, rw_request_targets = None, rw_result_backend = None,
      rw_result_completed_capabilities = None, rw_result_evidence = None\<rparr>"

theorem migration_accepts_every_row_witness:
  "\<exists>rows. upgrade_0002 plain_pg [sample_base_row] = Some rows \<and> map base_row.truncate rows = [sample_base_row]"
proof -
  have cols: "rw_decision_outcome sample_base_row \<noteq> None"
    "rw_policy_id sample_base_row \<noteq> None" "rw_decision_reasons sample_base_row \<noteq> None"
    by (simp_all add: sample_base_row_def)
  have "nonblank (S ''p'')" by (simp add: S_def is_space_def)
  then have "check_holds (ck_required_strings plain_pg sample_base_row)" "check_holds (ck_optional_strings plain_pg sample_base_row)"
    "check_holds (ck_required_json_arrays sample_base_row)" "check_holds (ck_aggregate_coherence sample_base_row)"
    "check_holds (ck_severity sample_base_row)" "check_holds (ck_decision_outcome sample_base_row)"
    by (simp_all add: sample_base_row_def ck_required_strings_def ck_optional_strings_def ck_required_json_arrays_def
        ck_aggregate_coherence_def ck_severity_def ck_decision_outcome_def sample_text)
  moreover have "check_holds (ck_snapshot_version sample_base_row)"
    by (simp add: ck_snapshot_version_def sample_base_row_def)
  ultimately have "list_all (holds_0001 plain_pg) [sample_base_row]"
    by (simp only: holds_0001_def cols list.pred_inject simp_thms)
  from migration_accepts_every_row [OF this] show ?thesis by (elim exE conjE) (intro exI conjI)
qed

text \<open>C39: The constraints do not make a row readable: a comparison with a NULL decision is neither
  true nor false, so an active row satisfies them without its decision, too, and reading it raises.\<close>

theorem constraints_admit_undecided_row:
  assumes "processing_checks P r" "rw_state r \<in> active_texts"
  shows "processing_checks P (r\<lparr>rw_decision_outcome := None\<rparr>)
    \<and> (\<exists>e. deserialize_processing (r\<lparr>rw_decision_outcome := None\<rparr>) = Inl e)"
proof -
  let ?q = "r\<lparr>rw_decision_outcome := None\<rparr>"
  have same: "ck_snapshot_version ?q = ck_snapshot_version r" "ck_severity ?q = ck_severity r"
    "ck_required_strings P ?q = ck_required_strings P r" "ck_optional_strings P ?q = ck_optional_strings P r"
    "ck_required_json_arrays ?q = ck_required_json_arrays r" "ck_state ?q = ck_state r"
    "ck_idempotency_coherence ?q = ck_idempotency_coherence r" "ck_idempotency_key ?q = ck_idempotency_key r"
    "ck_fingerprint ?q = ck_fingerprint r" "ck_lifecycle_strings P ?q = ck_lifecycle_strings P r"
    by (simp_all add: ck_snapshot_version_def ck_severity_def ck_required_strings_def ck_optional_strings_def
        ck_required_json_arrays_def ck_state_def ck_idempotency_coherence_def ck_idempotency_key_def ck_fingerprint_def
        ck_lifecycle_strings_def)
  have "check_holds (ck_lifecycle_coherence r)" using assms(1) by (simp add: processing_checks_def)
  then have "check_holds (ck_lifecycle_coherence ?q)"
    using assms(2) by (simp add: lifecycle_active ck_decided_def ck_requested_def ck_no_result_def)
  then have "processing_checks P ?q" using assms(1) by (simp add: processing_checks_def same ck_decision_outcome_def)
  moreover have "deserialize_processing ?q \<noteq> Inr x" for x
  proof
    assume x: "deserialize_processing ?q = Inr x"
    have "pr_planned_decision x = None"
      using x unfolding deserialize_processing_Inr by (auto simp: deserialize_decision_def)
    moreover from deserialize_processing_parts [OF x] obtain st where p: "rw_state r = processing_state_value st"
      "pr_state x = st" "record_valid x" by auto
    moreover have "st \<in> {PLANNED, SUBMITTING, SUBMITTED, RECOVERY_REQUIRED}"
      using assms(2) p(1) by (cases st) (simp_all add: active_texts_def)
    ultimately show False using p(2,3) by (auto simp: record_valid_def record_state_check_def full_plan_def)
  qed
  ultimately show ?thesis by (cases "deserialize_processing ?q") auto
qed

theorem constraints_admit_undecided_row_witness:
  "processing_checks plain_pg (planned_pg_row\<lparr>rw_decision_outcome := None\<rparr>)"
proof -
  have "rw_state planned_pg_row \<in> active_texts" by (simp add: planned_pg_row_def set_planned_def active_texts_def)
  from constraints_admit_undecided_row [OF planned_row_checks(1) this] show ?thesis by blast
qed

end
