(* ===== verification/Velociraptor.thy ===== *)
theory Velociraptor
  imports JsonRead Orchestrator Telemetry
begin

text \<open>
  \<open>backends/velociraptor.py\<close>: the client of the Velociraptor API and the backend on top of it. The
  client is a program on a \<open>velo_world\<close>: the number of its steps, the reading of the monotonic
  clock and what it has done - channels opened and closed, queries sent, sleeps. What it cannot
  control is a \<open>velo_env\<close>, indexed by the step: whether a channel can be made, how the API answers
  a query, how much time a step takes, and how Python prints a float.

  Timeouts are rationals, so the checks for booleans, infinities and NaN have nothing to refuse.
  Closing a channel and recording telemetry are taken not to raise.
\<close>

section \<open>The environment\<close>

datatype channel_outcome = Channel_ready | Channel_refused | Stub_failed

text \<open>How the stream of responses ends.\<close>

datatype query_end = Q_done | Q_deadline_exceeded | Q_rpc_error | Q_raised

record velo_env =
  ve_channel :: "nat \<Rightarrow> channel_outcome"
  ve_query :: "nat \<Rightarrow> ustring \<Rightarrow> rat \<Rightarrow> ustring list \<times> query_end"
  ve_elapsed :: "nat \<Rightarrow> rat"
  ve_float_text :: "rat \<Rightarrow> ustring"

datatype velo_event =
    V_opened
  | V_closed
  | V_queried ustring rat
  | V_submitted ustring
  | V_slept rat
  | V_span_finished ustring "ustring option"

record velo_world =
  vw_step :: nat
  vw_now :: rat
  vw_events :: "velo_event list"

type_synonym 'a velo = "(velo_world, exn, 'a) prog"

definition velo_start :: velo_world where
  "velo_start = \<lparr>vw_step = 0, vw_now = 0, vw_events = []\<rparr>"

definition velo_tick :: "velo_env \<Rightarrow> velo_world \<Rightarrow> velo_world" where
  "velo_tick E w = w\<lparr>vw_step := Suc (vw_step w), vw_now := vw_now w + ve_elapsed E (vw_step w)\<rparr>"

definition velo_log :: "velo_event \<Rightarrow> velo_world \<Rightarrow> velo_world" where
  "velo_log e w = w\<lparr>vw_events := e # vw_events w\<rparr>"

definition velo_emit :: "velo_event \<Rightarrow> unit velo" where
  "velo_emit e = modify (velo_log e)"

definition collection_error :: "string \<Rightarrow> exn" where
  "collection_error m = VelociraptorCollectionError (S m)"

section \<open>Query text\<close>

definition process_list_artifact :: ustring where "process_list_artifact = S ''Windows.System.Pslist''"

definition nonterminal_flow_states :: "ustring set" where
  "nonterminal_flow_states = S ` {''UNSET'', ''RUNNING'', ''WAITING'', ''IN_PROGRESS'', ''UNRESPONSIVE''}"

definition terminal_success_flow_states :: "ustring set" where
  "terminal_success_flow_states = {S ''FINISHED''}"

definition terminal_failure_flow_states :: "ustring set" where
  "terminal_failure_flow_states = {S ''ERROR''}"

text \<open>\<open>json.dumps(value, ensure_ascii=True)\<close> of a string: code points beyond the basic plane are
  written as two surrogates.\<close>

definition ascii_escape :: "nat \<Rightarrow> ustring" where
  "ascii_escape c =
     (if c = 34 then [92, 34]
      else if c = 92 then [92, 92]
      else if c = 8 then [92, 98]
      else if c = 12 then [92, 102]
      else if c = 10 then [92, 110]
      else if c = 13 then [92, 114]
      else if c = 9 then [92, 116]
      else if 32 \<le> c \<and> c \<le> 126 then [c]
      else if c < 65536 then [92, 117] @ hex_fix 4 c
      else [92, 117] @ hex_fix 4 (55296 + (c - 65536) div 1024) @ [92, 117] @ hex_fix 4 (56320 + (c - 65536) mod 1024))"

definition ascii_quote :: "ustring \<Rightarrow> ustring" where
  "ascii_quote s = 34 # concat (map ascii_escape s) @ [34]"

definition vql_string_literal :: "ustring \<Rightarrow> exn + ustring" where
  "vql_string_literal s =
     (if \<not> nonblank s then Inl (collection_error ''collection request contains a blank or invalid string value'')
      else Inr (ascii_quote s))"

definition text_line :: "ustring \<Rightarrow> ustring" where "text_line s = s @ [10]"

definition schedule_vql :: "ustring \<Rightarrow> ustring \<Rightarrow> ustring \<Rightarrow> ustring" where
  "schedule_vql client_literal artifact_literal timeout_literal =
     text_line (S ''LET collection <= collect_client('')
     @ text_line (S ''    client_id='' @ client_literal @ S '','')
     @ text_line (S ''    artifacts=['' @ artifact_literal @ S ''],'')
     @ text_line (S ''    timeout='' @ timeout_literal @ S '')'')
     @ text_line []
     @ text_line (S ''SELECT'')
     @ text_line (S ''    collection.flow_id AS flow_id,'')
     @ text_line (S ''    collection.request.client_id AS client_id,'')
     @ text_line (S ''    collection.request.artifacts AS artifacts'')
     @ text_line (S ''FROM scope()'')"

definition flow_vql :: "ustring \<Rightarrow> ustring \<Rightarrow> ustring" where
  "flow_vql client_literal flow_literal =
     text_line (S ''SELECT'')
     @ text_line (S ''    session_id,'')
     @ text_line (S ''    state,'')
     @ text_line (S ''    request.client_id AS client_id,'')
     @ text_line (S ''    request.artifacts AS artifacts,'')
     @ text_line (S ''    status'')
     @ text_line (S ''FROM flows('')
     @ text_line (S ''    client_id='' @ client_literal @ S '','')
     @ text_line (S ''    flow_id='' @ flow_literal @ S '')'')"

section \<open>Queries\<close>

type_synonym velo_row = "(ustring \<times> pyvalue) list"

text \<open>The rows of one response; an integer beyond the digit limit of Python is malformed here, too,
  where its exception has the message of a failed query.\<close>

definition dict_of :: "pyvalue \<Rightarrow> velo_row option" where
  "dict_of v = (case v of PDict d \<Rightarrow> Some d | _ \<Rightarrow> None)"

definition response_rows :: "ustring \<Rightarrow> exn + velo_row list" where
  "response_rows response =
     (if response = [] then Inr []
      else case loads_text response of
        None \<Rightarrow> Inl (collection_error ''Velociraptor API query returned malformed JSON'')
      | Some (PList batch) \<Rightarrow>
          (if list_all (\<lambda>v. dict_of v \<noteq> None) batch then Inr (map (\<lambda>v. the (dict_of v)) batch)
           else Inl (collection_error ''Velociraptor API query returned an invalid result structure''))
      | Some _ \<Rightarrow> Inl (collection_error ''Velociraptor API query returned an invalid result structure''))"

definition end_of_query :: "query_end \<Rightarrow> exn + unit" where
  "end_of_query q =
     (case q of
        Q_done \<Rightarrow> Inr ()
      | Q_deadline_exceeded \<Rightarrow> Inl TimeoutError
      | _ \<Rightarrow> Inl (collection_error ''Velociraptor API query failed''))"

definition query_rows :: "ustring list \<times> query_end \<Rightarrow> exn + velo_row list" where
  "query_rows answer =
     and_then (traverse response_rows (fst answer)) (\<lambda>batches.
     and_then (end_of_query (snd answer)) (\<lambda>_. Inr (concat batches)))"

definition run_query :: "velo_env \<Rightarrow> ustring \<Rightarrow> rat \<Rightarrow> velo_row list velo" where
  "run_query E vql timeout =
     bind (asks vw_step) (\<lambda>t.
     then_do (velo_emit (V_queried vql timeout))
    (then_do (modify (velo_tick E))
       (lift (query_rows (ve_query E t vql timeout)))))"

text \<open>A channel for the body of a \<open>try\<close>, closed at its end; \<open>refused\<close> is the exception for a channel
  that cannot be made.\<close>

definition with_channel :: "velo_env \<Rightarrow> exn \<Rightarrow> 'a velo \<Rightarrow> 'a velo" where
  "with_channel E refused m =
     bind (asks (\<lambda>w. ve_channel E (vw_step w))) (\<lambda>channel.
     then_do (modify (velo_tick E))
     (case channel of
        Channel_refused \<Rightarrow> raise refused
      | Stub_failed \<Rightarrow> then_do (velo_emit V_opened) (finally_do (raise refused) (velo_log V_closed))
      | Channel_ready \<Rightarrow> then_do (velo_emit V_opened) (finally_do m (velo_log V_closed))))"

definition query_once :: "velo_env \<Rightarrow> ustring \<Rightarrow> rat \<Rightarrow> velo_row list velo" where
  "query_once E vql timeout = with_channel E BackendSubmissionRejectedError (run_query E vql timeout)"

definition validate_timeout :: "rat \<Rightarrow> exn + rat" where
  "validate_timeout timeout = (if 0 < timeout then Inr timeout else Inl VelociraptorConfigurationError)"

definition validate_artifacts :: "pyvalue \<Rightarrow> ustring \<Rightarrow> bool" where
  "validate_artifacts v expected \<longleftrightarrow> v = PList [PStr expected]"

section \<open>Scheduling\<close>

definition flow_identifier :: "pyvalue \<Rightarrow> ustring option" where
  "flow_identifier v =
     (case v of PStr s \<Rightarrow> if nonblank s \<and> take 2 s = S ''F.'' then Some s else None | _ \<Rightarrow> None)"

definition schedule_text :: "velo_env \<Rightarrow> ustring \<Rightarrow> ustring \<Rightarrow> rat \<Rightarrow> exn + ustring" where
  "schedule_text E client_id artifact timeout =
     and_then (vql_string_literal client_id) (\<lambda>client_literal.
     and_then (vql_string_literal artifact) (\<lambda>artifact_literal.
     Inr (schedule_vql client_literal artifact_literal (ve_float_text E timeout))))"

definition velo_schedule :: "velo_env \<Rightarrow> ustring \<Rightarrow> ustring \<Rightarrow> rat \<Rightarrow> ustring velo" where
  "velo_schedule E client_id artifact timeout_seconds =
     bind (lift (validate_timeout timeout_seconds)) (\<lambda>timeout.
     bind (lift (schedule_text E client_id artifact timeout)) (\<lambda>vql.
     try_except (query_once E vql timeout)
       (\<lambda>e. raise (if is_submission_rejected e then e else VelociraptorSubmissionUnknownError))
       (\<lambda>rows. case rows of
          [row] \<Rightarrow>
            (case flow_identifier (get_value row ''flow_id'') of
               None \<Rightarrow> raise VelociraptorSubmissionUnknownError
             | Some flow_id \<Rightarrow>
                 if get_value row ''client_id'' \<noteq> PStr client_id
                    \<or> \<not> validate_artifacts (get_value row ''artifacts'') artifact
                 then raise VelociraptorSubmissionUnknownError
                 else then_do (velo_emit (V_submitted flow_id)) (ret flow_id))
        | _ \<Rightarrow> raise VelociraptorSubmissionUnknownError)))"

section \<open>Polling\<close>

definition flow_text :: "ustring \<Rightarrow> ustring \<Rightarrow> ustring \<Rightarrow> exn + ustring" where
  "flow_text client_id artifact flow_id =
     and_then (vql_string_literal client_id) (\<lambda>client_literal.
     and_then (vql_string_literal artifact) (\<lambda>_.
     and_then (vql_string_literal flow_id) (\<lambda>flow_literal.
     Inr (flow_vql client_literal flow_literal))))"

definition flow_verified :: "velo_row \<Rightarrow> ustring \<Rightarrow> ustring \<Rightarrow> ustring \<Rightarrow> bool" where
  "flow_verified row client_id artifact flow_id \<longleftrightarrow>
     get_value row ''session_id'' = PStr flow_id \<and> get_value row ''client_id'' = PStr client_id
     \<and> validate_artifacts (get_value row ''artifacts'') artifact"

definition flow_state :: "pyvalue \<Rightarrow> operation_state option" where
  "flow_state v =
     (case v of
        PStr s \<Rightarrow>
          if s \<in> terminal_success_flow_states then Some SUCCEEDED
          else if s \<in> terminal_failure_flow_states then Some OP_FAILED
          else if s \<in> nonterminal_flow_states then Some NONTERMINAL
          else None
      | _ \<Rightarrow> None)"

definition flow_status :: "velo_row list \<Rightarrow> ustring \<Rightarrow> ustring \<Rightarrow> ustring \<Rightarrow> exn + operation_status" where
  "flow_status rows client_id artifact flow_id =
     (case rows of
        [] \<Rightarrow> mk_operation_status (Some NONTERMINAL) (S ''UNSEEN'')
      | [row] \<Rightarrow>
          if \<not> flow_verified row client_id artifact flow_id
          then Inl (collection_error ''Velociraptor flow lookup returned unverifiable identity'')
          else (case (flow_state (get_value row ''state''), get_value row ''state'') of
                  (Some st, PStr s) \<Rightarrow> mk_operation_status (Some st) s
                | _ \<Rightarrow> Inl (collection_error ''Velociraptor flow returned a malformed or unknown state''))
      | _ \<Rightarrow> Inl (collection_error ''Velociraptor flow lookup returned an unexpected row count''))"

definition velo_poll_flow :: "velo_env \<Rightarrow> ustring \<Rightarrow> ustring \<Rightarrow> ustring \<Rightarrow> rat \<Rightarrow> operation_status velo" where
  "velo_poll_flow E client_id artifact flow_id timeout_seconds =
     bind (lift (validate_timeout timeout_seconds)) (\<lambda>timeout.
     bind (lift (flow_text client_id artifact flow_id)) (\<lambda>vql.
     bind (query_once E vql timeout) (\<lambda>rows.
     lift (flow_status rows client_id artifact flow_id))))"

section \<open>Collection: scheduling and polling on one channel\<close>

definition deadline_message :: string where
  "deadline_message = ''Velociraptor collection exceeded its local deadline''"

definition deadline_remaining :: "velo_env \<Rightarrow> rat \<Rightarrow> rat velo" where
  "deadline_remaining E deadline =
     bind (asks vw_now) (\<lambda>now.
     then_do (modify (velo_tick E))
     (if deadline - now \<le> 0 then raise (collection_error deadline_message) else ret (deadline - now)))"

definition poll_interval_seconds :: rat where "poll_interval_seconds = 1"

definition velo_sleep :: "velo_env \<Rightarrow> rat \<Rightarrow> unit velo" where
  "velo_sleep E d =
     modify (\<lambda>w. velo_tick E (velo_log (V_slept d) (w\<lparr>vw_now := vw_now w + d\<rparr>)))"

definition wait_for_next_poll :: "velo_env \<Rightarrow> rat \<Rightarrow> unit velo" where
  "wait_for_next_poll E deadline =
     bind (deadline_remaining E deadline) (\<lambda>remaining. velo_sleep E (min poll_interval_seconds remaining))"

definition schedule_row :: "velo_row list \<Rightarrow> ustring \<Rightarrow> ustring \<Rightarrow> ustring velo" where
  "schedule_row rows client_id artifact =
     (case rows of
        [row] \<Rightarrow>
          (case flow_identifier (get_value row ''flow_id'') of
             None \<Rightarrow> raise (collection_error ''Velociraptor collection scheduling returned an invalid flow ID'')
           | Some flow_id \<Rightarrow>
               then_do (velo_emit (V_submitted flow_id))
               (if get_value row ''client_id'' \<noteq> PStr client_id
                then raise (collection_error ''Velociraptor collection scheduling returned an unexpected client'')
                else if \<not> validate_artifacts (get_value row ''artifacts'') artifact
                then raise (collection_error ''Velociraptor collection scheduling returned unexpected artifacts'')
                else ret flow_id))
      | _ \<Rightarrow> raise (collection_error ''Velociraptor collection scheduling returned an unexpected row count''))"

text \<open>What one answer means for the loop: another turn, or the end.\<close>

definition collect_answer :: "velo_row list \<Rightarrow> ustring \<Rightarrow> ustring \<Rightarrow> ustring \<Rightarrow> exn + bool" where
  "collect_answer rows client_id artifact flow_id =
     (case rows of
        [] \<Rightarrow> Inr False
      | [row] \<Rightarrow>
          if get_value row ''session_id'' \<noteq> PStr flow_id
          then Inl (collection_error ''Velociraptor flow lookup returned an unexpected flow'')
          else if get_value row ''client_id'' \<noteq> PStr client_id
          then Inl (collection_error ''Velociraptor flow lookup returned an unexpected client'')
          else if \<not> validate_artifacts (get_value row ''artifacts'') artifact
          then Inl (collection_error ''Velociraptor flow lookup returned unexpected artifacts'')
          else (case flow_state (get_value row ''state'') of
                  Some SUCCEEDED \<Rightarrow> Inr True
                | Some NONTERMINAL \<Rightarrow> Inr False
                | Some OP_FAILED \<Rightarrow> Inl (collection_error ''Velociraptor flow entered terminal ERROR state'')
                | None \<Rightarrow> Inl (collection_error ''Velociraptor flow returned a malformed or unknown state''))
      | _ \<Rightarrow> Inl (collection_error ''Velociraptor flow lookup returned an unexpected row count''))"

text \<open>The loop, with fuel for its turns; running out of it is the result None.\<close>

fun collect_loop ::
  "velo_env \<Rightarrow> nat \<Rightarrow> rat \<Rightarrow> ustring \<Rightarrow> ustring \<Rightarrow> ustring \<Rightarrow> ustring \<Rightarrow> ustring option velo"
where
  "collect_loop E 0 deadline vql client_id artifact flow_id = ret None"
| "collect_loop E (Suc n) deadline vql client_id artifact flow_id =
     bind (deadline_remaining E deadline) (\<lambda>remaining.
     bind (run_query E vql remaining) (\<lambda>rows.
     bind (lift (collect_answer rows client_id artifact flow_id)) (\<lambda>finished.
     if finished then ret (Some flow_id)
     else then_do (wait_for_next_poll E deadline)
       (collect_loop E n deadline vql client_id artifact flow_id))))"

definition velo_collect :: "velo_env \<Rightarrow> nat \<Rightarrow> ustring \<Rightarrow> ustring \<Rightarrow> rat \<Rightarrow> ustring option velo" where
  "velo_collect E fuel client_id artifact timeout_seconds =
     bind (lift (validate_timeout timeout_seconds)) (\<lambda>timeout.
     bind (lift (schedule_text E client_id artifact timeout)) (\<lambda>scheduling_vql.
     with_channel E (collection_error ''Velociraptor secure API channel could not be created'')
       (bind (run_query E scheduling_vql timeout) (\<lambda>rows.
        bind (schedule_row rows client_id artifact) (\<lambda>flow_id.
        bind (lift (flow_text client_id artifact flow_id)) (\<lambda>polling_vql.
        bind (asks vw_now) (\<lambda>now.
        then_do (modify (velo_tick E))
          (collect_loop E fuel (now + timeout) polling_vql client_id artifact flow_id))))))))"

section \<open>The backend\<close>

record velo_backend =
  vb_host_client_ids :: "(ustring, ustring) dict"
  vb_timeout :: rat

definition mk_velo_backend :: "(ustring, ustring) dict \<Rightarrow> rat \<Rightarrow> exn + velo_backend" where
  "mk_velo_backend host_client_ids timeout =
     (if timeout \<le> 0 then Inl VelociraptorConfigurationError
      else if \<not> list_all (\<lambda>(host, client_id). nonblank host \<and> nonblank client_id) host_client_ids
      then Inl VelociraptorConfigurationError
      else Inr \<lparr>vb_host_client_ids = host_client_ids, vb_timeout = timeout\<rparr>)"

definition velociraptor_name :: ustring where "velociraptor_name = S ''velociraptor''"

definition resolve_client_id :: "velo_backend \<Rightarrow> investigation_request \<Rightarrow> exn + ustring" where
  "resolve_client_id b r =
     (if \<not> set (ir_required_capabilities r) \<subseteq> {process_list}
      then Inl (UnsupportedCapabilitiesError (ir_required_capabilities r) None)
      else case ir_targets r of
        [target] \<Rightarrow>
          (if en_kind target \<noteq> S ''host'' then Inl VelociraptorTargetError
           else case dict_get (vb_host_client_ids b) (en_value target) of
             None \<Rightarrow> Inl VelociraptorTargetError
           | Some client_id \<Rightarrow> Inr client_id)
      | _ \<Rightarrow> Inl VelociraptorTargetError)"

definition effective_timeout :: "velo_backend \<Rightarrow> rat option \<Rightarrow> exn + rat" where
  "effective_timeout b timeout_seconds =
     (case timeout_seconds of
        None \<Rightarrow> Inr (vb_timeout b)
      | Some t \<Rightarrow> if t \<le> 0 then Inl VelociraptorConfigurationError else Inr (min (vb_timeout b) t))"

definition velo_submit :: "velo_env \<Rightarrow> velo_backend \<Rightarrow> investigation_request \<Rightarrow> rat option \<Rightarrow> submitted_operation velo" where
  "velo_submit E b r timeout_seconds =
     bind (lift (resolve_client_id b r)) (\<lambda>client_id.
     bind (lift (effective_timeout b timeout_seconds)) (\<lambda>timeout.
     bind (velo_schedule E client_id process_list_artifact timeout) (\<lambda>flow_id.
     lift (mk_submitted_operation flow_id))))"

definition velo_poll ::
  "velo_env \<Rightarrow> velo_backend \<Rightarrow> investigation_request \<Rightarrow> ustring \<Rightarrow> rat option \<Rightarrow> operation_status velo"
where
  "velo_poll E b r x timeout_seconds =
     bind (lift (resolve_client_id b r)) (\<lambda>client_id.
     bind (lift (effective_timeout b timeout_seconds)) (\<lambda>timeout.
     velo_poll_flow E client_id process_list_artifact x timeout))"

definition velo_result :: "investigation_request \<Rightarrow> exn + investigation_result" where
  "velo_result r = mk_investigation_result velociraptor_name (ir_required_capabilities r) []"

definition velo_collect_result :: "velo_backend \<Rightarrow> investigation_request \<Rightarrow> ustring \<Rightarrow> exn + investigation_result" where
  "velo_collect_result b r x =
     and_then (resolve_client_id b r) (\<lambda>_.
     if \<not> nonblank x then Inl (collection_error ''known collection reference is blank or invalid'')
     else velo_result r)"

text \<open>The legacy helper, which \<open>collect\<close> may end without a result only when its fuel is spent.\<close>

definition velo_investigate :: "velo_env \<Rightarrow> nat \<Rightarrow> velo_backend \<Rightarrow> investigation_request \<Rightarrow> investigation_result option velo" where
  "velo_investigate E fuel b r =
     bind (lift (resolve_client_id b r)) (\<lambda>client_id.
     try_except (velo_collect E fuel client_id process_list_artifact (vb_timeout b))
       (\<lambda>e. let category = classify_error e ''backend'' in
            then_do (velo_emit (V_span_finished (outcome_for_error category) (Some category))) (raise e))
       (\<lambda>reference. case reference of
          None \<Rightarrow> ret None
        | Some x \<Rightarrow>
            then_do (velo_emit (V_span_finished (S ''success'') None))
            (if \<not> nonblank x
             then raise (collection_error ''collection client returned a blank or invalid collection reference'')
             else bind (lift (velo_result r)) (\<lambda>res. ret (Some res)))))"

text \<open>The backend as the processor calls it: one environment per call.\<close>

definition velociraptor_backend :: "(nat \<Rightarrow> velo_env) \<Rightarrow> velo_backend \<Rightarrow> backend" where
  "velociraptor_backend Es b =
     \<lparr>bk_name = velociraptor_name, bk_capabilities = {process_list},
      bk_submit = (\<lambda>t r _ timeout. map_sum id Some (fst (velo_submit (Es t) b r timeout velo_start))),
      bk_poll = (\<lambda>t r x timeout. map_sum id Some (fst (velo_poll (Es t) b r x timeout velo_start))),
      bk_collect = (\<lambda>_ r x. velo_collect_result b r x)\<rparr>"

end
