(* ===== verification/Startup.thy ===== *)
theory Startup
  imports Velociraptor Processor
begin

text \<open>
  \<open>cli.py\<close>, and \<open>main.py\<close> with what it runs on import: the settings of the process, the choice of the one backend,
  the loading of the Velociraptor client, the composition of the service and its first event. The
  environment is a dictionary; the file system, the loader of \<open>pyvelociraptor\<close> and what the API
  does with a client are arguments. The objects of OpenTelemetry are not modelled, only whether and
  where telemetry is exported.
\<close>

section \<open>Settings\<close>

definition backend_setting :: ustring where "backend_setting = S ''ALERT2IR_BACKEND''"

definition velociraptor_config_setting :: ustring where
  "velociraptor_config_setting = S ''ALERT2IR_VELOCIRAPTOR_API_CONFIG_PATH''"
definition velociraptor_host_setting :: ustring where
  "velociraptor_host_setting = S ''ALERT2IR_VELOCIRAPTOR_HOST''"
definition velociraptor_client_setting :: ustring where
  "velociraptor_client_setting = S ''ALERT2IR_VELOCIRAPTOR_CLIENT_ID''"

definition velociraptor_settings :: "ustring list" where
  "velociraptor_settings = [velociraptor_config_setting, velociraptor_host_setting, velociraptor_client_setting]"

definition database_setting :: ustring where "database_setting = S ''ALERT2IR_DATABASE_URL''"
definition export_endpoint_setting :: ustring where "export_endpoint_setting = S ''OTEL_EXPORTER_OTLP_ENDPOINT''"
definition export_protocol_setting :: ustring where "export_protocol_setting = S ''OTEL_EXPORTER_OTLP_PROTOCOL''"

definition collection_timeout_seconds :: rat where "collection_timeout_seconds = 60"

type_synonym settings = "(ustring, ustring) dict"

definition require_database_url :: "settings \<Rightarrow> exn + ustring" where
  "require_database_url env =
     (case dict_get env database_setting of
        None \<Rightarrow> Inl RuntimeError
      | Some url \<Rightarrow> if \<not> nonblank url then Inl RuntimeError else Inr url)"

definition require_exact_nonempty_setting :: "settings \<Rightarrow> ustring \<Rightarrow> exn + ustring" where
  "require_exact_nonempty_setting env name =
     (case dict_get env name of
        None \<Rightarrow> Inl RuntimeError
      | Some v \<Rightarrow> if v = [] \<or> v \<noteq> strip v then Inl RuntimeError else Inr v)"

text \<open>\<open>configure_observability\<close>: the endpoint of the exporters, None for no export.\<close>

definition export_endpoint :: "settings \<Rightarrow> exn + ustring option" where
  "export_endpoint env =
     (let endpoint = strip (case dict_get env export_endpoint_setting of Some v \<Rightarrow> v | None \<Rightarrow> [])
      in if endpoint = [] then Inr None
         else if (case dict_get env export_protocol_setting of Some v \<Rightarrow> v | None \<Rightarrow> S ''grpc'') \<noteq> S ''grpc''
         then Inl RuntimeError
         else Inr (Some endpoint))"

section \<open>The Velociraptor client\<close>

text \<open>What reading the configuration file comes to: an \<open>OSError\<close>, not a readable regular file, or its
  bytes. The loader is None when it raises.\<close>

datatype config_file = Config_os_error | Config_not_readable | Config_bytes bytes

record velo_host =
  vh_file :: "ustring \<Rightarrow> config_file"
  vh_load :: "ustring \<Rightarrow> pyvalue option"

record velo_client =
  vc_connection :: ustring
  vc_ca_certificate :: ustring
  vc_private_key :: ustring
  vc_certificate :: ustring

definition encrypted_marker :: bytes where "encrypted_marker = map of_char ''ENCRYPTED''"

fun occurs_in :: "'a list \<Rightarrow> 'a list \<Rightarrow> bool" where
  "occurs_in p [] \<longleftrightarrow> p = []"
| "occurs_in p (x # xs) \<longleftrightarrow> take (length p) (x # xs) = p \<or> occurs_in p xs"

definition config_text :: "(ustring \<times> pyvalue) list \<Rightarrow> string \<Rightarrow> exn + ustring" where
  "config_text configuration name =
     (case get_value configuration name of
        PStr s \<Rightarrow> if nonblank s then Inr s else Inl VelociraptorConfigurationError
      | _ \<Rightarrow> Inl VelociraptorConfigurationError)"

definition client_of_config :: "pyvalue \<Rightarrow> exn + velo_client" where
  "client_of_config v =
     (case v of
        PDict configuration \<Rightarrow>
          and_then (config_text configuration ''api_connection_string'') (\<lambda>connection.
          and_then (config_text configuration ''ca_certificate'') (\<lambda>ca.
          and_then (config_text configuration ''client_private_key'') (\<lambda>key.
          and_then (config_text configuration ''client_cert'') (\<lambda>cert.
          Inr \<lparr>vc_connection = strip connection, vc_ca_certificate = ca, vc_private_key = key,
               vc_certificate = cert\<rparr>))))
      | _ \<Rightarrow> Inl VelociraptorConfigurationError)"

definition mk_velo_client :: "velo_host \<Rightarrow> ustring \<Rightarrow> exn + velo_client" where
  "mk_velo_client host path =
     (case vh_file host path of
        Config_bytes content \<Rightarrow>
          if occurs_in encrypted_marker content then Inl VelociraptorConfigurationError
          else (case vh_load host path of
                  None \<Rightarrow> Inl VelociraptorConfigurationError
                | Some configuration \<Rightarrow> client_of_config configuration)
      | _ \<Rightarrow> Inl VelociraptorConfigurationError)"

section \<open>The backend\<close>

text \<open>What the API does with the queries of a client, for every call of the backend.\<close>

type_synonym velo_api = "velo_client \<Rightarrow> nat \<Rightarrow> velo_env"

definition make_backend_router :: "velo_host \<Rightarrow> velo_api \<Rightarrow> settings \<Rightarrow> exn + backend list" where
  "make_backend_router host api env =
     (let backend_name = (case dict_get env backend_setting of None \<Rightarrow> mock_name | Some v \<Rightarrow> v) in
      if backend_name \<notin> {mock_name, velociraptor_name} then Inl RuntimeError
      else if backend_name = mock_name then
        if filter (\<lambda>name. dict_get env name \<noteq> None) velociraptor_settings \<noteq> [] then Inl RuntimeError
        else and_then (mk_mock_backend mock_name [process_list]) (\<lambda>b. Inr [b])
      else
        and_then (require_exact_nonempty_setting env velociraptor_config_setting) (\<lambda>path.
        and_then (require_exact_nonempty_setting env velociraptor_host_setting) (\<lambda>target.
        and_then (require_exact_nonempty_setting env velociraptor_client_setting) (\<lambda>client_id.
        and_then (mk_velo_client host path) (\<lambda>client.
        and_then (mk_velo_backend [(target, client_id)] collection_timeout_seconds) (\<lambda>b.
        Inr [velociraptor_backend (api client) b]))))))"

section \<open>The service\<close>

record service =
  sv_export :: "ustring option"
  sv_orchestrator :: orchestrator
  sv_database_url :: ustring
  sv_started :: "(ustring, json) dict"

definition service_started :: "ustring \<Rightarrow> backend \<Rightarrow> exn + (ustring, json) dict" where
  "service_started timestamp b =
     emit_payload (S ''service.started'') (S ''INFO'')
       [(S ''backend'', JStr (bk_name b)),
        (S ''capabilities'', JArr (map JStr (sorted_list_of_set (bk_capabilities b)))),
        (S ''persistence'', JStr (S ''postgresql''))]
       empty_context timestamp None"

definition start_service :: "velo_host \<Rightarrow> velo_api \<Rightarrow> ustring \<Rightarrow> settings \<Rightarrow> exn + service" where
  "start_service host api timestamp env =
     and_then (export_endpoint env) (\<lambda>endpoint.
     and_then (make_backend_router host api env) (\<lambda>router.
     and_then (require_database_url env) (\<lambda>url.
     and_then (service_started timestamp (hd router)) (\<lambda>event.
     Inr \<lparr>sv_export = endpoint,
          sv_orchestrator = \<lparr>oc_policy = baseline_decide, oc_router = router,
                             oc_request_factory = make_process_inventory_request\<rparr>,
          sv_database_url = url, sv_started = event\<rparr>))))"


section \<open>The operator command\<close>

text \<open>\<open>alert2ir reconcile --once\<close>, after \<open>argparse\<close>: what it prints and its exit status.\<close>

definition reconciliation_text :: "reconciliation_report \<Rightarrow> ustring" where
  "reconciliation_text report =
     dumps (JObj [(S ''examined'', JInt (int (rr_examined report))), (S ''advanced'', JInt (int (rr_advanced report))),
                  (S ''failed'', JInt (int (rr_failed report))),
                  (S ''time_limit_reached'', JBool (rr_time_limit_reached report))])"

definition cli_reconcile :: "'s repository \<Rightarrow> env \<Rightarrow> ('s, ustring \<times> int) action" where
  "cli_reconcile R E =
     bind (reconcile_once R E reconciliation_limit reconciliation_time_limit_seconds submitting_stale_after)
       (\<lambda>report. ret (text_line (reconciliation_text report), if rr_failed report \<noteq> 0 then 1 else 0))"

end
