(* ===== verification/VeloProps.thy ===== *)
theory VeloProps
  imports Velociraptor Fingerprint
begin

text \<open>
  Properties of the Velociraptor backend: what its errors say about what was sent, that query
  texts cannot be forged through the values in them, that a status is only reported of the flow
  that was asked for, and that collection is bounded by its deadline.
\<close>

section \<open>Literals\<close>

lemma drop_hex_fix [simp]: "drop 4 (hex_fix 4 c @ s) = s" "drop 6 (hex_fix 4 c @ x # y # s) = s" "drop 10 (hex_fix 4 c @ x # y # hex_fix 4 d @ s) = s"
  by simp_all

lemma surrogates:
  assumes "65536 \<le> c" "c < 1114112"
  shows "joined (55296 + (c - 65536) div 1024) (56320 + (c - 65536) mod 1024)"
    and "join_surrogates (55296 + (c - 65536) div 1024) (56320 + (c - 65536) mod 1024) = c"
    and "55296 + (c - 65536) div 1024 < 16 ^ 4" "56320 + (c - 65536) mod 1024 < 16 ^ 4"
proof -
  have d: "(c - 65536) div 1024 < 1024" using assms(2) by (intro less_mult_imp_div_less) simp
  have m: "(c - 65536) mod 1024 < 1024" by simp
  show "joined (55296 + (c - 65536) div 1024) (56320 + (c - 65536) mod 1024)" using d m by simp
  show "join_surrogates (55296 + (c - 65536) div 1024) (56320 + (c - 65536) mod 1024) = c"
    using assms(1) by (simp add: join_surrogates_def)
  show "55296 + (c - 65536) div 1024 < 16 ^ 4" "56320 + (c - 65536) mod 1024 < 16 ^ 4" using d m by simp_all
qed

lemma scan_ascii:
  assumes "encodable c"
  shows "scan_string (ascii_escape c @ s) = cons_fst c (scan_string s)"
proof -
  consider "c \<in> {34, 92, 8, 12, 10, 13, 9}" | "32 \<le> c" "c \<le> 126" "c \<noteq> 34" "c \<noteq> 92"
    | "c < 65536" "\<not> (32 \<le> c \<and> c \<le> 126)" "c \<notin> {34, 92, 8, 12, 10, 13, 9}" | "65536 \<le> c" by force
  then show ?thesis
  proof cases
    case 3
    then have e: "ascii_escape c = 92 # 117 # hex_fix 4 c" by (auto simp: ascii_escape_def)
    have h: "hex4 (hex_fix 4 c @ s) = Some c" using 3(1) by (intro hex4_fix) simp
    have "\<not> joined c v" for v using assms 3(1) by (auto simp: encodable_def)
    then show ?thesis by (simp add: e h del: joined.simps split: option.split)
  next
    case 4
    let ?u = "55296 + (c - 65536) div 1024" and ?v = "56320 + (c - 65536) mod 1024"
    have e: "ascii_escape c = 92 # 117 # hex_fix 4 ?u @ 92 # 117 # hex_fix 4 ?v" using 4 by (auto simp: ascii_escape_def)
    have c: "c < 1114112" using assms by (simp add: encodable_def)
    note s = surrogates [OF 4 c]
    have h: "hex4 (hex_fix 4 ?u @ 92 # 117 # hex_fix 4 ?v @ s) = Some ?u" "hex4 (hex_fix 4 ?v @ s) = Some ?v"
      using s(3,4) by (simp_all only: hex4_fix)
    show ?thesis using s(1) by (simp add: e h s(2) del: joined.simps)
  qed (auto simp: ascii_escape_def simple_escape_def)
qed

lemma scan_ascii_quoted: "list_all encodable s \<Longrightarrow> scan_string (concat (map ascii_escape s) @ 34 # r) = Some (s, r)"
  by (induction s) (simp_all add: scan_ascii)

lemma ascii_quote_prefix:
  assumes "list_all encodable s" "list_all encodable t" "ascii_quote s @ x = ascii_quote t @ y"
  shows "s = t \<and> x = y"
proof -
  have "concat (map ascii_escape s) @ 34 # x = concat (map ascii_escape t) @ 34 # y"
    using assms(3) by (simp add: ascii_quote_def)
  then have "Some (s, x) = Some (t, y)"
    unfolding scan_ascii_quoted [OF assms(1), symmetric] scan_ascii_quoted [OF assms(2), symmetric] by (rule arg_cong)
  then show ?thesis by simp
qed

lemma ascii_escape_printable: "list_all (\<lambda>d. 32 \<le> d \<and> d \<le> 126) (ascii_escape c)"
proof -
  have "32 \<le> d \<and> d \<le> 126" if "d \<in> set (hex_fix 4 n)" for d n
    using hex_fix_chars [OF that] unfolding is_hex_def is_digit_def by linarith
  then have h: "list_all (\<lambda>d. 32 \<le> d \<and> d \<le> 126) (hex_fix 4 n)" for n unfolding list_all_iff by blast
  show ?thesis by (simp add: ascii_escape_def h)
qed

lemma ascii_quote_printable: "list_all (\<lambda>d. 32 \<le> d \<and> d \<le> 126) (ascii_quote s)"
proof -
  have "list_all (\<lambda>d. 32 \<le> d \<and> d \<le> 126) (concat (map ascii_escape s))"
    by (induction s) (simp_all add: ascii_escape_printable)
  then show ?thesis by (simp add: ascii_quote_def)
qed

text \<open>The text of a query determines the values in it.\<close>

lemma schedule_vql_inj:
  assumes "list_all encodable c" "list_all encodable c'" "list_all encodable a" "list_all encodable a'"
    and "schedule_vql (ascii_quote c) (ascii_quote a) t = schedule_vql (ascii_quote c') (ascii_quote a') t'"
  shows "c = c' \<and> a = a' \<and> t = t'"
proof -
  let ?tail = "S '')'' @ [10] @ text_line [] @ text_line (S ''SELECT'') @ text_line (S ''    collection.flow_id AS flow_id,'')
     @ text_line (S ''    collection.request.client_id AS client_id,'')
     @ text_line (S ''    collection.request.artifacts AS artifacts'') @ text_line (S ''FROM scope()'')"
  let ?after = "\<lambda>a t. S '','' @ [10] @ S ''    artifacts=['' @ ascii_quote a @ S ''],'' @ [10] @ S ''    timeout='' @ t @ ?tail"
  have "schedule_vql (ascii_quote c) (ascii_quote a) t =
    text_line (S ''LET collection <= collect_client('') @ S ''    client_id='' @ ascii_quote c @ ?after a t" for c a t
    by (simp only: schedule_vql_def text_line_def append_assoc)
  then have "ascii_quote c @ ?after a t = ascii_quote c' @ ?after a' t'"
    using assms(5) by (simp only: same_append_eq)
  from ascii_quote_prefix [OF assms(1,2) this] have 1: "c = c'" "?after a t = ?after a' t'" by blast+
  from 1(2) have "ascii_quote a @ S ''],'' @ [10] @ S ''    timeout='' @ t @ ?tail = ascii_quote a' @ S ''],'' @ [10] @ S ''    timeout='' @ t' @ ?tail"
    by (simp only: same_append_eq)
  from ascii_quote_prefix [OF assms(3,4) this] have "a = a'" "S ''],'' @ [10] @ S ''    timeout='' @ t @ ?tail = S ''],'' @ [10] @ S ''    timeout='' @ t' @ ?tail"
    by blast+
  from this(2) have "t @ ?tail = t' @ ?tail" by (simp only: same_append_eq)
  then have "t = t'" by (simp only: append_same_eq)
  with 1(1) \<open>a = a'\<close> show ?thesis by blast
qed

lemma flow_vql_inj:
  assumes "list_all encodable c" "list_all encodable c'" "list_all encodable f" "list_all encodable f'"
    and "flow_vql (ascii_quote c) (ascii_quote f) = flow_vql (ascii_quote c') (ascii_quote f')"
  shows "c = c' \<and> f = f'"
proof -
  let ?start = "text_line (S ''SELECT'') @ text_line (S ''    session_id,'') @ text_line (S ''    state,'')
     @ text_line (S ''    request.client_id AS client_id,'') @ text_line (S ''    request.artifacts AS artifacts,'')
     @ text_line (S ''    status'') @ text_line (S ''FROM flows('') @ S ''    client_id=''"
  let ?after = "\<lambda>f. S '','' @ [10] @ S ''    flow_id='' @ ascii_quote f @ S '')'' @ [10]"
  have eq: "flow_vql (ascii_quote c) (ascii_quote f) = ?start @ ascii_quote c @ ?after f" for c f
    by (simp only: flow_vql_def text_line_def append_assoc)
  have "?start @ ascii_quote c @ ?after f = ?start @ ascii_quote c' @ ?after f'" using assms(5) unfolding eq .
  then have "ascii_quote c @ ?after f = ascii_quote c' @ ?after f'" by (simp only: same_append_eq)
  from ascii_quote_prefix [OF assms(1,2) this] have 1: "c = c'" "?after f = ?after f'" by blast+
  from 1(2) have "ascii_quote f @ S '')'' @ [10] = ascii_quote f' @ S '')'' @ [10]" by (simp only: same_append_eq)
  from ascii_quote_prefix [OF assms(3,4) this] 1(1) show ?thesis by blast
qed

lemma flow_never_schedules: "flow_vql c f \<noteq> schedule_vql c' a t"
  by (simp add: flow_vql_def schedule_vql_def text_line_def S_def)

section \<open>What is sent\<close>

primrec queries_of :: "velo_event list \<Rightarrow> (ustring \<times> rat) list" where
  "queries_of [] = []"
| "queries_of (e # es) = (case e of V_queried vql t \<Rightarrow> (vql, t) # queries_of es | _ \<Rightarrow> queries_of es)"

text \<open>The queries sent, the most recent first, and the channels that are open.\<close>

definition velo_sent :: "velo_world \<Rightarrow> (ustring \<times> rat) list" where
  "velo_sent w = queries_of (vw_events w)"

definition channels_open :: "velo_world \<Rightarrow> int" where
  "channels_open w = int (count_list (vw_events w) V_opened) - int (count_list (vw_events w) V_closed)"

lemma velo_sent_simps [simp]:
  "velo_sent (velo_tick E w) = velo_sent w" "velo_sent (velo_log (V_queried vql t) w) = (vql, t) # velo_sent w"
  "velo_sent (velo_log V_opened w) = velo_sent w" "velo_sent (velo_log V_closed w) = velo_sent w"
  "velo_sent (velo_log (V_submitted x) w) = velo_sent w" "velo_sent (velo_log (V_slept d) w) = velo_sent w"
  "velo_sent (velo_log (V_span_finished oc c) w) = velo_sent w" "velo_sent (w\<lparr>vw_now := n\<rparr>) = velo_sent w"
  "velo_sent velo_start = []"
  by (simp_all add: velo_sent_def velo_tick_def velo_log_def velo_start_def)

lemma channels_open_simps [simp]:
  "channels_open (velo_tick E w) = channels_open w" "channels_open (velo_log (V_queried vql t) w) = channels_open w"
  "channels_open (velo_log V_opened w) = channels_open w + 1" "channels_open (velo_log V_closed w) = channels_open w - 1"
  "channels_open (velo_log (V_submitted x) w) = channels_open w" "channels_open (velo_log (V_slept d) w) = channels_open w"
  "channels_open (velo_log (V_span_finished oc c) w) = channels_open w" "channels_open (w\<lparr>vw_now := n\<rparr>) = channels_open w"
  "channels_open velo_start = 0"
  by (simp_all add: channels_open_def velo_tick_def velo_log_def velo_start_def)

lemma step_simps [simp]:
  "vw_step (velo_tick E w) = Suc (vw_step w)" "vw_step (velo_log e w) = vw_step w" "vw_step velo_start = 0"
  "vw_now (velo_tick E w) = vw_now w + ve_elapsed E (vw_step w)" "vw_now (velo_log e w) = vw_now w"
  by (simp_all add: velo_tick_def velo_log_def velo_start_def)

lemma run_query_eq:
  "run_query E vql t w =
     (query_rows (ve_query E (vw_step w) vql t), velo_tick E (velo_log (V_queried vql t) w))"
  by (simp add: run_query_def velo_emit_def prog_simps)

lemma query_once_eq:
  "query_once E vql t w =
     (case ve_channel E (vw_step w) of
        Channel_ready \<Rightarrow> (query_rows (ve_query E (Suc (vw_step w)) vql t),
          velo_log V_closed (velo_tick E (velo_log (V_queried vql t) (velo_log V_opened (velo_tick E w)))))
      | Channel_refused \<Rightarrow> (Inl BackendSubmissionRejectedError, velo_tick E w)
      | Stub_failed \<Rightarrow> (Inl BackendSubmissionRejectedError, velo_log V_closed (velo_log V_opened (velo_tick E w))))"
  by (simp add: query_once_def with_channel_def velo_emit_def prog_simps run_query_eq split: channel_outcome.split)

text \<open>No error of a query that was sent is a verdict about the submission.\<close>

definition query_error :: "exn \<Rightarrow> bool" where
  "query_error e \<longleftrightarrow> e = TimeoutError \<or> (\<exists>m. e = VelociraptorCollectionError m)"

lemma query_rows_error: "query_rows a = Inl e \<Longrightarrow> query_error e"
proof -
  have r: "response_rows x = Inl e \<Longrightarrow> query_error e" for x
    by (auto simp: response_rows_def query_error_def collection_error_def split: if_splits option.splits pyvalue.splits)
  have "traverse response_rows xs = Inl e \<Longrightarrow> query_error e" for xs
  proof (induction xs)
    case (Cons x xs)
    then show ?case using r [of x] by (cases "response_rows x"; cases "traverse response_rows xs") auto
  qed simp
  moreover have "end_of_query q = Inl e \<Longrightarrow> query_error e" for q
    by (auto simp: end_of_query_def query_error_def collection_error_def split: query_end.splits)
  moreover assume "query_rows a = Inl e"
  ultimately show ?thesis
    by (cases "traverse response_rows (fst a)"; cases "end_of_query (snd a)") (auto simp: query_rows_def)
qed

lemma query_error_verdict [simp]: "query_error e \<Longrightarrow> \<not> is_submission_rejected e \<and> \<not> is_submission_unknown e"
  by (auto simp: query_error_def)

section \<open>Submission\<close>

lemma flow_identifier_Some:
  "flow_identifier v = Some s \<longleftrightarrow> v = PStr s \<and> nonblank s \<and> take 2 s = S ''F.''"
  by (cases v) (auto simp: flow_identifier_def)

definition scheduled :: "velo_env \<Rightarrow> ustring \<Rightarrow> rat \<Rightarrow> ustring \<times> rat" where
  "scheduled E client_id t =
     (schedule_vql (ascii_quote client_id) (ascii_quote process_list_artifact) (ve_float_text E t), t)"

lemma artifact_nonblank: "nonblank process_list_artifact"
  by (simp add: process_list_artifact_def S_def is_space_def)

text \<open>The answer names a flow of the client that was asked for.\<close>

definition flow_scheduled :: "velo_row \<Rightarrow> ustring \<Rightarrow> ustring \<Rightarrow> bool" where
  "flow_scheduled row client_id flow_id \<longleftrightarrow>
     get_value row ''flow_id'' = PStr flow_id \<and> nonblank flow_id \<and> take 2 flow_id = S ''F.''
     \<and> get_value row ''client_id'' = PStr client_id
     \<and> validate_artifacts (get_value row ''artifacts'') process_list_artifact"

lemma schedule_outcome:
  assumes "velo_schedule E c process_list_artifact t w = (res, w')"
  shows "case res of
      Inr x \<Rightarrow> velo_sent w' = scheduled E c t # velo_sent w
        \<and> (\<exists>row. query_rows (ve_query E (Suc (vw_step w)) (fst (scheduled E c t)) t) = Inr [row] \<and> flow_scheduled row c x)
    | Inl e \<Rightarrow> (if is_submission_unknown e then velo_sent w' = scheduled E c t # velo_sent w else velo_sent w' = velo_sent w)"
proof (cases "0 < t \<and> nonblank c")
  case False
  with assms show ?thesis
    by (auto simp: velo_schedule_def validate_timeout_def schedule_text_def vql_string_literal_def bind_def lift_def
        collection_error_def split: if_splits)
next
  case True
  then obtain q where s: "schedule_text E c process_list_artifact t = Inr q" "scheduled E c t = (q, t)"
    by (simp add: schedule_text_def vql_string_literal_def artifact_nonblank scheduled_def)
  let ?answer = "query_rows (ve_query E (Suc (vw_step w)) q t)"
  have eq: "velo_schedule E c process_list_artifact t w =
    try_except (query_once E q t)
       (\<lambda>e. raise (if is_submission_rejected e then e else VelociraptorSubmissionUnknownError))
       (\<lambda>rows. case rows of
          [row] \<Rightarrow>
            (case flow_identifier (get_value row ''flow_id'') of
               None \<Rightarrow> raise VelociraptorSubmissionUnknownError
             | Some flow_id \<Rightarrow>
                 if get_value row ''client_id'' \<noteq> PStr c
                    \<or> \<not> validate_artifacts (get_value row ''artifacts'') process_list_artifact
                 then raise VelociraptorSubmissionUnknownError
                 else then_do (velo_emit (V_submitted flow_id)) (ret flow_id))
        | _ \<Rightarrow> raise VelociraptorSubmissionUnknownError) w"
    using True s(1) by (simp add: velo_schedule_def validate_timeout_def bind_def lift_def)
  show ?thesis
  proof (cases "ve_channel E (vw_step w) = Channel_ready")
    case False
    then show ?thesis using assms unfolding eq
      by (cases "ve_channel E (vw_step w)") (auto simp: query_once_eq prog_simps)
  next
    case ready: True
    show ?thesis
    proof (cases ?answer)
      case (Inl e)
      with query_rows_error [OF Inl] ready assms show ?thesis unfolding eq
        by (auto simp: query_once_eq prog_simps s(2))
    next
      case (Inr rows)
      with ready assms show ?thesis unfolding eq
        by (auto simp: query_once_eq prog_simps velo_emit_def flow_scheduled_def flow_identifier_Some s(2)
            split: list.splits option.splits if_splits)
    qed
  qed
qed

lemma resolve_error: "resolve_client_id b r = Inl e \<Longrightarrow> \<not> is_submission_unknown e"
  by (auto simp: resolve_client_id_def split: if_splits list.splits option.splits)

lemma effective_timeout_error: "effective_timeout b to = Inl e \<Longrightarrow> \<not> is_submission_unknown e"
  by (auto simp: effective_timeout_def split: if_splits option.splits)

text \<open>C22: A submission sends at most one query, the one that schedules the collection for the client
  of the host. It returns an operation only when the one row of the answer names a flow of that
  client and artifact. When the outcome is unknown, the query was sent; any other exception means
  that nothing was sent, but for the ValueError of a flow identifier of more than 512 characters.\<close>

theorem velociraptor_submission_outcomes:
  "case velo_submit E b r to velo_start of
     (Inr op, w) \<Rightarrow> (\<exists>client t row. resolve_client_id b r = Inr client \<and> effective_timeout b to = Inr t
        \<and> velo_sent w = [scheduled E client t]
        \<and> query_rows (ve_query E 1 (fst (scheduled E client t)) t) = Inr [row]
        \<and> flow_scheduled row client (so_external_operation_id op))
   | (Inl e, w) \<Rightarrow>
       if is_submission_unknown e then length (velo_sent w) = 1
       else velo_sent w = [] \<or> (e = ValueError \<and> length (velo_sent w) = 1)"
proof (cases "resolve_client_id b r")
  case (Inl e)
  then show ?thesis using resolve_error [OF Inl] by (simp add: velo_submit_def bind_def lift_def)
next
  case client: (Inr client)
  show ?thesis
  proof (cases "effective_timeout b to")
    case (Inl e)
    then show ?thesis using client effective_timeout_error [OF Inl] by (simp add: velo_submit_def bind_def lift_def)
  next
    case t: (Inr t)
    obtain res w where s: "velo_schedule E client process_list_artifact t velo_start = (res, w)" by fastforce
    have eq: "velo_submit E b r to velo_start =
      (case res of Inl e \<Rightarrow> (Inl e, w) | Inr x \<Rightarrow> (mk_submitted_operation x, w))"
      using client t s by (simp add: velo_submit_def bind_def lift_def split: sum.split)
    show ?thesis
    proof (cases res)
      case (Inl e)
      with schedule_outcome [OF s] show ?thesis by (simp add: eq split: if_splits)
    next
      case (Inr x)
      with schedule_outcome [OF s] obtain row where o: "velo_sent w = [scheduled E client t]"
        "query_rows (ve_query E 1 (fst (scheduled E client t)) t) = Inr [row]" "flow_scheduled row client x" by auto
      have "mk_submitted_operation x = (if 512 < length x then Inl ValueError else Inr \<lparr>so_external_operation_id = x\<rparr>)"
        using o(3) by (simp add: mk_submitted_operation_def flow_scheduled_def require_non_empty_def nonblank_def)
      with o client t show ?thesis by (auto simp: eq Inr)
    qed
  qed
qed

section \<open>Polling\<close>

definition looked_up :: "ustring \<Rightarrow> ustring \<Rightarrow> rat \<Rightarrow> ustring \<times> rat" where
  "looked_up client_id flow_id t = (flow_vql (ascii_quote client_id) (ascii_quote flow_id), t)"

text \<open>What a status says of the rows of the answer.\<close>

definition status_of_rows :: "velo_row list \<Rightarrow> ustring \<Rightarrow> ustring \<Rightarrow> operation_status \<Rightarrow> bool" where
  "status_of_rows rows client_id flow_id st \<longleftrightarrow>
     (case rows of
        [] \<Rightarrow> os_state st = Some NONTERMINAL
      | [row] \<Rightarrow> flow_verified row client_id process_list_artifact flow_id
          \<and> get_value row ''state'' = PStr (os_remote_state st)
          \<and> flow_state (PStr (os_remote_state st)) = os_state st \<and> os_state st \<noteq> None
      | _ \<Rightarrow> False)"

lemma flow_status_Inr:
  "flow_status rows c process_list_artifact x = Inr st \<Longrightarrow> status_of_rows rows c x st"
  by (auto simp: flow_status_def status_of_rows_def mk_operation_status_Inr
      split: list.splits if_splits option.splits pyvalue.splits)

text \<open>C23: A poll sends at most one query, which looks the flow up and cannot schedule. It reports a
  status only when the answer is empty, or has one row for exactly the flow, client and artifact
  that were asked for, whose state is in the vocabulary.\<close>

theorem velociraptor_poll_verified:
  "case velo_poll E b r x to velo_start of
     (Inr st, w) \<Rightarrow> (\<exists>client t rows. resolve_client_id b r = Inr client \<and> effective_timeout b to = Inr t
        \<and> velo_sent w = [looked_up client x t]
        \<and> query_rows (ve_query E 1 (fst (looked_up client x t)) t) = Inr rows \<and> status_of_rows rows client x st)
   | (Inl e, w) \<Rightarrow> velo_sent w = [] \<or> (\<exists>client t. velo_sent w = [looked_up client x t])"
proof (cases "\<exists>client t. resolve_client_id b r = Inr client \<and> effective_timeout b to = Inr t \<and> 0 < t
    \<and> nonblank client \<and> nonblank x")
  case False
  then show ?thesis
    by (cases "resolve_client_id b r"; cases "effective_timeout b to")
      (auto simp: velo_poll_def velo_poll_flow_def bind_def lift_def validate_timeout_def flow_text_def
        vql_string_literal_def artifact_nonblank)
next
  case True
  then obtain client t where c: "resolve_client_id b r = Inr client" "effective_timeout b to = Inr t" "0 < t"
    "nonblank client" "nonblank x" by blast
  obtain q where q: "looked_up client x t = (q, t)" "flow_text client process_list_artifact x = Inr q"
    using c by (simp add: looked_up_def flow_text_def vql_string_literal_def artifact_nonblank)
  have eq: "velo_poll E b r x to velo_start =
    bind (query_once E q t) (\<lambda>rows. lift (flow_status rows client process_list_artifact x)) velo_start"
    using c q by (simp add: velo_poll_def velo_poll_flow_def bind_def lift_def validate_timeout_def)
  show ?thesis
  proof (cases "ve_channel E 0 = Channel_ready")
    case False
    then show ?thesis unfolding eq by (cases "ve_channel E 0") (simp_all add: query_once_eq prog_simps)
  next
    case ready: True
    have q': "\<exists>client' t'. (q, t) = looked_up client' x t'" using q(1) by metis
    show ?thesis
    proof (cases "query_rows (ve_query E 1 q t)")
      case (Inl e)
      with ready q' show ?thesis unfolding eq by (simp add: query_once_eq prog_simps)
    next
      case (Inr rows)
      with ready q c q' flow_status_Inr [of rows client x] show ?thesis unfolding eq
        by (auto simp: query_once_eq prog_simps split: sum.splits)
    qed
  qed
qed

section \<open>Texts\<close>

text \<open>C24: The literals of a query are printable ASCII and read back, in any context, as the text they
  stand for; so no host, client, artifact or flow can change the query, and two queries with the
  same text are about the same client, artifact and flow.\<close>

theorem velociraptor_literals_faithful:
  assumes "list_all encodable c" "list_all encodable c'" "list_all encodable a" "list_all encodable a'"
  shows "scan_string (drop 1 (ascii_quote c) @ rest) = Some (c, rest)
    \<and> list_all (\<lambda>d. 32 \<le> d \<and> d \<le> 126) (ascii_quote c)
    \<and> (schedule_vql (ascii_quote c) (ascii_quote a) t = schedule_vql (ascii_quote c') (ascii_quote a') t'
         \<longleftrightarrow> c = c' \<and> a = a' \<and> t = t')
    \<and> (flow_vql (ascii_quote c) (ascii_quote a) = flow_vql (ascii_quote c') (ascii_quote a') \<longleftrightarrow> c = c' \<and> a = a')
    \<and> flow_vql (ascii_quote c) (ascii_quote a) \<noteq> schedule_vql (ascii_quote c') (ascii_quote a') t'"
  using scan_ascii_quoted [OF assms(1), of rest] ascii_quote_printable schedule_vql_inj [OF assms] flow_vql_inj [OF assms]
    flow_never_schedules
  by (auto simp: ascii_quote_def)

theorem velociraptor_literals_faithful_witness:
  "flow_vql (ascii_quote (S ''C.1'')) (ascii_quote (S ''F.1'')) \<noteq> flow_vql (ascii_quote (S ''C.1'')) (ascii_quote (S ''F.2''))"
proof -
  have e: "list_all encodable (S ''C.1'')" "list_all encodable (S ''F.1'')" "list_all encodable (S ''F.2'')" by simp_all
  have "S ''F.1'' \<noteq> S ''F.2''" by simp
  with velociraptor_literals_faithful [OF e(1) e(1) e(2) e(3)] show ?thesis by blast
qed

section \<open>Collection\<close>

lemma keeps_open [keeps_intro]:
  "keeps (\<lambda>w. channels_open w = n) (run_query E vql t)" "keeps (\<lambda>w. channels_open w = n) (deadline_remaining E d)"
  "keeps (\<lambda>w. channels_open w = n) (velo_sleep E d)" "keeps (\<lambda>w. channels_open w = n) (modify (velo_tick E))"
  by (auto simp: keeps_def run_query_eq deadline_remaining_def velo_sleep_def prog_simps)

lemma keeps_schedule_row [keeps_intro]: "keeps (\<lambda>w. channels_open w = n) (schedule_row rows c a)"
  unfolding schedule_row_def
  by (auto simp: velo_emit_def split: list.split option.split intro!: keeps_intro)

lemma keeps_collect_loop [keeps_intro]: "keeps (\<lambda>w. channels_open w = n) (collect_loop E fuel d vql c a f)"
proof (induction fuel)
  case (Suc k)
  then show ?case unfolding collect_loop.simps wait_for_next_poll_def by (intro keeps_intro)
qed (auto intro: keeps_intro)

lemma with_channel_open:
  assumes "\<And>n. keeps (\<lambda>w. channels_open w = n) m"
  shows "keeps (\<lambda>w. channels_open w = n) (with_channel E e m)"
proof (rule keepsI)
  fix w r w' assume w: "channels_open w = n" and e: "with_channel E e m w = (r, w')"
  obtain r2 w2 where m: "m (velo_log V_opened (velo_tick E w)) = (r2, w2)" by fastforce
  from keepsD [OF assms _ m] have "channels_open w2 = n + 1" using w by simp
  with e w m show "channels_open w' = n"
    by (auto simp: with_channel_def velo_emit_def prog_simps split: channel_outcome.splits)
qed

lemma keeps_client [keeps_intro]:
  "keeps (\<lambda>w. channels_open w = n) (query_once E vql t)"
  "keeps (\<lambda>w. channels_open w = n) (velo_schedule E c a t)"
  "keeps (\<lambda>w. channels_open w = n) (velo_poll_flow E c a f t)"
  "keeps (\<lambda>w. channels_open w = n) (velo_collect E fuel c a t)"
proof -
  show q: "keeps (\<lambda>w. channels_open w = n) (query_once E vql t)" for n vql t
    unfolding query_once_def by (intro with_channel_open keeps_intro)
  show "keeps (\<lambda>w. channels_open w = n) (velo_schedule E c a t)"
    unfolding velo_schedule_def by (auto simp: velo_emit_def split: list.split option.split intro!: keeps_intro q)
  show "keeps (\<lambda>w. channels_open w = n) (velo_poll_flow E c a f t)"
    unfolding velo_poll_flow_def by (intro keeps_intro q)
  show "keeps (\<lambda>w. channels_open w = n) (velo_collect E fuel c a t)"
    unfolding velo_collect_def by (intro keeps_intro with_channel_open)
qed

text \<open>Every operation closes the channels that it opens, whatever fails.\<close>

theorem velociraptor_closes_channels:
  "channels_open (snd (velo_submit E b r to w)) = channels_open w
   \<and> channels_open (snd (velo_poll E b r x to w)) = channels_open w
   \<and> channels_open (snd (velo_investigate E fuel b r w)) = channels_open w"
proof -
  have "keeps (\<lambda>w. channels_open w = n) (velo_submit E b r to)" for n unfolding velo_submit_def by (intro keeps_intro)
  moreover have "keeps (\<lambda>w. channels_open w = n) (velo_poll E b r x to)" for n unfolding velo_poll_def by (intro keeps_intro)
  moreover have "keeps (\<lambda>w. channels_open w = n) (velo_investigate E fuel b r)" for n
    unfolding velo_investigate_def Let_def by (auto simp: velo_emit_def split: option.split intro!: keeps_intro)
  ultimately show ?thesis by (auto simp: keeps_def)
qed

text \<open>Each turn that is not the last sleeps for the poll interval, or until the deadline.\<close>

definition clock_advances :: "velo_env \<Rightarrow> bool" where
  "clock_advances E \<longleftrightarrow> (\<forall>n. 0 \<le> ve_elapsed E n)"

definition queries_sent :: "velo_world \<Rightarrow> nat" where
  "queries_sent w = length (velo_sent w)"

lemma deadline_remaining_eq:
  "deadline_remaining E d w =
     (if d \<le> vw_now w then Inl (collection_error deadline_message) else Inr (d - vw_now w), velo_tick E w)"
  by (simp add: deadline_remaining_def prog_simps)

lemma wait_for_next_poll_eq:
  "wait_for_next_poll E d w =
     (if d \<le> vw_now w then (Inl (collection_error deadline_message), velo_tick E w)
      else velo_sleep E (min poll_interval_seconds (d - vw_now w)) (velo_tick E w))"
  by (simp add: wait_for_next_poll_def deadline_remaining_eq bind_def)

lemma velo_sleep_facts:
  assumes "velo_sleep E d w = (r, w')"
  shows "r = Inr () \<and> vw_now w' = vw_now w + d + ve_elapsed E (vw_step w) \<and> velo_sent w' = velo_sent w"
  using assms by (auto simp: velo_sleep_def prog_simps)

lemma collect_turn:
  assumes E: "clock_advances E" and d: "d - vw_now w \<le> of_nat (Suc k)"
    and e: "wait_for_next_poll E d (velo_tick E (velo_log q (velo_tick E w))) = (Inr (), w')"
  shows "d - vw_now w' \<le> of_nat k"
proof -
  let ?w = "velo_tick E (velo_log q (velo_tick E w))"
  have el: "0 \<le> ve_elapsed E n" for n using E by (simp add: clock_advances_def)
  have now: "vw_now w \<le> vw_now ?w" using el by (simp add: add_nonneg_nonneg)
  from e have n: "\<not> d \<le> vw_now ?w" by (auto simp: wait_for_next_poll_eq split: if_splits)
  with e have "velo_sleep E (min poll_interval_seconds (d - vw_now ?w)) (velo_tick E ?w) = (Inr (), w')"
    by (simp add: wait_for_next_poll_eq del: step_simps)
  from velo_sleep_facts [OF this]
  have "vw_now w' = vw_now ?w + ve_elapsed E (vw_step ?w) + min poll_interval_seconds (d - vw_now ?w) + ve_elapsed E (Suc (vw_step ?w))"
    by simp
  with el [of "vw_step ?w"] el [of "Suc (vw_step ?w)"]
  have "vw_now ?w + min 1 (d - vw_now ?w) \<le> vw_now w'" by (simp add: poll_interval_seconds_def)
  then show ?thesis using d now n by (auto simp: min_def split: if_splits)
qed

lemma collect_loop_bounded:
  assumes E: "clock_advances E"
  shows "d - vw_now w \<le> of_nat k \<Longrightarrow> k < fuel \<Longrightarrow> collect_loop E fuel d vql c a f w = (res, w') \<Longrightarrow>
    res \<noteq> Inr None \<and> queries_sent w' \<le> queries_sent w + k"
proof (induction fuel arbitrary: k w)
  case (Suc n)
  show ?case
  proof (cases "d \<le> vw_now w")
    case True
    with Suc.prems(3) show ?thesis by (auto simp: bind_def deadline_remaining_eq queries_sent_def)
  next
    case False
    then have "0 < d - vw_now w" by simp
    with Suc.prems(1) obtain k' where k: "k = Suc k'" by (cases k) auto
    let ?t = "d - vw_now w"
    let ?w = "velo_tick E (velo_log (V_queried vql ?t) (velo_tick E w))"
    have step: "collect_loop E (Suc n) d vql c a f w =
      bind (lift (and_then (query_rows (ve_query E (vw_step (velo_tick E w)) vql ?t)) (\<lambda>rows. collect_answer rows c a f)))
        (\<lambda>finished. if finished then ret (Some f)
          else then_do (wait_for_next_poll E d) (collect_loop E n d vql c a f)) ?w"
      using False
      by (cases "query_rows (ve_query E (vw_step (velo_tick E w)) vql ?t)")
        (simp_all add: bind_def lift_def deadline_remaining_eq run_query_eq del: step_simps)
    have one: "queries_sent ?w = Suc (queries_sent w)" by (simp add: queries_sent_def)
    show ?thesis
    proof (cases "and_then (query_rows (ve_query E (vw_step (velo_tick E w)) vql ?t)) (\<lambda>rows. collect_answer rows c a f)")
      case (Inl e)
      with Suc.prems(3) one k show ?thesis unfolding step by (auto simp: bind_def lift_def)
    next
      case (Inr finished)
      show ?thesis
      proof (cases finished)
        case True
        with Inr Suc.prems(3) one k show ?thesis unfolding step by (auto simp: bind_def lift_def ret_def)
      next
        case F: False
        obtain r w1 where w1: "wait_for_next_poll E d ?w = (r, w1)" by fastforce
        have s1: "queries_sent w1 = queries_sent ?w"
          using w1 velo_sleep_facts
          by (auto simp: wait_for_next_poll_eq queries_sent_def split: if_splits) 
        show ?thesis
        proof (cases r)
          case (Inl e)
          with Inr F Suc.prems(3) one k w1 s1 show ?thesis unfolding step by (auto simp: bind_def lift_def then_do_def)
        next
          case (Inr u)
          then have w1: "wait_for_next_poll E d ?w = (Inr (), w1)" using w1 by simp
          have "collect_loop E n d vql c a f w1 = (res, w')"
            using Suc.prems(3) \<open>and_then _ _ = Inr finished\<close> F w1 unfolding step by (simp add: bind_def lift_def then_do_def)
          from Suc.IH [OF _ _ this, of k'] collect_turn [OF E _ w1] Suc.prems(1,2) k one s1 show ?thesis by auto
        qed
      qed
    qed
  qed
qed simp

lemma schedule_row_sent: "schedule_row rows c a w = (r, w') \<Longrightarrow> velo_sent w' = velo_sent w \<and> vw_now w' = vw_now w"
  by (auto simp: schedule_row_def velo_emit_def prog_simps split: list.splits option.splits if_splits)

text \<open>C25: When the monotonic clock does not go back and a sleep lasts at least as long as was asked
  for, a collection ends: with as many turns as the timeout has seconds, and one, the loop is never cut
  off; it has then sent at most one query per second of the timeout, and the one that schedules.\<close>

theorem velociraptor_collection_ends:
  assumes "clock_advances E" "t \<le> of_nat k" "k < fuel"
  shows "fst (velo_collect E fuel c a t w) \<noteq> Inr None
    \<and> queries_sent (snd (velo_collect E fuel c a t w)) \<le> queries_sent w + k + 1"
proof -
  let ?body = "\<lambda>q. bind (run_query E q t) (\<lambda>rows.
        bind (schedule_row rows c a) (\<lambda>flow_id.
        bind (lift (flow_text c a flow_id)) (\<lambda>polling_vql.
        bind (asks vw_now) (\<lambda>now.
        then_do (modify (velo_tick E)) (collect_loop E fuel (now + t) polling_vql c a flow_id)))))"
  have body: "fst (?body q u) \<noteq> Inr None \<and> queries_sent (snd (?body q u)) \<le> queries_sent u + k + 1" for q u
  proof -
    let ?u = "velo_tick E (velo_log (V_queried q t) u)"
    show ?thesis
    proof (cases "query_rows (ve_query E (vw_step u) q t)")
      case (Inl e)
      then show ?thesis by (simp add: bind_def run_query_eq queries_sent_def)
    next
      case (Inr rows)
      obtain r v where v: "schedule_row rows c a ?u = (r, v)" by fastforce
      note sent = schedule_row_sent [OF v]
      show ?thesis
      proof (cases "and_then r (flow_text c a)")
        case (Inl e)
        then show ?thesis using Inr v sent
          by (cases r) (simp_all add: bind_def run_query_eq queries_sent_def lift_def)
      next
        case (Inr polling)
        then obtain flow where flow: "r = Inr flow" "flow_text c a flow = Inr polling" by (auto simp: and_then_Inr)
        obtain res w' where loop: "collect_loop E fuel (vw_now v + t) polling c a flow (velo_tick E v) = (res, w')" by fastforce
        have "0 \<le> ve_elapsed E (vw_step v)" using assms(1) by (simp add: clock_advances_def)
        then have "vw_now v + t - vw_now (velo_tick E v) \<le> of_nat k" using assms(2) by simp
        from collect_loop_bounded [OF assms(1) this assms(3) loop] have "res \<noteq> Inr None"
          "queries_sent w' \<le> queries_sent (velo_tick E v) + k" by blast+
        then show ?thesis using \<open>query_rows _ = Inr rows\<close> v flow loop sent
          by (simp add: bind_def run_query_eq queries_sent_def lift_def asks_def then_do_def modify_def)
      qed
    qed
  qed
  show ?thesis
  proof (cases "0 < t \<and> schedule_text E c a t \<noteq> Inl (collection_error ''collection request contains a blank or invalid string value'')")
    case False
    then show ?thesis by (auto simp: velo_collect_def validate_timeout_def bind_def lift_def)
  next
    case True
    then obtain q where q: "schedule_text E c a t = Inr q"
      by (auto simp: schedule_text_def vql_string_literal_def split: if_splits)
    have eq: "velo_collect E fuel c a t w =
      with_channel E (collection_error ''Velociraptor secure API channel could not be created'') (?body q) w"
      using True q by (simp add: velo_collect_def validate_timeout_def bind_def lift_def)
    obtain r1 w1 where "?body q (velo_log V_opened (velo_tick E w)) = (r1, w1)" by fastforce
    with body [of q "velo_log V_opened (velo_tick E w)"] show ?thesis unfolding eq
      by (cases "ve_channel E (vw_step w)")
        (simp_all add: with_channel_def velo_emit_def prog_simps queries_sent_def)
  qed
qed

text \<open>A server that schedules and then never shows the flow.\<close>

definition silent_env :: velo_env where
  "silent_env = \<lparr>ve_channel = (\<lambda>_. Channel_ready), ve_query = (\<lambda>_ _ _. ([], Q_done)), ve_elapsed = (\<lambda>_. 0),
     ve_float_text = (\<lambda>_. S ''2.0'')\<rparr>"

theorem velociraptor_collection_ends_witness:
  "fst (velo_collect silent_env 3 (S ''C.1'') process_list_artifact 2 velo_start) \<noteq> Inr None"
proof -
  have "clock_advances silent_env" "(2::rat) \<le> of_nat 2" "2 < (3::nat)"
    by (simp_all add: clock_advances_def silent_env_def)
  from velociraptor_collection_ends [OF this] show ?thesis by blast
qed

end
