(* ===== verification/SubmissionErrors.thy ===== *)
theory SubmissionErrors
  imports ProcessorOutcomes
begin

text \<open>
  Runs of \<open>process\<close> whose backend raises on submission: a rejection makes the processing FAILED, any
  other exception makes it RECOVERY_REQUIRED, in the same call and durably, and nothing is polled.
\<close>

section \<open>The store\<close>

definition failed_record :: "processing_record \<Rightarrow> datetime \<Rightarrow> string \<Rightarrow> string \<Rightarrow> processing_record" where
  "failed_record r now category detail = r\<lparr>pr_state := FAILED, pr_updated_at := now, pr_failed_at := Some now,
     pr_error_category := Some (S category), pr_error_detail := Some (S detail)\<rparr>"

definition failed_attempt :: "execution_attempt \<Rightarrow> datetime \<Rightarrow> string \<Rightarrow> string \<Rightarrow> execution_attempt" where
  "failed_attempt t now category detail = t\<lparr>at_state := A_FAILED, at_failed_at := Some now,
     at_error_category := Some (S category), at_error_detail := Some (S detail)\<rparr>"

definition recovery_record :: "processing_record \<Rightarrow> datetime \<Rightarrow> string \<Rightarrow> string \<Rightarrow> processing_record" where
  "recovery_record r now category detail = r\<lparr>pr_state := RECOVERY_REQUIRED, pr_updated_at := now,
     pr_error_category := Some (S category), pr_error_detail := Some (S detail)\<rparr>"

definition recovery_attempt :: "execution_attempt \<Rightarrow> string \<Rightarrow> string \<Rightarrow> execution_attempt" where
  "recovery_attempt t category detail = t\<lparr>at_state := A_RECOVERY_REQUIRED,
     at_error_category := Some (S category), at_error_detail := Some (S detail)\<rparr>"

definition short_text :: "string \<Rightarrow> bool" where
  "short_text s \<longleftrightarrow> s \<noteq> [] \<and> length s \<le> 256"

lemma short_bounded: "short_text s \<Longrightarrow> bounded_error (Some (S s))"
  by (simp add: short_text_def bounded_error_def)

lemma fail_success:
  assumes s: "holds_pair s t r" and st: "pr_state r \<in> X" "at_state t = A_SUBMITTING" "full_plan r"
    and c: "pr_completed_result r = None" "pr_completed_at r = None" "at_completed_at t = None"
    and n: "aware now" "\<not> dt_less now (pr_created_at r)" and e: "short_text category" "short_text detail"
  shows "mem_fail_processing (pr_processing_id r) X (S category) (S detail) (Some (at_attempt_id t)) now s =
    (Inr (Some (failed_record r now category detail)),
     put_attempt (at_attempt_id t) (failed_attempt t now category detail)
       (put_record (pr_processing_id r) (failed_record r now category detail) s))"
proof -
  have v: "attempt_valid t" "record_valid r" using s by (simp_all add: holds_pair_def)
  have "record_common (failed_record r now category detail)"
    using v(2) n short_bounded [OF e(1)] short_bounded [OF e(2)]
    by (simp add: record_valid_def record_common_def failed_record_def)
  moreover have "record_state_check (failed_record r now category detail)"
    using c by (simp add: record_state_check_def failed_record_def)
  moreover have "record_graph_check (failed_record r now category detail)"
    using v(2) unfolding record_valid_def record_graph_check_def failed_record_def by (auto split: option.splits)
  ultimately have "record_valid (failed_record r now category detail)" by (simp add: record_valid_def)
  moreover have "attempt_valid (failed_attempt t now category detail)"
    using v(1) c n short_bounded [OF e(1)] short_bounded [OF e(2)]
    by (simp add: attempt_valid_def attempt_state_check_def failed_attempt_def)
  ultimately show ?thesis
    using s st by (simp add: mem_fail_processing_def fail_attempt_def holds_pair_def mk_record_def mk_attempt_def
        failed_record_def failed_attempt_def)
qed

lemma recovery_success:
  assumes s: "holds_pair s t r" and st: "pr_state r = SUBMITTING" "at_state t = A_SUBMITTING" "full_plan r"
    and c: "pr_completed_result r = None" "at_completed_at t = None" "at_failed_at t = None"
    and n: "aware now" "\<not> dt_less now (pr_created_at r)" and e: "short_text category" "short_text detail"
  shows "mem_mark_recovery_required (at_attempt_id t) {A_SUBMITTING} (S category) (S detail) now s =
    (Inr (Some (recovery_record r now category detail)),
     put_record (pr_processing_id r) (recovery_record r now category detail)
       (put_attempt (at_attempt_id t) (recovery_attempt t category detail) s))"
proof -
  have v: "attempt_valid t" "record_valid r" using s by (simp_all add: holds_pair_def)
  have "record_valid (recovery_record r now category detail)"
    unfolding recovery_record_def
    using v(2) st n short_bounded [OF e(1)] short_bounded [OF e(2)] by (intro record_valid_active) simp_all
  moreover have "attempt_valid (recovery_attempt t category detail)"
    using v(1) c st short_bounded [OF e(1)] short_bounded [OF e(2)]
    by (simp add: attempt_valid_def attempt_state_check_def recovery_attempt_def)
  ultimately show ?thesis
    using s st by (simp add: mem_mark_recovery_required_def mem_write_pair_def holds_pair_def mk_record_def mk_attempt_def
        recovery_record_def recovery_attempt_def)
qed

section \<open>The run\<close>

definition error_state :: "exn \<Rightarrow> processing_state" where
  "error_state e = (if is_submission_rejected e then FAILED else RECOVERY_REQUIRED)"

definition error_attempt_state :: "exn \<Rightarrow> attempt_state" where
  "error_attempt_state e = (if is_submission_rejected e then A_FAILED else A_RECOVERY_REQUIRED)"

definition error_category :: "exn \<Rightarrow> ustring" where
  "error_category e =
     (if is_submission_rejected e then S ''backend_submission_failed'' else S ''backend_submission_unknown'')"

lemma planned_full: "planned_for r d i q n \<Longrightarrow> full_plan r"
  by (simp add: planned_for_def full_plan_def)

lemma submit_fails:
  assumes E: "quiet E" and route: "routed E b d i q"
    and r: "planned_for r d i q (bk_name b)" "pr_state r = PLANNED" "pr_failed_at r = None" "pr_completed_at r = None"
    and t: "at_state t = A_PLANNED"
    and s: "mem_ok (w_repo w)" "holds_pair (w_repo w) t r"
    and c: "\<And>u. aware (e_now E u) \<and> \<not> dt_less (e_now E u) (pr_created_at r)"
    and err: "bk_submit b (Suc (w_step w)) q (at_operation_key t) None = Inl e"
  shows "\<exists>r' w' t'. submit memory_repository E r t None w = (Inr r', w')
    \<and> pr_state r' = error_state e \<and> pr_error_category r' = Some (error_category e)
    \<and> pr_processing_id r' = pr_processing_id r
    \<and> dict_get (mm_records (w_repo w')) (pr_processing_id r) = Some r'
    \<and> dict_get (mm_attempts (w_repo w')) (at_attempt_id t) = Some t' \<and> at_state t' = error_attempt_state e
    \<and> w_events w' = w_events w @ [Ev_claim True (at_attempt_id t), Ev_submit (at_attempt_id t) (bk_name b) (at_operation_key t) None]"
proof -
  let ?n = "bk_name b" and ?a = "at_attempt_id t" and ?p = "pr_processing_id r" and ?u = "w_step w"
  define t1 where "t1 = claimed_attempt t (e_now E ?u)"
  define r1 where "r1 = claimed_record r (e_now E ?u)"
  note claimed = t1_def r1_def claimed_attempt_def claimed_record_def
  from mem_runs.submit_claims [OF E route r(1,2) t s(1) _ c, folded t1_def r1_def] s(2) obtain w1 where
    w1: "submit memory_repository E r t None w = after_claim memory_repository E r t1 None b ?n q w1"
      "w_step w1 = Suc ?u" "w_events w1 = w_events w @ [Ev_claim True ?a]"
    and s1: "holds_pair (w_repo w1) t1 r1" by (auto simp: memory_pair_held)
  have tv: "attempt_valid t" using s(2) by (simp add: holds_pair_def)
  have st: "pr_state r1 = SUBMITTING" "at_state t1 = A_SUBMITTING" "full_plan r1" "pr_completed_result r1 = None"
    "pr_completed_at r1 = None" "at_completed_at t1 = None" "at_failed_at t1 = None" "at_attempt_id t1 = ?a"
    "pr_processing_id r1 = ?p" "pr_created_at r1 = pr_created_at r" "at_operation_key t1 = at_operation_key t"
    using planned_full [OF r(1)] r t tv
    by (simp_all add: claimed full_plan_def planned_for_def attempt_valid_def attempt_state_check_def)
  define w2 where "w2 = w1\<lparr>w_context := set_attempt_id (Some (uuid_str ?a)) (w_context w1),
    w_metrics := w_metrics w1 @ [record_transition (S ''planned'') (S ''submitting'') (S ''success'') None]\<rparr>"
  define w3 where "w3 = w2\<lparr>w_step := Suc (Suc ?u), w_events := w_events w2 @ [Ev_submit ?a ?n (at_operation_key t) None],
    w_calls := w_calls w2 @ [(Suc ?u, Ev_submit ?a ?n (at_operation_key t) None)],
    w_metrics := w_metrics w2 @ [record_backend ?n (bounded_capability (ir_required_capabilities q)) (S ''error'')
      (Some (error_category e))]\<rparr>"
  have B: "backend_submit t1 b q None w2 = (Inl e, w3)"
    using err w1(2) st
    by (simp add: backend_submit_def backend_call_def try_run bind_run Let_def w2_def w3_def error_category_def)
  define w4 where "w4 = w3\<lparr>w_metrics := w_metrics w3 @ [record_submission ?n (S ''error'') (Some (error_category e))]\<rparr>"
  define now where "now = e_now E (Suc (Suc ?u))"
  have n: "aware now" "\<not> dt_less now (pr_created_at r1)" using c st by (simp_all add: now_def)
  have ev: "w_events w4 = w_events w @ [Ev_claim True ?a, Ev_submit ?a ?n (at_operation_key t) None]"
    and repo: "w_repo w4 = w_repo w1" "w_step w4 = Suc (Suc ?u)"
    by (simp_all add: w4_def w3_def w2_def w1(3))
  show ?thesis
  proof (cases "is_submission_rejected e")
    case True
    let ?detail = "''backend definitively rejected submission''" and ?c = "''backend_submission_failed''"
    have short: "short_text ?c" "short_text ?detail" by (simp_all add: short_text_def)
    define r2 where "r2 = failed_record r1 now ?c ?detail"
    have r2st: "pr_state r2 = FAILED" by (simp add: r2_def failed_record_def)
    define t2 where "t2 = failed_attempt t1 now ?c ?detail"
    define w5 where "w5 = w4\<lparr>w_step := Suc (w_step w4), w_repo := put_attempt ?a t2 (put_record ?p r2 (w_repo w1))\<rparr>"
    have "mem_fail_processing ?p {SUBMITTING} (S ?c) (S ?detail) (Some ?a) now (w_repo w1)
      = (Inr (Some r2), put_attempt ?a t2 (put_record ?p r2 (w_repo w1)))"
      using fail_success [OF s1 _ st(2-6) n short, of "{SUBMITTING}"] st by (simp add: r2_def t2_def)
    then have C: "repo_call memory_repository E (mem_fail_processing ?p {SUBMITTING} (S ?c) (S ?detail) (Some ?a)) w4 = (Inr (Some r2), w5)"
      by (simp add: quiet_call [OF E] repo w5_def now_def)
    have cat: "error_category e = S ?c" using True by (simp add: error_category_def)
    obtain w6 where "submit memory_repository E r t None w = (Inr r2, w6)" "w_repo w6 = w_repo w5" "w_events w6 = w_events w5"
      using B C True r2st
      by (simp add: w1(1) after_claim_def Let_def try_run bind_run st w2_def w4_def cat durable_or_reread_def or_else_def
          when_do_def)
    with True st show ?thesis
      by (intro exI [of _ r2] exI [of _ w6] exI [of _ t2])
        (simp add: w5_def ev r2_def t2_def failed_record_def failed_attempt_def error_state_def error_attempt_state_def error_category_def)
  next
    case False
    let ?detail = "''backend submission outcome is unknown''" and ?c = "''backend_submission_unknown''"
    have short: "short_text ?c" "short_text ?detail" by (simp_all add: short_text_def)
    define r2 where "r2 = recovery_record r1 now ?c ?detail"
    have r2st: "pr_state r2 = RECOVERY_REQUIRED" by (simp add: r2_def recovery_record_def)
    define t2 where "t2 = recovery_attempt t1 ?c ?detail"
    define w5 where "w5 = w4\<lparr>w_step := Suc (w_step w4), w_repo := put_record ?p r2 (put_attempt ?a t2 (w_repo w1))\<rparr>"
    have "mem_mark_recovery_required ?a {A_SUBMITTING} (S ?c) (S ?detail) now (w_repo w1)
      = (Inr (Some r2), put_record ?p r2 (put_attempt ?a t2 (w_repo w1)))"
      using recovery_success [OF s1 st(1-4,6,7) n short] st by (simp add: r2_def t2_def)
    then have C: "repo_call memory_repository E (mem_mark_recovery_required ?a {A_SUBMITTING} (S ?c) (S ?detail)) w4 = (Inr (Some r2), w5)"
      by (simp add: quiet_call [OF E] repo w5_def now_def)
    have cat: "error_category e = S ?c" using False by (simp add: error_category_def)
    obtain w6 where "submit memory_repository E r t None w = (Inr r2, w6)" "w_repo w6 = w_repo w5" "w_events w6 = w_events w5"
      using B C False r2st
      by (simp add: w1(1) after_claim_def Let_def try_run bind_run st w2_def w4_def cat mark_recovery_def
          durable_or_reread_def or_else_def when_do_def)
    with False st show ?thesis
      by (intro exI [of _ r2] exI [of _ w6] exI [of _ t2])
        (simp add: w5_def ev r2_def t2_def recovery_record_def recovery_attempt_def error_state_def error_attempt_state_def error_category_def)
  qed
qed

text \<open>C16: Without interference and faults, an alert that is to be investigated by a backend that raises on
  submission is settled in the same call: FAILED when the backend says that it rejected the submission,
  RECOVERY_REQUIRED for every other exception, since the operation may exist. Record and attempt say so
  durably with the category of the error; the backend saw one submission, no poll and no collection.\<close>

theorem failed_submission_settled:
  assumes "quiet E" "clock_from E (Suc (w_step w))" "mem_ok (w_repo w)" "fresh_for E w al key"
    and "fingerprint_canonical_alert al = Inr (v, dg)" "assigned E al d q b"
    and "\<And>n k. bk_submit b n q k None = Inl e"
  shows "\<exists>out w' t. process memory_repository E al key w = (Inr out, w')
    \<and> \<not> po_replayed out \<and> pr_state (po_record out) = error_state e
    \<and> pr_error_category (po_record out) = Some (error_category e)
    \<and> pr_processing_id (po_record out) = e_fresh E (w_step w)
    \<and> dict_get (mm_records (w_repo w')) (e_fresh E (w_step w)) = Some (po_record out)
    \<and> dict_get (mm_attempts (w_repo w')) (e_fresh E (w_step w + 2)) = Some t \<and> at_state t = error_attempt_state e
    \<and> w_events w' = w_events w @ [Ev_claim True (e_fresh E (w_step w + 2)),
        Ev_submit (e_fresh E (w_step w + 2)) (bk_name b) (e_fresh E (w_step w + 3)) None]"
proof (rule mem_runs.process_reaches_submit [OF assms(1-3) assms(4) [folded mem_new_alert] refl assms(5,6) mem_storable])
  fix r t w3
  assume s: "mem_ok (w_repo w3)" "pair_held mem_attempt mem_record (w_repo w3) t r"
    and f: "planned_for r d \<lparr>in_alert = al, in_decision = d\<rparr> q (bk_name b)"
      "pr_state r = PLANNED" "pr_failed_at r = None" "pr_completed_at r = None" "pr_processing_id r = e_fresh E (w_step w)"
      "pr_alert r = al" "\<And>u. aware (e_now E u) \<and> \<not> dt_less (e_now E u) (pr_created_at r)" "at_state t = A_PLANNED"
      "at_attempt_id t = e_fresh E (w_step w + 2)" "at_operation_key t = e_fresh E (w_step w + 3)" "w_events w3 = w_events w"
    and run: "\<And>r' w'. submit memory_repository E r t None w3 = (Inr r', w') \<Longrightarrow>
      \<exists>w''. process memory_repository E al key w = (Inr \<lparr>po_record = r', po_replayed = False\<rparr>, w'')
        \<and> w_repo w'' = w_repo w' \<and> w_events w'' = w_events w'"
  have "routed E b d \<lparr>in_alert = al, in_decision = d\<rparr> q" using assms(6) by (simp add: assigned_def)
  from submit_fails [OF assms(1) this f(1-4,8) s [unfolded memory_pair_held] f(7) assms(7)] obtain r' w' t' where
    r': "submit memory_repository E r t None w3 = (Inr r', w')" "pr_state r' = error_state e"
      "pr_error_category r' = Some (error_category e)" "pr_processing_id r' = pr_processing_id r"
      "dict_get (mm_records (w_repo w')) (pr_processing_id r) = Some r'"
      "dict_get (mm_attempts (w_repo w')) (at_attempt_id t) = Some t'" "at_state t' = error_attempt_state e"
      "w_events w' = w_events w3 @ [Ev_claim True (at_attempt_id t), Ev_submit (at_attempt_id t) (bk_name b) (at_operation_key t) None]"
    by blast
  from run [OF r'(1)] obtain w'' where w'': "process memory_repository E al key w = (Inr \<lparr>po_record = r', po_replayed = False\<rparr>, w'')"
    "w_repo w'' = w_repo w'" "w_events w'' = w_events w'" by blast
  show ?thesis
    using r'(2-7) w''(2) f(5)
    by (intro exI [of _ "\<lparr>po_record = r', po_replayed = False\<rparr>"] exI [of _ w''] exI [of _ t'])
       (simp add: w''(1,3) r'(8) f(9-11))
qed

end
