(* ===== verification/StartupProps.thy ===== *)
theory StartupProps
  imports Startup VeloProps ApiProps SubmissionErrors
begin

text \<open>
  Properties of the composition: which settings start the service and with which backend, and that
  the Velociraptor backend it composes is reliable for the configured host when the API answers.
\<close>

section \<open>Settings\<close>

lemma dropWhile_same: "dropWhile P xs = xs \<longleftrightarrow> xs = [] \<or> \<not> P (hd xs)"
  by (cases xs) (auto dest: arg_cong [where f = length] simp: length_dropWhile_le [THEN le_imp_less_Suc] less_imp_neq)

lemma strip_same: "v = strip v \<longleftrightarrow> v = [] \<or> (\<not> is_space (hd v) \<and> \<not> is_space (last v))"
proof
  assume v: "v = strip v"
  have "length (strip v) \<le> length (dropWhile is_space v)"
    by (simp add: strip_def) (metis length_dropWhile_le length_rev)
  with v have "length v \<le> length (dropWhile is_space v)" by simp
  then have d: "dropWhile is_space v = v"
    by (metis add_diff_cancel_right' append_Nil cancel_comm_monoid_add_class.diff_cancel diff_is_0_eq le_add2
        length_0_conv length_append takeWhile_dropWhile_id)
  with v have "rev (dropWhile is_space (rev v)) = v" by (simp add: strip_def)
  then have "dropWhile is_space (rev v) = rev v" by (metis rev_rev_ident)
  with d show "v = [] \<or> (\<not> is_space (hd v) \<and> \<not> is_space (last v))" by (auto simp: dropWhile_same hd_rev)
next
  assume "v = [] \<or> (\<not> is_space (hd v) \<and> \<not> is_space (last v))"
  then have "dropWhile is_space v = v" "dropWhile is_space (rev v) = rev v" by (auto simp: dropWhile_same hd_rev)
  then show "v = strip v" by (simp add: strip_def)
qed

definition setting_exact :: "settings \<Rightarrow> ustring \<Rightarrow> ustring \<Rightarrow> bool" where
  "setting_exact env name v \<longleftrightarrow>
     dict_get env name = Some v \<and> v \<noteq> [] \<and> \<not> is_space (hd v) \<and> \<not> is_space (last v)"

lemma setting_exact_nonblank: "setting_exact env name v \<Longrightarrow> nonblank v"
  by (auto simp: setting_exact_def nonblank_iff intro: hd_in_set)

lemma require_exact_Inr: "require_exact_nonempty_setting env name = Inr v \<longleftrightarrow> setting_exact env name v"
  by (auto simp: require_exact_nonempty_setting_def setting_exact_def strip_same split: option.split)

lemma require_exact_Inl: "require_exact_nonempty_setting env name = Inl e \<Longrightarrow> e = RuntimeError"
  by (auto simp: require_exact_nonempty_setting_def split: option.splits if_splits)

definition exports_to :: "settings \<Rightarrow> ustring option \<Rightarrow> bool" where
  "exports_to env x \<longleftrightarrow>
     (case dict_get env export_endpoint_setting of
        None \<Rightarrow> x = None
      | Some v \<Rightarrow>
          if nonblank v then x = Some (strip v) \<and> dict_get env export_protocol_setting \<in> {None, Some (S ''grpc'')}
          else x = None)"

lemma export_endpoint_Inr: "export_endpoint env = Inr x \<longleftrightarrow> exports_to env x"
  by (auto simp: export_endpoint_def exports_to_def Let_def nonblank_def strip_def split: option.split)

lemma export_endpoint_Inl: "export_endpoint env = Inl e \<Longrightarrow> e = RuntimeError"
  by (auto simp: export_endpoint_def Let_def split: if_splits)

lemma require_database_Inr:
  "require_database_url env = Inr url \<longleftrightarrow> dict_get env database_setting = Some url \<and> nonblank url"
  by (auto simp: require_database_url_def split: option.split)

lemma require_database_Inl: "require_database_url env = Inl e \<Longrightarrow> e = RuntimeError"
  by (auto simp: require_database_url_def split: option.splits if_splits)

section \<open>The client\<close>

lemma occurs_in_iff: "occurs_in p xs \<longleftrightarrow> (\<exists>u v. xs = u @ p @ v)"
proof (induction xs)
  case (Cons x xs)
  have "take (length p) (x # xs) = p \<longleftrightarrow> (\<exists>v. x # xs = p @ v)" by (metis append_eq_conv_conj)
  moreover have "(\<exists>u v. x # xs = u @ p @ v) \<longleftrightarrow> (\<exists>v. x # xs = p @ v) \<or> (\<exists>u v. xs = u @ p @ v)"
    by (metis append_Cons append_Nil list.exhaust_sel list.sel(3))
  ultimately show ?case using Cons by simp
qed simp

definition client_configured :: "(ustring \<times> pyvalue) list \<Rightarrow> velo_client \<Rightarrow> bool" where
  "client_configured d c \<longleftrightarrow>
     (\<exists>connection. get_value d ''api_connection_string'' = PStr connection \<and> nonblank connection
        \<and> vc_connection c = strip connection)
     \<and> get_value d ''ca_certificate'' = PStr (vc_ca_certificate c) \<and> nonblank (vc_ca_certificate c)
     \<and> get_value d ''client_private_key'' = PStr (vc_private_key c) \<and> nonblank (vc_private_key c)
     \<and> get_value d ''client_cert'' = PStr (vc_certificate c) \<and> nonblank (vc_certificate c)"

lemma config_text_Inr: "config_text d name = Inr s \<longleftrightarrow> get_value d name = PStr s \<and> nonblank s"
  by (auto simp: config_text_def split: pyvalue.split)

lemma config_text_Inl: "config_text d name = Inl e \<Longrightarrow> e = VelociraptorConfigurationError"
  by (auto simp: config_text_def split: pyvalue.splits if_splits)

lemma and_then_Inl: "and_then r f = Inl e \<longleftrightarrow> r = Inl e \<or> (\<exists>x. r = Inr x \<and> f x = Inl e)"
  by (cases r) auto

lemma client_of_config_Inr: "client_of_config v = Inr c \<longleftrightarrow> (\<exists>d. v = PDict d \<and> client_configured d c)"
  by (cases c) (auto simp: client_of_config_def client_configured_def and_then_Inr config_text_Inr split: pyvalue.split)

lemma client_of_config_Inl: "client_of_config v = Inl e \<Longrightarrow> e = VelociraptorConfigurationError"
  by (auto simp: client_of_config_def and_then_Inl dest: config_text_Inl split: pyvalue.splits)

definition client_loads :: "velo_host \<Rightarrow> ustring \<Rightarrow> velo_client \<Rightarrow> bool" where
  "client_loads host path c \<longleftrightarrow>
     (\<exists>content d. vh_file host path = Config_bytes content \<and> (\<nexists>u v. content = u @ encrypted_marker @ v)
        \<and> vh_load host path = Some (PDict d) \<and> client_configured d c)"

lemma mk_velo_client_Inr: "mk_velo_client host path = Inr c \<longleftrightarrow> client_loads host path c"
  by (auto simp: mk_velo_client_def client_loads_def occurs_in_iff client_of_config_Inr split: config_file.split option.split)

lemma mk_velo_client_Inl: "mk_velo_client host path = Inl e \<Longrightarrow> e = VelociraptorConfigurationError"
  by (auto simp: mk_velo_client_def dest: client_of_config_Inl split: config_file.splits option.splits if_splits)

section \<open>The choice of the backend\<close>

definition mock_selected :: "settings \<Rightarrow> bool" where
  "mock_selected env \<longleftrightarrow> dict_get env backend_setting \<in> {None, Some mock_name}
     \<and> (\<forall>name \<in> set velociraptor_settings. dict_get env name = None)"

definition velociraptor_selected ::
  "settings \<Rightarrow> velo_host \<Rightarrow> ustring \<Rightarrow> ustring \<Rightarrow> velo_client \<Rightarrow> bool"
where
  "velociraptor_selected env host target client_id c \<longleftrightarrow>
     dict_get env backend_setting = Some velociraptor_name
     \<and> setting_exact env velociraptor_host_setting target \<and> setting_exact env velociraptor_client_setting client_id
     \<and> (\<exists>path. setting_exact env velociraptor_config_setting path \<and> client_loads host path c)"

definition host_backend :: "ustring \<Rightarrow> ustring \<Rightarrow> velo_backend" where
  "host_backend target client_id = \<lparr>vb_host_client_ids = [(target, client_id)], vb_timeout = 60\<rparr>"

lemma names_differ: "mock_name \<noteq> velociraptor_name" by (simp add: mock_name_def velociraptor_name_def)

lemma make_backend_router_Inr:
  "make_backend_router host api env = Inr bs \<longleftrightarrow>
     mock_selected env \<and> bs = [default_mock_backend]
     \<or> (\<exists>target client_id c. velociraptor_selected env host target client_id c
          \<and> bs = [velociraptor_backend (api c) (host_backend target client_id)])"
proof -
  have mk: "mk_velo_backend [(t, i)] collection_timeout_seconds = Inr x
    \<longleftrightarrow> nonblank t \<and> nonblank i \<and> x = host_backend t i" for t i x
    by (auto simp: mk_velo_backend_def collection_timeout_seconds_def host_backend_def)
  have filt: "filter (\<lambda>name. dict_get env name \<noteq> None) velociraptor_settings = [] \<longleftrightarrow>
    (\<forall>name \<in> set velociraptor_settings. dict_get env name = None)"
    by (auto simp: filter_empty_conv)
  consider "dict_get env backend_setting \<in> {None, Some mock_name}" | "dict_get env backend_setting = Some velociraptor_name"
    | v where "dict_get env backend_setting = Some v" "v \<notin> {mock_name, velociraptor_name}"
    by (cases "dict_get env backend_setting") auto
  then show ?thesis
  proof cases
    case 1
    then have "make_backend_router host api env =
      (if \<forall>name \<in> set velociraptor_settings. dict_get env name = None then Inr [default_mock_backend] else Inl RuntimeError)"
      using filt by (auto simp: make_backend_router_def default_mock_backend_mk)
    with 1 names_differ show ?thesis by (auto simp: mock_selected_def velociraptor_selected_def)
  next
    case 2
    then have "make_backend_router host api env = Inr bs \<longleftrightarrow>
      (\<exists>path t i c. setting_exact env velociraptor_config_setting path \<and> setting_exact env velociraptor_host_setting t
         \<and> setting_exact env velociraptor_client_setting i \<and> client_loads host path c
         \<and> bs = [velociraptor_backend (api c) (host_backend t i)])"
      using names_differ
      by (simp add: make_backend_router_def and_then_Inr require_exact_Inr mk_velo_client_Inr mk)
         (use setting_exact_nonblank in fast)
    with 2 names_differ show ?thesis by (auto simp: mock_selected_def velociraptor_selected_def)
  next
    case 3
    then show ?thesis by (auto simp: make_backend_router_def mock_selected_def velociraptor_selected_def)
  qed
qed

lemma make_backend_router_Inl:
  "make_backend_router host api env = Inl e \<Longrightarrow> e = RuntimeError \<or> e = VelociraptorConfigurationError"
  by (auto simp: make_backend_router_def Let_def and_then_Inl default_mock_backend_mk mk_velo_backend_def
      dest: require_exact_Inl mk_velo_client_Inl split: if_splits)


lemma service_started_total: "\<exists>ev. service_started timestamp b = Inr ev"
proof -
  have "set (map fst [(S ''backend'', x), (S ''capabilities'', y), (S ''persistence'', z)]) \<subseteq> set event_fields" for x y z :: json
    by (simp add: event_fields_def)
  then show ?thesis by (simp add: service_started_def emit_payload_def Let_def)
qed

lemma start_service_Inr:
  "start_service host api timestamp env = Inr s \<longleftrightarrow>
     (\<exists>x bs url ev. exports_to env x \<and> make_backend_router host api env = Inr bs
        \<and> dict_get env database_setting = Some url \<and> nonblank url \<and> service_started timestamp (hd bs) = Inr ev
        \<and> s = \<lparr>sv_export = x, sv_orchestrator = \<lparr>oc_policy = baseline_decide, oc_router = bs,
               oc_request_factory = make_process_inventory_request\<rparr>, sv_database_url = url, sv_started = ev\<rparr>)"
  by (auto simp: start_service_def and_then_Inr export_endpoint_Inr require_database_Inr)

text \<open>The settings with which the service starts, apart from what the backend needs.\<close>

definition base_settings :: "settings \<Rightarrow> bool" where
  "base_settings env \<longleftrightarrow> (\<exists>x. exports_to env x) \<and> (\<exists>url. dict_get env database_setting = Some url \<and> nonblank url)"

text \<open>C21: The service starts exactly when the database URL is set, an export has the protocol that is
  supported, and the backend settings are those of the mock alone or, complete and without outer
  whitespace, those of Velociraptor with a configuration file that loads, holds no encrypted key and
  has the required fields. It then has the one backend that was chosen - the default orchestrator for
  the mock, the configured host and client with 60 seconds for Velociraptor; otherwise the start fails
  with RuntimeError or VelociraptorConfigurationError.\<close>

theorem service_starts_as_configured:
  "case start_service host api timestamp env of
     Inl e \<Rightarrow> (e = RuntimeError \<or> e = VelociraptorConfigurationError)
       \<and> \<not> (base_settings env \<and> (mock_selected env \<or> (\<exists>t i c. velociraptor_selected env host t i c)))
   | Inr s \<Rightarrow> base_settings env \<and> exports_to env (sv_export s)
       \<and> dict_get env database_setting = Some (sv_database_url s)
       \<and> oc_policy (sv_orchestrator s) = baseline_decide
       \<and> oc_request_factory (sv_orchestrator s) = make_process_inventory_request
       \<and> (mock_selected env \<and> sv_orchestrator s = default_orchestrator
          \<or> (\<exists>t i c. velociraptor_selected env host t i c
               \<and> oc_router (sv_orchestrator s) = [velociraptor_backend (api c) (host_backend t i)]))"
proof (cases "start_service host api timestamp env")
  case (Inl e)
  then have "(e = RuntimeError \<or> e = VelociraptorConfigurationError)
    \<and> \<not> ((\<exists>x. export_endpoint env = Inr x) \<and> (\<exists>bs. make_backend_router host api env = Inr bs)
         \<and> (\<exists>url. require_database_url env = Inr url))"
    using service_started_total
    by (auto simp: start_service_def and_then_Inl dest: export_endpoint_Inl make_backend_router_Inl require_database_Inl)
       (metis Inl_Inr_False)+
  with Inl show ?thesis
    unfolding base_settings_def export_endpoint_Inr make_backend_router_Inr require_database_Inr by auto
next
  case (Inr s)
  then obtain x bs url ev where "exports_to env x" "make_backend_router host api env = Inr bs"
    "dict_get env database_setting = Some url" "nonblank url"
    "s = \<lparr>sv_export = x, sv_orchestrator = \<lparr>oc_policy = baseline_decide, oc_router = bs,
           oc_request_factory = make_process_inventory_request\<rparr>, sv_database_url = url, sv_started = ev\<rparr>"
    unfolding start_service_Inr by blast
  with Inr show ?thesis
    unfolding base_settings_def make_backend_router_Inr by (auto simp: default_orchestrator_def)
qed

section \<open>A deployment with Velociraptor\<close>

text \<open>An API that answers: every channel can be made, the query that schedules is answered by the row
  of a flow it knows, and the lookup of such a flow by its row in the final state.\<close>

definition answers_for :: "(nat \<Rightarrow> velo_env) \<Rightarrow> ustring \<Rightarrow> (ustring \<Rightarrow> bool) \<Rightarrow> bool" where
  "answers_for Es client_id flow_known \<longleftrightarrow>
     (\<forall>n. ve_channel (Es n) 0 = Channel_ready
        \<and> (\<forall>t. \<exists>row x. query_rows (ve_query (Es n) 1 (fst (scheduled (Es n) client_id t)) t) = Inr [row]
             \<and> flow_scheduled row client_id x \<and> length x \<le> 512 \<and> flow_known x)
        \<and> (\<forall>x t. flow_known x \<longrightarrow> nonblank x \<and>
             (\<exists>row. query_rows (ve_query (Es n) 1 (fst (looked_up client_id x t)) t) = Inr [row]
                \<and> flow_verified row client_id process_list_artifact x
                \<and> get_value row ''state'' = PStr (S ''FINISHED''))))"

text \<open>The requests about the host.\<close>

definition about_host :: "ustring \<Rightarrow> investigation_request \<Rightarrow> bool" where
  "about_host target r \<longleftrightarrow> set (ir_required_capabilities r) \<subseteq> {process_list}
     \<and> ir_targets r = [\<lparr>en_kind = S ''host'', en_value = target\<rparr>]"

lemma resolve_host: "about_host target r \<Longrightarrow> resolve_client_id (host_backend target client_id) r = Inr client_id"
  by (simp add: about_host_def resolve_client_id_def host_backend_def dict_get_def)

lemma usable_effective:
  "usable_timeout timeout \<Longrightarrow> \<exists>t. effective_timeout (host_backend target client_id) timeout = Inr t \<and> 0 < t"
  by (auto simp: usable_timeout_def effective_timeout_def host_backend_def split: option.splits)

lemma submit_answered:
  assumes E: "ve_channel E 0 = Channel_ready" and c: "nonblank client_id" and r: "about_host target r"
    and t: "effective_timeout (host_backend target client_id) timeout = Inr t" "0 < t"
    and a: "query_rows (ve_query E 1 (fst (scheduled E client_id t)) t) = Inr [row]" "flow_scheduled row client_id x" "length x \<le> 512"
  shows "fst (velo_submit E (host_backend target client_id) r timeout velo_start) = Inr \<lparr>so_external_operation_id = x\<rparr>"
proof -
  have "schedule_text E client_id process_list_artifact t = Inr (fst (scheduled E client_id t))"
    using c by (simp add: schedule_text_def vql_string_literal_def artifact_nonblank scheduled_def)
  moreover have "mk_submitted_operation x = Inr \<lparr>so_external_operation_id = x\<rparr>"
    using a by (simp add: mk_submitted_operation_Inr submitted_ok_def flow_scheduled_def)
  moreover have "flow_identifier (get_value row ''flow_id'') = Some x"
    using a(2) by (simp add: flow_scheduled_def flow_identifier_Some)
  ultimately show ?thesis
    using E t a resolve_host [OF r]
    by (simp add: velo_submit_def velo_schedule_def validate_timeout_def bind_def lift_def query_once_eq prog_simps
        velo_emit_def flow_scheduled_def)
qed

lemma poll_answered:
  assumes E: "ve_channel E 0 = Channel_ready" and c: "nonblank client_id" "nonblank x" and r: "about_host target r"
    and t: "effective_timeout (host_backend target client_id) timeout = Inr t" "0 < t"
    and a: "query_rows (ve_query E 1 (fst (looked_up client_id x t)) t) = Inr [row]"
      "flow_verified row client_id process_list_artifact x" "get_value row ''state'' = PStr (S ''FINISHED'')"
  shows "fst (velo_poll E (host_backend target client_id) r x timeout velo_start)
    = Inr \<lparr>os_state = Some SUCCEEDED, os_remote_state = S ''FINISHED''\<rparr>"
proof -
  have "flow_text client_id process_list_artifact x = Inr (fst (looked_up client_id x t))"
    using c by (simp add: flow_text_def vql_string_literal_def artifact_nonblank looked_up_def)
  moreover have "nonblank (S ''FINISHED'')" by (simp add: S_def is_space_def)
  then have "mk_operation_status (Some SUCCEEDED) (S ''FINISHED'') = Inr \<lparr>os_state = Some SUCCEEDED, os_remote_state = S ''FINISHED''\<rparr>"
    by (simp add: mk_operation_status_Inr status_ok_def)
  ultimately show ?thesis
    using E t a resolve_host [OF r]
    by (simp add: velo_poll_def velo_poll_flow_def validate_timeout_def bind_def lift_def query_once_eq flow_status_def
        flow_state_def terminal_success_flow_states_def)
qed

lemma velociraptor_name_nonblank: "nonblank velociraptor_name"
  by (simp add: velociraptor_name_def S_def is_space_def)

lemma velociraptor_reliable:
  assumes "answers_for Es client_id flow_known" "nonblank client_id"
  shows "reliable_backend (velociraptor_backend Es (host_backend target client_id)) (about_host target) flow_known"
proof
  let ?b = "velociraptor_backend Es (host_backend target client_id)"
  show "nonblank (bk_name ?b)" by (simp add: velociraptor_backend_def velociraptor_name_nonblank)
  fix r n key x and timeout :: "rat option"
  assume r: "about_host target r" "request_ok r"
  {
    assume "usable_timeout timeout"
    then obtain t where t: "effective_timeout (host_backend target client_id) timeout = Inr t" "0 < t"
      using usable_effective by blast
    from assms(1) obtain row y where a: "ve_channel (Es n) 0 = Channel_ready"
      "query_rows (ve_query (Es n) 1 (fst (scheduled (Es n) client_id t)) t) = Inr [row]" "flow_scheduled row client_id y"
      "length y \<le> 512" "flow_known y"
      unfolding answers_for_def by meson
    from submit_answered [OF a(1) assms(2) r(1) t a(2-4)] a(3-5)
    show "\<exists>s. bk_submit ?b n r key timeout = Inr (Some s) \<and> submitted_ok s \<and> flow_known (so_external_operation_id s)"
      by (simp add: velociraptor_backend_def submitted_ok_def flow_scheduled_def)
  next
    assume x: "flow_known x" and "usable_timeout timeout"
    then obtain t where t: "effective_timeout (host_backend target client_id) timeout = Inr t" "0 < t"
      using usable_effective by blast
    from assms(1) x obtain row where a: "ve_channel (Es n) 0 = Channel_ready" "nonblank x"
      "query_rows (ve_query (Es n) 1 (fst (looked_up client_id x t)) t) = Inr [row]"
      "flow_verified row client_id process_list_artifact x" "get_value row ''state'' = PStr (S ''FINISHED'')"
      unfolding answers_for_def by meson
    from poll_answered [OF a(1) assms(2) a(2) r(1) t a(3-5)]
    show "\<exists>s. bk_poll ?b n r x timeout = Inr (Some s) \<and> status_ok s \<and> os_state s = Some SUCCEEDED"
      by (simp add: velociraptor_backend_def status_ok_def) (simp add: S_def is_space_def)
  next
    assume "flow_known x"
    then have "nonblank x" using assms(1) by (simp add: answers_for_def)
    then show "\<exists>res. bk_collect ?b n r x = Inr res \<and> rs_backend res = bk_name ?b"
      using r resolve_host [OF r(1)]
      by (simp add: velociraptor_backend_def velo_collect_result_def velo_result_def mk_investigation_result_def
          and_then_Inr request_ok_def velociraptor_name_nonblank)
  }
qed


lemma velociraptor_assigned:
  assumes "start_service host api timestamp env = Inr s" "velociraptor_selected env host target client_id c"
    and "e_orchestrator E = sv_orchestrator s" "al_severity al \<in> {HIGH, CRITICAL}"
  obtains d q where "assigned E al d q (velociraptor_backend (api c) (host_backend target client_id))"
    and "ir_targets q = al_entities al" "ir_required_capabilities q = [process_list]"
proof -
  let ?b = "velociraptor_backend (api c) (host_backend target client_id)"
  have "make_backend_router host api env = Inr [?b]" unfolding make_backend_router_Inr using assms(2) by blast
  then have orch: "e_orchestrator E = \<lparr>oc_policy = baseline_decide, oc_router = [?b],
      oc_request_factory = make_process_inventory_request\<rparr>"
    using assms(1,3) by (auto simp: start_service_Inr)
  have "baseline_outcome (al_severity al) = INVESTIGATE" using assms(4) by auto
  then obtain d where d: "baseline_decide al = Inr d" "de_outcome d = INVESTIGATE" "de_source d = al_source al"
    using baseline_decide_Inr [of al] by auto
  let ?i = "\<lparr>in_alert = al, in_decision = d\<rparr>"
  define q where "q = \<lparr>ir_incident = ?i, ir_desired_outcome = S ''collect process inventory'',
     ir_required_capabilities = [process_list], ir_targets = al_entities al\<rparr>"
  have "nonblank (S ''collect process inventory'')" by (simp add: S_def is_space_def)
  then have ok: "request_ok q" by (simp add: request_ok_def q_def process_list_nonblank)
  have b: "bk_name ?b = velociraptor_name" "bk_capabilities ?b = {process_list}" by (simp_all add: velociraptor_backend_def)
  then have sup: "supports ?b q" by (simp add: supports_def q_def)
  have "routed E ?b d ?i q"
    using ok sup d(2) by (simp add: routed_def backend_for_name_def orch router_get_Some b velociraptor_name_nonblank q_def)
  moreover have "router_select [?b] q = Inr ?b" using sup by (simp add: router_select_Inr)
  moreover have "make_process_inventory_request ?i = Inr q" by (simp add: default_request q_def)
  ultimately have "assigned E al d q ?b" using d by (simp add: assigned_def orch)
  then show thesis by (rule that) (simp_all add: q_def)
qed

section \<open>A concrete deployment\<close>

lemma query_rows_printed:
  assumes "json_readable (JObj ms)"
  shows "query_rows ([print_json (JArr [JObj ms])], Q_done) = Inr [map (\<lambda>(k, v). (k, py_of_json v)) ms]"
proof -
  have "json_readable (JArr [JObj ms])" using assms by simp
  from loads_printed [OF this] show ?thesis
    by (simp add: query_rows_def response_rows_def end_of_query_def dict_of_def)
qed

definition lab_settings :: settings where
  "lab_settings = [(backend_setting, velociraptor_name), (velociraptor_config_setting, S ''/etc/api.yaml''),
     (velociraptor_host_setting, S ''WS-1''), (velociraptor_client_setting, S ''C.1''),
     (database_setting, S ''postgresql://db/alert2ir'')]"

definition lab_client :: velo_client where
  "lab_client = \<lparr>vc_connection = S ''ir:8001'', vc_ca_certificate = S ''ca'', vc_private_key = S ''key'',
     vc_certificate = S ''cert''\<rparr>"

definition lab_host :: velo_host where
  "lab_host = \<lparr>vh_file = (\<lambda>_. Config_bytes []),
     vh_load = (\<lambda>_. Some (PDict [(S ''api_connection_string'', PStr (S ''ir:8001'')), (S ''ca_certificate'', PStr (S ''ca'')),
        (S ''client_private_key'', PStr (S ''key'')), (S ''client_cert'', PStr (S ''cert''))]))\<rparr>"

definition lab_flow :: ustring where "lab_flow = S ''F.1''"

definition lab_row :: "(ustring \<times> json) list" where
  "lab_row = [(S ''flow_id'', JStr lab_flow), (S ''session_id'', JStr lab_flow), (S ''client_id'', JStr (S ''C.1'')),
     (S ''artifacts'', JArr [JStr process_list_artifact]), (S ''state'', JStr (S ''FINISHED''))]"

definition lab_env :: velo_env where
  "lab_env = \<lparr>ve_channel = (\<lambda>_. Channel_ready), ve_query = (\<lambda>_ _ _. ([print_json (JArr [JObj lab_row])], Q_done)),
     ve_elapsed = (\<lambda>_. 0), ve_float_text = (\<lambda>_. S ''60.0'')\<rparr>"

definition lab_api :: velo_api where "lab_api = (\<lambda>_ _. lab_env)"

lemma lab_texts: "nonblank (S ''ir:8001'')" "nonblank (S ''ca'')" "nonblank (S ''key'')" "nonblank (S ''cert'')"
  "strip (S ''ir:8001'') = S ''ir:8001''" "nonblank lab_flow" "nonblank (S ''postgresql://db/alert2ir'')"
  by (simp_all add: S_def is_space_def strip_def lab_flow_def)

lemma lab_selected: "velociraptor_selected lab_settings lab_host (S ''WS-1'') (S ''C.1'') lab_client"
proof -
  have "client_configured [(S ''api_connection_string'', PStr (S ''ir:8001'')), (S ''ca_certificate'', PStr (S ''ca'')),
      (S ''client_private_key'', PStr (S ''key'')), (S ''client_cert'', PStr (S ''cert''))] lab_client"
    by (simp add: client_configured_def lab_client_def get_value_def dict_get_def lab_texts)
  moreover have "encrypted_marker \<noteq> []" by (simp add: encrypted_marker_def)
  ultimately have "client_loads lab_host (S ''/etc/api.yaml'') lab_client" by (simp add: client_loads_def lab_host_def)
  moreover have "setting_exact lab_settings velociraptor_config_setting (S ''/etc/api.yaml'')"
    "setting_exact lab_settings velociraptor_host_setting (S ''WS-1'')"
    "setting_exact lab_settings velociraptor_client_setting (S ''C.1'')"
    "dict_get lab_settings backend_setting = Some velociraptor_name"
    by (simp_all add: setting_exact_def lab_settings_def dict_get_def backend_setting_def velociraptor_config_setting_def
        velociraptor_host_setting_def velociraptor_client_setting_def hd_map last_map S_def is_space_def)
  ultimately show ?thesis by (auto simp: velociraptor_selected_def)
qed

lemma lab_starts: "\<exists>s. start_service lab_host lab_api timestamp lab_settings = Inr s"
proof -
  have "dict_get lab_settings export_endpoint_setting = None" "dict_get lab_settings database_setting = Some (S ''postgresql://db/alert2ir'')"
    by (simp_all add: lab_settings_def dict_get_def backend_setting_def velociraptor_config_setting_def database_setting_def
        export_endpoint_setting_def velociraptor_host_setting_def velociraptor_client_setting_def)
  then have "exports_to lab_settings None" "dict_get lab_settings database_setting = Some (S ''postgresql://db/alert2ir'')"
    by (simp_all add: exports_to_def)
  moreover obtain bs where "make_backend_router lab_host lab_api lab_settings = Inr bs"
    unfolding make_backend_router_Inr using lab_selected by blast
  ultimately show ?thesis unfolding start_service_Inr using service_started_total lab_texts by blast
qed

lemma lab_answers: "answers_for (lab_api c) (S ''C.1'') (\<lambda>x. x = lab_flow)"
proof -
  let ?row = "map (\<lambda>(k, v). (k, py_of_json v)) lab_row"
  have "json_readable (JObj lab_row)" by (simp add: lab_row_def)
  from query_rows_printed [OF this] have rows: "query_rows (ve_query lab_env n vql t) = Inr [?row]" for n vql t
    by (simp add: lab_env_def)
  have "flow_scheduled ?row (S ''C.1'') lab_flow" "flow_verified ?row (S ''C.1'') process_list_artifact lab_flow"
    "get_value ?row ''state'' = PStr (S ''FINISHED'')" "length lab_flow \<le> 512"
    using lab_texts(6)
    by (simp_all add: flow_scheduled_def flow_verified_def lab_row_def get_value_def dict_get_def validate_artifacts_def)
      (simp_all add: lab_flow_def S_def)
  moreover have "ve_channel lab_env n = Channel_ready" for n by (simp add: lab_env_def)
  ultimately show ?thesis using rows lab_texts(6) by (auto simp: answers_for_def lab_api_def)
qed


definition lab_world :: "service \<Rightarrow> env" where
  "lab_world s = sample_env\<lparr>e_orchestrator := sv_orchestrator s\<rparr>"

lemma lab_world_facts:
  "e_orchestrator (lab_world s) = sv_orchestrator s" "quiet (lab_world s)" "clock_from (lab_world s) u"
  "fresh_for (lab_world s) (start_world mem_empty) al sample_key" "e_fresh (lab_world s) n = of_nat n"
  using sample_env_quiet(1) sample_env_clock [of u] sample_fresh [of al]
  by (simp_all add: lab_world_def quiet_def clock_from_def fresh_for_def sample_env_def)

text \<open>An alert about another host is rejected before anything is sent, and its processing is FAILED.\<close>

definition other_host_alert :: canonical_alert where
  "other_host_alert = high_alert\<lparr>al_entities := [\<lparr>en_kind = S ''host'', en_value = S ''WS-2''\<rparr>]\<rparr>"

lemma other_host_rejected:
  assumes "ir_targets q = [\<lparr>en_kind = S ''host'', en_value = other\<rparr>]" "other \<noteq> target" "ir_required_capabilities q = [process_list]"
  shows "velo_submit E (host_backend target client_id) q timeout velo_start = (Inl VelociraptorTargetError, velo_start)"
  using assms by (simp add: velo_submit_def resolve_client_id_def host_backend_def dict_get_def bind_def lift_def)

theorem failed_submission_settled_witness:
  "\<exists>s out w'. start_service lab_host lab_api [] lab_settings = Inr s
    \<and> process memory_repository (lab_world s) other_host_alert sample_key (start_world mem_empty) = (Inr out, w')
    \<and> pr_state (po_record out) = FAILED
    \<and> w_events w' = [Ev_claim True 2, Ev_submit 2 velociraptor_name 3 None]"
proof -
  obtain s where s: "start_service lab_host lab_api [] lab_settings = Inr s" using lab_starts by blast
  have "utc_in_range (al_detected_at other_host_alert)" "alert_encodable other_host_alert"
    using sample_times_in_range(1) sample_alerts_encodable(1)
    by (simp_all add: other_host_alert_def sample_defs alert_encodable_def)
  from fingerprint_defined [OF this] obtain dg where
    fp: "fingerprint_canonical_alert other_host_alert = Inr (fingerprint_version, dg)" by blast
  have ok: "mem_ok (w_repo (start_world mem_empty))" by (simp add: start_world_def mem_ok_empty)
  let ?b = "velociraptor_backend (lab_api lab_client) (host_backend (S ''WS-1'') (S ''C.1''))"
  have "al_severity other_host_alert \<in> {HIGH, CRITICAL}" by (simp add: other_host_alert_def sample_defs)
  from velociraptor_assigned [OF s lab_selected lab_world_facts(1) this] obtain d q where
    a: "assigned (lab_world s) other_host_alert d q ?b" "ir_targets q = al_entities other_host_alert"
      "ir_required_capabilities q = [process_list]" .
  have "ir_targets q = [\<lparr>en_kind = S ''host'', en_value = S ''WS-2''\<rparr>]" using a(2) by (simp add: other_host_alert_def)
  from other_host_rejected [OF this _ a(3)] have "bk_submit ?b n q k None = Inl VelociraptorTargetError" for n k
    by (simp add: velociraptor_backend_def)
  from failed_submission_settled [OF lab_world_facts(2,3) ok lab_world_facts(4) fp a(1) this] s show ?thesis
    by (fastforce simp: lab_world_facts(5) start_world_def error_state_def velociraptor_backend_def)
qed

end
