(* ===== verification/PostgresRuns.thy ===== *)
theory PostgresRuns
  imports PostgresHistory ProcessorOutcomes
begin

text \<open>
  The runs of \<open>recording_repository\<close> on PostgreSQL, the repository of the service: what each operation
  leaves in the tables reads back as the record and the attempt that the caller was told. The database
  and its driver behave as documented (\<open>pg_documented\<close>), and the values are such that they can hold them.
\<close>

section \<open>What a store holds\<close>

definition pg_record :: "pg_store \<Rightarrow> uuid \<Rightarrow> processing_record option" where
  "pg_record s p =
     (case pg_processing s p of None \<Rightarrow> None
      | Some r \<Rightarrow> (case deserialize_processing r of Inr x \<Rightarrow> Some x | Inl _ \<Rightarrow> None))"

definition pg_execution :: "pg_store \<Rightarrow> uuid \<Rightarrow> execution_attempt option" where
  "pg_execution s a =
     (case pg_attempt s a of None \<Rightarrow> None
      | Some t \<Rightarrow> (case deserialize_attempt t of Inr x \<Rightarrow> Some x | Inl _ \<Rightarrow> None))"

definition in_step :: "pgsql \<Rightarrow> pg_store \<Rightarrow> bool" where
  "in_step P s \<longleftrightarrow> pg_ok P s \<and> pg_synced s"

lemma pg_record_Some: "pg_record s p = Some x \<longleftrightarrow> (\<exists>r. pg_processing s p = Some r \<and> deserialize_processing r = Inr x)"
  by (auto simp: pg_record_def split: option.splits sum.splits)

lemma pg_execution_Some: "pg_execution s a = Some x \<longleftrightarrow> (\<exists>t. pg_attempt s a = Some t \<and> deserialize_attempt t = Inr x)"
  by (auto simp: pg_execution_def split: option.splits sum.splits)

text \<open>A key and identifiers that are not in use.\<close>

definition pg_unbound :: "pg_store \<Rightarrow> ustring \<Rightarrow> ustring \<Rightarrow> bool" where
  "pg_unbound s sc k \<longleftrightarrow> list_all (\<lambda>r. rw_idempotency_scope r \<noteq> Some sc \<or> rw_idempotency_key r \<noteq> Some k) (db_processing s)"

definition pg_unplanned :: "pg_store \<Rightarrow> uuid \<Rightarrow> bool" where
  "pg_unplanned s p \<longleftrightarrow> p \<notin> ta_processing_id ` set (db_attempts s)"

lemma filter_one:
  "distinct (map g xs) \<Longrightarrow> x \<in> set xs \<Longrightarrow> g x = k \<Longrightarrow> Q x \<Longrightarrow> filter (\<lambda>r. g r = k \<and> Q r) xs = [x]"
proof (induction xs)
  case (Cons y ys)
  show ?case
  proof (cases "y = x")
    case True
    with Cons.prems have "filter (\<lambda>r. g r = k \<and> Q r) ys = []" by (fastforce simp: filter_empty_conv image_iff)
    with True Cons.prems show ?thesis by simp
  next
    case False
    with Cons.prems have "g y \<noteq> k" by auto
    with False Cons show ?thesis by auto
  qed
qed simp

lemma one_row:
  "pg_ok P s \<Longrightarrow> pg_processing s p = Some r \<Longrightarrow> Q r \<Longrightarrow> filter (\<lambda>r. rw_id r = p \<and> Q r) (db_processing s) = [r]"
  "pg_ok P s \<Longrightarrow> pg_attempt s a = Some t \<Longrightarrow> T t \<Longrightarrow> filter (\<lambda>t. ta_attempt_id t = a \<and> T t) (db_attempts s) = [t]"
  using pg_found by (auto simp: pg_ok_def processing_table_ok_def attempt_table_ok_def intro!: filter_one)

lemma found_after:
  "(\<And>r. rw_id (g r) = rw_id r) \<Longrightarrow>
   pg_processing (s\<lparr>db_processing := upd m g (db_processing s)\<rparr>) p = map_option (\<lambda>r. if m r then g r else r) (pg_processing s p)"
  "(\<And>t. ta_attempt_id (f t) = ta_attempt_id t) \<Longrightarrow>
   pg_attempt (s\<lparr>db_attempts := upd k f (db_attempts s)\<rparr>) a = map_option (\<lambda>t. if k t then f t else t) (pg_attempt s a)"
  by (simp_all add: pg_processing_def pg_attempt_def find_upd)

lemma found_other [simp]:
  "pg_processing (s\<lparr>db_attempts := ts\<rparr>) p = pg_processing s p" "pg_attempt (s\<lparr>db_processing := rs\<rparr>) a = pg_attempt s a"
  by (simp_all add: pg_processing_def pg_attempt_def)

lemma row_checks:
  "pg_ok P s \<Longrightarrow> pg_processing s p = Some r \<Longrightarrow> processing_checks P r"
  "pg_ok P s \<Longrightarrow> pg_attempt s a = Some t \<Longrightarrow> attempt_checks P t"
  using pg_found by (auto simp: pg_ok_def processing_table_ok_def attempt_table_ok_def list_all_iff)

section \<open>Values that the database can hold\<close>

lemma portable_ascii: "list_all (\<lambda>c. 0 < c \<and> c < 55296) s \<Longrightarrow> portable s"
  by (auto simp: portable_def list_all_iff encodable_def)

lemma portable_key: "key_visible_ascii key \<Longrightarrow> portable key"
  by (auto simp: key_visible_ascii_def visible_ascii_def portable_def list_all_iff encodable_def)

definition portable_entity :: "entity \<Rightarrow> bool" where
  "portable_entity e \<longleftrightarrow> portable (en_kind e) \<and> portable (en_value e)"

definition portable_evidence :: "evidence_reference \<Rightarrow> bool" where
  "portable_evidence e \<longleftrightarrow> portable (er_reference e) \<and> portable_opt (er_kind e)"

definition portable_alert :: "canonical_alert \<Rightarrow> bool" where
  "portable_alert al \<longleftrightarrow> portable (di_identifier (al_detection al)) \<and> portable_opt (di_name (al_detection al))
     \<and> portable (sp_source (al_source al)) \<and> portable_opt (sp_source_alert_id (al_source al))
     \<and> list_all portable_entity (al_entities al) \<and> list_all portable_evidence (al_evidence al)"

lemma portable_opt_simps [simp]: "portable_opt None" "portable_opt (Some s) = portable s"
  by (simp_all add: portable_opt_def)

lemma send_portable:
  assumes "pg_documented P" "list_all portable_opt vs"
  shows "send_texts P vs = Inr ()"
proof -
  have "text_error P vs = None"
    using assms(2)
  proof (induction vs)
    case (Cons v vs)
    then show ?case using documentedD(1) [OF assms(1)] by (cases v) simp_all
  qed simp
  then show ?thesis by (simp add: send_texts_def)
qed

lemma jsonb_portable:
  assumes "pg_documented P"
  shows "list_all portable_entity es \<Longrightarrow> \<exists>y. pg_jsonb P (encode_entities es) = Inr y \<and> array_stored (encode_entities es) y"
    and "list_all portable_evidence vs \<Longrightarrow> \<exists>y. pg_jsonb P (encode_evidence vs) = Inr y \<and> array_stored (encode_evidence vs) y"
    and "list_all portable ss \<Longrightarrow> \<exists>y. pg_jsonb P (encode_strings ss) = Inr y \<and> array_stored (encode_strings ss) y"
proof -
  show "\<exists>y. pg_jsonb P (encode_entities es) = Inr y \<and> array_stored (encode_entities es) y" if "list_all portable_entity es"
    unfolding encode_entities_def using that
    by (intro documentedD(2) [OF assms]) (auto simp: list_all_iff portable_entity_def portable_def S_def encodable_def)
  show "\<exists>y. pg_jsonb P (encode_evidence vs) = Inr y \<and> array_stored (encode_evidence vs) y" if "list_all portable_evidence vs"
    unfolding encode_evidence_def using that
    by (intro documentedD(2) [OF assms])
      (auto simp: list_all_iff portable_evidence_def portable_def portable_opt_def json_optional_def S_def encodable_def
        split: option.splits)
  show "\<exists>y. pg_jsonb P (encode_strings ss) = Inr y \<and> array_stored (encode_strings ss) y" if "list_all portable ss"
    unfolding encode_strings_def using that by (intro documentedD(2) [OF assms]) (auto simp: list_all_iff)
qed

section \<open>Acceptance\<close>

text \<open>The alert as the database gives it back: its time is the same instant in the zone of the session.\<close>

definition kept_alert :: "pgsql \<Rightarrow> canonical_alert \<Rightarrow> canonical_alert option" where
  "kept_alert P al =
     (if alert_ok al \<and> portable_alert al
      then (case pg_time P (al_detected_at al) of Inr t \<Rightarrow> Some (al\<lparr>al_detected_at := t\<rparr>) | Inl _ \<Rightarrow> None)
      else None)"

lemma read_accepted:
  assumes al: "alert_ok al" "aware t" and en: "array_stored (encode_entities (al_entities al)) en"
    and ev: "array_stored (encode_evidence (al_evidence al)) ev" and r: "aware now" "length dg = 32"
  shows "deserialize_processing (canonical_row p al sc key fingerprint_version dg t en ev now)
    = Inr (accepted_record p (al\<lparr>al_detected_at := t\<rparr>) sc key fingerprint_version dg now)"
proof -
  let ?r = "canonical_row p al sc key fingerprint_version dg t en ev now" and ?al = "al\<lparr>al_detected_at := t\<rparr>"
  have ok: "source_ok (al_source al)" "detection_ok (al_detection al)" "list_all entity_ok (al_entities al)"
    "list_all evidence_ok (al_evidence al)" using al(1) by (simp_all add: alert_ok_def)
  have "deserialize_alert ?r = Inr ?al"
    using ok al(2) decode_entities_stored [OF en ok(3)] decode_evidence_stored [OF ev ok(4)]
    by (simp add: deserialize_alert_def canonical_row_def and_then_Inr mk_source_provenance_Inr mk_detection_identity_Inr
        mk_canonical_alert_Inr source_ok_def detection_ok_def)
  moreover have "processing_state_value ACCEPTED = S ''accepted''" by simp
  ultimately show ?thesis
    using accepted_valid [OF r, of p ?al sc key]
    unfolding deserialize_processing_Inr
    by (intro exI [of _ ?al] exI [of _ None] exI [of _ ACCEPTED])
      (simp add: canonical_row_def deserialize_decision_def deserialize_request_def accepted_record_def)
qed

lemma stays_in_step: "in_step P s \<Longrightarrow> op_safe c \<Longrightarrow> in_step P (exec_op (postgres_repository P) c now s)"
  by (simp add: in_step_def postgres.ok_exec exec_stays_synced)

lemma pg_accepts:
  assumes P: "pg_documented P" and ok: "in_step P s" and k: "key_visible_ascii key"
    and u: "pg_unbound s (sp_source (al_source al)) key" and p: "p \<notin> rw_id ` set (db_processing s)"
    and n: "aware now" "length dg = 32" and al: "kept_alert P al = Some al'"
  shows "\<exists>s'. pg_accept_processing P p al (sp_source (al_source al)) key fingerprint_version dg now s
      = (Inr \<lparr>pa_record = accepted_record p al' (sp_source (al_source al)) key fingerprint_version dg now, pa_created = True\<rparr>, s')
    \<and> in_step P s' \<and> pg_record s' p = Some (accepted_record p al' (sp_source (al_source al)) key fingerprint_version dg now)
    \<and> db_attempts s' = db_attempts s"
proof -
  let ?sc = "sp_source (al_source al)"
  obtain t where a: "alert_ok al" "portable_alert al" and t: "pg_time P (al_detected_at al) = Inr t"
    and al': "al' = al\<lparr>al_detected_at := t\<rparr>"
    using al by (auto simp: kept_alert_def split: if_splits sum.splits)
  have t': "aware t" "stored_time P (al_detected_at al) = t"
    using documentedD(3) [OF P _ t] a(1) t by (simp_all add: alert_ok_def stored_time_def)
  obtain en ev where j: "pg_jsonb P (encode_entities (al_entities al)) = Inr en" "array_stored (encode_entities (al_entities al)) en"
    "pg_jsonb P (encode_evidence (al_evidence al)) = Inr ev" "array_stored (encode_evidence (al_evidence al)) ev"
    using jsonb_portable(1,2) [OF P] a(2) unfolding portable_alert_def by blast
  let ?r = "canonical_row p al ?sc key fingerprint_version dg t en ev now"
  have texts: "send_texts P (accept_texts al ?sc key) = Inr ()"
    using a(2) portable_key [OF k] by (intro send_portable [OF P]) (simp add: accept_texts_def portable_alert_def)
  have checks: "processing_checks P ?r"
    using accepted_checks [OF P a(1) k n(2) j(2,4)] by (simp add: fingerprint_version_def)
  have "\<not> list_ex (same_key ?r) (db_processing s)"
    using u by (auto simp: pg_unbound_def list_ex_iff list_all_iff same_key_def canonical_row_def)
  moreover have "rw_id ?r = p" by (simp add: canonical_row_def)
  ultimately have ins: "insert_processing P ?r s = (Inr [?r], s\<lparr>db_processing := db_processing s @ [?r]\<rparr>)"
    using checks p by (simp add: insert_processing_def)
  have read: "deserialize_processing ?r = Inr (accepted_record p al' ?sc key fingerprint_version dg now)"
    unfolding al' using read_accepted [OF a(1) t'(1) j(2,4) n] .
  let ?s = "s\<lparr>db_processing := db_processing s @ [?r]\<rparr>"
  have op: "pg_accept_processing P p al ?sc key fingerprint_version dg now s
      = (Inr \<lparr>pa_record = accepted_record p al' ?sc key fingerprint_version dg now, pa_created = True\<rparr>, ?s)"
    using texts j(1,3) ins t t'(2) read
    by (simp add: pg_accept_processing_def lift_Inr bind_def transaction_def lift_def ret_def)
  have "in_step P ?s"
    using stays_in_step [OF ok, of "Op_accept p al ?sc key fingerprint_version dg" now] op
    by (simp add: postgres_repository_def)
  moreover have "pg_processing ?s p = Some ?r"
  proof -
    have "List.find (\<lambda>r. rw_id r = p) (db_processing s) = None" using p by (auto simp: find_None)
    then show ?thesis by (simp add: pg_processing_def find_append \<open>rw_id ?r = p\<close>)
  qed
  ultimately show ?thesis using op read by (intro exI [of _ ?s]) (simp add: pg_record_Some)
qed

section \<open>Steps of an attempt\<close>

lemma read_columns:
  "deserialize_processing r = Inr x \<Longrightarrow> pr_processing_id x = rw_id r \<and> pr_updated_at x = rw_updated_at r
     \<and> pr_completed_at x = rw_completed_at r \<and> pr_failed_at x = rw_failed_at r
     \<and> pr_error_category x = rw_error_category r \<and> pr_error_detail x = rw_error_detail r
     \<and> rw_state r = processing_state_value (pr_state x)"
  by (auto simp: deserialize_processing_Inr)

text \<open>The columns of the lifecycle are read as they are.\<close>

lemma read_moved:
  assumes "deserialize_processing r = Inr x" "pr_state x \<noteq> COMPLETED" "st \<noteq> COMPLETED"
    and "same_record r q" "same_plan r q" "rw_state q = processing_state_value st" "record_valid y"
    and "y = x\<lparr>pr_updated_at := rw_updated_at q, pr_state := st, pr_completed_at := rw_completed_at q,
       pr_failed_at := rw_failed_at q, pr_error_category := rw_error_category q, pr_error_detail := rw_error_detail q\<rparr>"
  shows "deserialize_processing q = Inr y"
  using read_open [OF assms(1-6)] assms(7,8) by (simp add: mk_record_def)

lemma updated_pair:
  assumes ok: "in_step P s" and t: "pg_attempt s a = Some t" "T t" and r: "pg_processing s (ta_processing_id t) = Some r" "rw_state r \<in> states"
    and same: "\<And>t. same_attempt t (f t)" "\<And>r. same_record r (g r)" and c: "attempt_checks P (f t)" "processing_checks P (g r)"
  obtains s' where "update_pair P (\<lambda>t. ta_attempt_id t = a \<and> T t) f states (Inr g) s = (Inr (Some (f t, g r)), s')"
    and "pg_attempt s' a = Some (f t)" "pg_processing s' (ta_processing_id t) = Some (g r)"
proof -
  let ?m = "\<lambda>t. ta_attempt_id t = a \<and> T t" and ?k = "\<lambda>r. rw_id r = ta_processing_id t \<and> rw_state r \<in> states"
  let ?s1 = "s\<lparr>db_attempts := upd ?m f (db_attempts s)\<rparr>"
  let ?s2 = "?s1\<lparr>db_processing := upd ?k g (db_processing s)\<rparr>"
  have ok': "pg_ok P s" "pg_synced s" using ok by (simp_all add: in_step_def)
  have id: "ta_processing_id (f u) = ta_processing_id u" "ta_attempt_id (f u) = ta_attempt_id u" "rw_id (g q) = rw_id q" for u q
    using same(1) [of u] same(2) [of q] by (simp_all add: same_attempt_def same_record_def)
  have "distinct (map ta_processing_id (upd ?m f (db_attempts s)))"
    using ok'(2) by (simp add: map_upd id(1) pg_synced_def)
  then have "distinct (map ta_processing_id (filter active_row (upd ?m f (db_attempts s))))" by (rule distinct_map_filter)
  with one_row(2) [OF ok'(1) t(1), of T] t(2) c(1) have A: "update_attempts P ?m f s = (Inr [f t], ?s1)"
    by (simp add: update_attempts_def Let_def)
  have "filter ?k (db_processing s) = [r]" using one_row(1) [OF ok'(1) r(1), of "\<lambda>r. rw_state r \<in> states"] r(2) by simp
  with c(2) have B: "update_processing P ?k g ?s1 = (Inr [g r], ?s2)" by (simp add: update_processing_def)
  have "update_pair P ?m f states (Inr g) s = (Inr (Some (f t, g r)), ?s2)"
    using A B by (simp add: update_pair_def bind_def lift_def ret_def id(1))
  moreover have "pg_attempt ?s2 a = Some (f t)"
    using t pg_found(2) [OF t(1)] by (simp add: found_after(2) id(2))
  moreover have "pg_processing ?s2 (ta_processing_id t) = Some (g r)"
  proof -
    have "pg_processing ?s2 q = pg_processing (s\<lparr>db_processing := upd ?k g (db_processing s)\<rparr>) q" for q
      by (simp add: pg_processing_def)
    then show ?thesis using r pg_found(1) [OF r(1)] by (simp add: found_after(1) id(3))
  qed
  ultimately show thesis using that by blast
qed

lemma stepped:
  assumes ok: "in_step P s" and t: "pg_attempt s a = Some t" "ta_state t = st" and r: "pg_processing s (ta_processing_id t) = Some r" "rw_state r = st"
    and same: "\<And>t. same_attempt t (f t)" "\<And>r. same_record r (g r)" and c: "attempt_checks P (f t)" "processing_checks P (g r)"
    and texts: "send_texts P texts = Inr ()"
    and read: "deserialize_attempt (f t) = Inr t'" "deserialize_processing (g r) = Inr r'"
  shows "\<exists>s'. pg_attempt_step P a st texts f g s = (Inr (Some t'), s')
    \<and> pg_execution s' a = Some t' \<and> pg_record s' (ta_processing_id t) = Some r'"
proof -
  obtain s' where "update_pair P (\<lambda>t. ta_attempt_id t = a \<and> ta_state t = st) f {st} (Inr g) s = (Inr (Some (f t, g r)), s')"
    "pg_attempt s' a = Some (f t)" "pg_processing s' (ta_processing_id t) = Some (g r)"
    by (rule updated_pair [OF ok t(1), of "\<lambda>t. ta_state t = st", OF t(2) r(1) _ same c, of "{st}"]) (use r(2) in auto)
  with texts read show ?thesis
    by (intro exI [of _ s'])
      (simp add: pg_attempt_step_def lift_Inr transaction_def bind_def lift_def read_row_def ret_def pg_execution_Some pg_record_Some)
qed

text \<open>The rows of a pair that the store holds.\<close>

lemma held_rows:
  assumes "pair_held pg_execution pg_record s t r" "in_step P s"
  obtains t0 r0 where "pg_attempt s (at_attempt_id t) = Some t0" "deserialize_attempt t0 = Inr t"
    and "pg_processing s (ta_processing_id t0) = Some r0" "deserialize_processing r0 = Inr r"
    and "ta_processing_id t0 = at_processing_id t" "ta_state t0 = attempt_state_value (at_state t)"
    and "rw_state r0 = processing_state_value (pr_state r)" "attempt_checks P t0" "processing_checks P r0"
proof -
  from assms(1) obtain t0 r0 where t0: "pg_attempt s (at_attempt_id t) = Some t0" "deserialize_attempt t0 = Inr t"
    and r0: "pg_processing s (at_processing_id t) = Some r0" "deserialize_processing r0 = Inr r"
    by (auto simp: pair_held_def pg_execution_Some pg_record_Some)
  from deserialize_attempt_parts [OF t0(2)] read_columns [OF r0(2)] t0 r0 row_checks assms(2) show thesis
    by (intro that [OF t0 _ r0(2)]) (auto simp: in_step_def)
qed

lemma step_held:
  assumes ok: "in_step P s" and h: "pair_held pg_execution pg_record s t r"
    and st: "attempt_state_value (at_state t) = st" "processing_state_value (pr_state r) = st"
    and same: "\<And>t. same_attempt t (f t)" "\<And>r. same_record r (g r)" and texts: "send_texts P texts = Inr ()"
    and A: "\<And>t0. deserialize_attempt t0 = Inr t \<Longrightarrow> ta_state t0 = st \<Longrightarrow> attempt_checks P t0 \<Longrightarrow>
        attempt_checks P (f t0) \<and> deserialize_attempt (f t0) = Inr t'"
    and B: "\<And>r0. deserialize_processing r0 = Inr r \<Longrightarrow> rw_state r0 = st \<Longrightarrow> processing_checks P r0 \<Longrightarrow>
        processing_checks P (g r0) \<and> deserialize_processing (g r0) = Inr r'"
    and ids: "at_attempt_id t' = at_attempt_id t" "at_processing_id t' = at_processing_id t" "pr_processing_id r' = pr_processing_id r"
    and c: "exec_op (postgres_repository P) c now s = snd (pg_attempt_step P (at_attempt_id t) st texts f g s)" "op_safe c"
  shows "\<exists>s'. pg_attempt_step P (at_attempt_id t) st texts f g s = (Inr (Some t'), s')
    \<and> in_step P s' \<and> pair_held pg_execution pg_record s' t' r'"
proof -
  obtain t0 r0 where t0: "pg_attempt s (at_attempt_id t) = Some t0" "deserialize_attempt t0 = Inr t"
    and r0: "pg_processing s (ta_processing_id t0) = Some r0" "deserialize_processing r0 = Inr r"
    and id: "ta_processing_id t0 = at_processing_id t" and st0: "ta_state t0 = attempt_state_value (at_state t)"
      "rw_state r0 = processing_state_value (pr_state r)" and ch: "attempt_checks P t0" "processing_checks P r0"
    by (rule held_rows [OF h ok])
  have a: "attempt_checks P (f t0)" "deserialize_attempt (f t0) = Inr t'" using A [OF t0(2) _ ch(1)] st st0 by simp_all
  have b: "processing_checks P (g r0)" "deserialize_processing (g r0) = Inr r'" using B [OF r0(2) _ ch(2)] st st0 by simp_all
  obtain s' where s': "pg_attempt_step P (at_attempt_id t) st texts f g s = (Inr (Some t'), s')"
    "pg_execution s' (at_attempt_id t) = Some t'" "pg_record s' (at_processing_id t) = Some r'"
    using stepped [OF ok t0(1) _ r0(1) _ same a(1) b(1) texts a(2) b(2)] st st0 id by auto
  moreover have "in_step P s'" using stays_in_step [OF ok c(2), of now] c(1) s'(1) by simp
  ultimately show ?thesis
    using ids h deserialize_attempt_parts [OF a(2)] deserialize_processing_parts [OF b(2)] by (simp add: pair_held_def)
qed

text \<open>An UPDATE that keeps the plan and leaves the errors NULL or alone.\<close>

lemma open_checks:
  assumes "processing_checks P r" "same_record r q" "same_plan r q" "rw_state q = processing_state_value st"
    and "rw_state r \<in> active_texts" "rw_state q \<in> active_texts" "rw_state q \<noteq> S ''recovery_required''"
    and "rw_result_backend q = rw_result_backend r" "rw_result_completed_capabilities q = rw_result_completed_capabilities r"
      "rw_result_evidence q = rw_result_evidence r" "rw_completed_at q = rw_completed_at r" "rw_failed_at q = rw_failed_at r"
    and "error_checks P (rw_error_category q) (rw_error_detail q)"
  shows "processing_checks P q"
proof (rule checks_moved [OF assms(1-4) _ assms(13)])
  have life: "check_holds (ck_lifecycle_coherence r)" using assms(1) by (simp add: processing_checks_def)
  then show "check_holds (ck_lifecycle_coherence q)"
    using assms(3,7-12) unfolding lifecycle_active [OF assms(5)] lifecycle_active [OF assms(6)]
    by (simp add: same_plan_def ck_no_result_def ck_decided_def ck_requested_def)
  show "\<not> pg_blank P x" if "rw_result_backend q = Some x" for x
    using that life assms(8) unfolding lifecycle_active [OF assms(5)] by (simp add: ck_no_result_def)
qed

lemma row_errors: "processing_checks P r \<Longrightarrow> error_checks P (rw_error_category r) (rw_error_detail r)"
  by (simp add: processing_checks_def ck_lifecycle_strings_def error_checks_def)

lemma pg_claims:
  assumes ok: "in_step P s" and h: "pair_held pg_execution pg_record s t r"
    and st: "at_state t = A_PLANNED" "pr_state r = PLANNED"
    and v: "attempt_valid (claimed_attempt t now)" "record_valid (claimed_record r now)"
  shows "\<exists>s'. pg_claim_attempt_for_submission P (at_attempt_id t) now s = (Inr (Some (claimed_attempt t now)), s')
    \<and> in_step P s' \<and> pair_held pg_execution pg_record s' (claimed_attempt t now) (claimed_record r now)"
  unfolding pg_claim_attempt_for_submission_def
proof (rule step_held [OF ok h, where c = "Op_claim (at_attempt_id t)" and now = now])
  fix t0 assume t0: "deserialize_attempt t0 = Inr t" "ta_state t0 = S ''planned''" "attempt_checks P t0"
  then show "attempt_checks P (attempt_submitting now t0)
      \<and> deserialize_attempt (attempt_submitting now t0) = Inr (claimed_attempt t now)"
    using v(1) by (auto simp: attempt_checks_def attempt_submitting_def ck_attempt_strings_def ck_attempt_coherence_def
        deserialize_attempt_def and_then_Inr claimed_attempt_def)
next
  fix r0 assume r0: "deserialize_processing r0 = Inr r" "rw_state r0 = S ''planned''" "processing_checks P r0"
  let ?q = "set_state (S ''submitting'') now r0"
  have same: "same_record r0 ?q" "same_plan r0 ?q" "rw_state ?q = processing_state_value SUBMITTING"
    by (simp_all add: set_state_def same_record_def same_plan_def)
  have "deserialize_processing ?q = Inr (claimed_record r now)"
    using st read_columns [OF r0(1)]
    by (intro read_moved [OF r0(1) _ _ same v(2)])
      (simp_all add: claimed_record_def set_state_def processing_record.equality)
  moreover have "processing_checks P ?q"
    using r0(2) row_errors [OF r0(3)] by (intro open_checks [OF r0(3) same]) (simp_all add: set_state_def active_texts_def)
  ultimately show "processing_checks P ?q \<and> deserialize_processing ?q = Inr (claimed_record r now)" by simp
qed (simp_all add: st pg_sets same_attempt_def same_record_def send_texts_def postgres_repository_def
  pg_claim_attempt_for_submission_def)

lemma pg_marks:
  assumes P: "pg_documented P" and ok: "in_step P s" and h: "pair_held pg_execution pg_record s t r"
    and st: "at_state t = A_SUBMITTING" "pr_state r = SUBMITTING" and x: "portable x"
    and v: "attempt_valid (submitted_attempt t x now)" "record_valid (submitted_record r now)"
  shows "\<exists>s'. pg_mark_attempt_submitted P (at_attempt_id t) x now s = (Inr (Some (submitted_attempt t x now)), s')
    \<and> in_step P s' \<and> pair_held pg_execution pg_record s' (submitted_attempt t x now) (submitted_record r now)"
  unfolding pg_mark_attempt_submitted_def
proof (rule step_held [OF ok h, where c = "Op_submitted (at_attempt_id t) x" and now = now])
  fix t0 assume t0: "deserialize_attempt t0 = Inr t" "ta_state t0 = S ''submitting''" "attempt_checks P t0"
  have "nonblank x" "length x \<le> 512" using v(1) by (simp_all add: attempt_valid_def submitted_attempt_def)
  with t0 v(1) show "attempt_checks P (attempt_submitted x now t0)
      \<and> deserialize_attempt (attempt_submitted x now t0) = Inr (submitted_attempt t x now)"
    using documentedD(5) [OF P]
    by (auto simp: attempt_checks_def attempt_submitted_def ck_attempt_strings_def ck_attempt_coherence_def ck_bounded_def
        deserialize_attempt_def and_then_Inr submitted_attempt_def)
next
  fix r0 assume r0: "deserialize_processing r0 = Inr r" "rw_state r0 = S ''submitting''" "processing_checks P r0"
  let ?q = "set_state (S ''submitted'') now r0"
  have same: "same_record r0 ?q" "same_plan r0 ?q" "rw_state ?q = processing_state_value SUBMITTED"
    by (simp_all add: set_state_def same_record_def same_plan_def)
  have "deserialize_processing ?q = Inr (submitted_record r now)"
    using st read_columns [OF r0(1)]
    by (intro read_moved [OF r0(1) _ _ same v(2)])
      (simp_all add: submitted_record_def set_state_def processing_record.equality)
  moreover have "processing_checks P ?q"
    using r0(2) row_errors [OF r0(3)] by (intro open_checks [OF r0(3) same]) (simp_all add: set_state_def active_texts_def)
  ultimately show "processing_checks P ?q \<and> deserialize_processing ?q = Inr (submitted_record r now)" by simp
qed (simp_all add: st x pg_sets same_attempt_def same_record_def send_portable [OF P] postgres_repository_def
  pg_mark_attempt_submitted_def)

lemma pg_polls:
  assumes P: "pg_documented P" and ok: "in_step P s" and h: "pair_held pg_execution pg_record s t r"
    and st: "at_state t = A_SUBMITTED" "pr_state r = SUBMITTED" and x: "portable rs" "nonblank rs"
    and v: "attempt_valid (polled_attempt t rs now)" "record_valid (polled_record r now)"
  shows "\<exists>s'. pg_record_poll P (at_attempt_id t) rs None None now s = (Inr (Some (polled_attempt t rs now)), s')
    \<and> in_step P s' \<and> pair_held pg_execution pg_record s' (polled_attempt t rs now) (polled_record r now)"
proof -
  have "\<exists>s'. pg_attempt_step P (at_attempt_id t) (S ''submitted'') [Some rs, None, None]
       (attempt_polled rs None None now) (set_polled None None now) s = (Inr (Some (polled_attempt t rs now)), s')
    \<and> in_step P s' \<and> pair_held pg_execution pg_record s' (polled_attempt t rs now) (polled_record r now)"
  proof (rule step_held [OF ok h, where c = "Op_poll (at_attempt_id t) rs None None" and now = now])
    fix t0 assume t0: "deserialize_attempt t0 = Inr t" "ta_state t0 = S ''submitted''" "attempt_checks P t0"
    have "length rs \<le> 256" using v(1) by (simp add: attempt_valid_def polled_attempt_def)
    with t0 v(1) x(2) show "attempt_checks P (attempt_polled rs None None now t0)
        \<and> deserialize_attempt (attempt_polled rs None None now t0) = Inr (polled_attempt t rs now)"
      using documentedD(5) [OF P]
      by (auto simp: attempt_checks_def attempt_polled_def ck_attempt_strings_def ck_attempt_coherence_def ck_bounded_def
          ck_together_def deserialize_attempt_def and_then_Inr polled_attempt_def)
  next
    fix r0 assume r0: "deserialize_processing r0 = Inr r" "rw_state r0 = S ''submitted''" "processing_checks P r0"
    let ?q = "set_polled None None now r0"
    have same: "same_record r0 ?q" "same_plan r0 ?q" "rw_state ?q = processing_state_value SUBMITTED"
      using r0(2) by (simp_all add: set_polled_def same_record_def same_plan_def)
    have "deserialize_processing ?q = Inr (polled_record r now)"
      using st read_columns [OF r0(1)]
      by (intro read_moved [OF r0(1) _ _ same v(2)])
        (simp_all add: polled_record_def set_polled_def processing_record.equality)
    moreover have "processing_checks P ?q"
      using r0(2) by (intro open_checks [OF r0(3) same]) (simp_all add: set_polled_def active_texts_def)
    ultimately show "processing_checks P ?q \<and> deserialize_processing ?q = Inr (polled_record r now)" by simp
  qed (simp_all add: st x pg_sets same_attempt_def same_record_def send_portable [OF P] postgres_repository_def
    pg_record_poll_def check_poll_error_def lift_Inr)
  then show ?thesis by (simp add: pg_record_poll_def check_poll_error_def lift_Inr)
qed

section \<open>Decisions and plans\<close>

definition portable_decision :: "decision \<Rightarrow> bool" where
  "portable_decision d \<longleftrightarrow> decision_ok d \<and> portable (de_policy_id d) \<and> list_all portable (de_reasons d)"

definition portable_plan :: "incident \<Rightarrow> investigation_request \<Rightarrow> ustring \<Rightarrow> bool" where
  "portable_plan i q n \<longleftrightarrow> ir_incident q = i \<and> portable (ir_desired_outcome q) \<and> list_all portable (ir_required_capabilities q)
     \<and> list_all portable_entity (ir_targets q) \<and> list_all entity_ok (ir_targets q) \<and> portable n"

definition portable_result :: "investigation_result \<Rightarrow> bool" where
  "portable_result v \<longleftrightarrow> mk_investigation_result (rs_backend v) (rs_completed_capabilities v) (rs_evidence v) = Inr v
     \<and> portable (rs_backend v) \<and> list_all portable (rs_completed_capabilities v)
     \<and> list_all portable_evidence (rs_evidence v) \<and> list_all evidence_ok (rs_evidence v)"

text \<open>An accepted row has no decision yet.\<close>

lemma accepted_row:
  assumes "deserialize_processing r0 = Inr r" "pr_state r = ACCEPTED" "processing_checks P r0"
  shows "rw_state r0 = S ''accepted''" "rw_request_desired_outcome r0 = None" "rw_result_backend r0 = None"
    "rw_selected_backend r0 = None" "rw_completed_at r0 = None" "rw_failed_at r0 = None" "rw_error_category r0 = None"
    "rw_error_detail r0 = None" "list_all check_holds (ck_no_request r0 @ ck_no_result r0)"
    "rw_snapshot_version r0 = snapshot_version" "deserialize_alert r0 = Inr (pr_alert r)"
    "pr_processing_id r = rw_id r0 \<and> pr_created_at r = rw_created_at r0
       \<and> pr_idempotency_scope r = rw_idempotency_scope r0 \<and> pr_idempotency_key r = rw_idempotency_key r0
       \<and> pr_fingerprint_version r = rw_fingerprint_version r0 \<and> pr_request_fingerprint r = rw_request_fingerprint r0
       \<and> pr_planned_decision r = None \<and> pr_planned_incident r = None \<and> pr_planned_request r = None
       \<and> pr_selected_backend r = None \<and> pr_completed_result r = None \<and> pr_completed_at r = None
       \<and> pr_failed_at r = None \<and> pr_error_category r = None \<and> pr_error_detail r = None"
proof -
  show st: "rw_state r0 = S ''accepted''" using read_columns [OF assms(1)] assms(2) by simp
  have "check_holds (ck_lifecycle_coherence r0)" using assms(3) by (simp add: processing_checks_def)
  note life = this [unfolded lifecycle_accepted [OF st]]
  then show *: "rw_request_desired_outcome r0 = None" "rw_result_backend r0 = None"
    "rw_selected_backend r0 = None" "rw_completed_at r0 = None" "rw_failed_at r0 = None" "rw_error_category r0 = None"
    "rw_error_detail r0 = None" "list_all check_holds (ck_no_request r0 @ ck_no_result r0)"
    by (simp_all add: ck_no_request_def ck_no_result_def)
  obtain al d planned res where x: "rw_snapshot_version r0 = snapshot_version" "deserialize_alert r0 = Inr al"
    "deserialize_decision r0 (al_source al) = Inr d" "deserialize_request r0 al d = Inr planned"
    "deserialize_result r0 ACCEPTED d planned = Inr res" and
    r: "r = \<lparr>pr_processing_id = rw_id r0, pr_created_at = rw_created_at r0, pr_updated_at = rw_updated_at r0,
             pr_alert = al, pr_state = ACCEPTED, pr_idempotency_scope = rw_idempotency_scope r0,
             pr_idempotency_key = rw_idempotency_key r0, pr_fingerprint_version = rw_fingerprint_version r0,
             pr_request_fingerprint = rw_request_fingerprint r0,
             pr_planned_decision = (if res = None then d else None),
             pr_planned_incident = (if res = None then map_option fst planned else None),
             pr_planned_request = (if res = None then map_option snd planned else None),
             pr_selected_backend = rw_selected_backend r0, pr_completed_result = res,
             pr_completed_at = rw_completed_at r0, pr_failed_at = rw_failed_at r0,
             pr_error_category = rw_error_category r0, pr_error_detail = rw_error_detail r0\<rparr>"
    using assms(1,2) unfolding deserialize_processing_Inr by auto
  have "d = None" using x(3) life by (simp add: deserialize_decision_def)
  moreover from this have "planned = None" "res = None" using x(4,5) by (simp_all add: deserialize_request_def)
  ultimately show "rw_snapshot_version r0 = snapshot_version" "deserialize_alert r0 = Inr (pr_alert r)"
    "pr_processing_id r = rw_id r0 \<and> pr_created_at r = rw_created_at r0
       \<and> pr_idempotency_scope r = rw_idempotency_scope r0 \<and> pr_idempotency_key r = rw_idempotency_key r0
       \<and> pr_fingerprint_version r = rw_fingerprint_version r0 \<and> pr_request_fingerprint r = rw_request_fingerprint r0
       \<and> pr_planned_decision r = None \<and> pr_planned_incident r = None \<and> pr_planned_request r = None
       \<and> pr_selected_backend r = None \<and> pr_completed_result r = None \<and> pr_completed_at r = None
       \<and> pr_failed_at r = None \<and> pr_error_category r = None \<and> pr_error_detail r = None"
    using x(1,2) * by (simp_all add: r)
qed

lemma read_decision:
  assumes "rw_decision_outcome q = Some (decision_outcome_value (de_outcome d))" "rw_policy_id q = Some (de_policy_id d)"
    and "rw_decision_reasons q = Some y" "array_stored (encode_strings (de_reasons d)) y" "decision_ok d"
  shows "deserialize_decision q (de_source d) = Inr (Some d)"
proof -
  have "mk_decision (de_outcome d) (de_policy_id d) (de_reasons d) (de_source d) = Inr d"
    using assms(5) by (simp add: mk_decision_Inr)
  then show ?thesis
    using assms(1-3) decode_strings_stored [OF assms(4)] by (simp add: deserialize_decision_def not_null_text_def)
qed

lemma pg_decides_no_action:
  assumes P: "pg_documented P" and ok: "in_step P s" and r: "pg_record s p = Some r" "pr_state r = ACCEPTED"
    and d: "de_outcome d = NO_ACTION" "portable_decision d" and v: "record_valid (no_action_record r d now)"
  shows "\<exists>s'. pg_store_no_action_result P p (no_action_result d) now s = (Inr (Some (no_action_record r d now)), s')
    \<and> in_step P s' \<and> pg_record s' p = Some (no_action_record r d now) \<and> db_attempts s' = db_attempts s"
proof -
  obtain r0 where r0: "pg_processing s p = Some r0" "deserialize_processing r0 = Inr r" using r(1) by (auto simp: pg_record_Some)
  have ok': "pg_ok P s" and c: "processing_checks P r0" using ok r0(1) row_checks(1) by (auto simp: in_step_def)
  note row = accepted_row [OF r0(2) r(2) c]
  have dok: "decision_ok d" and src: "de_source d = al_source (pr_alert r)"
    using d(2) v by (simp_all add: portable_decision_def record_valid_def record_graph_check_def no_action_record_def no_action_result_def)
  obtain y where y: "pg_jsonb P (encode_strings (de_reasons d)) = Inr y" "array_stored (encode_strings (de_reasons d)) y"
    using jsonb_portable(3) [OF P] d(2) unfolding portable_decision_def by blast
  have texts: "send_texts P [Some (de_policy_id d)] = Inr ()" using d(2) by (simp add: send_portable [OF P] portable_decision_def)
  let ?m = "\<lambda>r. rw_id r = p \<and> rw_state r = S ''accepted''" and ?q = "set_no_action d y now r0"
  have same: "same_record r0 ?q" by (simp add: same_record_def set_no_action_def)
  have dec: "deserialize_decision ?q (al_source (pr_alert r)) = Inr (Some d)"
    unfolding src [symmetric] using y(2) dok by (intro read_decision [where y = y]) (simp_all add: set_no_action_def)
  have mk: "mk_orchestration_result d None None None = Inr (no_action_result d)"
    using d(1) by (simp add: mk_orchestration_result_Inr no_action_result_def result_ok_def)
  have read: "deserialize_processing ?q = Inr (no_action_record r d now)"
    unfolding deserialize_processing_Inr
  proof (intro exI conjI)
    show "deserialize_alert ?q = Inr (pr_alert r)" using deserialize_kept(1) [OF same] row(11) by simp
    show "deserialize_request ?q (pr_alert r) (Some d) = Inr None"
      using row(2) by (simp add: deserialize_request_def set_no_action_def)
    show "deserialize_result ?q COMPLETED (Some d) None = Inr (Some (no_action_result d))"
      using d(1) mk by (simp add: deserialize_result_def)
  qed (use row dec v in \<open>simp_all add: set_no_action_def no_action_record_def processing_record.equality\<close>)
  obtain xa xs where Y: "y = JArr (xa # xs)" using stored_strings [OF y(2)] dok by (auto simp: decision_ok_def)
  have checks: "processing_checks P ?q"
    by (rule checks_decided [OF c same, where st = COMPLETED and oc = NO_ACTION and pid = "de_policy_id d" and x = xa and xs = xs])
      (use row d(1) dok Y documentedD(5) [OF P] in \<open>simp_all add: set_no_action_def decision_ok_def lifecycle_completed
        ck_decided_def ck_no_request_def ck_no_result_def\<close>)
  let ?s = "s\<lparr>db_processing := upd ?m (set_no_action d y now) (db_processing s)\<rparr>"
  have "filter ?m (db_processing s) = [r0]" using one_row(1) [OF ok' r0(1), of "\<lambda>r. rw_state r = S ''accepted''"] row(1) by simp
  then have op: "pg_store_no_action_result P p (no_action_result d) now s = (Inr (Some (no_action_record r d now)), ?s)"
    using texts y(1) checks read d(1)
    by (simp add: pg_store_no_action_result_def lift_Inr transaction_def bind_def lift_def ret_def update_processing_def
        no_action_result_def first_row_def read_row_def)
  moreover have "in_step P ?s"
    using stays_in_step [OF ok, of "Op_no_action p (no_action_result d)" now] op by (simp add: postgres_repository_def)
  moreover have "pg_processing ?s p = Some ?q"
    using r0(1) row(1) pg_found(1) [OF r0(1)] by (simp add: found_after(1) set_no_action_def)
  ultimately show ?thesis using read by (intro exI [of _ ?s]) (simp add: pg_record_Some)
qed

text \<open>The plan is written with the attempt in one transaction.\<close>

lemma read_planned:
  assumes r0: "deserialize_processing r0 = Inr r" "pr_state r = ACCEPTED" "processing_checks P r0"
    and d: "decision_ok d" "de_outcome d = INVESTIGATE" and i: "i = \<lparr>in_alert = pr_alert r, in_decision = d\<rparr>"
    and q: "request_ok q" "ir_incident q = i" "list_all entity_ok (ir_targets q)"
    and a: "array_stored (encode_strings (de_reasons d)) x" "array_stored (encode_strings (ir_required_capabilities q)) y"
      "array_stored (encode_entities (ir_targets q)) z"
    and v: "record_valid (plan_record r d i q n now)"
  shows "deserialize_processing (set_planned d q n x y z now r0) = Inr (plan_record r d i q n now)"
proof -
  let ?q = "set_planned d q n x y z now r0"
  note row = accepted_row [OF r0]
  have same: "same_record r0 ?q" by (simp add: same_record_def set_planned_def)
  have src: "de_source d = al_source (pr_alert r)"
    using v by (simp add: record_valid_def record_graph_check_def plan_record_def)
  have dec: "deserialize_decision ?q (al_source (pr_alert r)) = Inr (Some d)"
    unfolding src [symmetric] using a(1) d(1) by (intro read_decision [where y = x]) (simp_all add: set_planned_def)
  have "mk_incident (pr_alert r) d = Inr i" using d(2) src by (simp add: mk_incident_Inr incident_ok_def i)
  moreover have "mk_investigation_request i (ir_desired_outcome q) (ir_required_capabilities q) (ir_targets q) = Inr q"
    using q(1,2) by (simp add: mk_investigation_request_Inr)
  ultimately have req: "deserialize_request ?q (pr_alert r) (Some d) = Inr (Some (i, q))"
    using decode_strings_stored [OF a(2)] decode_entities_stored [OF a(3) q(3)] d(2)
    by (simp add: deserialize_request_def set_planned_def)
  have st: "rw_state ?q = processing_state_value PLANNED" by (simp add: set_planned_def)
  show ?thesis
    unfolding deserialize_processing_Inr
  proof (intro exI conjI)
    show "deserialize_alert ?q = Inr (pr_alert r)" using deserialize_kept(1) [OF same] row(11) by simp
    show "deserialize_result ?q PLANNED (Some d) (Some (i, q)) = Inr None" by simp
  qed (use row dec req st v in \<open>simp_all add: set_planned_def plan_record_def processing_record.equality\<close>)
qed

lemma read_new_attempt:
  "attempt_valid (planned_attempt a p key n now) \<Longrightarrow>
   deserialize_attempt (planned_row a p key n now) = Inr (planned_attempt a p key n now)"
  by (auto simp: deserialize_attempt_def and_then_Inr planned_row_def planned_attempt_def)

lemma pg_plans:
  assumes P: "pg_documented P" and ok: "in_step P s" and r: "pg_record s p = Some r" "pr_state r = ACCEPTED"
    and free: "pg_unplanned s p" "a \<notin> ta_attempt_id ` set (db_attempts s)" "key \<notin> ta_operation_key ` set (db_attempts s)"
    and d: "de_outcome d = INVESTIGATE" "portable_decision d" and i: "i = \<lparr>in_alert = pr_alert r, in_decision = d\<rparr>"
    and q: "portable_plan i q n" "request_ok q" "nonblank n"
    and v: "record_valid (plan_record r d i q n now)" "attempt_valid (planned_attempt a p key n now)"
  shows "\<exists>s'. pg_store_plan P p d i q n a key now s
      = (Inr (Some \<lparr>pp_record = plan_record r d i q n now, pp_attempt = planned_attempt a p key n now\<rparr>), s')
    \<and> in_step P s' \<and> pg_record s' p = Some (plan_record r d i q n now)
    \<and> pg_execution s' a = Some (planned_attempt a p key n now)"
proof -
  obtain r0 where r0: "pg_processing s p = Some r0" "deserialize_processing r0 = Inr r" using r(1) by (auto simp: pg_record_Some)
  have ok': "pg_ok P s" and c: "processing_checks P r0" using ok r0(1) row_checks(1) by (auto simp: in_step_def)
  note row = accepted_row [OF r0(2) r(2) c]
  have dok: "decision_ok d" and src: "al_source (pr_alert r) = de_source d"
    using d(2) v(1) by (simp_all add: portable_decision_def record_valid_def record_graph_check_def plan_record_def)
  obtain x y z where j: "pg_jsonb P (encode_strings (de_reasons d)) = Inr x" "array_stored (encode_strings (de_reasons d)) x"
    "pg_jsonb P (encode_strings (ir_required_capabilities q)) = Inr y" "array_stored (encode_strings (ir_required_capabilities q)) y"
    "pg_jsonb P (encode_entities (ir_targets q)) = Inr z" "array_stored (encode_entities (ir_targets q)) z"
    using jsonb_portable(1,3) [OF P] d(2) q(1) unfolding portable_decision_def portable_plan_def by meson
  have texts: "send_texts P [Some n, Some (de_policy_id d), Some (ir_desired_outcome q)] = Inr ()"
    using d(2) q(1) by (simp add: send_portable [OF P] portable_decision_def portable_plan_def)
  let ?m = "\<lambda>r. rw_id r = p \<and> rw_state r = S ''accepted''" and ?g = "set_planned d q n x y z now"
  let ?t = "planned_row a p key n now" and ?q = "?g r0"
  let ?s1 = "s\<lparr>db_processing := upd ?m ?g (db_processing s)\<rparr>"
  let ?s = "?s1\<lparr>db_attempts := db_attempts s @ [?t]\<rparr>"
  have read: "deserialize_processing ?q = Inr (plan_record r d i q n now)"
    using q(1) by (intro read_planned [OF r0(2) r(2) c dok d(1) i q(2) _ _ j(2,4,6) v(1)]) (simp_all add: portable_plan_def)
  have checks: "processing_checks P ?q" "attempt_checks P ?t"
    using planned_checks [OF P c row(1) dok d(1) q(2,3) j(2,4,6)] by simp_all
  have "filter ?m (db_processing s) = [r0]" using one_row(1) [OF ok' r0(1), of "\<lambda>r. rw_state r = S ''accepted''"] row(1) by simp
  then have A: "update_processing P ?m ?g s = (Inr [?q], ?s1)" using checks(1) by (simp add: update_processing_def)
  have found: "pg_processing ?s1 p = Some ?q"
    using r0(1) row(1) pg_found(1) [OF r0(1)] by (simp add: found_after(1) set_planned_def)
  have t: "ta_attempt_id ?t = a" "ta_operation_key ?t = key" "ta_processing_id ?t = p" by (simp_all add: planned_row_def)
  have "p \<in> rw_id ` set (db_processing ?s1)" using pg_found(1) [OF found] by auto
  then have B: "insert_attempt P ?t ?s1 = (Inr [?t], ?s)"
    using checks(2) free by (auto simp: insert_attempt_def t pg_unplanned_def list_ex_iff image_iff)
  have select: "select_processing p ?s = (Inr (Some ?q), ?s)"
    using found by (simp add: select_processing_def asks_def pg_processing_def)
  have op: "pg_store_plan P p d i q n a key now s
      = (Inr (Some \<lparr>pp_record = plan_record r d i q n now, pp_attempt = planned_attempt a p key n now\<rparr>), ?s)"
    using texts j(1,3,5) A B select read read_new_attempt [OF v(2)] d(1) src i q(1)
    by (simp add: pg_store_plan_def lift_Inr transaction_def bind_def lift_def ret_def first_row_def portable_plan_def
        incident_eq_def)
  have "in_step P ?s"
    using stays_in_step [OF ok, of "Op_plan p d i q n a key" now] op by (simp add: postgres_repository_def)
  moreover have "pg_processing ?s p = Some ?q" using found by (simp add: pg_processing_def)
  moreover have "pg_attempt ?s a = Some ?t"
  proof -
    have "List.find (\<lambda>t. ta_attempt_id t = a) (db_attempts s) = None" using free(2) by (auto simp: find_None)
    then show ?thesis by (simp add: pg_attempt_def find_append t)
  qed
  ultimately show ?thesis
    using op read read_new_attempt [OF v(2)] by (intro exI [of _ ?s]) (simp add: pg_record_Some pg_execution_Some)
qed

section \<open>Completion\<close>

lemma forget_valid:
  assumes "record_valid r" "pr_state r = COMPLETED"
  shows "record_valid (forget_plan r)"
proof -
  have "record_common (forget_plan r) = record_common r" by (simp add: record_common_def forget_plan_def)
  moreover have "record_state_check (forget_plan r) = record_state_check r"
    using assms(2) by (simp add: record_state_check_def forget_plan_def)
  moreover have "record_graph_check (forget_plan r)"
    using assms(1) by (simp add: record_valid_def record_graph_check_def forget_plan_def cong: option.case_cong)
  ultimately show ?thesis using assms(1) by (simp add: record_valid_def)
qed

lemma read_completed:
  assumes r0: "deserialize_processing r0 = Inr r" "pr_state r \<noteq> COMPLETED" and p: "planned_for r d i q n" "de_outcome d = INVESTIGATE"
    and v: "portable_result v" "mk_orchestration_result d (Some i) (Some q) (Some v) = Inr res"
    and a: "array_stored (encode_strings (rs_completed_capabilities v)) c" "array_stored (encode_evidence (rs_evidence v)) e"
    and valid: "record_valid (completed_record r res now)"
  shows "deserialize_processing (set_completed v c e now r0) = Inr (forget_plan (completed_record r res now))"
proof -
  let ?q = "set_completed v c e now r0"
  have same: "same_record r0 ?q" "same_plan r0 ?q" by (simp_all add: same_record_def same_plan_def set_completed_def)
  obtain al dd planned st res0 where x: "rw_snapshot_version r0 = snapshot_version" "deserialize_alert r0 = Inr al"
    "deserialize_decision r0 (al_source al) = Inr dd" "deserialize_request r0 al dd = Inr planned"
    "deserialize_result r0 st dd planned = Inr res0" and
    r: "r = \<lparr>pr_processing_id = rw_id r0, pr_created_at = rw_created_at r0, pr_updated_at = rw_updated_at r0,
             pr_alert = al, pr_state = st, pr_idempotency_scope = rw_idempotency_scope r0,
             pr_idempotency_key = rw_idempotency_key r0, pr_fingerprint_version = rw_fingerprint_version r0,
             pr_request_fingerprint = rw_request_fingerprint r0,
             pr_planned_decision = (if res0 = None then dd else None),
             pr_planned_incident = (if res0 = None then map_option fst planned else None),
             pr_planned_request = (if res0 = None then map_option snd planned else None),
             pr_selected_backend = rw_selected_backend r0, pr_completed_result = res0,
             pr_completed_at = rw_completed_at r0, pr_failed_at = rw_failed_at r0,
             pr_error_category = rw_error_category r0, pr_error_detail = rw_error_detail r0\<rparr>"
    using r0(1) unfolding deserialize_processing_Inr by blast
  have "res0 = None" using x(5) r r0(2) by simp
  with p(1) r have dec: "dd = Some d" "planned = Some (i, q)" by (auto simp: planned_for_def)
  have ok: "list_all evidence_ok (rs_evidence v)"
    "mk_investigation_result (rs_backend v) (rs_completed_capabilities v) (rs_evidence v) = Inr v"
    using v(1) by (simp_all add: portable_result_def)
  have "deserialize_result ?q COMPLETED (Some d) (Some (i, q)) = Inr (Some res)"
    using p(2) decode_strings_stored [OF a(1)] decode_evidence_stored [OF a(2) ok(1)] ok(2) v(2)
    by (simp add: deserialize_result_def set_completed_def not_null_text_def)
  moreover have "record_valid (forget_plan (completed_record r res now))"
    using forget_valid [OF valid] by (simp add: completed_record_def)
  ultimately show ?thesis
    unfolding deserialize_processing_Inr
    by (intro exI [of _ al] exI [of _ "Some d"] exI [of _ "Some (i, q)"] exI [of _ COMPLETED] exI [of _ "Some res"])
      (use x dec deserialize_kept(1) [OF same(1)] deserialize_kept(2,3) [OF same(2)] in
       \<open>simp add: r set_completed_def forget_plan_def completed_record_def\<close>)
qed

lemma completed_checks:
  assumes P: "pg_documented P" and r: "processing_checks P r" "rw_state r = S ''submitted''" "rw_decision_outcome r = Some (S ''investigate'')"
    and v: "nonblank (rs_backend v)"
    and a: "array_stored (encode_strings (rs_completed_capabilities v)) c" "array_stored (encode_evidence (rs_evidence v)) e"
  shows "processing_checks P (set_completed v c e now r)"
proof -
  let ?q = "set_completed v c e now r"
  from stored_arrays(3) [OF a(1)] stored_arrays(2) [OF a(2)] obtain xs ys where j: "c = JArr xs" "e = JArr ys" by blast
  have same: "same_record r ?q" "same_plan r ?q" "rw_state ?q = processing_state_value COMPLETED"
    by (simp_all add: same_record_def same_plan_def set_completed_def)
  have st: "rw_state r \<in> active_texts" using r(2) by (simp add: active_texts_def)
  have life: "check_holds (ck_lifecycle_coherence r)" using r(1) by (simp add: processing_checks_def)
  have "check_holds (ck_lifecycle_coherence ?q)"
    using life [unfolded lifecycle_active [OF st]] r(3)
    by (subst lifecycle_completed) (simp_all add: set_completed_def ck_decided_def ck_requested_def ck_no_result_def j)
  then show ?thesis
    using documentedD(5) [OF P v] by (intro checks_moved [OF r(1) same]) (simp_all add: set_completed_def)
qed

lemma investigating_row:
  assumes "deserialize_processing r0 = Inr r" "planned_for r d i q n" "de_outcome d = INVESTIGATE"
  shows "rw_decision_outcome r0 = Some (S ''investigate'')"
proof -
  obtain src where x: "deserialize_decision r0 src = Inr (Some d)"
    using assms(1,2) unfolding deserialize_processing_Inr planned_for_def by (auto split: if_splits)
  then obtain oc ys where "rw_decision_outcome r0 = Some (decision_outcome_value oc)" "de_outcome d = oc"
    by (auto simp: deserialize_decision_def and_then_Inr mk_decision_Inr split: option.splits)
  with assms(3) show ?thesis by simp
qed

lemma read_finished:
  "deserialize_attempt t0 = Inr t \<Longrightarrow> attempt_valid (completed_attempt t now) \<Longrightarrow>
   deserialize_attempt (attempt_completed now t0) = Inr (completed_attempt t now)"
proof -
  assume a: "deserialize_attempt t0 = Inr t" "attempt_valid (completed_attempt t now)"
  have "attempt_state_value A_COMPLETED = S ''completed''" by simp
  then have "attempt_state_of (S ''completed'') = Inr A_COMPLETED" by (simp only: states_of_Inr)
  with a show "deserialize_attempt (attempt_completed now t0) = Inr (completed_attempt t now)"
    by (auto simp: deserialize_attempt_def and_then_Inr attempt_completed_def completed_attempt_def)
qed

lemma result_eq_refl: "result_eq x x"
  by (auto simp: result_eq_def opt_incident_eq_def opt_request_eq_def split: option.split)

lemma pg_completes:
  assumes P: "pg_documented P" and ok: "in_step P s" and h: "pair_held pg_execution pg_record s t r"
    and st: "at_state t = A_SUBMITTED" "pr_state r = SUBMITTED" and p: "planned_for r d i q n" "de_outcome d = INVESTIGATE"
    and v: "portable_result v" and res: "res = \<lparr>or_decision = d, or_incident = Some i, or_investigation_request = Some q, or_investigation_result = Some v\<rparr>"
    and mk: "mk_orchestration_result d (Some i) (Some q) (Some v) = Inr res"
    and valid: "attempt_valid (completed_attempt t now)" "record_valid (completed_record r res now)"
  shows "\<exists>s' r'. pg_complete_processing P (at_attempt_id t) res now s = (Inr (Some r'), s')
    \<and> r' \<in> {completed_record r res now, forget_plan (completed_record r res now)}
    \<and> in_step P s' \<and> pg_record s' (at_processing_id t) = Some r'
    \<and> pg_execution s' (at_attempt_id t) = Some (completed_attempt t now)"
proof -
  let ?r' = "forget_plan (completed_record r res now)"
  obtain t0 r0 where t0: "pg_attempt s (at_attempt_id t) = Some t0" "deserialize_attempt t0 = Inr t"
    and r0: "pg_processing s (ta_processing_id t0) = Some r0" "deserialize_processing r0 = Inr r"
    and id: "ta_processing_id t0 = at_processing_id t" and st0: "ta_state t0 = attempt_state_value (at_state t)"
      "rw_state r0 = processing_state_value (pr_state r)" and c: "attempt_checks P t0" "processing_checks P r0"
    by (rule held_rows [OF h ok])
  obtain x y where j: "pg_jsonb P (encode_strings (rs_completed_capabilities v)) = Inr x"
    "array_stored (encode_strings (rs_completed_capabilities v)) x"
    "pg_jsonb P (encode_evidence (rs_evidence v)) = Inr y" "array_stored (encode_evidence (rs_evidence v)) y"
    using jsonb_portable(2,3) [OF P] v unfolding portable_result_def by meson
  have texts: "send_texts P [Some (rs_backend v)] = Inr ()" using v by (simp add: send_portable [OF P] portable_result_def)
  let ?g = "set_completed v x y now" and ?m = "\<lambda>t'. ta_attempt_id t' = at_attempt_id t \<and> ta_state t' = S ''submitted''"
  have read: "deserialize_processing (?g r0) = Inr ?r'"
    using st(2) by (intro read_completed [OF r0(2) _ p v mk j(2,4) valid(2)]) simp
  have b: "nonblank (rs_backend v)" using v by (auto simp: portable_result_def mk_investigation_result_def and_then_Inr)
  have now_st: "ta_state t0 = S ''submitted''" "rw_state r0 \<in> {S ''submitted''}" using st st0 by simp_all
  have same: "same_attempt u (attempt_completed now u)" "same_record w (?g w)" for u w
    by (simp_all add: pg_sets same_attempt_def same_record_def)
  have ch: "processing_checks P (?g r0)"
    using completed_checks [OF P c(2) _ investigating_row [OF r0(2) p] b j(2,4)] st0(2) st(2) by simp
  have ca: "attempt_checks P (attempt_completed now t0)"
  proof -
    have "nonblank (S ''succeeded'')" by (simp add: S_def is_space_def)
    from documentedD(5) [OF P this] show ?thesis
      using c(1) st0(1) st(1) by (auto simp: attempt_checks_def attempt_completed_def ck_attempt_strings_def
          ck_attempt_coherence_def ck_bounded_def ck_together_def)
  qed
  obtain s' where s': "update_pair P ?m (attempt_completed now) {S ''submitted''} (Inr ?g) s
      = (Inr (Some (attempt_completed now t0, ?g r0)), s')"
    "pg_attempt s' (at_attempt_id t) = Some (attempt_completed now t0)" "pg_processing s' (ta_processing_id t0) = Some (?g r0)"
    by (rule updated_pair [OF ok t0(1), of "\<lambda>t. ta_state t = S ''submitted''", OF now_st(1) r0(1) now_st(2) same ca ch])
  have op: "pg_complete_processing P (at_attempt_id t) res now s = (Inr (Some ?r'), s')"
    using texts j(1,3) s'(1) read p(2) result_eq_refl [of res]
    by (simp add: pg_complete_processing_def transaction_def bind_def lift_def ret_def res forget_plan_def completed_record_def)
  moreover have "in_step P s'"
    using stays_in_step [OF ok, of "Op_complete (at_attempt_id t) res" now] op by (simp add: postgres_repository_def)
  ultimately show ?thesis
    using s'(2,3) read read_finished [OF t0(2) valid(1)] id
    by (intro exI [of _ s'] exI [of _ ?r']) (simp add: pg_record_Some pg_execution_Some)
qed

section \<open>The interface\<close>

lemma postgres_ops [simp]:
  "rp_accept_processing (postgres_repository P) = pg_accept_processing P" "rp_get (postgres_repository P) = pg_get"
  "rp_store_no_action_result (postgres_repository P) = pg_store_no_action_result P"
  "rp_store_plan (postgres_repository P) = pg_store_plan P"
  "rp_claim_attempt_for_submission (postgres_repository P) = pg_claim_attempt_for_submission P"
  "rp_mark_attempt_submitted (postgres_repository P) = pg_mark_attempt_submitted P"
  "rp_record_poll (postgres_repository P) = pg_record_poll P"
  "rp_complete_processing (postgres_repository P) = pg_complete_processing P"
  by (simp_all add: postgres_repository_def)

text \<open>A database that behaves as documented records what it is told.\<close>

lemma postgres_records:
  assumes documented: "pg_documented P"
  shows "recording_repository (postgres_repository P) (in_step P) pg_record pg_execution
    pg_unbound (\<lambda>s p. p \<notin> rw_id ` set (db_processing s)) (\<lambda>s a. a \<notin> ta_attempt_id ` set (db_attempts s))
    (\<lambda>s k. k \<notin> ta_operation_key ` set (db_attempts s)) pg_unplanned (kept_alert P) portable_decision portable_plan portable
    portable_result"
proof (unfold_locales, unfold postgres_ops)
  fix s p r now
  assume "in_step P s" "pg_record s p = Some r"
  then show "pg_get p now s = (Inr (Some r), s)"
    by (auto simp: pg_record_Some pg_get_def transaction_def select_processing_def asks_def pg_processing_def bind_def
        read_row_def lift_def)
next
  fix s key al p now dg al' r
  assume s: "in_step P s" and k: "key_visible_ascii key" "pg_unbound s (sp_source (al_source al)) key"
    "p \<notin> rw_id ` set (db_processing s)" "aware now" "length dg = 32" "kept_alert P al = Some al'"
    and r: "r = accepted_record p al' (sp_source (al_source al)) key fingerprint_version dg now"
  obtain s' where s': "pg_accept_processing P p al (sp_source (al_source al)) key fingerprint_version dg now s
      = (Inr \<lparr>pa_record = r, pa_created = True\<rparr>, s')" "in_step P s'" "pg_record s' p = Some r" "db_attempts s' = db_attempts s"
    using pg_accepts [OF documented s k] unfolding r by blast
  have "pg_unplanned s' p"
    using s k(3) by (auto simp: pg_unplanned_def s'(4) in_step_def pg_ok_def)
  moreover have "pg_execution s' = pg_execution s" by (simp add: fun_eq_iff pg_execution_def pg_attempt_def s'(4))
  ultimately show "\<exists>s'. pg_accept_processing P p al (sp_source (al_source al)) key fingerprint_version dg now s
      = (Inr \<lparr>pa_record = r, pa_created = True\<rparr>, s') \<and> in_step P s' \<and> pg_record s' p = Some r
    \<and> pg_unplanned s' p \<and> pg_execution s' = pg_execution s
    \<and> (\<lambda>a. a \<notin> ta_attempt_id ` set (db_attempts s')) = (\<lambda>a. a \<notin> ta_attempt_id ` set (db_attempts s))
    \<and> (\<lambda>k. k \<notin> ta_operation_key ` set (db_attempts s')) = (\<lambda>k. k \<notin> ta_operation_key ` set (db_attempts s))"
    using s' by simp
next
  fix s p r d now
  assume "in_step P s" "pg_record s p = Some r" "pr_state r = ACCEPTED" "de_outcome d = NO_ACTION" "portable_decision d"
    "record_valid (no_action_record r d now)"
  from pg_decides_no_action [OF documented this] show "\<exists>s'. pg_store_no_action_result P p (no_action_result d) now s
      = (Inr (Some (no_action_record r d now)), s') \<and> in_step P s' \<and> pg_record s' p = Some (no_action_record r d now)
    \<and> pg_execution s' = pg_execution s"
    by (auto simp: fun_eq_iff pg_execution_def pg_attempt_def)
qed (blast intro: pg_plans [OF documented] pg_claims pg_marks [OF documented] pg_polls [OF documented] pg_completes [OF documented])+

text \<open>The runs, with the conditions written out. An alert that is new to the tables:\<close>

definition pg_new_alert :: "env \<Rightarrow> pg_store world \<Rightarrow> canonical_alert \<Rightarrow> ustring \<Rightarrow> bool" where
  "pg_new_alert E w al key \<longleftrightarrow>
     (let s = w_repo w; u = w_step w in
      key_visible_ascii key \<and> pg_unbound s (sp_source (al_source al)) key
      \<and> e_fresh E u \<notin> rw_id ` set (db_processing s)
      \<and> e_fresh E (u + 2) \<notin> ta_attempt_id ` set (db_attempts s)
      \<and> e_fresh E (u + 3) \<notin> ta_operation_key ` set (db_attempts s))"

text \<open>A backend that answers, with values that the database can hold.\<close>

definition portable_backend :: "backend \<Rightarrow> (investigation_request \<Rightarrow> bool) \<Rightarrow> (ustring \<Rightarrow> bool) \<Rightarrow> bool" where
  "portable_backend b able known \<longleftrightarrow> reliable_backend b able known \<and> (\<forall>x. known x \<longrightarrow> portable x)
     \<and> (\<forall>u q x timeout st. able q \<longrightarrow> request_ok q \<longrightarrow> known x \<longrightarrow> bk_poll b u q x timeout = Inr (Some st) \<longrightarrow>
          portable (os_remote_state st))
     \<and> (\<forall>u q x v. able q \<longrightarrow> request_ok q \<longrightarrow> known x \<longrightarrow> bk_collect b u q x = Inr v \<longrightarrow> portable_result v)"

text \<open>An alert whose texts the database can hold and whose time lies a day inside the years 1 to 9999: the
  driver must be able to give it back in the time zone of the session.\<close>

definition storable_alert :: "canonical_alert \<Rightarrow> bool" where
  "storable_alert al \<longleftrightarrow> portable_alert al \<and> us_per_day \<le> instant (al_detected_at al)
     \<and> instant (al_detected_at al) < max_us - us_per_day"

lemma storable_fingerprint:
  assumes "storable_alert al"
  shows "utc_in_range (al_detected_at al)" "alert_encodable al"
proof -
  have "(\<lambda>c. c \<noteq> 0 \<and> encodable c) = (\<lambda>c. encodable c \<and> c \<noteq> 0)" by auto
  then have "portable s \<Longrightarrow> list_all encodable s" for s by (auto simp: portable_def list_all_iff)
  then show "utc_in_range (al_detected_at al)" "alert_encodable al"
    using assms by (auto simp: storable_alert_def portable_alert_def utc_in_range_def us_per_day_def alert_encodable_def
        opt_encodable_def portable_opt_def portable_entity_def portable_evidence_def list_all_iff split: option.splits)
qed

lemma storable_kept:
  assumes "pg_documented P" "alert_ok al" "storable_alert al"
  obtains al' where "kept_alert P al = Some al'" "alert_ok al'" "alert_eq al' al" "al_severity al' = al_severity al"
    "al_source al' = al_source al" "al_entities al' = al_entities al"
proof -
  have a: "aware (al_detected_at al)" using assms(2) by (simp add: alert_ok_def)
  obtain t where t: "pg_time P (al_detected_at al) = Inr t"
    using documentedD(6) [OF assms(1) a] assms(3) by (auto simp: storable_alert_def)
  from documentedD(3) [OF assms(1) a t] assms(2) have "aware t" "instant t = instant (al_detected_at al)" "dt_ok t"
    by (simp_all add: alert_ok_def)
  with that [of "al\<lparr>al_detected_at := t\<rparr>"] assms(2,3) a t show thesis
    by (simp add: kept_alert_def storable_alert_def alert_ok_def alert_eq_def dt_eq_def)
qed

lemma postgres_investigation:
  assumes P: "pg_documented P" and run: "quiet E" "clock_from E (Suc (w_step w))" "in_step P (w_repo w)" "pg_new_alert E w al key"
      "kept_alert P al = Some al'" "fingerprint_canonical_alert al = Inr (v, dg)" "assigned E al' d q b"
    and hold: "portable_decision d" "portable_plan \<lparr>in_alert = al', in_decision = d\<rparr> q (bk_name b)"
    and b: "portable_backend b able known" "able q"
  shows "\<exists>out w' res x. process (postgres_repository P) E al key w = (Inr out, w')
    \<and> \<not> po_replayed out \<and> pr_state (po_record out) = COMPLETED
    \<and> pr_processing_id (po_record out) = e_fresh E (w_step w) \<and> pr_alert (po_record out) = al'
    \<and> pr_completed_result (po_record out) = Some res
    \<and> outcome_of b d \<lparr>in_alert = al', in_decision = d\<rparr> q res
    \<and> pg_record (w_repo w') (e_fresh E (w_step w)) = Some (po_record out)
    \<and> w_events w' = w_events w @ [Ev_claim True (e_fresh E (w_step w + 2)),
        Ev_submit (e_fresh E (w_step w + 2)) (bk_name b) (e_fresh E (w_step w + 3)) None]
        @ completion_trace (e_fresh E (w_step w + 2)) (bk_name b) x"
proof -
  note R = postgres_records [OF P]
  show ?thesis
    by (rule recording_repository.investigation_completes [OF R, where able = able and known = known])
      (use run hold b in \<open>simp_all add: recording_repository.new_alert_def [OF R] pg_new_alert_def
        recording_repository.storable_plan_def [OF R] recording_repository.serves_def [OF R] portable_backend_def\<close>)
qed

lemma postgres_no_action:
  assumes P: "pg_documented P" and run: "quiet E" "clock_from E (Suc (w_step w))" "in_step P (w_repo w)" "pg_new_alert E w al key"
      "kept_alert P al = Some al'" "fingerprint_canonical_alert al = Inr (v, dg)"
    and d: "oc_policy (e_orchestrator E) al' = Inr d" "de_source d = al_source al'" "de_outcome d = NO_ACTION" "portable_decision d"
  shows "\<exists>out w'. process (postgres_repository P) E al key w = (Inr out, w')
    \<and> \<not> po_replayed out \<and> pr_state (po_record out) = COMPLETED
    \<and> pr_processing_id (po_record out) = e_fresh E (w_step w) \<and> pr_alert (po_record out) = al'
    \<and> pr_completed_result (po_record out) = Some (no_action_result d)
    \<and> pg_record (w_repo w') (e_fresh E (w_step w)) = Some (po_record out)
    \<and> pg_execution (w_repo w') = pg_execution (w_repo w) \<and> w_events w' = w_events w"
proof -
  note R = postgres_records [OF P]
  show ?thesis
    by (rule recording_repository.no_action_completes [OF R])
      (use run d in \<open>simp_all add: recording_repository.new_alert_def [OF R] pg_new_alert_def\<close>)
qed

end
