(* ===== verification/Deployment.thy ===== *)
theory Deployment
  imports StartupProps PostgresRuns
begin

text \<open>
  The service as it is deployed: what \<open>main.py\<close> composes from its settings, running on PostgreSQL, from
  the request over HTTP to the durable result - with the mock backend and with Velociraptor.
\<close>

section \<open>Values of the default configuration\<close>

lemma portable_list [simp]: "portable [] = True" "portable (c # s) \<longleftrightarrow> c \<noteq> 0 \<and> encodable c \<and> portable s"
  "portable (s @ t) \<longleftrightarrow> portable s \<and> portable t"
  by (auto simp: portable_def)

lemma portable_texts [simp]:
  "portable process_list" "portable mock_name" "portable velociraptor_name" "portable baseline_policy_id"
  "portable (S ''collect process inventory'')" "portable (S ''completed'')" "portable (S ''mock:'')" "portable (S ''mock-result'')"
  "portable (severity_value sev)"
  by (simp_all add: process_list_def mock_name_def velociraptor_name_def baseline_policy_id_def S_def encodable_def)
    (cases sev; simp add: S_def encodable_def)

lemma portable_uuid: "portable (uuid_str x)"
proof -
  have "c \<noteq> 0 \<and> encodable c" if "c \<in> set (uuid_str x)" for c
    using uuid_str_chars [OF that] by (auto simp: is_hex_def is_digit_def encodable_def)
  then show ?thesis by (simp add: portable_def list_all_iff)
qed

lemma baseline_portable: "baseline_decide al = Inr d \<Longrightarrow> portable_decision d"
  using baseline_decide_Inr [of al]
  by (auto simp: portable_decision_def baseline_decide_def Let_def mk_decision_Inr S_def encodable_def split: if_splits)

text \<open>The mock, with the operations that it names itself.\<close>

definition mock_known :: "ustring \<Rightarrow> bool" where
  "mock_known x \<longleftrightarrow> nonblank x \<and> portable x"

lemma mock_portable: "portable_backend default_mock_backend (supports default_mock_backend) mock_known"
proof -
  have "reliable_backend default_mock_backend (supports default_mock_backend) mock_known"
  proof
    fix r :: investigation_request and t key and timeout :: "rat option"
    assume r: "supports default_mock_backend r" "request_ok r" "usable_timeout timeout"
    obtain s where "bk_submit default_mock_backend t r key timeout = Inr (Some s)" "submitted_ok s"
      using default_mock.submits [OF r] by blast
    moreover from this have "so_external_operation_id s = S ''mock:'' @ uuid_str key"
      by (auto simp: default_mock_backend_def mock_submit_def and_then_Inr mk_submitted_operation_Inr)
    ultimately show "\<exists>s. bk_submit default_mock_backend t r key timeout = Inr (Some s) \<and> submitted_ok s
        \<and> mock_known (so_external_operation_id s)"
      by (auto simp: mock_known_def submitted_ok_def portable_uuid)
  qed (use default_mock.name_nonblank default_mock.polls default_mock.collects in \<open>auto simp: mock_known_def\<close>)
  moreover have "portable (os_remote_state st)"
    if "bk_poll default_mock_backend u q x timeout = Inr (Some st)" for u q x timeout st
    using that by (auto simp: default_mock_backend_def mock_poll_def and_then_Inr mk_operation_status_Inr)
  moreover have "portable_result v" if c: "bk_collect default_mock_backend u q x = Inr v" for u q x v
  proof -
    have evidence: "list_all portable cs \<Longrightarrow>
        traverse (\<lambda>c. mk_evidence_reference (S ''mock:'' @ c) (Some (S ''mock-result''))) cs = Inr es \<Longrightarrow>
        list_all evidence_ok es \<and> list_all portable_evidence es" for cs es
      by (induction cs arbitrary: es) (auto simp: and_then_Inr mk_evidence_reference_Inr portable_evidence_def)
    from c have "set (ir_required_capabilities q) \<subseteq> {process_list}"
      by (auto simp: default_mock_backend_def mock_collect_result_def and_then_Inr mock_require_supported_def split: if_splits)
    then have "list_all portable (ir_required_capabilities q)" by (auto simp: list_all_iff)
    with c evidence show ?thesis
      by (auto simp: default_mock_backend_def mock_collect_result_def and_then_Inr portable_result_def mk_investigation_result_def)
  qed
  ultimately show ?thesis by (auto simp: portable_backend_def mock_known_def)
qed

text \<open>The request of \<open>main.py\<close> for an alert, as the database can hold it.\<close>

lemma inventory_portable:
  assumes "ir_targets q = al_entities al" "alert_ok al" "portable_alert al" "portable n"
    and "make_process_inventory_request i = Inr q"
  shows "portable_plan i q n"
  using assms
  by (auto simp: portable_plan_def make_process_inventory_request_def mk_investigation_request_Inr portable_alert_def alert_ok_def)

section \<open>The default deployment\<close>

lemma mock_orchestrator:
  assumes "start_service host api timestamp env = Inr s" "mock_selected env"
  shows "sv_orchestrator s = default_orchestrator"
proof -
  have "make_backend_router host api env = Inr [default_mock_backend]" unfolding make_backend_router_Inr using assms(2) by blast
  with assms(1) show ?thesis by (auto simp: start_service_Inr default_orchestrator_def)
qed

lemma default_run:
  assumes orch: "e_orchestrator E = default_orchestrator" and P: "pg_documented P" and run: "quiet E" "clock_from E (Suc (w_step w))"
      "in_step P (w_repo w)" "pg_new_alert E w al key" and al: "alert_ok al" "storable_alert al"
  shows "\<exists>r w'. process (postgres_repository P) E al key w = (Inr \<lparr>po_record = r, po_replayed = False\<rparr>, w')
    \<and> pr_state r = COMPLETED \<and> pr_processing_id r = e_fresh E (w_step w) \<and> alert_eq (pr_alert r) al
    \<and> pg_record (w_repo w') (e_fresh E (w_step w)) = Some r \<and> record_parts_ok r
    \<and> submitted (w_events w') = submitted (w_events w) @
        (if al_severity al \<in> {HIGH, CRITICAL} then [e_fresh E (w_step w + 2)] else [])"
proof -
  obtain al' where al': "kept_alert P al = Some al'" "alert_ok al'" "alert_eq al' al" "al_severity al' = al_severity al"
    by (rule storable_kept [OF P al])
  obtain dg where fp: "fingerprint_canonical_alert al = Inr (fingerprint_version, dg)"
    using fingerprint_defined storable_fingerprint [OF al(2)] by blast
  have pa: "portable_alert al'" using al'(1) by (auto simp: kept_alert_def portable_alert_def split: if_splits sum.splits)
  show ?thesis
  proof (cases "baseline_outcome (al_severity al)")
    case INVESTIGATE
    then have sev: "al_severity al \<in> {HIGH, CRITICAL}" by (cases "al_severity al") auto
    obtain d q where i: "investigates E al' d q default_mock_backend" "ir_targets q = al_entities al'"
      using default_investigates [OF orch, of al'] INVESTIGATE al'(4) by auto
    let ?i = "\<lparr>in_alert = al', in_decision = d\<rparr>"
    note a = investigates_assigned [OF i(1)]
    have d: "baseline_decide al' = Inr d" "de_source d = al_source al'" "make_process_inventory_request ?i = Inr q"
      "supports default_mock_backend q"
      using a orch by (simp_all add: assigned_def default_orchestrator_def routed_def)
    have plan: "portable_plan ?i q (bk_name default_mock_backend)"
      using inventory_portable [OF i(2) al'(2) pa _ d(3)] by simp
    from postgres_investigation [OF P run al'(1) fp a baseline_portable [OF d(1)] plan mock_portable d(4)]
      outcome_parts_ok [OF _ al'(2) d(2) i(2)] sev al'(3)
    show ?thesis
      by (elim exE conjE) (rename_tac out w' res x,
        rule_tac x = "po_record out" in exI, rule_tac x = w' in exI, simp add: completion_trace_def submitted_def)
  next
    case NO_ACTION
    then have sev: "al_severity al \<notin> {HIGH, CRITICAL}" by (cases "al_severity al") auto
    obtain d where d: "oc_policy (e_orchestrator E) al' = Inr d" "de_source d = al_source al'" "de_outcome d = NO_ACTION"
      using default_ignores [OF orch, of al'] NO_ACTION al'(4) by auto
    have "portable_decision d" using d(1) orch baseline_portable by (simp add: default_orchestrator_def)
    from postgres_no_action [OF P run al'(1) fp d this] al'(2,3) d(2) sev show ?thesis
      by (elim exE conjE) (rename_tac out w',
        rule_tac x = "po_record out" in exI, rule_tac x = w' in exI,
        simp add: record_parts_ok_def pr_decision_def pr_incident_def pr_investigation_request_def no_action_result_def alert_ok_def)
  qed
qed

section \<open>Concrete deployments\<close>

text \<open>The database that stores every value as it is sent (\<open>plain_pg\<close>), with empty tables.\<close>

lemma high_alert_storable: "storable_alert high_alert"
  by (simp add: storable_alert_def portable_alert_def portable_entity_def portable_evidence_def sample_defs S_def encodable_def
      sample_time_def instant_def us_per_day_def max_us_def)

lemma empty_in_step: "in_step P pg_empty"
  by (simp add: in_step_def pg_ok_empty pg_synced_empty)

lemma empty_new: "w_repo w = pg_empty \<Longrightarrow> pg_new_alert E w al sample_key"
  by (simp add: pg_new_alert_def pg_unbound_def pg_empty_def key_sample)

definition mock_settings :: settings where
  "mock_settings = [(database_setting, S ''postgresql://db/alert2ir'')]"

lemma mock_settings_selected: "mock_selected mock_settings"
  by (simp add: mock_selected_def mock_settings_def dict_get_def database_setting_def backend_setting_def
      velociraptor_settings_def velociraptor_config_setting_def velociraptor_host_setting_def velociraptor_client_setting_def)

lemma mock_starts: "\<exists>s. start_service host api timestamp mock_settings = Inr s"
proof -
  have "dict_get mock_settings export_endpoint_setting = None"
    "dict_get mock_settings database_setting = Some (S ''postgresql://db/alert2ir'')"
    by (simp_all add: mock_settings_def dict_get_def database_setting_def export_endpoint_setting_def)
  then have "exports_to mock_settings None" "dict_get mock_settings database_setting = Some (S ''postgresql://db/alert2ir'')"
    by (simp_all add: exports_to_def)
  moreover have "make_backend_router host api mock_settings = Inr [default_mock_backend]"
    unfolding make_backend_router_Inr using mock_settings_selected by blast
  ultimately show ?thesis unfolding start_service_Inr using service_started_total lab_texts by blast
qed

lemma high_body_time: "dt_ok (aq_detected_at high_body)"
proof -
  obtain b where "alert_from_domain high_alert = Inr b" using alert_from_domain_total [OF sample_alerts_ok(1)] by blast
  moreover from this have "aq_detected_at b = al_detected_at high_alert"
    by (auto simp: alert_from_domain_def and_then_Inr mk_canonical_alert_request_def split: if_splits)
  ultimately show ?thesis using sample_alerts_ok(1) by (simp add: high_body_def alert_ok_def)
qed

text \<open>C11: The default deployment: a service started with the settings of the mock answers on PostgreSQL,
  without interference or faults, every valid alert under a new key 200 with the location of its record,
  which reads back from the tables as completed and about the alert; exactly the alerts of severity high
  and critical are submitted to the backend, once. The texts of the alert hold no NUL and no surrogate
  and its time lies at least a day inside the years 1 to 9999, and the database and its driver behave as
  documented on such values.\<close>

theorem default_deployment_completes:
  assumes "start_service host api timestamp env = Inr s" "mock_selected env" "e_orchestrator E = sv_orchestrator s"
    and "pg_documented P" "quiet E" "clock_from E (Suc (w_step (ex_world ex)))"
    and "in_step P (w_repo (ex_world ex))" "pg_new_alert E (ex_world ex) al key"
    and "alert_to_domain q = Inr al" "dt_ok (aq_detected_at q)" "storable_alert al"
  shows "\<exists>resp ex' r. process_alert (postgres_repository P) E q [key] ex = (Inr resp, ex') \<and> hr_status resp = 200
    \<and> dict_get (hr_headers resp) (S ''Location'') = Some (status_url (e_fresh E (w_step (ex_world ex))))
    \<and> pg_record (w_repo (ex_world ex')) (e_fresh E (w_step (ex_world ex))) = Some r
    \<and> pr_state r = COMPLETED \<and> alert_eq (pr_alert r) al
    \<and> submitted (w_events (ex_world ex')) = submitted (w_events (ex_world ex)) @
        (if al_severity al \<in> {HIGH, CRITICAL} then [e_fresh E (w_step (ex_world ex) + 2)] else [])"
proof -
  let ?w = "ex_world ex" and ?p = "e_fresh E (w_step (ex_world ex))"
  have orch: "e_orchestrator E = default_orchestrator" using mock_orchestrator [OF assms(1,2)] assms(3) by simp
  have ok: "alert_ok al" using assms(9,10) by (rule alert_to_domain_ok)
  obtain r w' where r: "process (postgres_repository P) E al key ?w = (Inr \<lparr>po_record = r, po_replayed = False\<rparr>, w')"
    "pr_state r = COMPLETED" "pr_processing_id r = ?p" "alert_eq (pr_alert r) al" "pg_record (w_repo w') ?p = Some r"
    "record_parts_ok r" "submitted (w_events w') = submitted (w_events ?w) @
        (if al_severity al \<in> {HIGH, CRITICAL} then [e_fresh E (w_step ?w + 2)] else [])"
    using default_run [OF orch assms(4-8) ok assms(11)] by blast
  obtain resp where resp: "public_processing_response r False = Inr resp" using public_response_total [OF r(6)] by blast
  obtain ex' where e: "set_request_correlation (Some ?p) (pr_error_category r) (ex\<lparr>ex_world := w'\<rparr>) = (Inr (), ex')"
    "w_repo (ex_world ex') = w_repo w'" "w_events (ex_world ex') = w_events w'"
    using correlation_keeps [of "Some ?p" "pr_error_category r" "ex\<lparr>ex_world := w'\<rparr>"] by auto
  have k: "key_visible_ascii key" using assms(8) by (simp add: pg_new_alert_def Let_def)
  have "process_alert (postgres_repository P) E q [key] ex = (Inr resp, ex')"
    using r(1,3) resp e(1) by (simp add: process_alert_valid [OF k assms(9)] try_run then_run)
  with r public_response_status [OF resp] e(2,3) show ?thesis
    by (intro exI [of _ resp] exI [of _ ex'] exI [of _ r]) (simp add: durable_status_def)
qed

theorem default_deployment_completes_witness:
  "\<exists>s resp ex'. start_service lab_host lab_api [] mock_settings = Inr s
    \<and> process_alert (postgres_repository plain_pg) (lab_world s) high_body [sample_key] (start_exchange pg_empty) = (Inr resp, ex')
    \<and> hr_status resp = 200 \<and> submitted (w_events (ex_world ex')) = [2]"
proof -
  obtain s where s: "start_service lab_host lab_api [] mock_settings = Inr s" using mock_starts by blast
  have "in_step plain_pg (w_repo (ex_world (start_exchange pg_empty)))"
    "pg_new_alert (lab_world s) (ex_world (start_exchange pg_empty)) high_alert sample_key"
    by (simp_all add: empty_in_step empty_new)
  from default_deployment_completes [OF s mock_settings_selected lab_world_facts(1) plain_documented lab_world_facts(2,3) this
      high_body_to_domain high_body_time high_alert_storable] s
  show ?thesis by (fastforce simp: sample_defs lab_world_facts(5))
qed

section \<open>The deployment with Velociraptor\<close>

lemma flow_status_portable:
  assumes "flow_status rows client_id artifact x = Inr st"
  shows "portable (os_remote_state st)"
proof -
  have "portable t" if "flow_state (PStr t) = Some z" for t z
    using that by (auto simp: flow_state_def terminal_success_flow_states_def terminal_failure_flow_states_def
        nonterminal_flow_states_def S_def encodable_def split: if_splits)
  with assms show ?thesis
    by (auto simp: flow_status_def mk_operation_status_Inr S_def encodable_def flow_state_def
        split: list.splits if_splits option.splits pyvalue.splits)
qed

lemma velociraptor_portable:
  assumes "answers_for Es client_id flow_known" "nonblank client_id" "\<And>x. flow_known x \<Longrightarrow> portable x"
  shows "portable_backend (velociraptor_backend Es (host_backend target client_id)) (about_host target) flow_known"
proof -
  let ?b = "velociraptor_backend Es (host_backend target client_id)"
  have "portable (os_remote_state st)" if "bk_poll ?b u q x timeout = Inr (Some st)" for u q x timeout st
  proof -
    from that obtain w where "velo_poll (Es u) (host_backend target client_id) q x timeout velo_start = (Inr st, w)"
      by (cases "velo_poll (Es u) (host_backend target client_id) q x timeout velo_start")
        (auto simp: velociraptor_backend_def map_sum_def split: sum.splits)
    then show ?thesis
      by (auto simp: velo_poll_def velo_poll_flow_def bind_eq_Inr lift_def dest: flow_status_portable)
  qed
  moreover have "portable_result v"
    if "about_host target q" "bk_collect ?b u q x = Inr v" for u q x v
  proof -
    have "list_all portable (ir_required_capabilities q)" using that(1) by (auto simp: about_host_def list_all_iff)
    with that(2) show ?thesis
      by (auto simp: velociraptor_backend_def velo_collect_result_def velo_result_def and_then_Inr portable_result_def
          mk_investigation_result_def split: if_splits)
  qed
  ultimately show ?thesis using velociraptor_reliable [OF assms(1,2)] assms(3) by (auto simp: portable_backend_def)
qed

text \<open>C12: A service started with the Velociraptor settings, on PostgreSQL without interference or faults and
  with an API that answers, completes every new alert of severity high or critical about the configured
  host in one call: the durable result is Velociraptor's, after one submission, one poll and one
  collection, and it reads back from the tables. As for the mock, the alert is one that the database can
  hold, and so are the identifiers of the flows.\<close>

theorem velociraptor_deployment_completes:
  assumes "start_service host api timestamp env = Inr s" "velociraptor_selected env host target client_id c"
    and "answers_for (api c) client_id flow_known" "\<And>x. flow_known x \<Longrightarrow> portable x" "e_orchestrator E = sv_orchestrator s"
    and "pg_documented P" "quiet E" "clock_from E (Suc (w_step w))" "in_step P (w_repo w)" "pg_new_alert E w al key"
    and "alert_ok al" "storable_alert al"
    and "al_severity al \<in> {HIGH, CRITICAL}" "al_entities al = [\<lparr>en_kind = S ''host'', en_value = target\<rparr>]"
  shows "\<exists>out w' res r x. process (postgres_repository P) E al key w = (Inr out, w')
    \<and> \<not> po_replayed out \<and> pr_state (po_record out) = COMPLETED \<and> alert_eq (pr_alert (po_record out)) al
    \<and> pr_completed_result (po_record out) = Some res \<and> or_investigation_result res = Some r
    \<and> rs_backend r = velociraptor_name
    \<and> pg_record (w_repo w') (e_fresh E (w_step w)) = Some (po_record out)
    \<and> w_events w' = w_events w @ [Ev_claim True (e_fresh E (w_step w + 2)),
        Ev_submit (e_fresh E (w_step w + 2)) velociraptor_name (e_fresh E (w_step w + 3)) None,
        Ev_poll (e_fresh E (w_step w + 2)) velociraptor_name x None,
        Ev_collect (e_fresh E (w_step w + 2)) velociraptor_name x]"
proof -
  let ?b = "velociraptor_backend (api c) (host_backend target client_id)"
  have n: "bk_name ?b = velociraptor_name" by (simp add: velociraptor_backend_def)
  have client: "nonblank client_id" using assms(2) setting_exact_nonblank by (auto simp: velociraptor_selected_def)
  obtain al' where al': "kept_alert P al = Some al'" "alert_ok al'" "alert_eq al' al" "al_severity al' = al_severity al"
    "al_source al' = al_source al" "al_entities al' = al_entities al"
    by (rule storable_kept [OF assms(6,11,12)])
  obtain dg where fp: "fingerprint_canonical_alert al = Inr (fingerprint_version, dg)"
    using fingerprint_defined storable_fingerprint [OF assms(12)] by blast
  have pa: "portable_alert al'" using al'(1) by (auto simp: kept_alert_def portable_alert_def split: if_splits sum.splits)
  have "al_severity al' \<in> {HIGH, CRITICAL}" using al'(4) assms(13) by simp
  from velociraptor_assigned [OF assms(1,2,5) this] obtain d q where a: "assigned E al' d q ?b" "ir_targets q = al_entities al'"
    "ir_required_capabilities q = [process_list]" .
  let ?i = "\<lparr>in_alert = al', in_decision = d\<rparr>"
  have "oc_policy (sv_orchestrator s) = baseline_decide" "oc_request_factory (sv_orchestrator s) = make_process_inventory_request"
    using assms(1) by (auto simp: start_service_Inr)
  then have d: "baseline_decide al' = Inr d" "make_process_inventory_request ?i = Inr q"
    using a(1) assms(5) by (simp_all add: assigned_def)
  have plan: "portable_plan ?i q (bk_name ?b)" using inventory_portable [OF a(2) al'(2) pa _ d(2)] n by simp
  have host: "about_host target q" using a(2,3) assms(14) al'(6) by (simp add: about_host_def)
  from postgres_investigation [OF assms(6-10) al'(1) fp a(1) baseline_portable [OF d(1)] plan
      velociraptor_portable [OF assms(3) client assms(4)] host]
  obtain out w' res x where o:
    "process (postgres_repository P) E al key w = (Inr out, w')" "\<not> po_replayed out" "pr_state (po_record out) = COMPLETED"
    "pr_alert (po_record out) = al'"
    "pr_completed_result (po_record out) = Some res" "outcome_of ?b d ?i q res"
    "pg_record (w_repo w') (e_fresh E (w_step w)) = Some (po_record out)"
    "w_events w' = w_events w @ [Ev_claim True (e_fresh E (w_step w + 2)),
        Ev_submit (e_fresh E (w_step w + 2)) (bk_name ?b) (e_fresh E (w_step w + 3)) None]
        @ completion_trace (e_fresh E (w_step w + 2)) (bk_name ?b) x" by blast
  from o(6) obtain r where r: "or_investigation_result res = Some r" "rs_backend r = velociraptor_name"
    by (auto simp: outcome_of_def n)
  show ?thesis
    using o(1-5,7) r al'(3)
    by (intro exI [of _ out] exI [of _ w'] exI [of _ res] exI [of _ r] exI [of _ x])
      (simp add: o(8) n completion_trace_def)
qed

theorem velociraptor_deployment_completes_witness:
  "\<exists>s out w' x. start_service lab_host lab_api [] lab_settings = Inr s
    \<and> process (postgres_repository plain_pg) (lab_world s) high_alert sample_key (start_world pg_empty) = (Inr out, w')
    \<and> pr_state (po_record out) = COMPLETED
    \<and> w_events w' = [Ev_claim True 2, Ev_submit 2 velociraptor_name 3 None, Ev_poll 2 velociraptor_name x None,
        Ev_collect 2 velociraptor_name x]"
proof -
  obtain s where s: "start_service lab_host lab_api [] lab_settings = Inr s" using lab_starts by blast
  have f: "portable x" if "x = lab_flow" for x using that by (simp add: lab_flow_def S_def encodable_def)
  have w: "in_step plain_pg (w_repo (start_world pg_empty))" "pg_new_alert (lab_world s) (start_world pg_empty) high_alert sample_key"
    by (simp_all add: start_world_def empty_in_step empty_new)
  have a: "al_severity high_alert \<in> {HIGH, CRITICAL}" "al_entities high_alert = [\<lparr>en_kind = S ''host'', en_value = S ''WS-1''\<rparr>]"
    by (simp_all add: sample_defs)
  from velociraptor_deployment_completes [OF s lab_selected lab_answers f lab_world_facts(1) plain_documented lab_world_facts(2,3)
      w sample_alerts_ok(1) high_alert_storable a] s
  show ?thesis by (fastforce simp: lab_world_facts(5) start_world_def)
qed

end
