(* ===== verification/SigmaData.thy ===== *)
theory SigmaData
  imports Vocabulary JsonRead Sha256
begin

text \<open>
  \<open>tools/sigma/prepare_validation_data.py\<close>: the script that downloads the pinned ATT&CK and D3FEND
  data, verifies it against the manifest and seeds the caches of pySigma. It is a program on a
  \<open>data_world\<close>: the content of the files, the number of steps, and what was requested, waited for,
  seeded and printed. \<open>urlsplit\<close>, the network, the outcome of calls to the file system and the
  loaders of pySigma are a \<open>data_env\<close>, indexed by the step.

  A path is the list of its components. Temporary files are not modelled: only what is put under
  the final name. An integer beyond the digit limit of Python, whose ValueError leaves the script,
  counts as malformed JSON here.
\<close>

section \<open>Errors and environment\<close>

text \<open>The two exceptions that \<open>main\<close> turns into exit status 1, and any other.\<close>

datatype data_exn = ManifestError | PreparationError | DataError exn

type_synonym path = "ustring list"

datatype dataset = Attack | D3fend

record url_parts =
  up_scheme :: ustring
  up_netloc :: ustring
  up_path :: ustring
  up_query :: ustring
  up_fragment :: ustring

datatype fetched = Stored bytes | Fetch_failed | Fetch_raised exn

record data_env =
  de_urlsplit :: "ustring \<Rightarrow> url_parts option"
  de_repository :: path
  de_resolve :: "path \<Rightarrow> path option"
  de_mkdir :: "nat \<Rightarrow> bool"
  de_unlink :: "nat \<Rightarrow> bool"
  de_fetch :: "nat \<Rightarrow> ustring \<Rightarrow> fetched"
  de_readable :: "nat \<Rightarrow> bool"
  de_import :: bool
  de_load :: "dataset \<Rightarrow> nat \<Rightarrow> bytes option \<Rightarrow> ustring option"

datatype data_event =
    D_requested ustring
  | D_slept nat
  | D_seeded dataset "bytes option"
  | D_printed "ustring list"

record data_world =
  dw_step :: nat
  dw_files :: "path \<Rightarrow> bytes option"
  dw_events :: "data_event list"

type_synonym 'a data = "(data_world, data_exn, 'a) prog"

definition data_start :: "(path \<Rightarrow> bytes option) \<Rightarrow> data_world" where
  "data_start files = \<lparr>dw_step = 0, dw_files = files, dw_events = []\<rparr>"

definition data_ask :: "(nat \<Rightarrow> 'a) \<Rightarrow> 'a data" where
  "data_ask f = (\<lambda>w. (Inr (f (dw_step w)), w\<lparr>dw_step := Suc (dw_step w)\<rparr>))"

definition data_log :: "data_event \<Rightarrow> unit data" where
  "data_log e = modify (\<lambda>w. w\<lparr>dw_events := e # dw_events w\<rparr>)"

definition data_put :: "path \<Rightarrow> bytes option \<Rightarrow> unit data" where
  "data_put p content = modify (\<lambda>w. w\<lparr>dw_files := (dw_files w)(p := content)\<rparr>)"

text \<open>The bytes of a file, None when the operating system refuses.\<close>

definition data_read :: "data_env \<Rightarrow> path \<Rightarrow> bytes option data" where
  "data_read E p =
     bind (data_ask (de_readable E)) (\<lambda>readable. asks (\<lambda>w. if readable then dw_files w p else None))"

section \<open>The manifest\<close>

definition data_schema :: ustring where "data_schema = S ''alert2ir.sigma-validation-data.v1''"
definition attack_repository :: ustring where "attack_repository = S ''mitre-attack/attack-stix-data''"
definition attack_data_path :: ustring where "attack_data_path = S ''enterprise-attack/enterprise-attack.json''"
definition attack_filename :: ustring where "attack_filename = S ''enterprise-attack.json''"
definition d3fend_filename :: ustring where "d3fend_filename = S ''d3fend.json''"

definition top_level_fields :: "ustring list" where "top_level_fields = map S [''schema'', ''datasets'']"
definition dataset_fields :: "ustring list" where "dataset_fields = map S [''mitre_attack'', ''mitre_d3fend'']"
definition attack_fields :: "ustring list" where
  "attack_fields = map S [''repository'', ''version'', ''commit'', ''path'', ''size'', ''sha256'']"
definition d3fend_fields :: "ustring list" where
  "d3fend_fields = map S [''version'', ''url'', ''size'', ''sha256'']"

definition mutable_refs :: "ustring list" where
  "mutable_refs = map S [''current'', ''head'', ''latest'', ''main'', ''master'']"

definition lower_hex :: "nat \<Rightarrow> bool" where "lower_hex c \<longleftrightarrow> is_digit c \<or> 97 \<le> c \<and> c \<le> 102"

text \<open>The patterns \<open>[0-9a-f]{n}\<close> and \<open>[0-9A-Za-z][0-9A-Za-z._-]*\<close>, matched in full.\<close>

definition hex_text :: "nat \<Rightarrow> ustring \<Rightarrow> bool" where
  "hex_text n s \<longleftrightarrow> length s = n \<and> list_all lower_hex s"

definition ascii_alnum :: "nat \<Rightarrow> bool" where
  "ascii_alnum c \<longleftrightarrow> is_digit c \<or> 65 \<le> c \<and> c \<le> 90 \<or> 97 \<le> c \<and> c \<le> 122"

definition version_component :: "ustring \<Rightarrow> bool" where
  "version_component s \<longleftrightarrow>
     (case s of [] \<Rightarrow> False | c # t \<Rightarrow> ascii_alnum c \<and> list_all (\<lambda>d. ascii_alnum d \<or> d \<in> {46, 95, 45}) t)"

record data_manifest =
  mf_attack_repository :: ustring
  mf_attack_version :: ustring
  mf_attack_commit :: ustring
  mf_attack_path :: ustring
  mf_attack_size :: int
  mf_attack_sha256 :: ustring
  mf_d3fend_version :: ustring
  mf_d3fend_url :: ustring
  mf_d3fend_size :: int
  mf_d3fend_sha256 :: ustring

definition require_data_object :: "pyvalue \<Rightarrow> data_exn + (ustring \<times> pyvalue) list" where
  "require_data_object v = (case v of PDict d \<Rightarrow> Inr d | _ \<Rightarrow> Inl ManifestError)"

definition require_exact_fields :: "(ustring \<times> pyvalue) list \<Rightarrow> ustring list \<Rightarrow> data_exn + unit" where
  "require_exact_fields d expected = (if set (map fst d) = set expected then Inr () else Inl ManifestError)"

definition require_nonempty_string :: "pyvalue \<Rightarrow> data_exn + ustring" where
  "require_nonempty_string v =
     (case v of PStr s \<Rightarrow> if s = [] \<or> s \<noteq> strip s then Inl ManifestError else Inr s | _ \<Rightarrow> Inl ManifestError)"

definition validate_size :: "pyvalue \<Rightarrow> data_exn + int" where
  "validate_size v = (case v of PInt n \<Rightarrow> if n \<le> 0 then Inl ManifestError else Inr n | _ \<Rightarrow> Inl ManifestError)"

definition validate_sha256 :: "pyvalue \<Rightarrow> data_exn + ustring" where
  "validate_sha256 v = (case v of PStr s \<Rightarrow> if hex_text 64 s then Inr s else Inl ManifestError | _ \<Rightarrow> Inl ManifestError)"

definition require_data :: "bool \<Rightarrow> data_exn + unit" where
  "require_data b = (if b then Inr () else Inl ManifestError)"

text \<open>The path below \<open>https://d3fend.mitre.org\<close> of a version, and whether a URL is exactly that.\<close>

definition d3fend_path_of :: "ustring \<Rightarrow> ustring" where
  "d3fend_path_of version = S ''/ontologies/d3fend/'' @ version @ S ''/d3fend.json''"

definition d3fend_url_ok :: "url_parts \<Rightarrow> ustring \<Rightarrow> bool" where
  "d3fend_url_ok u version \<longleftrightarrow> up_scheme u = S ''https'' \<and> up_netloc u = S ''d3fend.mitre.org''
     \<and> up_path u = d3fend_path_of version \<and> up_query u = [] \<and> up_fragment u = []"

definition validate_manifest :: "(ustring \<Rightarrow> url_parts option) \<Rightarrow> pyvalue \<Rightarrow> data_exn + data_manifest" where
  "validate_manifest urlsplit document =
     and_then (require_data_object document) (\<lambda>manifest.
     and_then (require_exact_fields manifest top_level_fields) (\<lambda>_.
     and_then (require_data (get_value manifest ''schema'' = PStr data_schema)) (\<lambda>_.
     and_then (require_data_object (get_value manifest ''datasets'')) (\<lambda>datasets.
     and_then (require_exact_fields datasets dataset_fields) (\<lambda>_.
     and_then (require_data_object (get_value datasets ''mitre_attack'')) (\<lambda>attack.
     and_then (require_exact_fields attack attack_fields) (\<lambda>_.
     and_then (require_nonempty_string (get_value attack ''repository'')) (\<lambda>repository.
     and_then (require_data (repository = attack_repository)) (\<lambda>_.
     and_then (require_nonempty_string (get_value attack ''version'')) (\<lambda>version.
     and_then (require_nonempty_string (get_value attack ''commit'')) (\<lambda>commit.
     and_then (require_data (lower commit \<notin> set mutable_refs \<and> hex_text 40 commit)) (\<lambda>_.
     and_then (require_nonempty_string (get_value attack ''path'')) (\<lambda>path.
     and_then (require_data (path = attack_data_path)) (\<lambda>_.
     and_then (validate_size (get_value attack ''size'')) (\<lambda>size.
     and_then (validate_sha256 (get_value attack ''sha256'')) (\<lambda>sha256.
     and_then (require_data_object (get_value datasets ''mitre_d3fend'')) (\<lambda>d3fend.
     and_then (require_exact_fields d3fend d3fend_fields) (\<lambda>_.
     and_then (require_nonempty_string (get_value d3fend ''version'')) (\<lambda>d3fend_version.
     and_then (require_data (lower d3fend_version \<notin> set mutable_refs \<and> version_component d3fend_version)) (\<lambda>_.
     and_then (require_nonempty_string (get_value d3fend ''url'')) (\<lambda>url.
     and_then (case urlsplit url of None \<Rightarrow> Inl (DataError ValueError) | Some u \<Rightarrow> Inr u) (\<lambda>u.
     and_then (require_data (d3fend_url_ok u d3fend_version)) (\<lambda>_.
     and_then (validate_size (get_value d3fend ''size'')) (\<lambda>d3fend_size.
     and_then (validate_sha256 (get_value d3fend ''sha256'')) (\<lambda>d3fend_sha256.
     Inr \<lparr>mf_attack_repository = repository, mf_attack_version = version, mf_attack_commit = commit,
          mf_attack_path = path, mf_attack_size = size, mf_attack_sha256 = sha256,
          mf_d3fend_version = d3fend_version, mf_d3fend_url = url, mf_d3fend_size = d3fend_size,
          mf_d3fend_sha256 = d3fend_sha256\<rparr>)))))))))))))))))))))))))"

text \<open>\<open>path.read_text(encoding="utf-8")\<close> and \<open>json.loads\<close>; the translation of line ends changes
  only white space of the JSON text.\<close>

definition text_of_bytes :: "bytes \<Rightarrow> ustring option" where
  "text_of_bytes bs =
     (case decode_utf8 (map unat bs) of None \<Rightarrow> None | Some s \<Rightarrow> if list_all encodable s then Some s else None)"

definition json_of_bytes :: "bytes \<Rightarrow> pyvalue option" where
  "json_of_bytes bs = Option.bind (text_of_bytes bs) loads_text"

definition manifest_of_bytes :: "(ustring \<Rightarrow> url_parts option) \<Rightarrow> bytes \<Rightarrow> data_exn + data_manifest" where
  "manifest_of_bytes urlsplit bs =
     (case json_of_bytes bs of None \<Rightarrow> Inl ManifestError | Some v \<Rightarrow> validate_manifest urlsplit v)"

definition load_manifest :: "data_env \<Rightarrow> path \<Rightarrow> data_manifest data" where
  "load_manifest E p =
     bind (data_read E p) (\<lambda>content.
     case content of None \<Rightarrow> raise ManifestError | Some bs \<Rightarrow> lift (manifest_of_bytes (de_urlsplit E) bs))"

section \<open>Download and verification\<close>

definition attack_download_url :: "data_manifest \<Rightarrow> ustring" where
  "attack_download_url m =
     S ''https://raw.githubusercontent.com/'' @ mf_attack_repository m @ [47] @ mf_attack_commit m @ [47] @ mf_attack_path m"

definition download_attempts :: nat where "download_attempts = 3"

text \<open>Whether the call to the operating system that \<open>f\<close> stands for succeeds; its \<open>OSError\<close>.\<close>

definition data_call :: "(nat \<Rightarrow> bool) \<Rightarrow> data_exn \<Rightarrow> unit data" where
  "data_call f e = bind (data_ask f) (\<lambda>fine. if fine then ret () else raise e)"

fun download_loop :: "data_env \<Rightarrow> ustring \<Rightarrow> path \<Rightarrow> nat list \<Rightarrow> unit data" where
  "download_loop E url destination [] = raise PreparationError"
| "download_loop E url destination (number # numbers) =
     then_do (data_log (D_requested url))
     (bind (data_ask (\<lambda>n. de_fetch E n url)) (\<lambda>outcome.
      case outcome of
        Stored content \<Rightarrow> data_put destination (Some content)
      | Fetch_raised e \<Rightarrow> raise (DataError e)
      | Fetch_failed \<Rightarrow>
          then_do (when_do (number < download_attempts) (data_log (D_slept number)))
            (download_loop E url destination numbers)))"

text \<open>\<open>mkdir\<close> and \<open>unlink\<close> stand before the loop, outside its \<open>try\<close>.\<close>

definition download_dataset :: "data_env \<Rightarrow> ustring \<Rightarrow> path \<Rightarrow> unit data" where
  "download_dataset E url destination =
     then_do (data_call (de_mkdir E) (DataError OtherError))
     (then_do (data_call (de_unlink E) (DataError OtherError))
     (then_do (data_put destination None)
       (download_loop E url destination [1..<Suc download_attempts])))"

definition verify_dataset_file :: "data_env \<Rightarrow> path \<Rightarrow> int \<Rightarrow> ustring \<Rightarrow> unit data" where
  "verify_dataset_file E p expected_size expected_sha256 =
     bind (data_read E p) (\<lambda>stat.
     case stat of
       None \<Rightarrow> raise PreparationError
     | Some content \<Rightarrow>
         if int (length content) \<noteq> expected_size then raise PreparationError
         else bind (data_read E p) (\<lambda>source.
           case source of
             None \<Rightarrow> raise PreparationError
           | Some bs \<Rightarrow> if hex_bytes (sha256 bs) \<noteq> expected_sha256 then raise PreparationError else ret ()))"

definition dataset_json :: "bytes \<Rightarrow> (ustring \<times> pyvalue) list option" where
  "dataset_json bs = (case json_of_bytes bs of Some (PDict d) \<Rightarrow> Some d | _ \<Rightarrow> None)"

definition load_dataset_json :: "data_env \<Rightarrow> path \<Rightarrow> (ustring \<times> pyvalue) list data" where
  "load_dataset_json E p =
     bind (data_read E p) (\<lambda>content.
     case content of
       None \<Rightarrow> raise PreparationError
     | Some bs \<Rightarrow> (case dataset_json bs of None \<Rightarrow> raise PreparationError | Some d \<Rightarrow> ret d))"

text \<open>The objects among the items of a list, and the strings among the values of a member.\<close>

definition object_items :: "pyvalue list \<Rightarrow> (ustring \<times> pyvalue) list list" where
  "object_items items = concat (map (\<lambda>v. case v of PDict d \<Rightarrow> [d] | _ \<Rightarrow> []) items)"

definition text_values :: "pyvalue list \<Rightarrow> ustring list" where
  "text_values vs = concat (map (\<lambda>v. case v of PStr s \<Rightarrow> [s] | _ \<Rightarrow> []) vs)"

definition attack_versions :: "pyvalue list \<Rightarrow> ustring list" where
  "attack_versions objects =
     text_values (map (\<lambda>d. get_value d ''x_mitre_version'')
       (filter (\<lambda>d. get_value d ''type'' = PStr (S ''x-mitre-collection'')) (object_items objects)))"

definition attack_version_ok :: "(ustring \<times> pyvalue) list \<Rightarrow> ustring \<Rightarrow> bool" where
  "attack_version_ok document expected \<longleftrightarrow>
     (case get_value document ''objects'' of
        PList objects \<Rightarrow> set (attack_versions objects) = {expected}
      | _ \<Rightarrow> False)"

definition verify_attack_version :: "data_env \<Rightarrow> path \<Rightarrow> ustring \<Rightarrow> unit data" where
  "verify_attack_version E p expected =
     bind (load_dataset_json E p) (\<lambda>document.
     if attack_version_ok document expected then ret () else raise PreparationError)"

definition ontologies :: "pyvalue list \<Rightarrow> (ustring \<times> pyvalue) list list" where
  "ontologies graph = filter (\<lambda>d. get_value d ''@type'' = PStr (S ''owl:Ontology'')) (object_items graph)"

definition version_iris :: "pyvalue list \<Rightarrow> ustring list" where
  "version_iris graph =
     text_values (map (\<lambda>d. get_value d ''@id'') (object_items (map (\<lambda>d. get_value d ''owl:versionIRI'') (ontologies graph))))"

definition iri_suffix_ok :: "ustring \<Rightarrow> ustring \<Rightarrow> bool" where
  "iri_suffix_ok suffix iri \<longleftrightarrow> length suffix \<le> length iri \<and> drop (length iri - length suffix) iri = suffix"

definition d3fend_version_ok :: "(ustring \<times> pyvalue) list \<Rightarrow> ustring \<Rightarrow> bool" where
  "d3fend_version_ok document expected \<longleftrightarrow>
     (case get_value document ''@graph'' of
        PList graph \<Rightarrow>
          set (text_values (map (\<lambda>d. get_value d ''owl:versionInfo'') (ontologies graph))) = {expected}
          \<and> version_iris graph \<noteq> []
          \<and> list_all (iri_suffix_ok ([47] @ expected @ S ''/d3fend.owl'')) (version_iris graph)
      | _ \<Rightarrow> False)"

definition verify_d3fend_version :: "data_env \<Rightarrow> path \<Rightarrow> ustring \<Rightarrow> unit data" where
  "verify_d3fend_version E p expected =
     bind (load_dataset_json E p) (\<lambda>document.
     if d3fend_version_ok document expected then ret () else raise PreparationError)"

section \<open>Seeding and the whole run\<close>

text \<open>One of the two halves of \<open>seed_pysigma_cache\<close>: the loader reads the file that it is pointed to
  and reports the version that it found.\<close>

definition seed_one :: "data_env \<Rightarrow> dataset \<Rightarrow> path \<Rightarrow> ustring \<Rightarrow> unit data" where
  "seed_one E ds p expected =
     bind (asks (\<lambda>w. dw_files w p)) (\<lambda>content.
     then_do (data_log (D_seeded ds content))
     (bind (data_ask (\<lambda>n. de_load E ds n content)) (\<lambda>loaded.
      if loaded = Some expected then ret () else raise PreparationError)))"

definition seed_pysigma_cache :: "data_env \<Rightarrow> path \<Rightarrow> path \<Rightarrow> ustring \<Rightarrow> ustring \<Rightarrow> unit data" where
  "seed_pysigma_cache E attack_path d3fend_path attack_version d3fend_version =
     (if \<not> de_import E then raise PreparationError
      else then_do (seed_one E Attack attack_path attack_version)
             (seed_one E D3fend d3fend_path d3fend_version))"

definition path_parents :: "path \<Rightarrow> path list" where
  "path_parents p = map (\<lambda>n. take n p) [0..<length p]"

definition outside_repository :: "data_env \<Rightarrow> path \<Rightarrow> data_exn + path" where
  "outside_repository E p =
     (case de_resolve E p of
        None \<Rightarrow> Inl (DataError OtherError)
      | Some resolved \<Rightarrow>
          if resolved = de_repository E \<or> de_repository E \<in> set (path_parents resolved) then Inl PreparationError
          else Inr resolved)"

text \<open>The text of an absolute path, and the root of the caches.\<close>

definition path_text :: "path \<Rightarrow> ustring" where "path_text p = concat (map ((#) 47) p)"

definition cache_root :: "path \<Rightarrow> path" where "cache_root cache_home = cache_home @ map S [''.cache'', ''pysigma'']"

definition prepared_lines :: "data_manifest \<Rightarrow> path \<Rightarrow> ustring list" where
  "prepared_lines m root =
     [S ''Sigma validation data prepared'', S ''ATT&CK version: '' @ mf_attack_version m,
      S ''ATT&CK repository: '' @ mf_attack_repository m, S ''ATT&CK commit: '' @ mf_attack_commit m,
      S ''ATT&CK SHA-256: '' @ mf_attack_sha256 m, S ''D3FEND version: '' @ mf_d3fend_version m,
      S ''D3FEND URL: '' @ mf_d3fend_url m, S ''D3FEND SHA-256: '' @ mf_d3fend_sha256 m,
      S ''pySigma cache root: '' @ path_text root]"

definition prepare_verified :: "data_env \<Rightarrow> data_manifest \<Rightarrow> path \<Rightarrow> path \<Rightarrow> unit data" where
  "prepare_verified E m download_directory cache_home =
     (let attack_path = download_directory @ [attack_filename];
          d3fend_path = download_directory @ [d3fend_filename] in
      then_do (download_dataset E (attack_download_url m) attack_path)
     (then_do (verify_dataset_file E attack_path (mf_attack_size m) (mf_attack_sha256 m))
     (then_do (verify_attack_version E attack_path (mf_attack_version m))
     (then_do (download_dataset E (mf_d3fend_url m) d3fend_path)
     (then_do (verify_dataset_file E d3fend_path (mf_d3fend_size m) (mf_d3fend_sha256 m))
     (then_do (verify_d3fend_version E d3fend_path (mf_d3fend_version m))
     (then_do (seed_pysigma_cache E attack_path d3fend_path (mf_attack_version m) (mf_d3fend_version m))
       (data_log (D_printed (prepared_lines m (cache_root cache_home)))))))))))"

definition prepare :: "data_env \<Rightarrow> path \<Rightarrow> path \<Rightarrow> path \<Rightarrow> unit data" where
  "prepare E metadata download_directory cache_home =
     bind (load_manifest E metadata) (\<lambda>m.
     bind (lift (outside_repository E download_directory)) (\<lambda>downloads.
     bind (lift (outside_repository E cache_home)) (\<lambda>cache.
     then_do (data_call (de_mkdir E) PreparationError)
     (then_do (data_call (de_mkdir E) PreparationError)
       (prepare_verified E m downloads cache)))))"

text \<open>\<open>main\<close> after \<open>argparse\<close>: the exit status.\<close>

definition data_main :: "data_env \<Rightarrow> path \<Rightarrow> path \<Rightarrow> path \<Rightarrow> int data" where
  "data_main E metadata download_directory cache_home =
     try_except (prepare E metadata download_directory cache_home)
       (\<lambda>e. if e = ManifestError \<or> e = PreparationError then ret 1 else raise e)
       (\<lambda>_. ret 0)"

end
