(* ===== verification/SigmaDataProps.thy ===== *)
theory SigmaDataProps
  imports SigmaData Utf8 "HOL-Library.Sublist"
begin

text \<open>
  The script that prepares the validation data never seeds a cache with anything but the bytes that
  the manifest pins, asks only for the two pinned URLs, and writes only its two files, outside the
  repository.
\<close>

section \<open>What a run does to the world\<close>

definition is_request :: "data_event \<Rightarrow> bool" where
  "is_request e \<longleftrightarrow> (case e of D_requested u \<Rightarrow> True | _ \<Rightarrow> False)"

text \<open>From one world to the next: only the given files change, the new events satisfy a predicate, and
  at most \<open>n\<close> of them are requests.\<close>

definition ran :: "path set \<Rightarrow> (data_event \<Rightarrow> bool) \<Rightarrow> nat \<Rightarrow> data_world \<Rightarrow> data_world \<Rightarrow> bool" where
  "ran D P n w w' \<longleftrightarrow> (\<forall>p. p \<notin> D \<longrightarrow> dw_files w' p = dw_files w p)
     \<and> (\<exists>es. dw_events w' = es @ dw_events w \<and> list_all P es \<and> length (filter is_request es) \<le> n)"

lemma ran_refl: "ran D P n w w"
  by (simp add: ran_def)

lemma ran_trans: "ran D P n w w1 \<Longrightarrow> ran D P k w1 w2 \<Longrightarrow> ran D P (n + k) w w2"
proof -
  assume a: "ran D P n w w1" "ran D P k w1 w2"
  from a(1) obtain es where 1: "\<And>p. p \<notin> D \<Longrightarrow> dw_files w1 p = dw_files w p" "dw_events w1 = es @ dw_events w"
    "list_all P es" "length (filter is_request es) \<le> n" unfolding ran_def by blast
  from a(2) obtain fs where 2: "\<And>p. p \<notin> D \<Longrightarrow> dw_files w2 p = dw_files w1 p" "dw_events w2 = fs @ dw_events w1"
    "list_all P fs" "length (filter is_request fs) \<le> k" unfolding ran_def by blast
  from 1(2) 2(2) have "dw_events w2 = (fs @ es) @ dw_events w" by simp
  moreover have "list_all P (fs @ es)" "length (filter is_request (fs @ es)) \<le> n + k" using 1(3,4) 2(3,4) by simp_all
  ultimately show ?thesis unfolding ran_def using 1(1) 2(1) by metis
qed

lemma ran_mono: "ran D P n w w' \<Longrightarrow> n \<le> k \<Longrightarrow> D \<subseteq> D' \<Longrightarrow> (\<And>e. P e \<Longrightarrow> P' e) \<Longrightarrow> ran D' P' k w w'"
  unfolding ran_def by (elim conjE exE, intro conjI, blast, rule_tac x = es in exI) (auto simp: list_all_iff)

text \<open>Nothing changes but the number of steps.\<close>

definition same_data :: "data_world \<Rightarrow> data_world \<Rightarrow> bool" where
  "same_data w w' \<longleftrightarrow> dw_files w' = dw_files w \<and> dw_events w' = dw_events w"

lemma ran_same: "same_data w1 w2 \<Longrightarrow> ran D P n w w1 \<Longrightarrow> ran D P n w w2"
  by (simp add: ran_def same_data_def)

lemma data_read_run:
  "data_read E p w = (r, w') \<Longrightarrow> same_data w w' \<and> (r = Inr None \<or> r = Inr (dw_files w p))"
  by (auto simp: data_read_def data_ask_def prog_simps same_data_def)

lemma data_call_run: "data_call f e w = (r, w') \<Longrightarrow> same_data w w' \<and> (r = Inr () \<or> r = Inl e)"
  by (auto simp: data_call_def data_ask_def prog_simps same_data_def split: if_splits)

lemma bind_cases:
  assumes "bind m f w = (r, w')"
  obtains (error) e where "m w = (Inl e, w')" "r = Inl e"
    | (next_step) x w1 where "m w = (Inr x, w1)" "f x w1 = (r, w')"
  using assms by (cases "m w"; cases "fst (m w)") (auto simp: bind_def)

section \<open>The single operations\<close>

text \<open>An event of the download of one URL.\<close>

definition download_event :: "ustring \<Rightarrow> data_event \<Rightarrow> bool" where
  "download_event url e \<longleftrightarrow> e = D_requested url \<or> (\<exists>n. e = D_slept n)"

lemma download_loop_ran: "download_loop E url p ns w = (r, w') \<Longrightarrow> ran {p} (download_event url) (length ns) w w'"
proof (induction ns arbitrary: w)
  case (Cons n ns)
  define w1 where "w1 = w\<lparr>dw_events := D_requested url # dw_events w, dw_step := Suc (dw_step w)\<rparr>"
  have w1: "ran {p} (download_event url) 1 w w1"
    by (auto simp: ran_def w1_def is_request_def download_event_def)
  have eq: "download_loop E url p (n # ns) w = (case de_fetch E (dw_step w) url of
        Stored content \<Rightarrow> data_put p (Some content)
      | Fetch_raised e \<Rightarrow> raise (DataError e)
      | Fetch_failed \<Rightarrow> then_do (when_do (n < download_attempts) (data_log (D_slept n))) (download_loop E url p ns)) w1"
    by (cases "de_fetch E (dw_step w) url")
      (simp_all add: then_do_def bind_def modify_def data_ask_def data_log_def w1_def)
  note prems = Cons.prems [unfolded eq]
  show ?case
  proof (cases "de_fetch E (dw_step w) url")
    case (Stored content)
    then have "w' = w1\<lparr>dw_files := (dw_files w1)(p := Some content)\<rparr>"
      using prems by (simp add: data_put_def prog_simps)
    then have "ran {p} (download_event url) 0 w1 w'" by (simp add: ran_def)
    from ran_trans [OF w1 this] show ?thesis by (rule ran_mono) simp_all
  next
    case (Fetch_raised e)
    then have "w' = w1" using prems by (simp add: prog_simps)
    with w1 show ?thesis by (auto intro: ran_mono)
  next
    case Fetch_failed
    define w2 where "w2 = (if n < download_attempts then w1\<lparr>dw_events := D_slept n # dw_events w1\<rparr> else w1)"
    have "ran {p} (download_event url) 0 w1 w2"
      by (auto simp: w2_def ran_def is_request_def download_event_def)
    note w2 = ran_trans [OF w1 this]
    have "download_loop E url p ns w2 = (r, w')"
      using prems Fetch_failed by (simp add: w2_def then_do_def bind_def ret_def modify_def when_do_def data_log_def split: if_splits)
    from ran_trans [OF w2 Cons.IH [OF this]] show ?thesis by (rule ran_mono) simp_all
  qed
qed (simp add: prog_simps ran_refl)

lemma download_dataset_ran:
  assumes "download_dataset E url p w = (r, w')"
  shows "ran {p} (download_event url) 3 w w'"
  using assms unfolding download_dataset_def then_do_def
proof (cases rule: bind_cases)
  case (error e)
  with data_call_run show ?thesis by (fastforce intro: ran_same ran_refl)
next
  case (next_step x w1)
  note w1 = ran_same [OF data_call_run [OF next_step(1), THEN conjunct1] ran_refl [of "{p}" "download_event url" 0]]
  from next_step(2) show ?thesis
  proof (cases rule: bind_cases)
    case (error e)
    with data_call_run w1 show ?thesis by (meson ran_same ran_mono order_refl zero_le)
  next
    case (next_step y w2)
    note w2 = ran_same [OF data_call_run [OF next_step(1), THEN conjunct1] w1]
    let ?w3 = "w2\<lparr>dw_files := (dw_files w2)(p := None)\<rparr>"
    have "ran {p} (download_event url) 0 w2 ?w3" by (simp add: ran_def)
    note w3 = ran_trans [OF w2 this]
    from next_step(2) have "download_loop E url p [1..<Suc download_attempts] ?w3 = (r, w')"
      by (simp add: data_put_def bind_def modify_def)
    from ran_trans [OF w3 download_loop_ran [OF this]] show ?thesis
      by (rule ran_mono) (simp_all add: download_attempts_def)
  qed
qed

lemma verify_dataset_file_run:
  assumes "verify_dataset_file E p sz sha w = (r, w')"
  shows "same_data w w' \<and> (r = Inr () \<longrightarrow> (\<exists>bs. dw_files w p = Some bs \<and> int (length bs) = sz \<and> hex_bytes (sha256 bs) = sha))"
proof -
  obtain r1 w1 where r1: "data_read E p w = (r1, w1)" by fastforce
  obtain r2 w2 where r2: "data_read E p w1 = (r2, w2)" by fastforce
  from data_read_run [OF r1] data_read_run [OF r2] assms r1 r2 show ?thesis
    by (auto simp: verify_dataset_file_def prog_simps same_data_def split: option.splits if_splits)
qed

lemma load_dataset_json_run:
  assumes "load_dataset_json E p w = (r, w')"
  shows "same_data w w' \<and> (case r of Inl e \<Rightarrow> e = PreparationError | Inr d \<Rightarrow> \<exists>bs. dw_files w p = Some bs \<and> dataset_json bs = Some d)"
proof -
  obtain r1 w1 where r1: "data_read E p w = (r1, w1)" by fastforce
  from data_read_run [OF r1] assms r1 show ?thesis
    by (auto simp: load_dataset_json_def prog_simps same_data_def split: option.splits)
qed

lemma verify_attack_version_run:
  assumes "verify_attack_version E p v w = (r, w')"
  shows "same_data w w' \<and> (r = Inr () \<longrightarrow> (\<exists>bs d. dw_files w p = Some bs \<and> dataset_json bs = Some d \<and> attack_version_ok d v))"
  using assms unfolding verify_attack_version_def
  by (cases rule: bind_cases) (auto dest!: load_dataset_json_run simp: prog_simps split: if_splits)

lemma verify_d3fend_version_run:
  assumes "verify_d3fend_version E p v w = (r, w')"
  shows "same_data w w' \<and> (r = Inr () \<longrightarrow> (\<exists>bs d. dw_files w p = Some bs \<and> dataset_json bs = Some d \<and> d3fend_version_ok d v))"
  using assms unfolding verify_d3fend_version_def
  by (cases rule: bind_cases) (auto dest!: load_dataset_json_run simp: prog_simps split: if_splits)

lemma seed_one_run:
  "seed_one E ds p v w = (r, w') \<Longrightarrow>
   dw_files w' = dw_files w \<and> dw_events w' = D_seeded ds (dw_files w p) # dw_events w"
  by (auto simp: seed_one_def data_log_def data_ask_def prog_simps split: if_splits)


section \<open>The whole run\<close>

text \<open>What a valid manifest pins, and the content of a file that it pins.\<close>

definition pinned_manifest :: "(ustring \<Rightarrow> url_parts option) \<Rightarrow> data_manifest \<Rightarrow> bool" where
  "pinned_manifest urlsplit m \<longleftrightarrow>
     mf_attack_repository m = attack_repository \<and> mf_attack_path m = attack_data_path
     \<and> hex_text 40 (mf_attack_commit m) \<and> 0 < mf_attack_size m \<and> hex_text 64 (mf_attack_sha256 m)
     \<and> version_component (mf_d3fend_version m) \<and> lower (mf_d3fend_version m) \<notin> set mutable_refs
     \<and> (\<exists>u. urlsplit (mf_d3fend_url m) = Some u \<and> d3fend_url_ok u (mf_d3fend_version m))
     \<and> 0 < mf_d3fend_size m \<and> hex_text 64 (mf_d3fend_sha256 m)"

lemma require_data_Inr [simp]: "require_data b = Inr x \<longleftrightarrow> b"
  by (simp add: require_data_def)

lemma validate_size_Inr: "validate_size v = Inr n \<longleftrightarrow> v = PInt n \<and> 0 < n"
  by (cases v) (auto simp: validate_size_def)

lemma validate_sha256_Inr: "validate_sha256 v = Inr s \<longleftrightarrow> v = PStr s \<and> hex_text 64 s"
  by (cases v) (auto simp: validate_sha256_def)

lemma validate_manifest_pinned: "validate_manifest urlsplit v = Inr m \<Longrightarrow> pinned_manifest urlsplit m"
  unfolding validate_manifest_def
  by (clarsimp simp: and_then_Inr validate_size_Inr validate_sha256_Inr pinned_manifest_def split: option.splits)

definition pinned_content :: "data_manifest \<Rightarrow> dataset \<Rightarrow> bytes \<Rightarrow> bool" where
  "pinned_content m ds bs \<longleftrightarrow>
     (case ds of
        Attack \<Rightarrow> int (length bs) = mf_attack_size m \<and> hex_bytes (sha256 bs) = mf_attack_sha256 m
          \<and> (\<exists>d. dataset_json bs = Some d \<and> attack_version_ok d (mf_attack_version m))
      | D3fend \<Rightarrow> int (length bs) = mf_d3fend_size m \<and> hex_bytes (sha256 bs) = mf_d3fend_sha256 m
          \<and> (\<exists>d. dataset_json bs = Some d \<and> d3fend_version_ok d (mf_d3fend_version m)))"

definition event_pinned :: "data_manifest \<Rightarrow> data_event \<Rightarrow> bool" where
  "event_pinned m e \<longleftrightarrow>
     (case e of
        D_requested url \<Rightarrow> url \<in> {attack_download_url m, mf_d3fend_url m}
      | D_seeded ds content \<Rightarrow> (\<exists>bs. content = Some bs \<and> pinned_content m ds bs)
      | _ \<Rightarrow> True)"

lemma download_event_pinned:
  "download_event (attack_download_url m) e \<Longrightarrow> event_pinned m e" "download_event (mf_d3fend_url m) e \<Longrightarrow> event_pinned m e"
  by (auto simp: download_event_def event_pinned_def)

text \<open>Both caches have been seeded.\<close>

definition both_seeded :: "data_world \<Rightarrow> bool" where
  "both_seeded w \<longleftrightarrow> (\<exists>a d. {D_seeded Attack a, D_seeded D3fend d} \<subseteq> set (dw_events w))"

abbreviation data_paths :: "path \<Rightarrow> path set" where
  "data_paths dir \<equiv> {dir @ [attack_filename], dir @ [d3fend_filename]}"

definition holds_pinned :: "data_manifest \<Rightarrow> dataset \<Rightarrow> path \<Rightarrow> data_world \<Rightarrow> bool" where
  "holds_pinned m ds p w \<longleftrightarrow> (\<exists>bs. dw_files w p = Some bs \<and> pinned_content m ds bs)"

lemma filenames_differ: "attack_filename \<noteq> d3fend_filename"
  by (simp add: attack_filename_def d3fend_filename_def)

text \<open>The rule of a step of the chain: an error ends the run, and what it did so far is in bounds.\<close>

lemma yields_then: "yields P m (\<lambda>_. R) E \<Longrightarrow> yields R k Q E \<Longrightarrow> yields P (then_do m k) Q E"
  unfolding then_do_def by (rule yields_bind)

text \<open>The run so far: in bounds, with at most \<open>n\<close> requests.\<close>

definition within :: "data_manifest \<Rightarrow> path \<Rightarrow> data_world \<Rightarrow> nat \<Rightarrow> data_world \<Rightarrow> bool" where
  "within m dir w0 n w \<longleftrightarrow> ran (data_paths dir) (event_pinned m) n w0 w"

definition holds_sized :: "path \<Rightarrow> int \<Rightarrow> ustring \<Rightarrow> data_world \<Rightarrow> bool" where
  "holds_sized p n sha w \<longleftrightarrow> (\<exists>bs. dw_files w p = Some bs \<and> int (length bs) = n \<and> hex_bytes (sha256 bs) = sha)"

lemma within_refl: "within m dir w 0 w"
  by (simp add: within_def ran_refl)

lemma within_mono: "within m dir w0 n w \<Longrightarrow> n \<le> k \<Longrightarrow> within m dir w0 k w"
  unfolding within_def by (erule ran_mono) auto

lemma within_same: "within m dir w0 n w \<Longrightarrow> same_data w w' \<Longrightarrow> within m dir w0 n w'"
  unfolding within_def by (rule ran_same)

lemma holds_same: "holds_pinned m ds p w \<Longrightarrow> same_data w w' \<Longrightarrow> holds_pinned m ds p w'"
  by (simp add: holds_pinned_def same_data_def)

lemma holds_files: "dw_files w' = dw_files w \<Longrightarrow> holds_pinned m ds p w' \<longleftrightarrow> holds_pinned m ds p w"
  by (simp add: holds_pinned_def)

lemma within_download_attack:
  assumes "within m dir w0 n w" "download_dataset E (attack_download_url m) (dir @ [attack_filename]) w = (r, w')"
  shows "within m dir w0 (n + 3) w'"
proof -
  have "ran (data_paths dir) (event_pinned m) 3 w w'"
    using download_dataset_ran [OF assms(2)] by (rule ran_mono) (auto simp: download_event_pinned)
  with assms(1) show ?thesis unfolding within_def by (rule ran_trans)
qed

lemma within_download_d3fend:
  assumes "within m dir w0 n w" "download_dataset E (mf_d3fend_url m) (dir @ [d3fend_filename]) w = (r, w')"
  shows "within m dir w0 (n + 3) w' \<and> dw_files w' (dir @ [attack_filename]) = dw_files w (dir @ [attack_filename])"
proof -
  note d = download_dataset_ran [OF assms(2)]
  have "ran (data_paths dir) (event_pinned m) 3 w w'"
    using d by (rule ran_mono) (auto simp: download_event_pinned)
  with assms(1) have "within m dir w0 (n + 3) w'" unfolding within_def by (rule ran_trans)
  with d filenames_differ show ?thesis by (simp add: ran_def)
qed

lemma within_event:
  assumes "within m dir w0 n w" "event_pinned m e" "\<not> is_request e"
    and "dw_files w' = dw_files w" "dw_events w' = e # dw_events w"
  shows "within m dir w0 n w'"
proof -
  have "ran (data_paths dir) (event_pinned m) 0 w w'" using assms(2-5) by (simp add: ran_def)
  from ran_trans [OF assms(1) [unfolded within_def] this] show ?thesis by (simp add: within_def)
qed

lemma within_seed:
  "within m dir w0 n w \<Longrightarrow> holds_pinned m ds p w \<Longrightarrow> seed_one E ds p v w = (r, w') \<Longrightarrow> within m dir w0 n w'"
  by (frule seed_one_run, erule within_event [where e = "D_seeded ds (dw_files w p)"])
    (auto simp: holds_pinned_def event_pinned_def is_request_def)

lemma verify_yields:
  assumes "\<And>w w'. P w \<Longrightarrow> same_data w w' \<Longrightarrow> P w'" "\<And>w. P w \<Longrightarrow> E' w"
  shows "yields P (verify_dataset_file E p n sha) (\<lambda>_ w. P w \<and> holds_sized p n sha w) (\<lambda>_. E')"
  using assms by (intro yieldsI) (auto dest!: verify_dataset_file_run simp: holds_sized_def same_data_def)

lemma verify_attack_yields:
  assumes "\<And>w w'. P w \<Longrightarrow> same_data w w' \<Longrightarrow> P w'" "\<And>w. P w \<Longrightarrow> E' w"
  shows "yields (\<lambda>w. P w \<and> holds_sized p (mf_attack_size m) (mf_attack_sha256 m) w) (verify_attack_version E p (mf_attack_version m))
      (\<lambda>_ w. P w \<and> holds_pinned m Attack p w) (\<lambda>_. E')"
  using assms
  by (intro yieldsI)
    (auto dest!: verify_attack_version_run simp: holds_sized_def same_data_def holds_pinned_def pinned_content_def)

lemma verify_d3fend_yields:
  assumes "\<And>w w'. P w \<Longrightarrow> same_data w w' \<Longrightarrow> P w'" "\<And>w. P w \<Longrightarrow> E' w"
  shows "yields (\<lambda>w. P w \<and> holds_sized p (mf_d3fend_size m) (mf_d3fend_sha256 m) w) (verify_d3fend_version E p (mf_d3fend_version m))
      (\<lambda>_ w. P w \<and> holds_pinned m D3fend p w) (\<lambda>_. E')"
  using assms
  by (intro yieldsI)
    (auto dest!: verify_d3fend_version_run simp: holds_sized_def same_data_def holds_pinned_def pinned_content_def)

lemma seed_one_within:
  assumes "seed_one E ds p v w = (r, w')" "within m dir w0 n w" "holds_pinned m ds p w"
  shows "within m dir w0 n w' \<and> (\<forall>ds q. holds_pinned m ds q w' = holds_pinned m ds q w)
    \<and> set (dw_events w') = insert (D_seeded ds (dw_files w p)) (set (dw_events w))"
  using seed_one_run [OF assms(1)] within_seed [OF assms(2,3,1)] by (simp add: holds_pinned_def)

lemma seed_yields:
  "yields (\<lambda>w. (within m dir w0 n w \<and> holds_pinned m Attack a w) \<and> holds_pinned m D3fend d w) (seed_pysigma_cache E a d av dv)
    (\<lambda>_ w. within m dir w0 n w \<and> both_seeded w) (\<lambda>_. within m dir w0 n)"
proof (cases "de_import E")
  case True
  define R where "R = (\<lambda>w. within m dir w0 n w \<and> holds_pinned m D3fend d w \<and> (\<exists>x. D_seeded Attack x \<in> set (dw_events w)))"
  have "yields (\<lambda>w. (within m dir w0 n w \<and> holds_pinned m Attack a w) \<and> holds_pinned m D3fend d w) (seed_one E Attack a av)
      (\<lambda>_. R) (\<lambda>_. within m dir w0 n)"
    unfolding R_def by (intro yieldsI; drule seed_one_within) blast+
  moreover have "yields R (seed_one E D3fend d dv) (\<lambda>_ w. within m dir w0 n w \<and> both_seeded w) (\<lambda>_. within m dir w0 n)"
    unfolding R_def both_seeded_def by (intro yieldsI; drule seed_one_within) blast+
  ultimately show ?thesis using True by (simp add: seed_pysigma_cache_def yields_then)
qed (simp add: seed_pysigma_cache_def yields_def raise_def)

lemma prepare_verified_run:
  "yields (\<lambda>w. w = w0) (prepare_verified E m dir cache)
    (\<lambda>_ w. within m dir w0 6 w \<and> both_seeded w) (\<lambda>_. within m dir w0 6)"
proof -
  let ?J = "within m dir w0"
  let ?a = "dir @ [attack_filename]" and ?d = "dir @ [d3fend_filename]"
  have mono: "?J 3 w \<Longrightarrow> ?J 6 w" for w by (erule within_mono) simp
  have same: "?J n w \<Longrightarrow> same_data w w' \<Longrightarrow> ?J n w'" for n w w' by (rule within_same)
  have 1: "yields (\<lambda>w. w = w0) (download_dataset E (attack_download_url m) ?a) (\<lambda>_. ?J 3) (\<lambda>_. ?J 6)"
    using within_download_attack [OF within_refl] mono by (intro yieldsI) fastforce+
  have 4: "yields (\<lambda>w. ?J 3 w \<and> holds_pinned m Attack ?a w) (download_dataset E (mf_d3fend_url m) ?d)
      (\<lambda>_ w. ?J 6 w \<and> holds_pinned m Attack ?a w) (\<lambda>_. ?J 6)"
    using within_download_d3fend [where n = 3] by (intro yieldsI) (fastforce simp: holds_pinned_def)+
  have 8: "yields (\<lambda>w. ?J 6 w \<and> both_seeded w) (data_log (D_printed ls)) (\<lambda>_ w. ?J 6 w \<and> both_seeded w) (\<lambda>_. ?J 6)" for ls
    by (intro yieldsI)
      (auto simp: data_log_def modify_def both_seeded_def event_pinned_def is_request_def
        intro: within_event [where e = "D_printed ls"])
  show ?thesis
    unfolding prepare_verified_def Let_def
    by (intro yields_then [OF 1] yields_then [OF verify_yields] yields_then [OF verify_attack_yields] yields_then [OF 4]
        yields_then [OF verify_d3fend_yields] yields_then [OF seed_yields] 8)
      (use same mono holds_same in blast)+
qed

lemma path_parents_prefix: "q = p \<or> q \<in> set (path_parents p) \<longleftrightarrow> prefix q p"
proof
  assume "q = p \<or> q \<in> set (path_parents p)"
  then show "prefix q p" by (auto simp: path_parents_def intro: take_is_prefix)
next
  assume "prefix q p"
  then have q: "q = take (length q) p" "length q \<le> length p" by (auto simp: prefix_def)
  then show "q = p \<or> q \<in> set (path_parents p)"
    by (cases "length q = length p") (auto simp: path_parents_def intro!: image_eqI [of _ _ "length q"])
qed

lemma outside_repository_Inr:
  "outside_repository E p = Inr dir \<longleftrightarrow> de_resolve E p = Some dir \<and> \<not> prefix (de_repository E) dir"
  using path_parents_prefix [of "de_repository E" dir]
  by (auto simp: outside_repository_def split: option.splits if_splits)

definition untouched :: "(path \<Rightarrow> bytes option) \<Rightarrow> data_world \<Rightarrow> bool" where
  "untouched files w \<longleftrightarrow> dw_files w = files \<and> dw_events w = []"

lemma untouched_same: "untouched files w \<Longrightarrow> same_data w w' \<Longrightarrow> untouched files w'"
  by (simp add: untouched_def same_data_def)

lemma untouched_within: "untouched files w0 \<Longrightarrow> within m dir w0 n w \<Longrightarrow> within m dir (data_start files) n w"
  by (simp add: untouched_def within_def ran_def data_start_def)

text \<open>What a run establishes once the manifest is read.\<close>

definition bounded_by_manifest :: "data_env \<Rightarrow> (path \<Rightarrow> bytes option) \<Rightarrow> path \<Rightarrow> path \<Rightarrow> data_world \<Rightarrow> bool" where
  "bounded_by_manifest E files metadata downloads w \<longleftrightarrow>
     (\<exists>bs m dir. files metadata = Some bs \<and> manifest_of_bytes (de_urlsplit E) bs = Inr m \<and> pinned_manifest (de_urlsplit E) m
        \<and> de_resolve E downloads = Some dir \<and> \<not> prefix (de_repository E) dir \<and> within m dir (data_start files) 6 w)"

lemma load_manifest_run:
  assumes "load_manifest E p w = (r, w')"
  shows "same_data w w' \<and> (case r of Inl e \<Rightarrow> True | Inr m \<Rightarrow> \<exists>bs. dw_files w p = Some bs \<and> manifest_of_bytes (de_urlsplit E) bs = Inr m)"
  using assms unfolding load_manifest_def
proof (cases rule: bind_cases)
  case (next_step content w1)
  with data_read_run [OF next_step(1)] show ?thesis
    by (cases content; cases "dw_files w p") (auto simp: prog_simps split: sum.splits)
qed (auto dest: data_read_run)

lemma manifest_pinned: "manifest_of_bytes urlsplit bs = Inr m \<Longrightarrow> pinned_manifest urlsplit m"
  by (auto simp: manifest_of_bytes_def intro: validate_manifest_pinned split: option.splits)

lemma prepare_run:
  "yields (untouched files) (prepare E md dl cache)
     (\<lambda>_ w. bounded_by_manifest E files md dl w \<and> both_seeded w)
     (\<lambda>_ w. untouched files w \<or> bounded_by_manifest E files md dl w)"
proof -
  let ?E = "\<lambda>(_ :: data_exn) w. untouched files w \<or> bounded_by_manifest E files md dl w"
  let ?M = "\<lambda>m w. untouched files w \<and> (\<exists>bs. files md = Some bs \<and> manifest_of_bytes (de_urlsplit E) bs = Inr m)"
  let ?D = "\<lambda>m dir w. ?M m w \<and> de_resolve E dl = Some dir \<and> \<not> prefix (de_repository E) dir"
  have load: "yields (untouched files) (load_manifest E md) ?M ?E"
    by (intro yieldsI; drule load_manifest_run) (auto intro: untouched_same simp: untouched_def same_data_def)
  have dirs: "yields (?M m) (lift (outside_repository E dl)) (?D m) ?E" for m
    by (intro yieldsI) (auto simp: lift_def outside_repository_Inr)
  have other: "yields (?D m dir) (lift (outside_repository E cache)) (\<lambda>_. ?D m dir) ?E" for m dir
    by (intro yieldsI) (auto simp: lift_def)
  have mkdir: "yields (?D m dir) (data_call f e) (\<lambda>_. ?D m dir) ?E" for m dir f e
    by (intro yieldsI; drule data_call_run) (auto intro: untouched_same)
  have rest: "yields (?D m dir) (prepare_verified E m dir c)
      (\<lambda>_ w. bounded_by_manifest E files md dl w \<and> both_seeded w) ?E" for m dir c
  proof (rule yieldsI)
    fix w x w' assume w: "?D m dir w" "prepare_verified E m dir c w = (Inr x, w')"
    from yieldsD_Inr [OF prepare_verified_run refl w(2)] untouched_within w(1) manifest_pinned
    show "bounded_by_manifest E files md dl w' \<and> both_seeded w'" unfolding bounded_by_manifest_def by blast
  next
    fix w e w' assume w: "?D m dir w" "prepare_verified E m dir c w = (Inl e, w')"
    from yieldsD_Inl [OF prepare_verified_run refl w(2)] untouched_within w(1) manifest_pinned
    show "?E e w'" unfolding bounded_by_manifest_def by blast
  qed
  show ?thesis
    unfolding prepare_def
    by (intro yields_bind [OF load] yields_bind [OF dirs] yields_bind [OF other] yields_then [OF mkdir] rest)
qed

text \<open>C26: Whatever the network, the file system and the loaders do, the script asks only for the two URLs
  that the manifest pins, at most six times in all, writes nothing but its two files below a download
  directory outside the repository, and hands a file to a pySigma loader only while its bytes have the
  size and the SHA-256 digest of the manifest and carry its version. It ends with status 0 only when both
  caches have been seeded; the other outcomes are status 1 and an exception other than its own two.\<close>

theorem validation_data_pinned:
  "case data_main E metadata downloads cache (data_start files) of (r, w) \<Rightarrow>
     (if r = Inr 0 then bounded_by_manifest E files metadata downloads w \<and> both_seeded w
      else untouched files w \<or> bounded_by_manifest E files metadata downloads w)
     \<and> (case r of Inr n \<Rightarrow> n \<in> {0, 1} | Inl e \<Rightarrow> (\<exists>x. e = DataError x))"
proof -
  obtain r w where p: "prepare E metadata downloads cache (data_start files) = (r, w)" by fastforce
  have s: "untouched files (data_start files)" by (simp add: untouched_def data_start_def)
  show ?thesis
  proof (cases r)
    case (Inl e)
    with yieldsD_Inl [OF prepare_run s] p have "untouched files w \<or> bounded_by_manifest E files metadata downloads w" by blast
    with Inl p show ?thesis by (cases e) (auto simp: data_main_def prog_simps)
  next
    case (Inr u)
    with yieldsD_Inr [OF prepare_run s] p have "bounded_by_manifest E files metadata downloads w \<and> both_seeded w" by blast
    with Inr p show ?thesis by (auto simp: data_main_def prog_simps)
  qed
qed

end
