(* ===== verification/Spec2Isabelle.thy ===== *)
theory Spec2Isabelle
  imports ComponentProps ProcessorDeadline SplunkProps PgMigration Deployment SigmaDataProps
begin

text \<open>
  Alert2IR takes security alerts over HTTP, decides whether to investigate them, stores them
  durably under the caller's idempotency key and executes an investigation on a backend at most
  once, across crashes, concurrent workers and lost connections. This development models that
  core and proves what a caller and an operator rely on.

  \<^bold>\<open>Parts and theories.\<close> The order is that of the calls, from the values up.

    \<^item> \<open>Prelude\<close>: programs as functions from a world to an error or a result and the new
      world (\<open>bind\<close>, \<open>try_except\<close>, \<open>finally_do\<close>), the invariants \<open>keeps\<close> and \<open>yields\<close> with a
      rule per construct, dictionaries as association lists.
    \<^item> \<open>Pystr\<close>, \<open>Utf8\<close>, \<open>Json\<close>, \<open>Pytime\<close>, \<open>Sha256\<close>: what the source uses of Python and its
      standard library - strings as lists of code points, UTF-8, \<open>json.dumps\<close>, \<open>datetime\<close>,
      \<open>hashlib\<close> - with the unique readability and injectivity that idempotency rests on.
    \<^item> \<open>Vocabulary\<close>: the enumerations and the exceptions with their class hierarchy.
    \<^item> \<open>Domain\<close>: \<open>core/models.py\<close> and \<open>core/workflow.py\<close>; a record per class, \<open>mk_\<close>
      constructors with the checks of \<open>__post_init__\<close>, Python's \<open>==\<close> as \<open>alert_eq\<close>.
    \<^item> \<open>Samples\<close>, \<open>SampleEnv\<close>: concrete alerts, stores and environments for the witnesses.
    \<^item> \<open>Fingerprint\<close>: \<open>application/fingerprinting.py\<close>.
    \<^item> \<open>Backends\<close>: \<open>backends/base.py\<close>, \<open>router.py\<close>, \<open>mock.py\<close>; the contract of a backend is
      the locale \<open>reliable_backend\<close> - of a backend, the requests it is able to serve and the
      operations it knows - interpreted for the mock and shown for Velociraptor.
    \<^item> \<open>Orchestrator\<close>: \<open>application/orchestrator.py\<close> and the default composition of \<open>main.py\<close>.
    \<^item> \<open>Lifecycle\<close>: \<open>application/persistence.py\<close>: states, the transition table, durable records,
      the repository interface as a record of operations; its laws are the locale
      \<open>processing_repository\<close>.
    \<^item> \<open>MemoryRepo\<close>: \<open>persistence/memory.py\<close>; \<open>MemoryProps\<close> interprets the locale for it,
      \<open>MemorySync\<close> shows that attempts and records stay in step, \<open>MemoryBinding\<close> that keys and
      requests never change.
    \<^item> \<open>Telemetry\<close>: the decisions of \<open>observability.py\<close>.
    \<^item> \<open>Processor\<close>: \<open>application/processing.py\<close>; \<open>ProcessorProps\<close> proves its invariants inside
      the locale, over any repository with the laws; \<open>ProcessorSafety\<close> states them over whole
      histories; \<open>ProcessorDeadline\<close> shows that a pass of reconciliation calls backends only within
      its deadline, over any repository; \<open>ProcessorRuns\<close> follows single calls to their end inside the
      locale \<open>recording_repository\<close>, whose laws say what each operation records when nothing interferes;
      \<open>ProcessorOutcomes\<close> interprets it for the in-memory repository, \<open>SubmissionErrors\<close> treats the calls
      whose backend raises.
    \<^item> \<open>Schemas\<close>, \<open>Api\<close>: \<open>api/schemas.py\<close> and \<open>api/app.py\<close>; \<open>ApiProps\<close>, \<open>ComponentProps\<close>: their
      properties and those of the single components.
    \<^item> \<open>PgSchema\<close>: the tables of \<open>migrations/versions\<close> as records, their constraints in the
      three-valued logic of SQL; what the database and the driver do with single values is the
      parameter \<open>pgsql\<close>. \<open>PgCodec\<close>, \<open>Postgres\<close>: \<open>persistence/postgres.py\<close>, the documents, the
      reading of rows, the statements, and every operation as one transaction. \<open>PostgresProps\<close>
      interprets the locale for it, \<open>PostgresSync\<close> shows that a processing and its attempt keep the
      same state, \<open>PostgresData\<close> that what is stored is read back and satisfies the constraints,
      \<open>PostgresHistory\<close> and \<open>PgMigration\<close> state the properties. \<open>PostgresRuns\<close> shows \<open>recording_repository\<close>
      for it, for a database and a driver that behave as documented (\<open>pg_documented\<close>).
    \<^item> \<open>Velociraptor\<close>: \<open>backends/velociraptor.py\<close>, the client on an environment that says what the
      API answers, and the backend; \<open>VeloProps\<close>: what its errors say, that queries cannot be forged,
      that it reports only the flow asked for, and that collection ends.
    \<^item> \<open>Startup\<close>: \<open>main.py\<close>, \<open>cli.py\<close> and the loading of the Velociraptor client; \<open>StartupProps\<close>: which
      settings start the service and with what; \<open>Deployment\<close>: the service so composed, on PostgreSQL,
      runs an alert to its end, with the mock and with Velociraptor.
    \<^item> \<open>PyNumber\<close>, \<open>JsonRead\<close>: \<open>int\<close>, \<open>decimal\<close> and \<open>json.loads\<close> as the Splunk parts use them;
      the reader is shown to invert the printer.
    \<^item> \<open>SplunkModels\<close>, \<open>SplunkMapping\<close>, \<open>SplunkAuth\<close>, \<open>SplunkClient\<close>, \<open>SplunkAdapter\<close>: the gateway,
      \<open>adapters/splunk\<close> - validation of findings, normalization and logical identity, the HMAC
      check, the client of the API, the handler and its configuration; \<open>SplunkMappingProps\<close> and
      \<open>SplunkGatewayProps\<close> hold their lemmas.
    \<^item> \<open>SplunkAction\<close>: the alert action \<open>alert2ir_delivery.py\<close>, from the invocation on standard
      input to the exit code; \<open>SplunkDeliveryProps\<close> follows its loop.
    \<^item> \<open>TimestampRange\<close>: which event times the mapping can place, with the rounding to 28 digits.
    \<^item> \<open>SplunkAcceptance\<close>: what the action builds, the gateway accepts; \<open>SplunkSamples\<close> has a
      concrete row, request and host; \<open>SplunkProps\<close> states the properties that span both ends.
    \<^item> \<open>SigmaData\<close>: \<open>tools/sigma/prepare_validation_data.py\<close>, with its own worlds and environment;
      \<open>SigmaDataProps\<close>: it hands on only what the manifest pins.

  \<^bold>\<open>State and environment.\<close> A method of the processor is a program on a \<open>world\<close>: the store, a
  step counter, the trace of claims and backend calls, the recorded metrics and the correlation
  context. What it cannot control is an \<open>env\<close> indexed by the step: clocks, fresh identifiers,
  the operations that other workers run before each repository call, and faults of a repository
  call before or after it takes effect. Backends are records of functions of the step, so they may
  answer differently every time.

  \<^bold>\<open>What is shown.\<close> Safety over every history (one claim and one submission per attempt, no
  resubmission, the transition table, permanent keys, the deadline of a reconciliation pass, bounded metric
  values); functional
  behaviour of single calls (completion, no action, replay, conflict, failed acceptance, failed
  submission, recovery of stale submissions, the bounds of a reconciliation pass); the same safety on PostgreSQL, with the
  one place where its repository differs from the in-memory one, and there the completion of every alert
  that the database can hold by a service as \<open>main.py\<close> composes it; equivalence of fingerprints and equality
  of alerts; routing, planning and the contract of the mock; the headers and log fields of
  the HTTP boundary. For Splunk: a row whose time does not overflow reaches the API as one alert under one
  key, whichever attempt arrives; nothing unauthenticated is posted; the two ends agree on what an answer means; a delivery
  is bounded. For Velociraptor: an error tells whether the query was sent, and a service started with its
  settings completes an investigation of the configured host. Recursion is structural, but for the reader of JSON, whose fuel is twice the length of
  the text it reads and two, the delivery loop, whose counter is the number of attempts left, and the
  loop of the legacy collection, whose fuel is enough when it exceeds the seconds of the timeout.

  \<^bold>\<open>Not modelled.\<close> The shell and PowerShell scripts of the lab; gRPC, the loader of the Velociraptor
  configuration and the loaders of pySigma, which are arguments; connections, timeouts and the isolation of
  PostgreSQL beyond one step per operation, and its limits on the size of fields and of index rows; FastAPI, pydantic's parsing and printing, OpenTelemetry
  and the logging library; durations and spans; interrupts and interpreter exits; the log lines of the delivery action. The
  file system, gzip, the CSV reader, \<open>urlsplit\<close> and the HTTP library of the action are arguments. Floats of the
  monotonic clock are rationals.
\<close>

end
